(* ===== verification/Prelude.thy ===== *)
theory Prelude
  imports Main "HOL-Library.Word" "HOL-Library.Monad_Syntax"
begin

text \<open>
  Shared vocabulary of the development: machine integers, results, the reading and writing
  side of a byte stream, the little-endian representation of numbers, and the generic lemmas
  on lists and words the component theories use.

  A stream is a list of bytes. A reader (\<open>std::io::Read\<close> plus a decoding function) maps the
  bytes still to be read to an error or to a value and the bytes left over. A writer is the
  list of bytes it appends, or an error. Writing to a growable in-memory buffer never fails,
  so the only errors of a writer are those the code raises itself.
\<close>

section \<open>Types\<close>

type_synonym u8 = "8 word"
type_synonym u16 = "16 word"
type_synonym u32 = "32 word"
type_synonym u64 = "64 word"

text \<open>Signed integers are words too; the model reads them with \<open>sint\<close> where the code compares them.\<close>

type_synonym i32 = "32 word"
type_synonym i64 = "64 word"

type_synonym bytes = "u8 list"

text \<open>The rewrite rules of the codecs, and the facts that let automation compose readers.\<close>

named_theorems wire_simps \<open>equations of readers and writers\<close>
named_theorems reader_intros \<open>introduction rules for well-behaved readers\<close>

section \<open>Results\<close>

text \<open>\<open>Result<T, E>\<close> with the error on the left, and the \<open>?\<close> operator as a bind.\<close>

definition bind_result :: "'e + 'a \<Rightarrow> ('a \<Rightarrow> 'e + 'b) \<Rightarrow> 'e + 'b" where
  "bind_result r f = (case r of Inl e \<Rightarrow> Inl e | Inr x \<Rightarrow> f x)"

lemma bind_result_simps [simp]:
  "bind_result (Inl e) f = Inl e"
  "bind_result (Inr x) f = f x"
  by (simp_all add: bind_result_def)

lemma bind_result_eq_Inr:
  "bind_result r f = Inr y \<longleftrightarrow> (\<exists>x. r = Inr x \<and> f x = Inr y)"
  by (cases r) auto

lemma bind_result_assoc: "bind_result (bind_result r f) g = bind_result r (\<lambda>x. bind_result (f x) g)"
  by (cases r) auto

definition is_ok :: "'e + 'a \<Rightarrow> bool" where
  "is_ok r = (case r of Inl _ \<Rightarrow> False | Inr _ \<Rightarrow> True)"

lemma is_ok_simps [simp]: "is_ok (Inr x)" "\<not> is_ok (Inl e)"
  by (simp_all add: is_ok_def)

lemma is_ok_iff: "is_ok r \<longleftrightarrow> (\<exists>x. r = Inr x)"
  by (cases r) auto

text \<open>
  Code that can panic returns an option, \<open>None\<close> being the panic; \<open>try_bind\<close> is \<open>?\<close> on a
  result in such code.
\<close>

definition try_bind :: "('e + 'a) option \<Rightarrow> ('a \<Rightarrow> ('e + 'b) option) \<Rightarrow> ('e + 'b) option" where
  "try_bind r f = (case r of None \<Rightarrow> None | Some (Inl e) \<Rightarrow> Some (Inl e) | Some (Inr x) \<Rightarrow> f x)"

lemma try_bind_simps [simp]:
  "try_bind None f = None"
  "try_bind (Some (Inl e)) f = Some (Inl e)"
  "try_bind (Some (Inr x)) f = f x"
  by (simp_all add: try_bind_def)

lemma try_bind_eq_Inr:
  "try_bind r f = Some (Inr y) \<longleftrightarrow> (\<exists>x. r = Some (Inr x) \<and> f x = Some (Inr y))"
  by (auto simp: try_bind_def split: option.splits sum.splits)

section \<open>Readers\<close>

lemma map_sum_eq_Inr: "map_sum f g s = Inr y \<longleftrightarrow> (\<exists>x. s = Inr x \<and> y = g x)"
  by (cases s) auto

type_synonym ('e, 'a) reader = "bytes \<Rightarrow> 'e + ('a \<times> bytes)"

definition rd_return :: "'a \<Rightarrow> ('e, 'a) reader" where
  "rd_return x = (\<lambda>s. Inr (x, s))"

definition rd_fail :: "'e \<Rightarrow> ('e, 'a) reader" where
  "rd_fail e = (\<lambda>s. Inl e)"

definition rd_bind :: "('e, 'a) reader \<Rightarrow> ('a \<Rightarrow> ('e, 'b) reader) \<Rightarrow> ('e, 'b) reader" where
  "rd_bind p f = (\<lambda>s. case p s of Inl e \<Rightarrow> Inl e | Inr (x, s') \<Rightarrow> f x s')"

definition rd_map :: "('a \<Rightarrow> 'b) \<Rightarrow> ('e, 'a) reader \<Rightarrow> ('e, 'b) reader" where
  "rd_map g p = rd_bind p (\<lambda>x. rd_return (g x))"

text \<open>\<open>read_exact\<close>: \<open>n\<close> bytes, or the error the caller maps the end of the stream to.\<close>

definition rd_exact :: "'e \<Rightarrow> nat \<Rightarrow> ('e, bytes) reader" where
  "rd_exact e n = (\<lambda>s. if n \<le> length s then Inr (take n s, drop n s) else Inl e)"

text \<open>A loop that reads \<open>n\<close> elements with the same reader.\<close>

fun rd_times :: "nat \<Rightarrow> ('e, 'a) reader \<Rightarrow> ('e, 'a list) reader" where
  "rd_times 0 p = rd_return []"
| "rd_times (Suc n) p = rd_bind p (\<lambda>x. rd_bind (rd_times n p) (\<lambda>xs. rd_return (x # xs)))"

lemma rd_return_apply [simp]: "rd_return x s = Inr (x, s)"
  by (simp add: rd_return_def)

lemma rd_fail_apply [simp]: "rd_fail e s = Inl e"
  by (simp add: rd_fail_def)

lemma rd_bind_apply: "rd_bind p f s = (case p s of Inl e \<Rightarrow> Inl e | Inr (x, s') \<Rightarrow> f x s')"
  by (simp add: rd_bind_def)

lemma rd_bind_Inr [simp]: "p s = Inr (x, s') \<Longrightarrow> rd_bind p f s = f x s'"
  by (simp add: rd_bind_def)

lemma rd_bind_Inl [simp]: "p s = Inl e \<Longrightarrow> rd_bind p f s = Inl e"
  by (simp add: rd_bind_def)

lemma rd_bind_eq_Inr:
  "rd_bind p f s = Inr y \<longleftrightarrow> (\<exists>x s'. p s = Inr (x, s') \<and> f x s' = Inr y)"
  by (auto simp: rd_bind_def split: sum.splits prod.splits)

lemma rd_map_Inr [simp]: "p s = Inr (x, s') \<Longrightarrow> rd_map g p s = Inr (g x, s')"
  by (simp add: rd_map_def)

lemma rd_map_Inl [simp]: "p s = Inl e \<Longrightarrow> rd_map g p s = Inl e"
  by (simp add: rd_map_def)

lemma rd_map_eq_Inr: "rd_map g p s = Inr (y, r) \<longleftrightarrow> (\<exists>x. p s = Inr (x, r) \<and> y = g x)"
  by (auto simp: rd_map_def rd_bind_eq_Inr)

lemma rd_exact_append [simp]: "length bs = n \<Longrightarrow> rd_exact e n (bs @ s) = Inr (bs, s)"
  by (simp add: rd_exact_def)

lemma rd_exact_short [simp]: "length s < n \<Longrightarrow> rd_exact e n s = Inl e"
  by (simp add: rd_exact_def)

subsection \<open>Well-behaved readers\<close>

text \<open>
  A reader only takes bytes from the front of the stream, and what it decodes does not depend
  on the bytes after the ones it took. Every decoding function of the code is one: it holds a
  \<open>Read\<close> and never looks back or ahead.
\<close>

definition front_reader :: "('e, 'a) reader \<Rightarrow> bool" where
  "front_reader p \<longleftrightarrow>
     (\<forall>s x r. p s = Inr (x, r) \<longrightarrow>
        (\<exists>c. s = c @ r \<and> (\<forall>t. p (c @ t) = Inr (x, t))))"

lemma front_readerD:
  "front_reader p \<Longrightarrow> p s = Inr (x, r) \<Longrightarrow> \<exists>c. s = c @ r \<and> (\<forall>t. p (c @ t) = Inr (x, t))"
  unfolding front_reader_def by blast

lemma front_reader_suffix:
  assumes "front_reader p" and "p s = Inr (x, r)"
  shows "p (s @ t) = Inr (x, r @ t)"
proof -
  from assms obtain c where "s = c @ r" and "\<forall>t. p (c @ t) = Inr (x, t)"
    by (blast dest: front_readerD)
  then show ?thesis by simp
qed

lemma front_reader_return [simp, reader_intros]: "front_reader (rd_return x)"
  by (simp add: front_reader_def)

lemma front_reader_fail [simp, reader_intros]: "front_reader (rd_fail e)"
  by (simp add: front_reader_def)

lemma front_reader_exact [simp, reader_intros]: "front_reader (rd_exact e n)"
  unfolding front_reader_def
proof (intro allI impI)
  fix s x r
  assume "rd_exact e n s = Inr (x, r)"
  then have "n \<le> length s" and "x = take n s" and "r = drop n s"
    by (auto simp: rd_exact_def split: if_splits)
  then have "s = x @ r \<and> (\<forall>t. rd_exact e n (x @ t) = Inr (x, t))"
    by simp
  then show "\<exists>c. s = c @ r \<and> (\<forall>t. rd_exact e n (c @ t) = Inr (x, t))"
    by blast
qed

lemma front_reader_bind [reader_intros]:
  assumes p: "front_reader p" and f: "\<And>x. front_reader (f x)"
  shows "front_reader (rd_bind p f)"
  unfolding front_reader_def
proof (intro allI impI)
  fix s y r
  assume "rd_bind p f s = Inr (y, r)"
  then obtain x s' where ps: "p s = Inr (x, s')" and fs: "f x s' = Inr (y, r)"
    by (auto simp: rd_bind_eq_Inr)
  obtain c where c: "s = c @ s'" "\<forall>t. p (c @ t) = Inr (x, t)"
    using p ps by (blast dest: front_readerD)
  obtain d where d: "s' = d @ r" "\<forall>t. f x (d @ t) = Inr (y, t)"
    using f fs by (blast dest: front_readerD)
  have "s = (c @ d) @ r \<and> (\<forall>t. rd_bind p f ((c @ d) @ t) = Inr (y, t))"
    using c d by simp
  then show "\<exists>c. s = c @ r \<and> (\<forall>t. rd_bind p f (c @ t) = Inr (y, t))"
    by blast
qed

lemma front_reader_map [reader_intros]: "front_reader p \<Longrightarrow> front_reader (rd_map g p)"
  unfolding rd_map_def by (intro reader_intros)

lemma front_reader_times [reader_intros]: "front_reader p \<Longrightarrow> front_reader (rd_times n p)"
  by (induction n) (auto intro!: reader_intros)

lemma front_reader_if [reader_intros]:
  "front_reader p \<Longrightarrow> front_reader q \<Longrightarrow> front_reader (if b then p else q)"
  by simp

lemma front_reader_option_case [reader_intros]:
  "front_reader p \<Longrightarrow> (\<And>x. front_reader (q x)) \<Longrightarrow>
   front_reader (case ox of None \<Rightarrow> p | Some x \<Rightarrow> q x)"
  by (simp split: option.split)

section \<open>Writers\<close>

text \<open>Two writes one after the other; the first error stops.\<close>

definition wr_seq :: "'e + bytes \<Rightarrow> 'e + bytes \<Rightarrow> 'e + bytes" where
  "wr_seq a b = bind_result a (\<lambda>x. bind_result b (\<lambda>y. Inr (x @ y)))"

lemma wr_seq_simps [simp]:
  "wr_seq (Inl e) b = Inl e"
  "wr_seq (Inr x) (Inl e) = Inl e"
  "wr_seq (Inr x) (Inr y) = Inr (x @ y)"
  by (simp_all add: wr_seq_def)

lemma wr_seq_eq_Inr:
  "wr_seq a b = Inr z \<longleftrightarrow> (\<exists>x y. a = Inr x \<and> b = Inr y \<and> z = x @ y)"
  by (auto simp: wr_seq_def bind_result_eq_Inr)

lemma wr_seq_assoc: "wr_seq (wr_seq a b) c = wr_seq a (wr_seq b c)"
  by (cases a; cases b; cases c) simp_all

text \<open>A loop that writes the elements of a vector.\<close>

fun wr_all :: "('a \<Rightarrow> 'e + bytes) \<Rightarrow> 'a list \<Rightarrow> 'e + bytes" where
  "wr_all w [] = Inr []"
| "wr_all w (x # xs) = wr_seq (w x) (wr_all w xs)"

lemma wr_all_cong [fundef_cong]:
  "xs = ys \<Longrightarrow> (\<And>x. x \<in> set ys \<Longrightarrow> v x = w x) \<Longrightarrow> wr_all v xs = wr_all w ys"
  by (induction xs arbitrary: ys) auto

lemma wr_all_length:
  assumes "wr_all w xs = Inr bs" and "\<And>x b. x \<in> set xs \<Longrightarrow> w x = Inr b \<Longrightarrow> length b = l x"
  shows "length bs = sum_list (map l xs)"
  using assms
proof (induction xs arbitrary: bs)
  case Nil
  then show ?case by simp
next
  case (Cons x xs)
  then obtain b bs' where "w x = Inr b" "wr_all w xs = Inr bs'" "bs = b @ bs'"
    by (auto simp: wr_seq_eq_Inr)
  with Cons show ?case by simp
qed

lemma rd_times_wr_all:
  assumes "wr_all w xs = Inr bs"
    and "\<And>x b t. x \<in> set xs \<Longrightarrow> w x = Inr b \<Longrightarrow> p (b @ t) = Inr (x, t)"
  shows "rd_times (length xs) p (bs @ t) = Inr (xs, t)"
  using assms
proof (induction xs arbitrary: bs)
  case Nil
  then show ?case by simp
next
  case (Cons x xs)
  from Cons.prems(1) obtain b bs' where
    *: "w x = Inr b" "wr_all w xs = Inr bs'" "bs = b @ bs'"
    by (auto simp: wr_seq_eq_Inr)
  have "p (b @ bs' @ t) = Inr (x, bs' @ t)"
    using Cons.prems(2) *(1) by simp
  moreover have "rd_times (length xs) p (bs' @ t) = Inr (xs, t)"
    using Cons.IH [OF *(2)] Cons.prems(2) by simp
  ultimately show ?case
    using *(3) by simp
qed

section \<open>Little-endian numbers\<close>

fun le_bytes :: "nat \<Rightarrow> nat \<Rightarrow> bytes" where
  "le_bytes 0 v = []"
| "le_bytes (Suc n) v = word_of_nat (v mod 256) # le_bytes n (v div 256)"

fun le_value :: "bytes \<Rightarrow> nat" where
  "le_value [] = 0"
| "le_value (b # bs) = unat b + 256 * le_value bs"

text \<open>For evaluation on literals; not a simplification rule, since it would unfold every codec.\<close>

lemma le_bytes_eval: "le_bytes (numeral k) v = word_of_nat (v mod 256) # le_bytes (pred_numeral k) (v div 256)"
  by (simp only: numeral_eq_Suc [of k] le_bytes.simps)

lemma length_le_bytes [simp]: "length (le_bytes n v) = n"
  by (induction n arbitrary: v) simp_all

lemma le_value_le_bytes [simp]: "le_value (le_bytes n v) = v mod 256 ^ n"
proof (induction n arbitrary: v)
  case 0
  then show ?case by simp
next
  case (Suc n)
  have "v mod 256 + 256 * (v div 256 mod 256 ^ n) = v mod (256 * 256 ^ n)"
    by (metis mod_mult2_eq add.commute)
  with Suc show ?case by (simp add: unat_of_nat)
qed

lemma unat_lt_two_power: "unat (x :: 'a::len word) < 2 ^ LENGTH('a)"
  by (rule unsigned_less)

lemma unat_eqI: "unat x = unat y \<Longrightarrow> x = (y :: 'a::len word)"
  by (rule unsigned_word_eqI)

lemma unat_byte_lt [simp]: "unat (b :: u8) < 256"
  using unat_lt_two_power [of b] by simp

lemma le_value_bound: "le_value bs < 256 ^ length bs"
proof (induction bs)
  case Nil
  then show ?case by simp
next
  case (Cons b bs)
  have "unat b < 256" by simp
  moreover have "256 * le_value bs + 256 \<le> 256 * 256 ^ length bs"
    using Cons by simp
  ultimately have "unat b + 256 * le_value bs < 256 * 256 ^ length bs"
    by linarith
  then show ?case by simp
qed

lemma le_bytes_le_value: "le_bytes (length bs) (le_value bs) = bs"
proof (induction bs)
  case Nil
  then show ?case by simp
next
  case (Cons b bs)
  have b: "unat b < 256" by simp
  then have "word_of_nat ((unat b + 256 * le_value bs) mod 256) = b" by simp
  moreover have "(unat b + 256 * le_value bs) div 256 = le_value bs" using b by simp
  ultimately show ?case using Cons by simp
qed

lemma word_of_nat_mod_256_power:
  fixes x :: "'a::len word"
  assumes "LENGTH('a) = 8 * n"
  shows "word_of_nat (unat x mod 256 ^ n) = x"
proof -
  have "(256::nat) ^ n = 2 ^ LENGTH('a)"
    using assms by (simp add: power_mult)
  then have "unat x mod 256 ^ n = unat x"
    using unat_lt_two_power [of x] by simp
  then show ?thesis by simp
qed

lemma sint_of_nat_small:
  assumes "n < 2 ^ (LENGTH('a::len) - 1)"
  shows "sint (word_of_nat n :: 'a word) = int n"
proof -
  have "n < 2 ^ LENGTH('a)"
    using assms by (rule less_le_trans) simp
  then have "uint (word_of_nat n :: 'a word) = int n"
    by (simp add: unsigned_of_nat take_bit_nat_eq_self)
  moreover have "int n < 2 ^ (LENGTH('a) - 1)"
    using assms by (metis of_nat_less_iff of_nat_numeral of_nat_power)
  moreover have "- (2 ^ (LENGTH('a) - 1)) \<le> int n"
    by (rule order_trans [of _ 0]) simp_all
  ultimately show ?thesis
    by (simp only: sint_uint signed_take_bit_int_eq_self One_nat_def)
qed

lemma add_mod_inj:
  fixes p :: nat
  assumes "(p + i) mod q = (p + j) mod q" "i < q" "j < q"
  shows "i = j"
proof -
  have "i = j" if eq: "(p + i) mod q = (p + j) mod q" and le: "j \<le> i" and lt: "i < q" for i j
  proof -
    have "q dvd (p + i) - (p + j)"
      using mod_eq_dvd_iff_nat [of "p + j" "p + i" q] eq le by simp
    then have "q dvd i - j" by simp
    moreover have "i - j < q" using lt by simp
    ultimately have "i - j = 0" using dvd_imp_le by fastforce
    then show ?thesis using le by simp
  qed
  then show ?thesis using assms by (metis nat_le_linear)
qed

text \<open>ASCII literals of the source as bytes.\<close>

definition ascii :: "string \<Rightarrow> bytes" where
  "ascii s = map of_char s"

lemma length_ascii [simp]: "length (ascii s) = length s"
  by (simp add: ascii_def)

lemma ascii_simps [simp]: "ascii [] = []" "ascii (c # s) = of_char c # ascii s"
  by (simp_all add: ascii_def)

section \<open>Ordered collections of the standard library\<close>

text \<open>\<open>BTreeMap\<close> and \<open>BTreeSet\<close> as ascending lists.\<close>

fun om_insert :: "'k::linorder \<Rightarrow> 'v \<Rightarrow> ('k \<times> 'v) list \<Rightarrow> ('k \<times> 'v) list" where
  "om_insert k v [] = [(k, v)]"
| "om_insert k v ((k', v') # r) =
     (if k < k' then (k, v) # (k', v') # r else if k = k' then (k, v) # r else (k', v') # om_insert k v r)"

definition om_remove :: "'k \<Rightarrow> ('k \<times> 'v) list \<Rightarrow> ('k \<times> 'v) list" where
  "om_remove k m = filter (\<lambda>x. fst x \<noteq> k) m"

fun os_insert :: "'k::linorder \<Rightarrow> 'k list \<Rightarrow> 'k list" where
  "os_insert k [] = [k]"
| "os_insert k (x # r) = (if k < x then k # x # r else if k = x then x # r else x # os_insert k r)"

definition os_remove :: "'k \<Rightarrow> 'k list \<Rightarrow> 'k list" where
  "os_remove k s = filter (\<lambda>x. x \<noteq> k) s"

lemma om_insert_last: "\<forall>x \<in> set m. fst x < k \<Longrightarrow> om_insert k v m = m @ [(k, v)]"
  by (induction k v m rule: om_insert.induct) auto

lemma os_insert_last: "\<forall>x \<in> set s. x < k \<Longrightarrow> os_insert k s = s @ [k]"
  by (induction k s rule: os_insert.induct) auto

lemma map_of_om_insert [simp]: "map_of (om_insert k v m) = (map_of m)(k \<mapsto> v)"
  by (induction k v m rule: om_insert.induct) (auto simp: fun_upd_twist)

lemma keys_om_insert [simp]: "fst ` set (om_insert k v m) = insert k (fst ` set m)"
  by (induction k v m rule: om_insert.induct) auto

lemma set_om_insert: "set (om_insert k v m) \<subseteq> insert (k, v) (set m)"
  by (induction k v m rule: om_insert.induct) auto

lemma sorted_om_insert: "sorted_wrt (<) (map fst m) \<Longrightarrow> sorted_wrt (<) (map fst (om_insert k v m))"
proof (induction k v m rule: om_insert.induct)
  case (2 k v k' v' r)
  have "\<forall>x\<in>set (om_insert k v r). k' < fst x" if "k' < k"
    using 2(2) that set_om_insert [of k v r] by fastforce
  then show ?case using 2 by (auto simp: less_trans)
qed simp

lemma om_insert_same: "sorted_wrt (<) (map fst m) \<Longrightarrow> map_of m k = Some v \<Longrightarrow> om_insert k v m = m"
proof (induction k v m rule: om_insert.induct)
  case (2 k v k' v' r)
  then show ?case by (auto split: if_splits dest!: map_of_SomeD)
qed simp

lemma map_of_om_remove [simp]: "map_of (om_remove k m) = (map_of m)(k := None)"
  by (induction m) (auto simp: om_remove_def)

lemma keys_om_remove [simp]: "fst ` set (om_remove k m) = fst ` set m - {k}"
  by (auto simp: om_remove_def)

lemma sorted_om_remove: "sorted_wrt (<) (map fst m) \<Longrightarrow> sorted_wrt (<) (map fst (om_remove k m))"
  by (induction m) (auto simp: om_remove_def)

end
