(* ===== verification/Encoding.thy ===== *)
theory Encoding
  imports Prelude
begin

text \<open>
  The primitives of the binary encoding, after \<open>async-opcua-types/src/encoding.rs\<close>,
  \<open>basic_types.rs\<close>, \<open>string.rs\<close>, \<open>byte_string.rs\<close>, \<open>guid.rs\<close> and the encodable part of
  \<open>status_code.rs\<close>: errors, decoding limits, the recursion gauge, reading and writing of
  scalars, arrays, strings and byte strings. The locale \<open>wire_format\<close> is the contract the
  traits \<open>BinaryEncodable\<close> and \<open>BinaryDecodable\<close> document (the byte length is exact, decoding
  inverts encoding and takes nothing but the encoded bytes); it is interpreted for every type.

  Floating point numbers are their IEEE bit patterns. The message text an error carries for
  logging is not modelled.
\<close>

section \<open>Errors\<close>

type_synonym StatusCode = u32

definition Good :: StatusCode where "Good = 0"
definition BadUnexpectedError :: StatusCode where "BadUnexpectedError = 0x80010000"
definition BadCommunicationError :: StatusCode where "BadCommunicationError = 0x80050000"
definition BadEncodingError :: StatusCode where "BadEncodingError = 0x80060000"
definition BadDecodingError :: StatusCode where "BadDecodingError = 0x80070000"
definition BadEncodingLimitsExceeded :: StatusCode where "BadEncodingLimitsExceeded = 0x80080000"

record ua_error =
  err_status :: StatusCode
  err_request_id :: "u32 option"
  err_request_handle :: "u32 option"

definition Error_new :: "StatusCode \<Rightarrow> ua_error" where
  "Error_new status = \<lparr>err_status = status, err_request_id = None, err_request_handle = None\<rparr>"

definition Error_decoding :: ua_error where
  "Error_decoding =
     \<lparr>err_status = BadDecodingError, err_request_id = None, err_request_handle = None\<rparr>"

definition Error_encoding :: ua_error where
  "Error_encoding =
     \<lparr>err_status = BadEncodingError, err_request_id = None, err_request_handle = None\<rparr>"

definition with_context :: "ua_error \<Rightarrow> u32 option \<Rightarrow> u32 option \<Rightarrow> ua_error" where
  "with_context e request_id request_handle =
     e\<lparr>err_request_id := request_id, err_request_handle := request_handle\<rparr>"

definition full_context :: "ua_error \<Rightarrow> (u32 \<times> u32) option" where
  "full_context e =
     (case (err_request_id e, err_request_handle e) of
        (Some request_id, Some handle) \<Rightarrow> Some (request_id, handle)
      | _ \<Rightarrow> None)"

type_synonym 'a encoding_result = "ua_error + 'a"
type_synonym 'a decoder = "(ua_error, 'a) reader"

section \<open>Decoding options and the recursion gauge\<close>

definition MAX_ARRAY_LENGTH :: nat where "MAX_ARRAY_LENGTH = 1000"
definition MAX_STRING_LENGTH :: nat where "MAX_STRING_LENGTH = 65535"
definition MAX_BYTE_STRING_LENGTH :: nat where "MAX_BYTE_STRING_LENGTH = 65535"
definition MAX_CHUNK_COUNT :: nat where "MAX_CHUNK_COUNT = 5"
definition MAX_MESSAGE_SIZE :: nat where "MAX_MESSAGE_SIZE = 65535 * MAX_CHUNK_COUNT"
definition MAX_DECODING_DEPTH :: nat where "MAX_DECODING_DEPTH = 10"

record DepthGauge =
  max_depth :: nat
  current_depth :: nat

record DecodingOptions =
  max_message_size :: nat
  max_chunk_count :: nat
  max_string_length :: nat
  max_byte_string_length :: nat
  max_array_length :: nat
  decoding_depth_gauge :: DepthGauge

definition DepthGauge_new :: "nat \<Rightarrow> DepthGauge" where
  "DepthGauge_new m = \<lparr>max_depth = m, current_depth = 0\<rparr>"

definition DecodingOptions_default :: DecodingOptions where
  "DecodingOptions_default =
     \<lparr>max_message_size = MAX_MESSAGE_SIZE, max_chunk_count = MAX_CHUNK_COUNT,
      max_string_length = MAX_STRING_LENGTH, max_byte_string_length = MAX_BYTE_STRING_LENGTH,
      max_array_length = MAX_ARRAY_LENGTH,
      decoding_depth_gauge = DepthGauge_new MAX_DECODING_DEPTH\<rparr>"

definition DecodingOptions_minimal :: DecodingOptions where
  "DecodingOptions_minimal =
     DecodingOptions_default\<lparr>max_string_length := 8192, max_byte_string_length := 8192,
       max_array_length := 8192, decoding_depth_gauge := DepthGauge_new 1\<rparr>"

text \<open>
  \<open>DepthLock::obtain\<close> adds one to the gauge and, when the gauge had already reached the
  maximum, drops the lock again and fails; a lock that is dropped takes its one off. Both the
  gauge afterwards and the result are returned.
\<close>

definition DepthLock_drop :: "DepthGauge \<Rightarrow> DepthGauge" where
  "DepthLock_drop g = g\<lparr>current_depth := current_depth g - 1\<rparr>"

definition DepthLock_obtain :: "DepthGauge \<Rightarrow> DepthGauge \<times> unit encoding_result" where
  "DepthLock_obtain g =
     (let g' = g\<lparr>current_depth := current_depth g + 1\<rparr>
      in if max_depth g \<le> current_depth g then (DepthLock_drop g', Inl Error_decoding)
         else (g', Inr ()))"

text \<open>The number of locks that can still be nested; the recursive decoders descend on it.\<close>

definition depth_left :: "DepthGauge \<Rightarrow> nat" where
  "depth_left g = max_depth g - current_depth g"

section \<open>Scalars\<close>

definition process_encode_io_result :: "bytes \<Rightarrow> bytes encoding_result" where
  "process_encode_io_result bs = Inr bs"

text \<open>\<open>process_decode_io_result(stream.read_exact(buf))\<close>\<close>

definition read_bytes :: "nat \<Rightarrow> bytes decoder" where
  "read_bytes n = rd_exact Error_decoding n"

definition write_bytes :: "u8 \<Rightarrow> nat \<Rightarrow> bytes encoding_result" where
  "write_bytes value count = Inr (replicate count value)"

definition write_u8 :: "u8 \<Rightarrow> bytes encoding_result" where
  "write_u8 v = process_encode_io_result [v]"

definition write_i16 :: "16 word \<Rightarrow> bytes encoding_result" where
  "write_i16 v = process_encode_io_result (le_bytes 2 (unat v))"

definition write_u16 :: "u16 \<Rightarrow> bytes encoding_result" where
  "write_u16 v = process_encode_io_result (le_bytes 2 (unat v))"

definition write_i32 :: "i32 \<Rightarrow> bytes encoding_result" where
  "write_i32 v = process_encode_io_result (le_bytes 4 (unat v))"

definition write_u32 :: "u32 \<Rightarrow> bytes encoding_result" where
  "write_u32 v = process_encode_io_result (le_bytes 4 (unat v))"

definition write_i64 :: "i64 \<Rightarrow> bytes encoding_result" where
  "write_i64 v = process_encode_io_result (le_bytes 8 (unat v))"

definition write_u64 :: "u64 \<Rightarrow> bytes encoding_result" where
  "write_u64 v = process_encode_io_result (le_bytes 8 (unat v))"

definition write_f32 :: "u32 \<Rightarrow> bytes encoding_result" where
  "write_f32 v = process_encode_io_result (le_bytes 4 (unat v))"

definition write_f64 :: "u64 \<Rightarrow> bytes encoding_result" where
  "write_f64 v = process_encode_io_result (le_bytes 8 (unat v))"

definition read_u8 :: "u8 decoder" where
  "read_u8 = rd_map hd (read_bytes 1)"

definition read_i16 :: "16 word decoder" where
  "read_i16 = rd_map (\<lambda>b. word_of_nat (le_value b)) (read_bytes 2)"

definition read_u16 :: "u16 decoder" where
  "read_u16 = rd_map (\<lambda>b. word_of_nat (le_value b)) (read_bytes 2)"

definition read_i32 :: "i32 decoder" where
  "read_i32 = rd_map (\<lambda>b. word_of_nat (le_value b)) (read_bytes 4)"

definition read_u32 :: "u32 decoder" where
  "read_u32 = rd_map (\<lambda>b. word_of_nat (le_value b)) (read_bytes 4)"

definition read_i64 :: "i64 decoder" where
  "read_i64 = rd_map (\<lambda>b. word_of_nat (le_value b)) (read_bytes 8)"

definition read_u64 :: "u64 decoder" where
  "read_u64 = rd_map (\<lambda>b. word_of_nat (le_value b)) (read_bytes 8)"

definition read_f32 :: "u32 decoder" where
  "read_f32 = rd_map (\<lambda>b. word_of_nat (le_value b)) (read_bytes 4)"

definition read_f64 :: "u64 decoder" where
  "read_f64 = rd_map (\<lambda>b. word_of_nat (le_value b)) (read_bytes 8)"

text \<open>\<open>skip_bytes\<close> copies at most \<open>n\<close> bytes to nowhere: a short stream is not an error.\<close>

definition skip_bytes :: "nat \<Rightarrow> unit decoder" where
  "skip_bytes n = (\<lambda>s. Inr ((), drop n s))"

text \<open>Booleans are one byte; any non-zero value decodes as true.\<close>

definition encode_bool :: "bool \<Rightarrow> bytes encoding_result" where
  "encode_bool b = write_u8 (if b then 1 else 0)"

definition decode_bool :: "bool decoder" where
  "decode_bool = rd_map (\<lambda>v. v \<noteq> 0) read_u8"

section \<open>Arrays\<close>

definition encode_array :: "('a \<Rightarrow> bytes encoding_result) \<Rightarrow> 'a list option \<Rightarrow> bytes encoding_result" where
  "encode_array enc vals =
     (case vals of
        Some vs \<Rightarrow> wr_seq (write_i32 (word_of_nat (length vs))) (wr_all enc vs)
      | None \<Rightarrow> write_i32 (- 1))"

definition decode_array :: "DecodingOptions \<Rightarrow> 'a decoder \<Rightarrow> 'a list option decoder" where
  "decode_array opts dec =
     rd_bind read_i32 (\<lambda>len.
       if sint len = - 1 then rd_return None
       else if sint len < - 1 then rd_fail Error_decoding
       else if max_array_length opts < nat (sint len) then rd_fail Error_decoding
       else rd_map Some (rd_times (nat (sint len)) dec))"

definition byte_len_array :: "nat option \<Rightarrow> ('a \<Rightarrow> nat) \<Rightarrow> 'a list option \<Rightarrow> nat" where
  "byte_len_array fixed blen vals =
     4 + (case vals of
            Some vs \<Rightarrow> (case fixed of
                          Some value_len \<Rightarrow> length vs * value_len
                        | None \<Rightarrow> sum_list (map blen vs))
          | None \<Rightarrow> 0)"

section \<open>Strings, byte strings, GUIDs\<close>

text \<open>
  A Rust \<open>String\<close> is a byte vector that is valid UTF-8; \<open>utf8_valid\<close> is the test
  \<open>String::from_utf8\<close> makes (no overlong forms, no surrogates, at most U+10FFFF).
\<close>

definition utf8_cont :: "u8 \<Rightarrow> bool" where
  "utf8_cont b \<longleftrightarrow> 0x80 \<le> unat b \<and> unat b \<le> 0xBF"

fun utf8_valid :: "bytes \<Rightarrow> bool" where
  "utf8_valid [] = True"
| "utf8_valid (a # bs) =
     (if unat a < 0x80 then utf8_valid bs
      else if 0xC2 \<le> unat a \<and> unat a \<le> 0xDF then
        (case bs of b # r \<Rightarrow> utf8_cont b \<and> utf8_valid r | _ \<Rightarrow> False)
      else if 0xE0 \<le> unat a \<and> unat a \<le> 0xEF then
        (case bs of b # c # r \<Rightarrow>
             utf8_cont b \<and> utf8_cont c
             \<and> (unat a = 0xE0 \<longrightarrow> 0xA0 \<le> unat b) \<and> (unat a = 0xED \<longrightarrow> unat b \<le> 0x9F)
             \<and> utf8_valid r
         | _ \<Rightarrow> False)
      else if 0xF0 \<le> unat a \<and> unat a \<le> 0xF4 then
        (case bs of b # c # d # r \<Rightarrow>
             utf8_cont b \<and> utf8_cont c \<and> utf8_cont d
             \<and> (unat a = 0xF0 \<longrightarrow> 0x90 \<le> unat b) \<and> (unat a = 0xF4 \<longrightarrow> unat b \<le> 0x8F)
             \<and> utf8_valid r
         | _ \<Rightarrow> False)
      else False)"

text \<open>\<open>UAString\<close> and \<open>ByteString\<close>: null is distinct from empty.\<close>

type_synonym UAString = "bytes option"
type_synonym ByteString = "bytes option"

definition UAString_is_empty :: "UAString \<Rightarrow> bool" where
  "UAString_is_empty s \<longleftrightarrow> s = None \<or> s = Some []"

definition UAString_as_ref :: "UAString \<Rightarrow> bytes" where
  "UAString_as_ref s = (case s of Some v \<Rightarrow> v | None \<Rightarrow> [])"

definition byte_len_UAString :: "UAString \<Rightarrow> nat" where
  "byte_len_UAString s = 4 + (case s of Some v \<Rightarrow> length v | None \<Rightarrow> 0)"

definition encode_UAString :: "UAString \<Rightarrow> bytes encoding_result" where
  "encode_UAString s =
     (case s of
        Some v \<Rightarrow> wr_seq (write_i32 (word_of_nat (length v))) (process_encode_io_result v)
      | None \<Rightarrow> write_i32 (- 1))"

definition decode_UAString :: "DecodingOptions \<Rightarrow> UAString decoder" where
  "decode_UAString opts =
     rd_bind read_i32 (\<lambda>len.
       if sint len = - 1 then rd_return None
       else if sint len < - 1 then rd_fail Error_decoding
       else if max_string_length opts < nat (sint len) then rd_fail Error_decoding
       else rd_bind (read_bytes (nat (sint len))) (\<lambda>buf.
              if utf8_valid buf then rd_return (Some buf) else rd_fail Error_decoding))"

definition byte_len_ByteString :: "ByteString \<Rightarrow> nat" where
  "byte_len_ByteString s = 4 + (case s of Some v \<Rightarrow> length v | None \<Rightarrow> 0)"

definition encode_ByteString :: "ByteString \<Rightarrow> bytes encoding_result" where
  "encode_ByteString s =
     (case s of
        Some v \<Rightarrow> wr_seq (write_i32 (word_of_nat (length v))) (process_encode_io_result v)
      | None \<Rightarrow> write_i32 (- 1))"

text \<open>\<open>stream.take(n).read_to_end\<close> followed by the comparison of the number of bytes read.\<close>

definition decode_ByteString :: "DecodingOptions \<Rightarrow> ByteString decoder" where
  "decode_ByteString opts =
     rd_bind read_i32 (\<lambda>len.
       if sint len = - 1 then rd_return None
       else if sint len < - 1 then rd_fail Error_decoding
       else if max_byte_string_length opts < nat (sint len) then rd_fail Error_decoding
       else rd_bind (\<lambda>s. Inr (take (nat (sint len)) s, drop (nat (sint len)) s)) (\<lambda>buf.
              if length buf \<noteq> nat (sint len) then rd_fail Error_decoding
              else rd_return (Some buf)))"

type_synonym Guid = bytes

definition encode_Guid :: "Guid \<Rightarrow> bytes encoding_result" where
  "encode_Guid g = process_encode_io_result g"

definition decode_Guid :: "Guid decoder" where
  "decode_Guid = read_bytes 16"

definition encode_StatusCode :: "StatusCode \<Rightarrow> bytes encoding_result" where
  "encode_StatusCode c = write_u32 c"

definition decode_StatusCode :: "StatusCode decoder" where
  "decode_StatusCode = read_u32"

section \<open>The contract of an encodable type\<close>

text \<open>
  \<open>ok\<close> delimits the vals a type can represent and the decoding options admit. On those,
  \<open>encode\<close> writes exactly \<open>byte_len\<close> bytes and \<open>decode\<close> gives the value back from those bytes,
  leaving whatever follows them.
\<close>

locale wire_format =
  fixes enc :: "'a \<Rightarrow> bytes encoding_result"
    and dec :: "'a decoder"
    and blen :: "'a \<Rightarrow> nat"
    and ok :: "'a \<Rightarrow> bool"
  assumes encodes: "ok x \<Longrightarrow> \<exists>bs. enc x = Inr bs \<and> length bs = blen x"
    and decodes: "ok x \<Longrightarrow> enc x = Inr bs \<Longrightarrow> dec (bs @ t) = Inr (x, t)"
    and front: "front_reader dec"
begin

lemma enc_length: "ok x \<Longrightarrow> enc x = Inr bs \<Longrightarrow> length bs = blen x"
  using encodes by fastforce

lemma enc_inj: "ok x \<Longrightarrow> ok y \<Longrightarrow> enc x = enc y \<Longrightarrow> x = y"
  using encodes decodes by (metis Inr_inject Pair_inject)

text \<open>No encoding is a proper prefix of another: a stream has at most one reading.\<close>

lemma enc_prefix_free:
  assumes "ok x" "ok y" "enc x = Inr a" "enc y = Inr b" "a @ t = b @ u"
  shows "x = y \<and> a = b \<and> t = u"
proof -
  from assms have "dec (a @ t) = Inr (x, t)" "dec (a @ t) = Inr (y, u)"
    using decodes by metis+
  then have "x = y" "t = u" by auto
  with assms show ?thesis by simp
qed

text \<open>A value decoded from a prefix of a longer stream is the value decoded from all of it.\<close>

lemma dec_more: "dec s = Inr (x, r) \<Longrightarrow> dec (s @ t) = Inr (x, r @ t)"
  by (rule front_reader_suffix [OF front])

lemma dec_consumes: "dec s = Inr (x, r) \<Longrightarrow> length r \<le> length s"
  using front_readerD [OF front] by fastforce

lemma wr_all_encodes: "\<forall>x \<in> set xs. ok x \<Longrightarrow>
    \<exists>bs. wr_all enc xs = Inr bs \<and> length bs = sum_list (map blen xs)"
proof (induction xs)
  case Nil
  then show ?case by simp
next
  case (Cons x xs)
  then obtain bs where "wr_all enc xs = Inr bs" "length bs = sum_list (map blen xs)"
    by auto
  moreover obtain b where "enc x = Inr b" "length b = blen x"
    using Cons.prems encodes by auto
  ultimately show ?case by simp
qed

lemma rd_times_decodes:
  assumes "\<forall>x \<in> set xs. ok x" and "wr_all enc xs = Inr bs" and "n = length xs"
  shows "rd_times n dec (bs @ t) = Inr (xs, t)"
  unfolding assms(3) by (rule rd_times_wr_all [OF assms(2)]) (use assms(1) decodes in blast)

end

subsection \<open>Scalars\<close>

lemmas write_defs = write_u8_def write_i16_def write_u16_def write_i32_def write_u32_def
  write_i64_def write_u64_def write_f32_def write_f64_def process_encode_io_result_def

lemmas read_defs = read_u8_def read_i16_def read_u16_def read_i32_def read_u32_def
  read_i64_def read_u64_def read_f32_def read_f64_def read_bytes_def

lemma write_total [simp]:
  "write_u8 b = Inr [b]"
  "write_i16 v = Inr (le_bytes 2 (unat v))" "write_u16 v = Inr (le_bytes 2 (unat v))"
  "write_i32 w = Inr (le_bytes 4 (unat w))" "write_u32 w = Inr (le_bytes 4 (unat w))"
  "write_i64 x = Inr (le_bytes 8 (unat x))" "write_u64 x = Inr (le_bytes 8 (unat x))"
  "write_f32 w = Inr (le_bytes 4 (unat w))" "write_f64 x = Inr (le_bytes 8 (unat x))"
  by (simp_all add: write_defs)

lemma read_u8_Cons [simp]: "read_u8 (b # s) = Inr (b, s)"
  by (simp add: read_defs rd_map_def rd_bind_def rd_exact_def)

lemma read_u8_Nil [simp]: "read_u8 [] = Inl Error_decoding"
  by (simp add: read_defs)

lemma rd_map_le:
  fixes v :: "'a::len word"
  assumes "LENGTH('a) = 8 * n"
  shows "rd_map (\<lambda>b. word_of_nat (le_value b)) (read_bytes n) (le_bytes n (unat v) @ s) = Inr (v, s)"
proof -
  have "read_bytes n (le_bytes n (unat v) @ s) = Inr (le_bytes n (unat v), s)"
    by (simp add: read_bytes_def)
  then show ?thesis
    using word_of_nat_mod_256_power [OF assms, of v] by simp
qed

lemma read_le [simp]:
  "read_i16 (le_bytes 2 (unat v) @ s) = Inr (v, s)" "read_u16 (le_bytes 2 (unat v) @ s) = Inr (v, s)"
  "read_i32 (le_bytes 4 (unat w) @ s) = Inr (w, s)" "read_u32 (le_bytes 4 (unat w) @ s) = Inr (w, s)"
  "read_i64 (le_bytes 8 (unat x) @ s) = Inr (x, s)" "read_u64 (le_bytes 8 (unat x) @ s) = Inr (x, s)"
  "read_f32 (le_bytes 4 (unat w) @ s) = Inr (w, s)" "read_f64 (le_bytes 8 (unat x) @ s) = Inr (x, s)"
  by (simp_all add: rd_map_le read_i16_def read_u16_def read_i32_def read_u32_def
      read_i64_def read_u64_def read_f32_def read_f64_def)

lemma front_reader_scalars [simp, reader_intros]:
  "front_reader (read_bytes n)" "front_reader read_u8"
  "front_reader read_i16" "front_reader read_u16" "front_reader read_i32" "front_reader read_u32"
  "front_reader read_i64" "front_reader read_u64" "front_reader read_f32" "front_reader read_f64"
  by (auto simp: read_defs intro!: reader_intros)

interpretation fmt_u8: wire_format write_u8 read_u8 "\<lambda>_. 1" "\<lambda>_. True"
  by unfold_locales auto

interpretation fmt_u16: wire_format write_u16 read_u16 "\<lambda>_. 2" "\<lambda>_. True"
  by unfold_locales auto

interpretation fmt_i16: wire_format write_i16 read_i16 "\<lambda>_. 2" "\<lambda>_. True"
  by unfold_locales auto

interpretation fmt_u32: wire_format write_u32 read_u32 "\<lambda>_. 4" "\<lambda>_. True"
  by unfold_locales auto

interpretation fmt_i32: wire_format write_i32 read_i32 "\<lambda>_. 4" "\<lambda>_. True"
  by unfold_locales auto

interpretation fmt_u64: wire_format write_u64 read_u64 "\<lambda>_. 8" "\<lambda>_. True"
  by unfold_locales auto

interpretation fmt_i64: wire_format write_i64 read_i64 "\<lambda>_. 8" "\<lambda>_. True"
  by unfold_locales auto

interpretation fmt_f32: wire_format write_f32 read_f32 "\<lambda>_. 4" "\<lambda>_. True"
  by unfold_locales auto

interpretation fmt_f64: wire_format write_f64 read_f64 "\<lambda>_. 8" "\<lambda>_. True"
  by unfold_locales auto

interpretation fmt_bool: wire_format encode_bool decode_bool "\<lambda>_. 1" "\<lambda>_. True"
  by unfold_locales (auto simp: encode_bool_def decode_bool_def intro!: reader_intros)

lemma encode_bool_total: "encode_bool b = Inr [if b then 1 else 0]"
  by (simp add: encode_bool_def)

lemma decode_bool_nonzero: "decode_bool (v # s) = Inr (v \<noteq> 0, s)"
  by (simp add: decode_bool_def)

interpretation fmt_StatusCode: wire_format encode_StatusCode decode_StatusCode "\<lambda>_. 4" "\<lambda>_. True"
  by unfold_locales (auto simp: encode_StatusCode_def decode_StatusCode_def)

subsection \<open>Arrays\<close>

lemma sint_minus_one_32 [simp]: "sint (- 1 :: 32 word) = - 1"
  by simp

lemma sint_len_32: "n < 2 ^ 31 \<Longrightarrow> sint (word_of_nat n :: 32 word) = int n"
  by (rule sint_of_nat_small) simp

lemma front_reader_decode_array [reader_intros]:
  "front_reader dec \<Longrightarrow> front_reader (decode_array opts dec)"
  unfolding decode_array_def by (intro reader_intros)

context wire_format
begin

definition array_ok :: "DecodingOptions \<Rightarrow> 'a list option \<Rightarrow> bool" where
  "array_ok opts vals \<longleftrightarrow>
     (case vals of None \<Rightarrow> True
      | Some vs \<Rightarrow> length vs \<le> max_array_length opts \<and> length vs < 2 ^ 31 \<and> (\<forall>v \<in> set vs. ok v))"

text \<open>An element format gives the format of \<open>Option<Vec<T>>\<close>.\<close>

lemma array_format:
  assumes fixed: "\<And>n x. fixed = Some n \<Longrightarrow> blen x = n"
  shows "wire_format (encode_array enc) (decode_array opts dec) (byte_len_array fixed blen)
           (array_ok opts)"
proof
  fix vals
  assume ok: "array_ok opts vals"
  have len: "byte_len_array fixed blen vals =
      4 + (case vals of Some vs \<Rightarrow> sum_list (map blen vs) | None \<Rightarrow> 0)"
  proof (cases fixed)
    case (Some n)
    then have "blen = (\<lambda>_. n)" using fixed by auto
    with Some show ?thesis by (simp add: byte_len_array_def sum_list_triv split: option.split)
  qed (simp add: byte_len_array_def split: option.split)
  show "\<exists>bs. encode_array enc vals = Inr bs \<and> length bs = byte_len_array fixed blen vals"
  proof (cases vals)
    case None
    with len show ?thesis by (simp add: encode_array_def)
  next
    case (Some vs)
    then obtain bs where "wr_all enc vs = Inr bs" "length bs = sum_list (map blen vs)"
      using ok wr_all_encodes by (auto simp: array_ok_def)
    then show ?thesis using Some len by (simp add: encode_array_def)
  qed
next
  fix vals bs t
  assume ok: "array_ok opts vals" and enc: "encode_array enc vals = Inr bs"
  show "decode_array opts dec (bs @ t) = Inr (vals, t)"
  proof (cases vals)
    case None
    with enc show ?thesis by (auto simp: encode_array_def decode_array_def)
  next
    case (Some vs)
    with enc obtain b where b: "wr_all enc vs = Inr b"
      "bs = le_bytes 4 (unat (word_of_nat (length vs) :: i32)) @ b"
      by (auto simp: encode_array_def wr_seq_eq_Inr)
    from ok Some have vs: "length vs \<le> max_array_length opts" "length vs < 2 ^ 31"
      "\<forall>v \<in> set vs. ok v"
      by (simp_all add: array_ok_def)
    have "rd_times (length vs) dec (b @ t) = Inr (vs, t)"
      using vs b by (simp add: rd_times_decodes)
    with b vs Some show ?thesis
      by (simp add: decode_array_def sint_len_32)
  qed
next
  show "front_reader (decode_array opts dec)"
    by (intro reader_intros front)
qed

end

subsection \<open>Strings and byte strings\<close>

definition UAString_ok :: "DecodingOptions \<Rightarrow> UAString \<Rightarrow> bool" where
  "UAString_ok opts s \<longleftrightarrow>
     (case s of None \<Rightarrow> True
      | Some v \<Rightarrow> length v \<le> max_string_length opts \<and> length v < 2 ^ 31 \<and> utf8_valid v)"

definition ByteString_ok :: "DecodingOptions \<Rightarrow> ByteString \<Rightarrow> bool" where
  "ByteString_ok opts s \<longleftrightarrow>
     (case s of None \<Rightarrow> True
      | Some v \<Rightarrow> length v \<le> max_byte_string_length opts \<and> length v < 2 ^ 31)"

lemma front_reader_decode_UAString [simp, reader_intros]: "front_reader (decode_UAString opts)"
  unfolding decode_UAString_def by (intro reader_intros)

lemma read_to_end_exact:
  "rd_bind (\<lambda>s. Inr (take n s, drop n s)) (\<lambda>buf.
     if length buf \<noteq> n then rd_fail Error_decoding else rd_return (Some buf))
   = rd_map Some (read_bytes n)"
  by (rule ext) (auto simp: read_bytes_def rd_exact_def rd_bind_def rd_map_def)

lemma decode_ByteString_exact:
  "decode_ByteString opts =
     rd_bind read_i32 (\<lambda>len.
       if sint len = - 1 then rd_return None
       else if sint len < - 1 then rd_fail Error_decoding
       else if max_byte_string_length opts < nat (sint len) then rd_fail Error_decoding
       else rd_map Some (read_bytes (nat (sint len))))"
  unfolding decode_ByteString_def read_to_end_exact ..

lemma front_reader_decode_ByteString [simp, reader_intros]: "front_reader (decode_ByteString opts)"
  unfolding decode_ByteString_exact by (intro reader_intros)

lemma read_bytes_append [simp]: "length bs = n \<Longrightarrow> read_bytes n (bs @ s) = Inr (bs, s)"
  by (simp add: read_bytes_def)

interpretation fmt_UAString:
  wire_format encode_UAString "decode_UAString opts" byte_len_UAString "UAString_ok opts" for opts
proof
  fix x :: UAString and bs t
  assume "UAString_ok opts x" "encode_UAString x = Inr bs"
  then show "decode_UAString opts (bs @ t) = Inr (x, t)"
    by (auto simp: encode_UAString_def decode_UAString_def UAString_ok_def sint_len_32
        process_encode_io_result_def split: option.splits)
qed (auto simp: encode_UAString_def byte_len_UAString_def process_encode_io_result_def
       split: option.splits)

interpretation fmt_ByteString:
  wire_format encode_ByteString "decode_ByteString opts" byte_len_ByteString "ByteString_ok opts" for opts
proof
  fix x :: ByteString and bs t
  assume "ByteString_ok opts x" "encode_ByteString x = Inr bs"
  then show "decode_ByteString opts (bs @ t) = Inr (x, t)"
    by (auto simp: encode_ByteString_def decode_ByteString_exact ByteString_ok_def sint_len_32
        process_encode_io_result_def split: option.splits)
qed (auto simp: encode_ByteString_def byte_len_ByteString_def process_encode_io_result_def
       split: option.splits)

interpretation fmt_Guid: wire_format encode_Guid decode_Guid "\<lambda>_. 16" "\<lambda>g. length g = 16"
  by unfold_locales (auto simp: encode_Guid_def decode_Guid_def process_encode_io_result_def)

end
