(* ===== verification/Security_Policy.thy ===== *)
theory Security_Policy
  imports Encoding
begin

text \<open>
  Security policies: the enumeration and its dispatch
  (\<open>async-opcua-crypto/src/security_policy.rs\<close>), the constants of every policy and the padding
  arithmetic (\<open>policy/mod.rs\<close>, \<open>policy/aes.rs\<close>, \<open>calculate_cipher_text_size\<close> of
  \<open>aes/rsa_private_key.rs\<close>). The cryptographic primitives themselves are not modelled. A key
  is represented by its size in bytes. \<open>None\<close> as the result of a dispatched function is the
  panic of \<open>panic_unknown_security_policy\<close> and its siblings; the Cargo features of the build
  are a record the functions take.
\<close>

definition BadSecurityPolicyRejected :: StatusCode where "BadSecurityPolicyRejected = 0x80550000"
definition BadNotImplemented :: StatusCode where "BadNotImplemented = 0x80400000"

record Features =
  legacy_crypto :: bool
  ecc :: bool

datatype SecurityPolicy =
    SP_Unknown
  | SP_None
  | SP_Aes128Sha256RsaOaep
  | SP_Basic256Sha256
  | SP_Aes256Sha256RsaPss
  | SP_PubSubAes128Ctr
  | SP_PubSubAes256Ctr
  | SP_Basic128Rsa15
  | SP_Basic256
  | SP_EccNistP256
  | SP_EccNistP384

section \<open>The constants of the policies\<close>

definition SHA1_SIZE :: nat where "SHA1_SIZE = 20"
definition SHA256_SIZE :: nat where "SHA256_SIZE = 32"

datatype AsymmetricEncryption = Pkcs1v15 | OaepSha1 | OaepSha256

definition get_plaintext_block_size :: "AsymmetricEncryption \<Rightarrow> nat \<Rightarrow> nat" where
  "get_plaintext_block_size a key_size =
     (case a of Pkcs1v15 \<Rightarrow> key_size - 11 | OaepSha1 \<Rightarrow> key_size - 42 | OaepSha256 \<Rightarrow> key_size - 66)"

record SymmetricEncryption =
  KEY_LENGTH :: nat
  BLOCK_SIZE :: nat

definition Aes128Cbc :: SymmetricEncryption where "Aes128Cbc = \<lparr>KEY_LENGTH = 16, BLOCK_SIZE = 16\<rparr>"
definition Aes256Cbc :: SymmetricEncryption where "Aes256Cbc = \<lparr>KEY_LENGTH = 32, BLOCK_SIZE = 16\<rparr>"
definition Aes128Ctr :: SymmetricEncryption where "Aes128Ctr = \<lparr>KEY_LENGTH = 16, BLOCK_SIZE = 16\<rparr>"
definition Aes256Ctr :: SymmetricEncryption where "Aes256Ctr = \<lparr>KEY_LENGTH = 32, BLOCK_SIZE = 16\<rparr>"

record AesSecurityPolicy =
  SECURITY_POLICY :: string
  SECURITY_POLICY_URI :: string
  NONCE_LENGTH :: nat
  DERIVED_SIGNATURE_KEY_LENGTH :: nat
  ASYMMETRIC_KEY_LENGTH :: "nat \<times> nat"
  SymmetricSignature_SIZE :: nat
  SymmetricEncryption_of :: SymmetricEncryption
  AsymmetricEncryption_of :: AsymmetricEncryption

definition uri_prefix :: string where
  "uri_prefix = ''http://opcfoundation.org/UA/SecurityPolicy#''"

definition Aes128Sha256RsaOaep :: AesSecurityPolicy where
  "Aes128Sha256RsaOaep =
     \<lparr>SECURITY_POLICY = ''Aes128-Sha256-RsaOaep'',
      SECURITY_POLICY_URI = uri_prefix @ ''Aes128_Sha256_RsaOaep'',
      NONCE_LENGTH = 32, DERIVED_SIGNATURE_KEY_LENGTH = 32, ASYMMETRIC_KEY_LENGTH = (2048, 4096),
      SymmetricSignature_SIZE = SHA256_SIZE, SymmetricEncryption_of = Aes128Cbc,
      AsymmetricEncryption_of = OaepSha1\<rparr>"

definition Aes256Sha256RsaPss :: AesSecurityPolicy where
  "Aes256Sha256RsaPss =
     \<lparr>SECURITY_POLICY = ''Aes256-Sha256-RsaPss'',
      SECURITY_POLICY_URI = uri_prefix @ ''Aes256_Sha256_RsaPss'',
      NONCE_LENGTH = 32, DERIVED_SIGNATURE_KEY_LENGTH = 32, ASYMMETRIC_KEY_LENGTH = (2048, 4096),
      SymmetricSignature_SIZE = SHA256_SIZE, SymmetricEncryption_of = Aes256Cbc,
      AsymmetricEncryption_of = OaepSha256\<rparr>"

definition PubSubAes128Ctr :: AesSecurityPolicy where
  "PubSubAes128Ctr =
     \<lparr>SECURITY_POLICY = ''PubSub-Aes128-CTR'', SECURITY_POLICY_URI = uri_prefix @ ''PubSub-Aes128-CTR'',
      NONCE_LENGTH = 32, DERIVED_SIGNATURE_KEY_LENGTH = 32, ASYMMETRIC_KEY_LENGTH = (2048, 4096),
      SymmetricSignature_SIZE = SHA256_SIZE, SymmetricEncryption_of = Aes128Ctr,
      AsymmetricEncryption_of = OaepSha1\<rparr>"

definition PubSubAes256Ctr :: AesSecurityPolicy where
  "PubSubAes256Ctr =
     \<lparr>SECURITY_POLICY = ''PubSub-Aes256-CTR'', SECURITY_POLICY_URI = uri_prefix @ ''PubSub-Aes256-CTR'',
      NONCE_LENGTH = 32, DERIVED_SIGNATURE_KEY_LENGTH = 32, ASYMMETRIC_KEY_LENGTH = (2048, 4096),
      SymmetricSignature_SIZE = SHA256_SIZE, SymmetricEncryption_of = Aes256Ctr,
      AsymmetricEncryption_of = OaepSha1\<rparr>"

definition Basic256Sha256 :: AesSecurityPolicy where
  "Basic256Sha256 =
     \<lparr>SECURITY_POLICY = ''Basic256Sha256'', SECURITY_POLICY_URI = uri_prefix @ ''Basic256Sha256'',
      NONCE_LENGTH = 32, DERIVED_SIGNATURE_KEY_LENGTH = 32, ASYMMETRIC_KEY_LENGTH = (2048, 4096),
      SymmetricSignature_SIZE = SHA256_SIZE, SymmetricEncryption_of = Aes256Cbc,
      AsymmetricEncryption_of = OaepSha1\<rparr>"

definition Basic128Rsa15 :: AesSecurityPolicy where
  "Basic128Rsa15 =
     \<lparr>SECURITY_POLICY = ''Basic128Rsa15'', SECURITY_POLICY_URI = uri_prefix @ ''Basic128Rsa15'',
      NONCE_LENGTH = 16, DERIVED_SIGNATURE_KEY_LENGTH = 16, ASYMMETRIC_KEY_LENGTH = (1024, 2048),
      SymmetricSignature_SIZE = SHA1_SIZE, SymmetricEncryption_of = Aes128Cbc,
      AsymmetricEncryption_of = Pkcs1v15\<rparr>"

definition Basic256 :: AesSecurityPolicy where
  "Basic256 =
     \<lparr>SECURITY_POLICY = ''Basic256'', SECURITY_POLICY_URI = uri_prefix @ ''Basic256'',
      NONCE_LENGTH = 32, DERIVED_SIGNATURE_KEY_LENGTH = 24, ASYMMETRIC_KEY_LENGTH = (1024, 2048),
      SymmetricSignature_SIZE = SHA1_SIZE, SymmetricEncryption_of = Aes256Cbc,
      AsymmetricEncryption_of = OaepSha1\<rparr>"

definition SECURITY_POLICY_NONE_URI :: string where "SECURITY_POLICY_NONE_URI = uri_prefix @ ''None''"
definition SECURITY_POLICY_ECC_NIST_P256_URI :: string where
  "SECURITY_POLICY_ECC_NIST_P256_URI = uri_prefix @ ''ECC_nistP256''"
definition SECURITY_POLICY_ECC_NIST_P384_URI :: string where
  "SECURITY_POLICY_ECC_NIST_P384_URI = uri_prefix @ ''ECC_nistP384''"

section \<open>Dispatch\<close>

datatype SecurityPolicyImpl = NonePolicy | AesPolicy AesSecurityPolicy

text \<open>\<open>call_with_policy!\<close>: the implementation a policy is dispatched to, or the panic.\<close>

fun call_with_policy :: "Features \<Rightarrow> SecurityPolicy \<Rightarrow> SecurityPolicyImpl option" where
  "call_with_policy ft SP_None = Some NonePolicy"
| "call_with_policy ft SP_Aes128Sha256RsaOaep = Some (AesPolicy Aes128Sha256RsaOaep)"
| "call_with_policy ft SP_Basic256Sha256 = Some (AesPolicy Basic256Sha256)"
| "call_with_policy ft SP_Aes256Sha256RsaPss = Some (AesPolicy Aes256Sha256RsaPss)"
| "call_with_policy ft SP_PubSubAes128Ctr = Some (AesPolicy PubSubAes128Ctr)"
| "call_with_policy ft SP_PubSubAes256Ctr = Some (AesPolicy PubSubAes256Ctr)"
| "call_with_policy ft SP_Basic128Rsa15 = (if legacy_crypto ft then Some (AesPolicy Basic128Rsa15) else None)"
| "call_with_policy ft SP_Basic256 = (if legacy_crypto ft then Some (AesPolicy Basic256) else None)"
| "call_with_policy ft SP_EccNistP256 = None"
| "call_with_policy ft SP_EccNistP384 = None"
| "call_with_policy ft SP_Unknown = None"

definition is_ecc :: "SecurityPolicy \<Rightarrow> bool" where
  "is_ecc p \<longleftrightarrow> p = SP_EccNistP256 \<or> p = SP_EccNistP384"

fun to_uri :: "Features \<Rightarrow> SecurityPolicy \<Rightarrow> string option" where
  "to_uri ft SP_Basic128Rsa15 = Some (uri_prefix @ ''Basic128Rsa15'')"
| "to_uri ft SP_Basic256 = Some (uri_prefix @ ''Basic256'')"
| "to_uri ft SP_EccNistP256 = Some SECURITY_POLICY_ECC_NIST_P256_URI"
| "to_uri ft SP_EccNistP384 = Some SECURITY_POLICY_ECC_NIST_P384_URI"
| "to_uri ft p =
     map_option (\<lambda>i. case i of NonePolicy \<Rightarrow> SECURITY_POLICY_NONE_URI | AesPolicy a \<Rightarrow> SECURITY_POLICY_URI a)
       (call_with_policy ft p)"

fun sp_to_str :: "Features \<Rightarrow> SecurityPolicy \<Rightarrow> string option" where
  "sp_to_str ft SP_Unknown = Some ''Unknown''"
| "sp_to_str ft SP_Basic128Rsa15 = Some ''Basic128Rsa15''"
| "sp_to_str ft SP_Basic256 = Some ''Basic256''"
| "sp_to_str ft SP_EccNistP256 = Some ''ECC_nistP256''"
| "sp_to_str ft SP_EccNistP384 = Some ''ECC_nistP384''"
| "sp_to_str ft p =
     map_option (\<lambda>i. case i of NonePolicy \<Rightarrow> ''None'' | AesPolicy a \<Rightarrow> SECURITY_POLICY a)
       (call_with_policy ft p)"

definition from_uri :: "string \<Rightarrow> SecurityPolicy" where
  "from_uri u =
     (if u = SECURITY_POLICY_NONE_URI then SP_None
      else if u = uri_prefix @ ''Basic128Rsa15'' then SP_Basic128Rsa15
      else if u = uri_prefix @ ''Basic256'' then SP_Basic256
      else if u = SECURITY_POLICY_ECC_NIST_P256_URI then SP_EccNistP256
      else if u = SECURITY_POLICY_ECC_NIST_P384_URI then SP_EccNistP384
      else if u = SECURITY_POLICY_URI Basic256Sha256 then SP_Basic256Sha256
      else if u = SECURITY_POLICY_URI Aes128Sha256RsaOaep then SP_Aes128Sha256RsaOaep
      else if u = SECURITY_POLICY_URI Aes256Sha256RsaPss then SP_Aes256Sha256RsaPss
      else if u = SECURITY_POLICY_URI PubSubAes128Ctr then SP_PubSubAes128Ctr
      else if u = SECURITY_POLICY_URI PubSubAes256Ctr then SP_PubSubAes256Ctr
      else SP_Unknown)"

definition sp_from_str :: "string \<Rightarrow> SecurityPolicy" where
  "sp_from_str s =
     (if s = ''None'' \<or> s = SECURITY_POLICY_NONE_URI then SP_None
      else if s = ''Basic128Rsa15'' \<or> s = uri_prefix @ ''Basic128Rsa15'' then SP_Basic128Rsa15
      else if s = ''Basic256'' \<or> s = uri_prefix @ ''Basic256'' then SP_Basic256
      else if s = ''ECC_nistP256'' \<or> s = SECURITY_POLICY_ECC_NIST_P256_URI then SP_EccNistP256
      else if s = ''ECC_nistP384'' \<or> s = SECURITY_POLICY_ECC_NIST_P384_URI then SP_EccNistP384
      else if s = SECURITY_POLICY Basic256Sha256 \<or> s = SECURITY_POLICY_URI Basic256Sha256 then SP_Basic256Sha256
      else if s = SECURITY_POLICY Aes128Sha256RsaOaep \<or> s = SECURITY_POLICY_URI Aes128Sha256RsaOaep
        then SP_Aes128Sha256RsaOaep
      else if s = SECURITY_POLICY Aes256Sha256RsaPss \<or> s = SECURITY_POLICY_URI Aes256Sha256RsaPss
        then SP_Aes256Sha256RsaPss
      else if s = SECURITY_POLICY PubSubAes128Ctr \<or> s = SECURITY_POLICY_URI PubSubAes128Ctr then SP_PubSubAes128Ctr
      else if s = SECURITY_POLICY PubSubAes256Ctr \<or> s = SECURITY_POLICY_URI PubSubAes256Ctr then SP_PubSubAes256Ctr
      else SP_Unknown)"

fun is_supported :: "Features \<Rightarrow> SecurityPolicy \<Rightarrow> bool" where
  "is_supported ft SP_Basic128Rsa15 = legacy_crypto ft"
| "is_supported ft SP_Basic256 = legacy_crypto ft"
| "is_supported ft SP_EccNistP256 = ecc ft"
| "is_supported ft SP_EccNistP384 = ecc ft"
| "is_supported ft SP_Unknown = False"
| "is_supported ft _ = True"

definition ensure_supported :: "Features \<Rightarrow> SecurityPolicy \<Rightarrow> unit encoding_result" where
  "ensure_supported ft p =
     (if is_supported ft p then Inr () else Inl (Error_new BadSecurityPolicyRejected))"

definition is_deprecated :: "SecurityPolicy \<Rightarrow> bool" where
  "is_deprecated p \<longleftrightarrow> p = SP_Basic128Rsa15 \<or> p = SP_Basic256"

definition plain_block_size :: "Features \<Rightarrow> SecurityPolicy \<Rightarrow> nat option" where
  "plain_block_size ft p =
     (if is_ecc p then Some 16
      else map_option (\<lambda>i. case i of NonePolicy \<Rightarrow> 1 | AesPolicy a \<Rightarrow> BLOCK_SIZE (SymmetricEncryption_of a))
             (call_with_policy ft p))"

definition symmetric_signature_size :: "Features \<Rightarrow> SecurityPolicy \<Rightarrow> nat option" where
  "symmetric_signature_size ft p =
     (if p = SP_EccNistP256 then Some 32
      else if p = SP_EccNistP384 then Some 48
      else map_option (\<lambda>i. case i of NonePolicy \<Rightarrow> 0 | AesPolicy a \<Rightarrow> SymmetricSignature_SIZE a)
             (call_with_policy ft p))"

definition asymmetric_signature_size :: "SecurityPolicy \<Rightarrow> nat \<Rightarrow> nat" where
  "asymmetric_signature_size p key_size =
     (if p = SP_EccNistP256 then 64 else if p = SP_EccNistP384 then 96 else key_size)"

definition is_valid_keylength :: "Features \<Rightarrow> SecurityPolicy \<Rightarrow> nat \<Rightarrow> bool option" where
  "is_valid_keylength ft p keylength =
     (if p = SP_EccNistP256 then Some (keylength = 256)
      else if p = SP_EccNistP384 then Some (keylength = 384)
      else map_option (\<lambda>i. case i of NonePolicy \<Rightarrow> True
                           | AesPolicy a \<Rightarrow> fst (ASYMMETRIC_KEY_LENGTH a) \<le> keylength
                                            \<and> keylength \<le> snd (ASYMMETRIC_KEY_LENGTH a))
             (call_with_policy ft p))"

definition secure_channel_nonce_length :: "Features \<Rightarrow> SecurityPolicy \<Rightarrow> nat option" where
  "secure_channel_nonce_length ft p =
     (if p = SP_Unknown then Some 32
      else if p = SP_EccNistP256 then Some 64
      else if p = SP_EccNistP384 then Some 96
      else map_option (\<lambda>i. case i of NonePolicy \<Rightarrow> 32 | AesPolicy a \<Rightarrow> NONCE_LENGTH a)
             (call_with_policy ft p))"

definition legacy_sequence_numbers :: "Features \<Rightarrow> SecurityPolicy \<Rightarrow> bool option" where
  "legacy_sequence_numbers ft p =
     (if is_ecc p then Some False else map_option (\<lambda>i. True) (call_with_policy ft p))"

definition encrypting_key_length :: "Features \<Rightarrow> SecurityPolicy \<Rightarrow> nat option" where
  "encrypting_key_length ft p =
     (if p = SP_EccNistP256 then Some 16
      else if p = SP_EccNistP384 then Some 32
      else map_option (\<lambda>i. case i of NonePolicy \<Rightarrow> 0 | AesPolicy a \<Rightarrow> KEY_LENGTH (SymmetricEncryption_of a))
             (call_with_policy ft p))"

section \<open>Padding and cipher text sizes\<close>

record PaddingInfo =
  block_size :: nat
  minimum_padding :: nat

definition minimum_padding_of :: "nat \<Rightarrow> nat" where
  "minimum_padding_of n = (if n \<le> 256 then 1 else 2)"

definition no_padding :: PaddingInfo where
  "no_padding = \<lparr>block_size = 0, minimum_padding = 0\<rparr>"

definition symmetric_padding_info :: "Features \<Rightarrow> SecurityPolicy \<Rightarrow> PaddingInfo option" where
  "symmetric_padding_info ft p =
     (if is_ecc p then Some \<lparr>block_size = 16, minimum_padding = 1\<rparr>
      else map_option (\<lambda>i. case i of NonePolicy \<Rightarrow> no_padding
                           | AesPolicy a \<Rightarrow>
                               \<lparr>block_size = BLOCK_SIZE (SymmetricEncryption_of a),
                                minimum_padding = minimum_padding_of (SymmetricSignature_SIZE a)\<rparr>)
             (call_with_policy ft p))"

definition asymmetric_padding_info :: "Features \<Rightarrow> SecurityPolicy \<Rightarrow> nat \<Rightarrow> PaddingInfo option" where
  "asymmetric_padding_info ft p remote_key_size =
     (if is_ecc p then Some no_padding
      else map_option (\<lambda>i. case i of NonePolicy \<Rightarrow> no_padding
                           | AesPolicy a \<Rightarrow>
                               \<lparr>block_size = get_plaintext_block_size (AsymmetricEncryption_of a) remote_key_size,
                                minimum_padding = minimum_padding_of remote_key_size\<rparr>)
             (call_with_policy ft p))"

text \<open>\<open>calculate_cipher_text_size\<close> of the RSA module, and its dispatch (which panics for None).\<close>

definition rsa_cipher_text_size :: "AsymmetricEncryption \<Rightarrow> nat \<Rightarrow> nat \<Rightarrow> nat" where
  "rsa_cipher_text_size a key_size data_size =
     (let plain_text_block_size = get_plaintext_block_size a key_size;
          block_count = (if plain_text_block_size dvd data_size then data_size div plain_text_block_size
                         else data_size div plain_text_block_size + 1)
      in block_count * key_size)"

definition calculate_cipher_text_size :: "Features \<Rightarrow> SecurityPolicy \<Rightarrow> nat \<Rightarrow> nat \<Rightarrow> nat option" where
  "calculate_cipher_text_size ft p plain_text_size key_size =
     (if is_ecc p then Some 0
      else Option.bind (call_with_policy ft p)
             (\<lambda>i. case i of NonePolicy \<Rightarrow> None
                  | AesPolicy a \<Rightarrow> Some (rsa_cipher_text_size (AsymmetricEncryption_of a) key_size plain_text_size)))"

section \<open>Lemmas\<close>

lemmas policy_defs = Aes128Sha256RsaOaep_def Aes256Sha256RsaPss_def PubSubAes128Ctr_def
  PubSubAes256Ctr_def Basic256Sha256_def Basic128Rsa15_def Basic256_def
  Aes128Cbc_def Aes256Cbc_def Aes128Ctr_def Aes256Ctr_def SHA1_SIZE_def SHA256_SIZE_def

lemmas uri_defs = SECURITY_POLICY_NONE_URI_def SECURITY_POLICY_ECC_NIST_P256_URI_def
  SECURITY_POLICY_ECC_NIST_P384_URI_def

lemma from_uri_to_uri: "to_uri ft p = Some u \<Longrightarrow> p \<noteq> SP_Unknown \<and> from_uri u = p"
  by (cases p) (auto simp: from_uri_def uri_defs policy_defs split: if_splits)

lemma to_uri_total: "p \<noteq> SP_Unknown \<Longrightarrow> \<exists>u. to_uri ft p = Some u"
  by (cases p) auto

lemma name_not_uri: "c \<noteq> CHR ''h'' \<Longrightarrow> c # s \<noteq> uri_prefix @ t"
  by (simp add: uri_prefix_def)

lemma sp_from_str_to_str: "sp_to_str ft p = Some s \<Longrightarrow> sp_from_str s = p"
  by (cases p; simp add: sp_from_str_def uri_defs name_not_uri policy_defs split: if_split_asm; hypsubst?; simp add: name_not_uri)

text \<open>A policy that \<open>ensure_supported\<close> accepts never reaches a panicking dispatch.\<close>

lemma supported_no_panic:
  assumes "ensure_supported ft p = Inr ()"
  shows "plain_block_size ft p \<noteq> None" "symmetric_signature_size ft p \<noteq> None"
    "is_valid_keylength ft p n \<noteq> None" "secure_channel_nonce_length ft p \<noteq> None"
    "legacy_sequence_numbers ft p \<noteq> None" "encrypting_key_length ft p \<noteq> None"
    "symmetric_padding_info ft p \<noteq> None" "asymmetric_padding_info ft p n \<noteq> None"
    "to_uri ft p \<noteq> None" "sp_to_str ft p \<noteq> None"
  using assms
  by (cases p; simp add: ensure_supported_def plain_block_size_def symmetric_signature_size_def
      is_valid_keylength_def secure_channel_nonce_length_def legacy_sequence_numbers_def
      encrypting_key_length_def symmetric_padding_info_def asymmetric_padding_info_def is_ecc_def
      split: if_splits)+

lemma symmetric_padding_block:
  "symmetric_padding_info ft p = Some i \<Longrightarrow> p \<noteq> SP_None \<Longrightarrow> block_size i = 16 \<and> minimum_padding i = 1"
  by (cases p) (auto simp: symmetric_padding_info_def is_ecc_def policy_defs minimum_padding_of_def
      split: if_splits)

lemma asymmetric_padding_block:
  "asymmetric_padding_info ft p k = Some i \<Longrightarrow> p \<noteq> SP_None \<Longrightarrow> \<not> is_ecc p \<Longrightarrow>
   \<exists>a. block_size i = get_plaintext_block_size a k \<and> minimum_padding i = minimum_padding_of k"
  by (cases p) (auto simp: asymmetric_padding_info_def is_ecc_def split: if_splits)

text \<open>The cipher text of \<open>n\<close> plain text bytes is the number of started blocks times the key size.\<close>

lemma rsa_cipher_text_size_ceiling:
  assumes "0 < get_plaintext_block_size a k"
  shows "rsa_cipher_text_size a k n =
     (n + get_plaintext_block_size a k - 1) div get_plaintext_block_size a k * k"
proof -
  let ?b = "get_plaintext_block_size a k"
  have "(if ?b dvd n then n div ?b else n div ?b + 1) = (n + ?b - 1) div ?b"
  proof (cases "?b dvd n")
    case True
    then obtain q where "n = ?b * q" by (auto elim: dvdE)
    moreover have "?b * q + ?b - 1 = (?b - 1) + ?b * q" using assms by simp
    then have "(?b * q + ?b - 1) div ?b = q + (?b - 1) div ?b"
      using assms by (simp only: div_mult_self2 [OF gr_implies_not0])
    ultimately show ?thesis using assms True by simp
  next
    case False
    define r where "r = n mod ?b"
    have r: "0 < r" "r < ?b" "n = ?b * (n div ?b) + r"
      using False assms by (simp_all add: r_def mod_greater_zero_iff_not_dvd)
    have "n + ?b - 1 = (r - 1) + ?b * (n div ?b + 1)"
      using r by (simp add: distrib_left)
    then have "(n + ?b - 1) div ?b = n div ?b + 1 + (r - 1) div ?b"
      using assms by (simp only: div_mult_self2 [OF gr_implies_not0])
    then show ?thesis using r False by simp
  qed
  then show ?thesis by (simp add: rsa_cipher_text_size_def Let_def)
qed

end
