(* ===== verification/Tcp_Types.thy ===== *)
theory Tcp_Types
  imports Security_Policy
begin

text \<open>
  The connection protocol messages of \<open>async-opcua-core/src/comms/tcp_types.rs\<close>: the common
  message header, HEL, ACK, ERR and RHE, their constructors, encoders and decoders, and the
  buffer size checks of the handshake. Matching the endpoint URL against the server's endpoints
  goes through the \<open>url\<close> crate, so that test is a parameter. The text of an I/O error is not
  modelled.
\<close>

definition BadTcpMessageTooLarge :: StatusCode where "BadTcpMessageTooLarge = 0x80800000"

section \<open>Constants\<close>

definition CHUNK_MESSAGE :: bytes where "CHUNK_MESSAGE = ascii ''MSG''"
definition OPEN_SECURE_CHANNEL_MESSAGE :: bytes where "OPEN_SECURE_CHANNEL_MESSAGE = ascii ''OPN''"
definition CLOSE_SECURE_CHANNEL_MESSAGE :: bytes where "CLOSE_SECURE_CHANNEL_MESSAGE = ascii ''CLO''"
definition HELLO_MESSAGE :: bytes where "HELLO_MESSAGE = ascii ''HEL''"
definition ACKNOWLEDGE_MESSAGE :: bytes where "ACKNOWLEDGE_MESSAGE = ascii ''ACK''"
definition ERROR_MESSAGE :: bytes where "ERROR_MESSAGE = ascii ''ERR''"
definition REVERSE_HELLO_MESSAGE :: bytes where "REVERSE_HELLO_MESSAGE = ascii ''RHE''"

definition CHUNK_FINAL :: u8 where "CHUNK_FINAL = of_char (CHR ''F'')"
definition CHUNK_INTERMEDIATE :: u8 where "CHUNK_INTERMEDIATE = of_char (CHR ''C'')"
definition CHUNK_FINAL_ERROR :: u8 where "CHUNK_FINAL_ERROR = of_char (CHR ''A'')"

definition MIN_CHUNK_SIZE :: nat where "MIN_CHUNK_SIZE = 8192"
definition ECC_MIN_BUFFER_SIZE :: nat where "ECC_MIN_BUFFER_SIZE = 1024"
definition MESSAGE_HEADER_LEN :: nat where "MESSAGE_HEADER_LEN = 8"

definition minimum_buffer_size_for_security_policy :: "SecurityPolicy \<Rightarrow> u32" where
  "minimum_buffer_size_for_security_policy p =
     (if is_ecc p then word_of_nat ECC_MIN_BUFFER_SIZE else word_of_nat MIN_CHUNK_SIZE)"

definition buffers_meet_minimum :: "u32 \<Rightarrow> u32 \<Rightarrow> u32 \<Rightarrow> bool" where
  "buffers_meet_minimum receive_buffer send_buffer minimum \<longleftrightarrow>
     minimum \<le> receive_buffer \<and> minimum \<le> send_buffer"

section \<open>Message header\<close>

datatype MessageType = MT_Invalid | MT_Hello | MT_Acknowledge | MT_Chunk | MT_Error | MT_ReverseHello

record MessageHeader =
  message_type :: MessageType
  message_size :: u32

definition byte_len_MessageHeader :: "MessageHeader \<Rightarrow> nat" where
  "byte_len_MessageHeader h = MESSAGE_HEADER_LEN"

definition encode_MessageHeader :: "MessageHeader \<Rightarrow> bytes encoding_result" where
  "encode_MessageHeader h =
     wr_seq
       (case message_type h of
          MT_Hello \<Rightarrow> process_encode_io_result HELLO_MESSAGE
        | MT_Acknowledge \<Rightarrow> process_encode_io_result ACKNOWLEDGE_MESSAGE
        | MT_Error \<Rightarrow> process_encode_io_result ERROR_MESSAGE
        | MT_ReverseHello \<Rightarrow> process_encode_io_result REVERSE_HELLO_MESSAGE
        | MT_Chunk \<Rightarrow> Inl Error_encoding
        | MT_Invalid \<Rightarrow> Inl Error_encoding)
       (wr_seq (write_u8 (of_char (CHR ''F''))) (write_u32 (message_size h)))"

definition message_type_of :: "bytes \<Rightarrow> MessageType" where
  "message_type_of t =
     (if length t \<noteq> 4 then MT_Invalid
      else
        let mt = (if take 3 t = HELLO_MESSAGE then MT_Hello
                  else if take 3 t = ACKNOWLEDGE_MESSAGE then MT_Acknowledge
                  else if take 3 t = ERROR_MESSAGE then MT_Error
                  else if take 3 t = REVERSE_HELLO_MESSAGE then MT_ReverseHello
                  else if take 3 t = CHUNK_MESSAGE \<or> take 3 t = OPEN_SECURE_CHANNEL_MESSAGE
                          \<or> take 3 t = CLOSE_SECURE_CHANNEL_MESSAGE then MT_Chunk
                  else MT_Invalid)
        in if t ! 3 = CHUNK_FINAL then mt
           else if t ! 3 = CHUNK_INTERMEDIATE \<or> t ! 3 = CHUNK_FINAL_ERROR
           then (if mt = MT_Chunk then mt else MT_Invalid)
           else MT_Invalid)"

definition decode_MessageHeader :: "DecodingOptions \<Rightarrow> MessageHeader decoder" where
  "decode_MessageHeader opts =
     rd_bind (read_bytes 4) (\<lambda>t.
     rd_bind read_u32 (\<lambda>sz.
       if 0 < max_message_size opts \<and> max_message_size opts < unat sz
       then rd_fail (Error_new BadTcpMessageTooLarge)
       else rd_return \<lparr>message_type = message_type_of t, message_size = sz\<rparr>))"

definition MessageHeader_new :: "MessageType \<Rightarrow> MessageHeader" where
  "MessageHeader_new mt = \<lparr>message_type = mt, message_size = 0\<rparr>"

text \<open>\<open>MessageHeader::read_bytes\<close>: one whole message, header included, from a stream.\<close>

datatype io_error =
    IoUnexpectedEof
  | IoInvalidData
  | IoWriteZero
  | IoOther
  | IoStatus StatusCode

definition read_message_bytes :: "DecodingOptions \<Rightarrow> (io_error, bytes) reader" where
  "read_message_bytes opts =
     rd_bind (rd_exact IoUnexpectedEof 4) (\<lambda>header.
       if message_type_of header = MT_Invalid then rd_fail IoOther
       else rd_bind (\<lambda>s. case read_u32 s of Inl _ \<Rightarrow> Inl IoOther | Inr r \<Rightarrow> Inr r) (\<lambda>sz.
         if 0 < max_message_size opts \<and> max_message_size opts < unat sz
         then rd_fail (IoStatus BadTcpMessageTooLarge)
         else
           let out = header @ le_bytes 4 (unat sz); pos = length out
           in if unat sz < pos then rd_fail IoOther
              else rd_bind (rd_exact IoUnexpectedEof (unat sz - pos)) (\<lambda>remaining.
                     rd_return (out @ remaining))))"

section \<open>Hello\<close>

record HelloMessage =
  hello_message_header :: MessageHeader
  hello_protocol_version :: u32
  hello_receive_buffer_size :: u32
  hello_send_buffer_size :: u32
  hello_max_message_size :: u32
  hello_max_chunk_count :: u32
  hello_endpoint_url :: UAString

definition byte_len_HelloMessage :: "HelloMessage \<Rightarrow> nat" where
  "byte_len_HelloMessage m =
     byte_len_MessageHeader (hello_message_header m) + 20 + byte_len_UAString (hello_endpoint_url m)"

definition encode_HelloMessage :: "HelloMessage \<Rightarrow> bytes encoding_result" where
  "encode_HelloMessage m =
     wr_seq (encode_MessageHeader (hello_message_header m))
     (wr_seq (write_u32 (hello_protocol_version m))
     (wr_seq (write_u32 (hello_receive_buffer_size m))
     (wr_seq (write_u32 (hello_send_buffer_size m))
     (wr_seq (write_u32 (hello_max_message_size m))
     (wr_seq (write_u32 (hello_max_chunk_count m))
       (encode_UAString (hello_endpoint_url m)))))))"

definition decode_HelloMessage :: "DecodingOptions \<Rightarrow> HelloMessage decoder" where
  "decode_HelloMessage opts =
     rd_bind (decode_MessageHeader opts) (\<lambda>message_header.
     rd_bind read_u32 (\<lambda>protocol_version.
     rd_bind read_u32 (\<lambda>receive_buffer_size.
     rd_bind read_u32 (\<lambda>send_buffer_size.
     rd_bind read_u32 (\<lambda>max_message_size.
     rd_bind read_u32 (\<lambda>max_chunk_count.
     rd_bind (decode_UAString opts) (\<lambda>endpoint_url.
       rd_return
         \<lparr>hello_message_header = message_header, hello_protocol_version = protocol_version,
          hello_receive_buffer_size = receive_buffer_size, hello_send_buffer_size = send_buffer_size,
          hello_max_message_size = max_message_size, hello_max_chunk_count = max_chunk_count,
          hello_endpoint_url = endpoint_url\<rparr>)))))))"

definition MAX_URL_LEN :: nat where "MAX_URL_LEN = 4096"

definition HelloMessage_new :: "bytes \<Rightarrow> nat \<Rightarrow> nat \<Rightarrow> nat \<Rightarrow> nat \<Rightarrow> HelloMessage" where
  "HelloMessage_new endpoint_url send_buffer_size receive_buffer_size max_message max_chunks =
     (let msg = \<lparr>hello_message_header = MessageHeader_new MT_Hello, hello_protocol_version = 0,
                 hello_receive_buffer_size = word_of_nat receive_buffer_size,
                 hello_send_buffer_size = word_of_nat send_buffer_size,
                 hello_max_message_size = word_of_nat max_message,
                 hello_max_chunk_count = word_of_nat max_chunks,
                 hello_endpoint_url = Some endpoint_url\<rparr>
      in msg\<lparr>hello_message_header :=
               (hello_message_header msg)\<lparr>message_size := word_of_nat (byte_len_HelloMessage msg)\<rparr>\<rparr>)"

definition is_endpoint_valid_length :: "HelloMessage \<Rightarrow> bool" where
  "is_endpoint_valid_length m =
     (case hello_endpoint_url m of Some u \<Rightarrow> length u \<le> MAX_URL_LEN | None \<Rightarrow> False)"

definition matches_endpoint :: "(bytes \<Rightarrow> bytes \<Rightarrow> bool) \<Rightarrow> HelloMessage \<Rightarrow> UAString list \<Rightarrow> bool" where
  "matches_endpoint url_matches_except_host m endpoints =
     list_ex (\<lambda>e. url_matches_except_host (UAString_as_ref e) (UAString_as_ref (hello_endpoint_url m))) endpoints"

definition is_endpoint_url_valid :: "(bytes \<Rightarrow> bytes \<Rightarrow> bool) \<Rightarrow> HelloMessage \<Rightarrow> UAString list \<Rightarrow> bool" where
  "is_endpoint_url_valid url_matches_except_host m endpoints =
     (if is_endpoint_valid_length m then matches_endpoint url_matches_except_host m endpoints else False)"

definition hello_is_valid_buffer_sizes_for_security_policy :: "HelloMessage \<Rightarrow> SecurityPolicy \<Rightarrow> bool" where
  "hello_is_valid_buffer_sizes_for_security_policy m p =
     buffers_meet_minimum (hello_receive_buffer_size m) (hello_send_buffer_size m)
       (minimum_buffer_size_for_security_policy p)"

definition hello_is_valid_buffer_sizes :: "HelloMessage \<Rightarrow> bool" where
  "hello_is_valid_buffer_sizes m = hello_is_valid_buffer_sizes_for_security_policy m SP_None"

section \<open>Acknowledge\<close>

record AcknowledgeMessage =
  ack_message_header :: MessageHeader
  ack_protocol_version :: u32
  ack_receive_buffer_size :: u32
  ack_send_buffer_size :: u32
  ack_max_message_size :: u32
  ack_max_chunk_count :: u32

definition byte_len_AcknowledgeMessage :: "AcknowledgeMessage \<Rightarrow> nat" where
  "byte_len_AcknowledgeMessage m = byte_len_MessageHeader (ack_message_header m) + 20"

definition encode_AcknowledgeMessage :: "AcknowledgeMessage \<Rightarrow> bytes encoding_result" where
  "encode_AcknowledgeMessage m =
     wr_seq (encode_MessageHeader (ack_message_header m))
     (wr_seq (write_u32 (ack_protocol_version m))
     (wr_seq (write_u32 (ack_receive_buffer_size m))
     (wr_seq (write_u32 (ack_send_buffer_size m))
     (wr_seq (write_u32 (ack_max_message_size m))
       (write_u32 (ack_max_chunk_count m))))))"

definition decode_AcknowledgeMessage :: "DecodingOptions \<Rightarrow> AcknowledgeMessage decoder" where
  "decode_AcknowledgeMessage opts =
     rd_bind (decode_MessageHeader opts) (\<lambda>message_header.
     rd_bind read_u32 (\<lambda>protocol_version.
     rd_bind read_u32 (\<lambda>receive_buffer_size.
     rd_bind read_u32 (\<lambda>send_buffer_size.
     rd_bind read_u32 (\<lambda>max_message_size.
     rd_bind read_u32 (\<lambda>max_chunk_count.
       rd_return
         \<lparr>ack_message_header = message_header, ack_protocol_version = protocol_version,
          ack_receive_buffer_size = receive_buffer_size, ack_send_buffer_size = send_buffer_size,
          ack_max_message_size = max_message_size, ack_max_chunk_count = max_chunk_count\<rparr>))))))"

definition AcknowledgeMessage_new :: "u32 \<Rightarrow> u32 \<Rightarrow> u32 \<Rightarrow> u32 \<Rightarrow> u32 \<Rightarrow> AcknowledgeMessage" where
  "AcknowledgeMessage_new protocol_version receive_buffer_size send_buffer_size max_message max_chunks =
     (let ack = \<lparr>ack_message_header = MessageHeader_new MT_Acknowledge,
                 ack_protocol_version = protocol_version, ack_receive_buffer_size = receive_buffer_size,
                 ack_send_buffer_size = send_buffer_size, ack_max_message_size = max_message,
                 ack_max_chunk_count = max_chunks\<rparr>
      in ack\<lparr>ack_message_header :=
               (ack_message_header ack)\<lparr>message_size := word_of_nat (byte_len_AcknowledgeMessage ack)\<rparr>\<rparr>)"

definition ack_is_valid_buffer_sizes_for_security_policy :: "AcknowledgeMessage \<Rightarrow> SecurityPolicy \<Rightarrow> bool" where
  "ack_is_valid_buffer_sizes_for_security_policy m p =
     buffers_meet_minimum (ack_receive_buffer_size m) (ack_send_buffer_size m)
       (minimum_buffer_size_for_security_policy p)"

definition ack_is_valid_buffer_sizes :: "AcknowledgeMessage \<Rightarrow> bool" where
  "ack_is_valid_buffer_sizes m = ack_is_valid_buffer_sizes_for_security_policy m SP_None"

section \<open>Error\<close>

record ErrorMessage =
  error_message_header :: MessageHeader
  error_status :: StatusCode
  error_reason :: UAString

definition byte_len_ErrorMessage :: "ErrorMessage \<Rightarrow> nat" where
  "byte_len_ErrorMessage m =
     byte_len_MessageHeader (error_message_header m) + 4 + byte_len_UAString (error_reason m)"

definition encode_ErrorMessage :: "ErrorMessage \<Rightarrow> bytes encoding_result" where
  "encode_ErrorMessage m =
     wr_seq (encode_MessageHeader (error_message_header m))
     (wr_seq (encode_StatusCode (error_status m)) (encode_UAString (error_reason m)))"

definition decode_ErrorMessage :: "DecodingOptions \<Rightarrow> ErrorMessage decoder" where
  "decode_ErrorMessage opts =
     rd_bind (decode_MessageHeader opts) (\<lambda>message_header.
     rd_bind decode_StatusCode (\<lambda>error.
     rd_bind (decode_UAString opts) (\<lambda>reason.
       rd_return \<lparr>error_message_header = message_header, error_status = error, error_reason = reason\<rparr>)))"

definition ErrorMessage_new :: "StatusCode \<Rightarrow> bytes \<Rightarrow> ErrorMessage" where
  "ErrorMessage_new status reason =
     (let e = \<lparr>error_message_header = MessageHeader_new MT_Error, error_status = status,
               error_reason = Some reason\<rparr>
      in e\<lparr>error_message_header :=
             (error_message_header e)\<lparr>message_size := word_of_nat (byte_len_ErrorMessage e)\<rparr>\<rparr>)"

section \<open>Reverse hello\<close>

record ReverseHelloMessage =
  rhe_message_header :: MessageHeader
  rhe_server_uri :: UAString
  rhe_endpoint_url :: UAString

definition byte_len_ReverseHelloMessage :: "ReverseHelloMessage \<Rightarrow> nat" where
  "byte_len_ReverseHelloMessage m =
     byte_len_MessageHeader (rhe_message_header m) + byte_len_UAString (rhe_server_uri m)
     + byte_len_UAString (rhe_endpoint_url m)"

definition encode_ReverseHelloMessage :: "ReverseHelloMessage \<Rightarrow> bytes encoding_result" where
  "encode_ReverseHelloMessage m =
     wr_seq (encode_MessageHeader (rhe_message_header m))
     (wr_seq (encode_UAString (rhe_server_uri m)) (encode_UAString (rhe_endpoint_url m)))"

definition decode_ReverseHelloMessage :: "DecodingOptions \<Rightarrow> ReverseHelloMessage decoder" where
  "decode_ReverseHelloMessage opts =
     rd_bind (decode_MessageHeader opts) (\<lambda>message_header.
     rd_bind (decode_UAString opts) (\<lambda>server_uri.
     rd_bind (decode_UAString opts) (\<lambda>endpoint_url.
       rd_return \<lparr>rhe_message_header = message_header, rhe_server_uri = server_uri,
                  rhe_endpoint_url = endpoint_url\<rparr>)))"

definition ReverseHelloMessage_new :: "bytes \<Rightarrow> bytes \<Rightarrow> ReverseHelloMessage" where
  "ReverseHelloMessage_new server_uri endpoint_url =
     (let msg = \<lparr>rhe_message_header = MessageHeader_new MT_ReverseHello,
                 rhe_server_uri = Some server_uri, rhe_endpoint_url = Some endpoint_url\<rparr>
      in msg\<lparr>rhe_message_header :=
               (rhe_message_header msg)\<lparr>message_size := word_of_nat (byte_len_ReverseHelloMessage msg)\<rparr>\<rparr>)"

section \<open>Wire formats\<close>

text \<open>The headers that can be written: the four connection messages, within the size limit.\<close>

definition MessageHeader_ok :: "DecodingOptions \<Rightarrow> MessageHeader \<Rightarrow> bool" where
  "MessageHeader_ok opts h \<longleftrightarrow>
     message_type h \<in> {MT_Hello, MT_Acknowledge, MT_Error, MT_ReverseHello}
     \<and> (max_message_size opts = 0 \<or> unat (message_size h) \<le> max_message_size opts)"

lemmas tcp_tags = CHUNK_MESSAGE_def OPEN_SECURE_CHANNEL_MESSAGE_def CLOSE_SECURE_CHANNEL_MESSAGE_def
  HELLO_MESSAGE_def ACKNOWLEDGE_MESSAGE_def ERROR_MESSAGE_def REVERSE_HELLO_MESSAGE_def
  CHUNK_FINAL_def CHUNK_INTERMEDIATE_def CHUNK_FINAL_ERROR_def

lemma message_type_of_tags [simp]:
  "message_type_of (HELLO_MESSAGE @ [CHUNK_FINAL]) = MT_Hello"
  "message_type_of (ACKNOWLEDGE_MESSAGE @ [CHUNK_FINAL]) = MT_Acknowledge"
  "message_type_of (ERROR_MESSAGE @ [CHUNK_FINAL]) = MT_Error"
  "message_type_of (REVERSE_HELLO_MESSAGE @ [CHUNK_FINAL]) = MT_ReverseHello"
  by (simp_all add: message_type_of_def tcp_tags numeral_3_eq_3 Let_def)

definition message_tag :: "MessageType \<Rightarrow> bytes" where
  "message_tag mt =
     (case mt of MT_Hello \<Rightarrow> HELLO_MESSAGE | MT_Acknowledge \<Rightarrow> ACKNOWLEDGE_MESSAGE
      | MT_Error \<Rightarrow> ERROR_MESSAGE | _ \<Rightarrow> REVERSE_HELLO_MESSAGE)"

lemma encode_MessageHeader_ok:
  assumes "MessageHeader_ok opts h"
  shows "encode_MessageHeader h = Inr ((message_tag (message_type h) @ [CHUNK_FINAL]) @ le_bytes 4 (unat (message_size h)))"
    and "message_type_of (message_tag (message_type h) @ [CHUNK_FINAL]) = message_type h"
    and "length (message_tag (message_type h)) = 3"
  using assms
  by (auto simp: MessageHeader_ok_def encode_MessageHeader_def process_encode_io_result_def
      CHUNK_FINAL_def message_tag_def simp flip: CHUNK_FINAL_def)
     (simp_all add: tcp_tags)

lemma front_reader_decode_MessageHeader [simp, reader_intros]: "front_reader (decode_MessageHeader opts)"
  unfolding decode_MessageHeader_def by (intro reader_intros)

interpretation fmt_MessageHeader:
  wire_format encode_MessageHeader "decode_MessageHeader opts" byte_len_MessageHeader "MessageHeader_ok opts" for opts
proof
  fix h
  assume ok: "MessageHeader_ok opts h"
  note e = encode_MessageHeader_ok [OF ok]
  show "\<exists>bs. encode_MessageHeader h = Inr bs \<and> length bs = byte_len_MessageHeader h"
    using e by (simp add: byte_len_MessageHeader_def MESSAGE_HEADER_LEN_def)
  fix bs t
  assume "encode_MessageHeader h = Inr bs"
  then have bs: "bs @ t = (message_tag (message_type h) @ [CHUNK_FINAL]) @ le_bytes 4 (unat (message_size h)) @ t"
    using e by simp
  have "read_bytes 4 ((message_tag (message_type h) @ [CHUNK_FINAL]) @ r) = Inr (message_tag (message_type h) @ [CHUNK_FINAL], r)" for r
    using e by (simp only: read_bytes_append length_append list.size)
  then show "decode_MessageHeader opts (bs @ t) = Inr (h, t)"
    using ok e(2) unfolding bs decode_MessageHeader_def by (auto simp: MessageHeader_ok_def)
qed simp

text \<open>Shared by the messages: what the parts of a written message decode to.\<close>

lemmas tcp_decodes = fmt_MessageHeader.decodes fmt_UAString.decodes fmt_StatusCode.decodes

definition HelloMessage_ok :: "DecodingOptions \<Rightarrow> HelloMessage \<Rightarrow> bool" where
  "HelloMessage_ok opts m \<longleftrightarrow>
     MessageHeader_ok opts (hello_message_header m) \<and> UAString_ok opts (hello_endpoint_url m)"

interpretation fmt_HelloMessage:
  wire_format encode_HelloMessage "decode_HelloMessage opts" byte_len_HelloMessage "HelloMessage_ok opts" for opts
proof
  fix m bs t
  assume ok: "HelloMessage_ok opts m"
  obtain a b where a: "encode_MessageHeader (hello_message_header m) = Inr a" "length a = 8"
    and b: "encode_UAString (hello_endpoint_url m) = Inr b" "length b = byte_len_UAString (hello_endpoint_url m)"
    using ok fmt_MessageHeader.encodes fmt_UAString.encodes
    by (fastforce simp: HelloMessage_ok_def byte_len_MessageHeader_def MESSAGE_HEADER_LEN_def)
  show "\<exists>bs. encode_HelloMessage m = Inr bs \<and> length bs = byte_len_HelloMessage m"
    using a b by (simp add: encode_HelloMessage_def byte_len_HelloMessage_def byte_len_MessageHeader_def
        MESSAGE_HEADER_LEN_def)
  assume "encode_HelloMessage m = Inr bs"
  then show "decode_HelloMessage opts (bs @ t) = Inr (m, t)"
    using ok a b fmt_MessageHeader.decodes [of opts _ a] fmt_UAString.decodes [of opts _ b]
    by (auto simp: encode_HelloMessage_def decode_HelloMessage_def HelloMessage_ok_def)
next
  show "front_reader (decode_HelloMessage opts)"
    unfolding decode_HelloMessage_def by (intro reader_intros)
qed

definition AcknowledgeMessage_ok :: "DecodingOptions \<Rightarrow> AcknowledgeMessage \<Rightarrow> bool" where
  "AcknowledgeMessage_ok opts m \<longleftrightarrow> MessageHeader_ok opts (ack_message_header m)"

interpretation fmt_AcknowledgeMessage:
  wire_format encode_AcknowledgeMessage "decode_AcknowledgeMessage opts" byte_len_AcknowledgeMessage
    "AcknowledgeMessage_ok opts" for opts
proof
  fix m bs t
  assume ok: "AcknowledgeMessage_ok opts m"
  obtain a where a: "encode_MessageHeader (ack_message_header m) = Inr a" "length a = 8"
    using ok fmt_MessageHeader.encodes
    by (fastforce simp: AcknowledgeMessage_ok_def byte_len_MessageHeader_def MESSAGE_HEADER_LEN_def)
  show "\<exists>bs. encode_AcknowledgeMessage m = Inr bs \<and> length bs = byte_len_AcknowledgeMessage m"
    using a by (simp add: encode_AcknowledgeMessage_def byte_len_AcknowledgeMessage_def
        byte_len_MessageHeader_def MESSAGE_HEADER_LEN_def)
  assume "encode_AcknowledgeMessage m = Inr bs"
  then show "decode_AcknowledgeMessage opts (bs @ t) = Inr (m, t)"
    using ok a fmt_MessageHeader.decodes [of opts _ a]
    by (auto simp: encode_AcknowledgeMessage_def decode_AcknowledgeMessage_def AcknowledgeMessage_ok_def)
next
  show "front_reader (decode_AcknowledgeMessage opts)"
    unfolding decode_AcknowledgeMessage_def by (intro reader_intros)
qed

lemma front_reader_decode_StatusCode [simp, reader_intros]: "front_reader decode_StatusCode"
  by (rule fmt_StatusCode.front)

definition ErrorMessage_ok :: "DecodingOptions \<Rightarrow> ErrorMessage \<Rightarrow> bool" where
  "ErrorMessage_ok opts m \<longleftrightarrow>
     MessageHeader_ok opts (error_message_header m) \<and> UAString_ok opts (error_reason m)"

interpretation fmt_ErrorMessage:
  wire_format encode_ErrorMessage "decode_ErrorMessage opts" byte_len_ErrorMessage "ErrorMessage_ok opts" for opts
proof
  fix m bs t
  assume ok: "ErrorMessage_ok opts m"
  obtain a b where a: "encode_MessageHeader (error_message_header m) = Inr a" "length a = 8"
    and b: "encode_UAString (error_reason m) = Inr b" "length b = byte_len_UAString (error_reason m)"
    using ok fmt_MessageHeader.encodes fmt_UAString.encodes
    by (fastforce simp: ErrorMessage_ok_def byte_len_MessageHeader_def MESSAGE_HEADER_LEN_def)
  show "\<exists>bs. encode_ErrorMessage m = Inr bs \<and> length bs = byte_len_ErrorMessage m"
    using a b by (simp add: encode_ErrorMessage_def byte_len_ErrorMessage_def byte_len_MessageHeader_def
        MESSAGE_HEADER_LEN_def encode_StatusCode_def)
  assume "encode_ErrorMessage m = Inr bs"
  then show "decode_ErrorMessage opts (bs @ t) = Inr (m, t)"
    using ok a b fmt_MessageHeader.decodes [of opts _ a] fmt_UAString.decodes [of opts _ b]
    by (auto simp: encode_ErrorMessage_def decode_ErrorMessage_def ErrorMessage_ok_def
        encode_StatusCode_def decode_StatusCode_def)
next
  show "front_reader (decode_ErrorMessage opts)"
    unfolding decode_ErrorMessage_def by (intro reader_intros)
qed

definition ReverseHelloMessage_ok :: "DecodingOptions \<Rightarrow> ReverseHelloMessage \<Rightarrow> bool" where
  "ReverseHelloMessage_ok opts m \<longleftrightarrow>
     MessageHeader_ok opts (rhe_message_header m) \<and> UAString_ok opts (rhe_server_uri m)
     \<and> UAString_ok opts (rhe_endpoint_url m)"

interpretation fmt_ReverseHelloMessage:
  wire_format encode_ReverseHelloMessage "decode_ReverseHelloMessage opts" byte_len_ReverseHelloMessage
    "ReverseHelloMessage_ok opts" for opts
proof
  fix m bs t
  assume ok: "ReverseHelloMessage_ok opts m"
  then have oks: "MessageHeader_ok opts (rhe_message_header m)" "UAString_ok opts (rhe_server_uri m)"
    "UAString_ok opts (rhe_endpoint_url m)"
    by (simp_all add: ReverseHelloMessage_ok_def)
  obtain a where a: "encode_MessageHeader (rhe_message_header m) = Inr a" "length a = 8"
    using fmt_MessageHeader.encodes [OF oks(1)]
    by (auto simp: byte_len_MessageHeader_def MESSAGE_HEADER_LEN_def)
  obtain b where b: "encode_UAString (rhe_server_uri m) = Inr b" "length b = byte_len_UAString (rhe_server_uri m)"
    using fmt_UAString.encodes [OF oks(2)] by auto
  obtain c where c: "encode_UAString (rhe_endpoint_url m) = Inr c" "length c = byte_len_UAString (rhe_endpoint_url m)"
    using fmt_UAString.encodes [OF oks(3)] by auto
  show "\<exists>bs. encode_ReverseHelloMessage m = Inr bs \<and> length bs = byte_len_ReverseHelloMessage m"
    using a b c by (simp add: encode_ReverseHelloMessage_def byte_len_ReverseHelloMessage_def
        byte_len_MessageHeader_def MESSAGE_HEADER_LEN_def)
  assume "encode_ReverseHelloMessage m = Inr bs"
  then show "decode_ReverseHelloMessage opts (bs @ t) = Inr (m, t)"
    using ok a b c fmt_MessageHeader.decodes [of opts _ a] fmt_UAString.decodes [of opts _ b]
      fmt_UAString.decodes [of opts _ c]
    by (auto simp: encode_ReverseHelloMessage_def decode_ReverseHelloMessage_def ReverseHelloMessage_ok_def)
next
  show "front_reader (decode_ReverseHelloMessage opts)"
    unfolding decode_ReverseHelloMessage_def by (intro reader_intros)
qed

end
