(* ===== verification/Message_Chunk.thy ===== *)
theory Message_Chunk
  imports Tcp_Types
begin

text \<open>
  Message chunks and their headers: \<open>async-opcua-core/src/comms/security_header.rs\<close>,
  \<open>message_chunk.rs\<close> and \<open>message_chunk_info.rs\<close>. A chunk is its bytes; the \<open>OnceLock\<close> that
  memoises \<open>chunk_info\<close> is not modelled, the information is computed on every call.
\<close>

definition BadSecurityChecksFailed :: StatusCode where "BadSecurityChecksFailed = 0x80130000"
definition BadTcpInternalError :: StatusCode where "BadTcpInternalError = 0x80820000"

definition MAX_CERTIFICATE_LENGTH :: nat where "MAX_CERTIFICATE_LENGTH = 32767"
definition THUMBPRINT_SIZE :: nat where "THUMBPRINT_SIZE = 20"
definition SECURITY_POLICY_URI_MAX_LEN :: nat where "SECURITY_POLICY_URI_MAX_LEN = 255"

definition bytes_of_string :: "string \<Rightarrow> bytes" where "bytes_of_string = ascii"

text \<open>The characters of a byte vector that came from an ASCII literal; used to compare URIs.\<close>

definition string_of_bytes :: "bytes \<Rightarrow> string" where
  "string_of_bytes bs = map (\<lambda>b. char_of (unat b)) bs"

section \<open>Security headers\<close>

definition decode_security_policy_uri :: "DecodingOptions \<Rightarrow> UAString decoder" where
  "decode_security_policy_uri opts =
     rd_bind read_i32 (\<lambda>len.
       if sint len = - 1 then rd_return None
       else if sint len < - 1 then rd_fail Error_decoding
       else if SECURITY_POLICY_URI_MAX_LEN < nat (sint len) then rd_fail (Error_new BadEncodingLimitsExceeded)
       else if max_string_length opts < nat (sint len) then rd_fail Error_decoding
       else rd_bind (read_bytes (nat (sint len))) (\<lambda>buf.
              if utf8_valid buf then rd_return (Some buf) else rd_fail Error_decoding))"

record SymmetricSecurityHeader =
  ssh_token_id :: u32

record AsymmetricSecurityHeader =
  ash_security_policy_uri :: UAString
  ash_sender_certificate :: ByteString
  ash_receiver_certificate_thumbprint :: ByteString

datatype SecurityHeader =
    SH_Asymmetric AsymmetricSecurityHeader
  | SH_Symmetric SymmetricSecurityHeader

definition byte_len_AsymmetricSecurityHeader :: "AsymmetricSecurityHeader \<Rightarrow> nat" where
  "byte_len_AsymmetricSecurityHeader h =
     byte_len_UAString (ash_security_policy_uri h) + byte_len_ByteString (ash_sender_certificate h)
     + byte_len_ByteString (ash_receiver_certificate_thumbprint h)"

definition encode_AsymmetricSecurityHeader :: "AsymmetricSecurityHeader \<Rightarrow> bytes encoding_result" where
  "encode_AsymmetricSecurityHeader h =
     wr_seq (encode_UAString (ash_security_policy_uri h))
     (wr_seq (encode_ByteString (ash_sender_certificate h))
       (encode_ByteString (ash_receiver_certificate_thumbprint h)))"

definition decode_AsymmetricSecurityHeader :: "DecodingOptions \<Rightarrow> AsymmetricSecurityHeader decoder" where
  "decode_AsymmetricSecurityHeader opts =
     rd_bind (decode_security_policy_uri opts) (\<lambda>security_policy_uri.
     rd_bind (decode_ByteString opts) (\<lambda>sender_certificate.
     rd_bind (decode_ByteString opts) (\<lambda>thumbprint.
       if (case sender_certificate of Some v \<Rightarrow> MAX_CERTIFICATE_LENGTH \<le> length v | None \<Rightarrow> False)
       then rd_fail (Error_new BadEncodingLimitsExceeded)
       else
         let thumbprint_len = (case thumbprint of Some v \<Rightarrow> length v | None \<Rightarrow> 0)
         in if 0 < thumbprint_len \<and> thumbprint_len \<noteq> THUMBPRINT_SIZE then rd_fail Error_decoding
            else rd_return \<lparr>ash_security_policy_uri = security_policy_uri,
                            ash_sender_certificate = sender_certificate,
                            ash_receiver_certificate_thumbprint = thumbprint\<rparr>)))"

definition encode_SymmetricSecurityHeader :: "SymmetricSecurityHeader \<Rightarrow> bytes encoding_result" where
  "encode_SymmetricSecurityHeader h = write_u32 (ssh_token_id h)"

definition decode_SymmetricSecurityHeader :: "SymmetricSecurityHeader decoder" where
  "decode_SymmetricSecurityHeader = rd_map (\<lambda>t. \<lparr>ssh_token_id = t\<rparr>) read_u32"

definition byte_len_SecurityHeader :: "SecurityHeader \<Rightarrow> nat" where
  "byte_len_SecurityHeader h =
     (case h of SH_Asymmetric v \<Rightarrow> byte_len_AsymmetricSecurityHeader v | SH_Symmetric v \<Rightarrow> 4)"

definition encode_SecurityHeader :: "SecurityHeader \<Rightarrow> bytes encoding_result" where
  "encode_SecurityHeader h =
     (case h of SH_Asymmetric v \<Rightarrow> encode_AsymmetricSecurityHeader v
      | SH_Symmetric v \<Rightarrow> encode_SymmetricSecurityHeader v)"

text \<open>
  \<open>decode_with_known_policy\<close>. \<open>known.to_uri()\<close> panics for an unknown policy only, which
  \<open>SecureChannel::known_policy\<close> never returns; an absent URI here compares unequal.
\<close>

definition header_security_policy :: "Features \<Rightarrow> SecurityPolicy option \<Rightarrow> UAString \<Rightarrow> SecurityPolicy" where
  "header_security_policy ft known uri =
     (case known of
        Some k \<Rightarrow>
          if \<not> UAString_is_empty uri then
            (if map_option bytes_of_string (to_uri ft k) = Some (UAString_as_ref uri) then k else SP_Unknown)
          else SP_None
      | None \<Rightarrow>
          if UAString_is_empty uri then SP_None
          else from_uri (string_of_bytes (UAString_as_ref uri)))"

definition decode_with_known_policy ::
    "Features \<Rightarrow> bool \<Rightarrow> DecodingOptions \<Rightarrow> SecurityPolicy option \<Rightarrow> SecurityHeader decoder" where
  "decode_with_known_policy ft is_open_secure_channel opts known_policy =
     (if is_open_secure_channel then
        rd_bind (decode_AsymmetricSecurityHeader opts) (\<lambda>security_header.
          if header_security_policy ft known_policy (ash_security_policy_uri security_header) = SP_Unknown
          then rd_fail (Error_new BadSecurityPolicyRejected)
          else rd_return (SH_Asymmetric security_header))
      else rd_map SH_Symmetric decode_SymmetricSecurityHeader)"

definition decode_from_stream :: "Features \<Rightarrow> bool \<Rightarrow> DecodingOptions \<Rightarrow> SecurityHeader decoder" where
  "decode_from_stream ft is_open_secure_channel opts =
     decode_with_known_policy ft is_open_secure_channel opts None"

definition AsymmetricSecurityHeader_none :: AsymmetricSecurityHeader where
  "AsymmetricSecurityHeader_none =
     \<lparr>ash_security_policy_uri = Some (bytes_of_string SECURITY_POLICY_NONE_URI),
      ash_sender_certificate = None, ash_receiver_certificate_thumbprint = None\<rparr>"

definition AsymmetricSecurityHeader_new ::
    "Features \<Rightarrow> SecurityPolicy \<Rightarrow> bytes \<Rightarrow> ByteString \<Rightarrow> AsymmetricSecurityHeader option" where
  "AsymmetricSecurityHeader_new ft security_policy sender_certificate thumbprint =
     map_option (\<lambda>u. \<lparr>ash_security_policy_uri = Some (bytes_of_string u),
                      ash_sender_certificate = Some sender_certificate,
                      ash_receiver_certificate_thumbprint = thumbprint\<rparr>)
       (to_uri ft security_policy)"

record SequenceHeader =
  seq_sequence_number :: u32
  seq_request_id :: u32

definition byte_len_SequenceHeader :: "SequenceHeader \<Rightarrow> nat" where
  "byte_len_SequenceHeader h = 8"

definition encode_SequenceHeader :: "SequenceHeader \<Rightarrow> bytes encoding_result" where
  "encode_SequenceHeader h = wr_seq (write_u32 (seq_sequence_number h)) (write_u32 (seq_request_id h))"

definition decode_SequenceHeader :: "SequenceHeader decoder" where
  "decode_SequenceHeader =
     rd_bind read_u32 (\<lambda>sequence_number.
     rd_bind read_u32 (\<lambda>request_id.
       rd_return \<lparr>seq_sequence_number = sequence_number, seq_request_id = request_id\<rparr>))"

section \<open>Chunk headers\<close>

definition MESSAGE_CHUNK_HEADER_SIZE :: nat where "MESSAGE_CHUNK_HEADER_SIZE = 3 + 1 + 4 + 4"
definition MESSAGE_SIZE_OFFSET :: nat where "MESSAGE_SIZE_OFFSET = 3 + 1"

datatype MessageChunkType = MCT_Message | MCT_OpenSecureChannel | MCT_CloseSecureChannel

definition is_open_secure_channel_type :: "MessageChunkType \<Rightarrow> bool" where
  "is_open_secure_channel_type t \<longleftrightarrow> t = MCT_OpenSecureChannel"

datatype MessageIsFinalType = Intermediate | Final | FinalError

record MessageChunkHeader =
  mch_message_type :: MessageChunkType
  mch_is_final :: MessageIsFinalType
  mch_message_size :: u32
  mch_secure_channel_id :: u32

definition byte_len_MessageChunkHeader :: "MessageChunkHeader \<Rightarrow> nat" where
  "byte_len_MessageChunkHeader h = MESSAGE_CHUNK_HEADER_SIZE"

definition chunk_type_code :: "MessageChunkType \<Rightarrow> bytes" where
  "chunk_type_code t =
     (case t of MCT_Message \<Rightarrow> CHUNK_MESSAGE | MCT_OpenSecureChannel \<Rightarrow> OPEN_SECURE_CHANNEL_MESSAGE
      | MCT_CloseSecureChannel \<Rightarrow> CLOSE_SECURE_CHANNEL_MESSAGE)"

definition is_final_code :: "MessageIsFinalType \<Rightarrow> u8" where
  "is_final_code f =
     (case f of Intermediate \<Rightarrow> CHUNK_INTERMEDIATE | Final \<Rightarrow> CHUNK_FINAL | FinalError \<Rightarrow> CHUNK_FINAL_ERROR)"

definition encode_MessageChunkHeader :: "MessageChunkHeader \<Rightarrow> bytes encoding_result" where
  "encode_MessageChunkHeader h =
     wr_seq (process_encode_io_result (chunk_type_code (mch_message_type h)))
     (wr_seq (write_u8 (is_final_code (mch_is_final h)))
     (wr_seq (write_u32 (mch_message_size h)) (write_u32 (mch_secure_channel_id h))))"

definition decode_MessageChunkHeader :: "MessageChunkHeader decoder" where
  "decode_MessageChunkHeader =
     rd_bind (read_bytes 3) (\<lambda>code.
     rd_bind (if code = CHUNK_MESSAGE then rd_return MCT_Message
              else if code = OPEN_SECURE_CHANNEL_MESSAGE then rd_return MCT_OpenSecureChannel
              else if code = CLOSE_SECURE_CHANNEL_MESSAGE then rd_return MCT_CloseSecureChannel
              else rd_fail Error_decoding) (\<lambda>mt.
     rd_bind read_u8 (\<lambda>fcode.
     rd_bind (if fcode = CHUNK_FINAL then rd_return Final
              else if fcode = CHUNK_INTERMEDIATE then rd_return Intermediate
              else if fcode = CHUNK_FINAL_ERROR then rd_return FinalError
              else rd_fail Error_decoding) (\<lambda>fin.
     rd_bind read_u32 (\<lambda>sz.
     rd_bind read_u32 (\<lambda>channel_id.
       rd_return \<lparr>mch_message_type = mt, mch_is_final = fin, mch_message_size = sz,
                  mch_secure_channel_id = channel_id\<rparr>))))))"

section \<open>Chunks\<close>

type_synonym MessageChunk = bytes

text \<open>
  \<open>MessageChunk::decode\<close>: read the header, write it again into a buffer of the declared size and
  read the body after it. The buffer is a growing \<open>Cursor<Vec<u8>>\<close>: with a declared size below the
  header size the chunk is the header alone.
\<close>

definition decode_MessageChunk :: "DecodingOptions \<Rightarrow> MessageChunk decoder" where
  "decode_MessageChunk opts =
     rd_bind (\<lambda>s. case decode_MessageChunkHeader s of Inl _ \<Rightarrow> Inl Error_decoding | Inr r \<Rightarrow> Inr r) (\<lambda>h.
       let sz = unat (mch_message_size h)
       in if 0 < max_message_size opts \<and> max_message_size opts < sz
          then rd_fail (Error_new BadTcpMessageTooLarge)
          else (case encode_MessageChunkHeader h of
                  Inl e \<Rightarrow> rd_fail e
                | Inr header \<Rightarrow>
                    rd_map (\<lambda>body. header @ body) (rd_exact Error_decoding (sz - length header))))"

definition decode_zero_copy :: "DecodingOptions \<Rightarrow> MessageChunk decoder" where
  "decode_zero_copy opts src =
     (if length src < MESSAGE_SIZE_OFFSET + 4 then Inl Error_decoding
      else
        let sz = le_value (take 4 (drop MESSAGE_SIZE_OFFSET src))
        in if 0 < max_message_size opts \<and> max_message_size opts < sz
           then Inl (Error_new BadTcpMessageTooLarge)
           else if sz < MESSAGE_CHUNK_HEADER_SIZE then Inl Error_decoding
           else if length src < sz then Inl Error_decoding
           else Inr (take sz src, drop sz src))"

definition chunk_message_header :: "MessageChunk \<Rightarrow> MessageChunkHeader encoding_result" where
  "chunk_message_header c = map_sum id fst (decode_MessageChunkHeader c)"

definition chunk_is_open_secure_channel :: "MessageChunk \<Rightarrow> bool" where
  "chunk_is_open_secure_channel c =
     (case chunk_message_header c of
        Inr h \<Rightarrow> is_open_secure_channel_type (mch_message_type h)
      | Inl _ \<Rightarrow> False)"

record ChunkInfo =
  ci_message_header :: MessageChunkHeader
  ci_security_header :: SecurityHeader
  ci_sequence_header :: SequenceHeader
  ci_security_header_offset :: nat
  ci_sequence_header_offset :: nat
  ci_body_offset :: nat
  ci_body_length :: nat

text \<open>\<open>ChunkInfo::new\<close>; of the channel it uses the decoding options and the known policy.\<close>

definition ChunkInfo_new ::
    "Features \<Rightarrow> DecodingOptions \<Rightarrow> SecurityPolicy option \<Rightarrow> MessageChunk \<Rightarrow> ChunkInfo encoding_result" where
  "ChunkInfo_new ft opts known chunk =
     bind_result (decode_MessageChunkHeader chunk) (\<lambda>(message_header, s1).
       let security_header_offset = length chunk - length s1
       in bind_result (decode_with_known_policy ft
                 (is_open_secure_channel_type (mch_message_type message_header)) opts known s1)
            (\<lambda>(security_header, s2).
            let sequence_header_offset = length chunk - length s2
            in bind_result (decode_SequenceHeader s2) (\<lambda>(sequence_header, s3).
                 let body_offset = length chunk - length s3
                 in Inr \<lparr>ci_message_header = message_header, ci_security_header = security_header,
                         ci_sequence_header = sequence_header,
                         ci_security_header_offset = security_header_offset,
                         ci_sequence_header_offset = sequence_header_offset,
                         ci_body_offset = body_offset,
                         ci_body_length = length chunk - body_offset\<rparr>)))"

definition encrypted_data_offset :: "Features \<Rightarrow> DecodingOptions \<Rightarrow> MessageChunk \<Rightarrow> nat encoding_result" where
  "encrypted_data_offset ft opts chunk =
     bind_result (decode_MessageChunkHeader chunk) (\<lambda>(h, s1).
     bind_result (decode_from_stream ft (is_open_secure_channel_type (mch_message_type h)) opts s1) (\<lambda>(_, s2).
       Inr (length chunk - length s2)))"

record MessageFinalError =
  mfe_status :: StatusCode
  mfe_reason :: UAString

definition decode_MessageFinalError :: "DecodingOptions \<Rightarrow> MessageFinalError decoder" where
  "decode_MessageFinalError opts =
     rd_bind decode_StatusCode (\<lambda>status.
     rd_bind (decode_UAString opts) (\<lambda>reason.
       rd_return \<lparr>mfe_status = status, mfe_reason = reason\<rparr>))"

definition final_error_body ::
    "DecodingOptions \<Rightarrow> ChunkInfo \<Rightarrow> MessageChunk \<Rightarrow> MessageFinalError encoding_result" where
  "final_error_body opts info chunk =
     (let start = ci_body_offset info; e = start + ci_body_length info
      in if e \<le> length chunk
         then map_sum id fst (decode_MessageFinalError opts (take (ci_body_length info) (drop start chunk)))
         else Inl (Error_new BadCommunicationError))"

section \<open>Wire formats\<close>

interpretation fmt_SequenceHeader:
  wire_format encode_SequenceHeader decode_SequenceHeader byte_len_SequenceHeader "\<lambda>_. True"
  by unfold_locales
    (auto simp: encode_SequenceHeader_def decode_SequenceHeader_def byte_len_SequenceHeader_def
      intro!: reader_intros)

lemma length_chunk_type_code [simp]: "length (chunk_type_code t) = 3"
  by (cases t; simp add: chunk_type_code_def tcp_tags)

lemma chunk_codes: "read_bytes 3 (chunk_type_code t @ s) = Inr (chunk_type_code t, s)"
  by simp

lemma chunk_type_code_inj [simp]:
  "chunk_type_code t = CHUNK_MESSAGE \<longleftrightarrow> t = MCT_Message"
  "chunk_type_code t = OPEN_SECURE_CHANNEL_MESSAGE \<longleftrightarrow> t = MCT_OpenSecureChannel"
  "chunk_type_code t = CLOSE_SECURE_CHANNEL_MESSAGE \<longleftrightarrow> t = MCT_CloseSecureChannel"
  by (cases t; simp add: chunk_type_code_def tcp_tags)+

lemma is_final_code_inj [simp]:
  "is_final_code f = CHUNK_FINAL \<longleftrightarrow> f = Final"
  "is_final_code f = CHUNK_INTERMEDIATE \<longleftrightarrow> f = Intermediate"
  "is_final_code f = CHUNK_FINAL_ERROR \<longleftrightarrow> f = FinalError"
  by (cases f; simp add: is_final_code_def tcp_tags)+

lemma front_reader_decode_MessageChunkHeader [simp, reader_intros]: "front_reader decode_MessageChunkHeader"
  unfolding decode_MessageChunkHeader_def by (intro reader_intros)

lemma encode_MessageChunkHeader_bytes:
  "encode_MessageChunkHeader h =
     Inr (chunk_type_code (mch_message_type h) @ [is_final_code (mch_is_final h)]
          @ le_bytes 4 (unat (mch_message_size h)) @ le_bytes 4 (unat (mch_secure_channel_id h)))"
  by (simp add: encode_MessageChunkHeader_def process_encode_io_result_def)

lemma decode_MessageChunkHeader_bytes:
  "decode_MessageChunkHeader
     (chunk_type_code (mch_message_type h) @ is_final_code (mch_is_final h)
        # le_bytes 4 (unat (mch_message_size h)) @ le_bytes 4 (unat (mch_secure_channel_id h)) @ t) = Inr (h, t)"
  by (cases "mch_message_type h"; cases "mch_is_final h")
     (simp_all add: decode_MessageChunkHeader_def chunk_codes)

interpretation fmt_MessageChunkHeader:
  wire_format encode_MessageChunkHeader decode_MessageChunkHeader byte_len_MessageChunkHeader "\<lambda>_. True"
  by unfold_locales
    (auto simp: encode_MessageChunkHeader_bytes decode_MessageChunkHeader_bytes chunk_codes
      byte_len_MessageChunkHeader_def MESSAGE_CHUNK_HEADER_SIZE_def)

text \<open>The asymmetric headers that the decoder admits.\<close>

definition AsymmetricSecurityHeader_ok :: "DecodingOptions \<Rightarrow> AsymmetricSecurityHeader \<Rightarrow> bool" where
  "AsymmetricSecurityHeader_ok opts h \<longleftrightarrow>
     UAString_ok opts (ash_security_policy_uri h)
     \<and> length (UAString_as_ref (ash_security_policy_uri h)) \<le> SECURITY_POLICY_URI_MAX_LEN
     \<and> ByteString_ok opts (ash_sender_certificate h)
     \<and> length (UAString_as_ref (ash_sender_certificate h)) < MAX_CERTIFICATE_LENGTH
     \<and> ByteString_ok opts (ash_receiver_certificate_thumbprint h)
     \<and> length (UAString_as_ref (ash_receiver_certificate_thumbprint h)) \<in> {0, THUMBPRINT_SIZE}"

lemma decode_security_policy_uri_decodes:
  "UAString_ok opts u \<Longrightarrow> length (UAString_as_ref u) \<le> SECURITY_POLICY_URI_MAX_LEN \<Longrightarrow>
   encode_UAString u = Inr bs \<Longrightarrow> decode_security_policy_uri opts (bs @ t) = Inr (u, t)"
  by (auto simp: encode_UAString_def decode_security_policy_uri_def UAString_ok_def UAString_as_ref_def
      sint_len_32 process_encode_io_result_def split: option.splits)

lemma front_reader_security_headers [simp, reader_intros]:
  "front_reader (decode_security_policy_uri opts)"
  "front_reader (decode_AsymmetricSecurityHeader opts)"
  "front_reader decode_SymmetricSecurityHeader"
  "front_reader decode_SequenceHeader"
  "front_reader (decode_with_known_policy ft osc opts known)"
  unfolding decode_security_policy_uri_def decode_AsymmetricSecurityHeader_def Let_def
    decode_SymmetricSecurityHeader_def decode_with_known_policy_def decode_SequenceHeader_def
  by (auto simp del: split_paired_All intro!: reader_intros)

interpretation fmt_AsymmetricSecurityHeader:
  wire_format encode_AsymmetricSecurityHeader "decode_AsymmetricSecurityHeader opts"
    byte_len_AsymmetricSecurityHeader "AsymmetricSecurityHeader_ok opts" for opts
proof
  fix h bs t
  assume ok: "AsymmetricSecurityHeader_ok opts h"
  then have oks: "UAString_ok opts (ash_security_policy_uri h)" "ByteString_ok opts (ash_sender_certificate h)"
    "ByteString_ok opts (ash_receiver_certificate_thumbprint h)"
    by (simp_all add: AsymmetricSecurityHeader_ok_def)
  obtain a where a: "encode_UAString (ash_security_policy_uri h) = Inr a"
      "length a = byte_len_UAString (ash_security_policy_uri h)"
    using fmt_UAString.encodes [OF oks(1)] by auto
  obtain b where b: "encode_ByteString (ash_sender_certificate h) = Inr b"
      "length b = byte_len_ByteString (ash_sender_certificate h)"
    using fmt_ByteString.encodes [OF oks(2)] by auto
  obtain c where c: "encode_ByteString (ash_receiver_certificate_thumbprint h) = Inr c"
      "length c = byte_len_ByteString (ash_receiver_certificate_thumbprint h)"
    using fmt_ByteString.encodes [OF oks(3)] by auto
  show "\<exists>bs. encode_AsymmetricSecurityHeader h = Inr bs \<and> length bs = byte_len_AsymmetricSecurityHeader h"
    using a b c by (simp add: encode_AsymmetricSecurityHeader_def byte_len_AsymmetricSecurityHeader_def)
  assume enc: "encode_AsymmetricSecurityHeader h = Inr bs"
  have "decode_security_policy_uri opts (a @ r) = Inr (ash_security_policy_uri h, r)"
    "decode_ByteString opts (b @ r) = Inr (ash_sender_certificate h, r)"
    "decode_ByteString opts (c @ r) = Inr (ash_receiver_certificate_thumbprint h, r)" for r
    using ok a b c oks
    by (auto simp: AsymmetricSecurityHeader_ok_def
        intro: decode_security_policy_uri_decodes fmt_ByteString.decodes)
  then show "decode_AsymmetricSecurityHeader opts (bs @ t) = Inr (h, t)"
    using ok a b c enc
    by (auto simp: decode_AsymmetricSecurityHeader_def encode_AsymmetricSecurityHeader_def
        AsymmetricSecurityHeader_ok_def UAString_as_ref_def split: option.splits)
qed simp

text \<open>A security header of the kind the chunk type asks for, under the policy already known.\<close>

definition SecurityHeader_ok ::
    "Features \<Rightarrow> bool \<Rightarrow> DecodingOptions \<Rightarrow> SecurityPolicy option \<Rightarrow> SecurityHeader \<Rightarrow> bool" where
  "SecurityHeader_ok ft osc opts known h \<longleftrightarrow>
     (case h of
        SH_Asymmetric a \<Rightarrow> osc \<and> AsymmetricSecurityHeader_ok opts a
          \<and> header_security_policy ft known (ash_security_policy_uri a) \<noteq> SP_Unknown
      | SH_Symmetric _ \<Rightarrow> \<not> osc)"

interpretation fmt_SecurityHeader:
  wire_format encode_SecurityHeader "decode_with_known_policy ft osc opts known" byte_len_SecurityHeader
    "SecurityHeader_ok ft osc opts known" for ft osc opts known
proof
  fix h bs t
  assume ok: "SecurityHeader_ok ft osc opts known h"
  show "\<exists>bs. encode_SecurityHeader h = Inr bs \<and> length bs = byte_len_SecurityHeader h"
    using ok fmt_AsymmetricSecurityHeader.encodes
    by (cases h) (auto simp: SecurityHeader_ok_def encode_SecurityHeader_def byte_len_SecurityHeader_def
        encode_SymmetricSecurityHeader_def)
  assume "encode_SecurityHeader h = Inr bs"
  then show "decode_with_known_policy ft osc opts known (bs @ t) = Inr (h, t)"
    using ok fmt_AsymmetricSecurityHeader.decodes
    by (cases h) (auto simp: SecurityHeader_ok_def encode_SecurityHeader_def decode_with_known_policy_def
        encode_SymmetricSecurityHeader_def decode_SymmetricSecurityHeader_def)
qed simp

section \<open>Layout of a chunk\<close>

lemma unat_of_char [simp]: "unat (of_char c :: u8) = of_char c"
proof -
  have "unat (of_nat (of_char c) :: u8) = of_char c mod 256"
    by (simp only: unat_of_nat) simp
  then show ?thesis by (simp add: of_nat_of_char)
qed

lemma string_of_bytes_of_string [simp]: "string_of_bytes (bytes_of_string u) = u"
  by (induction u) (simp_all add: string_of_bytes_def bytes_of_string_def)

text \<open>
  A chunk laid out as chunk header, security header, sequence header and body gives exactly these
  parts back, with the offsets where they start.
\<close>

lemma ChunkInfo_new_layout:
  assumes c: "encode_MessageChunkHeader h = Inr hb" "encode_SecurityHeader sh = Inr sb"
    "encode_SequenceHeader q = Inr qb"
    and ok: "SecurityHeader_ok ft (is_open_secure_channel_type (mch_message_type h)) opts known sh"
  shows "ChunkInfo_new ft opts known (hb @ sb @ qb @ body) =
     Inr \<lparr>ci_message_header = h, ci_security_header = sh, ci_sequence_header = q,
          ci_security_header_offset = MESSAGE_CHUNK_HEADER_SIZE,
          ci_sequence_header_offset = MESSAGE_CHUNK_HEADER_SIZE + byte_len_SecurityHeader sh,
          ci_body_offset = MESSAGE_CHUNK_HEADER_SIZE + byte_len_SecurityHeader sh + 8,
          ci_body_length = length body\<rparr>"
proof -
  have l: "length hb = MESSAGE_CHUNK_HEADER_SIZE" "length sb = byte_len_SecurityHeader sh" "length qb = 8"
    using fmt_MessageChunkHeader.enc_length [OF _ c(1)] fmt_SecurityHeader.enc_length [OF ok c(2)]
      fmt_SequenceHeader.enc_length [OF _ c(3)]
    by (simp_all add: byte_len_MessageChunkHeader_def byte_len_SequenceHeader_def)
  show ?thesis
    using fmt_MessageChunkHeader.decodes [OF _ c(1)] fmt_SecurityHeader.decodes [OF ok c(2)]
      fmt_SequenceHeader.decodes [OF _ c(3)] l
    by (simp add: ChunkInfo_new_def Let_def)
qed

text \<open>
  The zero-copy decoder against the copying one: on a stream that starts with a chunk header whose
  declared size covers the header, both return the same chunk, leave the same rest and fail alike.
\<close>

lemma decode_MessageChunkHeader_size:
  assumes "decode_MessageChunkHeader s = Inr (h, r)"
  shows "\<exists>hb. encode_MessageChunkHeader h = Inr hb \<and> s = hb @ r \<and> length hb = MESSAGE_CHUNK_HEADER_SIZE
     \<and> le_value (take 4 (drop MESSAGE_SIZE_OFFSET s)) = unat (mch_message_size h)"
proof -
  have r32: "\<exists>bs. t = bs @ t' \<and> bs = le_bytes 4 (unat w) " if "read_u32 t = Inr (w, t')" for t w t'
  proof -
    have len: "4 \<le> length t" and w: "w = word_of_nat (le_value (take 4 t))" and t': "t' = drop 4 t"
      using that by (auto simp: read_u32_def rd_map_eq_Inr read_bytes_def rd_exact_def split: if_splits)
    have "le_value (take 4 t) < 2 ^ 32"
      using le_value_bound [of "take 4 t"] len by simp
    then have "unat w = le_value (take 4 t)"
      using w by (simp add: unat_of_nat)
    then have "le_bytes 4 (unat w) = take 4 t"
      using le_bytes_le_value [of "take 4 t"] len by simp
    then show ?thesis using t' by simp
  qed
  from assms obtain c s1 f s2 s3 where
    c: "read_bytes 3 s = Inr (c, s1)" "c = chunk_type_code (mch_message_type h)"
    and f: "read_u8 s1 = Inr (f, s2)" "f = is_final_code (mch_is_final h)"
    and w: "read_u32 s2 = Inr (mch_message_size h, s3)" "read_u32 s3 = Inr (mch_secure_channel_id h, r)"
    by (auto simp: decode_MessageChunkHeader_def rd_bind_eq_Inr chunk_type_code_def is_final_code_def
        split: if_splits)
  have s: "s = c @ s1" "length c = 3"
    using c(1) by (auto simp: read_bytes_def rd_exact_def split: if_splits)
  have s1: "s1 = f # s2"
    using f(1) by (cases s1) auto
  have s2: "s2 = le_bytes 4 (unat (mch_message_size h)) @ le_bytes 4 (unat (mch_secure_channel_id h)) @ r"
    using r32 [OF w(1)] r32 [OF w(2)] by auto
  have "le_value (take 4 (drop MESSAGE_SIZE_OFFSET s)) = unat (mch_message_size h) mod 256 ^ 4"
    using s s1 s2 by (simp add: MESSAGE_SIZE_OFFSET_def)
  also have "\<dots> = unat (mch_message_size h)"
    using unat_lt_two_power [of "mch_message_size h"] by simp
  finally show ?thesis
    using s s1 s2 c(2) f(2) by (simp add: encode_MessageChunkHeader_bytes MESSAGE_CHUNK_HEADER_SIZE_def)
qed

section \<open>Properties\<close>

text \<open>C37: the zero-copy chunk decoder used by the TCP codec agrees with the copying decoder. On every
  stream that starts with a chunk header that decodes (the zero-copy decoder does not look at the message type and the
  final flag) and whose declared size covers at least the header, both return the same chunk and leave the same rest, or
  fail with the same error.\<close>

theorem zero_copy_equivalent:
  assumes "decode_MessageChunkHeader s = Inr (h, r)"
    and "MESSAGE_CHUNK_HEADER_SIZE \<le> unat (mch_message_size h)"
  shows "decode_zero_copy opts s = decode_MessageChunk opts s"
proof -
  obtain hb where hb: "encode_MessageChunkHeader h = Inr hb" "s = hb @ r"
      "length hb = MESSAGE_CHUNK_HEADER_SIZE"
    and sz: "le_value (take 4 (drop MESSAGE_SIZE_OFFSET s)) = unat (mch_message_size h)"
    using decode_MessageChunkHeader_size [OF assms(1)] by blast
  have len: "MESSAGE_SIZE_OFFSET + 4 \<le> length s"
    using hb by (simp add: MESSAGE_SIZE_OFFSET_def MESSAGE_CHUNK_HEADER_SIZE_def)
  have copy: "decode_MessageChunk opts s =
      (if 0 < max_message_size opts \<and> max_message_size opts < unat (mch_message_size h)
       then Inl (Error_new BadTcpMessageTooLarge)
       else rd_map (\<lambda>body. hb @ body)
              (rd_exact Error_decoding (unat (mch_message_size h) - length hb)) r)"
    using assms(1) hb(1) by (simp add: decode_MessageChunk_def Let_def)
  show ?thesis
  proof (cases "unat (mch_message_size h) \<le> length s")
    case True
    then have "rd_exact Error_decoding (unat (mch_message_size h) - length hb) r =
        Inr (take (unat (mch_message_size h) - length hb) r, drop (unat (mch_message_size h) - length hb) r)"
      using hb assms(2) by (simp add: rd_exact_def le_diff_conv)
    then show ?thesis
      using True len assms(2) hb(2,3) copy sz
      by (simp add: decode_zero_copy_def Let_def not_less)
  next
    case False
    then have "length r < unat (mch_message_size h) - length hb"
      using hb assms(2) by simp
    then show ?thesis
      using False len assms(2) copy sz by (simp add: decode_zero_copy_def Let_def not_less)
  qed
qed

definition example_chunk_header :: MessageChunkHeader where
  "example_chunk_header =
     \<lparr>mch_message_type = MCT_Message, mch_is_final = Final, mch_message_size = 14, mch_secure_channel_id = 9\<rparr>"

lemma example_chunk_header_decodes:
  "decode_MessageChunkHeader ([77, 83, 71, 70, 14, 0, 0, 0, 9, 0, 0, 0] @ r) = Inr (example_chunk_header, r)"
  using decode_MessageChunkHeader_bytes [of example_chunk_header r]
  by (simp add: example_chunk_header_def chunk_type_code_def is_final_code_def tcp_tags le_bytes_eval)

theorem zero_copy_equivalent_witness:
  "decode_zero_copy DecodingOptions_default [77, 83, 71, 70, 14, 0, 0, 0, 9, 0, 0, 0, 1, 2, 3]
   = decode_MessageChunk DecodingOptions_default [77, 83, 71, 70, 14, 0, 0, 0, 9, 0, 0, 0, 1, 2, 3]"
  using zero_copy_equivalent [OF example_chunk_header_decodes [of "[1, 2, 3]"], of DecodingOptions_default]
  by (simp add: example_chunk_header_def MESSAGE_CHUNK_HEADER_SIZE_def)

end
