(* ===== verification/Tcp_Codec.thy ===== *)
theory Tcp_Codec
  imports Message_Chunk
begin

text \<open>
  The frame codec of \<open>async-opcua-core/src/comms/tcp_codec.rs\<close>: taking whole frames off the bytes
  that have arrived so far, and writing messages to the outbound buffer with the serialization
  counters. \<open>codec_drain\<close> and \<open>codec_feed\<close> are the way a framed reader drives the decoder: after
  each arrival it decodes until the decoder asks for more bytes or fails.
\<close>

datatype Message =
    Msg_Hello HelloMessage
  | Msg_Acknowledge AcknowledgeMessage
  | Msg_Error ErrorMessage
  | Msg_Chunk MessageChunk
  | Msg_ReverseHello ReverseHelloMessage

section \<open>Decoding\<close>

definition validate_declared_message_size :: "nat \<Rightarrow> DecodingOptions \<Rightarrow> io_error + unit" where
  "validate_declared_message_size sz opts =
     (let limit = (if max_message_size opts = 0 then MAX_MESSAGE_SIZE else max_message_size opts)
      in if sz < MESSAGE_HEADER_LEN then Inl (IoStatus BadTcpMessageTooLarge)
         else if limit < sz then Inl (IoStatus BadTcpMessageTooLarge)
         else Inr ())"

definition decode_message :: "DecodingOptions \<Rightarrow> MessageHeader \<Rightarrow> bytes \<Rightarrow> StatusCode + Message" where
  "decode_message opts h frame =
     map_sum id fst
       (map_sum err_status id
         (case message_type h of
            MT_Acknowledge \<Rightarrow> rd_map Msg_Acknowledge (decode_AcknowledgeMessage opts) frame
          | MT_Hello \<Rightarrow> rd_map Msg_Hello (decode_HelloMessage opts) frame
          | MT_Error \<Rightarrow> rd_map Msg_Error (decode_ErrorMessage opts) frame
          | MT_Chunk \<Rightarrow> rd_map Msg_Chunk (decode_zero_copy opts) frame
          | MT_ReverseHello \<Rightarrow> rd_map Msg_ReverseHello (decode_ReverseHelloMessage opts) frame
          | MT_Invalid \<Rightarrow> Inl (Error_new BadCommunicationError)))"

text \<open>The buffer afterwards and the result; \<open>None\<close> asks for more bytes.\<close>

definition codec_decode :: "DecodingOptions \<Rightarrow> bytes \<Rightarrow> bytes \<times> (io_error + Message option)" where
  "codec_decode opts buf =
     (if MESSAGE_HEADER_LEN \<le> length buf then
        (case decode_MessageHeader opts (take MESSAGE_HEADER_LEN buf) of
           Inl e \<Rightarrow> (buf, Inl (IoStatus (err_status e)))
         | Inr (h, _) \<Rightarrow>
             let sz = unat (message_size h)
             in (case validate_declared_message_size sz opts of
                   Inl e \<Rightarrow> (buf, Inl e)
                 | Inr _ \<Rightarrow>
                     if sz \<le> length buf then
                       (case decode_message opts h (take sz buf) of
                          Inl e \<Rightarrow> (drop sz buf, Inl (IoStatus e))
                        | Inr m \<Rightarrow> (drop sz buf, Inr (Some m)))
                     else (buf, Inr None)))
      else (buf, Inr None))"

section \<open>Encoding\<close>

record SerializationMetrics =
  serialization_errors :: u64
  bytes_written :: u64

definition codec_write :: "('a \<Rightarrow> nat) \<Rightarrow> ('a \<Rightarrow> bytes encoding_result) \<Rightarrow> 'a \<Rightarrow> nat \<Rightarrow> io_error + bytes" where
  "codec_write blen enc msg limit =
     (if 0 < limit \<and> limit < blen msg then Inl IoInvalidData
      else case enc msg of Inl _ \<Rightarrow> Inl IoOther | Inr bs \<Rightarrow> Inr bs)"

definition message_write :: "nat \<Rightarrow> Message \<Rightarrow> io_error + bytes" where
  "message_write limit data =
     (case data of
        Msg_Hello m \<Rightarrow> codec_write byte_len_HelloMessage encode_HelloMessage m limit
      | Msg_Acknowledge m \<Rightarrow> codec_write byte_len_AcknowledgeMessage encode_AcknowledgeMessage m limit
      | Msg_Error m \<Rightarrow> codec_write byte_len_ErrorMessage encode_ErrorMessage m limit
      | Msg_Chunk m \<Rightarrow> codec_write length Inr m limit
      | Msg_ReverseHello m \<Rightarrow> codec_write byte_len_ReverseHelloMessage encode_ReverseHelloMessage m limit)"

definition codec_encode ::
    "DecodingOptions \<Rightarrow> Message \<Rightarrow> SerializationMetrics \<times> bytes
     \<Rightarrow> (SerializationMetrics \<times> bytes) \<times> (io_error + unit)" where
  "codec_encode opts data s =
     (case s of (metrics, buf) \<Rightarrow>
        case message_write (max_message_size opts) data of
          Inl e \<Rightarrow> ((metrics\<lparr>serialization_errors := serialization_errors metrics + 1\<rparr>, buf), Inl e)
        | Inr write_buf \<Rightarrow>
            ((metrics\<lparr>bytes_written := bytes_written metrics + word_of_nat (length write_buf)\<rparr>, buf @ write_buf),
             Inr ()))"

text \<open>\<open>frame_slices\<close>: the header and the body of a frame for a vectored write.\<close>

definition frame_slices :: "bytes \<Rightarrow> bytes \<times> bytes" where
  "frame_slices frame =
     (let split_at = min (length frame) MESSAGE_HEADER_LEN in (take split_at frame, drop split_at frame))"

text \<open>\<open>write_all_frame_vectored\<close> against a writer that takes the numbers of bytes in \<open>ws\<close>, one per
  call: the bytes written and the result, \<open>None\<close> while the frame is not yet out.\<close>

fun write_all_frame_vectored :: "nat list \<Rightarrow> bytes \<Rightarrow> bytes \<Rightarrow> bytes \<times> (io_error + unit) option" where
  "write_all_frame_vectored ws out [] = (out, Some (Inr ()))"
| "write_all_frame_vectored [] out frame = (out, None)"
| "write_all_frame_vectored (w # ws) out frame =
     (let (header, body) = frame_slices frame; written = min w (length header + length body)
      in if written = 0 then (out, Some (Inl IoWriteZero))
         else write_all_frame_vectored ws (out @ take written (header @ body)) (drop written frame))"

section \<open>Driving the decoder\<close>

lemma codec_decode_consumes:
  assumes "codec_decode opts buf = (buf', Inr (Some m))"
  shows "length buf' < length buf"
proof -
  from assms obtain h r where h: "MESSAGE_HEADER_LEN \<le> length buf"
    "decode_MessageHeader opts (take MESSAGE_HEADER_LEN buf) = Inr (h, r)"
    and v: "validate_declared_message_size (unat (message_size h)) opts = Inr ()"
    and b: "buf' = drop (unat (message_size h)) buf" "unat (message_size h) \<le> length buf"
    by (auto simp: codec_decode_def Let_def split: if_splits sum.splits prod.splits)
  from v have "MESSAGE_HEADER_LEN \<le> unat (message_size h)"
    by (auto simp: validate_declared_message_size_def Let_def split: if_splits)
  with h b show ?thesis by (simp add: MESSAGE_HEADER_LEN_def)
qed

function codec_drain :: "DecodingOptions \<Rightarrow> bytes \<Rightarrow> Message list \<times> io_error option \<times> bytes" where
  "codec_drain opts buf =
     (case codec_decode opts buf of
        (buf', Inl e) \<Rightarrow> ([], Some e, buf')
      | (buf', Inr None) \<Rightarrow> ([], None, buf')
      | (buf', Inr (Some m)) \<Rightarrow>
          (case codec_drain opts buf' of (ms, e, r) \<Rightarrow> (m # ms, e, r)))"
  by pat_completeness auto
termination
  by (relation "measure (\<lambda>(opts, buf). length buf)")
    (auto dest: codec_decode_consumes [of _ _ _, OF sym] codec_decode_consumes)

declare codec_drain.simps [simp del]

type_synonym codec_state = "Message list \<times> io_error option \<times> bytes"

definition codec_feed :: "DecodingOptions \<Rightarrow> codec_state \<Rightarrow> bytes \<Rightarrow> codec_state" where
  "codec_feed opts st packet =
     (case st of
        (ms, Some e, buf) \<Rightarrow> (ms, Some e, buf)
      | (ms, None, buf) \<Rightarrow> (case codec_drain opts (buf @ packet) of (ms', e, r) \<Rightarrow> (ms @ ms', e, r)))"

definition codec_run :: "DecodingOptions \<Rightarrow> bytes list \<Rightarrow> codec_state" where
  "codec_run opts packets = foldl (codec_feed opts) ([], None, []) packets"

section \<open>Lemmas\<close>

text \<open>What the decoder finds at the front of a buffer does not depend on what follows.\<close>

lemma codec_decode_more:
  assumes "codec_decode opts buf = (buf', r)" and "r \<noteq> Inr None"
  shows "codec_decode opts (buf @ t) = (buf' @ t, r)"
proof -
  have len: "MESSAGE_HEADER_LEN \<le> length buf"
    using assms by (auto simp: codec_decode_def split: if_splits)
  then have tk: "take MESSAGE_HEADER_LEN (buf @ t) = take MESSAGE_HEADER_LEN buf" by simp
  show ?thesis
  proof (cases "decode_MessageHeader opts (take MESSAGE_HEADER_LEN buf)")
    case (Inl e)
    then show ?thesis using assms len tk by (simp add: codec_decode_def)
  next
    case (Inr p)
    obtain h rr where p: "p = (h, rr)" by (cases p)
    let ?sz = "unat (message_size h)"
    show ?thesis
    proof (cases "validate_declared_message_size ?sz opts")
      case (Inl e)
      then show ?thesis using assms len tk Inr p by (simp add: codec_decode_def Let_def)
    next
      case v: (Inr u)
      have sz: "?sz \<le> length buf"
        using assms len Inr p v by (auto simp: codec_decode_def Let_def split: if_splits)
      then show ?thesis
        using assms len tk Inr p v
        by (auto simp: codec_decode_def Let_def split: sum.splits)
    qed
  qed
qed

lemma codec_decode_None: "codec_decode opts buf = (buf', Inr None) \<Longrightarrow> buf' = buf"
  by (auto simp: codec_decode_def Let_def split: if_splits sum.splits prod.splits)

lemma codec_drain_append:
  "codec_drain opts (buf @ t) =
     (case codec_drain opts buf of
        (ms, Some e, r) \<Rightarrow> (ms, Some e, r @ t)
      | (ms, None, r) \<Rightarrow> (case codec_drain opts (r @ t) of (ms', e, r') \<Rightarrow> (ms @ ms', e, r')))"
proof (induction opts buf rule: codec_drain.induct)
  case (1 opts buf)
  obtain buf' r where d: "codec_decode opts buf = (buf', r)" by (cases "codec_decode opts buf")
  show ?case
  proof (cases r)
    case (Inl e)
    then have "codec_decode opts (buf @ t) = (buf' @ t, Inl e)"
      using codec_decode_more d by simp
    then have "codec_drain opts (buf @ t) = ([], Some e, buf' @ t)"
      by (subst codec_drain.simps) simp
    moreover have "codec_drain opts buf = ([], Some e, buf')"
      by (subst codec_drain.simps) (simp add: d Inl)
    ultimately show ?thesis by simp
  next
    case r: (Inr om)
    show ?thesis
    proof (cases om)
      case None
      then have "buf' = buf" using d r codec_decode_None by simp
      then have "codec_drain opts buf = ([], None, buf)"
        by (subst codec_drain.simps) (use d r None in simp)
      then show ?thesis by (cases "codec_drain opts (buf @ t)") simp
    next
      case (Some m)
      have more: "codec_decode opts (buf @ t) = (buf' @ t, Inr (Some m))"
        using codec_decode_more d r Some by simp
      have IH: "codec_drain opts (buf' @ t) =
          (case codec_drain opts buf' of
             (ms, Some e, r) \<Rightarrow> (ms, Some e, r @ t)
           | (ms, None, r) \<Rightarrow> (case codec_drain opts (r @ t) of (ms', e, r') \<Rightarrow> (ms @ ms', e, r')))"
        using 1 [OF d [symmetric] r Some] .
      obtain ms e q where dr: "codec_drain opts buf' = (ms, e, q)" by (cases "codec_drain opts buf'")
      have s1: "codec_drain opts buf = (m # ms, e, q)"
        by (subst codec_drain.simps) (simp add: d r Some dr)
      have s2: "codec_drain opts (buf @ t) = (case codec_drain opts (buf' @ t) of (ms, e, r) \<Rightarrow> (m # ms, e, r))"
        by (subst codec_drain.simps) (simp add: more)
      show ?thesis
        unfolding s2 IH dr s1 by (cases e) (simp_all split: prod.split)
    qed
  qed
qed

text \<open>Messages whose header declares their length, within the limit of the codec.\<close>

definition size_limit :: "DecodingOptions \<Rightarrow> nat" where
  "size_limit opts = (if max_message_size opts = 0 then MAX_MESSAGE_SIZE else max_message_size opts)"

definition sized :: "DecodingOptions \<Rightarrow> MessageType \<Rightarrow> MessageHeader \<Rightarrow> nat \<Rightarrow> bool" where
  "sized opts mt h n \<longleftrightarrow> message_type h = mt \<and> unat (message_size h) = n \<and> n \<le> size_limit opts"

fun Message_ok :: "DecodingOptions \<Rightarrow> Message \<Rightarrow> bool" where
  "Message_ok opts (Msg_Hello m) =
     (HelloMessage_ok opts m \<and> sized opts MT_Hello (hello_message_header m) (byte_len_HelloMessage m))"
| "Message_ok opts (Msg_Acknowledge m) =
     (AcknowledgeMessage_ok opts m \<and> sized opts MT_Acknowledge (ack_message_header m) (byte_len_AcknowledgeMessage m))"
| "Message_ok opts (Msg_Error m) =
     (ErrorMessage_ok opts m \<and> sized opts MT_Error (error_message_header m) (byte_len_ErrorMessage m))"
| "Message_ok opts (Msg_ReverseHello m) =
     (ReverseHelloMessage_ok opts m \<and> sized opts MT_ReverseHello (rhe_message_header m) (byte_len_ReverseHelloMessage m))"
| "Message_ok opts (Msg_Chunk c) =
     (case decode_MessageChunkHeader c of
        Inr (h, _) \<Rightarrow> unat (mch_message_size h) = length c \<and> length c \<le> size_limit opts
      | Inl _ \<Rightarrow> False)"

lemma codec_decode_frame:
  assumes f: "f = a @ b" "length a = 8" "decode_MessageHeader opts a = Inr (h, [])"
    and sz: "unat (message_size h) = length f" "length f \<le> size_limit opts"
    and m: "decode_message opts h f = Inr m"
  shows "codec_decode opts (f @ t) = (t, Inr (Some m))"
  using assms
  by (simp add: codec_decode_def MESSAGE_HEADER_LEN_def validate_declared_message_size_def size_limit_def Let_def)

lemma MessageHeader_front:
  assumes "MessageHeader_ok opts h" "encode_MessageHeader h = Inr a"
  shows "length a = 8" "decode_MessageHeader opts a = Inr (h, [])"
  using fmt_MessageHeader.enc_length [OF assms] fmt_MessageHeader.decodes [OF assms, of "[]"]
  by (simp_all add: byte_len_MessageHeader_def MESSAGE_HEADER_LEN_def)

text \<open>
  What the four connection messages share: a wire format that starts with the message header, and
  the branch of \<open>decode_message\<close> that reads it. Every such message survives the codec.
\<close>

locale connection_message = wire_format enc dec blen ok
  for enc :: "'a \<Rightarrow> bytes encoding_result" and dec blen ok +
  fixes opts :: DecodingOptions
    and header_of :: "'a \<Rightarrow> MessageHeader"
    and mt :: MessageType
    and wrap :: "'a \<Rightarrow> Message"
  assumes header_ok: "ok x \<Longrightarrow> MessageHeader_ok opts (header_of x)"
    and header_first: "enc x = Inr f \<Longrightarrow> \<exists>a b. encode_MessageHeader (header_of x) = Inr a \<and> f = a @ b"
    and dispatch: "message_type h = mt \<Longrightarrow> dec f = Inr (x, r) \<Longrightarrow> decode_message opts h f = Inr (wrap x)"
begin

lemma codec_write_decodes:
  assumes x: "ok x" "sized opts mt (header_of x) (blen x)" and w: "codec_write blen enc x limit = Inr f"
  shows "codec_decode opts (f @ t) = (t, Inr (Some (wrap x)))"
proof -
  have e: "enc x = Inr f"
    using w by (auto simp: codec_write_def split: if_splits sum.splits)
  obtain a b where ab: "encode_MessageHeader (header_of x) = Inr a" "f = a @ b"
    using header_first [OF e] by blast
  have "dec f = Inr (x, [])"
    using decodes [OF x(1) e, of "[]"] by simp
  then have "decode_message opts (header_of x) f = Inr (wrap x)"
    using dispatch x(2) by (simp add: sized_def)
  then show ?thesis
    using codec_decode_frame [OF ab(2) MessageHeader_front [OF header_ok [OF x(1)] ab(1)]] x(2)
      enc_length [OF x(1) e] by (simp add: sized_def)
qed

lemma codec_write_total:
  assumes "ok x" "sized opts mt (header_of x) (blen x)"
  shows "\<exists>f. codec_write blen enc x (max_message_size opts) = Inr f"
  using encodes [OF assms(1)] assms(2) by (auto simp: codec_write_def sized_def size_limit_def split: if_splits)

end

interpretation cm_Hello: connection_message encode_HelloMessage "decode_HelloMessage opts"
  byte_len_HelloMessage "HelloMessage_ok opts" opts hello_message_header MT_Hello Msg_Hello for opts
  by unfold_locales
    (auto simp: HelloMessage_ok_def encode_HelloMessage_def wr_seq_eq_Inr decode_message_def)

interpretation cm_Acknowledge: connection_message encode_AcknowledgeMessage "decode_AcknowledgeMessage opts"
  byte_len_AcknowledgeMessage "AcknowledgeMessage_ok opts" opts ack_message_header MT_Acknowledge Msg_Acknowledge
  for opts
  by unfold_locales
    (auto simp: AcknowledgeMessage_ok_def encode_AcknowledgeMessage_def wr_seq_eq_Inr decode_message_def)

interpretation cm_Error: connection_message encode_ErrorMessage "decode_ErrorMessage opts"
  byte_len_ErrorMessage "ErrorMessage_ok opts" opts error_message_header MT_Error Msg_Error for opts
  by unfold_locales
    (auto simp: ErrorMessage_ok_def encode_ErrorMessage_def wr_seq_eq_Inr decode_message_def)

interpretation cm_ReverseHello: connection_message encode_ReverseHelloMessage "decode_ReverseHelloMessage opts"
  byte_len_ReverseHelloMessage "ReverseHelloMessage_ok opts" opts rhe_message_header MT_ReverseHello Msg_ReverseHello
  for opts
  by unfold_locales
    (auto simp: ReverseHelloMessage_ok_def encode_ReverseHelloMessage_def wr_seq_eq_Inr decode_message_def)

lemma chunk_frame_header:
  assumes "decode_MessageChunkHeader c = Inr (h, r)" "unat (mch_message_size h) = length c"
    "length c \<le> size_limit opts"
  shows "\<exists>a b. c = a @ b \<and> length a = 8
     \<and> decode_MessageHeader opts a = Inr (\<lparr>message_type = MT_Chunk, message_size = mch_message_size h\<rparr>, [])"
proof -
  obtain hb where hb: "encode_MessageChunkHeader h = Inr hb" "c = hb @ r"
    using decode_MessageChunkHeader_size [OF assms(1)] by blast
  let ?tag = "chunk_type_code (mch_message_type h) @ [is_final_code (mch_is_final h)]"
  have mt: "message_type_of ?tag = MT_Chunk"
    by (cases "mch_message_type h"; cases "mch_is_final h")
       (simp_all add: message_type_of_def chunk_type_code_def is_final_code_def tcp_tags numeral_3_eq_3 Let_def)
  have "c = (?tag @ le_bytes 4 (unat (mch_message_size h))) @ le_bytes 4 (unat (mch_secure_channel_id h)) @ r"
    using hb by (simp add: encode_MessageChunkHeader_bytes)
  moreover have "read_bytes 4 (?tag @ le_bytes 4 (unat (mch_message_size h))) = Inr (?tag, le_bytes 4 (unat (mch_message_size h)))"
    by (rule read_bytes_append) simp
  moreover have "read_u32 (le_bytes 4 (unat (mch_message_size h))) = Inr (mch_message_size h, [])"
    using read_le(4) [of "mch_message_size h" "[]"] by simp
  ultimately show ?thesis
    using mt assms(2,3)
    by (intro exI [of _ "?tag @ le_bytes 4 (unat (mch_message_size h))"]
        exI [of _ "le_bytes 4 (unat (mch_secure_channel_id h)) @ r"])
       (auto simp: decode_MessageHeader_def size_limit_def)
qed

lemma chunk_frame_decodes:
  assumes "decode_MessageChunkHeader c = Inr (h, r)" "unat (mch_message_size h) = length c"
    "length c \<le> size_limit opts"
  shows "decode_zero_copy opts c = Inr (c, [])"
proof -
  obtain hb where hb: "c = hb @ r" "length hb = MESSAGE_CHUNK_HEADER_SIZE"
    "le_value (take 4 (drop MESSAGE_SIZE_OFFSET c)) = unat (mch_message_size h)"
    using decode_MessageChunkHeader_size [OF assms(1)] by blast
  then have "MESSAGE_CHUNK_HEADER_SIZE \<le> length c" by simp
  then show ?thesis
    using hb assms(2,3)
    by (auto simp: decode_zero_copy_def Let_def size_limit_def MESSAGE_SIZE_OFFSET_def
        MESSAGE_CHUNK_HEADER_SIZE_def split: if_splits)
qed

lemma message_write_decodes:
  assumes ok: "Message_ok opts m" and w: "message_write (max_message_size opts) m = Inr f"
  shows "codec_decode opts (f @ t) = (t, Inr (Some m))"
proof (cases m)
  case (Msg_Chunk c)
  with w have f: "f = c"
    by (auto simp: message_write_def codec_write_def split: if_splits)
  from Msg_Chunk ok obtain h r where c: "decode_MessageChunkHeader c = Inr (h, r)"
    "unat (mch_message_size h) = length c" "length c \<le> size_limit opts"
    by (auto split: sum.splits prod.splits)
  obtain a b where a: "c = a @ b" "length a = 8"
    "decode_MessageHeader opts a = Inr (\<lparr>message_type = MT_Chunk, message_size = mch_message_size h\<rparr>, [])"
    using chunk_frame_header [OF c] by blast
  show ?thesis
    using codec_decode_frame [OF a, of "Msg_Chunk c" t] c(2,3) chunk_frame_decodes [OF c] f Msg_Chunk
    by (simp add: decode_message_def)
qed (use ok w cm_Hello.codec_write_decodes cm_Acknowledge.codec_write_decodes cm_Error.codec_write_decodes
      cm_ReverseHello.codec_write_decodes in \<open>auto simp: message_write_def\<close>)

text \<open>A message within the limits is written.\<close>

lemma message_write_total:
  assumes "Message_ok opts m"
  shows "\<exists>f. message_write (max_message_size opts) m = Inr f"
  using assms cm_Hello.codec_write_total cm_Acknowledge.codec_write_total cm_Error.codec_write_total
    cm_ReverseHello.codec_write_total
  by (cases m) (auto simp: message_write_def codec_write_def size_limit_def split: sum.splits if_splits)

section \<open>Any packetisation\<close>

fun codec_encode_all ::
    "DecodingOptions \<Rightarrow> Message list \<Rightarrow> SerializationMetrics \<times> bytes
     \<Rightarrow> (SerializationMetrics \<times> bytes) \<times> (io_error + unit)" where
  "codec_encode_all opts [] s = (s, Inr ())"
| "codec_encode_all opts (m # ms) s =
     (case codec_encode opts m s of
        (s', Inl e) \<Rightarrow> (s', Inl e)
      | (s', Inr _) \<Rightarrow> codec_encode_all opts ms s')"

lemma codec_feed_drain:
  "codec_feed opts (codec_drain opts b) p =
     (case codec_drain opts b of (ms, Some e, r) \<Rightarrow> (ms, Some e, r) | (ms, None, r) \<Rightarrow> codec_drain opts (b @ p))"
  by (auto simp: codec_feed_def codec_drain_append [of opts b p] split: prod.split option.split)

lemma codec_feed_error: "foldl (codec_feed opts) (ms, Some e, r) ps = (ms, Some e, r)"
  by (induction ps) (simp_all add: codec_feed_def)

lemma codec_run_drain:
  "(\<lambda>(ms, e, r). (ms, e)) (foldl (codec_feed opts) (codec_drain opts b) ps)
     = (\<lambda>(ms, e, r). (ms, e)) (codec_drain opts (b @ concat ps))
   \<and> (fst (snd (codec_drain opts (b @ concat ps))) = None \<longrightarrow>
        foldl (codec_feed opts) (codec_drain opts b) ps = codec_drain opts (b @ concat ps))"
proof (induction ps arbitrary: b)
  case Nil
  then show ?case by simp
next
  case (Cons p ps)
  obtain ms e r where d: "codec_drain opts b = (ms, e, r)" by (cases "codec_drain opts b")
  show ?case
  proof (cases e)
    case None
    then have "codec_feed opts (codec_drain opts b) p = codec_drain opts (b @ p)"
      using codec_feed_drain [of opts b p] d by simp
    then show ?thesis using Cons.IH [of "b @ p"] by simp
  next
    case (Some x)
    have "codec_drain opts (b @ p @ concat ps) = (ms, Some x, r @ p @ concat ps)"
      using codec_drain_append [of opts b "p @ concat ps"] d Some by simp
    moreover have "codec_feed opts (ms, Some x, r) p = (ms, Some x, r)"
      by (simp add: codec_feed_def)
    ultimately show ?thesis
      using d Some codec_feed_error [of opts ms x r ps] by simp
  qed
qed

lemma codec_drain_Nil: "codec_drain opts [] = ([], None, [])"
  by (subst codec_drain.simps) (simp add: codec_decode_def MESSAGE_HEADER_LEN_def)

lemma codec_drain_frames:
  assumes "list_all (Message_ok opts) ms"
  shows "\<exists>mt' fs. codec_encode_all opts ms (mt, buf) = ((mt', buf @ fs), Inr ()) \<and> codec_drain opts fs = (ms, None, [])"
  using assms
proof (induction ms arbitrary: mt buf)
  case Nil
  then show ?case by (simp add: codec_drain_Nil)
next
  case (Cons m ms)
  obtain f where f: "message_write (max_message_size opts) m = Inr f"
    using message_write_total Cons.prems by auto
  then obtain mt1 where e: "codec_encode opts m (mt, buf) = ((mt1, buf @ f), Inr ())"
    by (simp add: codec_encode_def)
  obtain mt2 fs where IH: "codec_encode_all opts ms (mt1, buf @ f) = ((mt2, (buf @ f) @ fs), Inr ())"
    "codec_drain opts fs = (ms, None, [])"
    using Cons.IH [of mt1 "buf @ f"] Cons.prems by auto
  have "codec_decode opts (f @ fs) = (fs, Inr (Some m))"
    using message_write_decodes f Cons.prems by simp
  then have "codec_drain opts (f @ fs) = (m # ms, None, [])"
    by (subst codec_drain.simps) (simp add: IH(2))
  then show ?case using e IH(1) by auto
qed

section \<open>Properties\<close>

text \<open>Framing is independent of how the bytes arrive. Whatever way a byte stream is cut into
  packets, the decoder delivers the messages and the error (if any) that decoding the whole
  stream at once gives, and without an error the same bytes stay buffered.\<close>

theorem codec_packetisation:
  "fst (codec_run opts ps) = fst (codec_drain opts (concat ps))
   \<and> fst (snd (codec_run opts ps)) = fst (snd (codec_drain opts (concat ps)))
   \<and> (fst (snd (codec_run opts ps)) = None \<longrightarrow>
        snd (snd (codec_run opts ps)) = snd (snd (codec_drain opts (concat ps))))"
  using codec_run_drain [of opts "[]" ps]
  by (auto simp: codec_run_def codec_drain_Nil split: prod.splits)

theorem codec_packetisation_witness:
  "codec_run DecodingOptions_default [[77], [83, 71]] = ([], None, [77, 83, 71])"
proof -
  have "codec_drain DecodingOptions_default [77, 83, 71] = ([], None, [77, 83, 71])"
    by (subst codec_drain.simps) (simp add: codec_decode_def MESSAGE_HEADER_LEN_def)
  then show ?thesis
    using codec_packetisation [of DecodingOptions_default "[[77], [83, 71]]"] by (simp add: prod_eq_iff)
qed

text \<open>C3: what is sent is received. Messages whose header declares their size and that respect the
  limits are all encoded, and however the bytes in the outbound buffer are cut into packets, the
  receiving codec delivers exactly these messages, in order, with nothing left over.\<close>

theorem codec_send_receive:
  assumes "list_all (Message_ok opts) ms"
    and "codec_encode_all opts ms (metrics, []) = ((metrics', out), r)"
    and "concat ps = out"
  shows "r = Inr () \<and> codec_run opts ps = (ms, None, [])"
proof -
  obtain fs where fs: "out = fs" "r = Inr ()" "codec_drain opts fs = (ms, None, [])"
    using codec_drain_frames [OF assms(1), of metrics "[]"] assms(2) by auto
  then show ?thesis
    using codec_run_drain [of opts "[]" ps] assms(3) by (simp add: codec_run_def codec_drain_Nil)
qed

theorem codec_send_receive_witness:
  "\<exists>metrics' out. codec_encode_all DecodingOptions_default
       [Msg_Acknowledge (AcknowledgeMessage_new 0 65535 65535 0 0), Msg_Error (ErrorMessage_new BadUnexpectedError [79, 75])]
       (\<lparr>serialization_errors = 0, bytes_written = 0\<rparr>, []) = ((metrics', out), Inr ())
     \<and> codec_run DecodingOptions_default [take 3 out, drop 3 out] =
       ([Msg_Acknowledge (AcknowledgeMessage_new 0 65535 65535 0 0), Msg_Error (ErrorMessage_new BadUnexpectedError [79, 75])], None, [])"
proof -
  let ?ms = "[Msg_Acknowledge (AcknowledgeMessage_new 0 65535 65535 0 0), Msg_Error (ErrorMessage_new BadUnexpectedError [79, 75])]"
  have ok: "list_all (Message_ok DecodingOptions_default) ?ms"
    by (simp add: AcknowledgeMessage_ok_def AcknowledgeMessage_new_def MessageHeader_new_def MessageHeader_ok_def
        sized_def byte_len_AcknowledgeMessage_def byte_len_MessageHeader_def MESSAGE_HEADER_LEN_def
        DecodingOptions_default_def size_limit_def MAX_MESSAGE_SIZE_def MAX_CHUNK_COUNT_def Let_def
        ErrorMessage_ok_def ErrorMessage_new_def byte_len_ErrorMessage_def byte_len_UAString_def UAString_ok_def
        MAX_STRING_LENGTH_def)
  obtain metrics' out r where e: "codec_encode_all DecodingOptions_default ?ms
      (\<lparr>serialization_errors = 0, bytes_written = 0\<rparr>, []) = ((metrics', out), r)"
    by (metis prod.exhaust)
  show ?thesis
    using codec_send_receive [OF ok e, of "[take 3 out, drop 3 out]"] e by simp
qed

end
