(* ===== verification/Asymmetric_Crypto.thy ===== *)
theory Asymmetric_Crypto
  imports Message_Chunk
begin

text \<open>
  Asymmetric operations of a security policy: the block loops \<open>public_encrypt\<close> and
  \<open>private_decrypt\<close> of \<open>async-opcua-crypto/src/aes/rsa_private_key.rs\<close> and the dispatch of
  \<open>security_policy.rs\<close>.

  The RSA and ECDSA primitives on one block or one message are third-party code: they are the
  fields of the record \<open>AsymCrypto\<close>. Encryption is randomised, so its primitive also takes the
  position of the block. \<open>None\<close> as a result is a call that does not return: a panic, or the loop of
  \<open>public_encrypt\<close> for a key too small to hold one byte of plain text.
\<close>

definition BadInternalError :: StatusCode where "BadInternalError = 0x80020000"

section \<open>Keys and certificates\<close>

datatype KeyKind = RsaKey | EccKey

record PublicKey =
  pk_kind :: KeyKind
  pk_id :: bytes
  pk_size :: nat

record PrivateKey =
  sk_kind :: KeyKind
  sk_id :: bytes
  sk_size :: nat

record X509 =
  x509_der :: bytes
  x509_thumbprint :: bytes
  x509_public_key :: "PublicKey encoding_result"

definition x509_public_key_size :: "X509 \<Rightarrow> nat encoding_result" where
  "x509_public_key_size x = map_sum id pk_size (x509_public_key x)"

record AsymCrypto =
  rsa_sign :: "SecurityPolicy \<Rightarrow> PrivateKey \<Rightarrow> bytes \<Rightarrow> bytes option"
  rsa_verify :: "SecurityPolicy \<Rightarrow> PublicKey \<Rightarrow> bytes \<Rightarrow> bytes \<Rightarrow> bool option"
  rsa_encrypt_block :: "AsymmetricEncryption \<Rightarrow> PublicKey \<Rightarrow> nat \<Rightarrow> bytes \<Rightarrow> bytes option"
  rsa_decrypt_block :: "AsymmetricEncryption \<Rightarrow> PrivateKey \<Rightarrow> bytes \<Rightarrow> bytes option"
  ecdsa_sign :: "PrivateKey \<Rightarrow> bytes \<Rightarrow> bytes encoding_result"
  ecdsa_verify :: "PublicKey \<Rightarrow> bytes \<Rightarrow> bytes \<Rightarrow> bool"
  x509_parse :: "bytes \<Rightarrow> X509 encoding_result"

section \<open>Block loops\<close>

text \<open>The loop of \<open>public_encrypt\<close> from the index \<open>src_idx\<close>; \<open>dst\<close> is what was written so far into a
  buffer of \<open>dst_len\<close> bytes, the error \<open>()\<close> is \<open>PKeyError\<close>.\<close>

function public_encrypt_loop ::
    "'z AsymCrypto_scheme \<Rightarrow> AsymmetricEncryption \<Rightarrow> PublicKey \<Rightarrow> bytes \<Rightarrow> nat \<Rightarrow> nat \<Rightarrow> bytes
     \<Rightarrow> (unit + bytes) option" where
  "public_encrypt_loop cr a key src dst_len src_idx dst =
     (if src_idx < length src then
        let plain_text_block_size = get_plaintext_block_size a (pk_size key);
            bytes_to_encrypt =
              (if length src < plain_text_block_size then length src
               else if length src - src_idx < plain_text_block_size then length src - src_idx
               else plain_text_block_size);
            src_end_index = src_idx + bytes_to_encrypt
        in if bytes_to_encrypt = 0 then None
           else if length src < src_end_index then Some (Inl ())
           else case rsa_encrypt_block cr a key (length dst) (take bytes_to_encrypt (drop src_idx src)) of
                  None \<Rightarrow> Some (Inl ())
                | Some encrypted \<Rightarrow>
                    if length encrypted \<noteq> pk_size key then Some (Inl ())
                    else if dst_len < length dst + pk_size key then Some (Inl ())
                    else public_encrypt_loop cr a key src dst_len src_end_index (dst @ encrypted)
      else Some (Inr dst))"
  by pat_completeness auto

termination
  by (relation "measure (\<lambda>(cr, a, key, src, dst_len, src_idx, dst). length src - src_idx)")
    (auto simp: Let_def split: if_splits)

declare public_encrypt_loop.simps [simp del]

definition public_encrypt ::
    "'z AsymCrypto_scheme \<Rightarrow> AsymmetricEncryption \<Rightarrow> PublicKey \<Rightarrow> bytes \<Rightarrow> nat \<Rightarrow> (unit + bytes) option" where
  "public_encrypt cr a key src dst_len =
     (if pk_kind key = EccKey then Some (Inl ()) else public_encrypt_loop cr a key src dst_len 0 [])"

text \<open>The loop of \<open>private_decrypt\<close>, entered with a block size that is not 0.\<close>

function private_decrypt_loop ::
    "'z AsymCrypto_scheme \<Rightarrow> AsymmetricEncryption \<Rightarrow> PrivateKey \<Rightarrow> bytes \<Rightarrow> nat \<Rightarrow> nat \<Rightarrow> bytes \<Rightarrow> unit + bytes" where
  "private_decrypt_loop cr a key src dst_len src_idx dst =
     (if src_idx < length src \<and> 0 < sk_size key then
        let src_end_index = src_idx + sk_size key
        in if length src < src_end_index then Inl ()
           else if dst_len < length dst + sk_size key then Inl ()
           else case rsa_decrypt_block cr a key (take (sk_size key) (drop src_idx src)) of
                  None \<Rightarrow> Inl ()
                | Some plaintext \<Rightarrow>
                    if sk_size key < length plaintext then Inl ()
                    else private_decrypt_loop cr a key src dst_len src_end_index (dst @ plaintext)
      else Inr dst)"
  by pat_completeness auto

termination
  by (relation "measure (\<lambda>(cr, a, key, src, dst_len, src_idx, dst). length src - src_idx)") auto

declare private_decrypt_loop.simps [simp del]

definition private_decrypt ::
    "'z AsymCrypto_scheme \<Rightarrow> AsymmetricEncryption \<Rightarrow> PrivateKey \<Rightarrow> bytes \<Rightarrow> nat \<Rightarrow> unit + bytes" where
  "private_decrypt cr a key src dst_len =
     (if sk_kind key = EccKey then Inl ()
      else if sk_size key = 0 \<or> \<not> sk_size key dvd length src then Inl ()
      else private_decrypt_loop cr a key src dst_len 0 [])"

section \<open>Operations of a policy\<close>

text \<open>The signature, for a buffer of \<open>sig_len\<close> bytes. The RSA code copies it with \<open>copy_from_slice\<close>,
  which panics unless the lengths agree; the ECDSA code fills a prefix of the buffer.\<close>

definition asymmetric_sign ::
    "Features \<Rightarrow> 'z AsymCrypto_scheme \<Rightarrow> SecurityPolicy \<Rightarrow> PrivateKey \<Rightarrow> bytes \<Rightarrow> nat \<Rightarrow> bytes encoding_result option" where
  "asymmetric_sign ft cr p key data sig_len =
     (if is_ecc p then
        if \<not> ecc ft then Some (Inl (Error_new BadNotImplemented))
        else if sk_kind key \<noteq> EccKey then Some (Inl (Error_new BadSecurityChecksFailed))
        else Some (bind_result (ecdsa_sign cr key data) (\<lambda>signature.
               if sig_len < length signature then Inl (Error_new BadSecurityChecksFailed)
               else Inr (signature @ replicate (sig_len - length signature) 0)))
      else case call_with_policy ft p of
             None \<Rightarrow> None
           | Some NonePolicy \<Rightarrow> Some (Inl (Error_new BadInternalError))
           | Some (AesPolicy _) \<Rightarrow>
               if sk_kind key = EccKey then Some (Inl (Error_new BadSecurityChecksFailed))
               else (case rsa_sign cr p key data of
                       None \<Rightarrow> Some (Inl (Error_new BadUnexpectedError))
                     | Some signature \<Rightarrow> if length signature = sig_len then Some (Inr signature) else None))"

definition asymmetric_verify_signature ::
    "Features \<Rightarrow> 'z AsymCrypto_scheme \<Rightarrow> SecurityPolicy \<Rightarrow> PublicKey \<Rightarrow> bytes \<Rightarrow> bytes \<Rightarrow> unit encoding_result option" where
  "asymmetric_verify_signature ft cr p key data signature =
     (if is_ecc p then
        if \<not> ecc ft then Some (Inl (Error_new BadNotImplemented))
        else if pk_kind key \<noteq> EccKey then Some (Inl (Error_new BadSecurityChecksFailed))
        else if ecdsa_verify cr key data signature then Some (Inr ())
        else Some (Inl (Error_new BadSecurityChecksFailed))
      else case call_with_policy ft p of
             None \<Rightarrow> None
           | Some NonePolicy \<Rightarrow> Some (Inl (Error_new BadInternalError))
           | Some (AesPolicy _) \<Rightarrow>
               if pk_kind key = EccKey then Some (Inl (Error_new BadSecurityChecksFailed))
               else (case rsa_verify cr p key data signature of
                       None \<Rightarrow> Some (Inl (Error_new BadUnexpectedError))
                     | Some True \<Rightarrow> Some (Inr ())
                     | Some False \<Rightarrow> Some (Inl (Error_new BadSecurityChecksFailed))))"

definition asymmetric_encrypt ::
    "Features \<Rightarrow> 'z AsymCrypto_scheme \<Rightarrow> SecurityPolicy \<Rightarrow> PublicKey \<Rightarrow> bytes \<Rightarrow> nat \<Rightarrow> bytes encoding_result option" where
  "asymmetric_encrypt ft cr p key src dst_len =
     (if is_ecc p then Some (Inl (Error_new BadNotImplemented))
      else case call_with_policy ft p of
             None \<Rightarrow> None
           | Some NonePolicy \<Rightarrow> Some (Inl (Error_new BadInternalError))
           | Some (AesPolicy pol) \<Rightarrow>
               map_option (map_sum (\<lambda>_. Error_new BadUnexpectedError) id)
                 (public_encrypt cr (AsymmetricEncryption_of pol) key src dst_len))"

definition asymmetric_decrypt ::
    "Features \<Rightarrow> 'z AsymCrypto_scheme \<Rightarrow> SecurityPolicy \<Rightarrow> PrivateKey \<Rightarrow> bytes \<Rightarrow> nat \<Rightarrow> bytes encoding_result option" where
  "asymmetric_decrypt ft cr p key src dst_len =
     (if is_ecc p then Some (Inl (Error_new BadNotImplemented))
      else case call_with_policy ft p of
             None \<Rightarrow> None
           | Some NonePolicy \<Rightarrow> Some (Inl (Error_new BadInternalError))
           | Some (AesPolicy pol) \<Rightarrow>
               Some (map_sum (\<lambda>_. Error_new BadSecurityChecksFailed) id
                 (private_decrypt cr (AsymmetricEncryption_of pol) key src dst_len)))"

section \<open>Decryption undoes encryption\<close>

text \<open>What RSA promises for a pair of keys and a padding scheme: a block that leaves room for the
  padding is encrypted to as many bytes as the key has, and these decrypt to the block.\<close>

definition rsa_pair :: "'z AsymCrypto_scheme \<Rightarrow> AsymmetricEncryption \<Rightarrow> PrivateKey \<Rightarrow> PublicKey \<Rightarrow> bool" where
  "rsa_pair cr a sk pk \<longleftrightarrow>
     pk_kind pk = RsaKey \<and> sk_kind sk = RsaKey \<and> sk_size sk = pk_size pk
     \<and> 0 < get_plaintext_block_size a (pk_size pk)
     \<and> (\<forall>i b. length b \<le> get_plaintext_block_size a (pk_size pk) \<longrightarrow>
          (\<exists>c. rsa_encrypt_block cr a pk i b = Some c \<and> length c = pk_size pk
               \<and> rsa_decrypt_block cr a sk c = Some b))"

lemma get_plaintext_block_size_le: "get_plaintext_block_size a n \<le> n"
  by (simp add: get_plaintext_block_size_def split: AsymmetricEncryption.splits)

text \<open>The size of the cipher text, block by block.\<close>

lemma rsa_cipher_text_size_0 [simp]: "rsa_cipher_text_size a k 0 = 0"
  by (simp add: rsa_cipher_text_size_def)

lemma rsa_cipher_text_size_last:
  "0 < n \<Longrightarrow> n < get_plaintext_block_size a k \<Longrightarrow> rsa_cipher_text_size a k n = k"
  by (auto simp: rsa_cipher_text_size_def Let_def dest: dvd_imp_le)

lemma rsa_cipher_text_size_step:
  assumes "0 < get_plaintext_block_size a k" and "get_plaintext_block_size a k \<le> n"
  shows "rsa_cipher_text_size a k n = k + rsa_cipher_text_size a k (n - get_plaintext_block_size a k)"
proof -
  let ?b = "get_plaintext_block_size a k"
  have "n div ?b = Suc ((n - ?b) div ?b)" using assms by (simp add: le_div_geq)
  moreover have "?b dvd n \<longleftrightarrow> ?b dvd n - ?b" using assms(2) by (metis dvd_minus_self le_antisym nat_le_linear not_le)
  ultimately show ?thesis by (simp add: rsa_cipher_text_size_def Let_def)
qed

lemma rsa_cipher_text_size_mono:
  assumes "0 < get_plaintext_block_size a k" and "m \<le> n"
  shows "rsa_cipher_text_size a k m \<le> rsa_cipher_text_size a k n"
  using assms by (simp add: rsa_cipher_text_size_ceiling div_le_mono)

lemma rsa_cipher_text_size_ge:
  assumes "0 < get_plaintext_block_size a k" and "get_plaintext_block_size a k \<le> k"
  shows "n \<le> rsa_cipher_text_size a k n"
  using assms
proof (induction n rule: less_induct)
  case (less n)
  show ?case
  proof (cases "get_plaintext_block_size a k \<le> n")
    case True
    have "n - get_plaintext_block_size a k \<le> rsa_cipher_text_size a k (n - get_plaintext_block_size a k)"
      using less.IH [of "n - get_plaintext_block_size a k"] True less.prems by simp
    then show ?thesis using rsa_cipher_text_size_step [OF less.prems(1) True] less.prems(2) by linarith
  next
    case False
    then show ?thesis using rsa_cipher_text_size_last [of n a k] less.prems(2) by (cases "n = 0") auto
  qed
qed

text \<open>One round of each loop, on keys that form a pair.\<close>

lemma public_encrypt_loop_block:
  assumes pair: "rsa_pair cr a sk pk" and idx: "src_idx < length src"
    and whole: "src_idx = 0 \<or> get_plaintext_block_size a (pk_size pk) \<le> length src"
    and room: "length dst + pk_size pk \<le> dst_len"
    and n: "n = min (length src - src_idx) (get_plaintext_block_size a (pk_size pk))"
  shows "\<exists>c. public_encrypt_loop cr a pk src dst_len src_idx dst
              = public_encrypt_loop cr a pk src dst_len (src_idx + n) (dst @ c)
     \<and> length c = pk_size pk \<and> rsa_decrypt_block cr a sk c = Some (take n (drop src_idx src))"
proof -
  let ?b = "get_plaintext_block_size a (pk_size pk)"
  have n_eq: "(if length src < ?b then length src
       else if length src - src_idx < ?b then length src - src_idx else ?b) = n"
    using whole n by auto
  have n_pos: "n \<noteq> 0" using pair idx n by (auto simp: rsa_pair_def)
  have n_end: "\<not> length src < src_idx + n" using n idx by auto
  obtain c where c: "rsa_encrypt_block cr a pk (length dst) (take n (drop src_idx src)) = Some c"
      "length c = pk_size pk" "rsa_decrypt_block cr a sk c = Some (take n (drop src_idx src))"
    using pair n unfolding rsa_pair_def by (metis length_take min.cobounded2 min.coboundedI2)
  have "public_encrypt_loop cr a pk src dst_len src_idx dst
      = public_encrypt_loop cr a pk src dst_len (src_idx + n) (dst @ c)"
    by (subst public_encrypt_loop.simps) (use idx n_eq n_pos n_end c room in \<open>simp add: Let_def\<close>)
  then show ?thesis using c by blast
qed

lemma private_decrypt_loop_block:
  assumes "rsa_decrypt_block cr a sk c = Some b" and "length c = sk_size sk" and "0 < sk_size sk"
    and "length b \<le> sk_size sk" and "length out + sk_size sk \<le> n"
  shows "private_decrypt_loop cr a sk (pre @ c @ rest) n (length pre) out
     = private_decrypt_loop cr a sk (pre @ c @ rest) n (length pre + sk_size sk) (out @ b)"
  by (subst private_decrypt_loop.simps) (use assms in \<open>simp add: Let_def\<close>)

lemma public_encrypt_loop_ok:
  assumes "rsa_pair cr a sk pk" and "src_idx \<le> length src"
    and "src_idx = 0 \<or> get_plaintext_block_size a (pk_size pk) \<le> length src"
    and "length dst + rsa_cipher_text_size a (pk_size pk) (length src - src_idx) \<le> dst_len"
  shows "\<exists>c. public_encrypt_loop cr a pk src dst_len src_idx dst = Some (Inr (dst @ c))
     \<and> length c = rsa_cipher_text_size a (pk_size pk) (length src - src_idx)
     \<and> (\<forall>pre out n. length pre + length c \<le> n \<longrightarrow> length out \<le> length pre \<longrightarrow>
          private_decrypt_loop cr a sk (pre @ c) n (length pre) out = Inr (out @ drop src_idx src))"
  using assms
proof (induction "length src - src_idx" arbitrary: src_idx dst rule: less_induct)
  case less
  let ?b = "get_plaintext_block_size a (pk_size pk)" and ?k = "pk_size pk"
  have b: "0 < ?b" "?b \<le> ?k" "sk_size sk = ?k"
    using less.prems(1) get_plaintext_block_size_le by (auto simp: rsa_pair_def)
  show ?case
  proof (cases "src_idx < length src")
    case False
    then show ?thesis using less.prems
      by (auto simp: public_encrypt_loop.simps [of cr a pk] private_decrypt_loop.simps [of cr a sk])
  next
    case True
    define n where "n = min (length src - src_idx) ?b"
    have n: "0 < n" "n \<le> ?b" "src_idx + n \<le> length src" using True b n_def by auto
    have size: "rsa_cipher_text_size a ?k (length src - src_idx) =
        ?k + rsa_cipher_text_size a ?k (length src - (src_idx + n))"
      using rsa_cipher_text_size_step [of a ?k "length src - src_idx"] True b
        rsa_cipher_text_size_last [of "length src - src_idx" a ?k] n_def
      by (cases "?b \<le> length src - src_idx") (auto simp: min_def)
    obtain c where c: "public_encrypt_loop cr a pk src dst_len src_idx dst
          = public_encrypt_loop cr a pk src dst_len (src_idx + n) (dst @ c)"
        "length c = ?k" "rsa_decrypt_block cr a sk c = Some (take n (drop src_idx src))"
      using public_encrypt_loop_block [OF less.prems(1) True less.prems(3) _ n_def, of dst dst_len]
        less.prems(4) size by auto
    have whole: "src_idx + n = 0 \<or> ?b \<le> length src \<or> src_idx + n = length src"
      using less.prems(3) n_def by auto
    obtain d where d: "public_encrypt_loop cr a pk src dst_len (src_idx + n) (dst @ c) = Some (Inr ((dst @ c) @ d))"
        "length d = rsa_cipher_text_size a ?k (length src - (src_idx + n))"
        "\<And>pre out m. length pre + length d \<le> m \<Longrightarrow> length out \<le> length pre \<Longrightarrow>
          private_decrypt_loop cr a sk (pre @ d) m (length pre) out = Inr (out @ drop (src_idx + n) src)"
    proof (cases "src_idx + n = length src")
      case True
      then have "public_encrypt_loop cr a pk src dst_len (src_idx + n) (dst @ c) = Some (Inr ((dst @ c) @ []))"
        "\<And>pre out m. private_decrypt_loop cr a sk (pre @ []) m (length pre) out = Inr (out @ drop (src_idx + n) src)"
        by (simp_all add: public_encrypt_loop.simps [of cr a pk] private_decrypt_loop.simps [of cr a sk])
      then show ?thesis using that [of "[]"] True by simp
    next
      case False
      then have "\<exists>d. public_encrypt_loop cr a pk src dst_len (src_idx + n) (dst @ c) = Some (Inr ((dst @ c) @ d))
          \<and> length d = rsa_cipher_text_size a ?k (length src - (src_idx + n))
          \<and> (\<forall>pre out m. length pre + length d \<le> m \<longrightarrow> length out \<le> length pre \<longrightarrow>
               private_decrypt_loop cr a sk (pre @ d) m (length pre) out = Inr (out @ drop (src_idx + n) src))"
        using less.prems n whole size c(2) by (intro less.hyps) auto
      then show ?thesis using that by blast
    qed
    have "private_decrypt_loop cr a sk (pre @ c @ d) m (length pre) out = Inr (out @ drop src_idx src)"
      if "length pre + length (c @ d) \<le> m" "length out \<le> length pre" for pre out m
    proof -
      have "private_decrypt_loop cr a sk (pre @ c @ d) m (length pre) out
          = private_decrypt_loop cr a sk ((pre @ c) @ d) m (length (pre @ c)) (out @ take n (drop src_idx src))"
        using private_decrypt_loop_block [OF c(3), of out m pre d] c(2) b n that by simp
      also have "\<dots> = Inr ((out @ take n (drop src_idx src)) @ drop (src_idx + n) src)"
        using d(3) [of "pre @ c" m "out @ take n (drop src_idx src)"] c(2) b n that by simp
      also have "\<dots> = Inr (out @ drop src_idx src)"
        by (metis append.assoc append_take_drop_id drop_drop add.commute)
      finally show ?thesis .
    qed
    then show ?thesis using c(1,2) d(1,2) size by (intro exI [of _ "c @ d"]) simp
  qed
qed

lemma public_encrypt_private_decrypt:
  assumes "rsa_pair cr a sk pk" and "rsa_cipher_text_size a (pk_size pk) (length src) \<le> dst_len"
  shows "\<exists>c. public_encrypt cr a pk src dst_len = Some (Inr c)
     \<and> length c = rsa_cipher_text_size a (pk_size pk) (length src)
     \<and> private_decrypt cr a sk c (length c) = Inr src"
proof -
  obtain c where c: "public_encrypt_loop cr a pk src dst_len 0 [] = Some (Inr ([] @ c))"
      "length c = rsa_cipher_text_size a (pk_size pk) (length src)"
      and dec: "\<forall>pre out n. length pre + length c \<le> n \<longrightarrow> length out \<le> length pre \<longrightarrow>
          private_decrypt_loop cr a sk (pre @ c) n (length pre) out = Inr (out @ drop 0 src)"
    using public_encrypt_loop_ok [OF assms(1), of 0 src "[]" dst_len] assms(2) by auto
  have "private_decrypt_loop cr a sk c (length c) 0 [] = Inr src"
    using dec [rule_format, of "[]" "length c" "[]"] by simp
  moreover note c
  moreover have "sk_kind sk \<noteq> EccKey" "pk_kind pk \<noteq> EccKey" "sk_size sk \<noteq> 0"
    "sk_size sk dvd rsa_cipher_text_size a (pk_size pk) (length src)"
    using assms(1) get_plaintext_block_size_le [of a "pk_size pk"]
    by (auto simp: rsa_pair_def rsa_cipher_text_size_def Let_def)
  ultimately show ?thesis
    by (simp add: public_encrypt_def private_decrypt_def)
qed

end
