(* ===== verification/Secure_Channel.thy ===== *)
theory Secure_Channel
  imports Asymmetric_Crypto
begin

text \<open>
  The secure channel's state, after \<open>async-opcua-core/src/comms/secure_channel/mod.rs\<close> and
  \<open>state.rs\<close>: role, policy and mode, the token and its lifetime, nonces and certificates, the
  local keys and the table of remote keys by token, and every operation that changes them.

  Times are milliseconds; the clock is an argument. A certificate is its encoding together with
  what the X.509 code reads from it (thumbprint, public key); parsing a certificate,
  deriving keys and the random generator are parameters. \<open>token_lifetime as f32 * 1.25\<close> is computed
  with the rounding of single precision.
\<close>

definition BadNonceInvalid :: StatusCode where "BadNonceInvalid = 0x80240000"
definition BadCertificateInvalid :: StatusCode where "BadCertificateInvalid = 0x80120000"

section \<open>State\<close>

datatype Role = Role_Unknown | Role_Client | Role_Server

datatype MessageSecurityMode = Mode_Invalid | Mode_None | Mode_Sign | Mode_SignAndEncrypt

record 'k RemoteKeys =
  rk_keys :: 'k
  rk_expires_at :: int

record 'k SecureChannel =
  role :: Role
  allow_deprecated :: bool
  security_policy :: SecurityPolicy
  security_mode :: MessageSecurityMode
  secure_channel_id :: u32
  token_id :: u32
  token_created_at :: int
  token_lifetime :: u32
  local_nonce :: bytes
  local_ephemeral_key :: "bytes option"
  first_request_signature :: bytes
  apply_channel_thumbprint :: bool
  remote_nonce :: bytes
  cert :: "X509 option"
  private_key :: "PrivateKey option"
  remote_cert :: "X509 option"
  local_keys :: "'k option"
  remote_keys :: "u32 \<rightharpoonup> 'k RemoteKeys"
  peer_max_response_body_size :: "nat option"
  decoding_options :: DecodingOptions
  security_policy_valid :: bool

definition SecureChannel_new ::
    "X509 option \<Rightarrow> PrivateKey option \<Rightarrow> Role \<Rightarrow> DecodingOptions \<Rightarrow> int \<Rightarrow> 'k SecureChannel" where
  "SecureChannel_new own_cert own_pkey r opts now =
     \<lparr>role = r, allow_deprecated = False, security_policy = SP_None, security_mode = Mode_None,
      secure_channel_id = 0, token_id = 0, token_created_at = now, token_lifetime = 0,
      local_nonce = [], local_ephemeral_key = None, first_request_signature = [], apply_channel_thumbprint = False,
      remote_nonce = [], cert = own_cert, private_key = own_pkey,
      remote_cert = None, local_keys = None, remote_keys = Map.empty,
      peer_max_response_body_size = None, decoding_options = opts, security_policy_valid = False\<rparr>"

definition private_key_size :: "'k SecureChannel \<Rightarrow> nat option" where
  "private_key_size ch = map_option sk_size (private_key ch)"

definition set_apply_channel_thumbprint :: "bool \<Rightarrow> 'k SecureChannel \<Rightarrow> 'k SecureChannel" where
  "set_apply_channel_thumbprint v ch = ch\<lparr>apply_channel_thumbprint := v\<rparr>"

section \<open>Policy and token\<close>

definition is_client_role :: "'k SecureChannel \<Rightarrow> bool" where
  "is_client_role ch \<longleftrightarrow> role ch = Role_Client"

definition known_policy :: "'k SecureChannel \<Rightarrow> SecurityPolicy option" where
  "known_policy ch = (if security_policy_valid ch then Some (security_policy ch) else None)"

definition set_security_policy :: "SecurityPolicy \<Rightarrow> 'k SecureChannel \<Rightarrow> 'k SecureChannel" where
  "set_security_policy p ch =
     ch\<lparr>security_policy_valid :=
          p \<in> {SP_Basic128Rsa15, SP_Basic256, SP_Basic256Sha256, SP_Aes128Sha256RsaOaep,
               SP_Aes256Sha256RsaPss, SP_EccNistP256, SP_EccNistP384},
        security_policy := p\<rparr>"

definition set_security_mode :: "MessageSecurityMode \<Rightarrow> 'k SecureChannel \<Rightarrow> 'k SecureChannel" where
  "set_security_mode m ch = ch\<lparr>security_mode := m\<rparr>"

definition set_client_response_body_limit :: "u32 \<Rightarrow> 'k SecureChannel \<Rightarrow> 'k SecureChannel" where
  "set_client_response_body_limit n ch =
     ch\<lparr>peer_max_response_body_size := (if n = 0 then None else Some (unat n))\<rparr>"

definition clear_security_token :: "int \<Rightarrow> 'k SecureChannel \<Rightarrow> 'k SecureChannel" where
  "clear_security_token now ch =
     ch\<lparr>secure_channel_id := 0, token_id := 0, token_created_at := now, token_lifetime := 0\<rparr>"

record ChannelSecurityToken =
  cst_channel_id :: u32
  cst_token_id :: u32
  cst_created_at :: int
  cst_revised_lifetime :: u32

definition set_security_token :: "ChannelSecurityToken \<Rightarrow> 'k SecureChannel \<Rightarrow> 'k SecureChannel" where
  "set_security_token t ch =
     ch\<lparr>secure_channel_id := cst_channel_id t, token_id := cst_token_id t,
        token_created_at := cst_created_at t, token_lifetime := cst_revised_lifetime t\<rparr>"

text \<open>\<open>self.token_lifetime * 3\<close> is a \<open>u32\<close> product: it wraps.\<close>

definition should_renew_security_token :: "int \<Rightarrow> 'k SecureChannel \<Rightarrow> bool" where
  "should_renew_security_token now ch =
     (if token_id ch = 0 then False
      else int (unat ((token_lifetime ch * 3) div 4)) < now - token_created_at ch)"

text \<open>\<open>token_renewal_deadline\<close>, as the number of milliseconds to wait from \<open>now\<close>. The lifetime is
  passed to \<open>Duration::seconds\<close>.\<close>

definition token_renewal_wait :: "int \<Rightarrow> 'k SecureChannel \<Rightarrow> int" where
  "token_renewal_wait now ch =
     (let deadline = token_created_at ch + 1000 * (int (unat (token_lifetime ch)) * 4 div 3);
          until_expiration = deadline - now
      in if until_expiration < 0 then 0 else until_expiration)"

section \<open>Nonces and certificates\<close>

definition create_random_nonce :: "Features \<Rightarrow> (nat \<Rightarrow> bytes) \<Rightarrow> 'k SecureChannel \<Rightarrow> 'k SecureChannel option" where
  "create_random_nonce ft random ch =
     map_option (\<lambda>n. ch\<lparr>local_nonce := random n\<rparr>) (secure_channel_nonce_length ft (security_policy ch))"

definition validate_secure_channel_nonce_length ::
    "Features \<Rightarrow> ByteString \<Rightarrow> 'k SecureChannel \<Rightarrow> unit encoding_result" where
  "validate_secure_channel_nonce_length ft nonce ch =
     (if security_policy ch \<noteq> SP_None
         \<and> Some (length (UAString_as_ref nonce)) \<noteq> secure_channel_nonce_length ft (security_policy ch)
      then Inl (Error_new BadNonceInvalid) else Inr ())"

definition set_remote_nonce_from_byte_string ::
    "ByteString \<Rightarrow> 'k SecureChannel \<Rightarrow> 'k SecureChannel \<times> unit encoding_result" where
  "set_remote_nonce_from_byte_string nonce ch =
     (case nonce of
        Some n \<Rightarrow> (ch\<lparr>remote_nonce := n\<rparr>, Inr ())
      | None \<Rightarrow> if security_policy ch \<noteq> SP_None then (ch, Inl (Error_new BadNonceInvalid)) else (ch, Inr ()))"

definition set_remote_cert_from_byte_string ::
    "(bytes \<Rightarrow> X509 encoding_result) \<Rightarrow> ByteString \<Rightarrow> 'k SecureChannel \<Rightarrow> 'k SecureChannel \<times> unit encoding_result" where
  "set_remote_cert_from_byte_string parse_cert bs ch =
     (if UAString_is_empty bs then (ch\<lparr>remote_cert := None\<rparr>, Inr ())
      else case parse_cert (UAString_as_ref bs) of
             Inl e \<Rightarrow> (ch, Inl e)
           | Inr c \<Rightarrow> (ch\<lparr>remote_cert := Some c\<rparr>, Inr ()))"

definition local_nonce_as_byte_string :: "'k SecureChannel \<Rightarrow> ByteString" where
  "local_nonce_as_byte_string ch = (if local_nonce ch = [] then None else Some (local_nonce ch))"

definition remote_nonce_as_byte_string :: "'k SecureChannel \<Rightarrow> ByteString" where
  "remote_nonce_as_byte_string ch = (if remote_nonce ch = [] then None else Some (remote_nonce ch))"

section \<open>Keys\<close>

text \<open>
  Rounding of a natural number to 24 significant bits, ties to even: the conversion to \<open>f32\<close>. The
  product with 1.25 is formed in quarters, rounded again, and \<open>ceil\<close> takes it back to milliseconds.
\<close>

fun bit_len :: "nat \<Rightarrow> nat" where
  "bit_len n = (if n = 0 then 0 else Suc (bit_len (n div 2)))"

definition f32_round :: "nat \<Rightarrow> nat" where
  "f32_round n =
     (let e = bit_len n - 24; q = n div 2 ^ e; r = n mod 2 ^ e
      in if e = 0 then n
         else if 2 ^ e < 2 * r \<or> 2 ^ e = 2 * r \<and> odd q then (q + 1) * 2 ^ e
         else q * 2 ^ e)"

definition remote_keys_lifetime :: "u32 \<Rightarrow> int" where
  "remote_keys_lifetime lifetime =
     (let quarters = f32_round (5 * f32_round (unat lifetime)) in int ((quarters + 3) div 4))"

definition insert_remote_keys :: "int \<Rightarrow> 'k \<Rightarrow> 'k SecureChannel \<Rightarrow> 'k SecureChannel" where
  "insert_remote_keys now keys ch =
     (let retained = (\<lambda>tid. case remote_keys ch tid of
                         Some v \<Rightarrow> if now < rk_expires_at v then Some v else None
                       | None \<Rightarrow> None)
      in ch\<lparr>remote_keys := retained(token_id ch \<mapsto>
              \<lparr>rk_keys = keys, rk_expires_at = token_created_at ch + remote_keys_lifetime (token_lifetime ch)\<rparr>)\<rparr>)"

definition get_remote_keys :: "u32 \<Rightarrow> 'k SecureChannel \<Rightarrow> 'k option" where
  "get_remote_keys tid ch = map_option rk_keys (remote_keys ch tid)"

definition expect_supported_security_policy :: "'k SecureChannel \<Rightarrow> StatusCode + unit" where
  "expect_supported_security_policy ch =
     (if security_policy_valid ch then Inr () else Inl BadSecurityPolicyRejected)"

text \<open>
  \<open>derive_keys\<close>. \<open>make_keys\<close> is \<open>SecurityPolicy::make_secure_channel_keys\<close> (policy, secret, seed),
  which panics for the policies without an AES implementation; \<open>ecdh\<close> stands for the ECDH agreement
  (policy, own ephemeral key, peer's nonce, client's nonce, server's nonce) on the keys of the client
  and the server.
\<close>

definition derive_ecc_keys ::
    "(SecurityPolicy \<Rightarrow> bytes \<Rightarrow> bytes \<Rightarrow> bytes \<Rightarrow> bytes \<Rightarrow> ('k \<times> 'k) encoding_result) \<Rightarrow> int
     \<Rightarrow> 'k SecureChannel \<Rightarrow> 'k SecureChannel" where
  "derive_ecc_keys ecdh now ch =
     (case local_ephemeral_key ch of
        None \<Rightarrow> ch
      | Some key \<Rightarrow>
          let (client_nonce, server_nonce) =
                (if is_client_role ch then (local_nonce ch, remote_nonce ch)
                 else (remote_nonce ch, local_nonce ch))
          in case ecdh (security_policy ch) key (remote_nonce ch) client_nonce server_nonce of
               Inr (client, server) \<Rightarrow>
                 if is_client_role ch then insert_remote_keys now server (ch\<lparr>local_keys := Some client\<rparr>)
                 else insert_remote_keys now client (ch\<lparr>local_keys := Some server\<rparr>)
             | Inl _ \<Rightarrow> ch\<lparr>local_keys := None\<rparr>)"

definition derive_keys ::
    "Features \<Rightarrow> (SecurityPolicy \<Rightarrow> bytes \<Rightarrow> bytes \<Rightarrow> 'k)
     \<Rightarrow> (SecurityPolicy \<Rightarrow> bytes \<Rightarrow> bytes \<Rightarrow> bytes \<Rightarrow> bytes \<Rightarrow> ('k \<times> 'k) encoding_result)
     \<Rightarrow> int \<Rightarrow> 'k SecureChannel \<Rightarrow> 'k SecureChannel option" where
  "derive_keys ft make_keys ecdh now ch =
     (if ecc ft \<and> is_ecc (security_policy ch) then Some (derive_ecc_keys ecdh now ch)
      else
        case call_with_policy ft (security_policy ch) of
          Some (AesPolicy _) \<Rightarrow>
            let ch' = insert_remote_keys now (make_keys (security_policy ch) (local_nonce ch) (remote_nonce ch)) ch
            in Some (ch'\<lparr>local_keys := Some (make_keys (security_policy ch) (remote_nonce ch) (local_nonce ch))\<rparr>)
        | _ \<Rightarrow> None)"

section \<open>Security headers for outgoing chunks\<close>

definition is_secure_connection :: "'k SecureChannel \<Rightarrow> bool" where
  "is_secure_connection ch \<longleftrightarrow>
     security_policy ch \<noteq> SP_None \<and> security_mode ch \<in> {Mode_Sign, Mode_SignAndEncrypt}"

text \<open>\<open>None\<close> is the panic of \<open>cert.unwrap()\<close> or \<open>to_uri\<close>.\<close>

definition make_security_header ::
    "Features \<Rightarrow> MessageChunkType \<Rightarrow> 'k SecureChannel \<Rightarrow> SecurityHeader option" where
  "make_security_header ft mt ch =
     (case mt of
        MCT_OpenSecureChannel \<Rightarrow>
          if security_policy ch = SP_None then Some (SH_Asymmetric AsymmetricSecurityHeader_none)
          else
            Option.bind (cert ch) (\<lambda>c.
              map_option SH_Asymmetric
                (AsymmetricSecurityHeader_new ft (security_policy ch) (x509_der c)
                   (map_option x509_thumbprint (remote_cert ch))))
      | _ \<Rightarrow> Some (SH_Symmetric \<lparr>ssh_token_id = token_id ch\<rparr>))"

section \<open>Lemmas\<close>

definition channel_inv :: "'k SecureChannel \<Rightarrow> bool" where
  "channel_inv ch \<longleftrightarrow>
     (security_policy_valid ch \<longrightarrow>
        security_policy ch \<notin> {SP_Unknown, SP_None, SP_PubSubAes128Ctr, SP_PubSubAes256Ctr})"

lemma channel_inv_new: "channel_inv (SecureChannel_new c k r opts now)"
  by (simp add: channel_inv_def SecureChannel_new_def)

lemma channel_inv_set_policy: "channel_inv (set_security_policy p ch)"
  by (cases p) (simp_all add: channel_inv_def set_security_policy_def)

lemma known_policy_uri:
  "channel_inv ch \<Longrightarrow> known_policy ch = Some p \<Longrightarrow> \<exists>u. to_uri ft p = Some u \<and> from_uri u = p"
  using to_uri_total [of p ft] from_uri_to_uri [of ft p]
  by (fastforce simp: known_policy_def channel_inv_def split: if_splits)

text \<open>What inserting keys does to the key of any token.\<close>

lemma get_remote_keys_insert:
  "get_remote_keys tid (insert_remote_keys now k ch) =
     (if tid = token_id ch then Some k
      else case remote_keys ch tid of
             Some v \<Rightarrow> if now < rk_expires_at v then Some (rk_keys v) else None
           | None \<Rightarrow> None)"
  by (auto simp: get_remote_keys_def insert_remote_keys_def Let_def split: option.splits)

lemma bit_len_eq: "n \<noteq> 0 \<Longrightarrow> bit_len n = Suc (bit_len (n div 2))"
  by simp

declare bit_len.simps [simp del]

lemma bit_len_bound: "n < 2 ^ k \<Longrightarrow> bit_len n \<le> k"
proof (induction k arbitrary: n)
  case 0
  then show ?case by (simp add: bit_len.simps)
next
  case (Suc k)
  then have "bit_len (n div 2) \<le> k" by simp
  then show ?case by (cases "n = 0") (simp_all add: bit_len.simps [of n] bit_len.simps [of 0])
qed

lemma f32_round_exact: "n < 2 ^ 24 \<Longrightarrow> f32_round n = n"
  using bit_len_bound [of n 24] by (simp add: f32_round_def)

text \<open>Below about 56 minutes the rounding is exact: the keys live a quarter longer than the token.\<close>

lemma remote_keys_lifetime_exact:
  assumes "unat l < 3355443"
  shows "remote_keys_lifetime l = int ((5 * unat l + 3) div 4)"
  using assms by (simp add: remote_keys_lifetime_def Let_def f32_round_exact)

lemma derive_keys_frame:
  assumes "derive_keys ft mk ecdh now ch = Some ch'"
  shows "token_id ch' = token_id ch" "security_policy ch' = security_policy ch"
    "security_mode ch' = security_mode ch"
  using assms
  by (auto simp: derive_keys_def derive_ecc_keys_def insert_remote_keys_def Let_def
      split: if_splits option.splits SecurityPolicyImpl.splits sum.splits prod.splits)

section \<open>Properties\<close>

text \<open>Key agreement. When both ends of a channel hold the same policy and token and each has the
  other's nonce, deriving keys gives each end local keys that are the keys the other end files for
  that token, so whatever one end signs and encrypts the other verifies and decrypts with the
  same keys.\<close>

theorem derive_keys_agree:
  assumes "security_policy c = security_policy s" and "\<not> is_ecc (security_policy c)"
    and "local_nonce c = remote_nonce s" and "remote_nonce c = local_nonce s"
    and "token_id c = token_id s"
    and "derive_keys ft mk ecdh t c = Some c'" and "derive_keys ft mk ecdh u s = Some s'"
  shows "local_keys c' \<noteq> None
    \<and> local_keys c' = get_remote_keys (token_id c) s' \<and> local_keys s' = get_remote_keys (token_id s) c'"
  using assms
  by (auto simp: derive_keys_def insert_remote_keys_def get_remote_keys_def Let_def
      split: option.splits SecurityPolicyImpl.splits)

definition example_channel :: "Role \<Rightarrow> bytes \<Rightarrow> bytes \<Rightarrow> (bytes \<times> bytes) SecureChannel" where
  "example_channel r mine theirs =
     (set_security_policy SP_Basic256Sha256 (SecureChannel_new None None r DecodingOptions_default 0))
       \<lparr>local_nonce := mine, remote_nonce := theirs, token_id := 1\<rparr>"

theorem derive_keys_agree_witness:
  "\<exists>c' s'.
     derive_keys \<lparr>legacy_crypto = False, ecc = False\<rparr> (\<lambda>p secret seed. (secret, seed)) (\<lambda>_ _ _ _ _. Inl Error_decoding)
       0 (example_channel Role_Client [1] [2]) = Some c'
     \<and> derive_keys \<lparr>legacy_crypto = False, ecc = False\<rparr> (\<lambda>p secret seed. (secret, seed)) (\<lambda>_ _ _ _ _. Inl Error_decoding)
       0 (example_channel Role_Server [2] [1]) = Some s'
     \<and> local_keys c' = get_remote_keys 1 s' \<and> local_keys s' = get_remote_keys 1 c'"
proof -
  let ?d = "\<lambda>ch. derive_keys \<lparr>legacy_crypto = False, ecc = False\<rparr> (\<lambda>p secret seed. (secret, seed))
      (\<lambda>_ _ _ _ _. Inl Error_decoding) 0 ch"
  let ?c = "example_channel Role_Client [1] [2]" and ?s = "example_channel Role_Server [2] [1]"
  have p: "security_policy ?c = SP_Basic256Sha256" "security_policy ?s = SP_Basic256Sha256"
    "token_id ?c = 1" "token_id ?s = 1" "local_nonce ?c = remote_nonce ?s" "remote_nonce ?c = local_nonce ?s"
    by (simp_all add: example_channel_def set_security_policy_def)
  have "\<exists>c'. ?d ?c = Some c'" "\<exists>s'. ?d ?s = Some s'"
    using p by (simp_all add: derive_keys_def Let_def)
  then obtain c' s' where d: "?d ?c = Some c'" "?d ?s = Some s'" by blast
  show ?thesis
    using derive_keys_agree [OF _ _ _ _ _ d] d p by (auto simp: is_ecc_def)
qed

text \<open>Overlap of tokens at renewal. Deriving keys for a new token files the new keys, and the keys
  of any other token stay available exactly when their expiry (creation plus a quarter more than
  the lifetime) has not passed; so chunks secured with the previous token are still accepted
  after renewal, and expired keys never are.\<close>

theorem renewal_keeps_unexpired_keys:
  assumes "derive_keys ft mk ecdh now (set_security_token t ch) = Some ch'"
    and "\<not> is_ecc (security_policy ch)"
  shows "get_remote_keys tid ch' =
     (if tid = cst_token_id t then Some (mk (security_policy ch) (local_nonce ch) (remote_nonce ch))
      else case remote_keys ch tid of
             Some v \<Rightarrow> if now < rk_expires_at v then Some (rk_keys v) else None
           | None \<Rightarrow> None)"
proof -
  let ?ch = "set_security_token t ch"
  have "\<exists>k. ch' = (insert_remote_keys now (mk (security_policy ?ch) (local_nonce ?ch) (remote_nonce ?ch)) ?ch)\<lparr>local_keys := k\<rparr>"
    using assms by (auto simp: derive_keys_def Let_def set_security_token_def
        split: option.splits SecurityPolicyImpl.splits)
  then obtain k where "ch' = (insert_remote_keys now (mk (security_policy ?ch) (local_nonce ?ch) (remote_nonce ?ch)) ?ch)\<lparr>local_keys := k\<rparr>"
    by blast
  then have "get_remote_keys tid ch' =
      get_remote_keys tid (insert_remote_keys now (mk (security_policy ?ch) (local_nonce ?ch) (remote_nonce ?ch)) ?ch)"
    by (simp add: get_remote_keys_def)
  then show ?thesis
    by (simp add: get_remote_keys_insert set_security_token_def)
qed

theorem renewal_keeps_unexpired_keys_witness:
  "\<exists>ch'. derive_keys \<lparr>legacy_crypto = False, ecc = False\<rparr> (\<lambda>p secret seed. (secret, seed))
      (\<lambda>_ _ _ _ _. Inl Error_decoding) 50
      (set_security_token \<lparr>cst_channel_id = 1, cst_token_id = 2, cst_created_at = 40, cst_revised_lifetime = 100\<rparr>
        ((example_channel Role_Client [1] [2])\<lparr>remote_keys := [1 \<mapsto> \<lparr>rk_keys = ([7], [8]), rk_expires_at = 60\<rparr>]\<rparr>))
      = Some ch'
    \<and> get_remote_keys 1 ch' = Some ([7], [8])"
proof -
  let ?t = "\<lparr>cst_channel_id = 1, cst_token_id = 2, cst_created_at = 40, cst_revised_lifetime = 100\<rparr>"
  let ?ch = "(example_channel Role_Client [1] [2])\<lparr>remote_keys := [1 \<mapsto> \<lparr>rk_keys = ([7], [8]), rk_expires_at = 60\<rparr>]\<rparr>"
  let ?d = "derive_keys \<lparr>legacy_crypto = False, ecc = False\<rparr> (\<lambda>p secret seed. (secret, seed))
      (\<lambda>_ _ _ _ _. Inl Error_decoding) 50 (set_security_token ?t ?ch)"
  have p: "security_policy ?ch = SP_Basic256Sha256"
    by (simp add: example_channel_def set_security_policy_def)
  have "\<exists>ch'. ?d = Some ch'"
    using p by (simp add: derive_keys_def set_security_token_def Let_def)
  then obtain ch' where d: "?d = Some ch'" by blast
  show ?thesis
    using renewal_keeps_unexpired_keys [OF d, of 1] d p by (auto simp: is_ecc_def)
qed

text \<open>The renewal deadline of the server's channel outlives the token's keys. Lifetimes are in
  milliseconds, and the keys derived for a token expire within twice its lifetime; but the deadline
  after which the server drops a channel that was not renewed adds 4/3 of the lifetime as seconds,
  so it lies at least 998 further lifetimes after the keys have expired.\<close>

theorem renewal_deadline_outlives_keys:
  assumes "derive_keys ft mk ecdh now ch = Some ch'" and "\<not> is_ecc (security_policy ch)"
    and "now = token_created_at ch" and "0 < unat (token_lifetime ch)" and "unat (token_lifetime ch) < 3355443"
  shows "\<exists>v. remote_keys ch' (token_id ch) = Some v
     \<and> now < rk_expires_at v
     \<and> rk_expires_at v + 998 * int (unat (token_lifetime ch)) \<le> now + token_renewal_wait now ch'"
proof -
  let ?l = "unat (token_lifetime ch)"
  have ch': "token_created_at ch' = now" "token_lifetime ch' = token_lifetime ch"
    "remote_keys ch' (token_id ch) =
       Some \<lparr>rk_keys = mk (security_policy ch) (local_nonce ch) (remote_nonce ch),
             rk_expires_at = now + remote_keys_lifetime (token_lifetime ch)\<rparr>"
    using assms(1-3)
    by (auto simp: derive_keys_def insert_remote_keys_def Let_def split: option.splits SecurityPolicyImpl.splits)
  have "remote_keys_lifetime (token_lifetime ch) = int ((5 * ?l + 3) div 4)"
    using assms(5) by (rule remote_keys_lifetime_exact)
  moreover have "0 < (5 * ?l + 3) div 4" "(5 * ?l + 3) div 4 \<le> 2 * ?l" using assms(4) by linarith+
  moreover have "int ?l \<le> int ?l * 4 div 3" by linarith
  moreover have "token_renewal_wait now ch' = 1000 * (int ?l * 4 div 3)"
    by (simp add: ch' token_renewal_wait_def Let_def)
  moreover obtain v where v: "remote_keys ch' (token_id ch) = Some v"
      "rk_expires_at v = now + remote_keys_lifetime (token_lifetime ch)"
    using ch'(3) by simp
  ultimately have "now < rk_expires_at v" "rk_expires_at v + 998 * int ?l \<le> now + token_renewal_wait now ch'"
    by linarith+
  then show ?thesis using v(1) by blast
qed

theorem renewal_deadline_outlives_keys_witness:
  "\<exists>ch' v. derive_keys \<lparr>legacy_crypto = False, ecc = False\<rparr> (\<lambda>p secret seed. (secret, seed))
      (\<lambda>_ _ _ _ _. Inl Error_decoding) 7
      ((example_channel Role_Server [] [])\<lparr>token_created_at := 7, token_lifetime := 300000\<rparr>) = Some ch'
    \<and> remote_keys ch' 1 = Some v \<and> rk_expires_at v + 299400000 \<le> 7 + token_renewal_wait 7 ch'"
proof -
  let ?ch = "(example_channel Role_Server [] [])\<lparr>token_created_at := 7, token_lifetime := 300000\<rparr>"
  let ?d = "derive_keys \<lparr>legacy_crypto = False, ecc = False\<rparr> (\<lambda>p secret seed. (secret, seed))
      (\<lambda>_ _ _ _ _. Inl Error_decoding) 7 ?ch"
  have p: "security_policy ?ch = SP_Basic256Sha256" "token_id ?ch = 1"
    by (simp_all add: example_channel_def set_security_policy_def)
  have "\<exists>ch'. ?d = Some ch'"
    using p by (simp add: derive_keys_def Let_def)
  then obtain ch' where d: "?d = Some ch'" by blast
  show ?thesis
    using renewal_deadline_outlives_keys [OF d] d p by (auto simp: is_ecc_def)
qed

text \<open>Early renewal for long lifetimes. A token is renewed after three quarters of its lifetime as
  long as the lifetime stays below a third of \<open>u32\<close>; above that the product wraps, and with the
  lifetime \<open>0x55555556\<close> (over sixteen days) renewal is due at once.\<close>

theorem should_renew_three_quarters:
  assumes "token_id ch \<noteq> 0" and "3 * unat (token_lifetime ch) < 2 ^ 32"
  shows "should_renew_security_token now ch \<longleftrightarrow>
     int (3 * unat (token_lifetime ch) div 4) < now - token_created_at ch"
proof -
  have "unat (token_lifetime ch * 3) = 3 * unat (token_lifetime ch)"
    using assms(2) by (simp add: unat_word_ariths)
  then have "unat (token_lifetime ch * 3 div 4) = 3 * unat (token_lifetime ch) div 4"
    by (simp add: unat_div)
  then show ?thesis using assms(1) by (simp add: should_renew_security_token_def)
qed

theorem should_renew_three_quarters_witness:
  "\<not> should_renew_security_token 750 ((example_channel Role_Client [] [])\<lparr>token_lifetime := 1000\<rparr>)
   \<and> should_renew_security_token 1 ((example_channel Role_Client [] [])\<lparr>token_lifetime := 0x55555556\<rparr>)"
  using should_renew_three_quarters [of "(example_channel Role_Client [] [])\<lparr>token_lifetime := 1000\<rparr>" 750]
  by (simp add: should_renew_security_token_def example_channel_def set_security_policy_def SecureChannel_new_def)

end
