(* ===== verification/Framing.thy ===== *)
theory Framing
  imports Secure_Channel
begin

text \<open>
  Securing and opening chunks: \<open>secure_channel/framing.rs\<close>, \<open>secure_channel/crypto.rs\<close>, the
  OpenSecureChannel path of \<open>secure_channel/mod.rs\<close>, and the body size of \<open>message_chunk.rs\<close>.

  The symmetric primitives (HMAC and AES, by policy and keys) are fields of the record \<open>Crypto\<close>, which
  extends the asymmetric ones; what the round trip needs of them is \<open>symmetric_crypto_ok\<close>. \<open>None\<close>
  is a panic. Sizes are natural numbers: a chunk is far smaller than \<open>usize\<close>.

  The signature of an ECC OpenSecureChannel request is kept behind a mutex in the channel, so
  securing and opening chunks return the channel as well.
\<close>

definition BadNoValidCertificates :: StatusCode where "BadNoValidCertificates = 0x80590000"
definition BadSecurityModeRejected :: StatusCode where "BadSecurityModeRejected = 0x80540000"
definition BadSecureChannelClosed :: StatusCode where "BadSecureChannelClosed = 0x80860000"

text \<open>The cryptographic primitives: the symmetric ones, by policy and keys, beside the asymmetric.\<close>

record 'k Crypto = AsymCrypto +
  hmac_sign :: "SecurityPolicy \<Rightarrow> 'k \<Rightarrow> bytes \<Rightarrow> StatusCode + bytes"
  hmac_verify :: "SecurityPolicy \<Rightarrow> 'k \<Rightarrow> bytes \<Rightarrow> bytes \<Rightarrow> bool"
  aes_encrypt :: "SecurityPolicy \<Rightarrow> 'k \<Rightarrow> bytes \<Rightarrow> StatusCode + bytes"
  aes_decrypt :: "SecurityPolicy \<Rightarrow> 'k \<Rightarrow> bytes \<Rightarrow> StatusCode + bytes"

section \<open>Symmetric operations of a policy\<close>

text \<open>The dispatch shared by the symmetric operations.\<close>

definition sym_dispatch :: "Features \<Rightarrow> SecurityPolicy \<Rightarrow> StatusCode + 'a \<Rightarrow> (StatusCode + 'a) option" where
  "sym_dispatch ft p r =
     (if is_ecc p then Some (if ecc ft then r else Inl BadNotImplemented)
      else case call_with_policy ft p of
             None \<Rightarrow> None
           | Some NonePolicy \<Rightarrow> Some (Inl BadInternalError)
           | Some (AesPolicy _) \<Rightarrow> Some r)"

definition validate_args :: "SecurityPolicy \<Rightarrow> nat \<Rightarrow> nat \<Rightarrow> StatusCode + unit" where
  "validate_args p src_len dst_len =
     (if p \<in> {SP_PubSubAes128Ctr, SP_PubSubAes256Ctr}
      then (if dst_len < src_len then Inl BadUnexpectedError else Inr ())
      else if dst_len < src_len + 16 then Inl BadUnexpectedError
      else if src_len mod 16 \<noteq> 0 then Inl BadUnexpectedError
      else Inr ())"

definition symmetric_sign :: "Features \<Rightarrow> 'k Crypto \<Rightarrow> SecurityPolicy \<Rightarrow> 'k \<Rightarrow> bytes \<Rightarrow> (StatusCode + bytes) option" where
  "symmetric_sign ft cr p keys data = sym_dispatch ft p (hmac_sign cr p keys data)"

definition symmetric_verify_signature ::
    "Features \<Rightarrow> 'k Crypto \<Rightarrow> SecurityPolicy \<Rightarrow> 'k \<Rightarrow> bytes \<Rightarrow> bytes \<Rightarrow> (StatusCode + unit) option" where
  "symmetric_verify_signature ft cr p keys data signature =
     sym_dispatch ft p (if hmac_verify cr p keys data signature then Inr () else Inl BadSecurityChecksFailed)"

definition symmetric_encrypt ::
    "Features \<Rightarrow> 'k Crypto \<Rightarrow> SecurityPolicy \<Rightarrow> 'k \<Rightarrow> bytes \<Rightarrow> nat \<Rightarrow> (StatusCode + bytes) option" where
  "symmetric_encrypt ft cr p keys src dst_len =
     sym_dispatch ft p (bind_result (validate_args p (length src) dst_len) (\<lambda>_. aes_encrypt cr p keys src))"

definition symmetric_decrypt ::
    "Features \<Rightarrow> 'k Crypto \<Rightarrow> SecurityPolicy \<Rightarrow> 'k \<Rightarrow> bytes \<Rightarrow> nat \<Rightarrow> (StatusCode + bytes) option" where
  "symmetric_decrypt ft cr p keys src dst_len =
     sym_dispatch ft p (bind_result (validate_args p (length src) dst_len) (\<lambda>_. aes_decrypt cr p keys src))"

section \<open>Sizes\<close>

definition signature_size :: "Features \<Rightarrow> 'k Crypto \<Rightarrow> SecurityHeader \<Rightarrow> 'k SecureChannel \<Rightarrow> nat option" where
  "signature_size ft cr sh ch =
     (case sh of
        SH_Asymmetric h \<Rightarrow>
          if is_ecc (security_policy ch) then Some (case private_key_size ch of Some n \<Rightarrow> n | None \<Rightarrow> 0)
          else (case ash_sender_certificate h of
                  Some c \<Rightarrow> (case bind_result (x509_parse cr c) x509_public_key_size of
                               Inr n \<Rightarrow> Some n | Inl _ \<Rightarrow> Some 0)
                | None \<Rightarrow> Some 0)
      | SH_Symmetric _ \<Rightarrow> symmetric_signature_size ft (security_policy ch))"

definition get_padding_block_sizes ::
    "Features \<Rightarrow> SecurityHeader \<Rightarrow> MessageChunkType \<Rightarrow> 'k SecureChannel \<Rightarrow> (nat \<times> nat) encoding_result option" where
  "get_padding_block_sizes ft sh mt ch =
     (if security_policy ch = SP_None
         \<or> security_mode ch \<noteq> Mode_SignAndEncrypt \<and> \<not> is_open_secure_channel_type mt
      then Some (Inr (0, 0))
      else case sh of
             SH_Asymmetric h \<Rightarrow>
               (case ash_sender_certificate h of
                  None \<Rightarrow> map_option (\<lambda>n. Inr (n, 1)) (plain_block_size ft (security_policy ch))
                | Some _ \<Rightarrow>
                    (case remote_cert ch of
                       None \<Rightarrow> Some (Inl (Error_new BadCertificateInvalid))
                     | Some x509 \<Rightarrow>
                         (case x509_public_key_size x509 of
                            Inl e \<Rightarrow> Some (Inl e)
                          | Inr pk \<Rightarrow>
                              map_option (\<lambda>i. Inr (block_size i, minimum_padding i))
                                (asymmetric_padding_info ft (security_policy ch) pk))))
           | SH_Symmetric _ \<Rightarrow>
               map_option (\<lambda>i. Inr (block_size i, minimum_padding i))
                 (symmetric_padding_info ft (security_policy ch)))"

definition padding_size ::
    "Features \<Rightarrow> SecurityHeader \<Rightarrow> nat \<Rightarrow> nat \<Rightarrow> MessageChunkType \<Rightarrow> 'k SecureChannel
     \<Rightarrow> (nat \<times> nat) encoding_result option" where
  "padding_size ft sh body_size sig_size mt ch =
     try_bind (get_padding_block_sizes ft sh mt ch) (\<lambda>(plain_text_block_size, min_padding).
       if plain_text_block_size = 0 then Some (Inr (0, 0))
       else
         let encrypt_size = 8 + body_size + sig_size + min_padding;
             pad = (if \<not> plain_text_block_size dvd encrypt_size
                    then plain_text_block_size - encrypt_size mod plain_text_block_size
                    else 0)
         in Some (Inr (min_padding + pad, min_padding)))"

definition body_size_from_message_size ::
    "Features \<Rightarrow> 'k Crypto \<Rightarrow> MessageChunkType \<Rightarrow> 'k SecureChannel \<Rightarrow> nat \<Rightarrow> nat encoding_result option" where
  "body_size_from_message_size ft cr mt ch max_chunk_size =
     (if max_chunk_size < MIN_CHUNK_SIZE then Some (Inl (Error_new BadTcpInternalError))
      else
        Option.bind (make_security_header ft mt ch) (\<lambda>sh.
          let header_size = MESSAGE_CHUNK_HEADER_SIZE + byte_len_SecurityHeader sh
                + byte_len_SequenceHeader \<lparr>seq_sequence_number = 0, seq_request_id = 0\<rparr>
          in Option.bind (signature_size ft cr sh ch) (\<lambda>sig_size.
            try_bind (get_padding_block_sizes ft sh mt ch) (\<lambda>(plain_text_block_size, min_padding).
              let aligned_max_chunk_size =
                    (if 0 < plain_text_block_size then max_chunk_size - max_chunk_size mod plain_text_block_size
                     else max_chunk_size);
                  overhead = header_size + sig_size + min_padding
              in if overhead < aligned_max_chunk_size
                 then Some (Inr (aligned_max_chunk_size - overhead))
                 else Some (Inl (Error_new BadTcpInternalError))))))"

section \<open>Padding\<close>

text \<open>\<open>Cursor::advance\<close> past the end panics, writing past the end of the slice is an error.\<close>

definition update_message_size :: "bytes \<Rightarrow> nat \<Rightarrow> bytes encoding_result option" where
  "update_message_size data n =
     (if length data < MESSAGE_SIZE_OFFSET then None
      else if length data < MESSAGE_SIZE_OFFSET + 4 then Some (Inl Error_encoding)
      else Some (Inr (take MESSAGE_SIZE_OFFSET data @ le_bytes 4 (unat (word_of_nat n :: u32))
                      @ drop (MESSAGE_SIZE_OFFSET + 4) data)))"

definition update_message_size_and_truncate :: "bytes \<Rightarrow> nat \<Rightarrow> bytes encoding_result option" where
  "update_message_size_and_truncate data n =
     try_bind (update_message_size data n) (\<lambda>d. Some (Inr (take n d)))"

definition padding_bytes :: "nat \<Rightarrow> nat \<Rightarrow> bytes" where
  "padding_bytes pad min_padding =
     (if 0 < pad then
        (if min_padding = 1 then replicate pad (word_of_nat (pad - 1))
         else if min_padding = 2 then
           replicate (pad - 1) (word_of_nat (pad - 2)) @ [word_of_nat ((pad - 2) div 256)]
         else [])
      else [])"

definition add_space_for_padding_and_signature_into ::
    "Features \<Rightarrow> 'k Crypto \<Rightarrow> MessageChunk \<Rightarrow> 'k SecureChannel \<Rightarrow> (bytes \<times> nat) encoding_result option" where
  "add_space_for_padding_and_signature_into ft cr chunk ch =
     try_bind (Some (ChunkInfo_new ft (decoding_options ch) (known_policy ch) chunk)) (\<lambda>info.
       let sh = ci_security_header info
       in Option.bind (signature_size ft cr sh ch) (\<lambda>sig_size.
         try_bind (padding_size ft sh (ci_body_length info) sig_size
                     (mch_message_type (ci_message_header info)) ch) (\<lambda>(pad, min_padding).
           let msg_size = length chunk + pad + sig_size;
               data = chunk @ padding_bytes pad min_padding @ replicate sig_size 0
           in try_bind (update_message_size data msg_size) (\<lambda>d. Some (Inr (d, msg_size))))))"

definition security_byte :: "bytes \<Rightarrow> nat \<Rightarrow> u8 encoding_result" where
  "security_byte buf index = (if index < length buf then Inr (buf ! index) else Inl (Error_new BadSecurityChecksFailed))"

definition check_padding_bytes :: "bytes \<Rightarrow> u8 \<Rightarrow> unit encoding_result" where
  "check_padding_bytes bs expected =
     (if list_all (\<lambda>b. b = expected) bs then Inr () else Inl (Error_new BadSecurityChecksFailed))"

text \<open>The start of the padding that ends at \<open>padding_end\<close>.\<close>

definition verify_padding :: "bytes \<Rightarrow> nat \<Rightarrow> nat \<Rightarrow> nat encoding_result" where
  "verify_padding src key_size padding_end =
     (let bad = Inl (Error_new BadSecurityChecksFailed)
      in if 256 < key_size then
           if padding_end < 2 then bad
           else
             bind_result (security_byte src (padding_end - 2)) (\<lambda>padding_byte.
             bind_result (security_byte src (padding_end - 1)) (\<lambda>extra_padding_byte.
               let pad = unat extra_padding_byte * 256 + unat padding_byte
               in if padding_end < pad + 2 then bad
                  else
                    let start = padding_end - (pad + 2)
                    in if length src < padding_end - 1 then bad
                       else bind_result (check_padding_bytes (take (padding_end - 1 - start) (drop start src)) padding_byte) (\<lambda>_.
                            bind_result (security_byte src (padding_end - 1)) (\<lambda>b.
                              if b \<noteq> extra_padding_byte then bad else Inr start))))
         else
           if padding_end = 0 then bad
           else
             bind_result (security_byte src (padding_end - 1)) (\<lambda>padding_byte.
               let pad = unat padding_byte
               in if padding_end < pad + 1 then bad
                  else
                    let start = padding_end - (pad + 1)
                    in if length src < padding_end then bad
                       else bind_result (check_padding_bytes (take (padding_end - start) (drop start src)) padding_byte)
                              (\<lambda>_. Inr start)))"

definition secure_message_ranges :: "nat \<Rightarrow> nat \<Rightarrow> nat \<Rightarrow> ((nat \<times> nat) \<times> (nat \<times> nat)) encoding_result" where
  "secure_message_ranges msg_size offset sig_size =
     (if msg_size < offset then Inl (Error_new BadSecurityChecksFailed)
      else if msg_size < sig_size then Inl (Error_new BadSecurityChecksFailed)
      else Inr ((0, msg_size - sig_size), (offset, msg_size)))"

section \<open>Signing and encrypting\<close>

text \<open>\<open>?\<close> from a result whose error is a status code, in a function that returns an \<open>Error\<close>.\<close>

definition err_of :: "(StatusCode + 'a) option \<Rightarrow> 'a encoding_result option" where
  "err_of r = map_option (map_sum Error_new id) r"

definition status_of :: "'a encoding_result \<Rightarrow> StatusCode + 'a" where
  "status_of r = map_sum err_status id r"

definition local_keys_result :: "'k SecureChannel \<Rightarrow> StatusCode + 'k" where
  "local_keys_result ch = (case local_keys ch of Some k \<Rightarrow> Inr k | None \<Rightarrow> Inl BadSecurityChecksFailed)"

text \<open>The buffer with the signature of its first \<open>signed_end\<close> bytes written behind them.\<close>

definition symmetric_sign_in_place ::
    "Features \<Rightarrow> 'k Crypto \<Rightarrow> bytes \<Rightarrow> nat \<Rightarrow> 'k SecureChannel \<Rightarrow> (StatusCode + (bytes \<times> nat)) option" where
  "symmetric_sign_in_place ft cr buf signed_end ch =
     Option.bind (symmetric_signature_size ft (security_policy ch)) (\<lambda>sig_size.
       if length buf < signed_end then Some (Inl BadSecurityChecksFailed)
       else if length buf < signed_end + sig_size then Some (Inl BadSecurityChecksFailed)
       else try_bind (Some (local_keys_result ch)) (\<lambda>keys.
            try_bind (symmetric_sign ft cr (security_policy ch) keys (take signed_end buf)) (\<lambda>signature.
              Some (Inr (take signed_end buf @ signature @ drop (signed_end + sig_size) buf,
                         signed_end + sig_size)))))"

text \<open>The bytes written to the front of the destination, which has \<open>dst_len\<close> bytes of room.\<close>

definition symmetric_sign_and_encrypt ::
    "Features \<Rightarrow> 'k Crypto \<Rightarrow> bytes \<Rightarrow> nat \<Rightarrow> nat \<times> nat \<Rightarrow> nat \<Rightarrow> 'k SecureChannel \<Rightarrow> (StatusCode + bytes) option" where
  "symmetric_sign_and_encrypt ft cr src signed_end encrypted_range dst_len ch =
     (case security_mode ch of
        Mode_None \<Rightarrow> if dst_len = length src then Some (Inr src) else None
      | Mode_Sign \<Rightarrow>
          try_bind (Some (expect_supported_security_policy ch)) (\<lambda>_.
          try_bind (symmetric_sign_in_place ft cr src signed_end ch) (\<lambda>(buf, sz).
            if dst_len < sz \<or> length buf < sz then Some (Inl BadSecurityChecksFailed)
            else Some (Inr (take sz buf))))
      | Mode_SignAndEncrypt \<Rightarrow>
          try_bind (Some (expect_supported_security_policy ch)) (\<lambda>_.
          try_bind (symmetric_sign_in_place ft cr src signed_end ch) (\<lambda>(buf, _).
          try_bind (Some (local_keys_result ch)) (\<lambda>keys.
            if length buf < snd encrypted_range \<or> snd encrypted_range < fst encrypted_range
               \<or> dst_len < fst encrypted_range
            then Some (Inl BadSecurityChecksFailed)
            else
              try_bind (symmetric_encrypt ft cr (security_policy ch) keys
                          (take (snd encrypted_range - fst encrypted_range) (drop (fst encrypted_range) buf))
                          (dst_len - fst encrypted_range)) (\<lambda>c.
                Some (Inr (take (fst encrypted_range) buf @ c))))))
      | Mode_Invalid \<Rightarrow> Some (Inl BadSecurityModeRejected))"

text \<open>
  \<open>asymmetric_sign_and_encrypt_owned\<close>: the secured chunk, and for an ECC client the signature that the
  server's response will be bound to. The size in the header is that of the cipher text, and it is
  signed; the header is copied before the signature is written.
\<close>

definition asymmetric_sign_and_encrypt_owned ::
    "Features \<Rightarrow> 'k Crypto \<Rightarrow> SecurityPolicy \<Rightarrow> PrivateKey \<Rightarrow> PublicKey option \<Rightarrow> bool \<Rightarrow> bool \<Rightarrow> bytes
     \<Rightarrow> bytes \<Rightarrow> nat \<times> nat \<Rightarrow> (StatusCode + (bytes \<times> bytes option)) option" where
  "asymmetric_sign_and_encrypt_owned ft cr p signing_key encryption_key client thumbprint first_signature src encrypted_range =
     (let bad = Some (Inl BadSecurityChecksFailed); start = fst encrypted_range; fin = snd encrypted_range;
          sig_size = sk_size signing_key; signed_end = fin - sig_size
      in if fin < sig_size \<or> fin < start then bad
         else Option.bind (case encryption_key of
                             Some key \<Rightarrow> calculate_cipher_text_size ft p (fin - start) (pk_size key)
                           | None \<Rightarrow> Some (fin - start)) (\<lambda>cipher_text_size.
           let output_size = start + cipher_text_size
           in try_bind (map_option status_of (update_message_size src output_size)) (\<lambda>src.
              if length src < start \<or> length src < fin then bad
              else
                let l = take signed_end src; header = take start src
                in try_bind
                     (if is_ecc p then
                        if \<not> ecc ft then Some (Inr (take sig_size (drop signed_end src), None))
                        else map_option (map_sum err_status (\<lambda>s. (s, if client then Some s else None)))
                               (asymmetric_sign ft cr p signing_key
                                  (if \<not> client \<and> thumbprint then l @ first_signature else l) sig_size)
                      else map_option (map_sum err_status (\<lambda>s. (s, None)))
                             (asymmetric_sign ft cr p signing_key l sig_size)) (\<lambda>(signature, to_store).
                   let buf = l @ signature @ drop fin src;
                       payload = take (fin - start) (drop start buf)
                   in if output_size < fin then bad
                      else if is_ecc p then
                        Some (Inr (header @ payload @ replicate (output_size - fin) 0, to_store))
                      else (case encryption_key of
                              None \<Rightarrow> bad
                            | Some key \<Rightarrow>
                                try_bind (map_option status_of
                                            (asymmetric_encrypt ft cr p key payload (output_size - start))) (\<lambda>c.
                                  if length c \<noteq> cipher_text_size then bad
                                  else Some (Inr (header @ c, to_store))))))))"

definition asymmetric_sign_and_encrypt ::
    "Features \<Rightarrow> 'k Crypto \<Rightarrow> SecurityPolicy \<Rightarrow> bytes \<Rightarrow> nat \<times> nat \<Rightarrow> nat \<Rightarrow> 'k SecureChannel
     \<Rightarrow> ('k SecureChannel \<times> (StatusCode + bytes)) option" where
  "asymmetric_sign_and_encrypt ft cr p src encrypted_range dst_len ch =
     (let bad = Some (ch, Inl BadSecurityChecksFailed)
      in case private_key ch of
           None \<Rightarrow> bad
         | Some signing_key \<Rightarrow>
             (case (if is_ecc p then Inr None
                    else case remote_cert ch of
                           None \<Rightarrow> Inl BadSecurityChecksFailed
                         | Some x \<Rightarrow> map_sum err_status Some (x509_public_key x)) of
                Inl e \<Rightarrow> Some (ch, Inl e)
              | Inr encryption_key \<Rightarrow>
                  map_option (\<lambda>r. case r of
                      Inl e \<Rightarrow> (ch, Inl e)
                    | Inr (secured, to_store) \<Rightarrow>
                        if dst_len < length secured then (ch, Inl BadSecurityChecksFailed)
                        else (if ecc ft \<and> is_client_role ch
                              then case to_store of Some s \<Rightarrow> ch\<lparr>first_request_signature := s\<rparr> | None \<Rightarrow> ch
                              else ch,
                              Inr secured))
                    (asymmetric_sign_and_encrypt_owned ft cr p signing_key encryption_key (is_client_role ch)
                       (apply_channel_thumbprint ch) (first_request_signature ch) src encrypted_range)))"

definition apply_security ::
    "Features \<Rightarrow> 'k Crypto \<Rightarrow> MessageChunk \<Rightarrow> nat \<Rightarrow> 'k SecureChannel
     \<Rightarrow> ('k SecureChannel \<times> (StatusCode + bytes)) option" where
  "apply_security ft cr chunk dst_len ch =
     (if security_policy ch \<noteq> SP_None \<and> (security_mode ch = Mode_Sign \<or> security_mode ch = Mode_SignAndEncrypt)
      then
        case status_of (encrypted_data_offset ft (decoding_options ch) chunk) of
          Inl e \<Rightarrow> Some (ch, Inl e)
        | Inr offset \<Rightarrow>
            Option.bind (map_option status_of (add_space_for_padding_and_signature_into ft cr chunk ch)) (\<lambda>r.
              case r of
                Inl e \<Rightarrow> Some (ch, Inl e)
              | Inr (d, msg_size) \<Rightarrow>
                  let data = take msg_size d
                  in if chunk_is_open_secure_channel chunk
                     then asymmetric_sign_and_encrypt ft cr (security_policy ch) data (offset, length data) dst_len ch
                     else map_option (Pair ch)
                            (Option.bind (symmetric_signature_size ft (security_policy ch)) (\<lambda>sig_size.
                               symmetric_sign_and_encrypt ft cr data (length data - sig_size) (offset, length data) dst_len ch)))
      else if dst_len < length chunk then Some (ch, Inl BadEncodingLimitsExceeded)
      else Some (ch, Inr chunk))"

section \<open>Verifying and decrypting\<close>

text \<open>
  The decrypted destination buffer and the end of the data in it. The destination is as long as
  the source.
\<close>

definition symmetric_decrypt_and_verify ::
    "Features \<Rightarrow> 'k Crypto \<Rightarrow> bytes \<Rightarrow> nat \<Rightarrow> nat \<times> nat \<Rightarrow> u32 \<Rightarrow> 'k SecureChannel
     \<Rightarrow> (bytes \<times> nat) encoding_result option" where
  "symmetric_decrypt_and_verify ft cr src signed_end encrypted_range tid ch =
     (let bad = Some (Inl (Error_new BadSecurityChecksFailed)); p = security_policy ch;
          start = fst encrypted_range
      in case security_mode ch of
           Mode_None \<Rightarrow> Some (Inr (src, length src))
         | Mode_Sign \<Rightarrow>
             try_bind (err_of (Some (expect_supported_security_policy ch))) (\<lambda>_.
               (case get_remote_keys tid ch of
                  None \<Rightarrow> Some (Inl (Error_new BadSecureChannelClosed))
                | Some keys \<Rightarrow>
                    if length src < signed_end then bad
                    else try_bind (err_of (symmetric_verify_signature ft cr p keys (take signed_end src) (drop signed_end src))) (\<lambda>_.
                           Some (Inr (src, signed_end)))))
         | Mode_SignAndEncrypt \<Rightarrow>
             try_bind (err_of (Some (expect_supported_security_policy ch))) (\<lambda>_.
               if length src < start then bad
               else
                 (case get_remote_keys tid ch of
                    None \<Rightarrow> Some (Inl (Error_new BadSecureChannelClosed))
                  | Some keys \<Rightarrow>
                      let cipher_len = snd encrypted_range - start
                      in try_bind (err_of (symmetric_decrypt ft cr p keys (take cipher_len (drop start src)) (cipher_len + 16))) (\<lambda>plain.
                         let decrypted_end = start + length plain
                         in if length src < decrypted_end then bad
                            else
                              let dst = take start src @ plain @ replicate (length src - decrypted_end) 0
                              in Option.bind (symmetric_signature_size ft p) (\<lambda>sig_size.
                                   if decrypted_end < sig_size then bad
                                   else
                                     let signature_start = decrypted_end - sig_size
                                     in if length dst < signed_end then bad
                                        else
                                          try_bind (err_of (symmetric_verify_signature ft cr p keys (take signed_end dst)
                                                      (take sig_size (drop signature_start dst)))) (\<lambda>_.
                                          Option.bind (encrypting_key_length ft p) (\<lambda>key_size.
                                          try_bind (Some (verify_padding dst key_size signature_start)) (\<lambda>pstart.
                                            Some (Inr (dst, pstart)))))))))
         | Mode_Invalid \<Rightarrow> Some (Inl (Error_new BadSecurityModeRejected)))"

definition decode_message_header ::
    "Features \<Rightarrow> bytes \<Rightarrow> 'k SecureChannel \<Rightarrow> (MessageChunkHeader \<times> SecurityHeader \<times> nat) encoding_result" where
  "decode_message_header ft src ch =
     bind_result (decode_MessageChunkHeader src) (\<lambda>(h, s1).
     bind_result (decode_with_known_policy ft (is_open_secure_channel_type (mch_message_type h))
                    (decoding_options ch) (known_policy ch) s1) (\<lambda>(sh, s2).
       if unat (mch_message_size h) \<noteq> length src then Inl (Error_new BadUnexpectedError)
       else Inr (h, sh, length src - length s2)))"

definition decrypt_chunk ::
    "Features \<Rightarrow> 'k Crypto \<Rightarrow> bytes \<Rightarrow> SecurityHeader \<Rightarrow> nat \<Rightarrow> nat \<times> nat \<Rightarrow> 'k SecureChannel
     \<Rightarrow> MessageChunk encoding_result option" where
  "decrypt_chunk ft cr src sh signed_end encrypted_range ch =
     (case sh of
        SH_Asymmetric _ \<Rightarrow> Some (Inl (Error_new BadUnexpectedError))
      | SH_Symmetric h \<Rightarrow>
          try_bind (symmetric_decrypt_and_verify ft cr src signed_end encrypted_range (ssh_token_id h) ch) (\<lambda>(dst, n).
          try_bind (update_message_size dst n) (\<lambda>d. Some (Inr (take n d)))))"

text \<open>\<open>asymmetric_decrypt_and_verify_owned\<close>: the chunk without padding and signature.\<close>

definition asymmetric_decrypt_and_verify_owned ::
    "Features \<Rightarrow> 'k Crypto \<Rightarrow> SecurityPolicy \<Rightarrow> PrivateKey \<Rightarrow> X509 \<Rightarrow> PublicKey \<Rightarrow> ByteString \<Rightarrow> bool \<Rightarrow> bool
     \<Rightarrow> bytes \<Rightarrow> bytes \<Rightarrow> nat \<times> nat \<Rightarrow> bytes encoding_result option" where
  "asymmetric_decrypt_and_verify_owned ft cr p our_key our_cert verification_key receiver_thumbprint client thumbprint
     first_signature src encrypted_range =
     (let bad = Some (Inl (Error_new BadSecurityChecksFailed)); start = fst encrypted_range; fin = snd encrypted_range
      in if \<not> is_supported ft p then Some (Inl (Error_new BadSecurityPolicyRejected))
         else if x509_thumbprint our_cert \<noteq> UAString_as_ref receiver_thumbprint
         then Some (Inl (Error_new BadNoValidCertificates))
         else if fin < start \<or> length src < start \<or> length src < fin then bad
         else
           let payload = take (fin - start) (drop start src)
           in try_bind (if is_ecc p then Some (Inr payload)
                        else asymmetric_decrypt ft cr p our_key payload (fin - start)) (\<lambda>decrypted.
              let decrypted_end = start + length decrypted;
                  dst = take start src @ decrypted @ replicate (fin - decrypted_end) 0;
                  sig_size = asymmetric_signature_size p (pk_size verification_key)
              in if fin < decrypted_end \<or> decrypted_end < sig_size then bad
                 else
                   let signature_start = decrypted_end - sig_size;
                       key_size = (case x509_public_key our_cert of Inr k \<Rightarrow> pk_size k | Inl _ \<Rightarrow> pk_size verification_key);
                       signed_data = take signature_start dst;
                       signature = take sig_size (drop signature_start dst)
                   in try_bind
                        (if is_ecc p then
                           if ecc ft
                           then asymmetric_verify_signature ft cr p verification_key
                                  (if client \<and> thumbprint then signed_data @ first_signature else signed_data) signature
                           else Some (Inr ())
                         else asymmetric_verify_signature ft cr p verification_key signed_data signature) (\<lambda>_.
                      if is_ecc p then Some (Inr (take signature_start dst))
                      else try_bind (Some (verify_padding dst key_size signature_start)) (\<lambda>pstart.
                             Some (Inr (take pstart dst))))))"

text \<open>The signature of the first OpenSecureChannel request that an ECC server keeps: the last bytes of
  the received chunk.\<close>

definition request_signature_to_store ::
    "Features \<Rightarrow> SecurityPolicy \<Rightarrow> bool \<Rightarrow> PublicKey \<Rightarrow> bytes \<Rightarrow> nat \<Rightarrow> bytes encoding_result option" where
  "request_signature_to_store ft p client verification_key src fin =
     (if ecc ft \<and> is_ecc p \<and> \<not> client then
        let sig_size = asymmetric_signature_size p (pk_size verification_key)
        in Some (if fin < sig_size \<or> length src < fin then Inl (Error_new BadSecurityChecksFailed)
                 else Inr (take sig_size (drop (fin - sig_size) src)))
      else None)"

text \<open>
  \<open>decrypt_open_secure_channel\<close>: prepare (the policy named by the chunk is checked before any
  cryptography), decrypt, and finish (store the signature, correct the message size).
\<close>

definition finish_open_secure_channel_decrypt ::
    "SecurityPolicy \<Rightarrow> bytes \<Rightarrow> bytes encoding_result option \<Rightarrow> 'k SecureChannel
     \<Rightarrow> ('k SecureChannel \<times> (MessageChunk \<times> SecurityPolicy) encoding_result) option" where
  "finish_open_secure_channel_decrypt p decrypted to_store ch =
     (case to_store of
        Some (Inl e) \<Rightarrow> Some (ch, Inl e)
      | _ \<Rightarrow>
          let ch' = (case to_store of Some (Inr s) \<Rightarrow> ch\<lparr>first_request_signature := s\<rparr> | _ \<Rightarrow> ch)
          in map_option (\<lambda>r. (ch', map_sum id (\<lambda>d. (d, p)) r))
               (update_message_size_and_truncate decrypted (length decrypted)))"

definition decrypt_open_secure_channel ::
    "Features \<Rightarrow> 'k Crypto \<Rightarrow> bytes \<Rightarrow> SecurityHeader \<Rightarrow> nat \<times> nat \<Rightarrow> 'k SecureChannel
     \<Rightarrow> ('k SecureChannel \<times> (MessageChunk \<times> SecurityPolicy) encoding_result) option" where
  "decrypt_open_secure_channel ft cr src sh encrypted_range ch =
     (let reject = \<lambda>st. Some (ch, Inl (Error_new st))
      in case sh of
           SH_Symmetric _ \<Rightarrow> reject BadUnexpectedError
         | SH_Asymmetric h \<Rightarrow>
             let p = from_uri (string_of_bytes (UAString_as_ref (ash_security_policy_uri h)))
             in if p = SP_Unknown then reject BadSecurityPolicyRejected
                else if p = SP_None then Some (ch, Inr (src, p))
                else if \<not> is_supported ft p then reject BadSecurityPolicyRejected
                else if is_deprecated p \<and> \<not> allow_deprecated ch then reject BadSecurityPolicyRejected
                else (case ash_sender_certificate h of
                        None \<Rightarrow> reject BadCertificateInvalid
                      | Some c \<Rightarrow>
                          (case bind_result (x509_parse cr c) x509_public_key of
                             Inl e \<Rightarrow> Some (ch, Inl e)
                           | Inr verification_key \<Rightarrow>
                               (case (cert ch, private_key ch) of
                                  (None, _) \<Rightarrow> reject BadCertificateInvalid
                                | (_, None) \<Rightarrow> reject BadSecurityChecksFailed
                                | (Some our_cert, Some our_key) \<Rightarrow>
                                    Option.bind
                                      (asymmetric_decrypt_and_verify_owned ft cr p our_key our_cert verification_key
                                         (ash_receiver_certificate_thumbprint h) (is_client_role ch)
                                         (apply_channel_thumbprint ch) (first_request_signature ch) src encrypted_range) (\<lambda>r.
                                      case r of
                                        Inl e \<Rightarrow> Some (ch, Inl e)
                                      | Inr decrypted \<Rightarrow>
                                          finish_open_secure_channel_decrypt p decrypted
                                            (request_signature_to_store ft p (is_client_role ch) verification_key src
                                               (snd encrypted_range)) ch)))))"

definition verify_and_remove_security ::
    "Features \<Rightarrow> 'k Crypto \<Rightarrow> bytes \<Rightarrow> 'k SecureChannel
     \<Rightarrow> ('k SecureChannel \<times> MessageChunk encoding_result) option" where
  "verify_and_remove_security ft cr src ch =
     (case decode_message_header ft src ch of
        Inl e \<Rightarrow> Some (ch, Inl e)
      | Inr (h, sh, offset) \<Rightarrow>
          let msg_size = unat (mch_message_size h)
          in if is_open_secure_channel_type (mch_message_type h) then
               (case secure_message_ranges msg_size offset 0 of
                  Inl e \<Rightarrow> Some (ch, Inl e)
                | Inr (_, encrypted_range) \<Rightarrow>
                    map_option (\<lambda>(ch', r). (ch', map_sum id fst r))
                      (decrypt_open_secure_channel ft cr src sh encrypted_range ch))
             else if is_secure_connection ch then
               Option.bind (symmetric_signature_size ft (security_policy ch)) (\<lambda>sig_size.
                 case secure_message_ranges msg_size offset sig_size of
                   Inl e \<Rightarrow> Some (ch, Inl e)
                 | Inr ((_, signed_end), encrypted_range) \<Rightarrow>
                     map_option (Pair ch) (decrypt_chunk ft cr src sh signed_end encrypted_range ch))
             else Some (ch, Inr src))"

text \<open>The server's variant also takes over the policy of an OpenSecureChannel chunk.\<close>

definition verify_and_remove_security_server ::
    "Features \<Rightarrow> 'k Crypto \<Rightarrow> bytes \<Rightarrow> 'k SecureChannel
     \<Rightarrow> ('k SecureChannel \<times> MessageChunk encoding_result) option" where
  "verify_and_remove_security_server ft cr src ch =
     (case decode_message_header ft src ch of
        Inl e \<Rightarrow> Some (ch, Inl e)
      | Inr (h, sh, offset) \<Rightarrow>
          let msg_size = unat (mch_message_size h)
          in if is_open_secure_channel_type (mch_message_type h) then
               (case secure_message_ranges msg_size offset 0 of
                  Inl e \<Rightarrow> Some (ch, Inl e)
                | Inr (_, encrypted_range) \<Rightarrow>
                    map_option (\<lambda>(ch', r). case r of Inl e \<Rightarrow> (ch', Inl e)
                                           | Inr (c, p) \<Rightarrow> (set_security_policy p ch', Inr c))
                      (decrypt_open_secure_channel ft cr src sh encrypted_range ch))
             else if is_secure_connection ch then
               Option.bind (symmetric_signature_size ft (security_policy ch)) (\<lambda>sig_size.
                 case secure_message_ranges msg_size offset sig_size of
                   Inl e \<Rightarrow> Some (ch, Inl e)
                 | Inr ((_, signed_end), encrypted_range) \<Rightarrow>
                     map_option (Pair ch) (decrypt_chunk ft cr src sh signed_end encrypted_range ch))
             else Some (ch, Inr src))"

section \<open>Padding lemmas\<close>

lemma length_padding_bytes: "m \<in> {1, 2} \<Longrightarrow> length (padding_bytes pad m) = pad"
  by (auto simp: padding_bytes_def)

lemma unat_byte_of_nat: "n < 256 \<Longrightarrow> unat (word_of_nat n :: u8) = n"
  by (simp add: unat_of_nat)

lemma list_all_replicate: "list_all (\<lambda>b. b = x) (replicate n x)"
  by (simp add: list_all_iff)

lemma security_byte_mid: "security_byte (a @ x # b) (length a) = Inr x"
  by (simp add: security_byte_def)

lemma check_padding_replicate: "check_padding_bytes (replicate n x) x = Inr ()"
  by (simp add: check_padding_bytes_def list_all_replicate)

lemma verify_padding_one:
  assumes k: "key_size \<le> 256" and n: "n < 256"
  shows "verify_padding (a @ replicate (Suc n) (word_of_nat n) @ b) key_size (length a + Suc n) = Inr (length a)"
proof -
  let ?x = "word_of_nat n :: u8"
  let ?src = "a @ replicate (Suc n) ?x @ b"
  have "?src = (a @ replicate n ?x) @ ?x # b"
    by (simp add: replicate_app_Cons_same)
  then have last: "security_byte ?src (length a + n) = Inr ?x"
    using security_byte_mid [of "a @ replicate n ?x" ?x b] by simp
  have u: "unat ?x = n" using n by (rule unat_byte_of_nat)
  have body: "take (Suc n) (drop (length a) ?src) = replicate (Suc n) ?x" by simp
  show ?thesis
    using k last u body check_padding_replicate [of "Suc n" ?x]
    by (simp add: verify_padding_def Let_def)
qed

lemma verify_padding_two:
  assumes k: "256 < key_size" and n: "n < 65536"
  shows "verify_padding (a @ (replicate (Suc n) (word_of_nat n) @ [word_of_nat (n div 256)]) @ b) key_size
           (length a + Suc (Suc n)) = Inr (length a)"
proof -
  let ?lo = "word_of_nat n :: u8" and ?hi = "word_of_nat (n div 256) :: u8"
  let ?src = "a @ (replicate (Suc n) ?lo @ [?hi]) @ b"
  have s: "?src = (a @ replicate n ?lo) @ ?lo # ?hi # b" "?src = (a @ replicate (Suc n) ?lo) @ ?hi # b"
    by (simp_all add: replicate_app_Cons_same)
  have b1: "security_byte ?src (length a + n) = Inr ?lo"
    using security_byte_mid [of "a @ replicate n ?lo" ?lo "?hi # b"] s(1) by simp
  have b2: "security_byte ?src (Suc (length a + n)) = Inr ?hi"
    using security_byte_mid [of "a @ replicate (Suc n) ?lo" ?hi b] s(2) by simp
  have "unat ?hi = n div 256"
    using n by (intro unat_byte_of_nat) auto
  moreover have "unat ?lo = n mod 256"
    by (simp add: unat_of_nat)
  ultimately have u: "unat ?hi * 256 + unat ?lo = n"
    by simp
  have body: "take (Suc n) (drop (length a) ?src) = replicate (Suc n) ?lo" by simp
  show ?thesis
    using k b1 b2 u body check_padding_replicate [of "Suc n" ?lo]
    by (simp add: verify_padding_def Let_def)
qed

lemma verify_padding_written:
  assumes m: "m = minimum_padding_of key_size" and "m \<le> pad" and "pad < m + (if m = 1 then 256 else 65536)"
  shows "verify_padding (a @ padding_bytes pad m @ b) key_size (length a + pad) = Inr (length a)"
proof (cases "key_size \<le> 256")
  case True
  then have "m = 1" using m by (simp add: minimum_padding_of_def)
  then obtain n where "pad = Suc n" "n < 256" using assms(2,3) by (cases pad) auto
  then show ?thesis
    using verify_padding_one [OF True, of n a b] \<open>m = 1\<close> by (simp add: padding_bytes_def)
next
  case False
  then have "m = 2" using m by (simp add: minimum_padding_of_def)
  then have "pad = Suc (Suc (pad - 2))" "pad - 2 < 65536" using assms(2,3) by auto
  then obtain n where "pad = Suc (Suc n)" "n < 65536" by blast
  then show ?thesis
    using verify_padding_two [of key_size n a b] False \<open>m = 2\<close> by (simp add: padding_bytes_def)
qed

text \<open>The padding fills the encrypted part up to a whole number of blocks, with less than one block
  beyond the minimum.\<close>

lemma padding_size_aligned:
  assumes "padding_size ft sh body sig mt ch = Some (Inr (pad, m))"
    and "get_padding_block_sizes ft sh mt ch = Some (Inr (blk, m'))" and "0 < blk"
  shows "m = m'" "blk dvd 8 + body + sig + pad" "m \<le> pad" "pad < m + blk"
    "8 + body + sig + pad = (8 + body + sig + m + blk - 1) div blk * blk"
proof -
  let ?e = "8 + body + sig + m'"
  have pm: "m = m'" "pad = m' + (if \<not> blk dvd ?e then blk - ?e mod blk else 0)"
    using assms by (auto simp: padding_size_def Let_def)
  show "m = m'" by (rule pm)
  show "m \<le> pad" using pm by simp
  show "pad < m + blk"
    using pm assms(3) by (auto simp: mod_greater_zero_iff_not_dvd)
  show dv: "blk dvd 8 + body + sig + pad"
  proof (cases "blk dvd ?e")
    case True
    then show ?thesis using pm by simp
  next
    case False
    have "?e mod blk < blk" using assms(3) by simp
    moreover have "pad = m' + (blk - ?e mod blk)" using pm False by simp
    ultimately have "8 + body + sig + pad = blk * (?e div blk) + blk"
      using mult_div_mod_eq [of blk ?e] by linarith
    then show ?thesis by simp
  qed
  have lt: "8 + body + sig + pad < ?e + blk"
    using \<open>pad < m + blk\<close> pm(1) by linarith
  obtain q where q: "8 + body + sig + pad = blk * q" using dv by (auto elim: dvdE)
  have "?e + blk - 1 = (8 + body + sig + pad) + (?e + blk - 1 - (8 + body + sig + pad))"
    using lt assms(3) by linarith
  moreover have "?e + blk - 1 - (8 + body + sig + pad) < blk"
    using pm(2) assms(3) by (simp split: if_splits)
  ultimately have "(?e + blk - 1) div blk = q"
    using q assms(3) by (metis div_mult_self4 div_less add_0_right less_not_refl add.commute div_mult_self2)
  then show "8 + body + sig + pad = (8 + body + sig + m + blk - 1) div blk * blk"
    using q pm(1) by simp
qed

section \<open>Securing and opening a chunk\<close>

text \<open>
  What the symmetric primitives promise for a policy: a signature has the policy's size and
  verifies, and on whole blocks encryption keeps the length and decryption inverts it.
\<close>

definition symmetric_crypto_ok :: "Features \<Rightarrow> 'k Crypto \<Rightarrow> SecurityPolicy \<Rightarrow> bool" where
  "symmetric_crypto_ok ft cr p \<longleftrightarrow>
     (\<forall>k d. \<exists>s. hmac_sign cr p k d = Inr s \<and> symmetric_signature_size ft p = Some (length s)
        \<and> hmac_verify cr p k d s)
     \<and> (\<forall>k d. length d mod 16 = 0 \<longrightarrow>
        (\<exists>c. aes_encrypt cr p k d = Inr c \<and> length c = length d \<and> aes_decrypt cr p k c = Inr d))"

text \<open>The bytes of a chunk header, and a chunk with a symmetric header and the given rest.\<close>

definition header_bytes :: "MessageChunkHeader \<Rightarrow> bytes" where
  "header_bytes h =
     chunk_type_code (mch_message_type h) @ [is_final_code (mch_is_final h)]
     @ le_bytes 4 (unat (mch_message_size h)) @ le_bytes 4 (unat (mch_secure_channel_id h))"

definition with_size :: "nat \<Rightarrow> MessageChunkHeader \<Rightarrow> MessageChunkHeader" where
  "with_size n h = h\<lparr>mch_message_size := word_of_nat n\<rparr>"

lemma header_bytes_simps [simp]:
  "length (header_bytes h) = 12"
  "encode_MessageChunkHeader h = Inr (header_bytes h)"
  "decode_MessageChunkHeader (header_bytes h @ t) = Inr (h, t)"
  by (simp_all add: header_bytes_def encode_MessageChunkHeader_bytes decode_MessageChunkHeader_bytes)

lemma with_size_simps [simp]:
  "mch_message_type (with_size n h) = mch_message_type h"
  "mch_is_final (with_size n h) = mch_is_final h"
  "mch_message_size (with_size n h) = word_of_nat n"
  "with_size n (with_size m h) = with_size n h"
  by (simp_all add: with_size_def)

lemma with_size_same: "unat (mch_message_size h) = n \<Longrightarrow> with_size n h = h"
  by (auto simp: with_size_def)

lemma update_message_size_header [simp]:
  "update_message_size (header_bytes h @ r) n = Some (Inr (header_bytes (with_size n h) @ r))"
  by (simp add: update_message_size_def MESSAGE_SIZE_OFFSET_def header_bytes_def with_size_def)

text \<open>Policies that are valid on a channel and supported by the build dispatch without a panic.\<close>

lemma sym_dispatch_supported:
  assumes "is_supported ft p" "p \<noteq> SP_None"
  shows "sym_dispatch ft p r = Some r"
  using assms by (cases p) (simp_all add: sym_dispatch_def is_ecc_def)

lemma supported_sizes:
  assumes "is_supported ft p" "p \<noteq> SP_None"
  shows "\<exists>k. encrypting_key_length ft p = Some k \<and> k \<le> 256"
    "symmetric_padding_info ft p = Some \<lparr>block_size = 16, minimum_padding = 1\<rparr>"
  using assms
  by (cases p; simp add: encrypting_key_length_def symmetric_padding_info_def is_ecc_def policy_defs
      minimum_padding_of_def)+

lemma validate_args_cbc:
  "p \<notin> {SP_PubSubAes128Ctr, SP_PubSubAes256Ctr} \<Longrightarrow> n + 16 \<le> d \<Longrightarrow> n mod 16 = 0 \<Longrightarrow> validate_args p n d = Inr ()"
  by (simp add: validate_args_def)

text \<open>A channel that can secure symmetric chunks.\<close>

definition sym_channel :: "Features \<Rightarrow> 'k SecureChannel \<Rightarrow> bool" where
  "sym_channel ft ch \<longleftrightarrow>
     security_policy_valid ch \<and> channel_inv ch \<and> is_supported ft (security_policy ch)"

lemma sym_channelD:
  assumes "sym_channel ft ch"
  shows "security_policy ch \<noteq> SP_None" "is_supported ft (security_policy ch)"
    "security_policy ch \<notin> {SP_PubSubAes128Ctr, SP_PubSubAes256Ctr}"
    "expect_supported_security_policy ch = Inr ()"
  using assms by (auto simp: sym_channel_def channel_inv_def expect_supported_security_policy_def)

text \<open>The parts of a symmetric chunk: header, token, sequence header, body.\<close>

definition sym_chunk :: "MessageChunkHeader \<Rightarrow> u32 \<Rightarrow> SequenceHeader \<Rightarrow> bytes \<Rightarrow> bytes" where
  "sym_chunk h tid q body =
     header_bytes h @ le_bytes 4 (unat tid)
     @ le_bytes 4 (unat (seq_sequence_number q)) @ le_bytes 4 (unat (seq_request_id q)) @ body"

lemma length_sym_chunk [simp]: "length (sym_chunk h tid q body) = 24 + length body"
  by (simp add: sym_chunk_def)

lemma sym_chunk_update [simp]:
  "update_message_size (sym_chunk h tid q body @ r) n = Some (Inr (sym_chunk (with_size n h) tid q body @ r))"
  by (simp add: sym_chunk_def)

lemma sym_chunk_info:
  assumes "mch_message_type h \<noteq> MCT_OpenSecureChannel"
  shows "\<exists>info. ChunkInfo_new ft opts known (sym_chunk h tid q body) = Inr info
     \<and> ci_message_header info = h \<and> ci_security_header info = SH_Symmetric \<lparr>ssh_token_id = tid\<rparr>
     \<and> ci_sequence_header info = q \<and> ci_body_offset info = 24 \<and> ci_body_length info = length body"
proof -
  have e: "encode_SecurityHeader (SH_Symmetric \<lparr>ssh_token_id = tid\<rparr>) = Inr (le_bytes 4 (unat tid))"
    "encode_SequenceHeader q = Inr (le_bytes 4 (unat (seq_sequence_number q)) @ le_bytes 4 (unat (seq_request_id q)))"
    by (simp_all add: encode_SecurityHeader_def encode_SymmetricSecurityHeader_def encode_SequenceHeader_def)
  have ok: "SecurityHeader_ok ft (is_open_secure_channel_type (mch_message_type h)) opts known
      (SH_Symmetric \<lparr>ssh_token_id = tid\<rparr>)"
    using assms by (simp add: SecurityHeader_ok_def is_open_secure_channel_type_def)
  show ?thesis
    using ChunkInfo_new_layout [OF header_bytes_simps(2) e ok, of body]
    by (simp add: sym_chunk_def byte_len_SecurityHeader_def MESSAGE_CHUNK_HEADER_SIZE_def)
qed

lemma sym_chunk_headers:
  assumes "mch_message_type h \<noteq> MCT_OpenSecureChannel"
  shows "decode_with_known_policy ft (is_open_secure_channel_type (mch_message_type h)) opts known
           (le_bytes 4 (unat tid) @ r) = Inr (SH_Symmetric \<lparr>ssh_token_id = tid\<rparr>, r)"
  using assms
  by (simp add: decode_with_known_policy_def is_open_secure_channel_type_def decode_SymmetricSecurityHeader_def)

lemma sym_chunk_offset:
  assumes "mch_message_type h \<noteq> MCT_OpenSecureChannel"
  shows "encrypted_data_offset ft opts (sym_chunk h tid q body) = Inr 16"
    "\<not> chunk_is_open_secure_channel (sym_chunk h tid q body)"
  using assms sym_chunk_headers [OF assms, of ft opts None]
  by (simp_all add: sym_chunk_def encrypted_data_offset_def decode_from_stream_def
      chunk_is_open_secure_channel_def chunk_message_header_def is_open_secure_channel_type_def)

lemma decode_message_header_sym:
  assumes "mch_message_type h \<noteq> MCT_OpenSecureChannel"
    and "unat (mch_message_size h) = length (header_bytes h @ le_bytes 4 (unat tid) @ r)"
  shows "decode_message_header ft (header_bytes h @ le_bytes 4 (unat tid) @ r) ch =
     Inr (h, SH_Symmetric \<lparr>ssh_token_id = tid\<rparr>, 16)"
  using assms(2) sym_chunk_headers [OF assms(1), of ft "decoding_options ch" "known_policy ch" tid r]
  by (simp add: decode_message_header_def)

text \<open>The data that is signed and encrypted: the chunk with its new size, the padding, room for the
  signature.\<close>

lemma padding_size_sym:
  assumes ch: "sym_channel ft ch" "security_mode ch \<in> {Mode_Sign, Mode_SignAndEncrypt}"
    and mt: "mt \<noteq> MCT_OpenSecureChannel"
  shows "\<exists>pad m. padding_size ft (SH_Symmetric t) body sig mt ch = Some (Inr (pad, m))
     \<and> padding_bytes pad m = padding_bytes pad 1
     \<and> (security_mode ch = Mode_Sign \<longrightarrow> pad = 0)
     \<and> (security_mode ch = Mode_SignAndEncrypt \<longrightarrow>
          16 dvd 8 + body + sig + pad \<and> 1 \<le> pad \<and> pad < 17
          \<and> 8 + body + sig + pad = (8 + body + sig + 16) div 16 * 16)"
proof (cases "security_mode ch = Mode_Sign")
  case True
  then have "get_padding_block_sizes ft (SH_Symmetric t) mt ch = Some (Inr (0, 0))"
    using mt by (simp add: get_padding_block_sizes_def is_open_secure_channel_type_def)
  then show ?thesis using True by (simp add: padding_size_def padding_bytes_def)
next
  case False
  then have mode: "security_mode ch = Mode_SignAndEncrypt" using ch(2) by simp
  have b: "get_padding_block_sizes ft (SH_Symmetric t) mt ch = Some (Inr (16, 1))"
    using mode supported_sizes(2) [OF sym_channelD(2,1) [OF ch(1)]] sym_channelD(1) [OF ch(1)]
    by (simp add: get_padding_block_sizes_def)
  then obtain pad m where p: "padding_size ft (SH_Symmetric t) body sig mt ch = Some (Inr (pad, m))"
    by (simp add: padding_size_def Let_def)
  show ?thesis
    using padding_size_aligned [OF p b] p mode by simp
qed

lemma add_space_sym:
  assumes ch: "sym_channel ft ch" "security_mode ch \<in> {Mode_Sign, Mode_SignAndEncrypt}"
    and mt: "mch_message_type h \<noteq> MCT_OpenSecureChannel"
    and S: "symmetric_signature_size ft (security_policy ch) = Some S"
  shows "\<exists>pad. add_space_for_padding_and_signature_into ft cr (sym_chunk h tid q body) ch =
        Some (Inr (sym_chunk (with_size (24 + length body + pad + S) h) tid q body
                     @ padding_bytes pad 1 @ replicate S 0, 24 + length body + pad + S))
     \<and> (security_mode ch = Mode_Sign \<longrightarrow> pad = 0)
     \<and> (security_mode ch = Mode_SignAndEncrypt \<longrightarrow>
          16 dvd 8 + length body + S + pad \<and> 1 \<le> pad \<and> pad < 17)"
proof -
  obtain info where info: "ChunkInfo_new ft (decoding_options ch) (known_policy ch) (sym_chunk h tid q body) = Inr info"
    "ci_message_header info = h" "ci_security_header info = SH_Symmetric \<lparr>ssh_token_id = tid\<rparr>"
    "ci_body_length info = length body"
    using sym_chunk_info [OF mt] by blast
  obtain pad m where p: "padding_size ft (SH_Symmetric \<lparr>ssh_token_id = tid\<rparr>) (length body) S (mch_message_type h) ch
        = Some (Inr (pad, m))"
    and pm: "padding_bytes pad m = padding_bytes pad 1"
      "security_mode ch = Mode_Sign \<longrightarrow> pad = 0"
      "security_mode ch = Mode_SignAndEncrypt \<longrightarrow> 16 dvd 8 + length body + S + pad \<and> 1 \<le> pad \<and> pad < 17"
    using padding_size_sym [OF ch mt] by blast
  have "signature_size ft cr (SH_Symmetric \<lparr>ssh_token_id = tid\<rparr>) ch = Some S"
    using S by (simp add: signature_size_def)
  then show ?thesis
    using info p pm
    by (auto simp: add_space_for_padding_and_signature_into_def Let_def)
qed

text \<open>The two modes of \<open>apply_security\<close>, as the bytes that go out.\<close>

lemma sign_in_place_ok:
  assumes "symmetric_signature_size ft (security_policy ch) = Some S" "local_keys ch = Some k"
    and "is_supported ft (security_policy ch)" "security_policy ch \<noteq> SP_None"
    and "hmac_sign cr (security_policy ch) k a = Inr sg" "length sg = S" "length r = S"
  shows "symmetric_sign_in_place ft cr (a @ r) (length a) ch = Some (Inr (a @ sg, length a + S))"
  using assms
  by (simp add: symmetric_sign_in_place_def local_keys_result_def symmetric_sign_def sym_dispatch_supported)

lemma apply_security_sign:
  assumes ch: "sym_channel ft ch" "security_mode ch = Mode_Sign" "local_keys ch = Some k"
    and mt: "mch_message_type h \<noteq> MCT_OpenSecureChannel"
    and sg: "hmac_sign cr (security_policy ch) k (sym_chunk (with_size n h) tid q body) = Inr sg"
      "symmetric_signature_size ft (security_policy ch) = Some (length sg)"
    and n: "n = 24 + length body + length sg" "n \<le> dst_len"
  shows "apply_security ft cr (sym_chunk h tid q body) dst_len ch =
     Some (ch, Inr (sym_chunk (with_size n h) tid q body @ sg))"
proof -
  note d = sym_channelD [OF ch(1)]
  obtain pad where a: "add_space_for_padding_and_signature_into ft cr (sym_chunk h tid q body) ch =
      Some (Inr (sym_chunk (with_size (24 + length body + pad + length sg) h) tid q body
                   @ padding_bytes pad 1 @ replicate (length sg) 0, 24 + length body + pad + length sg))"
    and "pad = 0"
    using add_space_sym [OF ch(1) _ mt sg(2)] ch(2) by auto
  then have a: "add_space_for_padding_and_signature_into ft cr (sym_chunk h tid q body) ch =
      Some (Inr (sym_chunk (with_size n h) tid q body @ replicate (length sg) 0, n))"
    by (simp add: padding_bytes_def n(1))
  have s: "symmetric_sign_in_place ft cr (sym_chunk (with_size n h) tid q body @ replicate (length sg) 0)
      (length (sym_chunk (with_size n h) tid q body)) ch
      = Some (Inr (sym_chunk (with_size n h) tid q body @ sg, length (sym_chunk (with_size n h) tid q body) + length sg))"
    using sign_in_place_ok [OF sg(2) ch(3) d(2,1) sg(1)] by simp
  show ?thesis
    using a s d ch(2) sym_chunk_offset [OF mt] sg(2) n
    by (simp add: apply_security_def status_of_def symmetric_sign_and_encrypt_def)
qed

lemma open_sign:
  assumes ch: "sym_channel ft ch" "security_mode ch = Mode_Sign" "get_remote_keys tid ch = Some k"
    and mt: "mch_message_type h \<noteq> MCT_OpenSecureChannel"
    and sg: "hmac_verify cr (security_policy ch) k (sym_chunk (with_size n h) tid q body) sg"
      "symmetric_signature_size ft (security_policy ch) = Some (length sg)"
    and n: "n = 24 + length body + length sg" "n < 2 ^ 32"
  shows "verify_and_remove_security ft cr (sym_chunk (with_size n h) tid q body @ sg) ch =
     Some (ch, Inr (sym_chunk (with_size (24 + length body) h) tid q body))"
proof -
  note d = sym_channelD [OF ch(1)]
  let ?c = "sym_chunk (with_size n h) tid q body"
  have un: "unat (word_of_nat n :: u32) = n" using n(2) by (simp add: unat_of_nat)
  have "decode_message_header ft (?c @ sg) ch = Inr (with_size n h, SH_Symmetric \<lparr>ssh_token_id = tid\<rparr>, 16)"
    using decode_message_header_sym [of "with_size n h" tid
        "le_bytes 4 (unat (seq_sequence_number q)) @ le_bytes 4 (unat (seq_request_id q)) @ body @ sg" ft ch] mt un n(1)
    by (simp add: sym_chunk_def)
  moreover have "symmetric_decrypt_and_verify ft cr (?c @ sg) (24 + length body) (16, n) tid ch =
      Some (Inr (?c @ sg, 24 + length body))"
    using ch d sg(1)
    by (simp add: symmetric_decrypt_and_verify_def symmetric_verify_signature_def sym_dispatch_supported err_of_def)
  ultimately show ?thesis
    using d ch(2) mt sg(2) un n(1)
    by (simp add: verify_and_remove_security_def is_open_secure_channel_type_def is_secure_connection_def
        secure_message_ranges_def decrypt_chunk_def)
qed

text \<open>With encryption: everything behind the token is encrypted, and opening it strips the signature
  and the padding.\<close>

lemma apply_security_encrypt:
  assumes ch: "sym_channel ft ch" "security_mode ch = Mode_SignAndEncrypt" "local_keys ch = Some k"
    and mt: "mch_message_type h \<noteq> MCT_OpenSecureChannel"
    and ok: "symmetric_crypto_ok ft cr (security_policy ch)"
    and big: "length body + 128 \<le> dst_len"
  shows "\<exists>pad sg c n.
     apply_security ft cr (sym_chunk h tid q body) dst_len ch =
       Some (ch, Inr (header_bytes (with_size n h) @ le_bytes 4 (unat tid) @ c))
     \<and> n = 24 + length body + pad + length sg \<and> 1 \<le> pad \<and> pad < 17
     \<and> symmetric_signature_size ft (security_policy ch) = Some (length sg)
     \<and> hmac_verify cr (security_policy ch) k (sym_chunk (with_size n h) tid q body @ padding_bytes pad 1) sg
     \<and> length c + 16 = n \<and> length c mod 16 = 0
     \<and> aes_decrypt cr (security_policy ch) k c =
         Inr (drop 16 (sym_chunk (with_size n h) tid q body @ padding_bytes pad 1 @ sg))"
proof -
  note d = sym_channelD [OF ch(1)]
  obtain S where S: "symmetric_signature_size ft (security_policy ch) = Some S"
    using ok unfolding symmetric_crypto_ok_def by blast
  have S48: "S \<le> 48"
    using S d(2) by (cases "security_policy ch") (auto simp: symmetric_signature_size_def policy_defs split: if_splits)
  obtain pad where a: "add_space_for_padding_and_signature_into ft cr (sym_chunk h tid q body) ch =
      Some (Inr (sym_chunk (with_size (24 + length body + pad + S) h) tid q body
                   @ padding_bytes pad 1 @ replicate S 0, 24 + length body + pad + S))"
    and pad: "16 dvd 8 + length body + S + pad" "1 \<le> pad" "pad < 17"
    using add_space_sym [OF ch(1) _ mt S, of cr tid q body] ch(2) by auto
  let ?n = "24 + length body + pad + S"
  let ?c = "sym_chunk (with_size ?n h) tid q body @ padding_bytes pad 1"
  have lc: "length ?c = 24 + length body + pad" by (simp add: length_padding_bytes)
  obtain sg where sg: "hmac_sign cr (security_policy ch) k ?c = Inr sg" "length sg = S"
    "hmac_verify cr (security_policy ch) k ?c sg"
    using ok S unfolding symmetric_crypto_ok_def by (metis option.inject)
  let ?plain = "drop 16 (?c @ sg)"
  have plain: "?plain = le_bytes 4 (unat (seq_sequence_number q)) @ le_bytes 4 (unat (seq_request_id q)) @ body
      @ padding_bytes pad 1 @ sg"
    and front: "take 16 (?c @ sg) = header_bytes (with_size ?n h) @ le_bytes 4 (unat tid)"
    by (simp_all add: sym_chunk_def)
  have lp: "length ?plain = 8 + length body + S + pad"
    using sg(2) lc by simp
  then obtain c where c: "aes_encrypt cr (security_policy ch) k ?plain = Inr c" "length c = length ?plain"
    "aes_decrypt cr (security_policy ch) k c = Inr ?plain"
    using ok pad(1) unfolding symmetric_crypto_ok_def by (metis dvd_imp_mod_0)
  have s: "symmetric_sign_in_place ft cr (?c @ replicate S 0) (length ?c) ch = Some (Inr (?c @ sg, length ?c + S))"
    using sign_in_place_ok [OF S ch(3) d(2,1) sg(1,2)] by simp
  have e: "symmetric_encrypt ft cr (security_policy ch) k ?plain (dst_len - 16) = Some (Inr c)"
  proof -
    have "length ?plain + 16 \<le> dst_len - 16" using lp big S48 pad(3) by linarith
    moreover have "length ?plain mod 16 = 0" unfolding lp using pad(1) by (rule dvd_imp_mod_0)
    ultimately have "validate_args (security_policy ch) (length ?plain) (dst_len - 16) = Inr ()"
      by (rule validate_args_cbc [OF d(3)])
    then show ?thesis using c(1) d by (simp add: symmetric_encrypt_def sym_dispatch_supported)
  qed
  have range: "take (24 + length body + pad + S - 16) ?plain = ?plain"
    using lp by simp
  have "symmetric_sign_and_encrypt ft cr (?c @ replicate S 0) (length ?c) (16, ?n) dst_len ch =
      Some (Inr (take 16 (?c @ sg) @ c))"
    using s e ch(2,3) d(4) range lc sg(2) big
    by (simp add: symmetric_sign_and_encrypt_def local_keys_result_def del: drop_append take_append)
  moreover have "apply_security ft cr (sym_chunk h tid q body) dst_len ch =
      map_option (Pair ch) (symmetric_sign_and_encrypt ft cr (?c @ replicate S 0) (length ?c) (16, ?n) dst_len ch)"
    using a d ch(2) sym_chunk_offset [OF mt] S lc
    by (simp add: apply_security_def status_of_def add.assoc)
  ultimately have out: "apply_security ft cr (sym_chunk h tid q body) dst_len ch =
      Some (ch, Inr (header_bytes (with_size ?n h) @ le_bytes 4 (unat tid) @ c))"
    using front by simp
  have "length c + 16 = ?n" using c(2) lp by simp
  moreover have "length c mod 16 = 0"
    unfolding c(2) lp using pad(1) by (rule dvd_imp_mod_0)
  ultimately show ?thesis
    using out sg c(3) S pad(2,3)
    by (intro exI [of _ pad] exI [of _ sg] exI [of _ c] exI [of _ ?n]) simp
qed

lemma decrypt_and_verify_encrypt:
  assumes ch: "sym_channel ft ch" "security_mode ch = Mode_SignAndEncrypt" "get_remote_keys tid ch = Some k"
    and src: "length src = n" "start \<le> n" "start + length plain = n"
    and dec: "symmetric_decrypt ft cr (security_policy ch) k (drop start src) (n - start + 16) = Some (Inr plain)"
    and S: "symmetric_signature_size ft (security_policy ch) = Some S" "S \<le> n"
    and dst: "dst = take start src @ plain"
    and ver: "symmetric_verify_signature ft cr (security_policy ch) k (take (n - S) dst) (drop (n - S) dst) = Some (Inr ())"
    and ks: "encrypting_key_length ft (security_policy ch) = Some ks" "verify_padding dst ks (n - S) = Inr ps"
  shows "symmetric_decrypt_and_verify ft cr src (n - S) (start, n) tid ch = Some (Inr (dst, ps))"
proof -
  have "take S (drop (n - S) dst) = drop (n - S) dst"
    using src dst S(2) by simp
  moreover have "take (n - start) (drop start src) = drop start src"
    using src by simp
  moreover have "take start src @ plain @ replicate (length src - (start + length plain)) 0 = dst"
    using src dst by simp
  moreover have "length dst = n" using src dst by simp
  ultimately show ?thesis
    using sym_channelD [OF ch(1)] ch(2,3) src(1,2) src(3) dec S ver ks
    by (simp add: symmetric_decrypt_and_verify_def Let_def err_of_def)
qed

lemma open_encrypt:
  assumes ch: "sym_channel ft ch" "security_mode ch = Mode_SignAndEncrypt" "get_remote_keys tid ch = Some k"
    and mt: "mch_message_type h \<noteq> MCT_OpenSecureChannel"
    and n: "n = 24 + length body + pad + length sg" "1 \<le> pad" "pad < 17" "n < 2 ^ 32"
    and sg: "symmetric_signature_size ft (security_policy ch) = Some (length sg)"
      "hmac_verify cr (security_policy ch) k (sym_chunk (with_size n h) tid q body @ padding_bytes pad 1) sg"
    and c: "length c + 16 = n" "length c mod 16 = 0"
      "aes_decrypt cr (security_policy ch) k c =
         Inr (drop 16 (sym_chunk (with_size n h) tid q body @ padding_bytes pad 1 @ sg))"
  shows "verify_and_remove_security ft cr (header_bytes (with_size n h) @ le_bytes 4 (unat tid) @ c) ch =
     Some (ch, Inr (sym_chunk (with_size (24 + length body) h) tid q body))"
proof -
  note d = sym_channelD [OF ch(1)]
  let ?src = "header_bytes (with_size n h) @ le_bytes 4 (unat tid) @ c"
  let ?c = "sym_chunk (with_size n h) tid q body"
  let ?plain = "drop 16 (?c @ padding_bytes pad 1 @ sg)"
  have un: "unat (word_of_nat n :: u32) = n" using n(4) by (simp add: unat_of_nat)
  have hdr: "decode_message_header ft ?src ch = Inr (with_size n h, SH_Symmetric \<lparr>ssh_token_id = tid\<rparr>, 16)"
    using decode_message_header_sym [of "with_size n h" tid c ft ch] mt un c(1) by simp
  have lp: "length ?plain + 16 = n"
    using n(1) by (simp add: length_padding_bytes)
  have dst: "?c @ padding_bytes pad 1 @ sg = take 16 ?src @ ?plain"
    by (simp add: sym_chunk_def)
  have dec: "symmetric_decrypt ft cr (security_policy ch) k c (length c + 16) = Some (Inr ?plain)"
    using c(2,3) d validate_args_cbc [OF d(3), of "length c" "length c + 16"]
    by (simp add: symmetric_decrypt_def sym_dispatch_supported)
  obtain ks where ks: "encrypting_key_length ft (security_policy ch) = Some ks" "ks \<le> 256"
    using supported_sizes(1) [OF d(2,1)] by blast
  have pad: "verify_padding (?c @ padding_bytes pad 1 @ sg) ks (24 + length body + pad) = Inr (24 + length body)"
    using verify_padding_written [of 1 ks pad ?c sg] ks(2) n(2,3) by (simp add: minimum_padding_of_def)
  have nS: "n - length sg = 24 + length body + pad" "length sg \<le> n"
    using n(1) by simp_all
  have sign: "take (n - length sg) (?c @ padding_bytes pad 1 @ sg) = ?c @ padding_bytes pad 1"
    "drop (n - length sg) (?c @ padding_bytes pad 1 @ sg) = sg"
    unfolding nS(1) by (simp_all add: length_padding_bytes)
  have ver: "symmetric_verify_signature ft cr (security_policy ch) k
      (take (n - length sg) (?c @ padding_bytes pad 1 @ sg)) (drop (n - length sg) (?c @ padding_bytes pad 1 @ sg)) = Some (Inr ())"
    unfolding sign using sg(2) d by (simp add: symmetric_verify_signature_def sym_dispatch_supported)
  have src: "length ?src = n" "16 \<le> n" "16 + length ?plain = n" "drop 16 ?src = c" "n - 16 + 16 = length c + 16"
    using c(1) lp by auto
  have "symmetric_decrypt_and_verify ft cr ?src (n - length sg) (16, n) tid ch =
      Some (Inr (?c @ padding_bytes pad 1 @ sg, 24 + length body))"
    by (rule decrypt_and_verify_encrypt [OF ch src(1,2,3) _ sg(1) nS(2) dst ver ks(1)])
      (use dec src(4,5) pad nS(1) in simp_all)
  then show ?thesis
    using d ch(2) mt sg(1) un n(1) hdr
    by (simp add: verify_and_remove_security_def is_open_secure_channel_type_def is_secure_connection_def
        secure_message_ranges_def decrypt_chunk_def)
qed

section \<open>Properties\<close>

text \<open>C1: a secured chunk opens to the chunk that was secured. For a channel in Sign or SignAndEncrypt
  mode under a supported policy, and a peer in the same mode and policy that holds the sender's
  keys under the chunk's token, applying security to a message or close chunk succeeds, and
  verifying and removing it at the peer gives exactly the original bytes: signature, padding and
  message size are added and taken off again without loss.\<close>

theorem secured_chunk_round_trip:
  assumes snd: "sym_channel ft cs" "local_keys cs = Some k"
    and rcv: "sym_channel ft cv" "get_remote_keys tid cv = Some k"
    and same: "security_policy cv = security_policy cs" "security_mode cv = security_mode cs"
    and mode: "security_mode cs \<in> {Mode_Sign, Mode_SignAndEncrypt}"
    and crypto: "symmetric_crypto_ok ft cr (security_policy cs)"
    and mt: "mch_message_type h \<noteq> MCT_OpenSecureChannel"
    and sz: "unat (mch_message_size h) = length (sym_chunk h tid q body)"
    and room: "length body + 128 \<le> dst_len" "length body + 128 < 2 ^ 32"
  shows "\<exists>out. apply_security ft cr (sym_chunk h tid q body) dst_len cs = Some (cs, Inr out)
     \<and> verify_and_remove_security ft cr out cv = Some (cv, Inr (sym_chunk h tid q body))"
proof -
  have h: "with_size (24 + length body) h = h"
    using sz by (intro with_size_same) simp
  have S48: "S \<le> 48" if "symmetric_signature_size ft (security_policy cs) = Some S" for S
    using that snd(1) by (cases "security_policy cs")
      (auto simp: symmetric_signature_size_def policy_defs sym_channel_def split: if_splits)
  show ?thesis
  proof (cases "security_mode cs = Mode_Sign")
    case True
    obtain S where S: "symmetric_signature_size ft (security_policy cs) = Some S"
      using crypto unfolding symmetric_crypto_ok_def by blast
    let ?n = "24 + length body + S"
    obtain sg where sg: "hmac_sign cr (security_policy cs) k (sym_chunk (with_size ?n h) tid q body) = Inr sg"
      "symmetric_signature_size ft (security_policy cs) = Some (length sg)"
      "hmac_verify cr (security_policy cs) k (sym_chunk (with_size ?n h) tid q body) sg"
      using crypto unfolding symmetric_crypto_ok_def by blast
    have n: "?n = 24 + length body + length sg" "?n \<le> dst_len" "?n < 2 ^ 32"
      using S sg(2) S48 [OF S] room by auto
    show ?thesis
      using apply_security_sign [OF snd(1) True snd(2) mt sg(1,2) n(1,2)]
        open_sign [OF rcv(1) _ rcv(2) mt _ _ n(1,3), of cr q] True same sg h
      by auto
  next
    case False
    then have m: "security_mode cs = Mode_SignAndEncrypt" using mode by simp
    obtain pad sg c n where
      out: "apply_security ft cr (sym_chunk h tid q body) dst_len cs =
         Some (cs, Inr (header_bytes (with_size n h) @ le_bytes 4 (unat tid) @ c))"
      and n: "n = 24 + length body + pad + length sg" "1 \<le> pad" "pad < 17"
      and sg: "symmetric_signature_size ft (security_policy cs) = Some (length sg)"
        "hmac_verify cr (security_policy cs) k (sym_chunk (with_size n h) tid q body @ padding_bytes pad 1) sg"
      and c: "length c + 16 = n" "length c mod 16 = 0"
        "aes_decrypt cr (security_policy cs) k c =
           Inr (drop 16 (sym_chunk (with_size n h) tid q body @ padding_bytes pad 1 @ sg))"
      using apply_security_encrypt [OF snd(1) m snd(2) mt crypto room(1), of tid q] by (elim exE conjE)
    have n32: "n < 2 ^ 32" using n S48 [OF sg(1)] room(2) by linarith
    show ?thesis
      using out open_encrypt [OF rcv(1) _ rcv(2) mt n n32, of cr q c] same m sg c h by simp
  qed
qed

definition null_crypto :: "unit Crypto" where
  "null_crypto =
     \<lparr>rsa_sign = (\<lambda>p k d. Some (replicate (sk_size k) 9)), rsa_verify = (\<lambda>p k d s. Some (s = replicate (pk_size k) 9)),
      rsa_encrypt_block = (\<lambda>a k i b. Some (replicate (pk_size k - Suc (length b)) 0 @ 1 # b)),
      rsa_decrypt_block = (\<lambda>a k c. Some (tl (dropWhile (\<lambda>x. x = 0) c))),
      ecdsa_sign = (\<lambda>k d. Inl Error_encoding), ecdsa_verify = (\<lambda>k d s. False),
      x509_parse = (\<lambda>c. Inr \<lparr>x509_der = c, x509_thumbprint = replicate 20 0,
                               x509_public_key = Inr \<lparr>pk_kind = RsaKey, pk_id = c, pk_size = 256\<rparr>\<rparr>),
      hmac_sign = (\<lambda>p k d. Inr (replicate 32 7)), hmac_verify = (\<lambda>p k d s. s = replicate 32 7),
      aes_encrypt = (\<lambda>p k d. Inr (rev d)), aes_decrypt = (\<lambda>p k d. Inr (rev d))\<rparr>"

definition plain_features :: Features where "plain_features = \<lparr>legacy_crypto = False, ecc = False\<rparr>"

definition example_secure_channel :: "unit SecureChannel" where
  "example_secure_channel =
     (set_security_policy SP_Basic256Sha256 (SecureChannel_new None None Role_Client DecodingOptions_default 0))
       \<lparr>security_mode := Mode_SignAndEncrypt, local_keys := Some (),
        remote_keys := [1 \<mapsto> \<lparr>rk_keys = (), rk_expires_at = 10\<rparr>], token_id := 1\<rparr>"

definition example_message_header :: "nat \<Rightarrow> MessageChunkHeader" where
  "example_message_header n =
     \<lparr>mch_message_type = MCT_Message, mch_is_final = Final, mch_message_size = word_of_nat n, mch_secure_channel_id = 1\<rparr>"

lemma example_secure_channel_simps [simp]:
  "security_policy example_secure_channel = SP_Basic256Sha256"
  "security_mode example_secure_channel = Mode_SignAndEncrypt"
  "local_keys example_secure_channel = Some ()"
  "get_remote_keys 1 example_secure_channel = Some ()"
  "sym_channel plain_features example_secure_channel"
  by (simp_all add: example_secure_channel_def sym_channel_def channel_inv_def set_security_policy_def
      get_remote_keys_def)

lemma null_crypto_ok: "symmetric_crypto_ok plain_features null_crypto SP_Basic256Sha256"
  by (simp add: symmetric_crypto_ok_def null_crypto_def symmetric_signature_size_def policy_defs)

theorem secured_chunk_round_trip_witness:
  "\<exists>out. apply_security plain_features null_crypto
        (sym_chunk (example_message_header 27) 1 \<lparr>seq_sequence_number = 5, seq_request_id = 6\<rparr> [1, 2, 3]) 200
        example_secure_channel = Some (example_secure_channel, Inr out)
     \<and> verify_and_remove_security plain_features null_crypto out example_secure_channel =
        Some (example_secure_channel, Inr (sym_chunk (example_message_header 27) 1 \<lparr>seq_sequence_number = 5, seq_request_id = 6\<rparr> [1, 2, 3]))"
  by (rule secured_chunk_round_trip [where k = "()"])
    (use null_crypto_ok in \<open>simp_all add: example_message_header_def\<close>)

text \<open>The body size computed for a chunk keeps the secured chunk within the negotiated size. For
  message and close chunks, in every mode, a body no longer than \<open>body_size_from_message_size\<close> gives,
  with headers, padding and signature added, at most \<open>max_chunk_size\<close> bytes.\<close>

lemma body_size_fits:
  assumes "mt \<noteq> MCT_OpenSecureChannel" and "mch_message_type h = mt"
    and "body_size_from_message_size ft cr mt ch max_chunk_size = Some (Inr n)"
    and "length body \<le> n"
    and "add_space_for_padding_and_signature_into ft cr (sym_chunk h tid q body) ch = Some (Inr (d, msg_size))"
  shows "msg_size \<le> max_chunk_size \<and> 0 < n"
proof -
  let ?sh = "SH_Symmetric \<lparr>ssh_token_id = token_id ch\<rparr>"
  have sh: "make_security_header ft mt ch = Some ?sh"
    using assms(1) by (cases mt) (simp_all add: make_security_header_def)
  obtain S where S: "symmetric_signature_size ft (security_policy ch) = Some S"
    using assms(3) sh
    by (auto simp: body_size_from_message_size_def signature_size_def bind_eq_Some_conv split: if_splits)
  obtain blk m where b: "get_padding_block_sizes ft ?sh mt ch = Some (Inr (blk, m))"
    using assms(3) sh
    by (auto simp: body_size_from_message_size_def bind_eq_Some_conv try_bind_eq_Inr Let_def split: if_splits)
  have "get_padding_block_sizes ft (SH_Symmetric t) mt ch = get_padding_block_sizes ft ?sh mt ch" for t
    by (simp add: get_padding_block_sizes_def)
  then have b': "get_padding_block_sizes ft (SH_Symmetric t) mt ch = Some (Inr (blk, m))" for t
    using b by simp
  have blk: "blk = 0 \<and> m = 0 \<or> blk = 16 \<and> m = 1"
  proof (cases "security_policy ch = SP_None \<or> security_mode ch \<noteq> Mode_SignAndEncrypt")
    case True
    then show ?thesis using b assms(1) by (auto simp: get_padding_block_sizes_def is_open_secure_channel_type_def)
  next
    case False
    then obtain i where "symmetric_padding_info ft (security_policy ch) = Some i" "blk = block_size i"
      "m = minimum_padding i"
      using b by (auto simp: get_padding_block_sizes_def)
    then show ?thesis using symmetric_padding_block False by blast
  qed
  let ?aligned = "if 0 < blk then max_chunk_size - max_chunk_size mod blk else max_chunk_size"
  have n: "n = ?aligned - (24 + S + m)" "24 + S + m < ?aligned"
    using assms(3) sh S b
    by (auto simp: body_size_from_message_size_def signature_size_def Let_def byte_len_SecurityHeader_def
        byte_len_SequenceHeader_def MESSAGE_CHUNK_HEADER_SIZE_def split: if_splits)
  obtain info where info: "ChunkInfo_new ft (decoding_options ch) (known_policy ch) (sym_chunk h tid q body) = Inr info"
    "ci_message_header info = h" "ci_security_header info = SH_Symmetric \<lparr>ssh_token_id = tid\<rparr>"
    "ci_body_length info = length body"
    using sym_chunk_info assms(1,2) by metis
  obtain pad m' where p: "padding_size ft (SH_Symmetric \<lparr>ssh_token_id = tid\<rparr>) (length body) S mt ch = Some (Inr (pad, m'))"
    and ms: "msg_size = 24 + length body + pad + S"
    using assms(2,5) info S
    by (auto simp: add_space_for_padding_and_signature_into_def signature_size_def Let_def try_bind_eq_Inr
        split: prod.splits)
  show ?thesis
  proof (cases "blk = 0")
    case True
    then have "pad = 0" "m = 0" using p b' blk by (auto simp: padding_size_def)
    then show ?thesis using n ms assms(4) True by simp
  next
    case False
    then have blk16: "blk = 16" "m = 1" using blk by auto
    obtain a where a: "max_chunk_size - max_chunk_size mod 16 = 16 * a"
      by (metis minus_mod_eq_mult_div)
    have dv: "16 dvd 8 + length body + S + pad" and lt: "pad < m' + 16" and mm: "m' = m"
      using padding_size_aligned [OF p b'] blk16 by auto
    obtain x where x: "8 + length body + S + pad = 16 * x" using dv by (auto elim: dvdE)
    have "8 + length body + S + 1 \<le> 16 * a - 16"
      using n assms(4) blk16 a by simp
    moreover have "16 * x < 8 + length body + S + 1 + 16"
      using x lt mm blk16 by linarith
    ultimately have "16 * x \<le> 16 * a - 16" by presburger
    then have "msg_size \<le> 16 * a"
      using ms x n(2) blk16 a by auto
    also have "16 * a \<le> max_chunk_size" using a by linarith
    finally show ?thesis using n by simp
  qed
qed

lemma example_body_size:
  "body_size_from_message_size plain_features null_crypto MCT_Message example_secure_channel 8200 = Some (Inr 8135)"
  by (simp add: body_size_from_message_size_def make_security_header_def signature_size_def
      get_padding_block_sizes_def symmetric_signature_size_def symmetric_padding_info_def is_ecc_def policy_defs
      minimum_padding_of_def byte_len_SecurityHeader_def byte_len_SequenceHeader_def
      MESSAGE_CHUNK_HEADER_SIZE_def MIN_CHUNK_SIZE_def is_open_secure_channel_type_def Let_def)

text \<open>Padding is recovered exactly, for one and for two length bytes. Whatever block size the keys
  give (up to 256 with one length byte, up to 65536 with two), the padding that is written fills
  the encrypted part to whole blocks, and checking it at the receiver, whose key selects the same
  number of length bytes, finds the byte where it starts.\<close>

theorem padding_round_trip:
  assumes "padding_size ft sh body sig mt ch = Some (Inr (pad, m))"
    and "get_padding_block_sizes ft sh mt ch = Some (Inr (blk, m))"
    and "m = minimum_padding_of key_size" and "0 < blk" and "blk \<le> (if m = 1 then 256 else 65536)"
  shows "blk dvd 8 + body + sig + pad
    \<and> verify_padding (a @ padding_bytes pad m @ b) key_size (length a + pad) = Inr (length a)"
  using padding_size_aligned [OF assms(1,2,4)] assms(3,5)
  by (auto intro!: verify_padding_written)

definition rsa_channel :: "unit SecureChannel" where
  "rsa_channel = example_secure_channel
     \<lparr>remote_cert := Some \<lparr>x509_der = [1], x509_thumbprint = replicate 20 0, 
          x509_public_key = Inr \<lparr>pk_kind = RsaKey, pk_id = [1], pk_size = 512\<rparr>\<rparr>\<rparr>"

theorem padding_round_trip_witness:
  "\<exists>pad. padding_size plain_features
        (SH_Asymmetric \<lparr>ash_security_policy_uri = None, ash_sender_certificate = Some [1],
                        ash_receiver_certificate_thumbprint = None\<rparr>) 100 512 MCT_OpenSecureChannel rsa_channel
      = Some (Inr (pad, 2))
    \<and> verify_padding ([9] @ padding_bytes pad 2 @ [8]) 512 (1 + pad) = Inr 1"
proof -
  let ?sh = "SH_Asymmetric \<lparr>ash_security_policy_uri = None, ash_sender_certificate = Some [1],
      ash_receiver_certificate_thumbprint = None\<rparr>"
  have b: "get_padding_block_sizes plain_features ?sh MCT_OpenSecureChannel rsa_channel = Some (Inr (470, 2))"
    by (simp add: get_padding_block_sizes_def x509_public_key_size_def rsa_channel_def example_secure_channel_def set_security_policy_def
        is_open_secure_channel_type_def asymmetric_padding_info_def is_ecc_def policy_defs
        get_plaintext_block_size_def minimum_padding_of_def)
  then obtain pad where p: "padding_size plain_features ?sh 100 512 MCT_OpenSecureChannel rsa_channel = Some (Inr (pad, 2))"
    by (simp add: padding_size_def Let_def)
  show ?thesis
    using padding_round_trip [OF p b, of 512 "[9]" "[8]"] p by (simp add: minimum_padding_of_def)
qed

end
