(* ===== verification/Open_Secure_Channel.thy ===== *)
theory Open_Secure_Channel
  imports Framing
begin

text \<open>
  Properties of the OpenSecureChannel path of \<open>secure_channel/mod.rs\<close> and \<open>framing.rs\<close>: what an incoming
  OpenSecureChannel chunk can do to a channel, and that a secured OpenSecureChannel chunk opens
  at the peer.
\<close>

section \<open>The policy of an established channel\<close>

lemma from_uri_empty: "from_uri [] = SP_Unknown"
  by (simp add: from_uri_def uri_defs policy_defs uri_prefix_def)

lemma decode_message_header_osc:
  assumes "decode_message_header ft src ch = Inr (h, sh, off)"
    and "is_open_secure_channel_type (mch_message_type h)"
  shows "\<exists>a. sh = SH_Asymmetric a \<and> header_security_policy ft (known_policy ch) (ash_security_policy_uri a) \<noteq> SP_Unknown"
  using assms
  by (auto simp: decode_message_header_def bind_result_eq_Inr decode_with_known_policy_def rd_bind_eq_Inr
      split: if_splits)

lemma known_policy_named:
  assumes "channel_inv ch" "known_policy ch = Some p"
    and "header_security_policy ft (known_policy ch) uri \<noteq> SP_Unknown"
    and "from_uri (string_of_bytes (UAString_as_ref uri)) \<noteq> SP_Unknown"
  shows "from_uri (string_of_bytes (UAString_as_ref uri)) = p"
proof (cases "UAString_is_empty uri")
  case True
  then have "UAString_as_ref uri = []" by (auto simp: UAString_is_empty_def UAString_as_ref_def)
  then show ?thesis using assms(4) from_uri_empty by (simp add: string_of_bytes_def)
next
  case False
  then have "map_option bytes_of_string (to_uri ft p) = Some (UAString_as_ref uri)"
    using assms(2,3) by (auto simp: header_security_policy_def split: if_splits)
  then obtain u where "to_uri ft p = Some u" "UAString_as_ref uri = bytes_of_string u" by auto
  then show ?thesis
    using from_uri_to_uri by (metis string_of_bytes_of_string)
qed

text \<open>Opening a chunk changes nothing of the channel but the stored signature, and succeeds only
  with the policy the chunk names.\<close>

lemma finish_osc:
  assumes "finish_open_secure_channel_decrypt p d st ch = Some (ch', r)"
  shows "\<exists>s. ch' = ch\<lparr>first_request_signature := s\<rparr>" "r = Inr (c, p') \<Longrightarrow> p' = p"
proof -
  have self: "\<exists>s. ch = ch\<lparr>first_request_signature := s\<rparr>"
    by (rule exI [of _ "first_request_signature ch"]) simp
  show "\<exists>s. ch' = ch\<lparr>first_request_signature := s\<rparr>"
    using assms self by (auto simp: finish_open_secure_channel_decrypt_def Let_def split: option.splits sum.splits)
  show "r = Inr (c, p') \<Longrightarrow> p' = p"
    using assms
    by (auto simp: finish_open_secure_channel_decrypt_def Let_def map_sum_eq_Inr split: option.splits sum.splits)
qed

lemma decrypt_osc_cases:
  assumes "decrypt_open_secure_channel ft cr src (SH_Asymmetric a) rng ch = Some (ch', r)"
    and "p = from_uri (string_of_bytes (UAString_as_ref (ash_security_policy_uri a)))"
  shows "(\<exists>e. ch' = ch \<and> r = Inl e) \<or> (p = SP_None \<and> ch' = ch \<and> r = Inr (src, p))
     \<or> (p \<noteq> SP_None \<and> p \<noteq> SP_Unknown \<and> is_supported ft p \<and> (is_deprecated p \<longrightarrow> allow_deprecated ch)
        \<and> (\<exists>d st. finish_open_secure_channel_decrypt p d st ch = Some (ch', r)))"
  using assms
proof (cases "p = SP_Unknown \<or> p = SP_None \<or> \<not> is_supported ft p \<or> is_deprecated p \<and> \<not> allow_deprecated ch")
  case True
  then show ?thesis using assms by (auto simp: decrypt_open_secure_channel_def Let_def split: if_splits)
next
  case False
  have "(\<exists>e. ch' = ch \<and> r = Inl e) \<or> (\<exists>d st. finish_open_secure_channel_decrypt p d st ch = Some (ch', r))"
    using assms False
    by (auto simp: decrypt_open_secure_channel_def Let_def
        split: option.split_asm sum.split_asm Option.bind_split_asm)
  then show ?thesis using False by blast
qed

lemma decrypt_osc_policy:
  assumes "decrypt_open_secure_channel ft cr src (SH_Asymmetric a) rng ch = Some (ch', r)"
  shows "\<exists>s. ch' = ch\<lparr>first_request_signature := s\<rparr>"
    and "r = Inr (c, p) \<Longrightarrow> p = from_uri (string_of_bytes (UAString_as_ref (ash_security_policy_uri a))) \<and> p \<noteq> SP_Unknown"
proof -
  have self: "\<exists>s. ch = ch\<lparr>first_request_signature := s\<rparr>"
    by (rule exI [of _ "first_request_signature ch"]) simp
  note cases = decrypt_osc_cases [OF assms refl]
  show "\<exists>s. ch' = ch\<lparr>first_request_signature := s\<rparr>"
    using cases self finish_osc(1) by metis
  show "r = Inr (c, p) \<Longrightarrow> p = from_uri (string_of_bytes (UAString_as_ref (ash_security_policy_uri a))) \<and> p \<noteq> SP_Unknown"
    using cases finish_osc(2) by fastforce
qed

lemma set_security_policy_known:
  "channel_inv ch \<Longrightarrow> known_policy ch = Some p \<Longrightarrow> known_policy (set_security_policy p ch) = Some p"
  by (cases p) (auto simp: known_policy_def set_security_policy_def channel_inv_def split: if_splits)

text \<open>C33: the security policy of an established channel cannot be changed by the peer. Once a channel
  has a validated policy, no incoming chunk, an OpenSecureChannel request with another or with no
  policy URI included, leaves the server's channel with a different policy.\<close>

theorem osc_no_policy_change:
  assumes "channel_inv ch" and "known_policy ch = Some p"
    and "verify_and_remove_security_server ft cr src ch = Some (ch', r)"
  shows "known_policy ch' = Some p \<and> security_policy ch' = p"
proof -
  have same: ?thesis if "ch' = ch"
    using that assms(2) by (auto simp: known_policy_def split: if_splits)
  show ?thesis
  proof (cases "decode_message_header ft src ch")
    case (Inl e)
    then show ?thesis using assms(3) same by (simp add: verify_and_remove_security_server_def)
  next
    case (Inr t)
    obtain h sh off where t: "t = (h, sh, off)" by (cases t)
    show ?thesis
    proof (cases "is_open_secure_channel_type (mch_message_type h)")
      case False
      then show ?thesis using assms(3) same Inr t
        by (auto simp: verify_and_remove_security_server_def Let_def bind_eq_Some_conv secure_message_ranges_def
            split: if_splits)
    next
      case True
      obtain a where a: "sh = SH_Asymmetric a"
        "header_security_policy ft (known_policy ch) (ash_security_policy_uri a) \<noteq> SP_Unknown"
        using decode_message_header_osc [of ft src ch h sh off] Inr t True by blast
      have "ch' = ch \<or> (\<exists>rng ch1 r1. decrypt_open_secure_channel ft cr src sh rng ch = Some (ch1, r1)
          \<and> ch' = (case r1 of Inl e \<Rightarrow> ch1 | Inr (c, p') \<Rightarrow> set_security_policy p' ch1))"
      proof (cases "secure_message_ranges (unat (mch_message_size h)) off 0")
        case (Inl e)
        then show ?thesis using assms(3) \<open>decode_message_header ft src ch = Inr t\<close> t True
          by (simp add: verify_and_remove_security_server_def)
      next
        case (Inr rngs)
        obtain sr rng where "rngs = (sr, rng)" by (cases rngs)
        then have "map_option (\<lambda>(ch', r). case r of Inl e \<Rightarrow> (ch', Inl e) | Inr (c, p) \<Rightarrow> (set_security_policy p ch', Inr c))
            (decrypt_open_secure_channel ft cr src sh rng ch) = Some (ch', r)"
          using assms(3) \<open>decode_message_header ft src ch = Inr t\<close> t True Inr
          by (simp add: verify_and_remove_security_server_def)
        then obtain ch1 r1 where d: "decrypt_open_secure_channel ft cr src sh rng ch = Some (ch1, r1)"
          and "(case r1 of Inl e \<Rightarrow> (ch1, Inl e) | Inr (c, p) \<Rightarrow> (set_security_policy p ch1, Inr c)) = (ch', r)"
          by (cases "decrypt_open_secure_channel ft cr src sh rng ch") (auto simp del: split_paired_All)
        then have "ch' = (case r1 of Inl e \<Rightarrow> ch1 | Inr (c, p') \<Rightarrow> set_security_policy p' ch1)"
          by (cases r1) auto
        then show ?thesis using d by blast
      qed
      then show ?thesis
      proof (elim disjE exE conjE)
        fix rng ch1 r1
        assume d: "decrypt_open_secure_channel ft cr src sh rng ch = Some (ch1, r1)"
          and ch': "ch' = (case r1 of Inl e \<Rightarrow> ch1 | Inr (c, p') \<Rightarrow> set_security_policy p' ch1)"
        note pol = decrypt_osc_policy [OF d [unfolded a(1)]]
        obtain s where s: "ch1 = ch\<lparr>first_request_signature := s\<rparr>" using pol(1) by blast
        have ch1: "channel_inv ch1" "known_policy ch1 = Some p" "security_policy ch1 = p"
          using assms(1,2) s by (auto simp: channel_inv_def known_policy_def split: if_splits)
        have "p' = p" if "r1 = Inr (c, p')" for c p'
          using pol(2) [OF that] known_policy_named [OF assms(1,2) a(2)] by auto
        then show ?thesis
          using ch' ch1 set_security_policy_known [OF ch1(1,2)]
          by (cases r1) (auto simp: set_security_policy_def)
      qed (rule same)
    qed
  qed
qed

lemma example_channel_known: "channel_inv example_secure_channel" "known_policy example_secure_channel = Some SP_Basic256Sha256"
  by (simp_all add: example_secure_channel_def channel_inv_def known_policy_def set_security_policy_def)

theorem osc_no_policy_change_witness:
  "\<exists>ch' r. verify_and_remove_security_server plain_features null_crypto
      (header_bytes (example_message_header 5)) example_secure_channel = Some (ch', r)
    \<and> known_policy ch' = Some SP_Basic256Sha256"
proof -
  have "decode_SymmetricSecurityHeader [] = Inl Error_decoding"
    by (simp add: decode_SymmetricSecurityHeader_def read_defs)
  then obtain e where e: "decode_message_header plain_features (header_bytes (example_message_header 5)) example_secure_channel = Inl e"
    using header_bytes_simps(3) [of "example_message_header 5" "[]"]
    by (simp add: decode_message_header_def decode_with_known_policy_def is_open_secure_channel_type_def
        example_message_header_def)
  then have v: "verify_and_remove_security_server plain_features null_crypto
      (header_bytes (example_message_header 5)) example_secure_channel = Some (example_secure_channel, Inl e)"
    by (simp add: verify_and_remove_security_server_def)
  show ?thesis
    using osc_no_policy_change [OF example_channel_known v] v by blast
qed

section \<open>Opening what the peer secured\<close>

text \<open>
  Two ends of an OpenSecureChannel exchange under an RSA policy: the sender's certificate belongs to its
  private key, it holds the receiver's certificate, the receiver accepts the policy, and RSA keeps
  its promises for the two pairs of keys.
\<close>

definition osc_peers ::
    "Features \<Rightarrow> 'k Crypto \<Rightarrow> AesSecurityPolicy \<Rightarrow> PrivateKey \<Rightarrow> PublicKey \<Rightarrow> PrivateKey \<Rightarrow> PublicKey
     \<Rightarrow> 'k SecureChannel \<Rightarrow> 'k SecureChannel \<Rightarrow> bool" where
  "osc_peers ft cr pol skS pkS skR pkR cs cv \<longleftrightarrow>
     (let p = security_policy cs
      in call_with_policy ft p = Some (AesPolicy pol) \<and> p \<noteq> SP_None \<and> \<not> is_ecc p \<and> is_supported ft p
         \<and> security_mode cs \<in> {Mode_Sign, Mode_SignAndEncrypt}
         \<and> private_key cs = Some skS
         \<and> (\<exists>c. cert cs = Some c \<and> bind_result (x509_parse cr (x509_der c)) x509_public_key = Inr pkS)
         \<and> (\<exists>c. remote_cert cs = Some c \<and> cert cv = Some c \<and> x509_public_key c = Inr pkR)
         \<and> private_key cv = Some skR
         \<and> (known_policy cv = None \<or> known_policy cv = Some p)
         \<and> (is_deprecated p \<longrightarrow> allow_deprecated cv)
         \<and> sk_kind skS = RsaKey \<and> pk_kind pkS = RsaKey \<and> sk_size skS = pk_size pkS
         \<and> (\<forall>d. \<exists>g. rsa_sign cr p skS d = Some g \<and> length g = sk_size skS \<and> rsa_verify cr p pkS d g = Some True)
         \<and> rsa_pair cr (AsymmetricEncryption_of pol) skR pkR \<and> pk_size pkR \<le> 65536)"

definition osc_chunk :: "MessageChunkHeader \<Rightarrow> bytes \<Rightarrow> SequenceHeader \<Rightarrow> bytes \<Rightarrow> bytes" where
  "osc_chunk h sb q body =
     header_bytes h @ sb
     @ le_bytes 4 (unat (seq_sequence_number q)) @ le_bytes 4 (unat (seq_request_id q)) @ body"

lemma length_osc_chunk [simp]: "length (osc_chunk h sb q body) = 20 + length sb + length body"
  by (simp add: osc_chunk_def)

lemma osc_chunk_update [simp]:
  "update_message_size (osc_chunk h sb q body @ r) n = Some (Inr (osc_chunk (with_size n h) sb q body @ r))"
  by (simp add: osc_chunk_def)

lemma osc_chunk_parts:
  "take (12 + length sb) (osc_chunk h sb q body @ r) = header_bytes h @ sb"
  "drop (12 + length sb) (osc_chunk h sb q body @ r) =
     le_bytes 4 (unat (seq_sequence_number q)) @ le_bytes 4 (unat (seq_request_id q)) @ body @ r"
  by (simp_all add: osc_chunk_def)

lemma header_security_policy_ok:
  assumes "to_uri ft p = Some u" and "known = None \<or> known = Some p"
  shows "header_security_policy ft known (Some (bytes_of_string u)) \<noteq> SP_Unknown"
  using assms from_uri_to_uri [OF assms(1)]
  by (auto simp: header_security_policy_def UAString_as_ref_def string_of_bytes_of_string)

text \<open>The header the sender makes, and that both ends read it back.\<close>

lemma osc_header:
  assumes peers: "osc_peers ft cr pol skS pkS skR pkR cs cv"
    and sh: "make_security_header ft MCT_OpenSecureChannel cs = Some sh"
  shows "\<exists>a u c. sh = SH_Asymmetric a \<and> to_uri ft (security_policy cs) = Some u
     \<and> ash_security_policy_uri a = Some (bytes_of_string u)
     \<and> cert cs = Some c \<and> ash_sender_certificate a = Some (x509_der c)
     \<and> ash_receiver_certificate_thumbprint a = map_option x509_thumbprint (remote_cert cs)"
  using assms
  by (auto simp: osc_peers_def Let_def make_security_header_def AsymmetricSecurityHeader_new_def)

lemma osc_header_ok:
  assumes "ash_security_policy_uri a = Some (bytes_of_string u)" and "to_uri ft p = Some u"
    and "known = None \<or> known = Some p" and "AsymmetricSecurityHeader_ok opts a"
  shows "SecurityHeader_ok ft True opts known (SH_Asymmetric a)"
  using assms header_security_policy_ok [OF assms(2,3)] by (simp add: SecurityHeader_ok_def)

lemma known_policy_cases: "known_policy ch = None \<or> known_policy ch = Some (security_policy ch)"
  by (simp add: known_policy_def)

text \<open>What is signed and encrypted: the chunk with padding to whole blocks of the receiver's key, and
  room for the signature.\<close>

lemma osc_padding:
  assumes peers: "osc_peers ft cr pol skS pkS skR pkR cs cv"
    and a: "ash_sender_certificate a = Some d"
  shows "\<exists>pad. padding_size ft (SH_Asymmetric a) body sig MCT_OpenSecureChannel cs
            = Some (Inr (pad, minimum_padding_of (pk_size pkR)))
     \<and> minimum_padding_of (pk_size pkR) \<le> pad
     \<and> pad < minimum_padding_of (pk_size pkR) + get_plaintext_block_size (AsymmetricEncryption_of pol) (pk_size pkR)"
proof -
  let ?b = "get_plaintext_block_size (AsymmetricEncryption_of pol) (pk_size pkR)"
  have b: "get_padding_block_sizes ft (SH_Asymmetric a) MCT_OpenSecureChannel cs
      = Some (Inr (?b, minimum_padding_of (pk_size pkR)))" and pos: "0 < ?b"
    using peers a
    by (auto simp: osc_peers_def Let_def get_padding_block_sizes_def x509_public_key_size_def
        asymmetric_padding_info_def is_open_secure_channel_type_def rsa_pair_def)
  obtain pad m where p: "padding_size ft (SH_Asymmetric a) body sig MCT_OpenSecureChannel cs = Some (Inr (pad, m))"
    using b pos by (simp add: padding_size_def Let_def)
  show ?thesis using padding_size_aligned [OF p b pos] p by blast
qed

lemma osc_add_space:
  assumes peers: "osc_peers ft cr pol skS pkS skR pkR cs cv"
    and sh: "make_security_header ft MCT_OpenSecureChannel cs = Some (SH_Asymmetric a)"
    and ok: "AsymmetricSecurityHeader_ok (decoding_options cs) a"
    and sb: "encode_AsymmetricSecurityHeader a = Inr sb"
    and mt: "mch_message_type h = MCT_OpenSecureChannel"
  shows "\<exists>pad n. add_space_for_padding_and_signature_into ft cr (osc_chunk h sb q body) cs
          = Some (Inr (osc_chunk (with_size n h) sb q body
                @ padding_bytes pad (minimum_padding_of (pk_size pkR)) @ replicate (pk_size pkS) 0, n))
     \<and> n = 20 + length sb + length body + pad + pk_size pkS
     \<and> minimum_padding_of (pk_size pkR) \<le> pad
     \<and> pad < minimum_padding_of (pk_size pkR) + get_plaintext_block_size (AsymmetricEncryption_of pol) (pk_size pkR)"
proof -
  obtain u c where u: "to_uri ft (security_policy cs) = Some u" "ash_security_policy_uri a = Some (bytes_of_string u)"
      "cert cs = Some c" "ash_sender_certificate a = Some (x509_der c)"
    using osc_header [OF peers sh] by auto
  have shok: "SecurityHeader_ok ft True (decoding_options cs) (known_policy cs) (SH_Asymmetric a)"
    by (rule osc_header_ok [OF u(2,1) known_policy_cases ok])
  have e: "encode_SecurityHeader (SH_Asymmetric a) = Inr sb"
    "encode_SequenceHeader q = Inr (le_bytes 4 (unat (seq_sequence_number q)) @ le_bytes 4 (unat (seq_request_id q)))"
    using sb by (simp_all add: encode_SecurityHeader_def encode_SequenceHeader_def)
  have osc: "is_open_secure_channel_type (mch_message_type h)"
    using mt by (simp add: is_open_secure_channel_type_def)
  obtain info where info: "ChunkInfo_new ft (decoding_options cs) (known_policy cs) (osc_chunk h sb q body) = Inr info"
      "ci_message_header info = h" "ci_security_header info = SH_Asymmetric a" "ci_body_length info = length body"
    using ChunkInfo_new_layout [OF header_bytes_simps(2) [of h] e, where body = body and ft = ft and
        opts = "decoding_options cs" and known = "known_policy cs"] shok osc
    by (simp add: osc_chunk_def)
  have sg: "signature_size ft cr (SH_Asymmetric a) cs = Some (pk_size pkS)"
    using peers u(3,4)
    by (auto simp: osc_peers_def Let_def signature_size_def x509_public_key_size_def bind_result_eq_Inr)
  obtain pad where pad: "padding_size ft (SH_Asymmetric a) (length body) (pk_size pkS) MCT_OpenSecureChannel cs
            = Some (Inr (pad, minimum_padding_of (pk_size pkR)))"
     "minimum_padding_of (pk_size pkR) \<le> pad"
     "pad < minimum_padding_of (pk_size pkR) + get_plaintext_block_size (AsymmetricEncryption_of pol) (pk_size pkR)"
    using osc_padding [OF peers u(4)] by blast
  show ?thesis
    using info sg pad mt
    by (auto simp: add_space_for_padding_and_signature_into_def Let_def)
qed

lemma osc_offset:
  assumes "ash_security_policy_uri a = Some (bytes_of_string u)" and "to_uri ft p = Some u"
    and "AsymmetricSecurityHeader_ok opts a" and sb: "encode_AsymmetricSecurityHeader a = Inr sb"
    and mt: "mch_message_type h = MCT_OpenSecureChannel"
  shows "encrypted_data_offset ft opts (osc_chunk h sb q body) = Inr (12 + length sb)"
    "chunk_is_open_secure_channel (osc_chunk h sb q body)"
proof -
  have "decode_with_known_policy ft True opts None (sb @ r) = Inr (SH_Asymmetric a, r)" for r
    using fmt_SecurityHeader.decodes [OF osc_header_ok [OF assms(1,2) _ assms(3), of None]] sb
    by (simp add: encode_SecurityHeader_def)
  then show "encrypted_data_offset ft opts (osc_chunk h sb q body) = Inr (12 + length sb)"
    "chunk_is_open_secure_channel (osc_chunk h sb q body)"
    using mt
    by (simp_all add: osc_chunk_def encrypted_data_offset_def decode_from_stream_def
      chunk_is_open_secure_channel_def chunk_message_header_def is_open_secure_channel_type_def)
qed

text \<open>Signing and encrypting: the header with its final size in the clear, the rest as cipher text
  that decrypts to sequence header, body, padding and signature.\<close>

lemma osc_sign_and_encrypt:
  assumes peers: "osc_peers ft cr pol skS pkS skR pkR cs cv"
    and n: "n = 20 + length sb + length body + length pad + pk_size pkS"
    and N: "N = 12 + length sb + rsa_cipher_text_size (AsymmetricEncryption_of pol) (pk_size pkR) (n - (12 + length sb))"
  shows "\<exists>g c. asymmetric_sign_and_encrypt_owned ft cr (security_policy cs) skS (Some pkR) client thumb first
            (osc_chunk (with_size n h) sb q body @ pad @ replicate (pk_size pkS) 0) (12 + length sb, n)
          = Some (Inr (header_bytes (with_size N h) @ sb @ c, None))
     \<and> length g = pk_size pkS \<and> length c = N - (12 + length sb)
     \<and> rsa_verify cr (security_policy cs) pkS (osc_chunk (with_size N h) sb q body @ pad) g = Some True
     \<and> private_decrypt cr (AsymmetricEncryption_of pol) skR c (length c)
         = Inr (drop (12 + length sb) (osc_chunk (with_size N h) sb q body @ pad @ g))"
proof -
  let ?p = "security_policy cs" and ?l = "osc_chunk (with_size N h) sb q body @ pad" and ?off = "12 + length sb"
  have d: "call_with_policy ft ?p = Some (AesPolicy pol)" "\<not> is_ecc ?p" "sk_kind skS = RsaKey"
      "sk_size skS = pk_size pkS" and pair: "rsa_pair cr (AsymmetricEncryption_of pol) skR pkR"
    using peers by (auto simp: osc_peers_def Let_def)
  obtain g where g: "rsa_sign cr ?p skS ?l = Some g" "length g = pk_size pkS" "rsa_verify cr ?p pkS ?l g = Some True"
    using peers d(4) unfolding osc_peers_def Let_def by metis
  have ll: "length ?l = n - pk_size pkS" "pk_size pkS \<le> n" "?off \<le> n" using n by simp_all
  let ?payload = "drop ?off (?l @ g)"
  have lp: "length ?payload = n - ?off" using n g(2) by simp
  obtain c where c: "public_encrypt cr (AsymmetricEncryption_of pol) pkR ?payload (N - ?off) = Some (Inr c)"
      "length c = N - ?off" "private_decrypt cr (AsymmetricEncryption_of pol) skR c (length c) = Inr ?payload"
    using public_encrypt_private_decrypt [OF pair, of ?payload "N - ?off"] lp N by auto
  have b: "0 < get_plaintext_block_size (AsymmetricEncryption_of pol) (pk_size pkR)"
    using pair by (simp add: rsa_pair_def)
  have "n - ?off \<le> rsa_cipher_text_size (AsymmetricEncryption_of pol) (pk_size pkR) (n - ?off)"
    using b get_plaintext_block_size_le by (rule rsa_cipher_text_size_ge)
  then have nN: "n \<le> N" using N ll(3) by linarith
  have cts: "calculate_cipher_text_size ft ?p (n - ?off) (pk_size pkR) = Some (N - ?off)"
    using d N by (simp add: calculate_cipher_text_size_def)
  have sign: "asymmetric_sign ft cr ?p skS ?l (pk_size pkS) = Some (Inr g)"
    using d g by (simp add: asymmetric_sign_def)
  have enc: "asymmetric_encrypt ft cr ?p pkR ?payload (N - ?off) = Some (Inr c)"
    using d c(1) by (simp add: asymmetric_encrypt_def)
  have pay: "take (n - ?off) (drop ?off (?l @ g)) = ?payload" using lp by simp
  have N': "?off + (N - ?off) = N" using N by simp
  have pieces: "take (n - pk_size pkS) (?l @ replicate (pk_size pkS) 0) = ?l"
    "drop n (?l @ replicate (pk_size pkS) 0) = []"
    "take ?off (?l @ replicate (pk_size pkS) 0) = header_bytes (with_size N h) @ sb"
    "length (?l @ replicate (pk_size pkS) 0) = n"
  proof -
    show "take (n - pk_size pkS) (?l @ replicate (pk_size pkS) 0) = ?l"
      unfolding ll(1) [symmetric] by (rule append_eq_conv_conj [THEN iffD1, THEN conjunct1, symmetric]) (rule refl)
    show "length (?l @ replicate (pk_size pkS) 0) = n" using n by simp
    then show "drop n (?l @ replicate (pk_size pkS) 0) = []" by (metis drop_all order_refl)
    show "take ?off (?l @ replicate (pk_size pkS) 0) = header_bytes (with_size N h) @ sb"
      unfolding append_assoc by (rule osc_chunk_parts(1))
  qed
  have upd: "update_message_size (osc_chunk (with_size n h) sb q body @ pad @ replicate (pk_size pkS) 0) N
      = Some (Inr (?l @ replicate (pk_size pkS) 0))"
    by simp
  have "asymmetric_sign_and_encrypt_owned ft cr ?p skS (Some pkR) client thumb first
            (osc_chunk (with_size n h) sb q body @ pad @ replicate (pk_size pkS) 0) (?off, n)
          = Some (Inr (header_bytes (with_size N h) @ sb @ c, None))"
    unfolding asymmetric_sign_and_encrypt_owned_def Let_def fst_conv snd_conv d(4) option.case(2) cts
      Option.bind.bind_lunit N' upd
    using ll nN d(2) sign enc c(2) pieces pay
    by (simp add: status_of_def del: take_append drop_append append_assoc)
  then show ?thesis using g c by auto
qed

text \<open>Decrypting and verifying: the chunk that was signed, without padding and signature.\<close>

lemma osc_decrypt_and_verify:
  assumes peers: "osc_peers ft cr pol skS pkS skR pkR cs cv" "cert cv = Some certR"
    and g: "length g = pk_size pkS"
      "rsa_verify cr (security_policy cs) pkS (osc_chunk h sb q body @ pad) g = Some True"
    and c: "private_decrypt cr (AsymmetricEncryption_of pol) skR c (length c)
         = Inr (drop (12 + length sb) (osc_chunk h sb q body @ pad @ g))"
    and len: "8 + length body + length pad + pk_size pkS \<le> length c"
    and vp: "\<And>r. verify_padding (osc_chunk h sb q body @ pad @ r) (pk_size pkR) (20 + length sb + length body + length pad)
               = Inr (20 + length sb + length body)"
    and fin: "fin = 12 + length sb + length c"
  shows "asymmetric_decrypt_and_verify_owned ft cr (security_policy cs) skR certR pkS
           (map_option x509_thumbprint (Some certR)) client thumb first
           (header_bytes h @ sb @ c) (12 + length sb, fin) = Some (Inr (osc_chunk h sb q body))"
proof -
  let ?p = "security_policy cs" and ?off = "12 + length sb" and ?chunk = "osc_chunk h sb q body"
  let ?plain = "drop ?off (?chunk @ pad @ g)"
  have d: "call_with_policy ft ?p = Some (AesPolicy pol)" "\<not> is_ecc ?p" "pk_kind pkS = RsaKey"
      "is_supported ft ?p" "x509_public_key certR = Inr pkR"
    using peers by (auto simp: osc_peers_def Let_def)
  have lp: "length ?plain = 8 + length body + length pad + pk_size pkS" using g(1) by simp
  have dec: "asymmetric_decrypt ft cr ?p skR c (fin - ?off) = Some (Inr ?plain)"
    using d c fin by (simp add: asymmetric_decrypt_def)
  let ?z = "replicate (fin - (?off + length ?plain)) (0 :: u8)"
  have front: "take ?off (header_bytes h @ sb @ c) = header_bytes h @ sb"
    "take (fin - ?off) (drop ?off (header_bytes h @ sb @ c)) = c"
    using fin by simp_all
  have dst: "(header_bytes h @ sb) @ ?plain @ ?z = ?chunk @ pad @ g @ ?z"
    by (simp add: osc_chunk_def)
  let ?start = "20 + length sb + length body + length pad"
  have sig: "asymmetric_signature_size ?p (pk_size pkS) = pk_size pkS" "?off + length ?plain - pk_size pkS = ?start"
    using d(2) lp by (auto simp: asymmetric_signature_size_def is_ecc_def)
  have parts: "take ?start (?chunk @ pad @ g @ ?z) = ?chunk @ pad" "take (pk_size pkS) (drop ?start (?chunk @ pad @ g @ ?z)) = g"
    "take (20 + length sb + length body) (?chunk @ pad @ g @ ?z) = ?chunk"
    using g(1) by simp_all
  have ver: "asymmetric_verify_signature ft cr ?p pkS (?chunk @ pad) g = Some (Inr ())"
    using d g(2) by (simp add: asymmetric_verify_signature_def)
  have guards: "\<not> (fin < ?off \<or> length (header_bytes h @ sb @ c) < ?off \<or> length (header_bytes h @ sb @ c) < fin)"
    "\<not> (fin < ?off + length ?plain \<or> ?off + length ?plain < pk_size pkS)"
    using fin lp len by simp_all
  have tp: "\<not> x509_thumbprint certR \<noteq> UAString_as_ref (map_option x509_thumbprint (Some certR))"
    by (simp add: UAString_as_ref_def)
  show ?thesis
    unfolding asymmetric_decrypt_and_verify_owned_def Let_def fst_conv snd_conv if_not_P [OF guards(1)] if_not_P [OF tp]
      front if_not_P [OF d(2)] dec try_bind_simps dst sig if_not_P [OF guards(2)] parts ver
    using d(4,5) vp [of "g @ ?z"] parts(3) by simp
qed

text \<open>The two halves composed over the channels: what goes out, and what the server makes of it.\<close>

lemma osc_apply_security:
  assumes peers: "osc_peers ft cr pol skS pkS skR pkR cs cv"
    and sh: "make_security_header ft MCT_OpenSecureChannel cs = Some (SH_Asymmetric a)"
    and ok: "AsymmetricSecurityHeader_ok (decoding_options cs) a"
    and sb: "encode_AsymmetricSecurityHeader a = Inr sb"
    and mt: "mch_message_type h = MCT_OpenSecureChannel"
    and room: "12 + length sb + rsa_cipher_text_size (AsymmetricEncryption_of pol) (pk_size pkR)
                 (8 + length body + pk_size pkS + pk_size pkR) \<le> limit" and lim: "limit \<le> dst_len"
  shows "\<exists>pad g c N. apply_security ft cr (osc_chunk h sb q body) dst_len cs
            = Some (cs, Inr (header_bytes (with_size N h) @ sb @ c))
     \<and> N = 12 + length sb + length c \<and> N \<le> limit
     \<and> minimum_padding_of (pk_size pkR) \<le> length pad
     \<and> pad = padding_bytes (length pad) (minimum_padding_of (pk_size pkR))
     \<and> length pad < minimum_padding_of (pk_size pkR) + get_plaintext_block_size (AsymmetricEncryption_of pol) (pk_size pkR)
     \<and> 8 + length body + length pad + pk_size pkS \<le> length c
     \<and> length g = pk_size pkS
     \<and> rsa_verify cr (security_policy cs) pkS (osc_chunk (with_size N h) sb q body @ pad) g = Some True
     \<and> private_decrypt cr (AsymmetricEncryption_of pol) skR c (length c)
         = Inr (drop (12 + length sb) (osc_chunk (with_size N h) sb q body @ pad @ g))"
proof -
  let ?K = "pk_size pkR" and ?S = "pk_size pkS" and ?alg = "AsymmetricEncryption_of pol" and ?off = "12 + length sb"
  obtain p n where as: "add_space_for_padding_and_signature_into ft cr (osc_chunk h sb q body) cs
          = Some (Inr (osc_chunk (with_size n h) sb q body
                @ padding_bytes p (minimum_padding_of ?K) @ replicate ?S 0, n))"
    and n: "n = 20 + length sb + length body + p + ?S"
    and p: "minimum_padding_of ?K \<le> p" "p < minimum_padding_of ?K + get_plaintext_block_size ?alg ?K"
    using osc_add_space [OF peers sh ok sb mt] by blast
  define pad where "pad = padding_bytes p (minimum_padding_of ?K)"
  have lpad: "length pad = p"
    unfolding pad_def by (rule length_padding_bytes) (simp add: minimum_padding_of_def)
  obtain u c0 where u: "to_uri ft (security_policy cs) = Some u" "ash_security_policy_uri a = Some (bytes_of_string u)"
    using osc_header [OF peers sh] by auto
  define N where "N = ?off + rsa_cipher_text_size ?alg ?K (n - ?off)"
  obtain g c where gc: "asymmetric_sign_and_encrypt_owned ft cr (security_policy cs) skS (Some pkR) (is_client_role cs)
            (apply_channel_thumbprint cs) (first_request_signature cs)
            (osc_chunk (with_size n h) sb q body @ pad @ replicate ?S 0) (?off, n)
          = Some (Inr (header_bytes (with_size N h) @ sb @ c, None))"
     "length g = ?S" "length c = N - ?off"
     "rsa_verify cr (security_policy cs) pkS (osc_chunk (with_size N h) sb q body @ pad) g = Some True"
     "private_decrypt cr ?alg skR c (length c) = Inr (drop ?off (osc_chunk (with_size N h) sb q body @ pad @ g))"
    using osc_sign_and_encrypt [OF peers _ N_def, where pad = pad] n lpad by blast
  have d: "security_policy cs \<noteq> SP_None" "\<not> is_ecc (security_policy cs)"
      "security_mode cs = Mode_Sign \<or> security_mode cs = Mode_SignAndEncrypt" "private_key cs = Some skS"
    and pair: "rsa_pair cr ?alg skR pkR" and rc: "\<exists>c. remote_cert cs = Some c \<and> x509_public_key c = Inr pkR"
    using peers by (auto simp: osc_peers_def Let_def)
  have blk: "0 < get_plaintext_block_size ?alg ?K" "get_plaintext_block_size ?alg ?K + 11 \<le> ?K"
    using pair by (auto simp: rsa_pair_def get_plaintext_block_size_def split: AsymmetricEncryption.splits)
  have "n - ?off \<le> 8 + length body + ?S + ?K"
    using n p(2) blk(2) by (simp add: minimum_padding_of_def split: if_splits)
  then have NL: "N \<le> limit"
    using rsa_cipher_text_size_mono [OF blk(1)] room unfolding N_def by (meson add_left_mono le_trans)
  have cN: "N = ?off + length c" using gc(3) N_def by simp
  have "n - ?off \<le> rsa_cipher_text_size ?alg ?K (n - ?off)"
    using blk(1) get_plaintext_block_size_le by (rule rsa_cipher_text_size_ge)
  then have lc: "8 + length body + length pad + ?S \<le> length c"
    using n lpad gc(3) unfolding N_def by simp
  have "asymmetric_sign_and_encrypt ft cr (security_policy cs)
        (osc_chunk (with_size n h) sb q body @ pad @ replicate ?S 0) (?off, n) dst_len cs
      = Some (cs, Inr (header_bytes (with_size N h) @ sb @ c))"
    using gc(1) d(2,4) rc NL lim cN by (auto simp: asymmetric_sign_and_encrypt_def)
  then have "apply_security ft cr (osc_chunk h sb q body) dst_len cs
            = Some (cs, Inr (header_bytes (with_size N h) @ sb @ c))"
    using as d osc_offset [OF u(2,1) ok sb mt] n lpad
    by (simp add: apply_security_def status_of_def pad_def add.assoc)
  moreover have "pad = padding_bytes (length pad) (minimum_padding_of ?K)" unfolding lpad by (rule pad_def)
  moreover have "minimum_padding_of ?K \<le> length pad"
      "length pad < minimum_padding_of ?K + get_plaintext_block_size ?alg ?K"
    using p lpad by simp_all
  ultimately show ?thesis
    using cN NL lc gc(2,4,5) by blast
qed

lemma osc_server_opens:
  assumes peers: "osc_peers ft cr pol skS pkS skR pkR cs cv"
    and sh: "make_security_header ft MCT_OpenSecureChannel cs = Some (SH_Asymmetric a)"
    and ok: "AsymmetricSecurityHeader_ok (decoding_options cv) a"
    and sb: "encode_AsymmetricSecurityHeader a = Inr sb"
    and mt: "mch_message_type h = MCT_OpenSecureChannel"
    and N: "unat (mch_message_size h) = 12 + length sb + length c"
    and dec: "\<And>client thumb first certR. cert cv = Some certR \<Longrightarrow>
       asymmetric_decrypt_and_verify_owned ft cr (security_policy cs) skR certR pkS
           (map_option x509_thumbprint (Some certR)) client thumb first
           (header_bytes h @ sb @ c) (12 + length sb, 12 + length sb + length c) = Some (Inr (osc_chunk h sb q body))"
  shows "verify_and_remove_security_server ft cr (header_bytes h @ sb @ c) cv
     = Some (set_security_policy (security_policy cs) cv,
             Inr (osc_chunk (with_size (20 + length sb + length body) h) sb q body))"
proof -
  let ?p = "security_policy cs" and ?off = "12 + length sb"
  obtain u ct where u: "to_uri ft ?p = Some u" "ash_security_policy_uri a = Some (bytes_of_string u)"
      "cert cs = Some ct" "ash_sender_certificate a = Some (x509_der ct)"
      "ash_receiver_certificate_thumbprint a = map_option x509_thumbprint (remote_cert cs)"
    using osc_header [OF peers sh] by auto
  obtain certR where cR: "remote_cert cs = Some certR" "cert cv = Some certR"
    using peers by (auto simp: osc_peers_def Let_def)
  have d: "?p \<noteq> SP_None" "\<not> is_ecc ?p" "is_supported ft ?p" "private_key cv = Some skR"
      "is_deprecated ?p \<longrightarrow> allow_deprecated cv" "known_policy cv = None \<or> known_policy cv = Some ?p"
      "bind_result (x509_parse cr (x509_der ct)) x509_public_key = Inr pkS"
    using peers u(3) by (auto simp: osc_peers_def Let_def)
  have pol: "from_uri (string_of_bytes (UAString_as_ref (ash_security_policy_uri a))) = ?p" "?p \<noteq> SP_Unknown"
    using from_uri_to_uri [OF u(1)] u(2) by (simp_all add: UAString_as_ref_def string_of_bytes_of_string)
  have osc: "is_open_secure_channel_type (mch_message_type h)" using mt by (simp add: is_open_secure_channel_type_def)
  have "decode_with_known_policy ft True (decoding_options cv) (known_policy cv) (sb @ c) = Inr (SH_Asymmetric a, c)"
    using fmt_SecurityHeader.decodes [OF osc_header_ok [OF u(2,1) d(6) ok]] sb
    by (simp add: encode_SecurityHeader_def)
  then have hdr: "decode_message_header ft (header_bytes h @ sb @ c) cv = Inr (h, SH_Asymmetric a, ?off)"
    using osc N by (simp add: decode_message_header_def)
  have store: "request_signature_to_store ft ?p cl vk src fin = None" for cl vk src fin
    using d(2) by (simp add: request_signature_to_store_def)
  have "finish_open_secure_channel_decrypt ?p (osc_chunk h sb q body) None cv
      = Some (cv, Inr (osc_chunk (with_size (20 + length sb + length body) h) sb q body, ?p))"
    using osc_chunk_update [of h sb q body "[]" "20 + length sb + length body"]
    by (simp add: finish_open_secure_channel_decrypt_def update_message_size_and_truncate_def)
  then have "decrypt_open_secure_channel ft cr (header_bytes h @ sb @ c) (SH_Asymmetric a) (?off, ?off + length c) cv
      = Some (cv, Inr (osc_chunk (with_size (20 + length sb + length body) h) sb q body, ?p))"
    using pol d u(4,5) cR store dec [OF cR(2)]
    by (simp add: decrypt_open_secure_channel_def Let_def)
  then show ?thesis
    using hdr osc N by (simp add: verify_and_remove_security_server_def secure_message_ranges_def)
qed

text \<open>C2: the OpenSecureChannel handshake opens. When a client secures an OpenSecureChannel chunk with its
  private key and the server's certificate under an RSA policy, signing, padding and block-wise
  encryption succeed, and the server that holds the certificate's private key decrypts, verifies
  and strips it to exactly the bytes the client started from, and takes over the client's policy.\<close>

theorem open_secure_channel_round_trip:
  assumes peers: "osc_peers ft cr pol skS pkS skR pkR cs cv"
    and sh: "make_security_header ft MCT_OpenSecureChannel cs = Some (SH_Asymmetric a)"
    and ok: "AsymmetricSecurityHeader_ok (decoding_options cs) a" "AsymmetricSecurityHeader_ok (decoding_options cv) a"
    and sb: "encode_AsymmetricSecurityHeader a = Inr sb"
    and mt: "mch_message_type h = MCT_OpenSecureChannel"
    and sz: "unat (mch_message_size h) = length (osc_chunk h sb q body)"
    and room: "12 + length sb + rsa_cipher_text_size (AsymmetricEncryption_of pol) (pk_size pkR)
                 (8 + length body + pk_size pkS + pk_size pkR) \<le> min dst_len (2 ^ 32 - 1)"
  shows "\<exists>out. apply_security ft cr (osc_chunk h sb q body) dst_len cs = Some (cs, Inr out)
     \<and> verify_and_remove_security_server ft cr out cv
         = Some (set_security_policy (security_policy cs) cv, Inr (osc_chunk h sb q body))"
proof -
  let ?K = "pk_size pkR" and ?alg = "AsymmetricEncryption_of pol" and ?m = "minimum_padding_of (pk_size pkR)"
  obtain pad g c N where out: "apply_security ft cr (osc_chunk h sb q body) dst_len cs
            = Some (cs, Inr (header_bytes (with_size N h) @ sb @ c))"
    and N: "N = 12 + length sb + length c" "N \<le> min dst_len (2 ^ 32 - 1)"
    and p: "?m \<le> length pad" "pad = padding_bytes (length pad) ?m" "length pad < ?m + get_plaintext_block_size ?alg ?K"
    and len: "8 + length body + length pad + pk_size pkS \<le> length c"
    and g: "length g = pk_size pkS"
      "rsa_verify cr (security_policy cs) pkS (osc_chunk (with_size N h) sb q body @ pad) g = Some True"
    and c: "private_decrypt cr ?alg skR c (length c)
         = Inr (drop (12 + length sb) (osc_chunk (with_size N h) sb q body @ pad @ g))"
    using osc_apply_security [OF peers sh ok(1) sb mt room min.cobounded1, of q] by blast
  have K: "?K \<le> 65536" using peers by (simp add: osc_peers_def Let_def)
  have "length pad < ?m + (if ?m = 1 then 256 else 65536)"
    using p(3) K get_plaintext_block_size_le [of ?alg ?K] by (auto simp: minimum_padding_of_def split: if_splits)
  then have vp: "verify_padding (osc_chunk (with_size N h) sb q body @ pad @ r) ?K (20 + length sb + length body + length pad)
      = Inr (20 + length sb + length body)" for r
    using verify_padding_written [OF refl p(1), of "osc_chunk (with_size N h) sb q body" r] p(2) by simp
  have un: "unat (mch_message_size (with_size N h)) = 12 + length sb + length c"
  proof -
    have "unat (word_of_nat N :: u32) = N" using N(2) by (simp add: unat_of_nat)
    then show ?thesis using N(1) by (simp only: with_size_simps)
  qed
  have "verify_and_remove_security_server ft cr (header_bytes (with_size N h) @ sb @ c) cv
     = Some (set_security_policy (security_policy cs) cv,
             Inr (osc_chunk (with_size (20 + length sb + length body) (with_size N h)) sb q body))"
    by (rule osc_server_opens [OF peers sh ok(2) sb _ un])
      (use mt osc_decrypt_and_verify [OF peers _ g c len vp refl] in simp_all)
  moreover have "with_size (20 + length sb + length body) (with_size N h) = h"
    using sz with_size_same [of h] by simp
  ultimately show ?thesis using out by simp
qed

text \<open>A client and a server with 2048 bit keys under Basic256Sha256.\<close>

definition example_cert :: "u8 \<Rightarrow> X509" where
  "example_cert i = \<lparr>x509_der = [i], x509_thumbprint = replicate 20 0,
     x509_public_key = Inr \<lparr>pk_kind = RsaKey, pk_id = [i], pk_size = 256\<rparr>\<rparr>"

definition example_key :: "u8 \<Rightarrow> PrivateKey" where
  "example_key i = \<lparr>sk_kind = RsaKey, sk_id = [i], sk_size = 256\<rparr>"

definition example_client :: "unit SecureChannel" where
  "example_client =
     (set_security_policy SP_Basic256Sha256
        (SecureChannel_new (Some (example_cert 1)) (Some (example_key 1)) Role_Client DecodingOptions_default 0))
       \<lparr>security_mode := Mode_SignAndEncrypt, remote_cert := Some (example_cert 2)\<rparr>"

definition example_server :: "unit SecureChannel" where
  "example_server =
     SecureChannel_new (Some (example_cert 2)) (Some (example_key 2)) Role_Server DecodingOptions_default 0"

definition example_osc_header :: AsymmetricSecurityHeader where
  "example_osc_header =
     \<lparr>ash_security_policy_uri = Some (bytes_of_string (uri_prefix @ ''Basic256Sha256'')),
      ash_sender_certificate = Some [1], ash_receiver_certificate_thumbprint = Some (replicate 20 0)\<rparr>"

lemma null_rsa_pair:
  assumes "sk_kind sk = RsaKey" "pk_kind pk = RsaKey" "sk_size sk = 256" "pk_size pk = 256"
  shows "rsa_pair null_crypto OaepSha1 sk pk"
proof -
  have "tl (dropWhile (\<lambda>x. x = (0 :: u8)) (replicate n 0 @ 1 # b)) = b" for n b
    by (induction n) auto
  then show ?thesis
    using assms by (simp add: rsa_pair_def null_crypto_def get_plaintext_block_size_def)
qed

lemma example_peers:
  "osc_peers plain_features null_crypto Basic256Sha256 (example_key 1)
     \<lparr>pk_kind = RsaKey, pk_id = [1], pk_size = 256\<rparr> (example_key 2) \<lparr>pk_kind = RsaKey, pk_id = [2], pk_size = 256\<rparr>
     example_client example_server"
proof -
  have "AsymmetricEncryption_of Basic256Sha256 = OaepSha1" by (simp add: Basic256Sha256_def)
  then show ?thesis
    using null_rsa_pair [of "example_key 2" "\<lparr>pk_kind = RsaKey, pk_id = [2], pk_size = 256\<rparr>"]
    by (simp add: osc_peers_def Let_def example_client_def example_server_def example_key_def example_cert_def
        set_security_policy_def SecureChannel_new_def is_ecc_def is_deprecated_def known_policy_def null_crypto_def
        bind_result_def)
qed

lemma utf8_valid_ascii: "list_all (\<lambda>b. unat b < 0x80) bs \<Longrightarrow> utf8_valid bs"
  by (induction bs) auto

lemma example_uri: "length (bytes_of_string (uri_prefix @ ''Basic256Sha256'')) = 57"
  "utf8_valid (bytes_of_string (uri_prefix @ ''Basic256Sha256''))"
  by (simp add: bytes_of_string_def uri_prefix_def ascii_def)
    (rule utf8_valid_ascii, simp add: bytes_of_string_def uri_prefix_def ascii_def)

lemma example_header_ok:
  "AsymmetricSecurityHeader_ok DecodingOptions_default example_osc_header"
  using example_uri
  by (simp add: AsymmetricSecurityHeader_ok_def example_osc_header_def UAString_ok_def ByteString_ok_def
      UAString_as_ref_def DecodingOptions_default_def SECURITY_POLICY_URI_MAX_LEN_def MAX_STRING_LENGTH_def
      MAX_BYTE_STRING_LENGTH_def MAX_CERTIFICATE_LENGTH_def THUMBPRINT_SIZE_def)

lemma example_osc_sizes:
  assumes "encode_AsymmetricSecurityHeader example_osc_header = Inr sb"
  shows "length sb = 90"
proof -
  have "length sb = byte_len_AsymmetricSecurityHeader example_osc_header"
    using fmt_AsymmetricSecurityHeader.enc_length [OF example_header_ok assms] by simp
  then show ?thesis
    using example_uri(1) by (simp add: byte_len_AsymmetricSecurityHeader_def example_osc_header_def
        byte_len_UAString_def byte_len_ByteString_def)
qed

theorem open_secure_channel_round_trip_witness:
  "\<exists>sb h out. encode_AsymmetricSecurityHeader example_osc_header = Inr sb
     \<and> apply_security plain_features null_crypto
          (osc_chunk h sb \<lparr>seq_sequence_number = 5, seq_request_id = 6\<rparr> [1, 2, 3]) 8196 example_client
        = Some (example_client, Inr out)
     \<and> verify_and_remove_security_server plain_features null_crypto out example_server
        = Some (set_security_policy SP_Basic256Sha256 example_server,
                Inr (osc_chunk h sb \<lparr>seq_sequence_number = 5, seq_request_id = 6\<rparr> [1, 2, 3]))"
proof -
  obtain sb where sb: "encode_AsymmetricSecurityHeader example_osc_header = Inr sb"
    using fmt_AsymmetricSecurityHeader.encodes [OF example_header_ok] by auto
  let ?h = "\<lparr>mch_message_type = MCT_OpenSecureChannel, mch_is_final = Final, mch_message_size = 113, mch_secure_channel_id = 1\<rparr>"
  have sh: "make_security_header plain_features MCT_OpenSecureChannel example_client = Some (SH_Asymmetric example_osc_header)"
    by (simp add: make_security_header_def example_client_def example_osc_header_def AsymmetricSecurityHeader_new_def
        set_security_policy_def SecureChannel_new_def example_cert_def Basic256Sha256_def)
  have opts: "decoding_options example_client = DecodingOptions_default" "decoding_options example_server = DecodingOptions_default"
    "security_policy example_client = SP_Basic256Sha256"
    by (simp_all add: example_client_def example_server_def set_security_policy_def SecureChannel_new_def)
  have "\<exists>out. apply_security plain_features null_crypto
          (osc_chunk ?h sb \<lparr>seq_sequence_number = 5, seq_request_id = 6\<rparr> [1, 2, 3]) 8196 example_client
        = Some (example_client, Inr out)
     \<and> verify_and_remove_security_server plain_features null_crypto out example_server
        = Some (set_security_policy (security_policy example_client) example_server,
                Inr (osc_chunk ?h sb \<lparr>seq_sequence_number = 5, seq_request_id = 6\<rparr> [1, 2, 3]))"
    by (rule open_secure_channel_round_trip [OF example_peers sh _ _ sb])
      (use example_header_ok opts example_osc_sizes [OF sb] in
        \<open>simp_all add: rsa_cipher_text_size_def Basic256Sha256_def get_plaintext_block_size_def\<close>)
  then show ?thesis using sb unfolding opts by blast
qed

end
