(* ===== verification/Node_Ids.thy ===== *)
theory Node_Ids
  imports Encoding
begin

unbundle bit_operations_syntax

text \<open>
  Node identifiers and names: \<open>async-opcua-types/src/node_id/mod.rs\<close>, \<open>node_id/identifier.rs\<close>,
  \<open>expanded_node_id.rs\<close>, \<open>qualified_name.rs\<close> and \<open>localized_text.rs\<close>, with their binary codecs.
\<close>

section \<open>Node ids\<close>

datatype Identifier =
    Id_Numeric u32
  | Id_String UAString
  | Id_Guid Guid
  | Id_ByteString ByteString

record NodeId =
  nid_namespace :: u16
  nid_identifier :: Identifier

definition NodeId_new :: "u16 \<Rightarrow> Identifier \<Rightarrow> NodeId" where
  "NodeId_new ns i = \<lparr>nid_namespace = ns, nid_identifier = i\<rparr>"

definition NodeId_null :: NodeId where
  "NodeId_null = NodeId_new 0 (Id_Numeric 0)"

definition NodeId_is_null :: "NodeId \<Rightarrow> bool" where
  "NodeId_is_null n \<longleftrightarrow> nid_namespace n = 0 \<and> nid_identifier n = Id_Numeric 0"

definition byte_len_NodeId :: "NodeId \<Rightarrow> nat" where
  "byte_len_NodeId n =
     (case nid_identifier n of
        Id_Numeric v \<Rightarrow>
          if nid_namespace n = 0 \<and> v \<le> 255 then 2
          else if nid_namespace n \<le> 255 \<and> v \<le> 65535 then 4
          else 7
      | Id_String v \<Rightarrow> 3 + byte_len_UAString v
      | Id_Guid v \<Rightarrow> 3 + 16
      | Id_ByteString v \<Rightarrow> 3 + byte_len_ByteString v)"

text \<open>The encoding of the node id, with the flags \<open>d\<close> of an expanded node id in the first byte (0 for a
  plain one).\<close>

definition encode_node_id_with :: "u8 \<Rightarrow> NodeId \<Rightarrow> bytes encoding_result" where
  "encode_node_id_with d n =
     (case nid_identifier n of
        Id_Numeric v \<Rightarrow>
          if nid_namespace n = 0 \<and> v \<le> 255 then wr_seq (write_u8 d) (write_u8 (ucast v))
          else if nid_namespace n \<le> 255 \<and> v \<le> 65535 then
            wr_seq (write_u8 (d OR 1)) (wr_seq (write_u8 (ucast (nid_namespace n))) (write_u16 (ucast v)))
          else wr_seq (write_u8 (d OR 2)) (wr_seq (write_u16 (nid_namespace n)) (write_u32 v))
      | Id_String v \<Rightarrow> wr_seq (write_u8 (d OR 3)) (wr_seq (write_u16 (nid_namespace n)) (encode_UAString v))
      | Id_Guid v \<Rightarrow> wr_seq (write_u8 (d OR 4)) (wr_seq (write_u16 (nid_namespace n)) (encode_Guid v))
      | Id_ByteString v \<Rightarrow> wr_seq (write_u8 (d OR 5)) (wr_seq (write_u16 (nid_namespace n)) (encode_ByteString v)))"

definition encode_NodeId :: "NodeId \<Rightarrow> bytes encoding_result" where
  "encode_NodeId n = encode_node_id_with 0 n"

text \<open>The rest of a node id of the kind \<open>i\<close>, or the error \<open>e\<close> for a kind that does not exist.\<close>

definition decode_node_id_kind :: "ua_error \<Rightarrow> DecodingOptions \<Rightarrow> u8 \<Rightarrow> NodeId decoder" where
  "decode_node_id_kind e opts i =
     (if i = 0 then rd_map (\<lambda>v. NodeId_new 0 (Id_Numeric (ucast v))) read_u8
      else if i = 1 then
        rd_bind read_u8 (\<lambda>ns. rd_map (\<lambda>v. NodeId_new (ucast ns) (Id_Numeric (ucast v))) read_u16)
      else if i = 2 then rd_bind read_u16 (\<lambda>ns. rd_map (\<lambda>v. NodeId_new ns (Id_Numeric v)) read_u32)
      else if i = 3 then rd_bind read_u16 (\<lambda>ns. rd_map (\<lambda>v. NodeId_new ns (Id_String v)) (decode_UAString opts))
      else if i = 4 then rd_bind read_u16 (\<lambda>ns. rd_map (\<lambda>v. NodeId_new ns (Id_Guid v)) decode_Guid)
      else if i = 5 then rd_bind read_u16 (\<lambda>ns. rd_map (\<lambda>v. NodeId_new ns (Id_ByteString v)) (decode_ByteString opts))
      else rd_fail e)"

definition decode_NodeId :: "DecodingOptions \<Rightarrow> NodeId decoder" where
  "decode_NodeId opts = rd_bind read_u8 (decode_node_id_kind Error_decoding opts)"

section \<open>Expanded node ids\<close>

record ExpandedNodeId =
  node_id :: NodeId
  namespace_uri :: UAString
  server_index :: u32

definition ExpandedNodeId_is_null :: "ExpandedNodeId \<Rightarrow> bool" where
  "ExpandedNodeId_is_null n = NodeId_is_null (node_id n)"

definition byte_len_ExpandedNodeId :: "ExpandedNodeId \<Rightarrow> nat" where
  "byte_len_ExpandedNodeId n =
     byte_len_NodeId (node_id n)
     + (if namespace_uri n \<noteq> None then byte_len_UAString (namespace_uri n) else 0)
     + (if server_index n \<noteq> 0 then 4 else 0)"

definition expanded_data_encoding :: "ExpandedNodeId \<Rightarrow> u8" where
  "expanded_data_encoding n =
     (if namespace_uri n \<noteq> None then 0x80 else 0) OR (if server_index n \<noteq> 0 then 0x40 else 0)"

definition encode_ExpandedNodeId :: "ExpandedNodeId \<Rightarrow> bytes encoding_result" where
  "encode_ExpandedNodeId n =
     wr_seq (encode_node_id_with (expanded_data_encoding n) (node_id n))
     (wr_seq (if namespace_uri n \<noteq> None then encode_UAString (namespace_uri n) else Inr [])
       (if server_index n \<noteq> 0 then write_u32 (server_index n) else Inr []))"

definition decode_ExpandedNodeId :: "DecodingOptions \<Rightarrow> ExpandedNodeId decoder" where
  "decode_ExpandedNodeId opts =
     rd_bind read_u8 (\<lambda>data_encoding.
     rd_bind (decode_node_id_kind Error_encoding opts (data_encoding AND 0x0f)) (\<lambda>n.
     rd_bind (if data_encoding AND 0x80 \<noteq> 0 then decode_UAString opts else rd_return None) (\<lambda>uri.
     rd_bind (if data_encoding AND 0x40 \<noteq> 0 then read_u32 else rd_return 0) (\<lambda>svr.
       rd_return \<lparr>node_id = n, namespace_uri = uri, server_index = svr\<rparr>))))"

section \<open>Qualified names and localized texts\<close>

record QualifiedName =
  namespace_index :: u16
  qn_name :: UAString

definition byte_len_QualifiedName :: "QualifiedName \<Rightarrow> nat" where
  "byte_len_QualifiedName q = 2 + byte_len_UAString (qn_name q)"

definition encode_QualifiedName :: "QualifiedName \<Rightarrow> bytes encoding_result" where
  "encode_QualifiedName q = wr_seq (write_u16 (namespace_index q)) (encode_UAString (qn_name q))"

definition decode_QualifiedName :: "DecodingOptions \<Rightarrow> QualifiedName decoder" where
  "decode_QualifiedName opts =
     rd_bind read_u16 (\<lambda>ns. rd_bind (decode_UAString opts) (\<lambda>n.
       rd_return \<lparr>namespace_index = ns, qn_name = n\<rparr>))"

record LocalizedText =
  lt_locale :: UAString
  lt_text :: UAString

definition byte_len_LocalizedText :: "LocalizedText \<Rightarrow> nat" where
  "byte_len_LocalizedText t =
     1 + (if \<not> UAString_is_empty (lt_locale t) then byte_len_UAString (lt_locale t) else 0)
       + (if \<not> UAString_is_empty (lt_text t) then byte_len_UAString (lt_text t) else 0)"

definition encode_LocalizedText :: "LocalizedText \<Rightarrow> bytes encoding_result" where
  "encode_LocalizedText t =
     wr_seq (write_u8 ((if \<not> UAString_is_empty (lt_locale t) then 1 else 0)
                       OR (if \<not> UAString_is_empty (lt_text t) then 2 else 0)))
     (wr_seq (if \<not> UAString_is_empty (lt_locale t) then encode_UAString (lt_locale t) else Inr [])
       (if \<not> UAString_is_empty (lt_text t) then encode_UAString (lt_text t) else Inr []))"

definition decode_LocalizedText :: "DecodingOptions \<Rightarrow> LocalizedText decoder" where
  "decode_LocalizedText opts =
     rd_bind read_u8 (\<lambda>encoding_mask.
     rd_bind (if encoding_mask AND 1 \<noteq> 0 then decode_UAString opts else rd_return None) (\<lambda>loc.
     rd_bind (if encoding_mask AND 2 \<noteq> 0 then decode_UAString opts else rd_return None) (\<lambda>t.
       rd_return \<lparr>lt_locale = loc, lt_text = t\<rparr>)))"

section \<open>The codecs are wire formats\<close>

definition Identifier_ok :: "DecodingOptions \<Rightarrow> Identifier \<Rightarrow> bool" where
  "Identifier_ok opts i =
     (case i of
        Id_Numeric _ \<Rightarrow> True
      | Id_String s \<Rightarrow> UAString_ok opts s
      | Id_Guid g \<Rightarrow> length g = 16
      | Id_ByteString b \<Rightarrow> ByteString_ok opts b)"

definition NodeId_ok :: "DecodingOptions \<Rightarrow> NodeId \<Rightarrow> bool" where
  "NodeId_ok opts n = Identifier_ok opts (nid_identifier n)"

definition node_id_kind :: "NodeId \<Rightarrow> u8" where
  "node_id_kind n =
     (case nid_identifier n of
        Id_Numeric v \<Rightarrow>
          if nid_namespace n = 0 \<and> v \<le> 255 then 0
          else if nid_namespace n \<le> 255 \<and> v \<le> 65535 then 1
          else 2
      | Id_String v \<Rightarrow> 3
      | Id_Guid v \<Rightarrow> 4
      | Id_ByteString v \<Rightarrow> 5)"

lemma ucast_small:
  "v \<le> 255 \<Longrightarrow> (ucast (ucast v :: u8) :: u32) = (v :: u32)"
  "v \<le> 65535 \<Longrightarrow> (ucast (ucast v :: u16) :: u32) = (v :: u32)"
  "ns \<le> 255 \<Longrightarrow> (ucast (ucast ns :: u8) :: u16) = (ns :: u16)"
  by (auto intro!: unat_eqI simp: unsigned_ucast_eq unsigned_take_bit_eq take_bit_nat_def word_le_nat_alt)

text \<open>One byte for flags and kind, then the fields, which determine the node id.\<close>

lemma encode_node_id_with_ok:
  assumes "NodeId_ok opts n"
  shows "\<exists>bs. encode_node_id_with d n = Inr ((d OR node_id_kind n) # bs) \<and> Suc (length bs) = byte_len_NodeId n
     \<and> (\<forall>e t. decode_node_id_kind e opts (node_id_kind n) (bs @ t) = Inr (n, t))"
proof (cases "nid_identifier n")
  case (Id_Numeric v)
  have n: "NodeId_new (nid_namespace n) (Id_Numeric v) = n" using Id_Numeric by (simp add: NodeId_new_def)
  have n0: "nid_namespace n = 0 \<Longrightarrow> NodeId_new 0 (Id_Numeric v) = n" using n by metis
  show ?thesis
    using Id_Numeric n n0 ucast_small(1,2) [of v] ucast_small(3) [of "nid_namespace n"]
    by (simp add: encode_node_id_with_def node_id_kind_def byte_len_NodeId_def decode_node_id_kind_def)
next
  case (Id_String v)
  have n: "n = NodeId_new (nid_namespace n) (Id_String v)" using Id_String by (simp add: NodeId_new_def)
  obtain b where "encode_UAString v = Inr b" "length b = byte_len_UAString v"
    "\<And>t. decode_UAString opts (b @ t) = Inr (v, t)"
    using fmt_UAString.encodes fmt_UAString.decodes assms Id_String
    by (metis (no_types, lifting) NodeId_ok_def Identifier_ok_def Identifier.simps(18))
  then show ?thesis
    using Id_String n
    by (simp add: encode_node_id_with_def node_id_kind_def byte_len_NodeId_def decode_node_id_kind_def)
next
  case (Id_Guid v)
  have n: "n = NodeId_new (nid_namespace n) (Id_Guid v)" using Id_Guid by (simp add: NodeId_new_def)
  then show ?thesis
    using Id_Guid n assms fmt_Guid.decodes [of v] fmt_Guid.encodes [of v]
    by (auto simp: encode_node_id_with_def node_id_kind_def byte_len_NodeId_def decode_node_id_kind_def
        NodeId_ok_def Identifier_ok_def)
next
  case (Id_ByteString v)
  have n: "n = NodeId_new (nid_namespace n) (Id_ByteString v)" using Id_ByteString by (simp add: NodeId_new_def)
  obtain b where "encode_ByteString v = Inr b" "length b = byte_len_ByteString v"
    "\<And>t. decode_ByteString opts (b @ t) = Inr (v, t)"
    using fmt_ByteString.encodes fmt_ByteString.decodes assms Id_ByteString
    by (metis (no_types, lifting) NodeId_ok_def Identifier_ok_def Identifier.simps(20))
  then show ?thesis
    using Id_ByteString n
    by (simp add: encode_node_id_with_def node_id_kind_def byte_len_NodeId_def decode_node_id_kind_def)
qed

lemma front_reader_decode_node_id_kind [simp, reader_intros]: "front_reader (decode_node_id_kind e opts i)"
  unfolding decode_node_id_kind_def by (auto intro!: reader_intros fmt_Guid.front)

interpretation fmt_NodeId:
  wire_format encode_NodeId "decode_NodeId opts" byte_len_NodeId "NodeId_ok opts" for opts
proof
  fix n bs t
  assume ok: "NodeId_ok opts n"
  note enc = encode_node_id_with_ok [OF ok, of 0]
  show "\<exists>bs. encode_NodeId n = Inr bs \<and> length bs = byte_len_NodeId n"
    using enc by (auto simp: encode_NodeId_def)
  assume "encode_NodeId n = Inr bs"
  then obtain r where r: "bs = node_id_kind n # r" "\<And>e t. decode_node_id_kind e opts (node_id_kind n) (r @ t) = Inr (n, t)"
    using enc by (auto simp: encode_NodeId_def)
  have "read_u8 (node_id_kind n # r @ t) = Inr (node_id_kind n, r @ t)"
    using fmt_u8.decodes [of "node_id_kind n" "[node_id_kind n]" "r @ t"] by (simp add: write_defs)
  then show "decode_NodeId opts (bs @ t) = Inr (n, t)"
    using r by (simp add: decode_NodeId_def)
next
  show "front_reader (decode_NodeId opts)"
    unfolding decode_NodeId_def by (intro reader_intros)
qed

lemma node_id_kind_range: "node_id_kind n \<in> {0, 1, 2, 3, 4, 5}"
  by (simp add: node_id_kind_def split: Identifier.split)

text \<open>Flags and kind can be told apart.\<close>

lemma expanded_flags:
  "(expanded_data_encoding n OR node_id_kind m) AND 0x0f = node_id_kind m"
  "(expanded_data_encoding n OR node_id_kind m) AND 0x80 \<noteq> 0 \<longleftrightarrow> namespace_uri n \<noteq> None"
  "(expanded_data_encoding n OR node_id_kind m) AND 0x40 \<noteq> 0 \<longleftrightarrow> server_index n \<noteq> 0"
  using node_id_kind_range [of m] by (auto simp: expanded_data_encoding_def)

definition ExpandedNodeId_ok :: "DecodingOptions \<Rightarrow> ExpandedNodeId \<Rightarrow> bool" where
  "ExpandedNodeId_ok opts n \<longleftrightarrow> NodeId_ok opts (node_id n) \<and> UAString_ok opts (namespace_uri n)"

interpretation fmt_ExpandedNodeId:
  wire_format encode_ExpandedNodeId "decode_ExpandedNodeId opts" byte_len_ExpandedNodeId "ExpandedNodeId_ok opts" for opts
proof
  fix n bs t
  assume "ExpandedNodeId_ok opts n"
  then have ok: "NodeId_ok opts (node_id n)" "UAString_ok opts (namespace_uri n)"
    by (simp_all add: ExpandedNodeId_ok_def)
  obtain r where r: "encode_node_id_with (expanded_data_encoding n) (node_id n)
        = Inr ((expanded_data_encoding n OR node_id_kind (node_id n)) # r)"
      "Suc (length r) = byte_len_NodeId (node_id n)"
      "\<And>e t. decode_node_id_kind e opts (node_id_kind (node_id n)) (r @ t) = Inr (node_id n, t)"
    using encode_node_id_with_ok [OF ok(1)] by blast
  obtain u where u: "encode_UAString (namespace_uri n) = Inr u" "length u = byte_len_UAString (namespace_uri n)"
      "\<And>t. decode_UAString opts (u @ t) = Inr (namespace_uri n, t)"
    using fmt_UAString.encodes [OF ok(2)] fmt_UAString.decodes [OF ok(2)] by blast
  show "\<exists>bs. encode_ExpandedNodeId n = Inr bs \<and> length bs = byte_len_ExpandedNodeId n"
    using r(1,2) u(1,2) by (auto simp: encode_ExpandedNodeId_def byte_len_ExpandedNodeId_def)
  assume enc: "encode_ExpandedNodeId n = Inr bs"
  have "n = \<lparr>node_id = node_id n, namespace_uri = namespace_uri n, server_index = server_index n\<rparr>" by simp
  then show "decode_ExpandedNodeId opts (bs @ t) = Inr (n, t)"
    using enc r(1,3) u(1,3)
    by (auto simp: encode_ExpandedNodeId_def decode_ExpandedNodeId_def expanded_flags split: if_splits)
next
  show "front_reader (decode_ExpandedNodeId opts)"
    unfolding decode_ExpandedNodeId_def by (intro reader_intros)
qed

definition QualifiedName_ok :: "DecodingOptions \<Rightarrow> QualifiedName \<Rightarrow> bool" where
  "QualifiedName_ok opts q = UAString_ok opts (qn_name q)"

interpretation fmt_QualifiedName:
  wire_format encode_QualifiedName "decode_QualifiedName opts" byte_len_QualifiedName "QualifiedName_ok opts" for opts
proof
  fix q bs t
  assume "QualifiedName_ok opts q"
  then have ok: "UAString_ok opts (qn_name q)" by (simp add: QualifiedName_ok_def)
  show "\<exists>bs. encode_QualifiedName q = Inr bs \<and> length bs = byte_len_QualifiedName q"
    using fmt_UAString.encodes [OF ok] by (auto simp: encode_QualifiedName_def byte_len_QualifiedName_def)
  assume "encode_QualifiedName q = Inr bs"
  then show "decode_QualifiedName opts (bs @ t) = Inr (q, t)"
    using fmt_UAString.decodes [OF ok]
    by (auto simp: encode_QualifiedName_def decode_QualifiedName_def wr_seq_eq_Inr)
next
  show "front_reader (decode_QualifiedName opts)"
    unfolding decode_QualifiedName_def by (intro reader_intros)
qed

text \<open>A text that is present but empty is encoded like an absent one, and read back as absent.\<close>

definition LocalizedText_ok :: "DecodingOptions \<Rightarrow> LocalizedText \<Rightarrow> bool" where
  "LocalizedText_ok opts x \<longleftrightarrow>
     UAString_ok opts (lt_locale x) \<and> UAString_ok opts (lt_text x)
     \<and> lt_locale x \<noteq> Some [] \<and> lt_text x \<noteq> Some []"

lemma UAString_is_empty_iff: "s \<noteq> Some [] \<Longrightarrow> UAString_is_empty s \<longleftrightarrow> s = None"
  by (auto simp: UAString_is_empty_def split: option.splits)

interpretation fmt_LocalizedText:
  wire_format encode_LocalizedText "decode_LocalizedText opts" byte_len_LocalizedText "LocalizedText_ok opts" for opts
proof
  fix x bs t
  assume "LocalizedText_ok opts x"
  then have ok: "UAString_ok opts (lt_locale x)" "UAString_ok opts (lt_text x)"
    and e: "UAString_is_empty (lt_locale x) \<longleftrightarrow> lt_locale x = None" "UAString_is_empty (lt_text x) \<longleftrightarrow> lt_text x = None"
    by (simp_all add: LocalizedText_ok_def UAString_is_empty_iff)
  obtain a where a: "encode_UAString (lt_locale x) = Inr a" "length a = byte_len_UAString (lt_locale x)"
      "\<And>t. decode_UAString opts (a @ t) = Inr (lt_locale x, t)"
    using fmt_UAString.encodes [OF ok(1)] fmt_UAString.decodes [OF ok(1)] by blast
  obtain b where b: "encode_UAString (lt_text x) = Inr b" "length b = byte_len_UAString (lt_text x)"
      "\<And>t. decode_UAString opts (b @ t) = Inr (lt_text x, t)"
    using fmt_UAString.encodes [OF ok(2)] fmt_UAString.decodes [OF ok(2)] by blast
  show "\<exists>bs. encode_LocalizedText x = Inr bs \<and> length bs = byte_len_LocalizedText x"
    using a b by (auto simp: encode_LocalizedText_def byte_len_LocalizedText_def)
  assume "encode_LocalizedText x = Inr bs"
  moreover have "x = \<lparr>lt_locale = lt_locale x, lt_text = lt_text x\<rparr>" by simp
  ultimately show "decode_LocalizedText opts (bs @ t) = Inr (x, t)"
    using a b e by (auto simp: encode_LocalizedText_def decode_LocalizedText_def write_defs)
next
  show "front_reader (decode_LocalizedText opts)"
    unfolding decode_LocalizedText_def by (intro reader_intros)
qed

section \<open>Properties\<close>

text \<open>Expanded node ids survive the wire. Every expanded node id within the decoding limits is encoded, in
  one of the six forms its identifier selects, to exactly the announced number of bytes, and decoding
  a stream that starts with them gives it back and leaves the rest; no encoding is a proper prefix of another.\<close>

theorem expanded_node_id_round_trip:
  assumes "ExpandedNodeId_ok opts n"
  shows "\<exists>bs. encode_ExpandedNodeId n = Inr bs \<and> length bs = byte_len_ExpandedNodeId n
     \<and> (\<forall>t. decode_ExpandedNodeId opts (bs @ t) = Inr (n, t))
     \<and> (\<forall>m bs' t u. ExpandedNodeId_ok opts m \<and> encode_ExpandedNodeId m = Inr bs' \<and> bs @ t = bs' @ u \<longrightarrow> m = n \<and> t = u)"
proof -
  obtain bs where bs: "encode_ExpandedNodeId n = Inr bs" "length bs = byte_len_ExpandedNodeId n"
    using fmt_ExpandedNodeId.encodes [OF assms] by blast
  then show ?thesis
    using fmt_ExpandedNodeId.decodes [OF assms bs(1)] fmt_ExpandedNodeId.enc_prefix_free [OF assms _ bs(1)] by blast
qed

theorem expanded_node_id_round_trip_witness:
  "\<exists>bs. encode_ExpandedNodeId \<lparr>node_id = NodeId_new 300 (Id_Numeric 70000), namespace_uri = None, server_index = 5\<rparr> = Inr bs
     \<and> length bs = 11
     \<and> decode_ExpandedNodeId DecodingOptions_default (bs @ [1, 2])
       = Inr (\<lparr>node_id = NodeId_new 300 (Id_Numeric 70000), namespace_uri = None, server_index = 5\<rparr>, [1, 2])"
  using expanded_node_id_round_trip [of DecodingOptions_default
      "\<lparr>node_id = NodeId_new 300 (Id_Numeric 70000), namespace_uri = None, server_index = 5\<rparr>"]
  by (auto simp: ExpandedNodeId_ok_def NodeId_ok_def Identifier_ok_def NodeId_new_def UAString_ok_def
      byte_len_ExpandedNodeId_def byte_len_NodeId_def)

end
