(* ===== verification/Sequence_Numbers.thy ===== *)
theory Sequence_Numbers
  imports Encoding
begin

text \<open>
  Counters of the secure conversation: \<open>SequenceNumberHandle\<close>
  (\<open>async-opcua-core/src/comms/sequence_number.rs\<close>) with the legacy and the non-legacy
  numbering, and the handle factories \<open>Handle\<close> and \<open>AtomicHandle\<close>
  (\<open>async-opcua-core/src/handle.rs\<close>). The arithmetic is the wrapping arithmetic of \<open>u32\<close>;
  the lemmas show where it cannot wrap. \<open>AtomicHandle::next\<close> is a step relation over the
  atomic operations of any number of threads.
\<close>

definition BadSequenceNumberInvalid :: StatusCode where "BadSequenceNumberInvalid = 0x80880000"

definition u32_MAX :: u32 where "u32_MAX = 0xFFFFFFFF"

section \<open>Sequence numbers\<close>

record SequenceNumberHandle =
  sn_is_legacy :: bool
  sn_current_value :: u32

definition SequenceNumberHandle_new :: "bool \<Rightarrow> SequenceNumberHandle" where
  "SequenceNumberHandle_new is_legacy =
     \<lparr>sn_is_legacy = is_legacy, sn_current_value = (if is_legacy then 1 else 0)\<rparr>"

definition SequenceNumberHandle_new_at :: "bool \<Rightarrow> u32 \<Rightarrow> SequenceNumberHandle" where
  "SequenceNumberHandle_new_at is_legacy v =
     (let max_value = (if is_legacy then u32_MAX - 1024 else u32_MAX)
      in \<lparr>sn_is_legacy = is_legacy, sn_current_value = v mod max_value\<rparr>)"

definition sn_max_value :: "SequenceNumberHandle \<Rightarrow> u32" where
  "sn_max_value h = (if sn_is_legacy h then u32_MAX - 1024 else u32_MAX)"

definition sn_min_value :: "SequenceNumberHandle \<Rightarrow> u32" where
  "sn_min_value h = (if sn_is_legacy h then 1 else 0)"

definition sn_current :: "SequenceNumberHandle \<Rightarrow> u32" where
  "sn_current h = sn_current_value h"

definition sn_set :: "u32 \<Rightarrow> SequenceNumberHandle \<Rightarrow> SequenceNumberHandle" where
  "sn_set v h = h\<lparr>sn_current_value := v\<rparr>"

definition sn_set_is_legacy :: "bool \<Rightarrow> SequenceNumberHandle \<Rightarrow> SequenceNumberHandle" where
  "sn_set_is_legacy is_legacy h0 =
     (let h = h0\<lparr>sn_is_legacy := is_legacy\<rparr>
      in if sn_max_value h < sn_current_value h
         then h\<lparr>sn_current_value := sn_min_value h + (sn_current_value h - sn_max_value h - 1)\<rparr>
         else h)"

definition sn_increment :: "u32 \<Rightarrow> SequenceNumberHandle \<Rightarrow> SequenceNumberHandle" where
  "sn_increment v h =
     (let remaining = sn_max_value h - sn_current_value h
      in if remaining < v
         then h\<lparr>sn_current_value := sn_min_value h + v - remaining - 1\<rparr>
         else h\<lparr>sn_current_value := sn_current_value h + v\<rparr>)"

definition sn_validate_and_increment ::
    "u32 \<Rightarrow> SequenceNumberHandle \<Rightarrow> SequenceNumberHandle \<times> unit encoding_result" where
  "sn_validate_and_increment incoming h =
     (let expected = sn_current h
      in if incoming \<noteq> expected
         then if sn_is_legacy h \<and> expected = sn_min_value h \<and> incoming < 1024
              then (sn_increment 1 (sn_set incoming h), Inr ())
              else (h, Inl (Error_new BadSequenceNumberInvalid))
         else (sn_increment 1 h, Inr ()))"

text \<open>The receiving side: the numbers of the arriving chunks, one after the other.\<close>

fun sn_receive :: "u32 list \<Rightarrow> SequenceNumberHandle \<Rightarrow> SequenceNumberHandle \<times> unit encoding_result" where
  "sn_receive [] h = (h, Inr ())"
| "sn_receive (n # ns) h =
     (case sn_validate_and_increment n h of
        (h', Inl e) \<Rightarrow> (h', Inl e)
      | (h', Inr _) \<Rightarrow> sn_receive ns h')"

text \<open>The sending side: the numbers given to \<open>k\<close> chunks, each taken and then incremented.\<close>

fun sn_send :: "nat \<Rightarrow> SequenceNumberHandle \<Rightarrow> SequenceNumberHandle \<times> u32 list" where
  "sn_send 0 h = (h, [])"
| "sn_send (Suc k) h =
     (case sn_send k (sn_increment 1 h) of (h', ns) \<Rightarrow> (h', sn_current h # ns))"

section \<open>Handle factories\<close>

record Handle =
  handle_next :: u32
  handle_first :: u32

definition Handle_new :: "u32 \<Rightarrow> Handle" where
  "Handle_new f = \<lparr>handle_next = f, handle_first = f\<rparr>"

definition Handle_next :: "Handle \<Rightarrow> Handle \<times> u32" where
  "Handle_next h =
     (if handle_next h = u32_MAX then (h\<lparr>handle_next := handle_first h\<rparr>, handle_next h)
      else (h\<lparr>handle_next := handle_next h + 1\<rparr>, handle_next h))"

definition Handle_peek_next :: "Handle \<Rightarrow> u32" where
  "Handle_peek_next h = handle_next h"

definition Handle_set_next :: "u32 \<Rightarrow> Handle \<Rightarrow> Handle" where
  "Handle_set_next n h = h\<lparr>handle_next := n\<rparr>"

definition Handle_reset :: "Handle \<Rightarrow> Handle" where
  "Handle_reset h = Handle_set_next (handle_first h) h"

fun Handle_take :: "nat \<Rightarrow> Handle \<Rightarrow> Handle \<times> u32 list" where
  "Handle_take 0 h = (h, [])"
| "Handle_take (Suc k) h =
     (case Handle_next h of (h', v) \<Rightarrow>
        case Handle_take k h' of (h'', vs) \<Rightarrow> (h'', v # vs))"

text \<open>
  \<open>AtomicHandle::next\<close>: where a thread is in the call. \<open>NotCalled\<close> is before \<open>fetch_add\<close>,
  \<open>Looping val\<close> at the head of the \<open>while\<close> loop, \<open>Refetch\<close> before the second \<open>fetch_add\<close>,
  \<open>Done val\<close> after the return.
\<close>

datatype handle_pc = NotCalled | Looping u32 | Refetch | Done u32

record AtomicHandle =
  ah_next :: u32
  ah_first :: u32

definition AtomicHandle_new :: "u32 \<Rightarrow> AtomicHandle" where
  "AtomicHandle_new f = \<lparr>ah_next = f, ah_first = f\<rparr>"

definition fetch_add_1 :: "AtomicHandle \<Rightarrow> AtomicHandle \<times> u32" where
  "fetch_add_1 a = (a\<lparr>ah_next := ah_next a + 1\<rparr>, ah_next a)"

definition compare_exchange :: "u32 \<Rightarrow> u32 \<Rightarrow> AtomicHandle \<Rightarrow> AtomicHandle \<times> (u32 + u32)" where
  "compare_exchange cur new a =
     (if ah_next a = cur then (a\<lparr>ah_next := new\<rparr>, Inr cur) else (a, Inl (ah_next a)))"

text \<open>One atomic action of a thread.\<close>

definition AtomicHandle_next_step :: "AtomicHandle \<Rightarrow> handle_pc \<Rightarrow> AtomicHandle \<times> handle_pc" where
  "AtomicHandle_next_step a pc =
     (case pc of
        NotCalled \<Rightarrow> (case fetch_add_1 a of (a', v) \<Rightarrow> (a', Looping v))
      | Looping val \<Rightarrow>
          if val < ah_first a then
            (case compare_exchange (val + 1) (ah_first a + 1) a of
               (a', Inr _) \<Rightarrow> (a', Looping (ah_first a))
             | (a', Inl v) \<Rightarrow> if ah_first a \<le> v then (a', Refetch) else (a', Looping v))
          else (a, Done val)
      | Refetch \<Rightarrow> (case fetch_add_1 a of (a', v) \<Rightarrow> (a', Looping v))
      | Done v \<Rightarrow> (a, Done v))"

text \<open>A call that no other thread interferes with; \<open>fuel\<close> bounds the atomic actions.\<close>

fun AtomicHandle_next_run :: "nat \<Rightarrow> AtomicHandle \<Rightarrow> handle_pc \<Rightarrow> (AtomicHandle \<times> u32) option" where
  "AtomicHandle_next_run fuel a (Done v) = Some (a, v)"
| "AtomicHandle_next_run 0 a pc = None"
| "AtomicHandle_next_run (Suc fuel) a pc =
     (case AtomicHandle_next_step a pc of (a', pc') \<Rightarrow> AtomicHandle_next_run fuel a' pc')"

definition AtomicHandle_next :: "AtomicHandle \<Rightarrow> (AtomicHandle \<times> u32) option" where
  "AtomicHandle_next a = AtomicHandle_next_run 4 a NotCalled"

text \<open>Threads sharing the handle: in each step one thread makes one atomic action.\<close>

inductive handle_step :: "AtomicHandle \<times> ('t \<Rightarrow> handle_pc) \<Rightarrow> AtomicHandle \<times> ('t \<Rightarrow> handle_pc) \<Rightarrow> bool" where
  act: "AtomicHandle_next_step a (pcs t) = (a', pc') \<Longrightarrow> handle_step (a, pcs) (a', pcs(t := pc'))"

text \<open>The states reached from a new handle in \<open>n\<close> atomic actions.\<close>

inductive handle_reach :: "u32 \<Rightarrow> nat \<Rightarrow> AtomicHandle \<times> ('t \<Rightarrow> handle_pc) \<Rightarrow> bool" for f where
  start: "handle_reach f 0 (AtomicHandle_new f, \<lambda>_. NotCalled)"
| step: "handle_reach f n s \<Longrightarrow> handle_step s s' \<Longrightarrow> handle_reach f (Suc n) s'"

inductive_cases handle_stepE: "handle_step s s'"

section \<open>Sequence number lemmas\<close>

lemmas sn_defs = sn_max_value_def sn_min_value_def sn_current_def sn_set_def

text \<open>The range every handle stays in: the current number never exceeds the maximum.\<close>

definition sn_inv :: "SequenceNumberHandle \<Rightarrow> bool" where
  "sn_inv h \<longleftrightarrow> sn_current_value h \<le> sn_max_value h"

text \<open>The number of values in a cycle.\<close>

definition sn_period :: "SequenceNumberHandle \<Rightarrow> nat" where
  "sn_period h = unat (sn_max_value h) + 1 - unat (sn_min_value h)"

lemma unat_u32_MAX [simp]: "unat u32_MAX = 2 ^ 32 - 1"
  by (simp add: u32_MAX_def)

lemma unat_legacy_max [simp]: "unat (u32_MAX - 1024) = 2 ^ 32 - 1025"
  by (simp add: u32_MAX_def)

lemma u32_le_MAX [simp]: "(v :: u32) \<le> u32_MAX"
  using unat_lt_two_power [of v] by (simp add: word_le_nat_alt)

lemma sn_max_unat: "unat (sn_max_value h) = (if sn_is_legacy h then 2 ^ 32 - 1025 else 2 ^ 32 - 1)"
  by (simp add: sn_max_value_def)

lemma sn_min_unat: "unat (sn_min_value h) = (if sn_is_legacy h then 1 else 0)"
  by (simp add: sn_min_value_def)

lemma sn_increment_frame [simp]:
  "sn_is_legacy (sn_increment v h) = sn_is_legacy h"
  "sn_max_value (sn_increment v h) = sn_max_value h"
  "sn_min_value (sn_increment v h) = sn_min_value h"
  by (simp_all add: sn_increment_def sn_defs Let_def)

text \<open>
  The increment computed on the naturals: as long as the step is no longer than the cycle, the
  subtraction and the additions of \<open>sn_increment\<close> do not wrap.
\<close>

lemma sn_increment_unat:
  assumes inv: "sn_inv h" and small: "unat v \<le> unat (sn_max_value h)"
  shows "unat (sn_current_value (sn_increment v h)) =
     (if unat (sn_current_value h) + unat v \<le> unat (sn_max_value h)
      then unat (sn_current_value h) + unat v
      else unat (sn_min_value h) + (unat (sn_current_value h) + unat v - unat (sn_max_value h) - 1))"
proof -
  let ?c = "sn_current_value h" and ?M = "sn_max_value h" and ?m = "sn_min_value h"
  have cM: "unat ?c \<le> unat ?M"
    using inv by (simp add: sn_inv_def word_le_nat_alt)
  have rem: "unat (?M - ?c) = unat ?M - unat ?c"
    using inv by (simp add: sn_inv_def unat_sub)
  have M: "unat ?M < 2 ^ 32" using unat_lt_two_power [of ?M] by simp
  have legacy: "unat ?m \<le> 1" "unat ?m = 1 \<Longrightarrow> unat ?M = 2 ^ 32 - 1025"
    by (simp_all add: sn_min_unat sn_max_unat split: if_splits)
  show ?thesis
  proof (cases "?M - ?c < v")
    case True
    then have lt: "unat ?M - unat ?c < unat v" by (simp add: word_less_nat_alt rem)
    have "unat ?m + unat v < 2 ^ 32"
      using small M legacy by (cases "unat ?m = 1") auto
    then have s1: "unat (?m + v) = unat ?m + unat v"
      by (simp add: unat_word_ariths)
    have s2: "unat (?m + v - (?M - ?c)) = unat ?m + unat v - (unat ?M - unat ?c)"
      using lt s1 rem by (simp add: unat_sub word_le_nat_alt)
    have "unat (?m + v - (?M - ?c) - 1) = unat ?m + unat v - (unat ?M - unat ?c) - 1"
      using lt s2 by (simp add: unat_sub word_le_nat_alt)
    moreover have "sn_current_value (sn_increment v h) = ?m + v - (?M - ?c) - 1"
      using True by (simp add: sn_increment_def Let_def)
    ultimately show ?thesis using lt cM by auto
  next
    case False
    then have le: "unat v \<le> unat ?M - unat ?c" by (simp add: word_less_nat_alt rem)
    then have sum: "unat ?c + unat v \<le> unat ?M" using cM by linarith
    then have "unat ?c + unat v < 2 ^ 32" using M by linarith
    then have "unat (?c + v) = unat ?c + unat v" by (simp add: unat_word_ariths)
    moreover have "sn_current_value (sn_increment v h) = ?c + v"
      using False by (simp add: sn_increment_def Let_def)
    ultimately show ?thesis using sum by simp
  qed
qed

lemma sn_one_small: "unat (1 :: u32) \<le> unat (sn_max_value h)"
  by (simp add: sn_max_unat)

lemma sn_inv_increment:
  assumes "sn_inv h" and "unat v \<le> unat (sn_max_value h)"
  shows "sn_inv (sn_increment v h)"
  using assms sn_increment_unat [OF assms] sn_min_unat [of h]
  by (auto simp: sn_inv_def word_le_nat_alt split: if_splits)

lemma sn_increment_one:
  assumes "sn_inv h"
  shows "sn_current_value (sn_increment 1 h) =
     (if sn_current_value h = sn_max_value h then sn_min_value h else sn_current_value h + 1)"
proof -
  have "sn_max_value h - sn_current_value h < 1 \<longleftrightarrow> sn_current_value h = sn_max_value h"
    using assms unat_sub [of "sn_current_value h" "sn_max_value h"]
    by (auto simp: sn_inv_def word_less_nat_alt word_le_nat_alt intro: unat_eqI)
  then show ?thesis by (simp add: sn_increment_def Let_def)
qed

lemma sn_inv_new: "sn_inv (SequenceNumberHandle_new l)"
  by (simp add: SequenceNumberHandle_new_def sn_inv_def sn_defs u32_MAX_def)

lemma sn_inv_new_at: "sn_inv (SequenceNumberHandle_new_at l v)"
  by (simp add: SequenceNumberHandle_new_at_def sn_inv_def sn_defs Let_def u32_MAX_def
      word_le_nat_alt unat_mod order_less_imp_le)

lemma sn_inv_set_is_legacy: "sn_inv h \<Longrightarrow> sn_inv (sn_set_is_legacy l h)"
proof (cases l)
  case True
  show ?thesis
  proof (cases "u32_MAX - 1024 < sn_current_value h")
    case cur: True
    let ?c = "sn_current_value h"
    have c: "unat (u32_MAX - 1024) < unat ?c" "unat ?c \<le> 2 ^ 32 - 1"
      using cur unat_lt_two_power [of ?c] by (simp_all add: word_less_nat_alt)
    have "unat (?c - (u32_MAX - 1024)) = unat ?c - (2 ^ 32 - 1025)"
      using cur by (simp add: unat_sub order_less_imp_le del: diff_diff_eq)
    then have "unat (1 + (?c - (u32_MAX - 1024) - 1)) = unat ?c - (2 ^ 32 - 1025)"
      by (simp add: algebra_simps)
    then have "1 + (?c - (u32_MAX - 1024) - 1) \<le> u32_MAX - 1024"
      using c by (simp add: word_le_nat_alt)
    then show ?thesis using True cur by (simp add: sn_set_is_legacy_def sn_inv_def sn_defs Let_def)
  next
    case False
    then show ?thesis using True by (simp add: sn_set_is_legacy_def sn_inv_def sn_defs Let_def)
  qed
qed (simp add: sn_set_is_legacy_def sn_inv_def sn_defs Let_def not_less)

lemma sn_validate_cases:
  "sn_validate_and_increment n h =
     (if n = sn_current h \<or> sn_is_legacy h \<and> sn_current h = 1 \<and> n < 1024
      then (sn_increment 1 (sn_set n h), Inr ())
      else (h, Inl (Error_new BadSequenceNumberInvalid)))"
proof -
  have "sn_set (sn_current_value h) h = h" by (simp add: sn_set_def)
  then show ?thesis
    by (auto simp: sn_validate_and_increment_def Let_def sn_min_value_def sn_current_def)
qed

lemma sn_inv_validate: "sn_inv h \<Longrightarrow> sn_inv (fst (sn_validate_and_increment n h))"
proof -
  assume inv: "sn_inv h"
  have "sn_inv (sn_set n h)" if "n = sn_current h \<or> sn_is_legacy h \<and> n < 1024"
    using that
  proof
    assume "sn_is_legacy h \<and> n < 1024"
    then show ?thesis
      by (simp add: sn_inv_def sn_defs word_le_nat_alt word_less_nat_alt)
  qed (use inv in \<open>simp add: sn_inv_def sn_defs\<close>)
  with inv show ?thesis
    by (auto simp: sn_validate_cases intro!: sn_inv_increment sn_one_small)
qed

text \<open>The position in the cycle, and how sending moves it.\<close>

definition sn_wf :: "SequenceNumberHandle \<Rightarrow> bool" where
  "sn_wf h \<longleftrightarrow> sn_inv h \<and> sn_min_value h \<le> sn_current_value h"

definition sn_pos :: "SequenceNumberHandle \<Rightarrow> nat" where
  "sn_pos h = unat (sn_current_value h) - unat (sn_min_value h)"

lemma sn_wfD: "sn_wf h \<Longrightarrow> unat (sn_current_value h) = unat (sn_min_value h) + sn_pos h"
  "sn_wf h \<Longrightarrow> sn_pos h < sn_period h"
  by (auto simp: sn_wf_def sn_inv_def sn_pos_def sn_period_def word_le_nat_alt)

lemma sn_increment_pos:
  assumes wf: "sn_wf h" and small: "unat v \<le> unat (sn_max_value h)"
  shows "sn_wf (sn_increment v h)"
    and "sn_pos (sn_increment v h) = (sn_pos h + unat v) mod sn_period h"
proof -
  let ?c = "unat (sn_current_value h)" and ?M = "unat (sn_max_value h)" and ?m = "unat (sn_min_value h)"
  have inv: "sn_inv h" and c: "?m \<le> ?c" "?c \<le> ?M"
    using wf by (simp_all add: sn_wf_def sn_inv_def word_le_nat_alt)
  have v: "unat v \<le> sn_period h"
    using small by (simp add: sn_period_def sn_min_unat)
  note u = sn_increment_unat [OF inv small]
  show "sn_wf (sn_increment v h)"
    using u c sn_inv_increment [OF inv small] by (auto simp: sn_wf_def word_le_nat_alt split: if_splits)
  show "sn_pos (sn_increment v h) = (sn_pos h + unat v) mod sn_period h"
  proof (cases "?c + unat v \<le> ?M")
    case True
    then have "sn_pos h + unat v < sn_period h" using c by (simp add: sn_pos_def sn_period_def)
    moreover have "sn_pos (sn_increment v h) = sn_pos h + unat v"
      using u True c by (simp add: sn_pos_def)
    ultimately show ?thesis by simp
  next
    case False
    then have ge: "sn_period h \<le> sn_pos h + unat v" using c by (simp add: sn_pos_def sn_period_def)
    have lt: "sn_pos h + unat v - sn_period h < sn_period h"
      using v sn_wfD(2) [OF wf] by linarith
    have "sn_pos (sn_increment v h) = sn_pos h + unat v - sn_period h"
      using u False c by (simp add: sn_pos_def sn_period_def)
    then show ?thesis using ge lt by (simp add: le_mod_geq)
  qed
qed

lemma sn_period_frame [simp]: "sn_period (sn_increment v h) = sn_period h"
  by (simp add: sn_period_def)

lemma length_sn_send [simp]: "length (snd (sn_send k h)) = k"
  by (induction k arbitrary: h) (auto split: prod.split simp: prod_eq_iff)

lemma sn_send_nth:
  "sn_wf h \<Longrightarrow> i < k \<Longrightarrow>
     unat (snd (sn_send k h) ! i) = unat (sn_min_value h) + (sn_pos h + i) mod sn_period h"
proof (induction k arbitrary: h i)
  case 0
  then show ?case by simp
next
  case (Suc k)
  have cur: "unat (sn_current h) = unat (sn_min_value h) + sn_pos h mod sn_period h"
    using sn_wfD [OF Suc.prems(1)] by (simp add: sn_current_def)
  note inc = sn_increment_pos [OF Suc.prems(1) sn_one_small]
  show ?case
  proof (cases i)
    case 0
    then show ?thesis using cur by (simp split: prod.split)
  next
    case (Suc j)
    then have "unat (snd (sn_send k (sn_increment 1 h)) ! j)
        = unat (sn_min_value h) + ((sn_pos h + 1) mod sn_period h + j) mod sn_period h"
      using Suc.IH [OF inc(1), of j] Suc.prems(2) inc(2) by simp
    then show ?thesis using Suc by (simp add: case_prod_unfold mod_simps)
  qed
qed

lemma sn_receive_send: "sn_receive (snd (sn_send k h)) h = (fst (sn_send k h), Inr ())"
proof (induction k arbitrary: h)
  case (Suc k)
  have "sn_validate_and_increment (sn_current h) h = (sn_increment 1 h, Inr ())"
    by (simp add: sn_validate_and_increment_def Let_def)
  with Suc show ?case by (simp split: prod.split add: prod_eq_iff)
qed simp

section \<open>Handle lemmas\<close>

lemma Handle_take_nth:
  "unat (handle_next h) + k \<le> 2 ^ 32 \<Longrightarrow> i < k \<Longrightarrow>
     unat (snd (Handle_take k h) ! i) = unat (handle_next h) + i"
proof (induction k arbitrary: h i)
  case (Suc k)
  show ?case
  proof (cases i)
    case 0
    then show ?thesis by (simp add: Handle_next_def split: prod.split)
  next
    case (Suc j)
    then have ne: "handle_next h \<noteq> u32_MAX" using Suc.prems by auto
    then have "unat (handle_next h + 1) = unat (handle_next h) + 1"
      using Suc.prems Suc by (simp add: unat_word_ariths)
    then have "unat (snd (Handle_take k (h\<lparr>handle_next := handle_next h + 1\<rparr>)) ! j) = unat (handle_next h) + i"
      using Suc.IH [of "h\<lparr>handle_next := handle_next h + 1\<rparr>" j] Suc.prems Suc by simp
    then show ?thesis using Suc ne by (simp add: Handle_next_def case_prod_unfold)
  qed
qed simp

lemma length_Handle_take [simp]: "length (snd (Handle_take k h)) = k"
  by (induction k arbitrary: h) (auto split: prod.split simp: prod_eq_iff)

text \<open>The value a thread holds or has returned.\<close>

fun pc_held :: "handle_pc \<Rightarrow> u32 option" where
  "pc_held (Looping v) = Some v"
| "pc_held (Done v) = Some v"
| "pc_held _ = None"

definition handle_inv :: "u32 \<Rightarrow> nat \<Rightarrow> AtomicHandle \<times> ('t \<Rightarrow> handle_pc) \<Rightarrow> bool" where
  "handle_inv f n s \<longleftrightarrow>
     ah_first (fst s) = f \<and> f \<le> ah_next (fst s) \<and> unat (ah_next (fst s)) \<le> unat f + n
     \<and> (\<forall>t v. pc_held (snd s t) = Some v \<longrightarrow> f \<le> v \<and> v < ah_next (fst s))
     \<and> (\<forall>t u v. pc_held (snd s t) = Some v \<longrightarrow> pc_held (snd s u) = Some v \<longrightarrow> t = u)"

lemma handle_inv_step:
  assumes inv: "handle_inv f n (a, pcs)" and small: "unat f + Suc n < 2 ^ 32"
    and st: "AtomicHandle_next_step a (pcs t) = (a', pc')"
  shows "handle_inv f (Suc n) (a', pcs(t := pc'))"
proof -
  have next_lt: "unat (ah_next a + 1) = unat (ah_next a) + 1"
    using inv small by (simp add: handle_inv_def unat_word_ariths)
  have fetch: ?thesis if "pc_held (pcs t) = None" "a' = a\<lparr>ah_next := ah_next a + 1\<rparr>"
    "pc' = Looping (ah_next a)"
    using inv that next_lt
    by (auto simp: handle_inv_def word_le_nat_alt word_less_nat_alt less_Suc_eq)
  have keep: ?thesis if "a' = a" "pc_held pc' = pc_held (pcs t)"
    using inv that by (auto simp: handle_inv_def)
  show ?thesis
  proof (cases "pcs t")
    case (Looping v)
    then have "pc_held (pcs t) = Some v" by simp
    then have "\<not> v < ah_first a" using inv by (fastforce simp: handle_inv_def)
    then show ?thesis using st Looping keep by (auto simp: AtomicHandle_next_step_def)
  next
    case NotCalled
    then show ?thesis using st by (intro fetch) (auto simp: AtomicHandle_next_step_def fetch_add_1_def)
  next
    case Refetch
    then show ?thesis using st by (intro fetch) (auto simp: AtomicHandle_next_step_def fetch_add_1_def)
  next
    case (Done v)
    then show ?thesis using st by (intro keep) (auto simp: AtomicHandle_next_step_def)
  qed
qed

lemma handle_reach_inv:
  "handle_reach f n s \<Longrightarrow> unat f + n < 2 ^ 32 \<Longrightarrow> handle_inv f n s"
proof (induction rule: handle_reach.induct)
  case start
  then show ?case by (simp add: handle_inv_def AtomicHandle_new_def)
next
  case (step n s s')
  from step.hyps(2) show ?case
    by (rule handle_stepE) (use step handle_inv_step in auto)
qed

section \<open>Properties\<close>

text \<open>C22: the numbers a sender gives to consecutive chunks are accepted by a receiver that starts
  at the same number, which ends in the sender's state; over one whole cycle (all of \<open>u32\<close>, or
  1 to \<open>u32::MAX - 1024\<close> in legacy mode) no number is used twice and none leaves the range.\<close>

theorem sequence_numbers_cycle:
  assumes "sn_wf h" and "k \<le> sn_period h"
  shows "sn_receive (snd (sn_send k h)) h = (fst (sn_send k h), Inr ())
       \<and> distinct (snd (sn_send k h))
       \<and> (\<forall>n \<in> set (snd (sn_send k h)). sn_min_value h \<le> n \<and> n \<le> sn_max_value h)"
proof (intro conjI)
  show "sn_receive (snd (sn_send k h)) h = (fst (sn_send k h), Inr ())"
    by (rule sn_receive_send)
  have "i = j" if "i < k" "j < k" "snd (sn_send k h) ! i = snd (sn_send k h) ! j" for i j
  proof -
    have "(sn_pos h + i) mod sn_period h = (sn_pos h + j) mod sn_period h"
      using sn_send_nth [OF assms(1) that(1)] sn_send_nth [OF assms(1) that(2)] that(3) by simp
    then show ?thesis
      by (rule add_mod_inj) (use that assms(2) in simp_all)
  qed
  then show "distinct (snd (sn_send k h))"
    by (auto simp: distinct_conv_nth)
  show "\<forall>n \<in> set (snd (sn_send k h)). sn_min_value h \<le> n \<and> n \<le> sn_max_value h"
  proof
    fix n
    assume "n \<in> set (snd (sn_send k h))"
    then obtain i where "i < k" "n = snd (sn_send k h) ! i"
      by (auto simp: in_set_conv_nth)
    then have n: "unat n = unat (sn_min_value h) + (sn_pos h + i) mod sn_period h"
      using sn_send_nth [OF assms(1)] by simp
    have "(sn_pos h + i) mod sn_period h < sn_period h"
      using sn_wfD(2) [OF assms(1)] by simp
    moreover have "sn_period h = unat (sn_max_value h) + 1 - unat (sn_min_value h)"
      by (rule sn_period_def)
    ultimately have "unat n < unat (sn_max_value h) + 1"
      using n by linarith
    then show "sn_min_value h \<le> n \<and> n \<le> sn_max_value h"
      using n by (simp add: word_le_nat_alt)
  qed
qed

theorem sequence_numbers_cycle_witness:
  "let h = \<lparr>sn_is_legacy = True, sn_current_value = u32_MAX - 1025\<rparr>
   in snd (sn_send 3 h) = [u32_MAX - 1025, u32_MAX - 1024, 1] \<and> sn_receive (snd (sn_send 3 h)) h = (fst (sn_send 3 h), Inr ())"
  using sequence_numbers_cycle [of "\<lparr>sn_is_legacy = True, sn_current_value = u32_MAX - 1025\<rparr>" 3]
  by (simp add: Let_def numeral_3_eq_3 sn_wf_def sn_inv_def sn_period_def sn_defs sn_increment_def u32_MAX_def)

text \<open>Replay protection. A number that was accepted is refused when it is presented again
  right away, and the refusal leaves the expected number as it was. The one exception is the
  number 0 in legacy mode, which the wrap-around tolerance accepts although it lies below the
  legacy minimum, and accepts again and again.\<close>

theorem sequence_replay_rejected:
  assumes "sn_inv h" and "sn_validate_and_increment n h = (h', Inr ())"
  shows "sn_validate_and_increment n h' =
     (if sn_is_legacy h \<and> n = 0 then (h', Inr ()) else (h', Inl (Error_new BadSequenceNumberInvalid)))"
proof -
  have h': "h' = sn_increment 1 (sn_set n h)"
    and acc: "n = sn_current h \<or> sn_is_legacy h \<and> sn_current h = 1 \<and> n < 1024"
    using assms(2) by (auto simp: sn_validate_cases split: if_splits)
  have inv: "sn_inv (sn_set n h)"
    using acc assms(1)
    by (auto simp: sn_inv_def sn_defs word_le_nat_alt word_less_nat_alt)
  have cur: "sn_current h' = (if n = sn_max_value h then sn_min_value h else n + 1)"
    using sn_increment_one [OF inv] h' by (simp add: sn_defs)
  have leg: "sn_is_legacy h' = sn_is_legacy h"
    by (simp add: h' sn_set_def)
  have M: "sn_max_value h = (if sn_is_legacy h then 0xFFFFFBFF else 0xFFFFFFFF)"
    by (simp add: sn_max_value_def u32_MAX_def)
  have zero: "sn_increment 1 (sn_set 0 h') = h'" if "sn_is_legacy h" "n = 0"
    using that by (simp add: h' sn_increment_def sn_set_def Let_def sn_defs u32_MAX_def)
  show ?thesis
    using cur leg M zero
    by (auto simp: sn_validate_cases sn_min_value_def)
qed

theorem sequence_replay_rejected_witness:
  "sn_validate_and_increment 7 \<lparr>sn_is_legacy = False, sn_current_value = 8\<rparr> =
     (\<lparr>sn_is_legacy = False, sn_current_value = 8\<rparr>, Inl (Error_new BadSequenceNumberInvalid))"
  using sequence_replay_rejected [of "\<lparr>sn_is_legacy = False, sn_current_value = 7\<rparr>" 7
      "\<lparr>sn_is_legacy = False, sn_current_value = 8\<rparr>"]
  by (simp add: sn_inv_def sn_validate_cases sn_increment_def sn_defs u32_MAX_def Let_def)

text \<open>C39: handles given out concurrently are unique. Whatever the interleaving of the atomic
  operations of the threads, as long as fewer than \<open>2^32 - first\<close> of them have been made, no two
  threads are given the same handle, and every handle is at least \<open>first\<close>.\<close>

theorem atomic_handles_unique:
  assumes "handle_reach f n (a, pcs)" and "unat f + n < 2 ^ 32"
    and "pcs t = Done v" and "pcs u = Done w"
  shows "f \<le> v \<and> (v = w \<longrightarrow> t = u)"
proof -
  have "handle_inv f n (a, pcs)"
    using assms(1,2) by (rule handle_reach_inv)
  moreover have "pc_held (pcs t) = Some v" "pc_held (pcs u) = Some w"
    using assms(3,4) by simp_all
  ultimately show ?thesis unfolding handle_inv_def by (metis snd_conv)
qed

lemma handle_reach_act:
  "handle_reach f n (a, pcs) \<Longrightarrow> AtomicHandle_next_step a (pcs t) = (a', pc') \<Longrightarrow>
     handle_reach f (Suc n) (a', pcs(t := pc'))"
  by (blast intro: handle_reach.step handle_step.act)

lemma handle_reach_example:
  "handle_reach 5 4 (\<lparr>ah_next = 7, ah_first = 5\<rparr>, (\<lambda>_. NotCalled)(True := Done 5, False := Done 6))"
proof -
  let ?p = "\<lambda>_ :: bool. NotCalled"
  note d = AtomicHandle_next_step_def fetch_add_1_def
  have 0: "handle_reach 5 0 (\<lparr>ah_next = 5, ah_first = 5\<rparr>, ?p)"
    using handle_reach.start [of 5] by (simp add: AtomicHandle_new_def)
  have 1: "handle_reach 5 1 (\<lparr>ah_next = 6, ah_first = 5\<rparr>, ?p(True := Looping 5))"
    using handle_reach_act [where t = True, OF 0] by (simp add: d)
  have 2: "handle_reach 5 2 (\<lparr>ah_next = 7, ah_first = 5\<rparr>, ?p(True := Looping 5, False := Looping 6))"
    using handle_reach_act [where t = False, OF 1] by (simp add: d numeral_2_eq_2)
  have 3: "handle_reach 5 3 (\<lparr>ah_next = 7, ah_first = 5\<rparr>, ?p(True := Done 5, False := Looping 6))"
    using handle_reach_act [where t = True, OF 2] by (simp add: d fun_upd_twist [of True False])
  show ?thesis
    using handle_reach_act [where t = False, OF 3] by (simp add: d)
qed

theorem atomic_handles_unique_witness:
  "\<exists>a pcs v w. handle_reach 5 4 (a, pcs) \<and> pcs True = Done v \<and> pcs False = Done w \<and> 5 \<le> v \<and> v \<noteq> w"
proof -
  let ?pcs = "(\<lambda>_. NotCalled)(True := Done 5, False := Done 6)"
  have "5 \<le> (5 :: u32) \<and> (5 :: u32) \<noteq> 6"
    using atomic_handles_unique [where t = True and v = 5 and u = False and w = 6, OF handle_reach_example]
    by simp
  then show ?thesis
    using handle_reach_example by (intro exI [of _ ?pcs] exI) auto
qed

end
