(* ===== verification/Chunker.thy ===== *)
theory Chunker
  imports Framing Node_Ids Sequence_Numbers
begin

text \<open>
  Messages to chunks and back: \<open>async-opcua-core/src/comms/chunker.rs\<close>, with \<open>MessageChunk::new\<close>.

  A message is what the \<open>Message\<close> trait promises of it: its type id, chunk type and request handle, the
  number of bytes it announces (\<open>byte_len\<close>) and the bytes it writes (\<open>encode\<close>); the announced number
  need not be right. \<open>ChunkingStream\<close> is the writer that cuts these bytes into chunks while they
  arrive, \<open>ReceiveStream\<close> the reader that runs over the bodies of the chunks of a message. The
  storage buffer of the stream is cleared at its start, so it begins empty. When a stream fails the
  chunks made so far are dropped by the callers, so errors do not carry them. \<open>None\<close> is a panic.
\<close>

definition BadSecureChannelIdInvalid :: StatusCode where "BadSecureChannelIdInvalid = 0x80220000"
definition BadRequestTooLarge :: StatusCode where "BadRequestTooLarge = 0x80B80000"
definition BadResponseTooLarge :: StatusCode where "BadResponseTooLarge = 0x80B90000"

section \<open>Writing\<close>

record OutMessage =
  om_type_id :: NodeId
  om_message_type :: MessageChunkType
  om_request_handle :: u32
  om_byte_len :: nat
  om_encode :: "bytes encoding_result"

record ChunkingStream =
  cks_storage :: bytes
  cks_out :: "MessageChunk list"
  cks_expected_chunk_count :: nat
  cks_chunks_emitted :: nat
  cks_max_body_per_chunk :: nat
  cks_header_size :: nat
  cks_current_body_target :: nat
  cks_body_written :: nat
  cks_chunk_started :: bool
  cks_is_closed :: bool
  cks_sequence_number :: SequenceNumberHandle
  cks_request_id :: u32
  cks_message_size :: nat
  cks_message_type :: MessageChunkType

definition div_ceil :: "nat \<Rightarrow> nat \<Rightarrow> nat" where
  "div_ceil a b = (a + b - 1) div b"

definition request_context :: "u32 \<Rightarrow> u32 option" where
  "request_context request_handle = (if 0 < request_handle then Some request_handle else None)"

definition ChunkingStream_new ::
    "Features \<Rightarrow> 'k Crypto \<Rightarrow> MessageChunkType \<Rightarrow> 'k SecureChannel \<Rightarrow> nat \<Rightarrow> nat \<Rightarrow> u32 \<Rightarrow> u32 \<Rightarrow> SequenceNumberHandle
     \<Rightarrow> MessageChunk list \<Rightarrow> ChunkingStream encoding_result option" where
  "ChunkingStream_new ft cr mt ch max_chunk_size msg_size rid request_handle sn out =
     try_bind
       (if 0 < max_chunk_size then
          map_option (map_sum (\<lambda>e. with_context e (Some rid) (request_context request_handle))
                              (\<lambda>max_body. (max (div_ceil msg_size max_body) 1, max_body)))
            (body_size_from_message_size ft cr mt ch max_chunk_size)
        else Some (Inr (1, 0))) (\<lambda>(expected, max_body).
       Option.bind (make_security_header ft mt ch) (\<lambda>sh.
         Some (Inr
           \<lparr>cks_storage = [], cks_out = out, cks_expected_chunk_count = expected, cks_chunks_emitted = 0,
            cks_max_body_per_chunk = max_body,
            cks_header_size = MESSAGE_CHUNK_HEADER_SIZE + byte_len_SecurityHeader sh
               + byte_len_SequenceHeader \<lparr>seq_sequence_number = 0, seq_request_id = 0\<rparr>,
            cks_current_body_target = 0, cks_body_written = 0, cks_chunk_started = False, cks_is_closed = False,
            cks_sequence_number = sn, cks_request_id = rid, cks_message_size = msg_size, cks_message_type = mt\<rparr>)))"

definition start_chunk ::
    "Features \<Rightarrow> 'k SecureChannel \<Rightarrow> ChunkingStream \<Rightarrow> ChunkingStream encoding_result option" where
  "start_chunk ft ch s =
     (let is_last = (cks_chunks_emitted s = cks_expected_chunk_count s - 1);
          target = (if cks_max_body_per_chunk s = 0 then cks_message_size s
                    else if is_last then cks_message_size s - cks_chunks_emitted s * cks_max_body_per_chunk s
                    else cks_max_body_per_chunk s);
          chunk_header =
            \<lparr>mch_message_type = cks_message_type s, mch_is_final = (if is_last then Final else Intermediate),
             mch_message_size = word_of_nat (cks_header_size s + target),
             mch_secure_channel_id = secure_channel_id ch\<rparr>;
          sequence_header =
            \<lparr>seq_sequence_number = sn_current (cks_sequence_number s), seq_request_id = cks_request_id s\<rparr>
      in Option.bind (make_security_header ft (cks_message_type s) ch) (\<lambda>security_header.
         try_bind (Some (wr_seq (encode_MessageChunkHeader chunk_header)
                        (wr_seq (encode_SecurityHeader security_header) (encode_SequenceHeader sequence_header)))) (\<lambda>hd_bytes.
           Some (Inr (s\<lparr>cks_storage := cks_storage s @ hd_bytes, cks_current_body_target := target, cks_body_written := 0,
                        cks_chunk_started := True, cks_sequence_number := sn_increment 1 (cks_sequence_number s)\<rparr>)))))"

text \<open>\<open>split_to\<close> panics when the storage is shorter than the chunk.\<close>

definition emit_chunk :: "ChunkingStream \<Rightarrow> ChunkingStream option" where
  "emit_chunk s =
     (let chunk_len = cks_header_size s + cks_current_body_target s
      in if length (cks_storage s) < chunk_len then None
         else Some (s\<lparr>cks_storage := drop chunk_len (cks_storage s),
                      cks_out := cks_out s @ [take chunk_len (cks_storage s)],
                      cks_chunks_emitted := cks_chunks_emitted s + 1, cks_chunk_started := False,
                      cks_is_closed := cks_is_closed s \<or> cks_chunks_emitted s + 1 = cks_expected_chunk_count s\<rparr>))"

definition ensure_chunk_started ::
    "Features \<Rightarrow> 'k SecureChannel \<Rightarrow> ChunkingStream \<Rightarrow> ChunkingStream encoding_result option" where
  "ensure_chunk_started ft ch s = (if \<not> cks_chunk_started s then start_chunk ft ch s else Some (Inr s))"

text \<open>An \<open>Error\<close> that passes through the \<open>Write\<close> interface is wrapped in an \<open>io::Error\<close>.\<close>

definition to_io :: "'a encoding_result option \<Rightarrow> (io_error + 'a) option" where
  "to_io r = map_option (map_sum (\<lambda>e. IoStatus (err_status e)) id) r"

text \<open>One \<open>write\<close>: the number of bytes taken, and the stream.\<close>

definition chunking_write ::
    "Features \<Rightarrow> 'k SecureChannel \<Rightarrow> bytes \<Rightarrow> ChunkingStream \<Rightarrow> (io_error + (nat \<times> ChunkingStream)) option" where
  "chunking_write ft ch buf s =
     (if cks_is_closed s then Some (Inr (0, s))
      else
        try_bind (to_io (ensure_chunk_started ft ch s)) (\<lambda>s.
          let to_read = min (length buf) (cks_current_body_target s - cks_body_written s);
              s1 = s\<lparr>cks_storage := cks_storage s @ take to_read buf, cks_body_written := cks_body_written s + to_read\<rparr>
          in if cks_body_written s1 = cks_current_body_target s1
             then Option.bind (emit_chunk s1) (\<lambda>s2. Some (Inr (to_read, s2)))
             else Some (Inr (to_read, s1))))"

text \<open>\<open>write_all\<close> of the standard library: writes until nothing is left, and fails when a write takes
  nothing.\<close>

function chunking_write_all ::
    "Features \<Rightarrow> 'k SecureChannel \<Rightarrow> bytes \<Rightarrow> ChunkingStream \<Rightarrow> (io_error + ChunkingStream) option" where
  "chunking_write_all ft ch buf s =
     (if buf = [] then Some (Inr s)
      else case chunking_write ft ch buf s of
             None \<Rightarrow> None
           | Some (Inl e) \<Rightarrow> Some (Inl e)
           | Some (Inr (n, s')) \<Rightarrow>
               if n = 0 then Some (Inl IoWriteZero) else chunking_write_all ft ch (drop n buf) s')"
  by pat_completeness auto

termination
  by (relation "measure (\<lambda>(ft, ch, buf, s). length buf)") auto

declare chunking_write_all.simps [simp del]

definition chunking_flush ::
    "Features \<Rightarrow> 'k SecureChannel \<Rightarrow> ChunkingStream \<Rightarrow> (io_error + ChunkingStream) option" where
  "chunking_flush ft ch s =
     (if cks_is_closed s then Some (Inr s)
      else
        try_bind (to_io (ensure_chunk_started ft ch s)) (\<lambda>s.
          if cks_body_written s < cks_current_body_target s then Some (Inl (IoStatus BadEncodingError))
          else Option.bind (emit_chunk s) (\<lambda>s'. Some (Inr s'))))"

definition chunking_finish :: "ChunkingStream \<Rightarrow> nat encoding_result" where
  "chunking_finish s = (if \<not> cks_is_closed s then Inl Error_encoding else Inr (cks_chunks_emitted s))"

text \<open>The encoders turn an error of the stream into an encoding error (\<open>process_encode_io_result\<close>);
  the \<open>?\<close> behind \<open>flush\<close> converts it by \<open>From<io::Error>\<close>, into a decoding error.\<close>

definition encode_io :: "(io_error + 'a) option \<Rightarrow> 'a encoding_result option" where
  "encode_io r = map_option (map_sum (\<lambda>_. Error_encoding) id) r"

definition from_io :: "(io_error + 'a) option \<Rightarrow> 'a encoding_result option" where
  "from_io r = map_option (map_sum (\<lambda>_. Error_decoding) id) r"

definition encode_into ::
    "Features \<Rightarrow> 'k Crypto \<Rightarrow> SequenceNumberHandle \<Rightarrow> u32 \<Rightarrow> nat \<Rightarrow> nat \<Rightarrow> 'k SecureChannel \<Rightarrow> OutMessage \<Rightarrow> MessageChunk list
     \<Rightarrow> (MessageChunk list \<times> nat) encoding_result option" where
  "encode_into ft cr sn rid max_msg_size max_chunk_size ch msg out =
     (let ctx_handle = request_context (om_request_handle msg);
          msg_size = om_byte_len msg
      in if security_policy ch = SP_Unknown then Some (Inl (Error_new BadSecurityPolicyRejected))
         else if 0 < max_msg_size \<and> max_msg_size < msg_size then
           Some (Inl (with_context (Error_new (if is_client_role ch then BadRequestTooLarge else BadResponseTooLarge))
             (Some rid) ctx_handle))
         else
           try_bind (ChunkingStream_new ft cr (om_message_type msg) ch max_chunk_size
                       (msg_size + byte_len_NodeId (om_type_id msg)) rid (om_request_handle msg) sn out) (\<lambda>s0.
           try_bind (Some (encode_NodeId (om_type_id msg))) (\<lambda>nid_bytes.
           try_bind (encode_io (chunking_write_all ft ch nid_bytes s0)) (\<lambda>s1.
           try_bind (map_option (map_sum (\<lambda>e. with_context e (Some rid) ctx_handle) id)
                       (try_bind (Some (om_encode msg)) (\<lambda>bs. encode_io (chunking_write_all ft ch bs s1)))) (\<lambda>s2.
           try_bind (from_io (chunking_flush ft ch s2)) (\<lambda>s3.
             Some (bind_result (chunking_finish s3) (\<lambda>n. Inr (cks_out s3, n)))))))))"

definition chunker_encode ::
    "Features \<Rightarrow> 'k Crypto \<Rightarrow> SequenceNumberHandle \<Rightarrow> u32 \<Rightarrow> nat \<Rightarrow> nat \<Rightarrow> 'k SecureChannel \<Rightarrow> OutMessage
     \<Rightarrow> MessageChunk list encoding_result option" where
  "chunker_encode ft cr sn rid max_msg_size max_chunk_size ch msg =
     map_option (map_sum id fst) (encode_into ft cr sn rid max_msg_size max_chunk_size ch msg [])"

definition MessageChunk_new ::
    "Features \<Rightarrow> u32 \<Rightarrow> u32 \<Rightarrow> MessageChunkType \<Rightarrow> MessageIsFinalType \<Rightarrow> 'k SecureChannel \<Rightarrow> bytes
     \<Rightarrow> MessageChunk encoding_result option" where
  "MessageChunk_new ft sequence_number rid mt is_final ch data =
     Option.bind (make_security_header ft mt ch) (\<lambda>sh.
       let q = \<lparr>seq_sequence_number = sequence_number, seq_request_id = rid\<rparr>;
           msg_size = MESSAGE_CHUNK_HEADER_SIZE + byte_len_SecurityHeader sh + byte_len_SequenceHeader q + length data;
           h = \<lparr>mch_message_type = mt, mch_is_final = is_final, mch_message_size = word_of_nat msg_size,
                mch_secure_channel_id = secure_channel_id ch\<rparr>
       in Some (wr_seq (encode_MessageChunkHeader h)
                 (wr_seq (encode_SecurityHeader sh) (wr_seq (encode_SequenceHeader q) (Inr data)))))"

section \<open>Reading\<close>

record ReceiveStream =
  rs_buffer :: bytes
  rs_items :: "MessageChunk list"
  rs_num_items :: nat
  rs_pos :: nat
  rs_index :: nat

text \<open>\<open>chunk_info\<close> caches its result in the chunk; the model computes it again.\<close>

definition chunk_info :: "Features \<Rightarrow> 'k SecureChannel \<Rightarrow> MessageChunk \<Rightarrow> ChunkInfo encoding_result" where
  "chunk_info ft ch c = ChunkInfo_new ft (decoding_options ch) (known_policy ch) c"

definition chunk_body :: "ChunkInfo \<Rightarrow> MessageChunk \<Rightarrow> bytes option" where
  "chunk_body info c =
     (if ci_body_offset info + ci_body_length info \<le> length c
      then Some (take (ci_body_length info) (drop (ci_body_offset info) c)) else None)"

definition ReceiveStream_new ::
    "Features \<Rightarrow> 'k SecureChannel \<Rightarrow> MessageChunk list \<Rightarrow> nat \<Rightarrow> ReceiveStream encoding_result" where
  "ReceiveStream_new ft ch items num_items =
     (case items of
        [] \<Rightarrow> Inl (Error_new BadUnexpectedError)
      | c # cs \<Rightarrow>
          bind_result (chunk_info ft ch c) (\<lambda>info.
            if mch_is_final (ci_message_header info) \<noteq> (if num_items = 1 then Final else Intermediate)
            then Inl (Error_new BadDecodingError)
            else case chunk_body info c of
                   None \<Rightarrow> Inl (Error_new BadDecodingError)
                 | Some body \<Rightarrow>
                     Inr \<lparr>rs_buffer = body, rs_items = cs, rs_num_items = num_items, rs_pos = 0, rs_index = 0\<rparr>))"

text \<open>One \<open>read\<close> into a buffer of \<open>n\<close> bytes: what is left of the current body, after moving on to the
  next chunk when nothing is.\<close>

definition receive_rest :: "nat \<Rightarrow> ReceiveStream \<Rightarrow> io_error + (bytes \<times> ReceiveStream)" where
  "receive_rest n s =
     (if length (rs_buffer s) < rs_pos s then Inl IoInvalidData
      else let bs = take n (drop (rs_pos s) (rs_buffer s)) in Inr (bs, s\<lparr>rs_pos := rs_pos s + length bs\<rparr>))"

definition receive_read ::
    "Features \<Rightarrow> 'k SecureChannel \<Rightarrow> nat \<Rightarrow> ReceiveStream \<Rightarrow> io_error + (bytes \<times> ReceiveStream)" where
  "receive_read ft ch n s =
     (if length (rs_buffer s) = rs_pos s then
        (case rs_items s of
           [] \<Rightarrow> Inr ([], s)
         | c # cs \<Rightarrow>
             let s1 = s\<lparr>rs_items := cs, rs_index := rs_index s + 1\<rparr>
             in case chunk_info ft ch c of
                  Inl e \<Rightarrow> Inl (IoStatus (err_status e))
                | Inr info \<Rightarrow>
                    if mch_is_final (ci_message_header info)
                         \<noteq> (if rs_index s1 = rs_num_items s1 - 1 then Final else Intermediate)
                    then Inl (IoStatus BadDecodingError)
                    else case chunk_body info c of
                           None \<Rightarrow> Inl IoInvalidData
                         | Some body \<Rightarrow> receive_rest n (s1\<lparr>rs_buffer := body, rs_pos := 0\<rparr>))
      else receive_rest n s)"

text \<open>\<open>read_exact\<close> of the standard library, over any \<open>read\<close>.\<close>

function read_exact ::
    "(nat \<Rightarrow> 's \<Rightarrow> io_error + (bytes \<times> 's)) \<Rightarrow> nat \<Rightarrow> 's \<Rightarrow> io_error + (bytes \<times> 's)" where
  "read_exact read n s =
     (if n = 0 then Inr ([], s)
      else case read n s of
             Inl e \<Rightarrow> Inl e
           | Inr (bs, s') \<Rightarrow>
               if bs = [] then Inl IoUnexpectedEof
               else map_sum id (map_prod ((@) bs) id) (read_exact read (n - length bs) s'))"
  by pat_completeness auto

termination
  by (relation "measure (\<lambda>(read, n, s). n)") auto

declare read_exact.simps [simp del]

text \<open>The bytes a stream still delivers: the rest of the current body and the bodies of the following
  chunks, up to the first empty one, where \<open>read\<close> returns 0 as at the end of the data.\<close>

fun bodies_until_empty :: "bytes list \<Rightarrow> bytes" where
  "bodies_until_empty [] = []"
| "bodies_until_empty (b # bs) = (if b = [] then [] else b @ bodies_until_empty bs)"

definition chunk_bodies :: "Features \<Rightarrow> 'k SecureChannel \<Rightarrow> MessageChunk list \<Rightarrow> bytes list" where
  "chunk_bodies ft ch cs =
     map (\<lambda>c. case chunk_info ft ch c of Inl _ \<Rightarrow> [] | Inr info \<Rightarrow> case chunk_body info c of None \<Rightarrow> [] | Some b \<Rightarrow> b) cs"

definition receive_remaining :: "Features \<Rightarrow> 'k SecureChannel \<Rightarrow> ReceiveStream \<Rightarrow> bytes" where
  "receive_remaining ft ch s =
     drop (rs_pos s) (rs_buffer s) @ bodies_until_empty (chunk_bodies ft ch (rs_items s))"

section \<open>Validating and decoding\<close>

text \<open>The check of the chunks' final flags, from index \<open>i\<close> of \<open>n\<close>.\<close>

fun check_final_flags :: "Features \<Rightarrow> 'k SecureChannel \<Rightarrow> nat \<Rightarrow> nat \<Rightarrow> MessageChunk list \<Rightarrow> unit encoding_result" where
  "check_final_flags ft ch i n [] = Inr ()"
| "check_final_flags ft ch i n (c # cs) =
     bind_result (chunk_info ft ch c) (\<lambda>info.
       if mch_is_final (ci_message_header info) \<noteq> (if i = n - 1 then Final else Intermediate)
       then Inl Error_decoding
       else check_final_flags ft ch (i + 1) n cs)"

definition object_id_from_node_id ::
    "(u32 \<Rightarrow> 'o option) \<Rightarrow> NodeId \<Rightarrow> NodeId option \<Rightarrow> 'o encoding_result" where
  "object_id_from_node_id object_id_of n expected =
     (if (case expected of Some i \<Rightarrow> n \<noteq> i | None \<Rightarrow> False) then Inl Error_decoding
      else case nid_identifier n of
             Id_Numeric v \<Rightarrow>
               if nid_namespace n = 0
               then (case object_id_of v of Some oid \<Rightarrow> Inr oid | None \<Rightarrow> Inl Error_decoding)
               else Inl Error_decoding
           | _ \<Rightarrow> Inl Error_decoding)"

text \<open>\<open>Chunker::decode\<close>: \<open>object_id_of\<close> is the generated \<open>ObjectId::try_from\<close>, \<open>dec\<close> the message's
  \<open>decode_by_object_id\<close>. Node id and payload are decoded from \<open>receive_remaining\<close>, which ends where the
  stream does: at the last chunk or at an empty body after the first. The decoders read with \<open>read_exact\<close>,
  which fails there as at the end of the bytes (\<open>receive.read_exact_front\<close>).\<close>

definition chunker_decode ::
    "Features \<Rightarrow> (u32 \<Rightarrow> 'o option) \<Rightarrow> ('o \<Rightarrow> 'm decoder) \<Rightarrow> MessageChunk list \<Rightarrow> 'k SecureChannel \<Rightarrow> NodeId option
     \<Rightarrow> 'm encoding_result" where
  "chunker_decode ft object_id_of dec chunks ch expected =
     bind_result (check_final_flags ft ch 0 (length chunks) chunks) (\<lambda>_.
     bind_result (ReceiveStream_new ft ch chunks (length chunks)) (\<lambda>stream.
     bind_result (decode_NodeId (decoding_options ch) (receive_remaining ft ch stream)) (\<lambda>(n, rest).
     bind_result (object_id_from_node_id object_id_of n expected) (\<lambda>oid.
     bind_result (dec oid rest) (\<lambda>(m, _). Inr m)))))"

fun validate_chunk_ids ::
    "Features \<Rightarrow> 'k SecureChannel \<Rightarrow> u32 option \<Rightarrow> MessageChunk list \<Rightarrow> unit encoding_result" where
  "validate_chunk_ids ft ch expected [] = Inr ()"
| "validate_chunk_ids ft ch expected (c # cs) =
     bind_result (chunk_info ft ch c) (\<lambda>info.
       if secure_channel_id ch \<noteq> 0 \<and> mch_secure_channel_id (ci_message_header info) \<noteq> secure_channel_id ch
       then Inl (Error_new BadSecureChannelIdInvalid)
       else
         case expected of
           None \<Rightarrow> validate_chunk_ids ft ch (Some (seq_request_id (ci_sequence_header info))) cs
         | Some rid \<Rightarrow>
             if seq_request_id (ci_sequence_header info) \<noteq> rid
             then Inl (Error_new BadSequenceNumberInvalid)
             else validate_chunk_ids ft ch expected cs)"

definition validate_chunks :: "Features \<Rightarrow> 'k SecureChannel \<Rightarrow> MessageChunk list \<Rightarrow> unit encoding_result" where
  "validate_chunks ft ch chunks =
     (case chunks of
        [] \<Rightarrow> Inl (Error_new BadUnexpectedError)
      | c # _ \<Rightarrow> bind_result (chunk_info ft ch c) (\<lambda>_. validate_chunk_ids ft ch None chunks))"

section \<open>The stream against a plan of chunks\<close>

text \<open>
  What the stream has to produce is known when it starts: chunk \<open>i\<close> has the next sequence number, is
  final when it is the last one, and carries the bytes from \<open>i * body_limit\<close> on. The lemmas
  relate the stream, byte for byte written, to this plan.
\<close>

definition body_limit :: "ChunkingStream \<Rightarrow> nat" where
  "body_limit s = (if cks_max_body_per_chunk s = 0 then cks_message_size s else cks_max_body_per_chunk s)"

definition body_target :: "ChunkingStream \<Rightarrow> nat \<Rightarrow> nat" where
  "body_target s i = min (body_limit s) (cks_message_size s - i * body_limit s)"

definition stream_header :: "'k SecureChannel \<Rightarrow> ChunkingStream \<Rightarrow> nat \<Rightarrow> MessageChunkHeader" where
  "stream_header ch s i =
     \<lparr>mch_message_type = cks_message_type s,
      mch_is_final = (if Suc i = cks_expected_chunk_count s then Final else Intermediate),
      mch_message_size = word_of_nat (cks_header_size s + body_target s i),
      mch_secure_channel_id = secure_channel_id ch\<rparr>"

definition stream_seq_header :: "ChunkingStream \<Rightarrow> nat \<Rightarrow> SequenceHeader" where
  "stream_seq_header s i =
     \<lparr>seq_sequence_number = sn_current ((sn_increment 1 ^^ i) (cks_sequence_number s)), seq_request_id = cks_request_id s\<rparr>"

definition stream_head :: "'k SecureChannel \<Rightarrow> bytes \<Rightarrow> ChunkingStream \<Rightarrow> nat \<Rightarrow> bytes" where
  "stream_head ch sb s i =
     header_bytes (stream_header ch s i) @ sb
     @ le_bytes 4 (unat (seq_sequence_number (stream_seq_header s i))) @ le_bytes 4 (unat (cks_request_id s))"

definition stream_chunk :: "'k SecureChannel \<Rightarrow> bytes \<Rightarrow> ChunkingStream \<Rightarrow> bytes \<Rightarrow> nat \<Rightarrow> MessageChunk" where
  "stream_chunk ch sb s w i = stream_head ch sb s i @ take (body_target s i) (drop (i * body_limit s) w)"

text \<open>A stream as \<open>ChunkingStream_new\<close> leaves it, for a message that is not empty.\<close>

definition fresh_stream :: "Features \<Rightarrow> 'k SecureChannel \<Rightarrow> bytes \<Rightarrow> ChunkingStream \<Rightarrow> bool" where
  "fresh_stream ft ch sb s \<longleftrightarrow>
     0 < cks_message_size s \<and> cks_expected_chunk_count s = div_ceil (cks_message_size s) (body_limit s)
     \<and> (\<exists>sh. make_security_header ft (cks_message_type s) ch = Some sh \<and> encode_SecurityHeader sh = Inr sb)
     \<and> cks_header_size s = 20 + length sb \<and> cks_storage s = [] \<and> cks_chunks_emitted s = 0
     \<and> \<not> cks_chunk_started s \<and> \<not> cks_is_closed s"

text \<open>The state \<open>s\<close> of the stream that began as \<open>s0\<close>, after the bytes \<open>w\<close>.\<close>

definition stream_inv :: "'k SecureChannel \<Rightarrow> bytes \<Rightarrow> ChunkingStream \<Rightarrow> bytes \<Rightarrow> ChunkingStream \<Rightarrow> bool" where
  "stream_inv ch sb s0 w s \<longleftrightarrow>
     (let e = cks_chunks_emitted s; N = cks_expected_chunk_count s0; B = body_limit s0 in
      e \<le> N \<and> length w \<le> cks_message_size s0 \<and> (cks_is_closed s \<longleftrightarrow> e = N)
      \<and> cks_out s = cks_out s0 @ map (stream_chunk ch sb s0 w) [0..<e]
      \<and> cks_expected_chunk_count s = N \<and> cks_max_body_per_chunk s = cks_max_body_per_chunk s0
      \<and> cks_header_size s = cks_header_size s0 \<and> cks_message_size s = cks_message_size s0
      \<and> cks_message_type s = cks_message_type s0 \<and> cks_request_id s = cks_request_id s0
      \<and> cks_sequence_number s = (sn_increment 1 ^^ (if cks_chunk_started s then Suc e else e)) (cks_sequence_number s0)
      \<and> (if cks_chunk_started s
         then e < N \<and> e * B \<le> length w \<and> length w < e * B + body_target s0 e
           \<and> cks_storage s = stream_head ch sb s0 e @ drop (e * B) w
           \<and> cks_current_body_target s = body_target s0 e \<and> cks_body_written s = length w - e * B
         else cks_storage s = [] \<and> length w = min (e * B) (cks_message_size s0)))"

lemma div_ceil_pos: "0 < m \<Longrightarrow> 0 < b \<Longrightarrow> 0 < div_ceil m b"
  by (simp add: div_ceil_def div_greater_zero_iff)

lemma div_ceil_le: "0 < b \<Longrightarrow> m \<le> div_ceil m b * b"
proof -
  assume b: "0 < b"
  have "(m + b - 1) mod b < b" using b by simp
  moreover have "(m + b - 1) div b * b + (m + b - 1) mod b = m + b - 1" by simp
  ultimately show ?thesis unfolding div_ceil_def by linarith
qed

lemma less_div_ceil: "0 < b \<Longrightarrow> i < div_ceil m b \<longleftrightarrow> i * b < m"
proof -
  assume b: "0 < b"
  have "i < div_ceil m b \<longleftrightarrow> Suc i * b \<le> m + b - 1"
    unfolding div_ceil_def using b by (metis Suc_le_eq less_eq_div_iff_mult_less_eq)
  also have "\<dots> \<longleftrightarrow> i * b < m" using b by auto
  finally show ?thesis .
qed

lemma fresh_limit: "fresh_stream ft ch sb s0 \<Longrightarrow> 0 < body_limit s0"
  by (auto simp: fresh_stream_def body_limit_def)

lemma fresh_count: "fresh_stream ft ch sb s0 \<Longrightarrow> i < cks_expected_chunk_count s0 \<longleftrightarrow> i * body_limit s0 < cks_message_size s0"
  using fresh_limit less_div_ceil by (metis fresh_stream_def)

lemma body_target_pos: "fresh_stream ft ch sb s0 \<Longrightarrow> i < cks_expected_chunk_count s0 \<Longrightarrow> 0 < body_target s0 i"
  using fresh_limit [of ft ch sb s0] fresh_count [of ft ch sb s0 i] by (simp add: body_target_def)

lemma length_stream_head: "fresh_stream ft ch sb s0 \<Longrightarrow> length (stream_head ch sb s0 i) = cks_header_size s0"
  by (simp add: stream_head_def fresh_stream_def)

lemma stream_inv_fresh: "fresh_stream ft ch sb s0 \<Longrightarrow> stream_inv ch sb s0 [] s0"
  using fresh_limit [of ft ch sb s0] div_ceil_pos [of "cks_message_size s0" "body_limit s0"]
  by (auto simp: stream_inv_def fresh_stream_def Let_def)

lemma stream_chunk_append:
  "Suc i * body_limit s0 \<le> length w \<or> length w = cks_message_size s0 \<Longrightarrow> stream_chunk ch sb s0 (w @ v) i = stream_chunk ch sb s0 w i"
  by (auto simp: stream_chunk_def body_target_def)

lemma stream_chunks_append:
  assumes "length w = min (e * body_limit s0) (cks_message_size s0) \<or> e * body_limit s0 \<le> length w"
  shows "map (stream_chunk ch sb s0 (w @ v)) [0..<e] = map (stream_chunk ch sb s0 w) [0..<e]"
proof (rule map_cong [OF refl])
  fix i assume "i \<in> set [0..<e]"
  then have "Suc i * body_limit s0 \<le> e * body_limit s0" by (intro mult_le_mono1) simp
  then show "stream_chunk ch sb s0 (w @ v) i = stream_chunk ch sb s0 w i"
    using assms by (intro stream_chunk_append) linarith
qed

lemma stream_invD:
  assumes "stream_inv ch sb s0 w s"
  shows "cks_expected_chunk_count s = cks_expected_chunk_count s0" "cks_max_body_per_chunk s = cks_max_body_per_chunk s0"
    "cks_header_size s = cks_header_size s0" "cks_message_size s = cks_message_size s0"
    "cks_message_type s = cks_message_type s0" "cks_request_id s = cks_request_id s0"
  using assms by (simp_all add: stream_inv_def Let_def)

text \<open>Starting a chunk writes its headers.\<close>

lemma start_chunk_inv:
  assumes f: "fresh_stream ft ch sb s0" and i: "stream_inv ch sb s0 w s"
    and c: "\<not> cks_is_closed s" "\<not> cks_chunk_started s"
  shows "\<exists>s'. start_chunk ft ch s = Some (Inr s') \<and> stream_inv ch sb s0 w s' \<and> cks_chunk_started s'"
proof -
  let ?e = "cks_chunks_emitted s" and ?N = "cks_expected_chunk_count s0" and ?B = "body_limit s0"
  obtain sh where sh: "make_security_header ft (cks_message_type s0) ch = Some sh" "encode_SecurityHeader sh = Inr sb"
    using f by (auto simp: fresh_stream_def)
  have e: "?e < ?N" "length w = ?e * ?B"
    using i c fresh_count [OF f, of ?e] by (auto simp: stream_inv_def Let_def)
  have last: "?e = ?N - 1 \<longleftrightarrow> Suc ?e = ?N" using e(1) by auto
  have more: "Suc ?e \<noteq> ?N \<longleftrightarrow> Suc ?e * ?B < cks_message_size s0"
    using e(1) fresh_count [OF f, of "Suc ?e"] by auto
  have t: "(if cks_max_body_per_chunk s0 = 0 then cks_message_size s0
        else if ?e = ?N - 1 then cks_message_size s0 - ?e * cks_max_body_per_chunk s0 else cks_max_body_per_chunk s0)
      = body_target s0 ?e"
  proof (cases "cks_max_body_per_chunk s0 = 0")
    case True
    then have "?e = 0" using e(1) f fresh_count [OF f, of ?e] by (auto simp: body_limit_def)
    then show ?thesis using True by (simp add: body_target_def body_limit_def)
  next
    case False
    then show ?thesis using more last by (auto simp: body_target_def body_limit_def)
  qed
  have pos: "0 < body_target s0 ?e" using body_target_pos [OF f e(1)] .
  note const = stream_invD [OF i]
  have "start_chunk ft ch s = Some (Inr (s\<lparr>cks_storage := cks_storage s @ stream_head ch sb s0 ?e,
      cks_current_body_target := body_target s0 ?e, cks_body_written := 0, cks_chunk_started := True,
      cks_sequence_number := sn_increment 1 (cks_sequence_number s)\<rparr>))"
    unfolding start_chunk_def Let_def const t unfolding last using sh i c(2)
    by (simp add: encode_SequenceHeader_def stream_head_def stream_header_def stream_seq_header_def stream_inv_def Let_def)
  then show ?thesis
    using i c e pos by (simp add: stream_inv_def Let_def)
qed

text \<open>A full chunk is emitted as planned.\<close>

lemma emit_chunk_inv:
  assumes f: "fresh_stream ft ch sb s0" and e: "e = cks_chunks_emitted s" "e < cks_expected_chunk_count s0"
    and w: "length w = e * body_limit s0 + body_target s0 e"
    and i: "cks_out s = cks_out s0 @ map (stream_chunk ch sb s0 w) [0..<e]"
      "cks_storage s = stream_head ch sb s0 e @ drop (e * body_limit s0) w" "\<not> cks_is_closed s"
      "cks_current_body_target s = body_target s0 e"
      "cks_expected_chunk_count s = cks_expected_chunk_count s0" "cks_max_body_per_chunk s = cks_max_body_per_chunk s0"
      "cks_header_size s = cks_header_size s0" "cks_message_size s = cks_message_size s0"
      "cks_message_type s = cks_message_type s0" "cks_request_id s = cks_request_id s0"
      "cks_sequence_number s = (sn_increment 1 ^^ Suc e) (cks_sequence_number s0)"
  shows "\<exists>s'. emit_chunk s = Some s' \<and> stream_inv ch sb s0 w s'"
proof -
  have "e * body_limit s0 < cks_message_size s0" using fresh_count [OF f] e(2) by simp
  then have m: "e * body_limit s0 + body_target s0 e = min (Suc e * body_limit s0) (cks_message_size s0)"
    by (auto simp: body_target_def)
  have "stream_chunk ch sb s0 w e = stream_head ch sb s0 e @ drop (e * body_limit s0) w"
    using w by (simp add: stream_chunk_def)
  then show ?thesis
    using e w i m length_stream_head [OF f, of e] by (auto simp: emit_chunk_def Let_def stream_inv_def)
qed

text \<open>One write takes at least one byte of a non-empty buffer, unless the stream is closed.\<close>

lemma chunking_write_inv:
  assumes f: "fresh_stream ft ch sb s0" and i: "stream_inv ch sb s0 w s"
    and c: "\<not> cks_is_closed s" and b: "buf \<noteq> []"
  shows "\<exists>n s'. chunking_write ft ch buf s = Some (Inr (n, s')) \<and> 0 < n \<and> n \<le> length buf
     \<and> stream_inv ch sb s0 (w @ take n buf) s'"
proof -
  obtain s1 where s1: "ensure_chunk_started ft ch s = Some (Inr s1)" "stream_inv ch sb s0 w s1" "cks_chunk_started s1"
    using start_chunk_inv [OF f i c] i by (cases "cks_chunk_started s") (auto simp: ensure_chunk_started_def)
  let ?e = "cks_chunks_emitted s1" and ?B = "body_limit s0"
  let ?T = "body_target s0 ?e"
  have e: "?e < cks_expected_chunk_count s0" "?e * ?B \<le> length w" "length w < ?e * ?B + ?T" "\<not> cks_is_closed s1"
    and st: "cks_storage s1 = stream_head ch sb s0 ?e @ drop (?e * ?B) w"
      "cks_current_body_target s1 = ?T" "cks_body_written s1 = length w - ?e * ?B"
    using s1(2,3) by (auto simp: stream_inv_def Let_def)
  define n where "n = min (length buf) (?T - (length w - ?e * ?B))"
  let ?w = "w @ take n buf"
  let ?s2 = "s1\<lparr>cks_storage := cks_storage s1 @ take n buf, cks_body_written := cks_body_written s1 + n\<rparr>"
  have n: "0 < n" "n \<le> length buf" using e b by (auto simp: n_def)
  have M: "?e * ?B + ?T \<le> cks_message_size s0"
    using fresh_count [OF f, of ?e] e(1) by (auto simp: body_target_def)
  have w: "length ?w = length w + n" "length ?w \<le> ?e * ?B + ?T" "?e * ?B \<le> length ?w" using e by (auto simp: n_def)
  have out: "cks_out s1 = cks_out s0 @ map (stream_chunk ch sb s0 ?w) [0..<?e]"
    using s1(2) e(2) stream_chunks_append [of w ?e s0 ch sb "take n buf"] by (simp add: stream_inv_def Let_def)
  have st2: "cks_storage ?s2 = stream_head ch sb s0 ?e @ drop (?e * ?B) ?w" using st(1) e(2) by simp
  have wr: "chunking_write ft ch buf s =
      (if length w - ?e * ?B + n = ?T then Option.bind (emit_chunk ?s2) (\<lambda>s3. Some (Inr (n, s3))) else Some (Inr (n, ?s2)))"
    using c s1(1) st by (simp add: chunking_write_def to_io_def Let_def n_def)
  have sq: "cks_sequence_number s1 = (sn_increment 1 ^^ Suc ?e) (cks_sequence_number s0)"
    using s1(2,3) by (simp add: stream_inv_def Let_def)
  show ?thesis
  proof (cases "length w - ?e * ?B + n = ?T")
    case True
    have "\<exists>s3. emit_chunk ?s2 = Some s3 \<and> stream_inv ch sb s0 ?w s3"
      by (rule emit_chunk_inv [OF f, of ?e])
        (use e w True out st st2 sq stream_invD [OF s1(2)] in auto)
    then show ?thesis using wr True n by auto
  next
    case False
    have "stream_inv ch sb s0 ?w ?s2"
      using s1(2,3) e w M out st2 st(2,3) False n unfolding stream_inv_def Let_def by simp
    then show ?thesis using wr False n by auto
  qed
qed

lemma stream_closed_iff:
  assumes f: "fresh_stream ft ch sb s0" and i: "stream_inv ch sb s0 w s"
  shows "cks_is_closed s \<longleftrightarrow> length w = cks_message_size s0"
proof -
  let ?e = "cks_chunks_emitted s"
  have "?e < cks_expected_chunk_count s0 \<longleftrightarrow> ?e * body_limit s0 < cks_message_size s0" using fresh_count [OF f] .
  then show ?thesis
    using i by (auto simp: stream_inv_def Let_def body_target_def split: if_splits)
qed

text \<open>Writing everything: the stream takes exactly the announced number of bytes.\<close>

lemma chunking_write_all_inv:
  assumes f: "fresh_stream ft ch sb s0" and "stream_inv ch sb s0 w s"
  shows "if length w + length buf \<le> cks_message_size s0
         then \<exists>s'. chunking_write_all ft ch buf s = Some (Inr s') \<and> stream_inv ch sb s0 (w @ buf) s'
         else chunking_write_all ft ch buf s = Some (Inl IoWriteZero)"
  using assms(2)
proof (induction buf arbitrary: w s rule: length_induct)
  case (1 buf)
  show ?case
  proof (cases "buf = []")
    case True
    then show ?thesis using 1(2) by (simp add: chunking_write_all.simps stream_inv_def Let_def)
  next
    case b: False
    show ?thesis
    proof (cases "cks_is_closed s")
      case True
      then have "length w = cks_message_size s0" using stream_closed_iff [OF f 1(2)] by simp
      then show ?thesis using b True by (subst chunking_write_all.simps) (simp add: chunking_write_def)
    next
      case False
      obtain n s' where n: "chunking_write ft ch buf s = Some (Inr (n, s'))" "0 < n" "n \<le> length buf"
          "stream_inv ch sb s0 (w @ take n buf) s'"
        using chunking_write_inv [OF f 1(2) False b] by blast
      have "length (drop n buf) < length buf" using n b by simp
      then have "if length (w @ take n buf) + length (drop n buf) \<le> cks_message_size s0
          then \<exists>s''. chunking_write_all ft ch (drop n buf) s' = Some (Inr s'')
                 \<and> stream_inv ch sb s0 ((w @ take n buf) @ drop n buf) s''
          else chunking_write_all ft ch (drop n buf) s' = Some (Inl IoWriteZero)"
        using 1(1) n(4) by blast
      then show ?thesis using n(1-3) b by (subst (1 2) chunking_write_all.simps) (auto split: if_splits)
    qed
  qed
qed

lemma chunking_flush_inv:
  assumes f: "fresh_stream ft ch sb s0" and i: "stream_inv ch sb s0 w s"
  shows "chunking_flush ft ch s =
     Some (if length w = cks_message_size s0 then Inr s else Inl (IoStatus BadEncodingError))"
proof (cases "cks_is_closed s")
  case True
  then show ?thesis using stream_closed_iff [OF f i] by (simp add: chunking_flush_def)
next
  case False
  obtain s1 where s1: "ensure_chunk_started ft ch s = Some (Inr s1)" "stream_inv ch sb s0 w s1" "cks_chunk_started s1"
    using start_chunk_inv [OF f i False] i by (cases "cks_chunk_started s") (auto simp: ensure_chunk_started_def)
  then have "cks_body_written s1 < cks_current_body_target s1" by (auto simp: stream_inv_def Let_def)
  then show ?thesis
    using False s1(1) stream_closed_iff [OF f i] by (simp add: chunking_flush_def to_io_def)
qed

lemma stream_inv_complete:
  assumes f: "fresh_stream ft ch sb s0" and i: "stream_inv ch sb s0 w s" and w: "length w = cks_message_size s0"
  shows "cks_out s = cks_out s0 @ map (stream_chunk ch sb s0 w) [0..<cks_expected_chunk_count s0]"
    "chunking_finish s = Inr (cks_expected_chunk_count s0)"
  using i stream_closed_iff [OF f i] w by (auto simp: stream_inv_def Let_def chunking_finish_def)

section \<open>Chunks of a message\<close>

text \<open>The stream for a message of \<open>n\<close> bytes, and the chunks it is planned to produce for the bytes \<open>w\<close>.\<close>

definition plan_stream ::
    "bytes \<Rightarrow> MessageChunkType \<Rightarrow> nat \<Rightarrow> nat \<Rightarrow> u32 \<Rightarrow> SequenceNumberHandle \<Rightarrow> MessageChunk list \<Rightarrow> ChunkingStream" where
  "plan_stream sb mt max_body n rid sn out =
     \<lparr>cks_storage = [], cks_out = out, cks_expected_chunk_count = (if max_body = 0 then 1 else max (div_ceil n max_body) 1),
      cks_chunks_emitted = 0, cks_max_body_per_chunk = max_body, cks_header_size = 20 + length sb,
      cks_current_body_target = 0, cks_body_written = 0, cks_chunk_started = False, cks_is_closed = False,
      cks_sequence_number = sn, cks_request_id = rid, cks_message_size = n, cks_message_type = mt\<rparr>"

definition planned_chunks ::
    "'k SecureChannel \<Rightarrow> bytes \<Rightarrow> MessageChunkType \<Rightarrow> nat \<Rightarrow> u32 \<Rightarrow> SequenceNumberHandle \<Rightarrow> bytes \<Rightarrow> MessageChunk list" where
  "planned_chunks ch sb mt max_body rid sn w =
     (let s0 = plan_stream sb mt max_body (length w) rid sn []
      in map (stream_chunk ch sb s0 w) [0..<cks_expected_chunk_count s0])"

text \<open>The body size the chunk size leaves: 0 stands for no limit.\<close>

definition chunk_body_limit :: "Features \<Rightarrow> 'k Crypto \<Rightarrow> MessageChunkType \<Rightarrow> 'k SecureChannel \<Rightarrow> nat \<Rightarrow> nat \<Rightarrow> bool" where
  "chunk_body_limit ft cr mt ch max_chunk_size max_body \<longleftrightarrow>
     (if max_chunk_size = 0 then max_body = 0
      else body_size_from_message_size ft cr mt ch max_chunk_size = Some (Inr max_body))"

lemma body_size_pos: "body_size_from_message_size ft cr mt ch m = Some (Inr b) \<Longrightarrow> 0 < b"
  by (auto simp: body_size_from_message_size_def Let_def try_bind_eq_Inr bind_eq_Some_conv split: if_splits)

lemma plan_stream_fresh:
  assumes "0 < n" "make_security_header ft mt ch = Some sh" "encode_SecurityHeader sh = Inr sb"
  shows "fresh_stream ft ch sb (plan_stream sb mt max_body n rid sn out)"
proof -
  have "div_ceil n n = 1" using assms(1) by (simp add: div_ceil_def div_nat_eqI)
  moreover have "0 < max_body \<Longrightarrow> 0 < div_ceil n max_body" using assms(1) by (rule div_ceil_pos)
  ultimately show ?thesis
    using assms by (auto simp: fresh_stream_def plan_stream_def body_limit_def max_def)
qed

lemma ChunkingStream_new_plan:
  assumes "chunk_body_limit ft cr mt ch max_chunk_size max_body"
    and "make_security_header ft mt ch = Some sh" "byte_len_SecurityHeader sh = length sb"
  shows "ChunkingStream_new ft cr mt ch max_chunk_size n rid rh sn out = Some (Inr (plan_stream sb mt max_body n rid sn out))"
  using assms body_size_pos [of ft cr mt ch max_chunk_size max_body]
  by (auto simp: ChunkingStream_new_def plan_stream_def chunk_body_limit_def byte_len_SequenceHeader_def
      MESSAGE_CHUNK_HEADER_SIZE_def split: if_splits)

lemma stream_chunk_plan:
  "stream_chunk ch sb (plan_stream sb mt max_body n rid sn out) = stream_chunk ch sb (plan_stream sb mt max_body n rid sn [])"
  by (simp add: fun_eq_iff stream_chunk_def stream_head_def stream_header_def stream_seq_header_def body_target_def
      body_limit_def plan_stream_def)

text \<open>What the sender needs: a known policy, a security header that can be encoded, room in the chunk, a
  type id that can be encoded, and a message within the size limit.\<close>

definition can_send ::
    "Features \<Rightarrow> 'k Crypto \<Rightarrow> nat \<Rightarrow> nat \<Rightarrow> 'k SecureChannel \<Rightarrow> OutMessage \<Rightarrow> nat \<Rightarrow> bytes \<Rightarrow> bytes \<Rightarrow> bool" where
  "can_send ft cr max_msg_size max_chunk_size ch msg max_body sb nb \<longleftrightarrow>
     security_policy ch \<noteq> SP_Unknown \<and> \<not> (0 < max_msg_size \<and> max_msg_size < om_byte_len msg)
     \<and> chunk_body_limit ft cr (om_message_type msg) ch max_chunk_size max_body
     \<and> (\<exists>sh. make_security_header ft (om_message_type msg) ch = Some sh \<and> encode_SecurityHeader sh = Inr sb
            \<and> byte_len_SecurityHeader sh = length sb)
     \<and> encode_NodeId (om_type_id msg) = Inr nb \<and> length nb = byte_len_NodeId (om_type_id msg)"

lemma byte_len_NodeId_pos: "0 < byte_len_NodeId n"
  by (simp add: byte_len_NodeId_def split: Identifier.split)

text \<open>The whole of \<open>encode_into\<close>, for a message that announces the right length and for one that does not.\<close>

lemma encode_into_result:
  assumes c: "can_send ft cr max_msg_size max_chunk_size ch msg max_body sb nb" and b: "om_encode msg = Inr bs"
  shows "encode_into ft cr sn rid max_msg_size max_chunk_size ch msg out =
    Some (if length bs < om_byte_len msg then Inl Error_decoding
          else if om_byte_len msg < length bs
          then Inl (with_context Error_encoding (Some rid) (request_context (om_request_handle msg)))
          else let cs = planned_chunks ch sb (om_message_type msg) max_body rid sn (nb @ bs) in Inr (out @ cs, length cs))"
proof -
  let ?n = "om_byte_len msg + byte_len_NodeId (om_type_id msg)"
  let ?s0 = "plan_stream sb (om_message_type msg) max_body ?n rid sn out"
  obtain sh where sh: "make_security_header ft (om_message_type msg) ch = Some sh" "encode_SecurityHeader sh = Inr sb"
      "byte_len_SecurityHeader sh = length sb"
    using c by (auto simp: can_send_def)
  have nb: "encode_NodeId (om_type_id msg) = Inr nb" "length nb = byte_len_NodeId (om_type_id msg)"
    using c by (auto simp: can_send_def)
  have new: "ChunkingStream_new ft cr (om_message_type msg) ch max_chunk_size ?n rid (om_request_handle msg) sn out
      = Some (Inr ?s0)"
    using c sh ChunkingStream_new_plan by (metis can_send_def)
  have f: "fresh_stream ft ch sb ?s0"
    using sh byte_len_NodeId_pos by (intro plan_stream_fresh) simp_all
  have n: "cks_message_size ?s0 = ?n" "cks_out ?s0 = out" by (simp_all add: plan_stream_def)
  obtain s1 where s1: "chunking_write_all ft ch nb ?s0 = Some (Inr s1)" "stream_inv ch sb ?s0 nb s1"
    using chunking_write_all_inv [OF f stream_inv_fresh [OF f], of nb] n nb(2) by auto
  note w = chunking_write_all_inv [OF f s1(2), of bs]
  have start: "encode_into ft cr sn rid max_msg_size max_chunk_size ch msg out =
      try_bind (map_option (map_sum (\<lambda>e. with_context e (Some rid) (request_context (om_request_handle msg))) id)
        (encode_io (chunking_write_all ft ch bs s1))) (\<lambda>s2.
      try_bind (from_io (chunking_flush ft ch s2)) (\<lambda>s3. Some (bind_result (chunking_finish s3) (\<lambda>n. Inr (cks_out s3, n)))))"
    using c nb(1) new s1(1) b by (auto simp: encode_into_def can_send_def Let_def encode_io_def)
  show ?thesis
  proof (cases "om_byte_len msg < length bs")
    case True
    then have "chunking_write_all ft ch bs s1 = Some (Inl IoWriteZero)" using w n nb(2) by simp
    then show ?thesis using start True by (simp add: encode_io_def)
  next
    case False
    then obtain s2 where s2: "chunking_write_all ft ch bs s1 = Some (Inr s2)" "stream_inv ch sb ?s0 (nb @ bs) s2"
      using w n nb(2) by auto
    have fl: "chunking_flush ft ch s2 = Some (if length bs = om_byte_len msg then Inr s2 else Inl (IoStatus BadEncodingError))"
      using chunking_flush_inv [OF f s2(2)] n nb(2) by simp
    have fin: "chunking_finish s2 = Inr (cks_expected_chunk_count ?s0)"
        "cks_out s2 = out @ map (stream_chunk ch sb ?s0 (nb @ bs)) [0..<cks_expected_chunk_count ?s0]"
      if "length bs = om_byte_len msg"
      using stream_inv_complete [OF f s2(2)] n nb(2) that by simp_all
    have plan: "planned_chunks ch sb (om_message_type msg) max_body rid sn (nb @ bs)
        = map (stream_chunk ch sb ?s0 (nb @ bs)) [0..<cks_expected_chunk_count ?s0]" if "length bs = om_byte_len msg"
    proof -
      have "length (nb @ bs) = ?n" using nb(2) that by simp
      moreover have "cks_expected_chunk_count (plan_stream sb mt max_body m rid sn out)
          = cks_expected_chunk_count (plan_stream sb mt max_body m rid sn [])" for mt m
        by (simp add: plan_stream_def)
      ultimately show ?thesis
        using stream_chunk_plan [of ch sb "om_message_type msg" max_body ?n rid sn out]
        by (simp only: planned_chunks_def Let_def)
    qed
    show ?thesis
      using start s2(1) fl fin plan False
      by (cases "length bs = om_byte_len msg") (auto simp: encode_io_def from_io_def Let_def)
  qed
qed

section \<open>Reading the chunks back\<close>

definition planned_body :: "ChunkingStream \<Rightarrow> bytes \<Rightarrow> nat \<Rightarrow> bytes" where
  "planned_body s0 w i = take (body_target s0 i) (drop (i * body_limit s0) w)"

lemma stream_chunk_info:
  assumes "fresh_stream ft ch sb s0" "encode_SecurityHeader sh = Inr sb"
    and "SecurityHeader_ok ft (is_open_secure_channel_type (cks_message_type s0)) (decoding_options rch) (known_policy rch) sh"
  shows "\<exists>info. chunk_info ft rch (stream_chunk ch sb s0 w i) = Inr info \<and> ci_message_header info = stream_header ch s0 i
     \<and> ci_sequence_header info = stream_seq_header s0 i
     \<and> chunk_body info (stream_chunk ch sb s0 w i) = Some (planned_body s0 w i)"
proof -
  let ?qb = "le_bytes 4 (unat (seq_sequence_number (stream_seq_header s0 i))) @ le_bytes 4 (unat (cks_request_id s0))"
  have q: "encode_SequenceHeader (stream_seq_header s0 i) = Inr ?qb"
    by (simp add: encode_SequenceHeader_def stream_seq_header_def)
  have ok: "SecurityHeader_ok ft (is_open_secure_channel_type (mch_message_type (stream_header ch s0 i)))
      (decoding_options rch) (known_policy rch) sh"
    using assms(3) by (simp add: stream_header_def)
  have c: "stream_chunk ch sb s0 w i = header_bytes (stream_header ch s0 i) @ sb @ ?qb @ planned_body s0 w i"
    by (simp add: stream_chunk_def stream_head_def planned_body_def)
  have l: "length sb = byte_len_SecurityHeader sh"
    using fmt_SecurityHeader.enc_length [OF assms(3,2)] .
  show ?thesis
    unfolding chunk_info_def c ChunkInfo_new_layout [OF header_bytes_simps(2) assms(2) q ok, of "planned_body s0 w i"]
    by (simp add: chunk_body_def l MESSAGE_CHUNK_HEADER_SIZE_def)
qed

lemma planned_body_take:
  assumes "length w = cks_message_size s0"
  shows "planned_body s0 w i = take (body_limit s0) (drop (i * body_limit s0) w)"
proof -
  have "body_target s0 i = min (body_limit s0) (length (drop (i * body_limit s0) w))"
    using assms by (simp add: body_target_def)
  then show ?thesis by (simp add: planned_body_def min_def)
qed

text \<open>The planned bodies are the message.\<close>

lemma planned_bodies:
  assumes f: "fresh_stream ft ch sb s0" and w: "length w = cks_message_size s0" and i: "i \<le> cks_expected_chunk_count s0"
  shows "bodies_until_empty (map (planned_body s0 w) [i..<cks_expected_chunk_count s0]) = drop (i * body_limit s0) w"
  using i
proof (induction rule: inc_induct)
  case base
  then show ?case
    using w fresh_count [OF f, of "cks_expected_chunk_count s0"] by simp
next
  case (step i)
  have "planned_body s0 w i \<noteq> []"
    using body_target_pos [OF f step(2)] fresh_count [OF f, of i] step(2) w by (simp add: planned_body_def)
  moreover note planned_body_take [OF w, of i]
  ultimately show ?case
    using step by (simp add: upt_conv_Cons) (metis append_take_drop_id drop_drop)
qed

lemma check_final_flags_map:
  assumes "\<And>j. i \<le> j \<Longrightarrow> j < n \<Longrightarrow> \<exists>info. chunk_info ft rch (c j) = Inr info
      \<and> mch_is_final (ci_message_header info) = (if j = n - 1 then Final else Intermediate)"
    and "i \<le> n"
  shows "check_final_flags ft rch i n (map c [i..<n]) = Inr ()"
  using assms(2,1)
proof (induction rule: inc_induct)
  case base
  then show ?case by simp
next
  case (step i)
  moreover obtain info where "chunk_info ft rch (c i) = Inr info"
      "mch_is_final (ci_message_header info) = (if i = n - 1 then Final else Intermediate)"
    using step by blast
  ultimately show ?case by (auto simp: upt_conv_Cons)
qed

lemma validate_chunk_ids_ok:
  assumes "\<And>c. c \<in> set cs \<Longrightarrow> \<exists>info. chunk_info ft rch c = Inr info
      \<and> (secure_channel_id rch = 0 \<or> mch_secure_channel_id (ci_message_header info) = secure_channel_id rch)
      \<and> seq_request_id (ci_sequence_header info) = rid"
    and "expected \<in> {None, Some rid}"
  shows "validate_chunk_ids ft rch expected cs = Inr ()"
  using assms
proof (induction cs arbitrary: expected)
  case Nil
  then show ?case by simp
next
  case (Cons c cs)
  obtain info where "chunk_info ft rch c = Inr info"
      "secure_channel_id rch = 0 \<or> mch_secure_channel_id (ci_message_header info) = secure_channel_id rch"
      "seq_request_id (ci_sequence_header info) = rid"
    using Cons.prems(1) by force
  then show ?case using Cons by (auto split: option.split)
qed

lemma planned_chunks_received:
  assumes f: "fresh_stream ft ch sb s0" and w: "length w = cks_message_size s0"
    and sb: "encode_SecurityHeader sh = Inr sb"
    and ok: "SecurityHeader_ok ft (is_open_secure_channel_type (cks_message_type s0)) (decoding_options rch) (known_policy rch) sh"
    and cs: "cs = map (stream_chunk ch sb s0 w) [0..<cks_expected_chunk_count s0]"
  shows "check_final_flags ft rch 0 (length cs) cs = Inr ()"
    and "\<exists>st. ReceiveStream_new ft rch cs (length cs) = Inr st \<and> receive_remaining ft rch st = w"
    and "secure_channel_id rch \<in> {0, secure_channel_id ch} \<Longrightarrow> validate_chunks ft rch cs = Inr ()"
proof -
  let ?N = "cks_expected_chunk_count s0"
  note info = stream_chunk_info [OF f sb ok, of w]
  have N: "0 < ?N" using f fresh_count [OF f, of 0] by (simp add: fresh_stream_def)
  have fin: "mch_is_final (stream_header ch s0 j) = (if j = ?N - 1 then Final else Intermediate)" if "j < ?N" for j
    using that N by (auto simp: stream_header_def)
  show "check_final_flags ft rch 0 (length cs) cs = Inr ()"
    unfolding cs length_map length_upt diff_zero using info fin by (intro check_final_flags_map) fastforce+
  have bodies: "chunk_bodies ft rch (map (stream_chunk ch sb s0 w) js) = map (planned_body s0 w) js" for js
  proof -
    have "(case chunk_info ft rch (stream_chunk ch sb s0 w j) of Inl _ \<Rightarrow> []
        | Inr info \<Rightarrow> case chunk_body info (stream_chunk ch sb s0 w j) of None \<Rightarrow> [] | Some b \<Rightarrow> b) = planned_body s0 w j" for j
      using info [of j] by auto
    then show ?thesis by (simp add: chunk_bodies_def)
  qed
  have upt: "[0..<?N] = 0 # [1..<?N]" using N by (simp add: upt_conv_Cons)
  obtain i0 where i0: "chunk_info ft rch (stream_chunk ch sb s0 w 0) = Inr i0" "ci_message_header i0 = stream_header ch s0 0"
      "chunk_body i0 (stream_chunk ch sb s0 w 0) = Some (planned_body s0 w 0)"
    using info [of 0] by blast
  have "planned_body s0 w 0 @ drop (body_limit s0) w = w"
    using planned_body_take [OF w, of 0] by simp
  then show "\<exists>st. ReceiveStream_new ft rch cs (length cs) = Inr st \<and> receive_remaining ft rch st = w"
    using i0 N fin [of 0] planned_bodies [OF f w, of 1]
    by (auto simp: cs upt ReceiveStream_new_def receive_remaining_def bodies simp del: upt_rec_numeral)
  assume "secure_channel_id rch \<in> {0, secure_channel_id ch}"
  then have "validate_chunk_ids ft rch None cs = Inr ()"
    using info by (intro validate_chunk_ids_ok [where rid = "cks_request_id s0"])
      (fastforce simp: cs stream_header_def stream_seq_header_def)+
  then show "validate_chunks ft rch cs = Inr ()"
    using i0(1) by (simp add: validate_chunks_def cs upt)
qed

section \<open>The receive stream is a contiguous stream\<close>

text \<open>
  A source of bytes, as the decoders see it through \<open>Read\<close>: \<open>read\<close> may return fewer bytes than asked
  for, but at least one while any are left. Decoders only call \<open>read_exact\<close> on it.
\<close>

fun read_many :: "(nat \<Rightarrow> 's \<Rightarrow> io_error + (bytes \<times> 's)) \<Rightarrow> nat list \<Rightarrow> 's \<Rightarrow> io_error + bytes list" where
  "read_many read [] s = Inr []"
| "read_many read (n # ns) s =
     bind_result (read_exact read n s) (\<lambda>(bs, s'). bind_result (read_many read ns s') (\<lambda>bss. Inr (bs # bss)))"

definition slice_read :: "nat \<Rightarrow> bytes \<Rightarrow> io_error + (bytes \<times> bytes)" where
  "slice_read n s = Inr (take n s, drop n s)"

locale byte_source =
  fixes read :: "nat \<Rightarrow> 's \<Rightarrow> io_error + (bytes \<times> 's)"
    and remaining :: "'s \<Rightarrow> bytes"
    and inv :: "'s \<Rightarrow> bool"
  assumes read_some: "inv s \<Longrightarrow> 0 < n \<Longrightarrow> remaining s \<noteq> [] \<Longrightarrow>
      \<exists>bs s'. read n s = Inr (bs, s') \<and> bs \<noteq> [] \<and> length bs \<le> n \<and> remaining s = bs @ remaining s' \<and> inv s'"
    and read_end: "inv s \<Longrightarrow> 0 < n \<Longrightarrow> remaining s = [] \<Longrightarrow> \<exists>s'. read n s = Inr ([], s')"
begin

lemma read_exact_front:
  assumes "inv s"
  shows "if n \<le> length (remaining s)
         then \<exists>s'. read_exact read n s = Inr (take n (remaining s), s') \<and> remaining s' = drop n (remaining s) \<and> inv s'
         else read_exact read n s = Inl IoUnexpectedEof"
  using assms
proof (induction n arbitrary: s rule: less_induct)
  case (less n)
  show ?case
  proof (cases "n = 0")
    case True
    then show ?thesis using less.prems by (simp add: read_exact.simps)
  next
    case n: False
    show ?thesis
    proof (cases "remaining s = []")
      case True
      then show ?thesis
        using n read_end [OF less.prems, of n] by (subst (1 2) read_exact.simps) auto
    next
      case False
      obtain bs s' where r: "read n s = Inr (bs, s')" "bs \<noteq> []" "length bs \<le> n" "remaining s = bs @ remaining s'" "inv s'"
        using read_some [OF less.prems _ False, of n] n by auto
      have "n - length bs < n" using r n by (cases bs) auto
      note IH = less.IH [OF this r(5)]
      show ?thesis
        using IH r n by (subst (1 2) read_exact.simps) (auto split: if_splits)
    qed
  qed
qed

end

interpretation slice: byte_source slice_read "\<lambda>s. s" "\<lambda>_. True"
proof
  fix n :: nat and s :: bytes
  assume "0 < n" "s \<noteq> []"
  then show "\<exists>bs s'. slice_read n s = Inr (bs, s') \<and> bs \<noteq> [] \<and> length bs \<le> n \<and> s = bs @ s' \<and> True"
    by (simp add: slice_read_def)
qed (simp add: slice_read_def)

context byte_source
begin

text \<open>Any sequence of reads sees the bytes of the source as one slice.\<close>

lemma read_many_slice: "inv s \<Longrightarrow> read_many read ns s = read_many slice_read ns (remaining s)"
proof (induction ns arbitrary: s)
  case Nil
  then show ?case by simp
next
  case (Cons n ns)
  show ?case
    using read_exact_front [OF Cons.prems, of n] slice.read_exact_front [of n "remaining s"] Cons.IH
    by (auto split: if_splits)
qed

end

text \<open>Chunk information always describes a body within the chunk.\<close>

lemma chunk_info_body: "chunk_info ft ch c = Inr info \<Longrightarrow> \<exists>b. chunk_body info c = Some b"
  by (auto simp: chunk_info_def ChunkInfo_new_def Let_def bind_result_eq_Inr chunk_body_def)

definition receive_ok :: "Features \<Rightarrow> 'k SecureChannel \<Rightarrow> ReceiveStream \<Rightarrow> bool" where
  "receive_ok ft ch s \<longleftrightarrow>
     rs_pos s \<le> length (rs_buffer s) \<and> check_final_flags ft ch (Suc (rs_index s)) (rs_num_items s) (rs_items s) = Inr ()"

text \<open>A read that has to move on to the next chunk.\<close>

lemma receive_read_next:
  assumes "receive_ok ft ch s" "rs_pos s = length (rs_buffer s)" "rs_items s = c # cs"
  shows "\<exists>b s1. receive_read ft ch n s = Inr (take n b, s1) \<and> chunk_bodies ft ch (c # cs) = b # chunk_bodies ft ch cs
     \<and> drop (rs_pos s1) (rs_buffer s1) = drop n b \<and> rs_items s1 = cs \<and> receive_ok ft ch s1"
proof -
  obtain info where i: "chunk_info ft ch c = Inr info"
      "mch_is_final (ci_message_header info) = (if Suc (rs_index s) = rs_num_items s - 1 then Final else Intermediate)"
    and r: "check_final_flags ft ch (Suc (Suc (rs_index s))) (rs_num_items s) cs = Inr ()"
    using assms(1,3) by (auto simp: receive_ok_def bind_result_eq_Inr split: if_splits)
  obtain b where b: "chunk_body info c = Some b" using chunk_info_body [OF i(1)] by blast
  have "drop (min (length b) n) b = drop n b" by (simp add: min_def)
  then show ?thesis
    using i b r assms by (simp add: receive_read_def receive_rest_def chunk_bodies_def receive_ok_def Let_def)
qed

interpretation receive: byte_source "receive_read ft ch" "receive_remaining ft ch" "receive_ok ft ch" for ft ch
proof
  fix n :: nat and s
  assume ok: "receive_ok ft ch s" and n: "0 < n"
  { assume ne: "receive_remaining ft ch s \<noteq> []"
    show "\<exists>bs s'. receive_read ft ch n s = Inr (bs, s') \<and> bs \<noteq> [] \<and> length bs \<le> n
        \<and> receive_remaining ft ch s = bs @ receive_remaining ft ch s' \<and> receive_ok ft ch s'"
    proof (cases "rs_pos s = length (rs_buffer s)")
      case True
      then obtain c cs where cs: "rs_items s = c # cs"
        using ne by (cases "rs_items s") (auto simp: receive_remaining_def chunk_bodies_def)
      obtain b s1 where s1: "receive_read ft ch n s = Inr (take n b, s1)"
          "chunk_bodies ft ch (c # cs) = b # chunk_bodies ft ch cs"
          "drop (rs_pos s1) (rs_buffer s1) = drop n b" "rs_items s1 = cs" "receive_ok ft ch s1"
        using receive_read_next [OF ok True cs] by blast
      then have "b \<noteq> []" using ne True cs by (auto simp: receive_remaining_def)
      then show ?thesis using s1 n True cs by (auto simp: receive_remaining_def)
    next
      case False
      let ?bs = "take n (drop (rs_pos s) (rs_buffer s))"
      have "drop (rs_pos s) (rs_buffer s) = ?bs @ drop (rs_pos s + length ?bs) (rs_buffer s)"
        by (metis append_take_drop_id drop_drop add.commute length_take append_eq_conv_conj)
      moreover have "rs_pos s + length ?bs \<le> length (rs_buffer s)" using ok by (auto simp: receive_ok_def)
      ultimately show ?thesis
        using False ok n by (simp add: receive_read_def receive_rest_def receive_remaining_def receive_ok_def Let_def)
    qed }
  assume e: "receive_remaining ft ch s = []"
  then have pos: "rs_pos s = length (rs_buffer s)" using ok by (simp add: receive_remaining_def receive_ok_def)
  show "\<exists>s'. receive_read ft ch n s = Inr ([], s')"
  proof (cases "rs_items s")
    case Nil
    then show ?thesis using pos by (simp add: receive_read_def)
  next
    case (Cons c cs)
    then show ?thesis
      using receive_read_next [OF ok pos Cons, of n] e by (auto simp: receive_remaining_def split: if_splits)
  qed
qed

section \<open>Properties\<close>

lemma numeric_NodeId_ok [simp]: "NodeId_ok opts (NodeId_new ns (Id_Numeric v))"
  by (simp add: NodeId_ok_def Identifier_ok_def NodeId_new_def)

lemma can_sendI:
  assumes "security_policy ch \<noteq> SP_Unknown" "max_msg_size = 0 \<or> om_byte_len msg \<le> max_msg_size"
    and "chunk_body_limit ft cr (om_message_type msg) ch max_chunk_size max_body"
    and "make_security_header ft (om_message_type msg) ch = Some sh"
    and "SecurityHeader_ok ft (is_open_secure_channel_type (om_message_type msg)) opts known sh"
    and "om_type_id msg = NodeId_new ns (Id_Numeric v)"
  shows "\<exists>sb nb. encode_SecurityHeader sh = Inr sb \<and> can_send ft cr max_msg_size max_chunk_size ch msg max_body sb nb"
  using assms fmt_SecurityHeader.encodes [OF assms(5)] fmt_NodeId.encodes [OF numeric_NodeId_ok, of ns v]
  by (auto simp: can_send_def)

text \<open>C4: a message cut into chunks is reassembled. Whatever the message, the chunk size and the security
  header of the channel, when the message writes as many bytes as it announces the chunker produces
  chunks that a receiver on the same channel validates, and decoding them gives the message its
  decoder reads from the bytes that were written.\<close>

theorem chunked_message_round_trip:
  assumes "security_policy ch \<noteq> SP_Unknown" "max_msg_size = 0 \<or> om_byte_len msg \<le> max_msg_size"
    and "chunk_body_limit ft cr (om_message_type msg) ch max_chunk_size max_body"
    and "make_security_header ft (om_message_type msg) ch = Some sh"
    and "SecurityHeader_ok ft (is_open_secure_channel_type (om_message_type msg)) (decoding_options rch) (known_policy rch) sh"
    and "secure_channel_id rch \<in> {0, secure_channel_id ch}"
    and "om_type_id msg = NodeId_new 0 (Id_Numeric v)" "object_id_of v = Some oid"
    and "om_encode msg = Inr bs" "length bs = om_byte_len msg" "dec oid bs = Inr (m, r)"
  shows "\<exists>cs. chunker_encode ft cr sn rid max_msg_size max_chunk_size ch msg = Some (Inr cs)
     \<and> validate_chunks ft rch cs = Inr ()
     \<and> chunker_decode ft object_id_of dec cs rch (Some (om_type_id msg)) = Inr m"
proof -
  obtain sb nb where sb: "encode_SecurityHeader sh = Inr sb"
    and can: "can_send ft cr max_msg_size max_chunk_size ch msg max_body sb nb"
    using can_sendI [OF assms(1-5,7)] by blast
  let ?w = "nb @ bs"
  let ?s0 = "plan_stream sb (om_message_type msg) max_body (length ?w) rid sn []"
  define cs where "cs = map (stream_chunk ch sb ?s0 ?w) [0..<cks_expected_chunk_count ?s0]"
  have nb: "encode_NodeId (om_type_id msg) = Inr nb" "length nb = byte_len_NodeId (om_type_id msg)"
    using can by (simp_all add: can_send_def)
  have f: "fresh_stream ft ch sb ?s0"
    using assms(4) sb nb(2) byte_len_NodeId_pos [of "om_type_id msg"] by (intro plan_stream_fresh) auto
  have enc: "chunker_encode ft cr sn rid max_msg_size max_chunk_size ch msg = Some (Inr cs)"
    using encode_into_result [OF can assms(9), of sn rid "[]"] assms(10)
    by (simp add: chunker_encode_def Let_def planned_chunks_def cs_def)
  have sz: "length ?w = cks_message_size ?s0" "cks_message_type ?s0 = om_message_type msg"
    by (simp_all add: plan_stream_def)
  note rec = planned_chunks_received [OF f sz(1) sb _ cs_def, of rch, unfolded sz(2), OF assms(5)]
  obtain st where st: "ReceiveStream_new ft rch cs (length cs) = Inr st" "receive_remaining ft rch st = ?w"
    using rec(2) by blast
  have "decode_NodeId (decoding_options rch) ?w = Inr (om_type_id msg, bs)"
    using fmt_NodeId.decodes nb(1) assms(7) numeric_NodeId_ok by metis
  moreover have "object_id_from_node_id object_id_of (om_type_id msg) (Some (om_type_id msg)) = Inr oid"
    using assms(7,8) by (simp add: object_id_from_node_id_def NodeId_new_def)
  ultimately have "chunker_decode ft object_id_of dec cs rch (Some (om_type_id msg)) = Inr m"
    using rec(1) st assms(11) by (simp add: chunker_decode_def)
  then show ?thesis using enc rec(3) [OF assms(6)] by blast
qed

text \<open>C35: a message that writes more or fewer bytes than it announces is never sent. With fewer the final flush
  fails, with more the write after the last chunk does; the encoder returns the error and no chunks,
  with the request's context in the second case.\<close>

theorem announced_length_enforced:
  assumes "security_policy ch \<noteq> SP_Unknown" "max_msg_size = 0 \<or> om_byte_len msg \<le> max_msg_size"
    and "chunk_body_limit ft cr (om_message_type msg) ch max_chunk_size max_body"
    and "make_security_header ft (om_message_type msg) ch = Some sh"
    and "SecurityHeader_ok ft (is_open_secure_channel_type (om_message_type msg)) (decoding_options ch) (known_policy ch) sh"
    and "om_type_id msg = NodeId_new 0 (Id_Numeric v)"
    and "om_encode msg = Inr bs" "length bs \<noteq> om_byte_len msg"
  shows "encode_into ft cr sn rid max_msg_size max_chunk_size ch msg out =
    Some (Inl (if length bs < om_byte_len msg then Error_decoding
               else with_context Error_encoding (Some rid) (request_context (om_request_handle msg))))"
  using can_sendI [OF assms(1-6)] encode_into_result [OF _ assms(7)] assms(8) by fastforce

text \<open>C16: reading a message across chunk borders is reading one contiguous buffer: the bodies of the chunks
  put together up to the first empty body after the first chunk, which ends the data. For chunks whose
  final flags are as the chunker checks them, any sequence of reads through the receive stream returns,
  read for read, the bytes and the end-of-data error that the same reads return on that buffer.\<close>

theorem receive_stream_refines_buffer:
  assumes "check_final_flags ft ch 0 (length cs) cs = Inr ()"
    and "ReceiveStream_new ft ch cs (length cs) = Inr st"
  shows "read_many (receive_read ft ch) ns st
       = read_many slice_read ns (hd (chunk_bodies ft ch cs) @ bodies_until_empty (tl (chunk_bodies ft ch cs)))"
proof -
  obtain c cs' info b where c: "cs = c # cs'" "chunk_info ft ch c = Inr info" "chunk_body info c = Some b"
      "st = \<lparr>rs_buffer = b, rs_items = cs', rs_num_items = length cs, rs_pos = 0, rs_index = 0\<rparr>"
    using assms(2) by (auto simp: ReceiveStream_new_def bind_result_eq_Inr split: list.splits if_splits option.splits)
  have "receive_ok ft ch st"
    using assms(1) c by (auto simp: receive_ok_def bind_result_eq_Inr split: if_splits)
  moreover have "receive_remaining ft ch st = hd (chunk_bodies ft ch cs) @ bodies_until_empty (tl (chunk_bodies ft ch cs))"
    using c by (simp add: receive_remaining_def chunk_bodies_def)
  ultimately show ?thesis using receive.read_many_slice by metis
qed

text \<open>C36: the chunks of a message fit. For message and close chunks (not OpenSecureChannel) under a chunk size limit,
  the \<open>i\<close>-th chunk carries the \<open>i\<close>-th sequence number from the start and the request id, only the last one is
  final, and no chunk, with padding and signature added, is longer than the limit.\<close>

theorem encoded_chunks_fit:
  assumes "om_message_type msg \<noteq> MCT_OpenSecureChannel" "0 < max_chunk_size"
    and "om_type_id msg = NodeId_new 0 (Id_Numeric v)" "om_encode msg = Inr bs"
    and "encode_into ft cr sn rid max_msg_size max_chunk_size ch msg [] = Some (Inr (cs, n))" "i < n"
  shows "\<exists>h body. cs ! i = sym_chunk h (token_id ch)
         \<lparr>seq_sequence_number = sn_current ((sn_increment 1 ^^ i) sn), seq_request_id = rid\<rparr> body
     \<and> length cs = n \<and> mch_message_type h = om_message_type msg \<and> mch_is_final h = (if Suc i = n then Final else Intermediate)
     \<and> (\<forall>d sz. add_space_for_padding_and_signature_into ft cr (cs ! i) ch = Some (Inr (d, sz)) \<longrightarrow> sz \<le> max_chunk_size)"
proof -
  let ?sh = "SH_Symmetric \<lparr>ssh_token_id = token_id ch\<rparr>"
  have sh: "make_security_header ft (om_message_type msg) ch = Some ?sh"
    using assms(1) by (cases "om_message_type msg") (simp_all add: make_security_header_def)
  have ok: "SecurityHeader_ok ft (is_open_secure_channel_type (om_message_type msg)) (decoding_options ch) (known_policy ch) ?sh"
    using assms(1) by (simp add: SecurityHeader_ok_def is_open_secure_channel_type_def)
  obtain s where p: "security_policy ch \<noteq> SP_Unknown" "max_msg_size = 0 \<or> om_byte_len msg \<le> max_msg_size"
      "ChunkingStream_new ft cr (om_message_type msg) ch max_chunk_size (om_byte_len msg + byte_len_NodeId (om_type_id msg))
         rid (om_request_handle msg) sn [] = Some (Inr s)"
    using assms(5) by (auto simp: encode_into_def Let_def try_bind_eq_Inr split: if_splits)
  from p(3) obtain max_body where mb: "body_size_from_message_size ft cr (om_message_type msg) ch max_chunk_size = Some (Inr max_body)"
    using assms(2) by (auto simp: ChunkingStream_new_def try_bind_eq_Inr map_sum_eq_Inr)
  have "chunk_body_limit ft cr (om_message_type msg) ch max_chunk_size max_body"
    using mb assms(2) by (simp add: chunk_body_limit_def)
  from can_sendI [OF p(1,2) this sh ok assms(3)]
  obtain sb nb where sb: "encode_SecurityHeader ?sh = Inr sb"
    and can: "can_send ft cr max_msg_size max_chunk_size ch msg max_body sb nb" by blast
  let ?s0 = "plan_stream sb (om_message_type msg) max_body (length (nb @ bs)) rid sn []"
  have cs: "cs = planned_chunks ch sb (om_message_type msg) max_body rid sn (nb @ bs)" "n = length cs"
    using encode_into_result [OF can assms(4), of sn rid "[]"] assms(5) by (auto simp: Let_def split: if_splits)
  have N: "n = cks_expected_chunk_count ?s0" using cs by (simp add: planned_chunks_def Let_def)
  have sb': "sb = le_bytes 4 (unat (token_id ch))"
    using sb by (simp add: encode_SecurityHeader_def encode_SymmetricSecurityHeader_def)
  let ?q = "\<lparr>seq_sequence_number = sn_current ((sn_increment 1 ^^ i) sn), seq_request_id = rid\<rparr>"
  have ci: "cs ! i = sym_chunk (stream_header ch ?s0 i) (token_id ch) ?q (planned_body ?s0 (nb @ bs) i)"
    using assms(6) cs N
    by (simp add: planned_chunks_def Let_def stream_chunk_def stream_head_def planned_body_def sym_chunk_def sb'
        stream_seq_header_def) (simp add: plan_stream_def)
  have pos: "0 < max_body" using body_size_pos [OF mb] .
  have "length (planned_body ?s0 (nb @ bs) i) \<le> max_body"
    using pos by (simp add: planned_body_def body_target_def body_limit_def plan_stream_def)
  then have "\<forall>d sz. add_space_for_padding_and_signature_into ft cr (cs ! i) ch = Some (Inr (d, sz)) \<longrightarrow> sz \<le> max_chunk_size"
    unfolding ci using body_size_fits [OF assms(1) _ mb, of "stream_header ch ?s0 i"]
    by (simp add: stream_header_def plan_stream_def)
  then show ?thesis
    using ci cs(2) N by (auto simp: stream_header_def plan_stream_def)
qed

section \<open>Examples\<close>

text \<open>A request of \<open>n\<close> bytes that announces \<open>m\<close>, on a channel with signing and encryption.\<close>

definition example_message :: "nat \<Rightarrow> nat \<Rightarrow> OutMessage" where
  "example_message m n =
     \<lparr>om_type_id = NodeId_new 0 (Id_Numeric 631), om_message_type = MCT_Message, om_request_handle = 4,
      om_byte_len = m, om_encode = Inr (replicate n 1)\<rparr>"

lemma example_message_simps [simp]:
  "om_type_id (example_message m n) = NodeId_new 0 (Id_Numeric 631)"
  "om_message_type (example_message m n) = MCT_Message"
  "om_request_handle (example_message m n) = 4"
  "om_byte_len (example_message m n) = m" "om_encode (example_message m n) = Inr (replicate n 1)"
  by (simp_all add: example_message_def)

lemma example_limit:
  "chunk_body_limit plain_features null_crypto MCT_Message example_secure_channel 8200 8135"
  by (simp add: chunk_body_limit_def example_body_size)

lemma example_header:
  "make_security_header plain_features MCT_Message example_secure_channel = Some (SH_Symmetric \<lparr>ssh_token_id = 1\<rparr>)"
  by (simp add: make_security_header_def example_secure_channel_def)

lemma symmetric_header_ok: "SecurityHeader_ok ft (is_open_secure_channel_type MCT_Message) opts known (SH_Symmetric h)"
  by (simp add: SecurityHeader_ok_def is_open_secure_channel_type_def)

theorem chunked_message_round_trip_witness:
  "\<exists>cs. chunker_encode plain_features null_crypto (SequenceNumberHandle_new True) 7 0 8200 example_secure_channel (example_message 9000 9000)
       = Some (Inr cs)
     \<and> validate_chunks plain_features example_secure_channel cs = Inr ()
     \<and> chunker_decode plain_features (\<lambda>v. if v = 631 then Some () else None) (\<lambda>_ s. Inr (length s, [])) cs
         example_secure_channel (Some (NodeId_new 0 (Id_Numeric 631))) = Inr 9000"
  using chunked_message_round_trip [of example_secure_channel 0 "example_message 9000 9000" plain_features null_crypto
      8200 8135 _ example_secure_channel 631 "\<lambda>v. if v = 631 then Some () else None" "()" "replicate 9000 1"
      "\<lambda>_ s. Inr (length s, [])" 9000 "[]" "SequenceNumberHandle_new True" 7] example_limit example_header symmetric_header_ok
  by simp

theorem announced_length_enforced_witness:
  "encode_into plain_features null_crypto (SequenceNumberHandle_new True) 7 0 8200 example_secure_channel (example_message 9 8) []
     = Some (Inl Error_decoding)
   \<and> encode_into plain_features null_crypto (SequenceNumberHandle_new True) 7 0 8200 example_secure_channel (example_message 8 9) []
     = Some (Inl (with_context Error_encoding (Some 7) (Some 4)))"
  using announced_length_enforced [of example_secure_channel 0 "example_message 9 8" plain_features null_crypto 8200 8135]
    announced_length_enforced [of example_secure_channel 0 "example_message 8 9" plain_features null_crypto 8200 8135]
    example_limit example_header symmetric_header_ok
  by (simp add: request_context_def)

lemma example_encoded:
  "\<exists>cs. encode_into plain_features null_crypto (SequenceNumberHandle_new True) 7 0 8200 example_secure_channel (example_message 9000 9000) []
     = Some (Inr (cs, 2))"
proof -
  obtain sb nb where c: "can_send plain_features null_crypto 0 8200 example_secure_channel (example_message 9000 9000) 8135 sb nb"
    using can_sendI [of example_secure_channel 0 "example_message 9000 9000" plain_features null_crypto 8200 8135]
      example_limit example_header symmetric_header_ok by fastforce
  then have "length nb = 4" by (simp add: can_send_def byte_len_NodeId_def NodeId_new_def)
  then show ?thesis
    using encode_into_result [OF c, of "replicate 9000 1" "SequenceNumberHandle_new True" 7 "[]"]
    by (simp add: Let_def planned_chunks_def plan_stream_def div_ceil_def)
qed

theorem encoded_chunks_fit_witness:
  "\<exists>cs h body d sz. encode_into plain_features null_crypto (SequenceNumberHandle_new True) 7 0 8200 example_secure_channel (example_message 9000 9000) []
       = Some (Inr (cs, 2))
     \<and> cs ! 1 = sym_chunk h 1 \<lparr>seq_sequence_number = 2, seq_request_id = 7\<rparr> body \<and> mch_is_final h = Final
     \<and> add_space_for_padding_and_signature_into plain_features null_crypto (cs ! 1) example_secure_channel = Some (Inr (d, sz))
     \<and> sz \<le> 8200"
proof -
  obtain cs where cs: "encode_into plain_features null_crypto (SequenceNumberHandle_new True) 7 0 8200 example_secure_channel
      (example_message 9000 9000) [] = Some (Inr (cs, 2))" using example_encoded by blast
  have sn1: "sn_current (sn_increment 1 (SequenceNumberHandle_new True)) = 2"
    by (simp add: SequenceNumberHandle_new_def sn_defs sn_increment_def u32_MAX_def)
  have token: "token_id example_secure_channel = 1" by (simp add: example_secure_channel_def)
  obtain h body where h: "cs ! 1 = sym_chunk h 1 \<lparr>seq_sequence_number = 2, seq_request_id = 7\<rparr> body" "mch_is_final h = Final"
      "mch_message_type h = MCT_Message" "\<forall>d sz. add_space_for_padding_and_signature_into plain_features null_crypto (cs ! 1) example_secure_channel
         = Some (Inr (d, sz)) \<longrightarrow> sz \<le> 8200"
    using encoded_chunks_fit [OF _ _ _ _ cs, of 631 "replicate 9000 1" 1] sn1
    by (auto simp: token)
  have S: "symmetric_signature_size plain_features (security_policy example_secure_channel) = Some 32"
    by (simp add: symmetric_signature_size_def policy_defs)
  obtain d sz where a: "add_space_for_padding_and_signature_into plain_features null_crypto (cs ! 1) example_secure_channel
      = Some (Inr (d, sz))"
    unfolding h(1)
    using add_space_sym [OF example_secure_channel_simps(5) _ _ S, of h null_crypto 1] h(3) by fastforce
  show ?thesis using cs h a by blast
qed

theorem receive_stream_refines_buffer_witness:
  "\<exists>cs st. ReceiveStream_new plain_features example_secure_channel cs (length cs) = Inr st \<and> length cs = 2
     \<and> read_many (receive_read plain_features example_secure_channel) [4, 9000, 1] st
       = read_many slice_read [4, 9000, 1]
           (hd (chunk_bodies plain_features example_secure_channel cs)
            @ bodies_until_empty (tl (chunk_bodies plain_features example_secure_channel cs)))"
proof -
  let ?s0 = "plan_stream (le_bytes 4 1) MCT_Message 8135 9004 7 (SequenceNumberHandle_new True) []"
  let ?w = "replicate 9004 1 :: bytes"
  define cs where "cs = map (stream_chunk example_secure_channel (le_bytes 4 1) ?s0 ?w) [0..<cks_expected_chunk_count ?s0]"
  have sb: "encode_SecurityHeader (SH_Symmetric \<lparr>ssh_token_id = 1\<rparr>) = Inr (le_bytes 4 1)"
    by (simp add: encode_SecurityHeader_def encode_SymmetricSecurityHeader_def)
  have f: "fresh_stream plain_features example_secure_channel (le_bytes 4 1) ?s0"
    by (rule plan_stream_fresh [OF _ example_header sb]) simp
  have sz: "length ?w = cks_message_size ?s0" "cks_message_type ?s0 = MCT_Message" by (simp_all add: plan_stream_def)
  note rec = planned_chunks_received [OF f sz(1) sb _ cs_def, unfolded sz(2), OF symmetric_header_ok]
  have "length cs = 2" by (simp add: cs_def plan_stream_def div_ceil_def)
  then show ?thesis
    using rec(1,2) [of example_secure_channel] receive_stream_refines_buffer by blast
qed

end
