(* ===== verification/Status_Codes.thy ===== *)
theory Status_Codes
  imports Encoding
begin

unbundle bit_operations_syntax

text \<open>
  The bit layout of status codes: \<open>async-opcua-types/src/status_code.rs\<close>. A status code is a \<open>u32\<close> with
  severity and sub code in the upper half, flags and the info bits of a data value in the lower half.
  Each accessor pair is a field of the word; the locale \<open>status_field\<close> states the laws of a field.
\<close>

definition SUBCODE_MASK :: u32 where "SUBCODE_MASK = 0xFFFF0000"
definition INFO_BITS_MASK :: u32 where "INFO_BITS_MASK = 0x3FF"

definition get_bool :: "nat \<Rightarrow> StatusCode \<Rightarrow> bool" where
  "get_bool offset s \<longleftrightarrow> s AND push_bit offset 1 \<noteq> 0"

definition set_bool :: "nat \<Rightarrow> bool \<Rightarrow> StatusCode \<Rightarrow> StatusCode" where
  "set_bool offset v s = (s AND NOT (push_bit offset 1)) OR push_bit offset (if v then 1 else 0)"

datatype StatusCodeSeverity = Sev_Good | Sev_Uncertain | Sev_Bad
datatype StatusCodeInfoType = Info_NotUsed | Info_DataValue
datatype StatusCodeLimit = Limit_Constant | Limit_High | Limit_Low | Limit_None
datatype StatusCodeValueType = VT_Raw | VT_Calculated | VT_Interpolated | VT_Undefined

fun severity_bits :: "StatusCodeSeverity \<Rightarrow> u32" where
  "severity_bits Sev_Good = 0" | "severity_bits Sev_Uncertain = 1" | "severity_bits Sev_Bad = 2"

fun info_type_bits :: "StatusCodeInfoType \<Rightarrow> u32" where
  "info_type_bits Info_NotUsed = 0" | "info_type_bits Info_DataValue = 1"

fun limit_bits :: "StatusCodeLimit \<Rightarrow> u32" where
  "limit_bits Limit_Constant = 3" | "limit_bits Limit_High = 2" | "limit_bits Limit_Low = 1" | "limit_bits Limit_None = 0"

fun value_type_bits :: "StatusCodeValueType \<Rightarrow> u32" where
  "value_type_bits VT_Raw = 0" | "value_type_bits VT_Calculated = 1" | "value_type_bits VT_Interpolated = 2"
| "value_type_bits VT_Undefined = 3"

definition severity :: "StatusCode \<Rightarrow> StatusCodeSeverity" where
  "severity s =
     (let v = drop_bit 30 s AND 3
      in if v = 0 then Sev_Good else if v = 1 then Sev_Uncertain else if v = 2 then Sev_Bad else Sev_Bad)"

definition set_severity :: "StatusCodeSeverity \<Rightarrow> StatusCode \<Rightarrow> StatusCode" where
  "set_severity v s = (s AND NOT SUBCODE_MASK) OR push_bit 30 (severity_bits v)"

definition status_is_good :: "StatusCode \<Rightarrow> bool" where "status_is_good s \<longleftrightarrow> severity s = Sev_Good"
definition status_is_bad :: "StatusCode \<Rightarrow> bool" where "status_is_bad s \<longleftrightarrow> severity s = Sev_Bad"
definition status_is_uncertain :: "StatusCode \<Rightarrow> bool" where "status_is_uncertain s \<longleftrightarrow> severity s = Sev_Uncertain"

definition structure_changed :: "StatusCode \<Rightarrow> bool" where "structure_changed = get_bool 15"
definition set_structure_changed :: "bool \<Rightarrow> StatusCode \<Rightarrow> StatusCode" where "set_structure_changed = set_bool 15"
definition semantics_changed :: "StatusCode \<Rightarrow> bool" where "semantics_changed = get_bool 14"
definition set_semantics_changed :: "bool \<Rightarrow> StatusCode \<Rightarrow> StatusCode" where "set_semantics_changed = set_bool 14"
definition status_overflow :: "StatusCode \<Rightarrow> bool" where "status_overflow = get_bool 7"
definition set_overflow :: "bool \<Rightarrow> StatusCode \<Rightarrow> StatusCode" where "set_overflow = set_bool 7"
definition multi_value :: "StatusCode \<Rightarrow> bool" where "multi_value = get_bool 4"
definition set_multi_value :: "bool \<Rightarrow> StatusCode \<Rightarrow> StatusCode" where "set_multi_value = set_bool 4"
definition extra_data :: "StatusCode \<Rightarrow> bool" where "extra_data = get_bool 3"
definition set_extra_data :: "bool \<Rightarrow> StatusCode \<Rightarrow> StatusCode" where "set_extra_data = set_bool 3"
definition status_partial :: "StatusCode \<Rightarrow> bool" where "status_partial = get_bool 2"
definition set_partial :: "bool \<Rightarrow> StatusCode \<Rightarrow> StatusCode" where "set_partial = set_bool 2"

text \<open>The sub codes of the OPC UA table, \<open>Invalid\<close> being the last one.\<close>

definition sub_code_values :: "u32 list" where
  "sub_code_values =
     [0x00000000, 0x40000000, 0x80000000, 0x80010000, 0x80020000, 0x80030000, 0x80040000, 0x80050000, 0x80060000,
      0x80070000, 0x80080000, 0x80B80000, 0x80B90000, 0x80090000, 0x800A0000, 0x800B0000, 0x800C0000, 0x800D0000,
      0x800E0000, 0x800F0000, 0x80100000, 0x80DB0000, 0x80110000, 0x80120000, 0x80130000, 0x81140000, 0x80140000,
      0x80150000, 0x80160000, 0x80170000, 0x80180000, 0x80190000, 0x801A0000, 0x801B0000, 0x801C0000, 0x801D0000,
      0x801E0000, 0x810D0000, 0x801F0000, 0x80200000, 0x80210000, 0x80220000, 0x80230000, 0x80240000, 0x80250000,
      0x80260000, 0x80270000, 0x80280000, 0x802A0000, 0x802B0000, 0x802C0000, 0x80E50000, 0x810E0000, 0x810F0000,
      0x81100000, 0x80EE0000, 0x00EF0000, 0x002D0000, 0x002E0000, 0x002F0000, 0x00300000, 0x80310000, 0x80320000,
      0x80330000, 0x80340000, 0x80350000, 0x80360000, 0x80370000, 0x80EA0000, 0x80380000, 0x80390000, 0x803A0000,
      0x803B0000, 0x803C0000, 0x803D0000, 0x803E0000, 0x803F0000, 0x80400000, 0x80410000, 0x80420000, 0x80430000,
      0x80440000, 0x80450000, 0x80460000, 0x80470000, 0x80480000, 0x80C10000, 0x80C20000, 0x80C30000, 0x80490000,
      0x80C40000, 0x80C50000, 0x804A0000, 0x804B0000, 0x804C0000, 0x804D0000, 0x804E0000, 0x81120000, 0x80ED0000,
      0x80F00000, 0x804F0000, 0x80500000, 0x80510000, 0x80520000, 0x80530000, 0x80540000, 0x80550000, 0x80560000,
      0x80570000, 0x80580000, 0x80590000, 0x80C60000, 0x805A0000, 0x805B0000, 0x805C0000, 0x805D0000, 0x805E0000,
      0x805F0000, 0x80600000, 0x80610000, 0x80620000, 0x80630000, 0x80640000, 0x80650000, 0x80660000, 0x80670000,
      0x80680000, 0x80690000, 0x40BC0000, 0x806A0000, 0x806B0000, 0x80C90000, 0x80CA0000, 0x80CB0000, 0x40C00000,
      0x00BA0000, 0x80C80000, 0x406C0000, 0x806D0000, 0x806E0000, 0x806F0000, 0x80700000, 0x80E60000, 0x80710000,
      0x80720000, 0x80BD0000, 0x80730000, 0x80740000, 0x80750000, 0x80760000, 0x81110000, 0x80770000, 0x80780000,
      0x80790000, 0x807A0000, 0x00DF0000, 0x807B0000, 0x807C0000, 0x80BF0000, 0x81150000, 0x807D0000, 0x807E0000,
      0x807F0000, 0x80800000, 0x80810000, 0x80820000, 0x80830000, 0x80840000, 0x80850000, 0x80860000, 0x80870000,
      0x80880000, 0x80BE0000, 0x80890000, 0x808A0000, 0x808B0000, 0x808C0000, 0x808D0000, 0x808E0000, 0x408F0000,
      0x40900000, 0x40910000, 0x40920000, 0x40930000, 0x40940000, 0x40950000, 0x00960000, 0x00EB0000, 0x80970000,
      0x80980000, 0x80CC0000, 0x80990000, 0x809A0000, 0x80BB0000, 0x80CD0000, 0x80CE0000, 0x80CF0000, 0x80D00000,
      0x80D10000, 0x80D20000, 0x80D30000, 0x809B0000, 0x80D70000, 0x80D80000, 0x809D0000, 0x809E0000, 0x809F0000,
      0x80A00000, 0x80A10000, 0x00A20000, 0x00A30000, 0x40A40000, 0x00A50000, 0x00A60000, 0x80D40000, 0x80D50000,
      0x80D60000, 0x80DA0000, 0x00D90000, 0x80E40000, 0x81130000, 0x80E80000, 0x811F0000, 0x81200000, 0x80E90000,
      0x80EC0000, 0x00DC0000, 0x00DD0000, 0x40DE0000, 0x00E00000, 0x80E10000, 0x40E20000, 0x80E30000, 0x01160000,
      0x01170000, 0x01180000, 0x81190000, 0x811A0000, 0x811B0000, 0x811C0000, 0x811D0000, 0x811E0000, 0x00A70000,
      0x00A80000, 0x00A90000, 0x00AA0000, 0x80AB0000, 0x80AC0000, 0x80AD0000, 0x80AE0000, 0x80AF0000, 0x80B00000,
      0x80B10000, 0x80B20000, 0x80B30000, 0x80B40000, 0x80B50000, 0x80B60000, 0x80B70000, 0x42080000, 0x42090000,
      0x420A0000, 0x420F0000, 0x04010000, 0x04020000, 0x04030000, 0x04040000, 0x04070000, 0x04080000, 0x04090000,
      0x80E70000, 0xFFFFFFFF]"

definition SubStatusCode_Invalid :: u32 where "SubStatusCode_Invalid = 0xFFFFFFFF"

definition sub_code :: "StatusCode \<Rightarrow> u32" where
  "sub_code s =
     (let v = s AND SUBCODE_MASK in if List.member sub_code_values v then v else SubStatusCode_Invalid)"

definition set_sub_code :: "u32 \<Rightarrow> StatusCode \<Rightarrow> StatusCode" where
  "set_sub_code v s = (s AND NOT SUBCODE_MASK) OR (v AND SUBCODE_MASK)"

definition info_type :: "StatusCode \<Rightarrow> StatusCodeInfoType" where
  "info_type s = (if drop_bit 10 s AND 1 = 1 then Info_DataValue else Info_NotUsed)"

definition set_info_type :: "StatusCodeInfoType \<Rightarrow> StatusCode \<Rightarrow> StatusCode" where
  "set_info_type v s =
     (let s1 = (s AND NOT (push_bit 10 1)) OR push_bit 10 (info_type_bits v AND 1)
      in if v = Info_NotUsed then s1 AND NOT INFO_BITS_MASK else s1)"

definition status_limit :: "StatusCode \<Rightarrow> StatusCodeLimit" where
  "status_limit s =
     (let v = drop_bit 8 s AND 3
      in if v = 3 then Limit_Constant else if v = 2 then Limit_High else if v = 1 then Limit_Low else Limit_None)"

definition set_limit :: "StatusCodeLimit \<Rightarrow> StatusCode \<Rightarrow> StatusCode" where
  "set_limit v s = (s AND NOT (push_bit 8 3)) OR push_bit 8 (limit_bits v)"

definition value_type :: "StatusCode \<Rightarrow> StatusCodeValueType" where
  "value_type s =
     (let v = s AND 3
      in if v = 0 then VT_Raw else if v = 1 then VT_Calculated else if v = 2 then VT_Interpolated else VT_Undefined)"

definition set_value_type :: "StatusCodeValueType \<Rightarrow> StatusCode \<Rightarrow> StatusCode" where
  "set_value_type v s = (s AND NOT 3) OR (value_type_bits v AND 3)"

datatype StatusCodeValidationError = InvalidSeverity | UsedReservedBit | UnknownSubCode | InvalidInfoBits

definition validate_status :: "StatusCode \<Rightarrow> StatusCodeValidationError + unit" where
  "validate_status s =
     (if drop_bit 30 s = 3 then Inl InvalidSeverity
      else if s AND push_bit 28 3 \<noteq> 0 \<or> s AND push_bit 11 7 \<noteq> 0 \<or> s AND push_bit 5 3 \<noteq> 0 then Inl UsedReservedBit
      else if sub_code s = SubStatusCode_Invalid then Inl UnknownSubCode
      else if info_type s = Info_NotUsed \<and> s AND INFO_BITS_MASK \<noteq> 0 then Inl InvalidInfoBits
      else Inr ())"

section \<open>The laws of a field\<close>

locale status_field =
  fixes get_f :: "StatusCode \<Rightarrow> 'a" and set_f :: "'a \<Rightarrow> StatusCode \<Rightarrow> StatusCode" and mask :: u32
  assumes get_set: "get_f (set_f v s) = v"
    and set_outside: "set_f v s AND NOT mask = s AND NOT mask"
    and get_inside: "s AND mask = t AND mask \<Longrightarrow> get_f s = get_f t"
begin

lemma set_set_get: "get_f (set_f v (set_f w s)) = v"
  by (rule get_set)

end

text \<open>Fields that share no bit do not disturb each other.\<close>

locale disjoint_fields = a: status_field get_a set_a mask_a + b: status_field get_b set_b mask_b
  for get_a :: "StatusCode \<Rightarrow> 'a" and set_a mask_a and get_b :: "StatusCode \<Rightarrow> 'b" and set_b mask_b +
  assumes disjoint: "mask_a AND mask_b = 0"
begin

lemma get_other: "get_a (set_b v s) = get_a s"
proof (rule a.get_inside)
  have "bit mask_a n \<Longrightarrow> \<not> bit mask_b n" for n
    using arg_cong [OF disjoint, of "\<lambda>w. bit w n"] by (simp add: bit_and_iff)
  then have "x AND mask_a = (x AND NOT mask_b) AND mask_a" for x
    by (intro bit_word_eqI) (auto simp: bit_and_iff bit_not_iff)
  then show "set_b v s AND mask_a = s AND mask_a"
    using b.set_outside by metis
qed

end

section \<open>The fields of a status code\<close>

definition flag_mask :: "nat \<Rightarrow> u32" where "flag_mask n = push_bit n 1"
definition pair_mask :: "nat \<Rightarrow> u32" where "pair_mask n = push_bit n 3"

lemma bit_flag_mask: "bit (flag_mask n) m \<longleftrightarrow> m = n \<and> n < 32"
  by (auto simp: flag_mask_def bit_simps)

lemma get_bool_bit: "get_bool n s \<longleftrightarrow> bit s n"
  by (simp add: get_bool_def push_bit_eq_mult and_exp_eq_0_iff_not_bit)

lemma bit_set_bool: "n < 32 \<Longrightarrow> bit (set_bool n v s) m \<longleftrightarrow> (if m = n then v else bit s m)"
  by (cases "m < 32") (auto simp: set_bool_def bit_simps not_less dest: bit_imp_le_length)

lemma bool_field:
  assumes "n < 32"
  shows "status_field (get_bool n) (set_bool n) (flag_mask n)"
proof
  fix v s t
  show "get_bool n (set_bool n v s) = v" using assms by (simp add: get_bool_bit bit_set_bool)
  show "set_bool n v s AND NOT (flag_mask n) = s AND NOT (flag_mask n)"
    using assms by (intro bit_word_eqI) (auto simp: bit_and_iff bit_not_iff bit_set_bool bit_flag_mask)
  assume "s AND flag_mask n = t AND flag_mask n"
  then show "get_bool n s = get_bool n t" by (simp add: get_bool_def flag_mask_def)
qed

interpretation f_structure: status_field structure_changed set_structure_changed "flag_mask 15"
  unfolding structure_changed_def set_structure_changed_def by (rule bool_field) simp

interpretation f_semantics: status_field semantics_changed set_semantics_changed "flag_mask 14"
  unfolding semantics_changed_def set_semantics_changed_def by (rule bool_field) simp

interpretation f_overflow: status_field status_overflow set_overflow "flag_mask 7"
  unfolding status_overflow_def set_overflow_def by (rule bool_field) simp

interpretation f_multi_value: status_field multi_value set_multi_value "flag_mask 4"
  unfolding multi_value_def set_multi_value_def by (rule bool_field) simp

interpretation f_extra_data: status_field extra_data set_extra_data "flag_mask 3"
  unfolding extra_data_def set_extra_data_def by (rule bool_field) simp

interpretation f_partial: status_field status_partial set_partial "flag_mask 2"
  unfolding status_partial_def set_partial_def by (rule bool_field) simp

text \<open>Two-bit fields, by cases on the two bits.\<close>

lemma two_bits: "(w :: u32) AND 3 = (if bit w 0 then if bit w 1 then 3 else 1 else if bit w 1 then 2 else 0)"
proof (rule bit_word_eqI)
  fix n :: nat
  consider "n = 0" | "n = 1" | m where "n = Suc (Suc m)" by (metis One_nat_def not0_implies_Suc)
  then show "bit (w AND 3) n = bit (if bit w 0 then if bit w 1 then 3 else 1 else if bit w 1 then 2 else 0 :: u32) n"
    by cases (simp_all add: bit_and_iff bit_numeral_rec bit_1_iff)
qed

lemma two_bit_numbers [simp]:
  "(3 :: u32) \<noteq> 0" "(3 :: u32) \<noteq> 1" "(3 :: u32) \<noteq> 2" "(2 :: u32) \<noteq> 0" "(2 :: u32) \<noteq> 1"
  by simp_all

lemma severity_cases: "severity s = (if bit s 31 then Sev_Bad else if bit s 30 then Sev_Uncertain else Sev_Good)"
  by (simp add: severity_def two_bits bit_drop_bit_eq)

lemma status_limit_cases:
  "status_limit s = (if bit s 9 then if bit s 8 then Limit_Constant else Limit_High
                     else if bit s 8 then Limit_Low else Limit_None)"
  by (simp add: status_limit_def two_bits bit_drop_bit_eq)

lemma value_type_cases:
  "value_type s = (if bit s 1 then if bit s 0 then VT_Undefined else VT_Interpolated
                   else if bit s 0 then VT_Calculated else VT_Raw)"
  by (simp add: value_type_def two_bits)

lemma info_type_cases: "info_type s = (if bit s 10 then Info_DataValue else Info_NotUsed)"
  by (simp add: info_type_def and_one_eq bit_iff_odd_drop_bit odd_iff_mod_2_eq_one)

lemma bit_and_mask_cong: "s AND m = t AND m \<Longrightarrow> bit m n \<Longrightarrow> bit s n \<longleftrightarrow> bit t n"
  by (metis bit_and_iff)

text \<open>The masks of the wider fields and the bits of their values.\<close>

lemma three_bits: "bit (3 :: u32) n \<longleftrightarrow> n < 2"
proof -
  have "(3 :: u32) = mask 2" by (simp add: mask_eq_exp_minus_1)
  then show ?thesis by (simp only: bit_mask_iff) auto
qed

lemma mask_bits:
  "bit SUBCODE_MASK n \<longleftrightarrow> 16 \<le> n \<and> n < 32" "bit INFO_BITS_MASK n \<longleftrightarrow> n < 10"
  "bit (mask 11 :: u32) n \<longleftrightarrow> n < 11" "bit (pair_mask k) n \<longleftrightarrow> (n = k \<or> n = Suc k) \<and> n < 32"
proof -
  have m: "SUBCODE_MASK = push_bit 16 (mask 16)" "INFO_BITS_MASK = mask 10"
    by (simp_all add: SUBCODE_MASK_def INFO_BITS_MASK_def mask_eq_exp_minus_1 push_bit_eq_mult)
  show "bit SUBCODE_MASK n \<longleftrightarrow> 16 \<le> n \<and> n < 32" "bit INFO_BITS_MASK n \<longleftrightarrow> n < 10"
    unfolding m bit_mask_iff bit_push_bit_iff by auto
  show "bit (mask 11 :: u32) n \<longleftrightarrow> n < 11" by (simp only: bit_mask_iff) auto
  show "bit (pair_mask k) n \<longleftrightarrow> (n = k \<or> n = Suc k) \<and> n < 32"
    unfolding pair_mask_def by (simp only: bit_push_bit_iff three_bits) (auto simp: less_2_cases_iff)
qed

lemma bits_of_severity: "bit (severity_bits v) n \<longleftrightarrow> (n = 0 \<and> v = Sev_Uncertain) \<or> (n = 1 \<and> v = Sev_Bad)"
  by (cases v; cases n) (auto simp: bit_1_iff bit_numeral_rec split: nat.split)

lemma bits_of_limit:
  "bit (limit_bits v) n \<longleftrightarrow> (n = 0 \<and> v \<in> {Limit_Constant, Limit_Low}) \<or> (n = 1 \<and> v \<in> {Limit_Constant, Limit_High})"
  by (cases v; cases n) (auto simp: bit_1_iff bit_numeral_rec split: nat.split)

lemma bits_of_value_type:
  "bit (value_type_bits v) n \<longleftrightarrow> (n = 0 \<and> v \<in> {VT_Calculated, VT_Undefined}) \<or> (n = 1 \<and> v \<in> {VT_Interpolated, VT_Undefined})"
  by (cases v; cases n) (auto simp: bit_1_iff bit_numeral_rec split: nat.split)

text \<open>The words that the setters of the wider fields produce, bit by bit.\<close>

lemma bit_setters:
  "bit (set_severity v s) n \<longleftrightarrow> (if n < 16 then bit s n else n = 30 \<and> v = Sev_Uncertain \<or> n = 31 \<and> v = Sev_Bad)"
  "bit (set_limit l s) n \<longleftrightarrow>
     (if n = 8 then l \<in> {Limit_Constant, Limit_Low} else if n = 9 then l \<in> {Limit_Constant, Limit_High} else bit s n)"
  "bit (set_value_type w s) n \<longleftrightarrow>
     (if n = 0 then w \<in> {VT_Calculated, VT_Undefined} else if n = 1 then w \<in> {VT_Interpolated, VT_Undefined} else bit s n)"
  "bit (set_info_type i s) n \<longleftrightarrow>
     (if n = 10 then i = Info_DataValue else if n < 10 then i = Info_DataValue \<and> bit s n else bit s n)"
proof -
  have len: "bit s n \<Longrightarrow> n < 32" by (rule bit_imp_le_length [where 'a = 32, simplified])
  have "n - 30 = 1 \<Longrightarrow> n = 31" "n - 8 = 1 \<Longrightarrow> n = 9" by auto
  then show "bit (set_severity v s) n \<longleftrightarrow> (if n < 16 then bit s n else n = 30 \<and> v = Sev_Uncertain \<or> n = 31 \<and> v = Sev_Bad)"
    unfolding set_severity_def using len
    by (simp only: bit_or_iff bit_and_iff bit_not_iff bit_push_bit_iff mask_bits bits_of_severity) auto
  have "bit (set_limit l s) n \<longleftrightarrow> (bit s n \<and> n \<noteq> 8 \<and> n \<noteq> 9) \<or> (8 \<le> n \<and> n < 32 \<and> bit (limit_bits l) (n - 8))"
    unfolding set_limit_def using len
    by (simp only: bit_or_iff bit_and_iff bit_not_iff bit_push_bit_iff three_bits) auto
  then show "bit (set_limit l s) n \<longleftrightarrow>
     (if n = 8 then l \<in> {Limit_Constant, Limit_Low} else if n = 9 then l \<in> {Limit_Constant, Limit_High} else bit s n)"
    unfolding bits_of_limit by auto
  show "bit (set_value_type w s) n \<longleftrightarrow>
     (if n = 0 then w \<in> {VT_Calculated, VT_Undefined} else if n = 1 then w \<in> {VT_Interpolated, VT_Undefined} else bit s n)"
    unfolding set_value_type_def using len
    by (simp only: bit_or_iff bit_and_iff bit_not_iff three_bits bits_of_value_type) auto
  have "push_bit 10 (info_type_bits i AND 1) = (if i = Info_DataValue then flag_mask 10 else 0)"
    by (cases i) (simp_all add: flag_mask_def)
  then have "set_info_type i s = (if i = Info_NotUsed then (s AND NOT (flag_mask 10)) AND NOT INFO_BITS_MASK
      else (s AND NOT (flag_mask 10)) OR flag_mask 10)"
    unfolding set_info_type_def Let_def flag_mask_def [symmetric] by (cases i) simp_all
  then show "bit (set_info_type i s) n \<longleftrightarrow>
     (if n = 10 then i = Info_DataValue else if n < 10 then i = Info_DataValue \<and> bit s n else bit s n)"
    using len by (cases i) (simp_all add: bit_or_iff bit_and_iff bit_not_iff bit_flag_mask mask_bits, auto)
qed

lemmas field_bits = bit_and_iff bit_not_iff mask_bits three_bits bit_setters bit_flag_mask

interpretation f_severity: status_field severity set_severity SUBCODE_MASK
proof
  fix v s t
  show "severity (set_severity v s) = v"
    by (cases v) (simp_all add: severity_cases field_bits)
  show "set_severity v s AND NOT SUBCODE_MASK = s AND NOT SUBCODE_MASK"
    by (intro bit_word_eqI) (auto simp: field_bits)
  assume "s AND SUBCODE_MASK = t AND SUBCODE_MASK"
  from bit_and_mask_cong [OF this] show "severity s = severity t" by (simp add: severity_cases mask_bits)
qed

interpretation f_limit: status_field status_limit set_limit "pair_mask 8"
proof
  fix v s t
  show "status_limit (set_limit v s) = v"
    by (cases v) (simp_all add: status_limit_cases field_bits)
  show "set_limit v s AND NOT (pair_mask 8) = s AND NOT (pair_mask 8)"
    by (intro bit_word_eqI) (auto simp: field_bits)
  assume "s AND pair_mask 8 = t AND pair_mask 8"
  from bit_and_mask_cong [OF this] show "status_limit s = status_limit t"
    by (simp add: status_limit_cases mask_bits)
qed

interpretation f_value_type: status_field value_type set_value_type "pair_mask 0"
proof
  fix v s t
  show "value_type (set_value_type v s) = v"
    by (cases v) (simp_all add: value_type_cases field_bits)
  show "set_value_type v s AND NOT (pair_mask 0) = s AND NOT (pair_mask 0)"
    by (intro bit_word_eqI) (auto simp: field_bits)
  assume "s AND pair_mask 0 = t AND pair_mask 0"
  from bit_and_mask_cong [OF this] show "value_type s = value_type t" by (simp add: value_type_cases mask_bits)
qed

text \<open>Setting the info type to \<open>NotUsed\<close> clears the info bits, so its field is the whole of bits 0 to 10.\<close>

interpretation f_info_type: status_field info_type set_info_type "mask 11"
proof
  fix v s t
  show "info_type (set_info_type v s) = v"
    by (cases v) (simp_all add: info_type_cases field_bits)
  show "set_info_type v s AND NOT (mask 11) = s AND NOT (mask 11)"
    by (intro bit_word_eqI) (auto simp: bit_and_iff bit_not_iff bit_mask_iff bit_setters)
  assume "s AND mask 11 = t AND mask 11"
  from bit_and_mask_cong [OF this] show "info_type s = info_type t" by (simp add: info_type_cases bit_mask_iff)
qed

interpretation severity_overflow: disjoint_fields severity set_severity SUBCODE_MASK status_overflow set_overflow "flag_mask 7"
  by unfold_locales (auto intro!: bit_word_eqI simp: field_bits)

interpretation severity_semantics: disjoint_fields severity set_severity SUBCODE_MASK semantics_changed set_semantics_changed "flag_mask 14"
  by unfold_locales (auto intro!: bit_word_eqI simp: field_bits)

interpretation semantics_overflow: disjoint_fields semantics_changed set_semantics_changed "flag_mask 14" status_overflow set_overflow "flag_mask 7"
  by unfold_locales (auto intro!: bit_word_eqI simp: field_bits)

interpretation overflow_semantics: disjoint_fields status_overflow set_overflow "flag_mask 7" semantics_changed set_semantics_changed "flag_mask 14"
  by unfold_locales (auto intro!: bit_word_eqI simp: field_bits)

section \<open>Properties\<close>

lemma set_bool_and: "n < 32 \<Longrightarrow> \<not> bit m n \<Longrightarrow> set_bool n v s AND m = s AND m"
  by (intro bit_word_eqI) (auto simp: bit_and_iff bit_set_bool)

lemma set_bool_drop: "n < k \<Longrightarrow> n < 32 \<Longrightarrow> drop_bit k (set_bool n v s) = drop_bit k s"
  by (intro bit_word_eqI) (auto simp: bit_drop_bit_eq bit_set_bool)

lemma set_info_type_and: "(\<And>n. bit m n \<Longrightarrow> 10 < n) \<Longrightarrow> set_info_type i s AND m = s AND m"
  by (intro bit_word_eqI) (force simp: bit_and_iff bit_setters)

lemma reserved_masks:
  "bit (push_bit 28 3 :: u32) n \<longleftrightarrow> n = 28 \<or> n = 29" "bit (push_bit 11 7 :: u32) n \<longleftrightarrow> n = 11 \<or> n = 12 \<or> n = 13"
  "bit (push_bit 5 3 :: u32) n \<longleftrightarrow> n = 5 \<or> n = 6"
proof -
  have "(7 :: u32) = mask 3" by (simp add: mask_eq_exp_minus_1)
  then show "bit (push_bit 11 7 :: u32) n \<longleftrightarrow> n = 11 \<or> n = 12 \<or> n = 13"
    by (simp only: bit_push_bit_iff bit_mask_iff) auto
  show "bit (push_bit 28 3 :: u32) n \<longleftrightarrow> n = 28 \<or> n = 29" "bit (push_bit 5 3 :: u32) n \<longleftrightarrow> n = 5 \<or> n = 6"
    by (simp_all only: bit_push_bit_iff three_bits) auto
qed

lemma validate_status_unchanged:
  assumes "drop_bit 30 t = drop_bit 30 s" "t AND SUBCODE_MASK = s AND SUBCODE_MASK" "t AND push_bit 28 3 = s AND push_bit 28 3"
    "t AND push_bit 11 7 = s AND push_bit 11 7" "t AND push_bit 5 3 = s AND push_bit 5 3" "validate_status s = Inr ()"
  shows "validate_status t = (if info_type t = Info_NotUsed \<and> t AND INFO_BITS_MASK \<noteq> 0 then Inl InvalidInfoBits else Inr ())"
proof -
  have "sub_code t = sub_code s" using assms(2) by (simp only: sub_code_def)
  then show ?thesis
    using assms(6) unfolding validate_status_def assms(1,3-5) by (auto split: if_splits)
qed

lemma set_overflow_masks:
  "drop_bit 30 (set_overflow v s) = drop_bit 30 s" "set_overflow v s AND SUBCODE_MASK = s AND SUBCODE_MASK"
  "set_overflow v s AND push_bit 28 3 = s AND push_bit 28 3" "set_overflow v s AND push_bit 11 7 = s AND push_bit 11 7"
  "set_overflow v s AND push_bit 5 3 = s AND push_bit 5 3"
  unfolding set_overflow_def
  by ((rule set_bool_drop set_bool_and; simp only: reserved_masks mask_bits; simp)+)

lemma set_info_type_masks:
  "drop_bit 30 (set_info_type i s) = drop_bit 30 s" "set_info_type i s AND SUBCODE_MASK = s AND SUBCODE_MASK"
  "set_info_type i s AND push_bit 28 3 = s AND push_bit 28 3" "set_info_type i s AND push_bit 11 7 = s AND push_bit 11 7"
  "(\<not> bit s 5 \<and> \<not> bit s 6) \<Longrightarrow> set_info_type i s AND push_bit 5 3 = s AND push_bit 5 3"
proof -
  show "drop_bit 30 (set_info_type i s) = drop_bit 30 s"
    by (intro bit_word_eqI) (auto simp: bit_drop_bit_eq bit_setters)
  show "set_info_type i s AND SUBCODE_MASK = s AND SUBCODE_MASK"
    "set_info_type i s AND push_bit 28 3 = s AND push_bit 28 3" "set_info_type i s AND push_bit 11 7 = s AND push_bit 11 7"
    by (rule set_info_type_and; auto simp only: mask_bits reserved_masks; simp)+
  assume "\<not> bit s 5 \<and> \<not> bit s 6"
  then show "set_info_type i s AND push_bit 5 3 = s AND push_bit 5 3"
    by (intro bit_word_eqI) (use reserved_masks(3) in \<open>force simp: bit_and_iff bit_setters simp del: push_bit_numeral\<close>)
qed

text \<open>The overflow flag needs the info type. A valid status code without info type that gets the overflow
  flag alone, as the queue of a monitored item sets it, is one that \<open>validate\<close> rejects for its info bits;
  when the info type is set to data value first, the flagged code is valid, carries the flag and
  keeps its severity.\<close>

theorem overflow_flag_needs_info_type:
  assumes "validate_status s = Inr ()" "info_type s = Info_NotUsed"
  shows "validate_status (set_overflow True s) = Inl InvalidInfoBits
     \<and> validate_status (set_overflow True (set_info_type Info_DataValue s)) = Inr ()
     \<and> status_overflow (set_overflow True (set_info_type Info_DataValue s))
     \<and> severity (set_overflow True (set_info_type Info_DataValue s)) = severity s"
proof -
  let ?d = "set_info_type Info_DataValue s"
  have "bit (set_overflow True s AND INFO_BITS_MASK) 7"
    by (simp add: bit_and_iff mask_bits set_overflow_def bit_set_bool)
  then have "set_overflow True s AND INFO_BITS_MASK \<noteq> 0" by (metis bit_0_eq bot_apply bot_bool_def)
  moreover have "info_type (set_overflow True s) = Info_NotUsed"
    using assms(2) by (simp add: info_type_cases set_overflow_def bit_set_bool split: if_splits)
  ultimately have bad: "validate_status (set_overflow True s) = Inl InvalidInfoBits"
    using validate_status_unchanged [OF set_overflow_masks assms(1)] by simp
  have "s AND push_bit 5 3 = 0"
    using assms(1) by (simp add: validate_status_def del: push_bit_numeral split: if_splits)
  then have r: "\<not> bit s 5 \<and> \<not> bit s 6"
    using reserved_masks(3) by (metis bit_0_eq bit_and_iff bot_apply bot_bool_def)
  have d: "validate_status ?d = Inr ()"
    using validate_status_unchanged [OF set_info_type_masks(1-4) set_info_type_masks(5) [OF r] assms(1)]
    by (simp add: f_info_type.get_set)
  have "info_type (set_overflow True ?d) = Info_DataValue"
    using f_info_type.get_set [of Info_DataValue s] by (simp add: info_type_cases set_overflow_def bit_set_bool split: if_splits)
  then have "validate_status (set_overflow True ?d) = Inr ()"
    using validate_status_unchanged [OF set_overflow_masks d] by simp
  moreover have "severity ?d = severity s" by (simp add: severity_cases bit_setters)
  ultimately show ?thesis
    using bad f_overflow.get_set [of True] severity_overflow.get_other [of True ?d] by simp
qed

theorem overflow_flag_needs_info_type_witness:
  "validate_status (set_overflow True Good) = Inl InvalidInfoBits
   \<and> validate_status (set_overflow True (set_info_type Info_DataValue Good)) = Inr ()"
proof -
  have "sub_code Good = 0" by (simp add: sub_code_def Good_def sub_code_values_def List.member_iff)
  then have "validate_status Good = Inr ()" "info_type Good = Info_NotUsed"
    by (simp_all add: validate_status_def Good_def info_type_def SubStatusCode_Invalid_def)
  from overflow_flag_needs_info_type [OF this] show ?thesis by simp
qed

end
