(* ===== verification/Monitored_Items.thy ===== *)
theory Monitored_Items
  imports Status_Codes
begin

text \<open>
  Monitored items of a subscription: \<open>async-opcua-server/src/subscriptions/monitored_item.rs\<close> with
  \<open>monitored_item/filters.rs\<close> and \<open>monitored_item/triggering.rs\<close>, built with the features
  \<open>events\<close>, \<open>subscriptions-standard\<close> and \<open>history-aggregates\<close>.

  An item filters the values and events of one attribute and keeps those to be reported in a bounded
  queue. Values are of any type \<open>'v\<close>, \<open>Variant::Empty\<close> told apart; the deadband comparison, the index
  range, the event filter and the aggregate are functions stored in the item, as the code stores the parsed
  filter. Time is a number of nanoseconds, and \<open>add_time\<close> stands for chrono's checked addition.
\<close>

section \<open>Values and notifications\<close>

datatype 'v Variant = Variant_Empty | Variant_Value 'v

record 'v DataValue =
  dv_value :: "'v Variant option"
  dv_status :: "StatusCode option"
  dv_source_timestamp :: "int option"
  dv_source_picoseconds :: "u16 option"
  dv_server_timestamp :: "int option"
  dv_server_picoseconds :: "u16 option"

definition data_value_status :: "'v DataValue \<Rightarrow> StatusCode" where
  "data_value_status v = (case dv_status v of None \<Rightarrow> Good | Some s \<Rightarrow> s)"

record 'v MonitoredItemNotification =
  min_client_handle :: u32
  min_value :: "'v DataValue"

datatype ('v, 'e) Notification =
    N_Data "'v MonitoredItemNotification"
  | N_Event 'e

section \<open>Filters\<close>

datatype DataChangeTrigger = Trigger_Status | Trigger_StatusValue | Trigger_StatusValueTimestamp

record 'v ParsedDataChangeFilter =
  dcf_trigger :: DataChangeTrigger
  dcf_deadband :: "'v Variant \<Rightarrow> 'v Variant \<Rightarrow> bool"

definition is_changed_option :: "('v Variant \<Rightarrow> 'v Variant \<Rightarrow> bool) \<Rightarrow> 'v Variant option \<Rightarrow> 'v Variant option \<Rightarrow> bool" where
  "is_changed_option changed v1 v2 =
     (case (v1, v2) of
        (Some _, None) \<Rightarrow> True
      | (None, Some _) \<Rightarrow> True
      | (None, None) \<Rightarrow> False
      | (Some a, Some b) \<Rightarrow> changed a b)"

definition dcf_is_changed :: "'v ParsedDataChangeFilter \<Rightarrow> 'v DataValue \<Rightarrow> 'v DataValue \<Rightarrow> bool" where
  "dcf_is_changed f new old =
     (case dcf_trigger f of
        Trigger_Status \<Rightarrow> dv_status new \<noteq> dv_status old
      | Trigger_StatusValue \<Rightarrow>
          dv_status new \<noteq> dv_status old \<or> is_changed_option (dcf_deadband f) (dv_value new) (dv_value old)
      | Trigger_StatusValueTimestamp \<Rightarrow>
          dv_status new \<noteq> dv_status old \<or> dv_source_timestamp new \<noteq> dv_source_timestamp old
          \<or> dv_source_picoseconds new \<noteq> dv_source_picoseconds old
          \<or> is_changed_option (dcf_deadband f) (dv_value new) (dv_value old))"

text \<open>The input of an aggregate over one processing interval.\<close>

record 'v AggregateInput =
  ai_values :: "'v DataValue list"
  ai_prior :: "'v DataValue option"
  ai_next :: "'v DataValue option"
  ai_interval_start :: int
  ai_interval_end :: int

text \<open>\<open>agg_interval\<close> is the processing interval in microseconds, the value of \<open>(processing_interval * 1000.0) as i64\<close>.\<close>

record 'v ParsedAggregateFilter =
  agg_interval :: int
  agg_dispatch :: "'v AggregateInput \<Rightarrow> 'v DataValue"

datatype ('v, 'e, 'f) FilterType =
    Filter_None
  | Filter_DataChange "'v ParsedDataChangeFilter"
  | Filter_Event "'e \<Rightarrow> u32 \<Rightarrow> 'f option"
  | Filter_Aggregate "'v ParsedAggregateFilter"

section \<open>The item\<close>

datatype MonitoringMode = Mode_Disabled | Mode_Sampling | Mode_Reporting | Mode_Invalid i32
datatype TimestampsToReturn = TTR_Source | TTR_Server | TTR_Both | TTR_Neither | TTR_Invalid
datatype SamplingInterval = SI_Subscription | SI_Zero | SI_NonZero int

record ('v, 'e, 'f) MonitoredItem =
  mi_id :: u32
  mi_index_range :: "('v Variant \<Rightarrow> StatusCode + 'v Variant) option"
  mi_monitoring_mode :: MonitoringMode
  mi_triggered_items :: "u32 list"
  mi_client_handle :: u32
  mi_sampling_interval :: SamplingInterval
  mi_filter :: "('v, 'e, 'f) FilterType"
  mi_discard_oldest :: bool
  mi_queue_size :: nat
  mi_notification_queue :: "('v, 'f) Notification list"
  mi_overflow_event :: "'f option"
  mi_timestamps_to_return :: TimestampsToReturn
  mi_last_data_value :: "'v DataValue option"
  mi_sample_skipped_data_value :: "'v DataValue option"
  mi_sample_skipped_before_semantics_changed :: bool
  mi_any_new_notification :: bool
  mi_semantics_changed :: bool
  mi_aggregate_buffer :: "'v DataValue list"
  mi_aggregate_next_deadline :: "int option"

definition sanitize_queue_size :: "nat \<Rightarrow> nat \<Rightarrow> nat" where
  "sanitize_queue_size max_queue_size requested =
     (if requested = 0 \<or> requested = 1 then 1
      else if max_queue_size < requested then max_queue_size
      else requested)"

definition is_event_item :: "('v, 'e, 'f) MonitoredItem \<Rightarrow> bool" where
  "is_event_item i = (case mi_filter i of Filter_Event _ \<Rightarrow> True | _ \<Rightarrow> False)"

definition is_reporting :: "('v, 'e, 'f) MonitoredItem \<Rightarrow> bool" where
  "is_reporting i \<longleftrightarrow> mi_monitoring_mode i = Mode_Reporting"

definition is_sampling :: "('v, 'e, 'f) MonitoredItem \<Rightarrow> bool" where
  "is_sampling i \<longleftrightarrow> mi_monitoring_mode i \<in> {Mode_Reporting, Mode_Sampling}"

definition has_notifications :: "('v, 'e, 'f) MonitoredItem \<Rightarrow> bool" where
  "has_notifications i \<longleftrightarrow> mi_notification_queue i \<noteq> [] \<or> mi_overflow_event i \<noteq> None"

definition has_last_value :: "('v, 'e, 'f) MonitoredItem \<Rightarrow> bool" where
  "has_last_value i \<longleftrightarrow> mi_last_data_value i \<noteq> None"

subsection \<open>The notification queue\<close>

definition notification_semantics_changed :: "('v, 'f) Notification \<Rightarrow> bool" where
  "notification_semantics_changed n =
     (case n of N_Data d \<Rightarrow> semantics_changed (data_value_status (min_value d)) | N_Event _ \<Rightarrow> False)"

definition update_status :: "(StatusCode \<Rightarrow> StatusCode) \<Rightarrow> 'v MonitoredItemNotification \<Rightarrow> 'v MonitoredItemNotification" where
  "update_status f d = d\<lparr>min_value := (min_value d)\<lparr>dv_status := Some (f (data_value_status (min_value d)))\<rparr>\<rparr>"

definition set_notification_semantics_changed :: "('v, 'f) Notification \<Rightarrow> bool \<times> ('v, 'f) Notification" where
  "set_notification_semantics_changed n =
     (case n of
        N_Data d \<Rightarrow> (True, N_Data (update_status (set_semantics_changed True) d))
      | N_Event e \<Rightarrow> (False, N_Event e))"

definition set_notification_overflow :: "('v, 'f) Notification \<Rightarrow> ('v, 'f) Notification" where
  "set_notification_overflow n =
     (case n of N_Data d \<Rightarrow> N_Data (update_status (set_overflow True) d) | N_Event e \<Rightarrow> N_Event e)"

fun carry_to_first :: "('v, 'f) Notification list \<Rightarrow> bool \<times> ('v, 'f) Notification list" where
  "carry_to_first [] = (False, [])"
| "carry_to_first (n # ns) =
     (case set_notification_semantics_changed n of
        (True, n') \<Rightarrow> (True, n' # ns)
      | (False, n') \<Rightarrow> (case carry_to_first ns of (b, ns') \<Rightarrow> (b, n' # ns')))"

definition carry_semantics_changed :: "('v, 'e, 'f) MonitoredItem \<Rightarrow> ('v, 'e, 'f) MonitoredItem" where
  "carry_semantics_changed i =
     (case carry_to_first (mi_notification_queue i) of
        (True, q) \<Rightarrow> i\<lparr>mi_notification_queue := q\<rparr>
      | (False, q) \<Rightarrow> i\<lparr>mi_notification_queue := q, mi_semantics_changed := True\<rparr>)"

definition mi_enqueue_notification ::
    "('v, 'f) Notification \<Rightarrow> ('v, 'e, 'f) MonitoredItem \<Rightarrow> ('v, 'e, 'f) MonitoredItem" where
  "mi_enqueue_notification n i0 =
     (let i = i0\<lparr>mi_any_new_notification := True\<rparr>; q = mi_notification_queue i
      in if length q \<noteq> mi_queue_size i then i\<lparr>mi_notification_queue := q @ [n]\<rparr>
         else if mi_discard_oldest i then
           let discarded = (case q of [] \<Rightarrow> False | d # _ \<Rightarrow> notification_semantics_changed d);
               q1 = tl q @ [n];
               q2 = (if 1 < mi_queue_size i then (case q1 of [] \<Rightarrow> [] | f # r \<Rightarrow> set_notification_overflow f # r) else q1);
               i1 = i\<lparr>mi_notification_queue := q2\<rparr>
           in if discarded then carry_semantics_changed i1 else i1
         else
           let discarded = (if q = [] then False else notification_semantics_changed (last q));
               n1 = (if 1 < mi_queue_size i then set_notification_overflow n else n)
           in if discarded then
                (case set_notification_semantics_changed n1 of
                   (True, n2) \<Rightarrow> i\<lparr>mi_notification_queue := butlast q @ [n2]\<rparr>
                 | (False, n2) \<Rightarrow> i\<lparr>mi_notification_queue := butlast q @ [n2], mi_semantics_changed := True\<rparr>)
              else i\<lparr>mi_notification_queue := butlast q @ [n1]\<rparr>)"

definition pop_notification ::
    "('v, 'e, 'f) MonitoredItem \<Rightarrow> ('v, 'f) Notification option \<times> ('v, 'e, 'f) MonitoredItem" where
  "pop_notification i =
     (case mi_overflow_event i of
        Some e \<Rightarrow>
          if mi_discard_oldest i then (Some (N_Event e), i\<lparr>mi_overflow_event := None\<rparr>)
          else (case mi_notification_queue i of
                  n # q \<Rightarrow> (Some n, i\<lparr>mi_notification_queue := q\<rparr>)
                | [] \<Rightarrow> (Some (N_Event e), i\<lparr>mi_overflow_event := None\<rparr>))
      | None \<Rightarrow>
          (case mi_notification_queue i of
             n # q \<Rightarrow> (Some n, i\<lparr>mi_notification_queue := q\<rparr>)
           | [] \<Rightarrow> (None, i)))"

text \<open>As in the code, the front of the queue is compared with the last value, which is not what
  \<open>timestamps_to_return\<close> left of it.\<close>

definition add_current_value_to_queue :: "('v, 'e, 'f) MonitoredItem \<Rightarrow> ('v, 'e, 'f) MonitoredItem" where
  "add_current_value_to_queue i =
     (let queued = (case mi_notification_queue i of
                      N_Data d # _ \<Rightarrow> Some (min_value d) = mi_last_data_value i
                    | _ \<Rightarrow> False)
      in if queued then i
         else case mi_last_data_value i of
                None \<Rightarrow> i
              | Some v \<Rightarrow> mi_enqueue_notification (N_Data \<lparr>min_client_handle = mi_client_handle i, min_value = v\<rparr>) i)"

subsection \<open>Data values\<close>

definition apply_timestamps_to_return :: "TimestampsToReturn \<Rightarrow> 'v DataValue \<Rightarrow> 'v DataValue" where
  "apply_timestamps_to_return t v =
     (case t of
        TTR_Source \<Rightarrow> v\<lparr>dv_server_timestamp := None, dv_server_picoseconds := None\<rparr>
      | TTR_Server \<Rightarrow> v\<lparr>dv_source_timestamp := None, dv_source_picoseconds := None\<rparr>
      | TTR_Both \<Rightarrow> v
      | _ \<Rightarrow> v\<lparr>dv_source_timestamp := None, dv_source_picoseconds := None,
              dv_server_timestamp := None, dv_server_picoseconds := None\<rparr>)"

definition filter_by_sampling_interval :: "SamplingInterval \<Rightarrow> 'v DataValue \<Rightarrow> 'v DataValue \<Rightarrow> bool \<Rightarrow> bool" where
  "filter_by_sampling_interval si old new from_subscription_tick =
     (case (dv_source_timestamp old, dv_source_timestamp new) of
        (Some t_old, Some t_new) \<Rightarrow>
          (case si of
             SI_Subscription \<Rightarrow> from_subscription_tick
           | SI_Zero \<Rightarrow> True
           | SI_NonZero interval \<Rightarrow> interval \<le> t_new - t_old)
      | _ \<Rightarrow> True)"

definition sampling_interval_as_time_delta :: "SamplingInterval \<Rightarrow> int" where
  "sampling_interval_as_time_delta si = (case si of SI_NonZero d \<Rightarrow> d | _ \<Rightarrow> 0)"

definition apply_index_range :: "('v, 'e, 'f) MonitoredItem \<Rightarrow> 'v DataValue \<Rightarrow> 'v DataValue" where
  "apply_index_range i v =
     (case (mi_index_range i, dv_value v) of
        (Some range_of, Some x) \<Rightarrow>
          (case range_of x of
             Inr r \<Rightarrow> v\<lparr>dv_value := Some r\<rparr>
           | Inl e \<Rightarrow> v\<lparr>dv_status := Some e, dv_value := Some Variant_Empty\<rparr>)
      | _ \<Rightarrow> v)"

text \<open>The two tests of a value: does the filter let it through, and is it late enough for the sampling interval.\<close>

definition value_tests :: "('v, 'e, 'f) MonitoredItem \<Rightarrow> 'v DataValue \<Rightarrow> bool \<Rightarrow> bool \<times> bool" where
  "value_tests i v tick =
     (case (mi_last_data_value i, mi_filter i) of
        (Some last_dv, Filter_DataChange f) \<Rightarrow>
          (dcf_is_changed f v last_dv, filter_by_sampling_interval (mi_sampling_interval i) last_dv v tick)
      | (Some last_dv, Filter_None) \<Rightarrow>
          (dv_value v \<noteq> dv_value last_dv, filter_by_sampling_interval (mi_sampling_interval i) last_dv v tick)
      | (None, _) \<Rightarrow> (True, True)
      | _ \<Rightarrow> (False, False))"

text \<open>A value that has passed the tests goes into the queue.\<close>

definition report_value :: "'v DataValue \<Rightarrow> ('v, 'e, 'f) MonitoredItem \<Rightarrow> ('v, 'e, 'f) MonitoredItem" where
  "report_value v i =
     (let i1 = i\<lparr>mi_last_data_value := Some v\<rparr>;
          v1 = apply_timestamps_to_return (mi_timestamps_to_return i) v;
          n = \<lparr>min_client_handle = mi_client_handle i, min_value = v1\<rparr>
      in if mi_semantics_changed i1
         then mi_enqueue_notification (N_Data (update_status (set_semantics_changed True) n)) (i1\<lparr>mi_semantics_changed := False\<rparr>)
         else mi_enqueue_notification (N_Data n) i1)"

text \<open>\<open>notify_data_value\<close> after the treatment of a skipped value; \<open>extra\<close> tells whether that was reported.\<close>

definition notify_value ::
    "(int \<Rightarrow> int \<Rightarrow> int option) \<Rightarrow> 'v DataValue \<Rightarrow> int \<Rightarrow> bool \<Rightarrow> bool \<Rightarrow> ('v, 'e, 'f) MonitoredItem
     \<Rightarrow> bool \<times> ('v, 'e, 'f) MonitoredItem" where
  "notify_value add_time value0 now tick extra i =
     (let v = apply_index_range i value0
      in case mi_filter i of
           Filter_Aggregate _ \<Rightarrow> (True, i\<lparr>mi_aggregate_buffer := mi_aggregate_buffer i @ [v]\<rparr>)
         | _ \<Rightarrow>
             let (matches_filter, matches_sampling_interval) = value_tests i v tick
             in if \<not> matches_filter then (extra, i)
                else if \<not> matches_sampling_interval then
                  let t = (case Option.bind (mi_last_data_value i) dv_source_timestamp of None \<Rightarrow> now | Some t \<Rightarrow> t)
                  in (True, i\<lparr>mi_sample_skipped_data_value :=
                                Some (v\<lparr>dv_source_timestamp :=
                                          add_time t (sampling_interval_as_time_delta (mi_sampling_interval i))\<rparr>),
                              mi_sample_skipped_before_semantics_changed := False\<rparr>)
                else (True, report_value v i))"

text \<open>Reporting a value that was sampled before the pending change of semantics: the flag waits for the next one.\<close>

definition without_semantics_flag ::
    "(('v, 'e, 'f) MonitoredItem \<Rightarrow> bool \<times> ('v, 'e, 'f) MonitoredItem) \<Rightarrow> ('v, 'e, 'f) MonitoredItem
     \<Rightarrow> bool \<times> ('v, 'e, 'f) MonitoredItem" where
  "without_semantics_flag f i =
     (case f (i\<lparr>mi_semantics_changed := False\<rparr>) of
        (b, i') \<Rightarrow> (b, i'\<lparr>mi_semantics_changed := mi_semantics_changed i' \<or> mi_semantics_changed i\<rparr>))"

text \<open>The recursive call of the code meets an item whose skipped value has just been taken, so it is the part
  above; the skipped value is used when it is due and not later than the value that comes in.\<close>

definition mi_notify_data_value ::
    "(int \<Rightarrow> int \<Rightarrow> int option) \<Rightarrow> 'v DataValue \<Rightarrow> int \<Rightarrow> bool \<Rightarrow> ('v, 'e, 'f) MonitoredItem
     \<Rightarrow> bool \<times> ('v, 'e, 'f) MonitoredItem" where
  "mi_notify_data_value add_time v now tick i =
     (if mi_monitoring_mode i = Mode_Disabled then (False, i)
      else
        let (extra, i1) =
              (case mi_sample_skipped_data_value i of
                 None \<Rightarrow> (False, i)
               | Some skipped \<Rightarrow>
                   let before = mi_sample_skipped_before_semantics_changed i;
                       i' = i\<lparr>mi_sample_skipped_data_value := None, mi_sample_skipped_before_semantics_changed := False\<rparr>
                   in if (case dv_source_timestamp skipped of
                            None \<Rightarrow> False
                          | Some t \<Rightarrow> t \<le> now \<and> (case dv_source_timestamp v of None \<Rightarrow> True | Some t2 \<Rightarrow> t \<le> t2))
                      then if before then without_semantics_flag (notify_value add_time skipped now False False) i'
                           else notify_value add_time skipped now False False i'
                      else (False, i'))
        in notify_value add_time v now tick extra i1)"

definition maybe_enqueue_skipped_value ::
    "(int \<Rightarrow> int \<Rightarrow> int option) \<Rightarrow> int \<Rightarrow> ('v, 'e, 'f) MonitoredItem \<Rightarrow> bool \<times> ('v, 'e, 'f) MonitoredItem" where
  "maybe_enqueue_skipped_value add_time now i =
     (let before = mi_sample_skipped_before_semantics_changed i;
          i' = i\<lparr>mi_sample_skipped_before_semantics_changed := False, mi_sample_skipped_data_value := None\<rparr>
      in case mi_sample_skipped_data_value i of
           None \<Rightarrow> (False, i')
         | Some v \<Rightarrow>
             if (case dv_source_timestamp v of None \<Rightarrow> False | Some t \<Rightarrow> t \<le> now)
             then (True, snd (if before then without_semantics_flag (mi_notify_data_value add_time v now True) i'
                              else mi_notify_data_value add_time v now True i'))
             else (False, i))"

definition notify_eu_range_changed :: "('v Variant \<Rightarrow> 'v Variant \<Rightarrow> bool) option \<Rightarrow> ('v, 'e, 'f) MonitoredItem \<Rightarrow> ('v, 'e, 'f) MonitoredItem" where
  "notify_eu_range_changed new_deadband i =
     (let i1 = (case (mi_filter i, new_deadband) of
                  (Filter_DataChange f, Some d) \<Rightarrow> i\<lparr>mi_filter := Filter_DataChange (f\<lparr>dcf_deadband := d\<rparr>)\<rparr>
                | _ \<Rightarrow> i)
      in if (case mi_filter i1 of Filter_Event _ \<Rightarrow> True | Filter_Aggregate _ \<Rightarrow> True | _ \<Rightarrow> False) then i1
         else i1\<lparr>mi_sample_skipped_before_semantics_changed :=
                    (if mi_sample_skipped_data_value i1 \<noteq> None then True else mi_sample_skipped_before_semantics_changed i1),
                 mi_semantics_changed := True\<rparr>)"

subsection \<open>Events\<close>

text \<open>\<open>overflow\<close> is the freshly made \<open>EventQueueOverflowEventType\<close> event.\<close>

definition mi_notify_event :: "'e \<Rightarrow> 'e \<Rightarrow> ('v, 'e, 'f) MonitoredItem \<Rightarrow> bool \<times> ('v, 'e, 'f) MonitoredItem" where
  "mi_notify_event overflow event i =
     (if mi_monitoring_mode i = Mode_Disabled then (False, i)
      else case mi_filter i of
             Filter_Event evaluate \<Rightarrow>
               (case evaluate event (mi_client_handle i) of
                  None \<Rightarrow> (False, i)
                | Some n \<Rightarrow>
                    let ov = (if mi_queue_size i \<le> length (mi_notification_queue i) \<and> 1 < mi_queue_size i
                                 \<and> mi_overflow_event i = None
                              then evaluate overflow (mi_client_handle i) else None);
                        i1 = (case ov of None \<Rightarrow> i
                              | Some e \<Rightarrow> i\<lparr>mi_overflow_event := Some e, mi_any_new_notification := True\<rparr>)
                    in (True, mi_enqueue_notification (N_Event n) i1))
           | _ \<Rightarrow> (False, i))"

subsection \<open>Triggering\<close>

definition set_triggering :: "u32 list \<Rightarrow> u32 list \<Rightarrow> ('v, 'e, 'f) MonitoredItem \<Rightarrow> ('v, 'e, 'f) MonitoredItem" where
  "set_triggering to_add to_remove i =
     i\<lparr>mi_triggered_items := fold os_insert to_add (fold os_remove to_remove (mi_triggered_items i))\<rparr>"

definition remove_dead_trigger :: "u32 \<Rightarrow> ('v, 'e, 'f) MonitoredItem \<Rightarrow> ('v, 'e, 'f) MonitoredItem" where
  "remove_dead_trigger x i = i\<lparr>mi_triggered_items := os_remove x (mi_triggered_items i)\<rparr>"

definition has_new_notifications :: "('v, 'e, 'f) MonitoredItem \<Rightarrow> bool \<times> ('v, 'e, 'f) MonitoredItem" where
  "has_new_notifications i = (mi_any_new_notification i, i\<lparr>mi_any_new_notification := False\<rparr>)"

definition set_monitoring_mode :: "MonitoringMode \<Rightarrow> ('v, 'e, 'f) MonitoredItem \<Rightarrow> ('v, 'e, 'f) MonitoredItem" where
  "set_monitoring_mode m i = i\<lparr>mi_monitoring_mode := m\<rparr>"

subsection \<open>Aggregates\<close>

definition add_micros :: "(int \<Rightarrow> int \<Rightarrow> int option) \<Rightarrow> int \<Rightarrow> int \<Rightarrow> int" where
  "add_micros add_time t us = (case add_time t (us * 1000) of None \<Rightarrow> t | Some t' \<Rightarrow> t')"

text \<open>The samples of an interval, the last one before and the first one after it.\<close>

definition aggregate_input :: "'v DataValue list \<Rightarrow> int \<Rightarrow> int \<Rightarrow> 'v AggregateInput" where
  "aggregate_input buf interval_start interval_end =
     (let ts = (\<lambda>dv. case dv_source_timestamp dv of None \<Rightarrow> interval_start | Some t \<Rightarrow> t);
          before = filter (\<lambda>dv. ts dv < interval_start) buf;
          after = filter (\<lambda>dv. interval_end < ts dv) buf
      in \<lparr>ai_values = filter (\<lambda>dv. interval_start \<le> ts dv \<and> ts dv \<le> interval_end) buf,
          ai_prior = (if before = [] then None else Some (last before)),
          ai_next = (if after = [] then None else Some (hd after)),
          ai_interval_start = interval_start, ai_interval_end = interval_end\<rparr>)"

definition aggregate_value ::
    "(int \<Rightarrow> int \<Rightarrow> int option) \<Rightarrow> 'v ParsedAggregateFilter \<Rightarrow> 'v DataValue list \<Rightarrow> int \<Rightarrow> 'v DataValue" where
  "aggregate_value add_time f buf deadline =
     (agg_dispatch f (aggregate_input buf (add_micros add_time deadline (- agg_interval f)) deadline))
       \<lparr>dv_source_timestamp := Some deadline, dv_server_timestamp := Some deadline\<rparr>"

text \<open>The loop over the elapsed intervals: the values it produces and the next deadline, or \<open>None\<close> when it never ends.\<close>

partial_function (option) aggregate_loop ::
    "(int \<Rightarrow> int \<Rightarrow> int option) \<Rightarrow> 'v ParsedAggregateFilter \<Rightarrow> 'v DataValue list \<Rightarrow> int \<Rightarrow> int
     \<Rightarrow> ('v DataValue list \<times> int) option" where
  "aggregate_loop add_time f buf now deadline =
     (if deadline \<le> now
      then Option.bind (aggregate_loop add_time f buf now (add_micros add_time deadline (agg_interval f)))
             (\<lambda>(vs, d). Some (aggregate_value add_time f buf deadline # vs, d))
      else Some ([], deadline))"

text \<open>Drops the samples before the last one that precedes the next interval.\<close>

definition retain_samples :: "int \<Rightarrow> 'v DataValue list \<Rightarrow> 'v DataValue list" where
  "retain_samples next_start buf =
     (let early = (\<lambda>dv. case dv_source_timestamp dv of None \<Rightarrow> False | Some t \<Rightarrow> t < next_start)
      in if list_ex early buf
         then drop (length buf - length (takeWhile (\<lambda>dv. \<not> early dv) (rev buf)) - 1) buf
         else buf)"

definition maybe_flush_aggregate ::
    "(int \<Rightarrow> int \<Rightarrow> int option) \<Rightarrow> int \<Rightarrow> ('v, 'e, 'f) MonitoredItem \<Rightarrow> (bool \<times> ('v, 'e, 'f) MonitoredItem) option" where
  "maybe_flush_aggregate add_time now i =
     (case (mi_filter i, mi_aggregate_next_deadline i) of
        (Filter_Aggregate f, Some deadline0) \<Rightarrow>
          Option.bind (aggregate_loop add_time f (mi_aggregate_buffer i) now deadline0) (\<lambda>(produced, deadline).
            if produced = [] then Some (False, i)
            else
              let i1 = i\<lparr>mi_aggregate_next_deadline := Some deadline,
                         mi_aggregate_buffer :=
                           retain_samples (add_micros add_time deadline (- agg_interval f)) (mi_aggregate_buffer i)\<rparr>
              in Some (True, fold (\<lambda>v. mi_enqueue_notification
                          (N_Data \<lparr>min_client_handle = mi_client_handle i1,
                                   min_value = apply_timestamps_to_return (mi_timestamps_to_return i1) v\<rparr>))
                        produced i1))
      | _ \<Rightarrow> Some (False, i))"

subsection \<open>Creating and modifying\<close>

definition waiting_for_initial_data :: "int \<Rightarrow> 'v DataValue" where
  "waiting_for_initial_data now =
     \<lparr>dv_value = Some Variant_Empty, dv_status = Some 0x80320000, dv_source_timestamp = Some now,
      dv_source_picoseconds = None, dv_server_timestamp = Some now, dv_server_picoseconds = None\<rparr>"

record ('v, 'e, 'f) CreateMonitoredItem =
  cmi_id :: u32
  cmi_index_range :: "('v Variant \<Rightarrow> StatusCode + 'v Variant) option"
  cmi_monitoring_mode :: MonitoringMode
  cmi_client_handle :: u32
  cmi_discard_oldest :: bool
  cmi_queue_size :: nat
  cmi_sampling_interval :: SamplingInterval
  cmi_initial_value :: "'v DataValue option"
  cmi_filter :: "('v, 'e, 'f) FilterType"
  cmi_timestamps_to_return :: TimestampsToReturn

definition revise_queue_size :: "nat \<Rightarrow> ('v, 'e, 'f) CreateMonitoredItem \<Rightarrow> ('v, 'e, 'f) CreateMonitoredItem" where
  "revise_queue_size n c =
     (if n < cmi_queue_size c \<and> 0 < n \<or> cmi_queue_size c = 0 then c\<lparr>cmi_queue_size := n\<rparr> else c)"

definition MonitoredItem_new ::
    "(int \<Rightarrow> int \<Rightarrow> int option) \<Rightarrow> int \<Rightarrow> ('v, 'e, 'f) CreateMonitoredItem \<Rightarrow> ('v, 'e, 'f) MonitoredItem" where
  "MonitoredItem_new add_time now c =
     (let i = \<lparr>mi_id = cmi_id c, mi_index_range = cmi_index_range c, mi_monitoring_mode = cmi_monitoring_mode c,
               mi_triggered_items = [], mi_client_handle = cmi_client_handle c,
               mi_sampling_interval = cmi_sampling_interval c, mi_filter = cmi_filter c,
               mi_discard_oldest = cmi_discard_oldest c, mi_queue_size = cmi_queue_size c,
               mi_notification_queue = [], mi_overflow_event = None,
               mi_timestamps_to_return = cmi_timestamps_to_return c, mi_last_data_value = None,
               mi_sample_skipped_data_value = None, mi_sample_skipped_before_semantics_changed = False,
               mi_any_new_notification = False, mi_semantics_changed = False,
               mi_aggregate_buffer = [], mi_aggregate_next_deadline = None\<rparr>
      in case cmi_filter c of
           Filter_Aggregate f \<Rightarrow> i\<lparr>mi_aggregate_next_deadline := Some (add_micros add_time now (agg_interval f))\<rparr>
         | _ \<Rightarrow>
             snd (mi_notify_data_value add_time
                    (case cmi_initial_value c of Some v \<Rightarrow> v | None \<Rightarrow> waiting_for_initial_data now) now True i))"

text \<open>The values of a modify request, with the filter already parsed.\<close>

record ('v, 'e, 'f) ModifyMonitoredItem =
  mmi_timestamps_to_return :: TimestampsToReturn
  mmi_filter :: "StatusCode + ('v, 'e, 'f) FilterType"
  mmi_sampling_interval :: SamplingInterval
  mmi_queue_size :: nat
  mmi_client_handle :: u32
  mmi_discard_oldest :: bool

definition shrink_queue :: "bool \<Rightarrow> nat \<Rightarrow> ('v, 'f) Notification list \<Rightarrow> ('v, 'f) Notification list" where
  "shrink_queue discard_oldest n q =
     (if n < length q then (if discard_oldest then drop (length q - n) q else take n q) else q)"

definition mi_modify ::
    "(int \<Rightarrow> int \<Rightarrow> int option) \<Rightarrow> nat \<Rightarrow> int \<Rightarrow> ('v, 'e, 'f) ModifyMonitoredItem \<Rightarrow> ('v, 'e, 'f) MonitoredItem
     \<Rightarrow> StatusCode \<times> ('v, 'e, 'f) MonitoredItem" where
  "mi_modify add_time max_queue_size now r i0 =
     (let i = i0\<lparr>mi_timestamps_to_return := mmi_timestamps_to_return r\<rparr>
      in case mmi_filter r of
           Inl e \<Rightarrow> (e, i)
         | Inr f \<Rightarrow>
             let n = sanitize_queue_size max_queue_size (mmi_queue_size r)
             in (Good,
                 i\<lparr>mi_filter := f, mi_aggregate_buffer := [],
                   mi_aggregate_next_deadline :=
                     (case f of Filter_Aggregate a \<Rightarrow> Some (add_micros add_time now (agg_interval a)) | _ \<Rightarrow> None),
                   mi_sampling_interval := mmi_sampling_interval r, mi_queue_size := n,
                   mi_client_handle := mmi_client_handle r, mi_discard_oldest := mmi_discard_oldest r,
                   mi_notification_queue := shrink_queue (mmi_discard_oldest r) n (mi_notification_queue i)\<rparr>))"

section \<open>The queue is a bounded buffer\<close>

text \<open>A notification without the status, which the queue may flag.\<close>

fun erase_status :: "('v, 'f) Notification \<Rightarrow> ('v, 'f) Notification" where
  "erase_status (N_Data d) = N_Data (d\<lparr>min_value := (min_value d)\<lparr>dv_status := None\<rparr>\<rparr>)"
| "erase_status (N_Event e) = N_Event e"

definition notification_overflow :: "('v, 'f) Notification \<Rightarrow> bool" where
  "notification_overflow n = (case n of N_Data d \<Rightarrow> status_overflow (data_value_status (min_value d)) | N_Event _ \<Rightarrow> True)"

definition mi_inv :: "('v, 'e, 'f) MonitoredItem \<Rightarrow> bool" where
  "mi_inv i \<longleftrightarrow> 1 \<le> mi_queue_size i \<and> length (mi_notification_queue i) \<le> mi_queue_size i"

text \<open>What a buffer of \<open>n\<close> places does with one more element.\<close>

definition buffer_push :: "bool \<Rightarrow> nat \<Rightarrow> 'a \<Rightarrow> 'a list \<Rightarrow> 'a list" where
  "buffer_push discard_oldest n x q =
     (if length q < n then q @ [x] else if discard_oldest then tl q @ [x] else butlast q @ [x])"

lemma data_value_status_update [simp]:
  "data_value_status (min_value (update_status f d)) = f (data_value_status (min_value d))"
  by (simp add: update_status_def data_value_status_def)

lemma erase_status_flags [simp]:
  "erase_status (set_notification_overflow n) = erase_status n"
  "erase_status (snd (set_notification_semantics_changed n)) = erase_status n"
  by (cases n; simp add: set_notification_overflow_def set_notification_semantics_changed_def update_status_def)+

lemma set_flags_simps [simp]:
  "notification_overflow (set_notification_overflow n)"
  "notification_overflow (snd (set_notification_semantics_changed n)) = notification_overflow n"
  "notification_semantics_changed (set_notification_overflow n) = notification_semantics_changed n"
  "fst (set_notification_semantics_changed n) \<Longrightarrow> notification_semantics_changed (snd (set_notification_semantics_changed n))"
  by (cases n; simp add: set_notification_overflow_def set_notification_semantics_changed_def notification_overflow_def
      notification_semantics_changed_def f_overflow.get_set f_semantics.get_set semantics_overflow.get_other
      overflow_semantics.get_other)+

lemma carry_to_first_spec:
  "map erase_status (snd (carry_to_first q)) = map erase_status q"
  "map notification_overflow (snd (carry_to_first q)) = map notification_overflow q"
  "fst (carry_to_first q) \<Longrightarrow> list_ex notification_semantics_changed (snd (carry_to_first q))"
  "length (snd (carry_to_first q)) = length q"
proof (induction q)
  case (Cons n ns)
  obtain b n' where n: "set_notification_semantics_changed n = (b, n')" by fastforce
  have e: "erase_status n' = erase_status n" "notification_overflow n' = notification_overflow n"
    "b \<Longrightarrow> notification_semantics_changed n'"
    using erase_status_flags(2) [of n] set_flags_simps(2,4) [of n] by (simp_all add: n)
  { case 1 show ?case using Cons(1) n e(1) by (auto split: bool.split prod.split) }
  { case 2 show ?case using Cons(2) n e(2) by (auto split: bool.split prod.split) }
  { case 3 then show ?case using Cons(3) n e(3) by (auto split: bool.splits prod.splits) }
  { case 4 show ?case using Cons(4) n by (auto split: bool.split prod.split) }
qed simp_all

lemma carry_semantics_changed_spec:
  "map erase_status (mi_notification_queue (carry_semantics_changed i)) = map erase_status (mi_notification_queue i)"
  "map notification_overflow (mi_notification_queue (carry_semantics_changed i)) = map notification_overflow (mi_notification_queue i)"
  "mi_semantics_changed (carry_semantics_changed i) \<or> list_ex notification_semantics_changed (mi_notification_queue (carry_semantics_changed i))"
  using carry_to_first_spec [of "mi_notification_queue i"]
  by (auto simp: carry_semantics_changed_def split: prod.split bool.split)

text \<open>Everything but the queue and the flags is left alone.\<close>

definition same_item :: "('v, 'e, 'f) MonitoredItem \<Rightarrow> ('v, 'e, 'f) MonitoredItem \<Rightarrow> bool" where
  "same_item i j \<longleftrightarrow>
     mi_id i = mi_id j \<and> mi_queue_size i = mi_queue_size j \<and> mi_discard_oldest i = mi_discard_oldest j
     \<and> mi_filter i = mi_filter j \<and> mi_monitoring_mode i = mi_monitoring_mode j \<and> mi_overflow_event i = mi_overflow_event j
     \<and> mi_client_handle i = mi_client_handle j \<and> mi_timestamps_to_return i = mi_timestamps_to_return j"

lemma same_item_carry [simp]: "same_item (carry_semantics_changed i) i"
  by (auto simp: same_item_def carry_semantics_changed_def split: prod.split bool.split)

lemma enqueue_same_item: "same_item (mi_enqueue_notification n i) i"
  by (auto simp: mi_enqueue_notification_def Let_def same_item_def carry_semantics_changed_def split: prod.split bool.split)

lemma enqueue_queue:
  assumes "mi_inv i"
  shows "map erase_status (mi_notification_queue (mi_enqueue_notification n i))
     = buffer_push (mi_discard_oldest i) (mi_queue_size i) (erase_status n) (map erase_status (mi_notification_queue i))"
proof -
  let ?q = "mi_notification_queue i"
  have c: "map erase_status (case q1 of [] \<Rightarrow> [] | f # r \<Rightarrow> set_notification_overflow f # r) = map erase_status q1" for q1
    by (cases q1) auto
  have n2: "set_notification_semantics_changed m = (b, m') \<Longrightarrow> erase_status m' = erase_status m" for m m' b
    using erase_status_flags(2) [of m] by simp
  show ?thesis
    using assms n2
    by (auto simp: mi_enqueue_notification_def Let_def buffer_push_def mi_inv_def carry_semantics_changed_spec c
        map_tl map_butlast split: prod.split bool.split)
qed

lemma buffer_push_length: "length q \<le> n \<Longrightarrow> 1 \<le> n \<Longrightarrow> length (buffer_push b n x q) \<le> n"
  by (auto simp: buffer_push_def)

lemma enqueue_inv: "mi_inv i \<Longrightarrow> mi_inv (mi_enqueue_notification n i)"
  using arg_cong [OF enqueue_queue, of i length n] enqueue_same_item [of n i]
    buffer_push_length [of "map erase_status (mi_notification_queue i)" "mi_queue_size i"]
  by (simp add: mi_inv_def same_item_def)






text \<open>A change of semantics that waits to be reported, in the item or in a queued value.\<close>

definition semantics_pending :: "('v, 'e, 'f) MonitoredItem \<Rightarrow> bool" where
  "semantics_pending i \<longleftrightarrow> mi_semantics_changed i \<or> list_ex notification_semantics_changed (mi_notification_queue i)"

lemma list_ex_butlast_last: "q \<noteq> [] \<Longrightarrow> list_ex P q \<longleftrightarrow> list_ex P (butlast q) \<or> P (last q)"
  by (cases q rule: rev_cases) auto

lemma enqueue_keeps_semantics:
  assumes "mi_inv i" "semantics_pending i \<or> notification_semantics_changed n"
  shows "semantics_pending (mi_enqueue_notification n i)"
proof (cases "length (mi_notification_queue i) = mi_queue_size i")
  case False
  then show ?thesis using assms(2) by (auto simp: semantics_pending_def mi_enqueue_notification_def Let_def)
next
  case full: True
  then have ne: "mi_notification_queue i \<noteq> []" using assms(1) by (auto simp: mi_inv_def)
  have set: "set_notification_semantics_changed m = (True, m') \<Longrightarrow> notification_semantics_changed m'" for m m' :: "('a, 'c) Notification"
    using set_flags_simps(4) [of m] by simp
  have carry: "semantics_pending (carry_semantics_changed j)" for j :: "('a, 'b, 'c) MonitoredItem"
    using carry_semantics_changed_spec(3) by (simp add: semantics_pending_def)
  have front: "list_ex notification_semantics_changed (case q1 of [] \<Rightarrow> [] | f # r \<Rightarrow> set_notification_overflow f # r)
      = list_ex notification_semantics_changed q1" for q1 :: "('a, 'c) Notification list"
    by (cases q1) auto
  show ?thesis
  proof (cases "mi_discard_oldest i")
    case True
    then show ?thesis
      using full ne assms(2) carry
      by (auto simp: mi_enqueue_notification_def Let_def semantics_pending_def front split: list.split)
  next
    case False
    then show ?thesis
      using full ne assms(2) set list_ex_butlast_last [OF ne, of notification_semantics_changed]
      by (auto simp: mi_enqueue_notification_def Let_def semantics_pending_def split: prod.split bool.split)
  qed
qed

section \<open>Every operation keeps the queue within its size\<close>

lemma mi_inv_cong:
  "mi_queue_size j = mi_queue_size i \<Longrightarrow> mi_notification_queue j = mi_notification_queue i \<Longrightarrow> mi_inv j = mi_inv i"
  by (simp add: mi_inv_def)

text \<open>The fields that the invariant does not read.\<close>

lemma mi_inv_updates [simp]:
  "mi_inv (mi_last_data_value_update f1 i) = mi_inv i"
  "mi_inv (mi_semantics_changed_update f2 i) = mi_inv i"
  "mi_inv (mi_sample_skipped_data_value_update f3 i) = mi_inv i"
  "mi_inv (mi_sample_skipped_before_semantics_changed_update f4 i) = mi_inv i"
  "mi_inv (mi_aggregate_buffer_update f5 i) = mi_inv i"
  "mi_inv (mi_aggregate_next_deadline_update f6 i) = mi_inv i"
  "mi_inv (mi_overflow_event_update f7 i) = mi_inv i"
  "mi_inv (mi_any_new_notification_update f8 i) = mi_inv i"
  "mi_inv (mi_filter_update f9 i) = mi_inv i"
  "mi_inv (mi_triggered_items_update f10 i) = mi_inv i"
  "mi_inv (mi_monitoring_mode_update f11 i) = mi_inv i"
  by (rule mi_inv_cong; simp)+

lemma report_value_inv: "mi_inv i \<Longrightarrow> mi_inv (report_value v i)"
  by (simp add: report_value_def Let_def enqueue_inv)

lemma notify_value_inv: "mi_inv i \<Longrightarrow> mi_inv (snd (notify_value add_time v now tick extra i))"
  by (simp add: notify_value_def Let_def report_value_inv split: FilterType.split prod.split)

lemma without_semantics_flag_inv:
  "(\<And>j. mi_inv j \<Longrightarrow> mi_inv (snd (f j))) \<Longrightarrow> mi_inv i \<Longrightarrow> mi_inv (snd (without_semantics_flag f i))"
  by (simp add: without_semantics_flag_def case_prod_beta)

lemma notify_data_value_inv: "mi_inv i \<Longrightarrow> mi_inv (snd (mi_notify_data_value add_time v now tick i))"
  by (simp add: mi_notify_data_value_def Let_def case_prod_beta notify_value_inv without_semantics_flag_inv split: option.split)

lemma maybe_enqueue_skipped_value_inv: "mi_inv i \<Longrightarrow> mi_inv (snd (maybe_enqueue_skipped_value add_time now i))"
  by (simp add: maybe_enqueue_skipped_value_def Let_def notify_data_value_inv without_semantics_flag_inv split: option.split)

lemma fold_enqueue_inv: "mi_inv i \<Longrightarrow> mi_inv (fold (\<lambda>v. mi_enqueue_notification (g v)) vs i)"
  by (induction vs arbitrary: i) (simp_all add: enqueue_inv)

lemma maybe_flush_aggregate_inv:
  "maybe_flush_aggregate add_time now i = Some (b, i') \<Longrightarrow> mi_inv i \<Longrightarrow> mi_inv i'"
  by (auto simp: maybe_flush_aggregate_def Let_def bind_eq_Some_conv fold_enqueue_inv
      split: FilterType.splits option.splits if_splits)

lemma notify_eu_range_changed_inv: "mi_inv i \<Longrightarrow> mi_inv (notify_eu_range_changed d i)"
  by (simp add: notify_eu_range_changed_def Let_def split: FilterType.split option.split)

lemma notify_event_inv: "mi_inv i \<Longrightarrow> mi_inv (snd (mi_notify_event overflow event i))"
  by (simp add: mi_notify_event_def Let_def enqueue_inv split: FilterType.split option.split)

lemma pop_notification_inv: "mi_inv i \<Longrightarrow> mi_inv (snd (pop_notification i))"
  by (auto simp: pop_notification_def mi_inv_def split: option.split list.split)

lemma add_current_value_inv: "mi_inv i \<Longrightarrow> mi_inv (add_current_value_to_queue i)"
  by (simp add: add_current_value_to_queue_def Let_def enqueue_inv split: option.split)

lemma modify_inv:
  assumes "mi_inv i" "1 \<le> max_queue_size"
  shows "mi_inv (snd (mi_modify add_time max_queue_size now r i))"
  using assms by (auto simp: mi_modify_def Let_def mi_inv_def sanitize_queue_size_def shrink_queue_def split: sum.split)

lemma mi_inv_empty: "1 \<le> mi_queue_size i \<Longrightarrow> mi_notification_queue i = [] \<Longrightarrow> mi_inv i"
  by (simp add: mi_inv_def)

lemma new_inv: "1 \<le> cmi_queue_size c \<Longrightarrow> mi_inv (MonitoredItem_new add_time now c)"
  by (simp add: MonitoredItem_new_def Let_def notify_data_value_inv mi_inv_empty split: FilterType.split)

text \<open>The items a server with the limit \<open>max_queue_size\<close> can have, by any sequence of operations.\<close>

inductive mi_reachable :: "(int \<Rightarrow> int \<Rightarrow> int option) \<Rightarrow> nat \<Rightarrow> ('v, 'e, 'f) MonitoredItem \<Rightarrow> bool"
  for add_time max_queue_size where
  new: "cmi_queue_size c = sanitize_queue_size max_queue_size requested
     \<Longrightarrow> mi_reachable add_time max_queue_size (MonitoredItem_new add_time now (revise_queue_size revised c))"
| data: "mi_reachable add_time max_queue_size i
     \<Longrightarrow> mi_reachable add_time max_queue_size (snd (mi_notify_data_value add_time v now tick i))"
| event: "mi_reachable add_time max_queue_size i \<Longrightarrow> mi_reachable add_time max_queue_size (snd (mi_notify_event overflow e i))"
| skipped: "mi_reachable add_time max_queue_size i
     \<Longrightarrow> mi_reachable add_time max_queue_size (snd (maybe_enqueue_skipped_value add_time now i))"
| flush: "mi_reachable add_time max_queue_size i \<Longrightarrow> maybe_flush_aggregate add_time now i = Some (b, j)
     \<Longrightarrow> mi_reachable add_time max_queue_size j"
| eu_range: "mi_reachable add_time max_queue_size i \<Longrightarrow> mi_reachable add_time max_queue_size (notify_eu_range_changed d i)"
| pop: "mi_reachable add_time max_queue_size i \<Longrightarrow> mi_reachable add_time max_queue_size (snd (pop_notification i))"
| current: "mi_reachable add_time max_queue_size i \<Longrightarrow> mi_reachable add_time max_queue_size (add_current_value_to_queue i)"
| modify: "mi_reachable add_time max_queue_size i
     \<Longrightarrow> mi_reachable add_time max_queue_size (snd (mi_modify add_time max_queue_size now r i))"
| mode: "mi_reachable add_time max_queue_size i \<Longrightarrow> mi_reachable add_time max_queue_size (set_monitoring_mode m i)"
| triggering: "mi_reachable add_time max_queue_size i \<Longrightarrow> mi_reachable add_time max_queue_size (set_triggering xs ys i)"
| dead_trigger: "mi_reachable add_time max_queue_size i \<Longrightarrow> mi_reachable add_time max_queue_size (remove_dead_trigger x i)"
| new_notifications: "mi_reachable add_time max_queue_size i \<Longrightarrow> mi_reachable add_time max_queue_size (snd (has_new_notifications i))"

lemma sanitized_queue_size: "1 \<le> m \<Longrightarrow> 1 \<le> sanitize_queue_size m r \<and> sanitize_queue_size m r \<le> max 1 m"
  by (auto simp: sanitize_queue_size_def)

lemma revised_queue_size: "1 \<le> cmi_queue_size c \<Longrightarrow> 1 \<le> cmi_queue_size (revise_queue_size n c)"
  by (simp add: revise_queue_size_def)

lemmas mi_step_inv = notify_data_value_inv notify_event_inv maybe_enqueue_skipped_value_inv maybe_flush_aggregate_inv
  notify_eu_range_changed_inv pop_notification_inv add_current_value_inv modify_inv

text \<open>With a configured limit of at least one, every monitored item that any sequence of create, modify, notify,
  sample, flush, publish, mode and trigger operations produces holds a queue size of at least one and never more
  notifications than that.\<close>

theorem reachable_item_queue_bounded:
  assumes "mi_reachable add_time max_queue_size i" "1 \<le> max_queue_size"
  shows "1 \<le> mi_queue_size i \<and> length (mi_notification_queue i) \<le> mi_queue_size i"
proof -
  from assms have "mi_inv i"
  proof induction
    case (new c requested now revised)
    then show ?case using sanitized_queue_size [of max_queue_size requested] by (intro new_inv revised_queue_size) simp
  qed (auto intro: mi_step_inv simp: set_monitoring_mode_def set_triggering_def remove_dead_trigger_def has_new_notifications_def)
  then show ?thesis by (simp add: mi_inv_def)
qed

text \<open>A request for a queue of three places, on a server that allows two, and a value it may be notified of.\<close>

definition example_request :: "bool \<Rightarrow> (nat, nat, nat) CreateMonitoredItem" where
  "example_request discard_oldest =
     \<lparr>cmi_id = 1, cmi_index_range = None, cmi_monitoring_mode = Mode_Reporting, cmi_client_handle = 7,
      cmi_discard_oldest = discard_oldest, cmi_queue_size = sanitize_queue_size 2 3, cmi_sampling_interval = SI_Zero,
      cmi_initial_value = None, cmi_filter = Filter_None, cmi_timestamps_to_return = TTR_Both\<rparr>"

definition example_value :: "nat \<Rightarrow> nat DataValue" where
  "example_value k =
     \<lparr>dv_value = Some (Variant_Value k), dv_status = None, dv_source_timestamp = Some (int k),
      dv_source_picoseconds = None, dv_server_timestamp = None, dv_server_picoseconds = None\<rparr>"

definition example_add_time :: "int \<Rightarrow> int \<Rightarrow> int option" where
  "example_add_time t d = (if t + d \<le> 1000000 then Some (t + d) else None)"

definition example_item :: "(nat, nat, nat) MonitoredItem" where
  "example_item = snd (mi_notify_data_value example_add_time (example_value 5) 5 True
     (snd (mi_notify_data_value example_add_time (example_value 4) 4 True
       (MonitoredItem_new example_add_time 3 (revise_queue_size 9 (example_request True))))))"

lemma example_item_reachable: "mi_reachable example_add_time 2 example_item"
  unfolding example_item_def
  by (intro mi_reachable.data mi_reachable.new [where requested = 3]) (simp add: example_request_def)

theorem reachable_item_queue_bounded_witness:
  "mi_queue_size example_item = 2 \<and> length (mi_notification_queue example_item) = 2
   \<and> length (mi_notification_queue example_item) \<le> mi_queue_size example_item"
proof -
  have "mi_queue_size example_item = 2" "length (mi_notification_queue example_item) = 2" by code_simp+
  then show ?thesis using reachable_item_queue_bounded [OF example_item_reachable] by simp
qed

section \<open>What the queue holds after a run of notifications\<close>



section \<open>A change of semantics is reported\<close>

lemma flagged_notification [simp]: "notification_semantics_changed (N_Data (update_status (set_semantics_changed True) d))"
  by (simp add: notification_semantics_changed_def f_semantics.get_set)

lemma semantics_pending_updates [simp]:
  "semantics_pending (mi_last_data_value_update f1 i) = semantics_pending i"
  "semantics_pending (mi_sample_skipped_data_value_update f3 i) = semantics_pending i"
  "semantics_pending (mi_sample_skipped_before_semantics_changed_update f4 i) = semantics_pending i"
  "semantics_pending (mi_aggregate_buffer_update f5 i) = semantics_pending i"
  "semantics_pending (mi_overflow_event_update f7 i) = semantics_pending i"
  "semantics_pending (mi_any_new_notification_update f8 i) = semantics_pending i"
  "mi_semantics_changed i \<Longrightarrow> semantics_pending i"
  by (simp_all add: semantics_pending_def)

lemma report_value_pending: "mi_inv i \<Longrightarrow> semantics_pending i \<Longrightarrow> semantics_pending (report_value v i)"
  by (simp add: report_value_def Let_def enqueue_keeps_semantics)

lemma notify_value_pending:
  "mi_inv i \<Longrightarrow> semantics_pending i \<Longrightarrow> semantics_pending (snd (notify_value add_time v now tick extra i))"
  by (simp add: notify_value_def Let_def report_value_pending split: FilterType.split prod.split)

lemma without_semantics_flag_pending:
  assumes "\<And>j. mi_inv j \<Longrightarrow> semantics_pending j \<Longrightarrow> semantics_pending (snd (f j))" "mi_inv i" "semantics_pending i"
  shows "semantics_pending (snd (without_semantics_flag f i))"
  using assms by (cases "mi_semantics_changed i") (auto simp: without_semantics_flag_def case_prod_beta semantics_pending_def)

lemma notify_data_value_pending:
  "mi_inv i \<Longrightarrow> semantics_pending i \<Longrightarrow> semantics_pending (snd (mi_notify_data_value add_time v now tick i))"
  by (simp add: mi_notify_data_value_def Let_def case_prod_beta notify_value_pending notify_value_inv without_semantics_flag_inv
      without_semantics_flag_pending split: option.split)

lemma maybe_enqueue_skipped_value_pending:
  "mi_inv i \<Longrightarrow> semantics_pending i \<Longrightarrow> semantics_pending (snd (maybe_enqueue_skipped_value add_time now i))"
  by (simp add: maybe_enqueue_skipped_value_def Let_def notify_data_value_pending without_semantics_flag_pending split: option.split)

lemma notify_event_pending:
  "mi_inv i \<Longrightarrow> semantics_pending i \<Longrightarrow> semantics_pending (snd (mi_notify_event overflow event i))"
  by (simp add: mi_notify_event_def Let_def enqueue_keeps_semantics split: FilterType.split option.split)

lemma add_current_value_pending: "mi_inv i \<Longrightarrow> semantics_pending i \<Longrightarrow> semantics_pending (add_current_value_to_queue i)"
  by (simp add: add_current_value_to_queue_def Let_def enqueue_keeps_semantics split: option.split)

lemma pop_notification_pending:
  "semantics_pending i \<Longrightarrow> pop_notification i = (n, j)
   \<Longrightarrow> semantics_pending j \<or> (\<exists>m. n = Some m \<and> notification_semantics_changed m)"
  by (auto simp: pop_notification_def semantics_pending_def split: option.splits list.splits if_splits)

text \<open>C27: Once a change of the engineering-unit range has marked an item, the mark is not lost by any number of later
  values, events, delayed samples or triggered reports, however many of them overflow the queue: it stays pending in the
  item or on a queued value, until a notification that carries it is popped for publication.\<close>

theorem semantics_change_not_lost:
  assumes "mi_inv i" "semantics_pending i"
  shows "semantics_pending (snd (mi_notify_data_value add_time v now tick i))
    \<and> semantics_pending (snd (maybe_enqueue_skipped_value add_time now i))
    \<and> semantics_pending (snd (mi_notify_event overflow event i))
    \<and> semantics_pending (add_current_value_to_queue i)
    \<and> (case pop_notification i of (n, j) \<Rightarrow>
         semantics_pending j \<or> (\<exists>m. n = Some m \<and> notification_semantics_changed m))"
  using assms pop_notification_pending [OF assms(2)]
  by (simp add: notify_data_value_pending maybe_enqueue_skipped_value_pending notify_event_pending add_current_value_pending
      split: prod.split)

theorem semantics_change_not_lost_witness:
  "semantics_pending (snd (mi_notify_data_value example_add_time (example_value 6) 6 True (notify_eu_range_changed None example_item)))"
proof -
  have "mi_inv (notify_eu_range_changed None example_item)" by code_simp
  moreover have "semantics_pending (notify_eu_range_changed None example_item)" by code_simp
  ultimately show ?thesis by (rule conjunct1 [OF semantics_change_not_lost])
qed

text \<open>Shrinking the queue in a modify request is the exception: the mark goes with the discarded value.\<close>

definition example_modify :: "(nat, nat, nat) ModifyMonitoredItem" where
  "example_modify = \<lparr>mmi_timestamps_to_return = TTR_Both, mmi_filter = Inr Filter_None, mmi_sampling_interval = SI_Zero,
     mmi_queue_size = 1, mmi_client_handle = 7, mmi_discard_oldest = True\<rparr>"

definition example_marked_item :: "(nat, nat, nat) MonitoredItem" where
  "example_marked_item = snd (mi_notify_data_value example_add_time (example_value 6) 6 True
     (notify_eu_range_changed None (example_item\<lparr>mi_notification_queue := []\<rparr>)))"

lemma modify_drops_semantics_change:
  "semantics_pending (snd (mi_notify_data_value example_add_time (example_value 8) 8 True example_marked_item))"
  "\<not> semantics_pending (snd (mi_modify example_add_time 2 9 example_modify
      (snd (mi_notify_data_value example_add_time (example_value 8) 8 True example_marked_item))))"
  by code_simp+

section \<open>The aggregate loop\<close>

text \<open>Chrono's checked addition: exact within its range, \<open>None\<close> beyond.\<close>

definition checked_add :: "int \<Rightarrow> int \<Rightarrow> (int \<Rightarrow> int \<Rightarrow> int option) \<Rightarrow> bool" where
  "checked_add lo hi add_time \<longleftrightarrow> (\<forall>t d. add_time t d = (if lo \<le> t + d \<and> t + d \<le> hi then Some (t + d) else None))"

lemma add_micros_exact:
  "checked_add lo hi add_time \<Longrightarrow> lo \<le> t + us * 1000 \<Longrightarrow> t + us * 1000 \<le> hi \<Longrightarrow> add_micros add_time t us = t + us * 1000"
  by (simp add: add_micros_def checked_add_def)

lemma aggregate_loop_stuck:
  assumes "add_micros add_time d (agg_interval f) = d" "d \<le> now"
  shows "aggregate_loop add_time f buf now d = None"
proof -
  have "\<not> (add_micros add_time d (agg_interval f) = d \<and> d \<le> now)" if "aggregate_loop add_time f buf now d = Some r" for r
    using that
    by (rule aggregate_loop.raw_induct [where P = "\<lambda>add_time f buf now d r. \<not> (add_micros add_time d (agg_interval f) = d \<and> d \<le> now)", rotated])
       (auto simp: bind_eq_Some_conv split: if_splits)
  then show ?thesis using assms by (cases "aggregate_loop add_time f buf now d") auto
qed

text \<open>The deadlines that have passed.\<close>

lemma aggregate_loop_steps:
  assumes "checked_add lo hi add_time" "0 < agg_interval f" "lo \<le> deadline" "now + agg_interval f * 1000 \<le> hi" "deadline \<le> now"
    and n: "n = nat ((now - deadline) div (agg_interval f * 1000))"
  shows "aggregate_loop add_time f buf now deadline =
    Some (map (\<lambda>k. aggregate_value add_time f buf (deadline + int k * (agg_interval f * 1000))) [0..<Suc n],
          deadline + int (Suc n) * (agg_interval f * 1000))"
  using assms(3,5) n
proof (induction n arbitrary: deadline)
  case 0
  define s where "s = agg_interval f * 1000"
  have s: "0 < s" using assms(2) by (simp add: s_def)
  have add: "add_micros add_time deadline (agg_interval f) = deadline + s"
    using 0 assms(1,2,4) by (simp add: add_micros_exact s_def)
  have "(now - deadline) div s = 0"
    using 0 s pos_imp_zdiv_nonneg_iff [of s "now - deadline"] by (simp add: s_def)
  then have "now < deadline + s" using s 0(2) by (auto simp: zdiv_eq_0_iff)
  then show ?case
    using 0(2) add by (subst aggregate_loop.simps, subst aggregate_loop.simps) (simp add: s_def)
next
  case (Suc n)
  define s where "s = agg_interval f * 1000"
  have s: "0 < s" using assms(2) by (simp add: s_def)
  have add: "add_micros add_time deadline (agg_interval f) = deadline + s"
    using Suc assms(1,2,4) by (simp add: add_micros_exact s_def)
  have q: "(now - deadline) div s = int (Suc n)" using Suc(4) by (simp add: s_def)
  have "s \<le> now - deadline"
  proof (rule ccontr)
    assume "\<not> s \<le> now - deadline"
    then have "(now - deadline) div s = 0" using Suc(3) by (simp add: div_pos_pos_trivial)
    then show False using q by simp
  qed
  moreover have "(now - (deadline + s)) div s = (now - deadline) div s - 1"
    using s div_add_self2 [of s "now - deadline - s"] by (simp add: algebra_simps)
  ultimately have "aggregate_loop add_time f buf now (deadline + s) =
    Some (map (\<lambda>k. aggregate_value add_time f buf (deadline + s + int k * s)) [0..<Suc n], deadline + s + int (Suc n) * s)"
    using Suc.IH [of "deadline + s"] Suc(2) s q by (simp add: s_def)
  moreover have "map (\<lambda>k. aggregate_value add_time f buf (deadline + int k * s)) [0..<Suc (Suc n)]
    = aggregate_value add_time f buf deadline # map (\<lambda>k. aggregate_value add_time f buf (deadline + s + int k * s)) [0..<Suc n]"
    by (simp add: upt_rec [of 0] map_Suc_upt [symmetric] comp_def algebra_simps del: upt_Suc)
  ultimately show ?case
    using Suc(3) add by (subst aggregate_loop.simps) (simp add: s_def algebra_simps del: upt_Suc)
qed

lemma enqueue_next_deadline: "mi_aggregate_next_deadline (mi_enqueue_notification n i) = mi_aggregate_next_deadline i"
  by (auto simp: mi_enqueue_notification_def Let_def carry_semantics_changed_def split: prod.split bool.split)

lemma fold_enqueue_next_deadline:
  "mi_aggregate_next_deadline (fold (\<lambda>v. mi_enqueue_notification (g v)) vs i) = mi_aggregate_next_deadline i"
  by (induction vs arbitrary: i) (simp_all add: enqueue_next_deadline)

text \<open>C40: Flushing an aggregate item returns exactly when its processing interval is at least a microsecond or its deadline
  is still ahead. It then reports every elapsed interval and leaves a deadline that lies after the present, by at most one
  interval. An interval that rounds to zero microseconds, which the validation of the filter lets through, makes the
  loop run forever.\<close>

theorem aggregate_flush_returns_iff:
  assumes "checked_add lo hi add_time" "mi_filter i = Filter_Aggregate f" "mi_aggregate_next_deadline i = Some deadline"
    "lo \<le> deadline" "now + agg_interval f * 1000 \<le> hi" "0 \<le> agg_interval f"
  shows "(maybe_flush_aggregate add_time now i \<noteq> None \<longleftrightarrow> 0 < agg_interval f \<or> now < deadline)
    \<and> (0 < agg_interval f \<longrightarrow> (\<exists>b j d. maybe_flush_aggregate add_time now i = Some (b, j) \<and> b = (deadline \<le> now)
         \<and> mi_aggregate_next_deadline j = Some d \<and> now < d \<and> d \<le> max deadline (now + agg_interval f * 1000)))"
proof (cases "deadline \<le> now")
  case False
  then have "aggregate_loop add_time f (mi_aggregate_buffer i) now deadline = Some ([], deadline)"
    by (subst aggregate_loop.simps) simp
  then show ?thesis using assms(2,3) False by (auto simp: maybe_flush_aggregate_def)
next
  case le: True
  show ?thesis
  proof (cases "agg_interval f = 0")
    case True
    then have "add_micros add_time deadline (agg_interval f) = deadline"
      using assms(1,4,5) le add_micros_exact [of lo hi add_time deadline 0] by simp
    then show ?thesis
      using le True assms(2,3) aggregate_loop_stuck [of add_time deadline f now] by (simp add: maybe_flush_aggregate_def)
  next
    case False
    define s where "s = agg_interval f * 1000"
    define n where "n = nat ((now - deadline) div s)"
    have s: "0 < s" "0 < agg_interval f" using False assms(6) by (simp_all add: s_def)
    have n: "int n = (now - deadline) div s" using le s by (simp add: n_def pos_imp_zdiv_nonneg_iff)
    have "s * ((now - deadline) div s) \<le> now - deadline" "now - deadline < s * ((now - deadline) div s) + s"
      using s mult_div_mod_eq [of s "now - deadline"] pos_mod_bound [of s "now - deadline"] pos_mod_sign [of s "now - deadline"]
      by linarith+
    then have d: "now < deadline + int (Suc n) * s" "deadline + int (Suc n) * s \<le> now + s"
      using n by (simp_all add: algebra_simps)
    show ?thesis
      using aggregate_loop_steps [OF assms(1) s(2) assms(4,5) le refl, of "mi_aggregate_buffer i"] assms(2,3) s d le
      by (auto simp: maybe_flush_aggregate_def Let_def fold_enqueue_next_deadline s_def [symmetric] n_def [symmetric] simp del: upt_Suc)
  qed
qed

definition example_filter :: "int \<Rightarrow> nat ParsedAggregateFilter" where
  "example_filter us = \<lparr>agg_interval = us, agg_dispatch = (\<lambda>a. example_value (length (ai_values a)))\<rparr>"

definition example_aggregate :: "int \<Rightarrow> (nat, nat, nat) MonitoredItem" where
  "example_aggregate us = MonitoredItem_new example_add_time 0 ((example_request True)\<lparr>cmi_filter := Filter_Aggregate (example_filter us)\<rparr>)"

theorem aggregate_flush_returns_iff_witness:
  "maybe_flush_aggregate (\<lambda>t d. if 0 \<le> t + d \<and> t + d \<le> 1000000 then Some (t + d) else None) 5000 (example_aggregate 2) \<noteq> None
   \<and> maybe_flush_aggregate (\<lambda>t d. if 0 \<le> t + d \<and> t + d \<le> 1000000 then Some (t + d) else None) 5000 (example_aggregate 0) = None"
proof -
  let ?add = "\<lambda>t d. if 0 \<le> t + d \<and> t + d \<le> 1000000 then Some (t + d) else None :: int option"
  have add: "checked_add 0 1000000 ?add" by (simp add: checked_add_def)
  have us: "agg_interval (example_filter us) = us" for us by (simp add: example_filter_def)
  have f: "mi_filter (example_aggregate us) = Filter_Aggregate (example_filter us)"
    and d: "mi_aggregate_next_deadline (example_aggregate us) = Some (add_micros example_add_time 0 us)" for us
    by (simp_all add: example_aggregate_def MonitoredItem_new_def Let_def us)
  have "add_micros example_add_time 0 2 = 2000" "add_micros example_add_time 0 0 = 0" by code_simp+
  then show ?thesis
    using aggregate_flush_returns_iff [OF add f d, of 2 5000] aggregate_flush_returns_iff [OF add f d, of 0 5000] us
    by (simp del: not_None_eq)
qed

section \<open>A limit of zero\<close>

text \<open>A configured limit of zero is taken over as the queue size of a request for two or more, and the comparison of the
  length with the size then never finds the queue full again.\<close>

lemma zero_queue_size_unbounded:
  assumes "mi_queue_size i = 0" "mi_notification_queue i = []"
  shows "length (mi_notification_queue (fold mi_enqueue_notification ns i)) = length ns
    \<and> mi_queue_size (fold mi_enqueue_notification ns i) = 0"
proof (induction ns rule: rev_induct)
  case Nil
  then show ?case using assms by simp
next
  case (snoc n ns)
  then show ?case
    by (auto simp: mi_enqueue_notification_def Let_def split: prod.split bool.split list.split)
qed

lemma zero_limit_queue_size: "sanitize_queue_size 0 5 = 0"
  by (simp add: sanitize_queue_size_def)

end
