(* ===== verification/Retransmission_Queue.thy ===== *)
theory Retransmission_Queue
  imports Prelude
begin

text \<open>
  The retransmission queue of a session: \<open>async-opcua-server/src/subscriptions/retransmission_queue.rs\<close>.

  Published messages stay in the queue until they are acknowledged. The queue keeps them by an increasing
  id (\<open>BTreeMap\<close>, an ascending association list here), with a hash index from subscription and
  sequence number to the id and the ids of every subscription (\<open>BTreeSet\<close>, an ascending list). What
  the session sees is a list of messages in the order they were sent; the theory shows that the three
  structures stay consistent and implement this list. The pool that recycles message storage holds no
  information and is left out.
\<close>

section \<open>The queue\<close>

record 'd NotificationMessage =
  nm_sequence_number :: u32
  nm_publish_time :: int
  nm_notification_data :: "'d list option"

record 'd NonAckedPublish =
  nap_message :: "'d NotificationMessage"
  nap_subscription_id :: u32

record 'd RetransmissionQueue =
  rq_entries :: "(u64 \<times> 'd NonAckedPublish) list"
  rq_index :: "u32 \<times> u32 \<rightharpoonup> u64"
  rq_by_subscription :: "u32 \<rightharpoonup> u64 list"
  rq_next_id :: u64

definition RetransmissionQueue_new :: "'d RetransmissionQueue" where
  "RetransmissionQueue_new =
     \<lparr>rq_entries = [], rq_index = Map.empty, rq_by_subscription = Map.empty, rq_next_id = 0\<rparr>"

definition rq_len :: "'d RetransmissionQueue \<Rightarrow> nat" where
  "rq_len q = length (rq_entries q)"

definition rq_is_empty :: "'d RetransmissionQueue \<Rightarrow> bool" where
  "rq_is_empty q \<longleftrightarrow> rq_entries q = []"

definition remove_subscription_id :: "u32 \<Rightarrow> u64 \<Rightarrow> 'd RetransmissionQueue \<Rightarrow> 'd RetransmissionQueue" where
  "remove_subscription_id sid i q =
     (case rq_by_subscription q sid of
        None \<Rightarrow> q
      | Some ids \<Rightarrow>
          let ids' = os_remove i ids
          in q\<lparr>rq_by_subscription := (rq_by_subscription q)(sid := if ids' = [] then None else Some ids')\<rparr>)"

definition remove_indexes :: "u64 \<Rightarrow> 'd NonAckedPublish \<Rightarrow> 'd RetransmissionQueue \<Rightarrow> 'd RetransmissionQueue" where
  "remove_indexes i e q =
     remove_subscription_id (nap_subscription_id e) i
       (q\<lparr>rq_index := (rq_index q)((nap_subscription_id e, nm_sequence_number (nap_message e)) := None)\<rparr>)"

text \<open>The debug assertion of \<open>push_existing\<close> is not compiled into release builds.\<close>

definition push_existing :: "'d NonAckedPublish \<Rightarrow> 'd RetransmissionQueue \<Rightarrow> 'd RetransmissionQueue" where
  "push_existing e q =
     (let i = rq_next_id q; sid = nap_subscription_id e
      in q\<lparr>rq_entries := om_insert i e (rq_entries q),
           rq_index := (rq_index q)((sid, nm_sequence_number (nap_message e)) \<mapsto> i),
           rq_by_subscription := (rq_by_subscription q)(sid \<mapsto>
             os_insert i (case rq_by_subscription q sid of None \<Rightarrow> [] | Some ids \<Rightarrow> ids)),
           rq_next_id := i + 1\<rparr>)"

definition rq_enqueue ::
    "nat \<Rightarrow> u32 \<Rightarrow> 'd NotificationMessage \<Rightarrow> 'd RetransmissionQueue \<Rightarrow> 'd RetransmissionQueue" where
  "rq_enqueue max_len sid message q =
     (if nm_notification_data message = None then q
      else
        let q1 = (if max_len \<le> rq_len q then
                    (case rq_entries q of
                       [] \<Rightarrow> q
                     | (i, e) # es \<Rightarrow> remove_indexes i e (q\<lparr>rq_entries := es\<rparr>))
                  else q)
        in push_existing \<lparr>nap_message = message, nap_subscription_id = sid\<rparr> q1)"

definition rq_ack :: "u32 \<Rightarrow> u32 \<Rightarrow> 'd RetransmissionQueue \<Rightarrow> 'd NonAckedPublish option \<times> 'd RetransmissionQueue" where
  "rq_ack sid sequence_number q =
     (case rq_index q (sid, sequence_number) of
        None \<Rightarrow> (None, q)
      | Some i \<Rightarrow>
          let q1 = q\<lparr>rq_index := (rq_index q)((sid, sequence_number) := None)\<rparr>
          in case map_of (rq_entries q1) i of
               None \<Rightarrow> (None, q1)
             | Some e \<Rightarrow> (Some e, remove_subscription_id sid i (q1\<lparr>rq_entries := om_remove i (rq_entries q1)\<rparr>)))"

fun remove_ids :: "u64 list \<Rightarrow> 'd RetransmissionQueue \<Rightarrow> 'd NonAckedPublish list \<times> 'd RetransmissionQueue" where
  "remove_ids [] q = ([], q)"
| "remove_ids (i # ids) q =
     (case map_of (rq_entries q) i of
        None \<Rightarrow> remove_ids ids q
      | Some e \<Rightarrow>
          (case remove_ids ids
                  (q\<lparr>rq_entries := om_remove i (rq_entries q),
                     rq_index := (rq_index q)((nap_subscription_id e, nm_sequence_number (nap_message e)) := None)\<rparr>) of
             (removed, q') \<Rightarrow> (e # removed, q')))"

definition rq_remove_subscription ::
    "u32 \<Rightarrow> 'd RetransmissionQueue \<Rightarrow> 'd NonAckedPublish list \<times> 'd RetransmissionQueue" where
  "rq_remove_subscription sid q =
     (case rq_by_subscription q sid of
        None \<Rightarrow> ([], q)
      | Some ids \<Rightarrow> remove_ids ids (q\<lparr>rq_by_subscription := (rq_by_subscription q)(sid := None)\<rparr>))"

definition clone_subscription :: "u32 \<Rightarrow> 'd RetransmissionQueue \<Rightarrow> 'd NonAckedPublish list" where
  "clone_subscription sid q =
     (case rq_by_subscription q sid of
        None \<Rightarrow> []
      | Some ids \<Rightarrow> List.map_filter (map_of (rq_entries q)) ids)"

definition available_sequence_numbers :: "u32 \<Rightarrow> 'd RetransmissionQueue \<Rightarrow> u32 list option" where
  "available_sequence_numbers sid q =
     (if rq_is_empty q then None
      else case rq_by_subscription q sid of
             None \<Rightarrow> None
           | Some ids \<Rightarrow>
               let ns = map (\<lambda>e. nm_sequence_number (nap_message e)) (List.map_filter (map_of (rq_entries q)) ids)
               in if ns = [] then None else Some ns)"

definition rq_get_message :: "u32 \<Rightarrow> u32 \<Rightarrow> 'd RetransmissionQueue \<Rightarrow> 'd NotificationMessage option" where
  "rq_get_message sid sequence_number q =
     (case rq_index q (sid, sequence_number) of
        None \<Rightarrow> None
      | Some i \<Rightarrow> map_option nap_message (map_of (rq_entries q) i))"

section \<open>The list of unacknowledged messages\<close>

definition nap_key :: "'d NonAckedPublish \<Rightarrow> u32 \<times> u32" where
  "nap_key e = (nap_subscription_id e, nm_sequence_number (nap_message e))"

definition unacked :: "'d RetransmissionQueue \<Rightarrow> 'd NonAckedPublish list" where
  "unacked q = map snd (rq_entries q)"

text \<open>The index structures are functions of the entries.\<close>

definition index_of :: "(u64 \<times> 'd NonAckedPublish) list \<Rightarrow> u32 \<times> u32 \<rightharpoonup> u64" where
  "index_of es = map_of (map (\<lambda>(i, e). (nap_key e, i)) es)"

definition ids_of :: "(u64 \<times> 'd NonAckedPublish) list \<Rightarrow> u32 \<Rightarrow> u64 list" where
  "ids_of es sid = map fst (filter (\<lambda>x. nap_subscription_id (snd x) = sid) es)"

definition by_subscription_of :: "(u64 \<times> 'd NonAckedPublish) list \<Rightarrow> u32 \<rightharpoonup> u64 list" where
  "by_subscription_of es = (\<lambda>sid. if ids_of es sid = [] then None else Some (ids_of es sid))"

definition rq_inv :: "'d RetransmissionQueue \<Rightarrow> bool" where
  "rq_inv q \<longleftrightarrow>
     sorted_wrt (<) (map fst (rq_entries q)) \<and> (\<forall>x \<in> set (rq_entries q). fst x < rq_next_id q)
     \<and> distinct (map nap_key (unacked q))
     \<and> rq_index q = index_of (rq_entries q) \<and> rq_by_subscription q = by_subscription_of (rq_entries q)"

text \<open>The operations on the list, which the queue has to implement.\<close>

definition list_enqueue :: "nat \<Rightarrow> u32 \<Rightarrow> 'd NotificationMessage \<Rightarrow> 'd NonAckedPublish list \<Rightarrow> 'd NonAckedPublish list" where
  "list_enqueue max_len sid m xs =
     (if nm_notification_data m = None then xs
      else (if max_len \<le> length xs then tl xs else xs) @ [\<lparr>nap_message = m, nap_subscription_id = sid\<rparr>])"

definition list_ack :: "u32 \<Rightarrow> u32 \<Rightarrow> 'd NonAckedPublish list \<Rightarrow> 'd NonAckedPublish option \<times> 'd NonAckedPublish list" where
  "list_ack sid n xs = (find (\<lambda>e. nap_key e = (sid, n)) xs, filter (\<lambda>e. nap_key e \<noteq> (sid, n)) xs)"

definition list_remove :: "u32 \<Rightarrow> 'd NonAckedPublish list \<Rightarrow> 'd NonAckedPublish list \<times> 'd NonAckedPublish list" where
  "list_remove sid xs =
     (filter (\<lambda>e. nap_subscription_id e = sid) xs, filter (\<lambda>e. nap_subscription_id e \<noteq> sid) xs)"

definition list_available :: "u32 \<Rightarrow> 'd NonAckedPublish list \<Rightarrow> u32 list option" where
  "list_available sid xs =
     (let ns = map (\<lambda>e. nm_sequence_number (nap_message e)) (filter (\<lambda>e. nap_subscription_id e = sid) xs)
      in if ns = [] then None else Some ns)"

definition list_message :: "u32 \<Rightarrow> u32 \<Rightarrow> 'd NonAckedPublish list \<Rightarrow> 'd NotificationMessage option" where
  "list_message sid n xs = map_option nap_message (find (\<lambda>e. nap_key e = (sid, n)) xs)"

section \<open>The queue keeps its structures consistent\<close>

lemma rq_invD:
  assumes "rq_inv q"
  shows "sorted_wrt (<) (map fst (rq_entries q))" "distinct (map fst (rq_entries q))"
    "\<And>x. x \<in> set (rq_entries q) \<Longrightarrow> fst x < rq_next_id q" "distinct (map (nap_key \<circ> snd) (rq_entries q))"
    "rq_index q = index_of (rq_entries q)" "rq_by_subscription q = by_subscription_of (rq_entries q)"
  using assms by (auto simp: rq_inv_def unacked_def strict_sorted_iff)

lemma index_of_iff:
  assumes "distinct (map (nap_key \<circ> snd) es)"
  shows "index_of es k = Some i \<longleftrightarrow> (\<exists>e. (i, e) \<in> set es \<and> nap_key e = k)"
proof -
  have "distinct (map fst (map (\<lambda>(i, e). (nap_key e, i)) es))"
    using assms by (simp add: case_prod_beta comp_def)
  then have "index_of es k = Some i \<longleftrightarrow> (k, i) \<in> set (map (\<lambda>(i, e). (nap_key e, i)) es)"
    unfolding index_of_def by (rule map_of_eq_Some_iff)
  then show ?thesis by (force simp: image_iff)
qed

lemma entry_unique: "distinct (map fst es) \<Longrightarrow> (i, e) \<in> set es \<Longrightarrow> (i, e') \<in> set es \<Longrightarrow> e' = e"
  by (metis map_of_eq_Some_iff option.inject)

lemma key_unique:
  "distinct (map (nap_key \<circ> snd) es) \<Longrightarrow> x \<in> set es \<Longrightarrow> y \<in> set es \<Longrightarrow> nap_key (snd x) = nap_key (snd y) \<Longrightarrow> x = y"
  by (auto simp: distinct_map inj_on_def)

text \<open>Removing one entry from all three structures.\<close>

lemma ids_of_remove: "ids_of (om_remove i es) sid = os_remove i (ids_of es sid)"
  by (induction es) (auto simp: ids_of_def om_remove_def os_remove_def)

lemma ids_of_other:
  "distinct (map fst es) \<Longrightarrow> (i, e) \<in> set es \<Longrightarrow> sid \<noteq> nap_subscription_id e \<Longrightarrow> i \<notin> set (ids_of es sid)"
  by (auto simp: ids_of_def dest: entry_unique)

lemma os_remove_other: "i \<notin> set s \<Longrightarrow> os_remove i s = s"
  by (auto simp: os_remove_def filter_id_conv)

lemma index_of_remove:
  assumes "distinct (map fst es)" "distinct (map (nap_key \<circ> snd) es)" "(i, e) \<in> set es"
  shows "index_of (om_remove i es) = (index_of es)(nap_key e := None)"
proof (rule ext)
  fix k
  have d: "distinct (map (nap_key \<circ> snd) (om_remove i es))"
    using assms(2) by (auto simp: om_remove_def distinct_map intro: inj_on_subset)
  have only: "nap_key e' = nap_key e \<Longrightarrow> (j, e') \<in> set es \<Longrightarrow> j = i \<and> e' = e" for j e'
    using key_unique [OF assms(2) assms(3), of "(j, e')"] by simp
  have uniq: "(i, e') \<in> set es \<Longrightarrow> e' = e" for e'
    using entry_unique [OF assms(1,3)] by blast
  have "index_of (om_remove i es) k = Some j \<longleftrightarrow> k \<noteq> nap_key e \<and> index_of es k = Some j" for j
    unfolding index_of_iff [OF d, of k j] index_of_iff [OF assms(2), of k j]
    by (simp add: om_remove_def) (metis only uniq)
  then have "index_of (om_remove i es) k = Some j \<longleftrightarrow> ((index_of es)(nap_key e := None)) k = Some j" for j
    by simp
  then show "index_of (om_remove i es) k = ((index_of es)(nap_key e := None)) k"
    by (metis not_Some_eq)
qed

lemma remove_entry:
  assumes q: "rq_inv q" and e: "(i, e) \<in> set (rq_entries q)"
    and q': "q' = remove_subscription_id (nap_subscription_id e) i
       (q\<lparr>rq_entries := om_remove i (rq_entries q), rq_index := (rq_index q)(nap_key e := None)\<rparr>)"
  shows "rq_inv q'" "unacked q' = filter (\<lambda>x. nap_key x \<noteq> nap_key e) (unacked q)" "rq_next_id q' = rq_next_id q"
proof -
  note I = rq_invD [OF q]
  let ?sid = "nap_subscription_id e" and ?es = "om_remove i (rq_entries q)"
  have "i \<in> set (ids_of (rq_entries q) ?sid)" using e by (force simp: ids_of_def)
  then have by_sub: "rq_by_subscription q ?sid = Some (ids_of (rq_entries q) ?sid)"
    using I(6) by (auto simp: by_subscription_of_def)
  have fields: "rq_entries q' = ?es" "rq_index q' = (rq_index q)(nap_key e := None)" "rq_next_id q' = rq_next_id q"
    "rq_by_subscription q' = (rq_by_subscription q)(?sid :=
       if os_remove i (ids_of (rq_entries q) ?sid) = [] then None else Some (os_remove i (ids_of (rq_entries q) ?sid)))"
    using by_sub by (simp_all add: q' remove_subscription_id_def Let_def)
  have sub: "rq_by_subscription q' = by_subscription_of ?es"
    using ids_of_other [OF I(2) e] I(6)
    by (auto simp: fields(4) by_subscription_of_def ids_of_remove os_remove_other fun_eq_iff)
  have idx: "rq_index q' = index_of ?es"
    using index_of_remove [OF I(2,4) e] I(5) by (simp add: fields(2))
  have key: "\<And>x. x \<in> set (rq_entries q) \<Longrightarrow> fst x \<noteq> i \<longleftrightarrow> nap_key (snd x) \<noteq> nap_key e"
    using entry_unique [OF I(2) e] key_unique [OF I(4) e] by (metis fst_conv prod.collapse snd_conv)
  then have un: "unacked q' = filter (\<lambda>x. nap_key x \<noteq> nap_key e) (unacked q)"
    unfolding unacked_def fields(1) om_remove_def filter_map by (simp add: comp_def cong: filter_cong)
  show "unacked q' = filter (\<lambda>x. nap_key x \<noteq> nap_key e) (unacked q)" by (fact un)
  have "sorted_wrt (<) (map fst ?es)"
    using I(1) by (simp add: om_remove_def sorted_wrt_map sorted_wrt_filter)
  moreover have "distinct (map nap_key (unacked q'))"
    using q un by (simp add: rq_inv_def distinct_map_filter)
  ultimately show "rq_inv q'"
    using I(3) sub idx by (auto simp: rq_inv_def fields(1,3) om_remove_def)
  show "rq_next_id q' = rq_next_id q" by (fact fields(3))
qed

lemma word_less_plus_one: "x \<noteq> - 1 \<Longrightarrow> x < x + (1 :: 'a::len word)"
proof -
  assume x: "x \<noteq> - 1"
  have "x + 1 \<noteq> 0" using x by (simp add: eq_neg_iff_add_eq_0)
  then have "(unat x + 1) mod 2 ^ LENGTH('a) \<noteq> 0"
    by (simp add: unat_word_ariths flip: unat_eq_zero)
  then have "unat x + 1 < 2 ^ LENGTH('a)"
    using unat_lt_two_power [of x] by (metis Suc_eq_plus1 Suc_lessI mod_self)
  then have "unat (x + 1) = unat x + 1"
    by (simp add: unat_word_ariths)
  then show ?thesis by (simp add: word_less_nat_alt)
qed

text \<open>Adding an entry, while the ids do not wrap around and the key is new.\<close>

lemma push_entry:
  assumes q: "rq_inv q" and n: "rq_next_id q \<noteq> - 1" and k: "nap_key e \<notin> nap_key ` set (unacked q)"
  shows "rq_inv (push_existing e q)" "unacked (push_existing e q) = unacked q @ [e]"
    "rq_next_id (push_existing e q) = rq_next_id q + 1"
proof -
  note I = rq_invD [OF q]
  let ?i = "rq_next_id q" and ?sid = "nap_subscription_id e"
  have lt: "?i < ?i + 1" using n by (rule word_less_plus_one)
  have es: "om_insert ?i e (rq_entries q) = rq_entries q @ [(?i, e)]"
    using I(3) by (intro om_insert_last) auto
  have ids: "(case by_subscription_of (rq_entries q) ?sid of None \<Rightarrow> [] | Some ids \<Rightarrow> ids) = ids_of (rq_entries q) ?sid"
    by (simp add: by_subscription_of_def)
  have "\<forall>x \<in> set (ids_of (rq_entries q) ?sid). x < ?i" using I(3) by (auto simp: ids_of_def)
  then have os: "os_insert ?i (ids_of (rq_entries q) ?sid) = ids_of (rq_entries q) ?sid @ [?i]"
    by (rule os_insert_last)
  have idx: "(index_of (rq_entries q))(nap_key e \<mapsto> ?i) = index_of (rq_entries q @ [(?i, e)])"
  proof -
    have "index_of (rq_entries q) (nap_key e) = None"
      using k by (force simp: index_of_def map_of_eq_None_iff unacked_def image_iff)
    then show ?thesis by (auto simp: index_of_def fun_eq_iff map_add_def split: option.split)
  qed
  show "unacked (push_existing e q) = unacked q @ [e]"
    by (simp add: push_existing_def Let_def es unacked_def)
  show "rq_next_id (push_existing e q) = rq_next_id q + 1"
    by (simp add: push_existing_def Let_def)
  have sub: "(by_subscription_of (rq_entries q))(?sid \<mapsto> ids_of (rq_entries q) ?sid @ [?i])
      = by_subscription_of (rq_entries q @ [(?i, e)])"
    by (auto simp: by_subscription_of_def ids_of_def fun_eq_iff)
  have "\<forall>x \<in> set (rq_entries q). fst x < ?i + 1" using I(3) lt by (meson less_trans)
  then show "rq_inv (push_existing e q)"
    using q I(3) lt k idx sub
    by (auto simp: rq_inv_def push_existing_def Let_def es ids os unacked_def sorted_wrt_append nap_key_def)
qed

section \<open>Each operation implements its list version\<close>

lemma unacked_len [simp]: "length (unacked q) = rq_len q"
  by (simp add: unacked_def rq_len_def)

lemma tl_as_filter:
  "distinct (map f (x # xs)) \<Longrightarrow> filter (\<lambda>y. f y \<noteq> f x) (x # xs) = xs"
  by (induction xs) (auto simp: filter_id_conv)

lemma set_tl_subset: "set (tl xs) \<subseteq> set xs"
  by (cases xs) auto

lemma rq_enqueue_refines:
  assumes q: "rq_inv q" and n: "rq_next_id q \<noteq> - 1"
    and k: "nm_notification_data m = None \<or> (sid, nm_sequence_number m) \<notin> nap_key ` set (unacked q)"
  shows "rq_inv (rq_enqueue max_len sid m q)" "unacked (rq_enqueue max_len sid m q) = list_enqueue max_len sid m (unacked q)"
    "rq_next_id (rq_enqueue max_len sid m q) \<in> {rq_next_id q, rq_next_id q + 1}"
proof -
  let ?e = "\<lparr>nap_message = m, nap_subscription_id = sid\<rparr>"
  define q1 where "q1 = (if max_len \<le> rq_len q then
      (case rq_entries q of [] \<Rightarrow> q | (i, e) # es \<Rightarrow> remove_indexes i e (q\<lparr>rq_entries := es\<rparr>)) else q)"
  have q1: "rq_inv q1 \<and> unacked q1 = (if max_len \<le> rq_len q then tl (unacked q) else unacked q) \<and> rq_next_id q1 = rq_next_id q"
  proof (cases "max_len \<le> rq_len q \<and> rq_entries q \<noteq> []")
    case False
    then show ?thesis using q by (auto simp: q1_def unacked_def)
  next
    case True
    then obtain i e es where es: "rq_entries q = (i, e) # es" by (cases "rq_entries q") auto
    have om: "om_remove i (rq_entries q) = es"
      using rq_invD(2) [OF q] es by (auto simp: om_remove_def filter_id_conv)
    have "q1 = remove_subscription_id (nap_subscription_id e) i
        (q\<lparr>rq_entries := om_remove i (rq_entries q), rq_index := (rq_index q)(nap_key e := None)\<rparr>)"
      using True es om by (simp add: q1_def remove_indexes_def nap_key_def)
    note r = remove_entry [OF q _ this]
    have "filter (\<lambda>x. nap_key x \<noteq> nap_key e) (unacked q) = tl (unacked q)"
      using q tl_as_filter [of nap_key e "map snd es"] by (simp add: rq_inv_def unacked_def es)
    then show ?thesis using r True es by simp
  qed
  have enq: "rq_enqueue max_len sid m q = (if nm_notification_data m = None then q else push_existing ?e q1)"
    by (simp add: rq_enqueue_def Let_def q1_def)
  have "set (unacked q1) \<subseteq> set (unacked q)" using q1 set_tl_subset [of "unacked q"] by auto
  then have k1: "nm_notification_data m \<noteq> None \<Longrightarrow> nap_key ?e \<notin> nap_key ` set (unacked q1)"
    using k by (auto simp: nap_key_def)
  have n1: "rq_next_id q1 \<noteq> - 1" using n q1 by simp
  show "rq_inv (rq_enqueue max_len sid m q)"
    "unacked (rq_enqueue max_len sid m q) = list_enqueue max_len sid m (unacked q)"
    "rq_next_id (rq_enqueue max_len sid m q) \<in> {rq_next_id q, rq_next_id q + 1}"
    using q q1 push_entry [OF _ n1 k1] by (auto simp: enq list_enqueue_def)
qed

lemma find_key:
  assumes q: "rq_inv q"
  shows "find (\<lambda>e. nap_key e = k) (unacked q) = Option.bind (rq_index q k) (map_of (rq_entries q))"
    "rq_index q k = Some i \<Longrightarrow> \<exists>e. (i, e) \<in> set (rq_entries q) \<and> nap_key e = k \<and> map_of (rq_entries q) i = Some e"
proof -
  note I = rq_invD [OF q]
  show *: "\<exists>e. (i, e) \<in> set (rq_entries q) \<and> nap_key e = k \<and> map_of (rq_entries q) i = Some e"
    if "rq_index q k = Some i" for i
    using that index_of_iff [OF I(4), of k i] I(2,5) by auto
  show "find (\<lambda>e. nap_key e = k) (unacked q) = Option.bind (rq_index q k) (map_of (rq_entries q))"
  proof (cases "rq_index q k")
    case None
    then have "nap_key e \<noteq> k" if "e \<in> set (unacked q)" for e
      using that index_of_iff [OF I(4), of k] I(5) by (force simp: unacked_def)
    then show ?thesis using None by (auto simp: find_None_iff)
  next
    case (Some i)
    obtain e where e: "(i, e) \<in> set (rq_entries q)" "nap_key e = k" "map_of (rq_entries q) i = Some e"
      using * [OF Some] by blast
    have "find (\<lambda>e. nap_key e = k) (unacked q) = Some e'" if e': "e' \<in> set (unacked q)" "nap_key e' = k" for e'
    proof -
      obtain e'' where f: "find (\<lambda>e. nap_key e = k) (unacked q) = Some e''"
        using e' by (cases "find (\<lambda>e. nap_key e = k) (unacked q)") (auto simp: find_None_iff)
      then have "e'' \<in> set (unacked q)" "nap_key e'' = k" by (auto simp: find_Some_iff)
      moreover have "inj_on nap_key (set (unacked q))" using q by (simp add: rq_inv_def distinct_map)
      ultimately show ?thesis using f e' by (auto simp: inj_on_def)
    qed
    moreover have "e \<in> set (unacked q)" using e(1) by (force simp: unacked_def)
    ultimately show ?thesis using e Some by simp
  qed
qed

lemma rq_ack_refines:
  assumes q: "rq_inv q"
  shows "rq_inv (snd (rq_ack sid n q))" "fst (rq_ack sid n q) = fst (list_ack sid n (unacked q))"
    "unacked (snd (rq_ack sid n q)) = snd (list_ack sid n (unacked q))" "rq_next_id (snd (rq_ack sid n q)) = rq_next_id q"
proof -
  have "rq_inv (snd (rq_ack sid n q)) \<and> fst (rq_ack sid n q) = fst (list_ack sid n (unacked q))
     \<and> unacked (snd (rq_ack sid n q)) = snd (list_ack sid n (unacked q)) \<and> rq_next_id (snd (rq_ack sid n q)) = rq_next_id q"
  proof (cases "rq_index q (sid, n)")
    case None
    then have f: "find (\<lambda>e. nap_key e = (sid, n)) (unacked q) = None" using find_key(1) [OF q] by simp
    then have "filter (\<lambda>e. nap_key e \<noteq> (sid, n)) (unacked q) = unacked q"
      by (auto simp: find_None_iff filter_id_conv)
    then show ?thesis using None f q by (simp add: rq_ack_def list_ack_def)
  next
    case (Some i)
    obtain e where e: "(i, e) \<in> set (rq_entries q)" "nap_key e = (sid, n)" "map_of (rq_entries q) i = Some e"
      using find_key(2) [OF q Some] by blast
    have "snd (rq_ack sid n q) = remove_subscription_id (nap_subscription_id e) i
        (q\<lparr>rq_entries := om_remove i (rq_entries q), rq_index := (rq_index q)(nap_key e := None)\<rparr>)"
      using Some e(2,3) by (cases q) (simp add: rq_ack_def Let_def nap_key_def)
    note r = remove_entry [OF q e(1) this]
    have "fst (rq_ack sid n q) = fst (list_ack sid n (unacked q))"
      using Some e(3) find_key(1) [OF q, of "(sid, n)"] by (simp add: rq_ack_def list_ack_def Let_def)
    then show ?thesis using r e(2) by (simp add: list_ack_def)
  qed
  then show "rq_inv (snd (rq_ack sid n q))" "fst (rq_ack sid n q) = fst (list_ack sid n (unacked q))"
    "unacked (snd (rq_ack sid n q)) = snd (list_ack sid n (unacked q))" "rq_next_id (snd (rq_ack sid n q)) = rq_next_id q"
    by blast+
qed

lemma map_of_om_remove_other: "j \<noteq> i \<Longrightarrow> map_of (om_remove i es) j = map_of es j"
  by (induction es) (auto simp: om_remove_def)

lemma remove_ids_eq:
  assumes "distinct (map fst (rq_entries q))" "distinct (map (nap_key \<circ> snd) (rq_entries q))"
    and "rq_index q = index_of (rq_entries q)" "distinct ids" "set ids \<subseteq> fst ` set (rq_entries q)"
  shows "remove_ids ids q =
     (map (\<lambda>i. the (map_of (rq_entries q) i)) ids,
      q\<lparr>rq_entries := filter (\<lambda>x. fst x \<notin> set ids) (rq_entries q),
        rq_index := index_of (filter (\<lambda>x. fst x \<notin> set ids) (rq_entries q))\<rparr>)"
  using assms
proof (induction ids arbitrary: q)
  case Nil
  then show ?case by (cases q) simp
next
  case (Cons i ids)
  let ?es = "rq_entries q"
  obtain e where e: "(i, e) \<in> set ?es" using Cons.prems(5) by auto
  then have m: "map_of ?es i = Some e" using Cons.prems(1) by simp
  define q1 where "q1 = q\<lparr>rq_entries := om_remove i ?es, rq_index := (rq_index q)(nap_key e := None)\<rparr>"
  have es1: "rq_entries q1 = om_remove i ?es" by (simp add: q1_def)
  have idx: "rq_index q1 = index_of (rq_entries q1)"
    using index_of_remove [OF Cons.prems(1,2) e] Cons.prems(3) by (simp add: q1_def)
  have IH: "remove_ids ids q1 = (map (\<lambda>i. the (map_of (rq_entries q1) i)) ids,
      q1\<lparr>rq_entries := filter (\<lambda>x. fst x \<notin> set ids) (rq_entries q1),
         rq_index := index_of (filter (\<lambda>x. fst x \<notin> set ids) (rq_entries q1))\<rparr>)"
  proof (rule Cons.IH)
    show "distinct (map fst (rq_entries q1))" "distinct (map (nap_key \<circ> snd) (rq_entries q1))"
      using Cons.prems(1,2) distinct_map_filter unfolding es1 om_remove_def by blast+
    show "set ids \<subseteq> fst ` set (rq_entries q1)"
      using Cons.prems(4,5) by (force simp: es1 om_remove_def)
  qed (use Cons.prems(4) idx in auto)
  have step: "remove_ids (i # ids) q = (case remove_ids ids q1 of (removed, q') \<Rightarrow> (e # removed, q'))"
    using m by (simp add: q1_def nap_key_def)
  have "map (\<lambda>j. the (map_of (rq_entries q1) j)) ids = map (\<lambda>j. the (map_of ?es j)) ids"
    using Cons.prems(4) by (intro map_cong refl) (metis es1 map_of_om_remove_other distinct.simps(2))
  moreover have "filter (\<lambda>x. fst x \<notin> set ids) (rq_entries q1) = filter (\<lambda>x. fst x \<notin> set (i # ids)) ?es"
    by (auto simp: es1 om_remove_def intro: filter_cong)
  ultimately show ?case unfolding step IH using m by (simp add: q1_def)
qed

lemma map_of_filter_fst:
  assumes "distinct (map fst es)"
  shows "map (\<lambda>i. the (map_of es i)) (map fst (filter P es)) = map snd (filter P es)"
    "List.map_filter (map_of es) (map fst (filter P es)) = map snd (filter P es)"
proof -
  have "\<forall>x \<in> set (filter P es). map_of es (fst x) = Some (snd x)" using assms by auto
  then show "map (\<lambda>i. the (map_of es i)) (map fst (filter P es)) = map snd (filter P es)"
    "List.map_filter (map_of es) (map fst (filter P es)) = map snd (filter P es)"
    by (auto simp: map_filter_def comp_def)
qed

lemma ids_of_entries:
  assumes "distinct (map fst es)"
  shows "filter (\<lambda>x. fst x \<notin> set (ids_of es sid)) es = filter (\<lambda>x. nap_subscription_id (snd x) \<noteq> sid) es"
  using assms by (intro filter_cong) (auto simp: ids_of_def dest: entry_unique)

lemma rq_remove_refines:
  assumes q: "rq_inv q"
  shows "rq_inv (snd (rq_remove_subscription sid q))"
    "fst (rq_remove_subscription sid q) = fst (list_remove sid (unacked q))"
    "unacked (snd (rq_remove_subscription sid q)) = snd (list_remove sid (unacked q))"
    "rq_next_id (snd (rq_remove_subscription sid q)) = rq_next_id q"
proof -
  note I = rq_invD [OF q]
  let ?es = "rq_entries q" and ?ids = "ids_of (rq_entries q) sid"
  let ?es' = "filter (\<lambda>x. nap_subscription_id (snd x) \<noteq> sid) ?es"
  define q1 where "q1 = q\<lparr>rq_by_subscription := (rq_by_subscription q)(sid := None)\<rparr>"
  have [simp]: "rq_entries q1 = ?es" "rq_index q1 = rq_index q" "rq_next_id q1 = rq_next_id q" by (simp_all add: q1_def)
  have ids: "distinct ?ids" "set ?ids \<subseteq> fst ` set ?es"
    using I(2) by (auto simp: ids_of_def distinct_map_filter)
  have r: "remove_ids ?ids q1 = (map snd (filter (\<lambda>x. nap_subscription_id (snd x) = sid) ?es),
      q1\<lparr>rq_entries := ?es', rq_index := index_of ?es'\<rparr>)"
    using remove_ids_eq [of q1 ?ids] I(2,4,5) ids ids_of_entries [OF I(2), of sid]
      map_of_filter_fst(1) [OF I(2), of "\<lambda>x. nap_subscription_id (snd x) = sid"]
    by (simp add: ids_of_def)
  have none: "?ids = [] \<longleftrightarrow> filter (\<lambda>x. nap_subscription_id (snd x) = sid) ?es = []"
    by (simp add: ids_of_def)
  have eq: "rq_remove_subscription sid q = remove_ids ?ids q1"
  proof (cases "?ids = []")
    case True
    then have "rq_by_subscription q sid = None" using I(6) by (simp add: by_subscription_of_def)
    then show ?thesis using True by (cases q) (auto simp: rq_remove_subscription_def q1_def fun_upd_idem)
  qed (use I(6) in \<open>simp add: rq_remove_subscription_def by_subscription_of_def q1_def\<close>)
  have "ids_of ?es' k = (if k = sid then [] else ids_of ?es k)" for k
    by (auto simp: ids_of_def intro!: arg_cong [of _ _ "map fst"] filter_cong)
  then have sub: "(rq_by_subscription q)(sid := None) = by_subscription_of ?es'"
    unfolding I(6) by (auto simp: by_subscription_of_def fun_eq_iff)
  show "fst (rq_remove_subscription sid q) = fst (list_remove sid (unacked q))"
    "unacked (snd (rq_remove_subscription sid q)) = snd (list_remove sid (unacked q))"
    "rq_next_id (snd (rq_remove_subscription sid q)) = rq_next_id q"
    by (simp_all add: eq r list_remove_def unacked_def filter_map comp_def)
  have "sorted_wrt (<) (map fst ?es')" "distinct (map nap_key (map snd ?es'))"
    using I(1,4) by (simp_all add: sorted_wrt_map sorted_wrt_filter distinct_map_filter)
  then show "rq_inv (snd (rq_remove_subscription sid q))"
    unfolding eq r using I(3) sub by (auto simp: rq_inv_def unacked_def q1_def)
qed

lemma rq_queries_refine:
  assumes q: "rq_inv q"
  shows "available_sequence_numbers sid q = list_available sid (unacked q)"
    "rq_get_message sid n q = list_message sid n (unacked q)"
    "clone_subscription sid q = fst (list_remove sid (unacked q))"
proof -
  note I = rq_invD [OF q]
  let ?P = "\<lambda>x. nap_subscription_id (snd x) = sid"
  have f: "filter (\<lambda>e. nap_subscription_id e = sid) (unacked q) = map snd (filter ?P (rq_entries q))"
    by (simp add: unacked_def filter_map comp_def)
  have ids: "rq_by_subscription q sid =
      (if filter ?P (rq_entries q) = [] then None else Some (map fst (filter ?P (rq_entries q))))"
    using I(6) by (simp add: by_subscription_of_def ids_of_def)
  show "clone_subscription sid q = fst (list_remove sid (unacked q))"
    using map_of_filter_fst(2) [OF I(2), of ?P] by (simp add: clone_subscription_def list_remove_def f ids)
  show "available_sequence_numbers sid q = list_available sid (unacked q)"
    using map_of_filter_fst(2) [OF I(2), of ?P]
    by (auto simp: available_sequence_numbers_def list_available_def f ids rq_is_empty_def Let_def)
  show "rq_get_message sid n q = list_message sid n (unacked q)"
    using find_key(1) [OF q] by (simp add: rq_get_message_def list_message_def map_option_bind split: option.split)
qed

section \<open>The interface the session uses\<close>

text \<open>A session's queue of unacknowledged messages: five operations with their laws over the list of messages.
  A queue has \<open>room\<close> for a number of further messages before its ids run out.\<close>

record ('q, 'd) queue_ops =
  qo_enqueue :: "nat \<Rightarrow> u32 \<Rightarrow> 'd NotificationMessage \<Rightarrow> 'q \<Rightarrow> 'q"
  qo_ack :: "u32 \<Rightarrow> u32 \<Rightarrow> 'q \<Rightarrow> 'd NonAckedPublish option \<times> 'q"
  qo_remove :: "u32 \<Rightarrow> 'q \<Rightarrow> 'd NonAckedPublish list \<times> 'q"
  qo_available :: "u32 \<Rightarrow> 'q \<Rightarrow> u32 list option"
  qo_message :: "u32 \<Rightarrow> u32 \<Rightarrow> 'q \<Rightarrow> 'd NotificationMessage option"

definition rq_ops :: "('d RetransmissionQueue, 'd) queue_ops" where
  "rq_ops = \<lparr>qo_enqueue = rq_enqueue, qo_ack = rq_ack, qo_remove = rq_remove_subscription,
             qo_available = available_sequence_numbers, qo_message = rq_get_message\<rparr>"

definition list_ops :: "('d NonAckedPublish list, 'd) queue_ops" where
  "list_ops = \<lparr>qo_enqueue = list_enqueue, qo_ack = list_ack, qo_remove = list_remove,
               qo_available = list_available, qo_message = list_message\<rparr>"

datatype 'd queue_call =
    Call_Enqueue nat u32 "'d NotificationMessage"
  | Call_Ack u32 u32
  | Call_Remove u32
  | Call_Available u32
  | Call_Message u32 u32

datatype 'd queue_answer =
    Ans_Done
  | Ans_Acked "'d NonAckedPublish option"
  | Ans_Removed "'d NonAckedPublish list"
  | Ans_Numbers "u32 list option"
  | Ans_Message "'d NotificationMessage option"

definition queue_call :: "('q, 'd) queue_ops \<Rightarrow> 'd queue_call \<Rightarrow> 'q \<Rightarrow> 'd queue_answer \<times> 'q" where
  "queue_call ops c q =
     (case c of
        Call_Enqueue n sid m \<Rightarrow> (Ans_Done, qo_enqueue ops n sid m q)
      | Call_Ack sid n \<Rightarrow> map_prod Ans_Acked id (qo_ack ops sid n q)
      | Call_Remove sid \<Rightarrow> map_prod Ans_Removed id (qo_remove ops sid q)
      | Call_Available sid \<Rightarrow> (Ans_Numbers (qo_available ops sid q), q)
      | Call_Message sid n \<Rightarrow> (Ans_Message (qo_message ops sid n q), q))"

fun queue_calls :: "('q, 'd) queue_ops \<Rightarrow> 'd queue_call list \<Rightarrow> 'q \<Rightarrow> 'd queue_answer list \<times> 'q" where
  "queue_calls ops [] q = ([], q)"
| "queue_calls ops (c # cs) q =
     (case queue_call ops c q of (a, q1) \<Rightarrow> (case queue_calls ops cs q1 of (as, q2) \<Rightarrow> (a # as, q2)))"

text \<open>Calls that never add a message under a key that is still in the queue, as the sequence numbers of a
  subscription guarantee.\<close>

fun fresh_calls :: "'d queue_call list \<Rightarrow> 'd NonAckedPublish list \<Rightarrow> bool" where
  "fresh_calls [] xs = True"
| "fresh_calls (c # cs) xs \<longleftrightarrow>
     (case c of
        Call_Enqueue n sid m \<Rightarrow>
          nm_notification_data m = None \<or> (sid, nm_sequence_number m) \<notin> nap_key ` set xs
      | _ \<Rightarrow> True)
     \<and> fresh_calls cs (snd (queue_call list_ops c xs))"

locale unacked_queue =
  fixes ops :: "('q, 'd) queue_ops" and inv :: "'q \<Rightarrow> bool" and contents :: "'q \<Rightarrow> 'd NonAckedPublish list"
    and room :: "'q \<Rightarrow> nat"
  assumes enqueue: "inv q \<Longrightarrow> 0 < room q \<Longrightarrow>
        nm_notification_data m = None \<or> (sid, nm_sequence_number m) \<notin> nap_key ` set (contents q) \<Longrightarrow>
        inv (qo_enqueue ops n sid m q) \<and> contents (qo_enqueue ops n sid m q) = list_enqueue n sid m (contents q)
        \<and> room q \<le> Suc (room (qo_enqueue ops n sid m q))"
    and ack: "inv q \<Longrightarrow> inv (snd (qo_ack ops sid k q)) \<and> fst (qo_ack ops sid k q) = fst (list_ack sid k (contents q))
        \<and> contents (snd (qo_ack ops sid k q)) = snd (list_ack sid k (contents q)) \<and> room (snd (qo_ack ops sid k q)) = room q"
    and remove: "inv q \<Longrightarrow> inv (snd (qo_remove ops sid q)) \<and> fst (qo_remove ops sid q) = fst (list_remove sid (contents q))
        \<and> contents (snd (qo_remove ops sid q)) = snd (list_remove sid (contents q)) \<and> room (snd (qo_remove ops sid q)) = room q"
    and available: "inv q \<Longrightarrow> qo_available ops sid q = list_available sid (contents q)"
    and message: "inv q \<Longrightarrow> qo_message ops sid k q = list_message sid k (contents q)"
begin

lemma call_refines:
  assumes "inv q" "0 < room q" "fresh_calls (c # cs) (contents q)"
  shows "inv (snd (queue_call ops c q)) \<and> room q \<le> Suc (room (snd (queue_call ops c q)))
     \<and> fst (queue_call ops c q) = fst (queue_call list_ops c (contents q))
     \<and> contents (snd (queue_call ops c q)) = snd (queue_call list_ops c (contents q))"
  using assms(3) enqueue [OF assms(1,2)] ack [OF assms(1)] remove [OF assms(1)] assms(1)
  by (cases c) (simp_all add: queue_call_def list_ops_def available message)

lemma calls_refine:
  assumes "inv q" "length cs \<le> room q" "fresh_calls cs (contents q)"
  shows "inv (snd (queue_calls ops cs q)) \<and> fst (queue_calls ops cs q) = fst (queue_calls list_ops cs (contents q))
     \<and> contents (snd (queue_calls ops cs q)) = snd (queue_calls list_ops cs (contents q))"
  using assms
proof (induction cs arbitrary: q)
  case Nil
  then show ?case by simp
next
  case (Cons c cs)
  let ?q1 = "snd (queue_call ops c q)"
  have "0 < room q" using Cons.prems(2) by simp
  note r = call_refines [OF Cons.prems(1) this Cons.prems(3)]
  have "length cs \<le> room ?q1" "fresh_calls cs (contents ?q1)" using Cons.prems(2,3) r by auto
  then show ?case
    using Cons.IH [of ?q1] r by (auto simp: case_prod_beta)
qed

end

definition rq_room :: "'d RetransmissionQueue \<Rightarrow> nat" where
  "rq_room q = 2 ^ 64 - 1 - unat (rq_next_id q)"

lemma rq_room_pos: "0 < rq_room q \<Longrightarrow> rq_next_id q \<noteq> - 1"
  by (auto simp: rq_room_def unsigned_minus_1_eq_mask mask_eq_exp_minus_1)

lemma rq_room_step: "0 < rq_room q \<Longrightarrow> rq_next_id q' \<in> {rq_next_id q, rq_next_id q + 1} \<Longrightarrow> rq_room q \<le> Suc (rq_room q')"
  by (auto simp: rq_room_def unat_word_ariths)

interpretation rq: unacked_queue rq_ops rq_inv unacked rq_room
proof
  fix q :: "'d RetransmissionQueue" and m :: "'d NotificationMessage" and sid n
  assume q: "rq_inv q" and "0 < rq_room q"
    and k: "nm_notification_data m = None \<or> (sid, nm_sequence_number m) \<notin> nap_key ` set (unacked q)"
  then show "rq_inv (qo_enqueue rq_ops n sid m q)
      \<and> unacked (qo_enqueue rq_ops n sid m q) = list_enqueue n sid m (unacked q)
      \<and> rq_room q \<le> Suc (rq_room (qo_enqueue rq_ops n sid m q))"
    using rq_enqueue_refines [OF q rq_room_pos k, of n] rq_room_step [of q "rq_enqueue n sid m q"]
    by (simp add: rq_ops_def)
qed (simp_all add: rq_ops_def rq_room_def rq_ack_refines rq_remove_refines rq_queries_refine)

lemma rq_inv_new: "rq_inv RetransmissionQueue_new" "unacked RetransmissionQueue_new = []"
    "rq_room RetransmissionQueue_new = 2 ^ 64 - 1"
  by (simp_all add: rq_inv_def RetransmissionQueue_new_def unacked_def index_of_def by_subscription_of_def ids_of_def rq_room_def)

text \<open>The list never exceeds the bound of its enqueue operations, except that it always holds the last message.\<close>

lemma list_calls_bounded:
  assumes "\<forall>n sid m. Call_Enqueue n sid m \<in> set cs \<longrightarrow> n \<le> N" "length xs \<le> max N 1"
  shows "length (snd (queue_calls list_ops cs xs)) \<le> max N 1"
  using assms
proof (induction cs arbitrary: xs)
  case Nil
  then show ?case by simp
next
  case (Cons c cs)
  have "length (snd (queue_call list_ops c xs)) \<le> max N 1"
  proof (cases c)
    case (Call_Enqueue n sid m)
    then have "n \<le> N" using Cons.prems(1) by auto
    then show ?thesis
      using Cons.prems(2) by (auto simp: Call_Enqueue queue_call_def list_ops_def list_enqueue_def)
  next
    case (Call_Ack sid n)
    then show ?thesis
      using order.trans [OF length_filter_le Cons.prems(2)] by (simp add: queue_call_def list_ops_def list_ack_def)
  next
    case (Call_Remove sid)
    then show ?thesis
      using order.trans [OF length_filter_le Cons.prems(2)] by (simp add: queue_call_def list_ops_def list_remove_def)
  qed (use Cons.prems(2) in \<open>simp_all add: queue_call_def list_ops_def\<close>)
  then show ?case using Cons by (auto simp: case_prod_beta)
qed

section \<open>Properties\<close>

text \<open>C9: the retransmission queue is a list of unacknowledged messages. From an empty queue, any sequence of
  calls (enqueue with eviction, acknowledge, remove a subscription, list the available sequence
  numbers, fetch a message) that does not reuse the key of a waiting message answers exactly as the
  same calls on a list of messages in sending order; afterwards the three index structures are
  consistent, and the queue holds no more messages than the largest bound given to enqueue.\<close>

theorem retransmission_queue_refines_list:
  assumes "length cs < 2 ^ 64" and "fresh_calls cs []"
    and "\<forall>n sid m. Call_Enqueue n sid m \<in> set cs \<longrightarrow> n \<le> N"
  shows "fst (queue_calls rq_ops cs RetransmissionQueue_new) = fst (queue_calls list_ops cs [])
     \<and> rq_inv (snd (queue_calls rq_ops cs RetransmissionQueue_new))
     \<and> unacked (snd (queue_calls rq_ops cs RetransmissionQueue_new)) = snd (queue_calls list_ops cs [])
     \<and> rq_len (snd (queue_calls rq_ops cs RetransmissionQueue_new)) \<le> max N 1"
proof -
  have "length cs \<le> rq_room (RetransmissionQueue_new :: 'a RetransmissionQueue)"
    unfolding rq_inv_new(3) using assms(1) by simp
  note rq.calls_refine [OF rq_inv_new(1) this, unfolded rq_inv_new(2), OF assms(2)]
  moreover have "length (snd (queue_calls list_ops cs [])) \<le> max N 1"
    by (rule list_calls_bounded [OF assms(3)]) simp
  ultimately show ?thesis unfolding unacked_len [symmetric] by simp
qed

definition example_message_data :: "u32 \<Rightarrow> unit NotificationMessage" where
  "example_message_data n = \<lparr>nm_sequence_number = n, nm_publish_time = 0, nm_notification_data = Some [()]\<rparr>"

theorem retransmission_queue_refines_list_witness:
  "fst (queue_calls rq_ops
      [Call_Enqueue 2 7 (example_message_data 1), Call_Enqueue 2 7 (example_message_data 2),
       Call_Enqueue 2 8 (example_message_data 1), Call_Ack 7 2, Call_Available 8, Call_Message 7 1]
      (RetransmissionQueue_new :: unit RetransmissionQueue))
   = [Ans_Done, Ans_Done, Ans_Done, Ans_Acked (Some \<lparr>nap_message = example_message_data 2, nap_subscription_id = 7\<rparr>),
      Ans_Numbers (Some [1]), Ans_Message None]"
  using retransmission_queue_refines_list [of "[Call_Enqueue 2 7 (example_message_data 1), Call_Enqueue 2 7 (example_message_data 2),
       Call_Enqueue 2 8 (example_message_data 1), Call_Ack 7 2, Call_Available 8, Call_Message 7 1]" 2]
  by (simp add: queue_call_def list_ops_def list_enqueue_def list_ack_def list_available_def list_message_def
      nap_key_def example_message_data_def)

end
