(* ===== verification/Subscription.thy ===== *)
theory Subscription
  imports Monitored_Items Retransmission_Queue Sequence_Numbers
begin

text \<open>
  A subscription: \<open>async-opcua-server/src/subscriptions/subscription.rs\<close>, the constructors of
  \<open>async-opcua-types/src/notification_message.rs\<close> and the scratch buffer of \<open>pool.rs\<close>.

  A subscription owns monitored items, a state machine that follows the table of OPC UA Part 4 5.13.1, a
  lifetime and a keep-alive counter, and the queue of messages that wait for a publish request. Hash maps and
  hash sets are ascending lists, a canonical form; \<open>iter\<close> gives the order in which an iteration visits them.
  Instants and durations are numbers of nanoseconds, \<open>Instant - Instant\<close> being zero when the result would be negative.
  The pool of recycled vectors carries no information and is left out.
\<close>

section \<open>Messages\<close>

datatype ('v, 'f) NotificationData =
    DataChangeNotification "'v MonitoredItemNotification list"
  | EventNotificationList "'f list"
  | StatusChangeNotification StatusCode

type_synonym ('v, 'f) message = "('v, 'f) NotificationData NotificationMessage"

text \<open>Why an operation gives no result: a panic, or a loop that never ends.\<close>

datatype Stop = Stop_panic | Stop_diverges

definition data_change ::
    "u32 \<Rightarrow> int \<Rightarrow> 'v MonitoredItemNotification list \<Rightarrow> 'f list \<Rightarrow> Stop + ('v, 'f) message" where
  "data_change sequence_number publish_time ds es =
     (if ds = [] \<and> es = [] then Inl Stop_panic
      else Inr \<lparr>nm_sequence_number = sequence_number, nm_publish_time = publish_time,
                nm_notification_data = Some ((if ds \<noteq> [] then [DataChangeNotification ds] else [])
                                             @ (if es \<noteq> [] then [EventNotificationList es] else []))\<rparr>)"

definition status_change :: "u32 \<Rightarrow> int \<Rightarrow> StatusCode \<Rightarrow> ('v, 'f) message" where
  "status_change sequence_number publish_time status =
     \<lparr>nm_sequence_number = sequence_number, nm_publish_time = publish_time,
      nm_notification_data = Some [StatusChangeNotification status]\<rparr>"

definition keep_alive :: "u32 \<Rightarrow> int \<Rightarrow> ('v, 'f) message" where
  "keep_alive sequence_number publish_time =
     \<lparr>nm_sequence_number = sequence_number, nm_publish_time = publish_time, nm_notification_data = None\<rparr>"

section \<open>The state of a subscription\<close>

datatype SubscriptionState = SS_Closed | SS_Creating | SS_Normal | SS_Late | SS_KeepAlive

datatype TickReason = ReceivePublishRequest | NotificationAvailable | TickTimerFired

datatype UpdateStateAction = UA_None | ReturnKeepAlive | ReturnNotifications | SubscriptionCreated | SubscriptionExpired

datatype TickResult = TR_Expired | TR_Enqueued | TR_None

datatype HandledState =
    None0 | Create3 | Normal4 | Normal5 | IntervalElapsed6 | IntervalElapsed7 | IntervalElapsed8 | IntervalElapsed9
  | Late10 | Late11 | Late12 | KeepAlive13 | KeepAlive14 | KeepAlive15 | KeepAlive16 | KeepAlive17 | Closed27

record MonitoredItemHandle =
  mih_subscription_id :: u32
  mih_monitored_item_id :: u32

record SubscriptionStateParams =
  sp_notifications_available :: bool
  sp_more_notifications :: bool
  sp_publishing_req_queued :: bool

record ('v, 'e, 'f) Subscription =
  sub_id :: u32
  sub_publishing_interval :: nat
  sub_max_lifetime_counter :: u32
  sub_max_keep_alive_counter :: u32
  sub_priority :: u8
  sub_monitored_items :: "(u32 \<times> ('v, 'e, 'f) MonitoredItem) list"
  sub_notified_monitored_items :: "u32 list"
  sub_state :: SubscriptionState
  sub_lifetime_counter :: u32
  sub_keep_alive_counter :: u32
  sub_first_message_sent :: bool
  sub_publishing_enabled :: bool
  sub_resend_data :: bool
  sub_sequence_number :: Handle
  sub_last_time_elapsed :: nat
  sub_notifications :: "('v, 'f) message list"
  sub_max_queued_notifications :: nat
  sub_max_notifications_per_publish :: nat
  sub_discarded_message_count :: u32

definition IMMEDIATE_NOTIFICATION_WAKE_MIN_INTERVAL :: nat where
  "IMMEDIATE_NOTIFICATION_WAKE_MIN_INTERVAL = 1000000000"

definition immediate_wake :: "nat \<Rightarrow> bool" where
  "immediate_wake interval \<longleftrightarrow> IMMEDIATE_NOTIFICATION_WAKE_MIN_INTERVAL \<le> interval"

text \<open>Evaluated over the integers, whose numerals are binary.\<close>

lemma immediate_wake_code [code]: "immediate_wake interval \<longleftrightarrow> 1000000000 \<le> int interval"
  by (simp add: immediate_wake_def IMMEDIATE_NOTIFICATION_WAKE_MIN_INTERVAL_def)

definition Subscription_new :: "u32 \<Rightarrow> bool \<Rightarrow> nat \<Rightarrow> u32 \<Rightarrow> u32 \<Rightarrow> u8 \<Rightarrow> nat \<Rightarrow> nat \<Rightarrow> nat \<Rightarrow> ('v, 'e, 'f) Subscription" where
  "Subscription_new i enabled interval lifetime keep_alive_count priority max_queued max_per_publish now_instant =
     \<lparr>sub_id = i, sub_publishing_interval = interval, sub_max_lifetime_counter = lifetime,
      sub_max_keep_alive_counter = keep_alive_count, sub_priority = priority, sub_monitored_items = [],
      sub_notified_monitored_items = [], sub_state = SS_Creating, sub_lifetime_counter = lifetime,
      sub_keep_alive_counter = keep_alive_count, sub_first_message_sent = False, sub_publishing_enabled = enabled,
      sub_resend_data = False, sub_sequence_number = Handle_new 1, sub_last_time_elapsed = now_instant,
      sub_notifications = [], sub_max_queued_notifications = max_queued,
      sub_max_notifications_per_publish = max_per_publish, sub_discarded_message_count = 0\<rparr>"

subsection \<open>Items\<close>

definition sub_get :: "u32 \<Rightarrow> ('v, 'e, 'f) Subscription \<Rightarrow> ('v, 'e, 'f) MonitoredItem option" where
  "sub_get i s = map_of (sub_monitored_items s) i"

definition sub_set_item :: "u32 \<Rightarrow> ('v, 'e, 'f) MonitoredItem \<Rightarrow> ('v, 'e, 'f) Subscription \<Rightarrow> ('v, 'e, 'f) Subscription" where
  "sub_set_item i m s = s\<lparr>sub_monitored_items := om_insert i m (sub_monitored_items s)\<rparr>"

definition sub_notified :: "u32 \<Rightarrow> ('v, 'e, 'f) Subscription \<Rightarrow> ('v, 'e, 'f) Subscription" where
  "sub_notified i s = s\<lparr>sub_notified_monitored_items := os_insert i (sub_notified_monitored_items s)\<rparr>"

definition sub_insert :: "u32 \<Rightarrow> ('v, 'e, 'f) MonitoredItem \<Rightarrow> ('v, 'e, 'f) Subscription \<Rightarrow> ('v, 'e, 'f) Subscription" where
  "sub_insert i m s = sub_notified i (sub_set_item i m s)"

definition sub_remove ::
    "u32 \<Rightarrow> ('v, 'e, 'f) Subscription \<Rightarrow> ('v, 'e, 'f) MonitoredItem option \<times> ('v, 'e, 'f) Subscription" where
  "sub_remove i s = (sub_get i s, s\<lparr>sub_monitored_items := om_remove i (sub_monitored_items s)\<rparr>)"

definition sub_drain ::
    "('v, 'e, 'f) Subscription \<Rightarrow> (u32 \<times> ('v, 'e, 'f) MonitoredItem) list \<times> ('v, 'e, 'f) Subscription" where
  "sub_drain s = (sub_monitored_items s, s\<lparr>sub_monitored_items := []\<rparr>)"

definition set_resend_data :: "('v, 'e, 'f) Subscription \<Rightarrow> ('v, 'e, 'f) Subscription" where
  "set_resend_data s = s\<lparr>sub_resend_data := True\<rparr>"

definition peek_next_sequence_number :: "('v, 'e, 'f) Subscription \<Rightarrow> u32" where
  "peek_next_sequence_number s = Handle_peek_next (sub_sequence_number s)"

definition sub_notify_data_value ::
    "(int \<Rightarrow> int \<Rightarrow> int option) \<Rightarrow> u32 \<Rightarrow> 'v DataValue \<Rightarrow> int \<Rightarrow> ('v, 'e, 'f) Subscription \<Rightarrow> ('v, 'e, 'f) Subscription" where
  "sub_notify_data_value add_time i v now s =
     (case sub_get i s of
        None \<Rightarrow> s
      | Some m \<Rightarrow>
          (case mi_notify_data_value add_time v now False m of
             (b, m') \<Rightarrow> if b then sub_notified i (sub_set_item i m' s) else sub_set_item i m' s))"

definition update_monitored_item_value ::
    "(int \<Rightarrow> int \<Rightarrow> int option) \<Rightarrow> MonitoredItemHandle \<Rightarrow> 'v DataValue \<Rightarrow> int \<Rightarrow> ('v, 'e, 'f) Subscription \<Rightarrow> ('v, 'e, 'f) Subscription" where
  "update_monitored_item_value add_time h v now s =
     (if mih_subscription_id h \<noteq> sub_id s then s else sub_notify_data_value add_time (mih_monitored_item_id h) v now s)"

definition sub_notify_eu_range_changed ::
    "u32 \<Rightarrow> ('v Variant \<Rightarrow> 'v Variant \<Rightarrow> bool) option \<Rightarrow> ('v, 'e, 'f) Subscription \<Rightarrow> ('v, 'e, 'f) Subscription" where
  "sub_notify_eu_range_changed i d s =
     (case sub_get i s of None \<Rightarrow> s | Some m \<Rightarrow> sub_set_item i (notify_eu_range_changed d m) s)"

definition sub_notify_event :: "u32 \<Rightarrow> 'e \<Rightarrow> 'e \<Rightarrow> ('v, 'e, 'f) Subscription \<Rightarrow> ('v, 'e, 'f) Subscription" where
  "sub_notify_event i overflow event s =
     (case sub_get i s of
        None \<Rightarrow> s
      | Some m \<Rightarrow>
          (case mi_notify_event overflow event m of
             (b, m') \<Rightarrow> if b then sub_notified i (sub_set_item i m' s) else sub_set_item i m' s))"

definition BadMonitoredItemIdInvalid :: StatusCode where "BadMonitoredItemIdInvalid = 0x80420000"

text \<open>Every event goes to the item of the handle, or to all event items, in the order of the map.\<close>

definition refresh_events ::
    "(u32 list \<Rightarrow> u32 list) \<Rightarrow> MonitoredItemHandle option \<Rightarrow> 'e \<Rightarrow> 'e list \<Rightarrow> ('v, 'e, 'f) Subscription
     \<Rightarrow> (StatusCode + unit) \<times> ('v, 'e, 'f) Subscription" where
  "refresh_events iter item overflow events s =
     (case item of
        Some h \<Rightarrow>
          if mih_subscription_id h \<noteq> sub_id s then (Inl BadMonitoredItemIdInvalid, s)
          else (case sub_get (mih_monitored_item_id h) s of
                  None \<Rightarrow> (Inl BadMonitoredItemIdInvalid, s)
                | Some m \<Rightarrow>
                    if \<not> is_event_item m then (Inl BadMonitoredItemIdInvalid, s)
                    else (Inr (), fold (sub_notify_event (mih_monitored_item_id h) overflow) events s))
      | None \<Rightarrow>
          (Inr (),
           fold (\<lambda>e s. fold (\<lambda>i s. if (case sub_get i s of None \<Rightarrow> False | Some m \<Rightarrow> is_event_item m)
                                     then sub_notify_event i overflow e s else s)
                             (iter (map fst (sub_monitored_items s))) s)
                events s))"

subsection \<open>The state machine\<close>

definition test_and_set_publishing_interval_elapsed :: "nat \<Rightarrow> ('v, 'e, 'f) Subscription \<Rightarrow> bool \<times> ('v, 'e, 'f) Subscription" where
  "test_and_set_publishing_interval_elapsed now_instant s =
     (if sub_publishing_interval s \<le> now_instant - sub_last_time_elapsed s
      then (True, s\<lparr>sub_last_time_elapsed := now_instant\<rparr>) else (False, s))"

definition reset_keep_alive_counter :: "('v, 'e, 'f) Subscription \<Rightarrow> ('v, 'e, 'f) Subscription" where
  "reset_keep_alive_counter s = s\<lparr>sub_keep_alive_counter := sub_max_keep_alive_counter s\<rparr>"

definition reset_lifetime_counter :: "('v, 'e, 'f) Subscription \<Rightarrow> ('v, 'e, 'f) Subscription" where
  "reset_lifetime_counter s = s\<lparr>sub_lifetime_counter := sub_max_lifetime_counter s\<rparr>"

definition start_publishing_timer :: "('v, 'e, 'f) Subscription \<Rightarrow> ('v, 'e, 'f) Subscription" where
  "start_publishing_timer s =
     s\<lparr>sub_lifetime_counter := (if sub_lifetime_counter s = 0 then 0 else sub_lifetime_counter s - 1)\<rparr>"

text \<open>The arms of the match in their order; the first one whose guard holds applies.\<close>

definition get_state_transition ::
    "TickReason \<Rightarrow> SubscriptionStateParams \<Rightarrow> ('v, 'e, 'f) Subscription \<Rightarrow> HandledState" where
  "get_state_transition r p s =
     (let available = sp_notifications_available p; more = sp_more_notifications p; queued = sp_publishing_req_queued p;
          enabled = sub_publishing_enabled s; first_sent = sub_first_message_sent s;
          immediate = immediate_wake (sub_publishing_interval s);
          ka = sub_keep_alive_counter s;
          closing = (if sub_lifetime_counter s \<le> 1 then Closed27 else None0)
      in case sub_state s of
           SS_Closed \<Rightarrow> None0
         | SS_Creating \<Rightarrow> Create3
         | SS_Normal \<Rightarrow>
             (case r of
                ReceivePublishRequest \<Rightarrow>
                  if \<not> enabled \<or> enabled \<and> \<not> more then Normal4
                  else if enabled \<and> more then Normal5
                  else None0
              | NotificationAvailable \<Rightarrow>
                  if enabled \<and> queued \<and> immediate \<and> (available \<or> more) then IntervalElapsed6
                  else if enabled \<and> \<not> queued \<and> (available \<or> more) then Normal5
                  else None0
              | TickTimerFired \<Rightarrow>
                  if queued \<and> enabled \<and> available then IntervalElapsed6
                  else if queued \<and> \<not> first_sent \<and> (\<not> enabled \<or> enabled \<and> \<not> more) then IntervalElapsed7
                  else if \<not> queued \<and> (\<not> first_sent \<or> enabled \<and> available) then IntervalElapsed8
                  else if first_sent \<and> (\<not> enabled \<or> enabled \<and> \<not> more) then IntervalElapsed9
                  else closing)
         | SS_Late \<Rightarrow>
             (case r of
                ReceivePublishRequest \<Rightarrow>
                  if enabled \<and> (available \<or> more) then Late10
                  else if \<not> enabled \<or> enabled \<and> \<not> available \<and> \<not> more then Late11
                  else None0
              | NotificationAvailable \<Rightarrow> if enabled \<and> (available \<or> more) then Late10 else None0
              | TickTimerFired \<Rightarrow> if 1 < sub_lifetime_counter s then Late12 else closing)
         | SS_KeepAlive \<Rightarrow>
             (case r of
                NotificationAvailable \<Rightarrow>
                  if enabled \<and> available \<and> queued \<and> immediate then KeepAlive14
                  else if enabled \<and> available \<and> \<not> queued then Late10
                  else None0
              | ReceivePublishRequest \<Rightarrow> KeepAlive13
              | TickTimerFired \<Rightarrow>
                  if enabled \<and> available \<and> queued then KeepAlive14
                  else if queued \<and> ka = 1 \<and> (\<not> enabled \<or> enabled \<and> \<not> available) then KeepAlive15
                  else if 1 < ka \<and> (\<not> enabled \<or> enabled \<and> \<not> available) then KeepAlive16
                  else if \<not> queued \<and> (ka = 1 \<or> 1 < ka \<and> enabled \<and> available) then KeepAlive17
                  else closing))"

text \<open>\<open>keep_alive_counter -= 1\<close> panics at zero in a checked build; \<open>KeepAlive16\<close> is only chosen above one.\<close>

definition handle_state_transition ::
    "HandledState \<Rightarrow> ('v, 'e, 'f) Subscription \<Rightarrow> UpdateStateAction \<times> ('v, 'e, 'f) Subscription" where
  "handle_state_transition t s =
     (case t of
        None0 \<Rightarrow> (UA_None, s)
      | Create3 \<Rightarrow> (SubscriptionCreated, s\<lparr>sub_state := SS_Normal, sub_first_message_sent := False\<rparr>)
      | Normal4 \<Rightarrow> (UA_None, s)
      | Normal5 \<Rightarrow> (ReturnNotifications, reset_lifetime_counter s)
      | IntervalElapsed6 \<Rightarrow>
          (ReturnNotifications, (start_publishing_timer (reset_lifetime_counter s))\<lparr>sub_first_message_sent := True\<rparr>)
      | IntervalElapsed7 \<Rightarrow>
          (ReturnKeepAlive, (start_publishing_timer (reset_lifetime_counter s))\<lparr>sub_first_message_sent := True\<rparr>)
      | IntervalElapsed8 \<Rightarrow> (UA_None, (start_publishing_timer s)\<lparr>sub_state := SS_Late\<rparr>)
      | IntervalElapsed9 \<Rightarrow> (UA_None, (reset_keep_alive_counter (start_publishing_timer s))\<lparr>sub_state := SS_KeepAlive\<rparr>)
      | Late10 \<Rightarrow> (ReturnNotifications, (reset_lifetime_counter s)\<lparr>sub_first_message_sent := True, sub_state := SS_Normal\<rparr>)
      | Late11 \<Rightarrow> (ReturnKeepAlive, (reset_lifetime_counter s)\<lparr>sub_first_message_sent := True, sub_state := SS_KeepAlive\<rparr>)
      | Late12 \<Rightarrow> (UA_None, (start_publishing_timer s)\<lparr>sub_state := SS_Late\<rparr>)
      | KeepAlive13 \<Rightarrow> (UA_None, s)
      | KeepAlive14 \<Rightarrow>
          (ReturnNotifications,
           (start_publishing_timer (reset_lifetime_counter s))\<lparr>sub_first_message_sent := True, sub_state := SS_Normal\<rparr>)
      | KeepAlive15 \<Rightarrow> (ReturnKeepAlive, reset_keep_alive_counter (start_publishing_timer s))
      | KeepAlive16 \<Rightarrow>
          (UA_None, (start_publishing_timer s)\<lparr>sub_keep_alive_counter := sub_keep_alive_counter s - 1\<rparr>)
      | KeepAlive17 \<Rightarrow> (UA_None, (start_publishing_timer s)\<lparr>sub_state := SS_Late\<rparr>)
      | Closed27 \<Rightarrow> (SubscriptionExpired, s\<lparr>sub_state := SS_Closed\<rparr>))"

definition notifications_available :: "('v, 'e, 'f) Subscription \<Rightarrow> bool" where
  "notifications_available s \<longleftrightarrow>
     (if sub_notified_monitored_items s \<noteq> [] then True
      else if sub_resend_data s then list_ex (\<lambda>x. has_last_value (snd x)) (sub_monitored_items s)
      else False)"

subsection \<open>Collecting notifications into messages\<close>

definition make_notification_message ::
    "u32 \<Rightarrow> ('v, 'f) Notification list \<Rightarrow> int \<Rightarrow> Stop + ('v, 'f) message" where
  "make_notification_message next_sequence_number notifications now =
     data_change next_sequence_number now
       (concat (map (\<lambda>n. case n of N_Data d \<Rightarrow> [d] | N_Event _ \<Rightarrow> []) notifications))
       (concat (map (\<lambda>n. case n of N_Data _ \<Rightarrow> [] | N_Event e \<Rightarrow> [e]) notifications))"

text \<open>What the loops over the items share: the scratch buffer of notifications, the messages made so far and the
  sequence numbers.\<close>

record ('v, 'f) Batch =
  bt_notifications :: "('v, 'f) Notification list"
  bt_messages :: "('v, 'f) message list"
  bt_sequence_number :: Handle

definition push_notification ::
    "nat \<Rightarrow> int \<Rightarrow> ('v, 'f) Notification \<Rightarrow> ('v, 'f) Batch \<Rightarrow> Stop + ('v, 'f) Batch" where
  "push_notification max_notifications now n b =
     (let ns = bt_notifications b @ [n]
      in if max_notifications \<le> length ns \<and> 0 < max_notifications then
           (case Handle_next (bt_sequence_number b) of
              (h, seq) \<Rightarrow>
                bind_result (make_notification_message seq ns now) (\<lambda>m.
                  Inr \<lparr>bt_notifications = [], bt_messages = bt_messages b @ [m], bt_sequence_number = h\<rparr>))
         else Inr (b\<lparr>bt_notifications := ns\<rparr>))"

definition pending_count :: "('v, 'e, 'f) MonitoredItem \<Rightarrow> nat" where
  "pending_count i = length (mi_notification_queue i) + (if mi_overflow_event i = None then 0 else 1)"

lemma pop_notification_count: "pop_notification i = (Some n, i') \<Longrightarrow> pending_count i = Suc (pending_count i')"
  by (auto simp: pop_notification_def pending_count_def split: option.splits if_splits list.splits)

text \<open>\<open>while let Some(notif) = item.pop_notification()\<close>.\<close>

function drain_item ::
    "nat \<Rightarrow> int \<Rightarrow> ('v, 'e, 'f) MonitoredItem \<Rightarrow> ('v, 'f) Batch \<Rightarrow> Stop + ('v, 'e, 'f) MonitoredItem \<times> ('v, 'f) Batch" where
  "drain_item max_notifications now i b =
     (case pop_notification i of
        (None, i') \<Rightarrow> Inr (i', b)
      | (Some n, i') \<Rightarrow> bind_result (push_notification max_notifications now n b) (drain_item max_notifications now i'))"
  by pat_completeness auto
termination
  by (relation "measure (\<lambda>(_, _, i, _). pending_count i)") (auto dest!: pop_notification_count [OF sym])

declare drain_item.simps [simp del]

definition sub_tick_monitored_item ::
    "(int \<Rightarrow> int \<Rightarrow> int option) \<Rightarrow> int \<Rightarrow> bool \<Rightarrow> nat \<Rightarrow> ('v, 'e, 'f) MonitoredItem \<Rightarrow> (u32 \<times> u32) list \<Rightarrow> ('v, 'f) Batch
     \<Rightarrow> Stop + ('v, 'e, 'f) MonitoredItem \<times> (u32 \<times> u32) list \<times> ('v, 'f) Batch" where
  "sub_tick_monitored_item add_time now resend max_notifications i triggers b =
     (case maybe_flush_aggregate add_time now (snd (maybe_enqueue_skipped_value add_time now i)) of
        None \<Rightarrow> Inl Stop_diverges
      | Some (_, i1) \<Rightarrow>
          let (i2, triggers') =
                (if is_sampling i1
                 then (case has_new_notifications i1 of
                         (new, i') \<Rightarrow> (i', if new then triggers @ map (\<lambda>t. (mi_id i', t)) (mi_triggered_items i') else triggers))
                 else (i1, triggers))
          in if is_reporting i2 then
               let i3 = (if resend then add_current_value_to_queue i2 else i2)
               in if has_notifications i3
                  then bind_result (drain_item max_notifications now i3 b) (\<lambda>(i4, b'). Inr (i4, triggers', b'))
                  else Inr (i3, triggers', b)
             else Inr (i2, triggers', b))"

type_synonym ('v, 'e, 'f) items = "(u32 \<times> ('v, 'e, 'f) MonitoredItem) list"

fun tick_items ::
    "(int \<Rightarrow> int \<Rightarrow> int option) \<Rightarrow> int \<Rightarrow> bool \<Rightarrow> nat \<Rightarrow> u32 list \<Rightarrow> ('v, 'e, 'f) items \<Rightarrow> (u32 \<times> u32) list \<Rightarrow> ('v, 'f) Batch
     \<Rightarrow> Stop + ('v, 'e, 'f) items \<times> (u32 \<times> u32) list \<times> ('v, 'f) Batch" where
  "tick_items add_time now resend m [] items triggers b = Inr (items, triggers, b)"
| "tick_items add_time now resend m (x # xs) items triggers b =
     (case map_of items x of
        None \<Rightarrow> tick_items add_time now resend m xs items triggers b
      | Some i \<Rightarrow>
          bind_result (sub_tick_monitored_item add_time now resend m i triggers b) (\<lambda>(i', triggers', b').
            tick_items add_time now resend m xs (om_insert x i' items) triggers' b'))"

fun handle_triggers ::
    "int \<Rightarrow> nat \<Rightarrow> (u32 \<times> u32) list \<Rightarrow> ('v, 'e, 'f) items \<Rightarrow> ('v, 'f) Batch \<Rightarrow> Stop + ('v, 'e, 'f) items \<times> ('v, 'f) Batch" where
  "handle_triggers now m [] items b = Inr (items, b)"
| "handle_triggers now m ((triggering_item, item_id) # ts) items b =
     (case map_of items item_id of
        None \<Rightarrow>
          (case map_of items triggering_item of
             None \<Rightarrow> handle_triggers now m ts items b
           | Some i \<Rightarrow> handle_triggers now m ts (om_insert triggering_item (remove_dead_trigger item_id i) items) b)
      | Some i \<Rightarrow>
          bind_result (drain_item m now i b) (\<lambda>(i', b').
            handle_triggers now m ts (om_insert item_id i' items) b'))"

definition sub_tick_monitored_items ::
    "(u32 list \<Rightarrow> u32 list) \<Rightarrow> (int \<Rightarrow> int \<Rightarrow> int option) \<Rightarrow> int \<Rightarrow> bool \<Rightarrow> ('v, 'e, 'f) Subscription
     \<Rightarrow> Stop + ('v, 'f) message list \<times> ('v, 'e, 'f) Subscription" where
  "sub_tick_monitored_items iter add_time now resend s =
     (let m = sub_max_notifications_per_publish s;
          ids = (if resend then iter (map fst (sub_monitored_items s)) else iter (sub_notified_monitored_items s));
          notified = (if resend then sub_notified_monitored_items s else []);
          b0 = \<lparr>bt_notifications = [], bt_messages = [], bt_sequence_number = sub_sequence_number s\<rparr>
      in bind_result (tick_items add_time now resend m ids (sub_monitored_items s) [] b0) (\<lambda>(items1, triggers, b1).
         bind_result (handle_triggers now m triggers items1 b1) (\<lambda>(items2, b2).
         bind_result
           (if bt_notifications b2 \<noteq> [] then
              (case Handle_next (bt_sequence_number b2) of
                 (h, seq) \<Rightarrow>
                   bind_result (make_notification_message seq (bt_notifications b2) now) (\<lambda>msg.
                     Inr \<lparr>bt_notifications = [], bt_messages = bt_messages b2 @ [msg], bt_sequence_number = h\<rparr>))
            else Inr b2) (\<lambda>b3.
         Inr (bt_messages b3,
              s\<lparr>sub_monitored_items := items2, sub_notified_monitored_items := notified,
                sub_sequence_number := bt_sequence_number b3\<rparr>)))))"

subsection \<open>The tick\<close>

definition sub_enqueue_notification :: "('v, 'f) message \<Rightarrow> ('v, 'e, 'f) Subscription \<Rightarrow> ('v, 'e, 'f) Subscription" where
  "sub_enqueue_notification n s = s\<lparr>sub_notifications := sub_notifications s @ [n]\<rparr>"

text \<open>The count is a saturating sum of \<open>u32\<close>, the number dropped cut to 32 bits.\<close>

definition saturating_add_u32 :: "u32 \<Rightarrow> u32 \<Rightarrow> u32" where
  "saturating_add_u32 a b = (if unat a + unat b < 2 ^ 32 then a + b else 0xFFFFFFFF)"

definition enforce_queued_notification_limit :: "('v, 'e, 'f) Subscription \<Rightarrow> ('v, 'e, 'f) Subscription" where
  "enforce_queued_notification_limit s =
     (if sub_max_queued_notifications s = 0 \<or> length (sub_notifications s) \<le> sub_max_queued_notifications s then s
      else
        let dropped = length (sub_notifications s) - sub_max_queued_notifications s
        in s\<lparr>sub_notifications := drop dropped (sub_notifications s),
             sub_discarded_message_count := saturating_add_u32 (sub_discarded_message_count s) (word_of_nat dropped)\<rparr>)"

definition BadTimeout :: StatusCode where "BadTimeout = 0x800A0000"

definition sub_action ::
    "(u32 list \<Rightarrow> u32 list) \<Rightarrow> (int \<Rightarrow> int \<Rightarrow> int option) \<Rightarrow> int \<Rightarrow> UpdateStateAction \<Rightarrow> ('v, 'e, 'f) Subscription
     \<Rightarrow> Stop + TickResult \<times> ('v, 'e, 'f) Subscription" where
  "sub_action iter add_time now action s1 =
     (case action of
        UA_None \<Rightarrow> Inr (TR_None, s1)
      | ReturnKeepAlive \<Rightarrow>
          Inr (TR_Enqueued,
               enforce_queued_notification_limit
                 (sub_enqueue_notification (keep_alive (Handle_peek_next (sub_sequence_number s1)) now) s1))
      | ReturnNotifications \<Rightarrow>
          bind_result (sub_tick_monitored_items iter add_time now (sub_resend_data s1) (s1\<lparr>sub_resend_data := False\<rparr>))
            (\<lambda>(messages, s2).
               Inr (TR_Enqueued, enforce_queued_notification_limit (fold sub_enqueue_notification messages s2)))
      | SubscriptionCreated \<Rightarrow> Inr (TR_None, s1)
      | SubscriptionExpired \<Rightarrow>
          (case Handle_next (sub_sequence_number s1) of
             (h, seq) \<Rightarrow>
               Inr (TR_Expired,
                    enforce_queued_notification_limit
                      (sub_enqueue_notification (status_change seq now BadTimeout)
                        (s1\<lparr>sub_monitored_items := [], sub_sequence_number := h\<rparr>)))))"

definition sub_tick ::
    "(u32 list \<Rightarrow> u32 list) \<Rightarrow> (int \<Rightarrow> int \<Rightarrow> int option) \<Rightarrow> int \<Rightarrow> nat \<Rightarrow> TickReason \<Rightarrow> bool \<Rightarrow> ('v, 'e, 'f) Subscription
     \<Rightarrow> Stop + TickResult \<times> ('v, 'e, 'f) Subscription" where
  "sub_tick iter add_time now now_instant reason queued s0 =
     (let (elapsed, s) =
            (if reason = TickTimerFired
             then if sub_state s0 = SS_Creating then (True, s0) else test_and_set_publishing_interval_elapsed now_instant s0
             else (False, s0))
      in if reason = TickTimerFired \<and> \<not> elapsed then Inr (TR_None, s)
         else
           let t = get_state_transition reason
                     \<lparr>sp_notifications_available = notifications_available s,
                      sp_more_notifications = sub_notifications s \<noteq> [],
                      sp_publishing_req_queued = queued\<rparr> s;
               (action, s1) = handle_state_transition t s
           in sub_action iter add_time now action s1)"

definition take_notification :: "('v, 'e, 'f) Subscription \<Rightarrow> ('v, 'f) message option \<times> ('v, 'e, 'f) Subscription" where
  "take_notification s =
     (case sub_notifications s of [] \<Rightarrow> (None, s) | n # ns \<Rightarrow> (Some n, s\<lparr>sub_notifications := ns\<rparr>))"

definition more_notifications :: "('v, 'e, 'f) Subscription \<Rightarrow> bool" where
  "more_notifications s \<longleftrightarrow> sub_notifications s \<noteq> []"

definition ready_to_remove :: "('v, 'e, 'f) Subscription \<Rightarrow> bool" where
  "ready_to_remove s \<longleftrightarrow> sub_state s = SS_Closed \<and> sub_notifications s = []"

subsection \<open>Settings\<close>

definition set_publishing_interval :: "nat \<Rightarrow> ('v, 'e, 'f) Subscription \<Rightarrow> ('v, 'e, 'f) Subscription" where
  "set_publishing_interval d s = reset_lifetime_counter (s\<lparr>sub_publishing_interval := d\<rparr>)"

definition set_max_lifetime_counter :: "u32 \<Rightarrow> ('v, 'e, 'f) Subscription \<Rightarrow> ('v, 'e, 'f) Subscription" where
  "set_max_lifetime_counter c s = s\<lparr>sub_max_lifetime_counter := c\<rparr>"

definition set_max_keep_alive_counter :: "u32 \<Rightarrow> ('v, 'e, 'f) Subscription \<Rightarrow> ('v, 'e, 'f) Subscription" where
  "set_max_keep_alive_counter c s = s\<lparr>sub_max_keep_alive_counter := c\<rparr>"

definition set_priority :: "u8 \<Rightarrow> ('v, 'e, 'f) Subscription \<Rightarrow> ('v, 'e, 'f) Subscription" where
  "set_priority p s = s\<lparr>sub_priority := p\<rparr>"

definition set_max_notifications_per_publish :: "nat \<Rightarrow> ('v, 'e, 'f) Subscription \<Rightarrow> ('v, 'e, 'f) Subscription" where
  "set_max_notifications_per_publish n s = s\<lparr>sub_max_notifications_per_publish := n\<rparr>"

definition set_publishing_enabled :: "bool \<Rightarrow> ('v, 'e, 'f) Subscription \<Rightarrow> ('v, 'e, 'f) Subscription" where
  "set_publishing_enabled b s = s\<lparr>sub_publishing_enabled := b\<rparr>"

definition next_publish_deadline :: "('v, 'e, 'f) Subscription \<Rightarrow> nat" where
  "next_publish_deadline s = sub_last_time_elapsed s + sub_publishing_interval s"

section \<open>Messages are the notifications in batches\<close>

subsection \<open>Pushing one notification after another\<close>

text \<open>The message of a batch, for a batch that is not empty.\<close>

definition batch_message :: "int \<Rightarrow> u32 \<Rightarrow> ('v, 'f) Notification list \<Rightarrow> ('v, 'f) message" where
  "batch_message now seq ns =
     (let ds = concat (map (\<lambda>n. case n of N_Data d \<Rightarrow> [d] | N_Event _ \<Rightarrow> []) ns);
          es = concat (map (\<lambda>n. case n of N_Data _ \<Rightarrow> [] | N_Event e \<Rightarrow> [e]) ns)
      in \<lparr>nm_sequence_number = seq, nm_publish_time = now,
          nm_notification_data = Some ((if ds \<noteq> [] then [DataChangeNotification ds] else [])
                                       @ (if es \<noteq> [] then [EventNotificationList es] else []))\<rparr>)"

lemma make_notification_message_eq:
  "make_notification_message seq ns now = (if ns = [] then Inl Stop_panic else Inr (batch_message now seq ns))"
  by (cases ns) (auto simp: make_notification_message_def data_change_def batch_message_def Let_def split: Notification.splits)

definition push_batch :: "nat \<Rightarrow> int \<Rightarrow> ('v, 'f) Notification \<Rightarrow> ('v, 'f) Batch \<Rightarrow> ('v, 'f) Batch" where
  "push_batch m now n b =
     (let ns = bt_notifications b @ [n]
      in if m \<le> length ns \<and> 0 < m
         then \<lparr>bt_notifications = [],
               bt_messages = bt_messages b @ [batch_message now (snd (Handle_next (bt_sequence_number b))) ns],
               bt_sequence_number = fst (Handle_next (bt_sequence_number b))\<rparr>
         else b\<lparr>bt_notifications := ns\<rparr>)"

lemma push_notification_eq: "push_notification m now n b = Inr (push_batch m now n b)"
  by (simp add: push_notification_def push_batch_def Let_def make_notification_message_eq case_prod_beta)

text \<open>What a run of pops takes out of an item.\<close>

definition item_contents :: "('v, 'e, 'f) MonitoredItem \<Rightarrow> ('v, 'f) Notification list" where
  "item_contents i =
     (case mi_overflow_event i of
        None \<Rightarrow> mi_notification_queue i
      | Some e \<Rightarrow> if mi_discard_oldest i then N_Event e # mi_notification_queue i else mi_notification_queue i @ [N_Event e])"

definition emptied :: "('v, 'e, 'f) MonitoredItem \<Rightarrow> ('v, 'e, 'f) MonitoredItem" where
  "emptied i = i\<lparr>mi_notification_queue := [], mi_overflow_event := None\<rparr>"

lemma pop_notification_contents:
  "pop_notification i =
     (case item_contents i of [] \<Rightarrow> (None, i) | n # ns \<Rightarrow> (Some n, snd (pop_notification i)))"
  "item_contents i \<noteq> [] \<Longrightarrow> item_contents (snd (pop_notification i)) = tl (item_contents i)"
  "emptied (snd (pop_notification i)) = emptied i"
  "item_contents i = [] \<Longrightarrow> emptied i = i"
  by (cases i; auto simp: pop_notification_def item_contents_def emptied_def split: option.splits list.splits if_splits)+

lemma drain_item_eq:
  "drain_item m now i b = Inr (emptied i, fold (push_batch m now) (item_contents i) b)"
proof (induction "item_contents i" arbitrary: i b)
  case Nil
  then show ?case
    using pop_notification_contents(1,4) [of i] by (subst drain_item.simps) simp
next
  case (Cons n ns)
  then have contents: "item_contents (snd (pop_notification i)) = ns"
    using pop_notification_contents(2) [of i] by (metis list.sel(3) list.distinct(1))
  obtain i' where pop: "pop_notification i = (Some n, i')"
    using pop_notification_contents(1) [of i] Cons(2) [symmetric] by simp
  have "drain_item m now i b = drain_item m now i' (push_batch m now n b)"
    by (subst drain_item.simps) (simp add: pop push_notification_eq)
  also have "\<dots> = Inr (emptied i', fold (push_batch m now) ns (push_batch m now n b))"
    using Cons(1) [of i'] contents pop by simp
  finally show ?case
    using pop_notification_contents(3) [of i] pop Cons(2) [symmetric] by simp
qed

subsection \<open>Reference: collect, then cut\<close>

text \<open>The notifications of the visited items, without regard to messages.\<close>

definition collect_item ::
    "(int \<Rightarrow> int \<Rightarrow> int option) \<Rightarrow> int \<Rightarrow> bool \<Rightarrow> ('v, 'e, 'f) MonitoredItem \<Rightarrow> (u32 \<times> u32) list
     \<Rightarrow> (('v, 'e, 'f) MonitoredItem \<times> (u32 \<times> u32) list \<times> ('v, 'f) Notification list) option" where
  "collect_item add_time now resend i triggers =
     (case maybe_flush_aggregate add_time now (snd (maybe_enqueue_skipped_value add_time now i)) of
        None \<Rightarrow> None
      | Some (_, i1) \<Rightarrow>
          let triggers' = (if is_sampling i1 \<and> mi_any_new_notification i1
                           then triggers @ map (\<lambda>t. (mi_id i1, t)) (mi_triggered_items i1) else triggers);
              i2 = (if is_sampling i1 then i1\<lparr>mi_any_new_notification := False\<rparr> else i1);
              i3 = (if resend then add_current_value_to_queue i2 else i2)
          in if is_reporting i2 then Some (emptied i3, triggers', item_contents i3) else Some (i2, triggers', []))"

fun collect_items ::
    "(int \<Rightarrow> int \<Rightarrow> int option) \<Rightarrow> int \<Rightarrow> bool \<Rightarrow> u32 list \<Rightarrow> ('v, 'e, 'f) items \<Rightarrow> (u32 \<times> u32) list
     \<Rightarrow> (('v, 'e, 'f) items \<times> (u32 \<times> u32) list \<times> ('v, 'f) Notification list) option" where
  "collect_items add_time now resend [] items triggers = Some (items, triggers, [])"
| "collect_items add_time now resend (x # xs) items triggers =
     (case map_of items x of
        None \<Rightarrow> collect_items add_time now resend xs items triggers
      | Some i \<Rightarrow>
          Option.bind (collect_item add_time now resend i triggers) (\<lambda>(i', triggers', ns).
          Option.bind (collect_items add_time now resend xs (om_insert x i' items) triggers') (\<lambda>(items', triggers'', ms).
          Some (items', triggers'', ns @ ms))))"

fun collect_triggered :: "(u32 \<times> u32) list \<Rightarrow> ('v, 'e, 'f) items \<Rightarrow> ('v, 'e, 'f) items \<times> ('v, 'f) Notification list" where
  "collect_triggered [] items = (items, [])"
| "collect_triggered ((t, x) # ts) items =
     (case map_of items x of
        Some i \<Rightarrow> (case collect_triggered ts (om_insert x (emptied i) items) of (items', ns) \<Rightarrow> (items', item_contents i @ ns))
      | None \<Rightarrow>
          (case map_of items t of
             None \<Rightarrow> collect_triggered ts items
           | Some i \<Rightarrow> collect_triggered ts (om_insert t (remove_dead_trigger x i) items)))"

definition collect ::
    "(u32 list \<Rightarrow> u32 list) \<Rightarrow> (int \<Rightarrow> int \<Rightarrow> int option) \<Rightarrow> int \<Rightarrow> bool \<Rightarrow> ('v, 'e, 'f) Subscription
     \<Rightarrow> (('v, 'e, 'f) items \<times> ('v, 'f) Notification list) option" where
  "collect iter add_time now resend s =
     Option.bind (collect_items add_time now resend
                    (iter (if resend then map fst (sub_monitored_items s) else sub_notified_monitored_items s))
                    (sub_monitored_items s) []) (\<lambda>(items, triggers, ns).
     case collect_triggered triggers items of (items', ms) \<Rightarrow> Some (items', ns @ ms))"

text \<open>Batches of \<open>m\<close>, the last one of what remains; a single batch when \<open>m\<close> is zero.\<close>

function batches :: "nat \<Rightarrow> 'a list \<Rightarrow> 'a list list" where
  "batches m xs = (if xs = [] then [] else if m = 0 then [xs] else take m xs # batches m (drop m xs))"
  by pat_completeness auto
termination
  by (relation "measure (length \<circ> snd)") auto

declare batches.simps [simp del]

lemma batches_full: "(\<forall>x\<in>set full. length x = m) \<Longrightarrow> 0 < m \<Longrightarrow> batches m (concat full @ ys) = full @ batches m ys"
proof (induction full)
  case (Cons x full)
  then show ?case by (subst batches.simps) auto
qed simp

lemma batches_short: "length ys < m \<or> m = 0 \<Longrightarrow> batches m ys = (if ys = [] then [] else [ys])"
  by (subst batches.simps) (auto simp: batches.simps [of m "[]"])

lemma drain_if:
  "(if has_notifications i then bind_result (drain_item m now i b) (\<lambda>(i', b'). Inr (i', ts, b')) else Inr (i, ts, b))
   = Inr (emptied i, ts, fold (push_batch m now) (item_contents i) b)"
  by (cases i) (simp add: drain_item_eq has_notifications_def item_contents_def emptied_def)

lemma sub_tick_monitored_item_eq:
  "sub_tick_monitored_item add_time now resend m i triggers b =
     (case collect_item add_time now resend i triggers of
        None \<Rightarrow> Inl Stop_diverges
      | Some (i', triggers', ns) \<Rightarrow> Inr (i', triggers', fold (push_batch m now) ns b))"
  unfolding sub_tick_monitored_item_def Let_def drain_if
  by (auto simp: collect_item_def Let_def has_new_notifications_def split: option.split)

lemma tick_items_eq:
  "tick_items add_time now resend m ids items triggers b =
     (case collect_items add_time now resend ids items triggers of
        None \<Rightarrow> Inl Stop_diverges
      | Some (items', triggers', ns) \<Rightarrow> Inr (items', triggers', fold (push_batch m now) ns b))"
  by (induction ids arbitrary: items triggers b)
     (auto simp: sub_tick_monitored_item_eq split: option.split prod.split bind_split)

lemma handle_triggers_eq:
  "handle_triggers now m ts items b =
     (case collect_triggered ts items of (items', ns) \<Rightarrow> Inr (items', fold (push_batch m now) ns b))"
  by (induction ts items arbitrary: b rule: collect_triggered.induct)
     (auto simp: drain_item_eq split: option.split prod.split)

lemma Handle_take_snoc:
  "Handle_take (Suc k) h =
     (fst (Handle_next (fst (Handle_take k h))), snd (Handle_take k h) @ [snd (Handle_next (fst (Handle_take k h)))])"
proof (induction k arbitrary: h)
  case (Suc k)
  then show ?case by (subst Handle_take.simps(2)) (simp add: case_prod_beta)
qed (simp add: case_prod_beta)

lemma fold_push_batch:
  fixes h :: Handle
  defines "b0 \<equiv> \<lparr>bt_notifications = [], bt_messages = [], bt_sequence_number = h\<rparr>"
  shows "\<exists>full. concat full @ bt_notifications (fold (push_batch m now) ns b0) = ns
    \<and> (\<forall>x\<in>set full. length x = m) \<and> (full \<noteq> [] \<longrightarrow> 0 < m)
    \<and> (0 < m \<longrightarrow> length (bt_notifications (fold (push_batch m now) ns b0)) < m)
    \<and> bt_messages (fold (push_batch m now) ns b0) = map2 (batch_message now) (snd (Handle_take (length full) h)) full
    \<and> bt_sequence_number (fold (push_batch m now) ns b0) = fst (Handle_take (length full) h)"
proof (induction ns rule: rev_induct)
  case Nil
  then show ?case by (intro exI [of _ "[]"]) (simp add: b0_def)
next
  case (snoc n ns)
  let ?b = "fold (push_batch m now) ns b0"
  from snoc obtain full where full: "concat full @ bt_notifications ?b = ns" "\<forall>x\<in>set full. length x = m" "full \<noteq> [] \<longrightarrow> 0 < m"
    "0 < m \<longrightarrow> length (bt_notifications ?b) < m"
    "bt_messages ?b = map2 (batch_message now) (snd (Handle_take (length full) h)) full"
    "bt_sequence_number ?b = fst (Handle_take (length full) h)"
    by blast
  show ?case
  proof (cases "m \<le> Suc (length (bt_notifications ?b)) \<and> 0 < m")
    case True
    let ?x = "bt_notifications ?b @ [n]"
    have b: "push_batch m now n ?b = \<lparr>bt_notifications = [],
        bt_messages = bt_messages ?b @ [batch_message now (snd (Handle_next (bt_sequence_number ?b))) ?x],
        bt_sequence_number = fst (Handle_next (bt_sequence_number ?b))\<rparr>"
      using True by (simp add: push_batch_def Let_def)
    have len: "length ?x = m" using True full(4) by simp
    show ?thesis
      using full len True
      by (intro exI [of _ "full @ [?x]"])
         (auto simp: b Handle_take_snoc simp del: Handle_take.simps(2))
  next
    case False
    then have b: "push_batch m now n ?b = ?b\<lparr>bt_notifications := bt_notifications ?b @ [n]\<rparr>"
      by (auto simp: push_batch_def Let_def)
    show ?thesis using full False by (intro exI [of _ full]) (auto simp: b)
  qed
qed

lemma batches_messages:
  assumes b_def: "b = fold (push_batch m now) ns \<lparr>bt_notifications = [], bt_messages = [], bt_sequence_number = h\<rparr>"
  shows "(if bt_notifications b \<noteq> [] then
            \<lparr>bt_notifications = [],
             bt_messages = bt_messages b @ [batch_message now (snd (Handle_next (bt_sequence_number b))) (bt_notifications b)],
             bt_sequence_number = fst (Handle_next (bt_sequence_number b))\<rparr>
          else b)
       = \<lparr>bt_notifications = [],
          bt_messages = map2 (batch_message now) (snd (Handle_take (length (batches m ns)) h)) (batches m ns),
          bt_sequence_number = fst (Handle_take (length (batches m ns)) h)\<rparr>"
proof -
  obtain full where full: "concat full @ bt_notifications b = ns" "\<forall>x\<in>set full. length x = m" "full \<noteq> [] \<longrightarrow> 0 < m"
    "0 < m \<longrightarrow> length (bt_notifications b) < m"
    "bt_messages b = map2 (batch_message now) (snd (Handle_take (length full) h)) full"
    "bt_sequence_number b = fst (Handle_take (length full) h)"
    using fold_push_batch [where m = m and now = now and ns = ns and h = h] by (auto simp: b_def)
  have "batches m ns = full @ (if bt_notifications b = [] then [] else [bt_notifications b])"
  proof (cases "m = 0")
    case True
    then have "full = []" using full(3) by simp
    then show ?thesis using full(1) True by (simp add: batches_short)
  next
    case False
    then show ?thesis
      using batches_full [OF full(2), of "bt_notifications b"] full(1,4) by (simp add: batches_short)
  qed
  then show ?thesis
    using full(5,6) by (cases b) (auto simp: Handle_take_snoc simp del: Handle_take.simps(2))
qed

lemma tick_monitored_items_reference:
  "sub_tick_monitored_items iter add_time now resend s =
     (case collect iter add_time now resend s of
        None \<Rightarrow> Inl Stop_diverges
      | Some (items, ns) \<Rightarrow>
          let bs = batches (sub_max_notifications_per_publish s) ns;
              (h, seqs) = Handle_take (length bs) (sub_sequence_number s)
          in Inr (map2 (batch_message now) seqs bs,
                  s\<lparr>sub_monitored_items := items,
                    sub_notified_monitored_items := (if resend then sub_notified_monitored_items s else []),
                    sub_sequence_number := h\<rparr>))"
proof -
  let ?m = "sub_max_notifications_per_publish s"
  have last: "bind_result
      (if bt_notifications b \<noteq> [] then
         bind_result (make_notification_message (snd (Handle_next (bt_sequence_number b))) (bt_notifications b) now) (\<lambda>msg.
           Inr \<lparr>bt_notifications = [], bt_messages = bt_messages b @ [msg],
                bt_sequence_number = fst (Handle_next (bt_sequence_number b))\<rparr>)
       else Inr b) f
    = f (if bt_notifications b \<noteq> [] then
            \<lparr>bt_notifications = [],
             bt_messages = bt_messages b @ [batch_message now (snd (Handle_next (bt_sequence_number b))) (bt_notifications b)],
             bt_sequence_number = fst (Handle_next (bt_sequence_number b))\<rparr>
          else b)" for b :: "('a, 'b) Batch" and f :: "('a, 'b) Batch \<Rightarrow> Stop + 'z"
    by (simp add: make_notification_message_eq case_prod_beta)
  let ?ids = "iter (if resend then map fst (sub_monitored_items s) else sub_notified_monitored_items s)"
  let ?b0 = "\<lparr>bt_notifications = [], bt_messages = [], bt_sequence_number = sub_sequence_number s\<rparr> :: ('a, 'b) Batch"
  have ids: "(if resend then iter (map fst (sub_monitored_items s)) else iter (sub_notified_monitored_items s)) = ?ids" by simp
  show ?thesis
  proof (cases "collect_items add_time now resend ?ids (sub_monitored_items s) []")
    case None
    then show ?thesis by (simp add: sub_tick_monitored_items_def tick_items_eq collect_def ids)
  next
    case (Some r)
    obtain items triggers ns where r: "r = (items, triggers, ns)" by (cases r) auto
    obtain items' ms where ms: "collect_triggered triggers items = (items', ms)" by fastforce
    define b where "b = fold (push_batch ?m now) ms (fold (push_batch ?m now) ns ?b0)"
    have "b = fold (push_batch ?m now) (ns @ ms) ?b0" by (simp add: b_def)
    note batches = batches_messages [OF this]
    show ?thesis
      unfolding sub_tick_monitored_items_def collect_def
      by (simp only: Let_def ids tick_items_eq Some r option.case prod.case bind_result_simps handle_triggers_eq ms last
          b_def [symmetric] batches bind.simps case_prod_beta fst_conv snd_conv Batch.select_convs)
  qed
qed

text \<open>C8: One pass over the monitored items of a subscription, with its shared scratch buffer and its message made as soon as
  a batch is full, gives exactly the messages of the reference: collect the notifications of the visited items and then of
  the triggered ones, cut the list into batches of \<open>max_notifications_per_publish\<close> (one batch when that is zero) and
  number them consecutively. No notification is lost or reordered, no message is empty, and the panic of an empty message
  cannot happen; the only way not to return is an aggregate that never ends.\<close>

theorem tick_monitored_items_batches:
  "sub_tick_monitored_items iter add_time now resend s =
     (case collect iter add_time now resend s of
        None \<Rightarrow> Inl Stop_diverges
      | Some (items, ns) \<Rightarrow>
          let bs = batches (sub_max_notifications_per_publish s) ns;
              (h, seqs) = Handle_take (length bs) (sub_sequence_number s)
          in Inr (map2 (batch_message now) seqs bs,
                  s\<lparr>sub_monitored_items := items,
                    sub_notified_monitored_items := (if resend then sub_notified_monitored_items s else []),
                    sub_sequence_number := h\<rparr>))"
  by (rule tick_monitored_items_reference)

section \<open>What a tick keeps\<close>

lemma handle_state_transition_keeps:
  "handle_state_transition tr s = (a, s') \<Longrightarrow> sub_id s' = sub_id s \<and> sub_notifications s' = sub_notifications s"
  by (auto simp: handle_state_transition_def reset_lifetime_counter_def start_publishing_timer_def reset_keep_alive_counter_def
      split: HandledState.splits)

lemma enqueue_all:
  "sub_notifications (fold sub_enqueue_notification ms s) = sub_notifications s @ ms
   \<and> sub_id (fold sub_enqueue_notification ms s) = sub_id s"
  by (induction ms arbitrary: s) (simp_all add: sub_enqueue_notification_def)

lemma limit_keeps_last:
  "sub_notifications s \<noteq> [] \<Longrightarrow> sub_notifications (enforce_queued_notification_limit s) \<noteq> []
     \<and> last (sub_notifications (enforce_queued_notification_limit s)) = last (sub_notifications s)"
  by (auto simp: enforce_queued_notification_limit_def Let_def)

lemma limit_simps [simp]:
  "sub_id (enforce_queued_notification_limit s) = sub_id s"
  "sub_state (enforce_queued_notification_limit s) = sub_state s"
  "sub_publishing_interval (enforce_queued_notification_limit s) = sub_publishing_interval s"
  "sub_last_time_elapsed (enforce_queued_notification_limit s) = sub_last_time_elapsed s"
  "sub_max_keep_alive_counter (enforce_queued_notification_limit s) = sub_max_keep_alive_counter s"
  by (simp_all add: enforce_queued_notification_limit_def Let_def)

lemma tick_monitored_items_keeps:
  "sub_tick_monitored_items iter add_time now resend s = Inr (ms, s') \<Longrightarrow>
     sub_id s' = sub_id s \<and> sub_notifications s' = sub_notifications s"
  "sub_tick_monitored_items iter add_time now resend s = Inl e \<Longrightarrow> e = Stop_diverges"
  by (auto simp: tick_monitored_items_reference Let_def split: option.splits prod.splits)

lemma sub_action_keeps:
  assumes "sub_action iter add_time now a s = Inr (r, s')"
  shows "sub_id s' = sub_id s \<and> (sub_notifications s \<noteq> [] \<longrightarrow> sub_notifications s' \<noteq> [])"
proof (cases a)
  case ReturnNotifications
  then obtain ms s2 where "sub_tick_monitored_items iter add_time now (sub_resend_data s) (s\<lparr>sub_resend_data := False\<rparr>) = Inr (ms, s2)"
    "s' = enforce_queued_notification_limit (fold sub_enqueue_notification ms s2)"
    using assms by (auto simp: sub_action_def bind_result_eq_Inr)
  then show ?thesis
    using tick_monitored_items_keeps(1) limit_keeps_last [of "fold sub_enqueue_notification ms s2"] enqueue_all [of ms s2]
    by fastforce
qed (use assms in \<open>auto simp: sub_action_def sub_enqueue_notification_def limit_keeps_last case_prod_beta\<close>)

lemma sub_action_stops: "sub_action iter add_time now a s = Inl e \<Longrightarrow> e = Stop_diverges"
  using tick_monitored_items_keeps(2) [of iter add_time now "sub_resend_data s" "s\<lparr>sub_resend_data := False\<rparr>" e]
  by (cases "sub_tick_monitored_items iter add_time now (sub_resend_data s) (s\<lparr>sub_resend_data := False\<rparr>)")
     (auto simp: sub_action_def split: UpdateStateAction.splits prod.splits)

lemma test_and_set_keeps:
  "test_and_set_publishing_interval_elapsed t s = (b, s') \<Longrightarrow> sub_id s' = sub_id s \<and> sub_notifications s' = sub_notifications s"
  by (auto simp: test_and_set_publishing_interval_elapsed_def split: if_splits)

text \<open>A tick either stops before the state machine or ends in the action of a transition.\<close>

lemma sub_tick_cases:
  obtains s1 where "sub_tick iter add_time now t reason queued s = Inr (TR_None, s1)" "sub_id s1 = sub_id s"
      "sub_notifications s1 = sub_notifications s"
  | a s1 where "sub_tick iter add_time now t reason queued s = sub_action iter add_time now a s1" "sub_id s1 = sub_id s"
      "sub_notifications s1 = sub_notifications s"
proof -
  let ?start = "if reason = TickTimerFired
     then if sub_state s = SS_Creating then (True, s) else test_and_set_publishing_interval_elapsed t s else (False, s)"
  obtain elapsed s0 where start: "?start = (elapsed, s0)" by fastforce
  have s0: "sub_id s0 = sub_id s" "sub_notifications s0 = sub_notifications s"
    using start test_and_set_keeps by (auto split: if_splits)
  let ?t = "get_state_transition reason \<lparr>sp_notifications_available = notifications_available s0,
     sp_more_notifications = sub_notifications s0 \<noteq> [], sp_publishing_req_queued = queued\<rparr> s0"
  obtain a s1 where h: "handle_state_transition ?t s0 = (a, s1)" by fastforce
  have tick: "sub_tick iter add_time now t reason queued s =
      (if reason = TickTimerFired \<and> \<not> elapsed then Inr (TR_None, s0) else sub_action iter add_time now a s1)"
    unfolding sub_tick_def start using h by (simp add: Let_def)
  show thesis
    using that(1) [of s0] that(2) [of a s1] tick s0 handle_state_transition_keeps [OF h] by (auto split: if_splits)
qed

lemma sub_tick_keeps:
  assumes "sub_tick iter add_time now t reason queued s = Inr (r, s')"
  shows "sub_id s' = sub_id s \<and> (sub_notifications s \<noteq> [] \<longrightarrow> sub_notifications s' \<noteq> [])"
proof (rule sub_tick_cases [of iter add_time now t reason queued s])
  fix a s1
  assume "sub_tick iter add_time now t reason queued s = sub_action iter add_time now a s1" "sub_id s1 = sub_id s"
    "sub_notifications s1 = sub_notifications s"
  then show ?thesis using assms sub_action_keeps [of iter add_time now a s1 r s'] by simp
qed (use assms in auto)

lemma sub_tick_stops: "sub_tick iter add_time now t reason queued s = Inl e \<Longrightarrow> e = Stop_diverges"
  by (rule sub_tick_cases [of iter add_time now t reason queued s]) (auto dest: sub_action_stops)

section \<open>A subscription without publish requests expires\<close>

text \<open>What may happen between two ticks while the client is silent: values and events arrive, items come and go and a resend
  is asked for. A tick of the run first takes over the items, the set of notified items and the flag.\<close>

type_synonym ('v, 'e, 'f) silent_tick = "int \<times> nat \<times> u32 list \<times> bool \<times> ('v, 'e, 'f) items"

definition between_ticks :: "u32 list \<Rightarrow> bool \<Rightarrow> ('v, 'e, 'f) items \<Rightarrow> ('v, 'e, 'f) Subscription \<Rightarrow> ('v, 'e, 'f) Subscription" where
  "between_ticks notified resend items s =
     s\<lparr>sub_notified_monitored_items := notified, sub_resend_data := resend, sub_monitored_items := items\<rparr>"

fun silent_run ::
    "(u32 list \<Rightarrow> u32 list) \<Rightarrow> (int \<Rightarrow> int \<Rightarrow> int option) \<Rightarrow> ('v, 'e, 'f) silent_tick list \<Rightarrow> ('v, 'e, 'f) Subscription
     \<Rightarrow> Stop + ('v, 'e, 'f) Subscription" where
  "silent_run iter add_time [] s = Inr s"
| "silent_run iter add_time ((now, t, notified, resend, items) # es) s =
     bind_result (sub_tick iter add_time now t TickTimerFired False (between_ticks notified resend items s))
       (\<lambda>(_, s'). silent_run iter add_time es s')"

text \<open>Ticks that are at least a publishing interval apart.\<close>

fun spaced :: "nat \<Rightarrow> nat \<Rightarrow> ('v, 'e, 'f) silent_tick list \<Rightarrow> bool" where
  "spaced interval last_time [] \<longleftrightarrow> True"
| "spaced interval last_time ((_, t, _) # es) \<longleftrightarrow> last_time + interval \<le> t \<and> spaced interval t es"

lemma spaced_mono: "spaced d l es \<Longrightarrow> l' \<le> l \<Longrightarrow> spaced d l' es"
  by (cases "(d, l, es)" rule: spaced.cases) auto

text \<open>How many ticks are left at most.\<close>

definition ticks_left :: "('v, 'e, 'f) Subscription \<Rightarrow> nat" where
  "ticks_left s =
     (let l = max 1 (unat (sub_lifetime_counter s)); k = unat (sub_max_keep_alive_counter s)
      in case sub_state s of
           SS_Closed \<Rightarrow> 0
         | SS_Late \<Rightarrow> l
         | SS_KeepAlive \<Rightarrow> unat (sub_keep_alive_counter s) + l
         | SS_Normal \<Rightarrow> Suc (k + l)
         | SS_Creating \<Rightarrow> Suc (Suc (k + l)))"

text \<open>A message is waiting although the state is normal: the guards of the timer ignore this case.\<close>

definition unsent_in_normal :: "('v, 'e, 'f) Subscription \<Rightarrow> bool" where
  "unsent_in_normal s \<longleftrightarrow>
     sub_state s = SS_Normal \<and> sub_first_message_sent s \<and> sub_publishing_enabled s \<and> sub_notifications s \<noteq> []"

definition keep_alive_positive :: "('v, 'e, 'f) Subscription \<Rightarrow> bool" where
  "keep_alive_positive s \<longleftrightarrow>
     0 < sub_max_keep_alive_counter s \<and> (sub_state s = SS_KeepAlive \<longrightarrow> 0 < sub_keep_alive_counter s)"

definition timed_out :: "('v, 'e, 'f) Subscription \<Rightarrow> bool" where
  "timed_out s \<longleftrightarrow> sub_state s = SS_Closed \<and> sub_notifications s \<noteq> []
     \<and> nm_notification_data (last (sub_notifications s)) = Some [StatusChangeNotification BadTimeout]"

lemma unat_less_one: "(w::u32) \<le> 1 \<longleftrightarrow> unat w \<le> 1" "1 < (w::u32) \<longleftrightarrow> 1 < unat w"
  by (simp_all add: word_le_nat_alt word_less_nat_alt)

lemma start_publishing_timer_unat:
  "unat (sub_lifetime_counter (start_publishing_timer s)) = unat (sub_lifetime_counter s) - 1"
  by (simp add: start_publishing_timer_def unat_minus_one)

lemma start_publishing_timer_simps [simp]:
  "sub_state (start_publishing_timer s) = sub_state s"
  "sub_keep_alive_counter (start_publishing_timer s) = sub_keep_alive_counter s"
  "sub_max_keep_alive_counter (start_publishing_timer s) = sub_max_keep_alive_counter s"
  "sub_first_message_sent (start_publishing_timer s) = sub_first_message_sent s"
  "sub_publishing_enabled (start_publishing_timer s) = sub_publishing_enabled s"
  "sub_notifications (start_publishing_timer s) = sub_notifications s"
  "sub_publishing_interval (start_publishing_timer s) = sub_publishing_interval s"
  "sub_last_time_elapsed (start_publishing_timer s) = sub_last_time_elapsed s"
  by (simp_all add: start_publishing_timer_def)

text \<open>One elapsed tick with no request queued, by the transition it takes.\<close>

definition silent_transition :: "('v, 'e, 'f) Subscription \<Rightarrow> HandledState" where
  "silent_transition s = get_state_transition TickTimerFired
     \<lparr>sp_notifications_available = notifications_available s, sp_more_notifications = sub_notifications s \<noteq> [],
      sp_publishing_req_queued = False\<rparr> s"

lemma silent_transition_cases:
  assumes "keep_alive_positive s" "\<not> unsent_in_normal s"
  shows "case sub_state s of
      SS_Closed \<Rightarrow> silent_transition s = None0
    | SS_Creating \<Rightarrow> silent_transition s = Create3
    | SS_Normal \<Rightarrow> silent_transition s \<in> {IntervalElapsed8, IntervalElapsed9}
    | SS_Late \<Rightarrow> silent_transition s = (if 1 < unat (sub_lifetime_counter s) then Late12 else Closed27)
    | SS_KeepAlive \<Rightarrow> silent_transition s \<in> (if sub_keep_alive_counter s = 1 then {KeepAlive17} else {KeepAlive16, KeepAlive17})"
proof -
  have "0 < k \<Longrightarrow> k = 1 \<or> 1 < k" for k :: u32
    by (auto simp: word_less_nat_alt word_unat_eq_iff)
  then show ?thesis
    using assms unfolding keep_alive_positive_def unsent_in_normal_def
    by (auto simp: silent_transition_def get_state_transition_def Let_def unat_less_one split: SubscriptionState.split)
qed

lemma get_state_transition_cong:
  "sub_state s' = sub_state s \<Longrightarrow> sub_publishing_enabled s' = sub_publishing_enabled s
   \<Longrightarrow> sub_first_message_sent s' = sub_first_message_sent s \<Longrightarrow> sub_publishing_interval s' = sub_publishing_interval s
   \<Longrightarrow> sub_keep_alive_counter s' = sub_keep_alive_counter s \<Longrightarrow> sub_lifetime_counter s' = sub_lifetime_counter s
   \<Longrightarrow> get_state_transition r p s' = get_state_transition r p s"
  by (simp only: get_state_transition_def)

lemma silent_transition_time [simp]:
  "silent_transition (s\<lparr>sub_last_time_elapsed := t\<rparr>) = silent_transition s"
  unfolding silent_transition_def notifications_available_def
  by (subst get_state_transition_cong [of _ s]) simp_all

definition quiet :: "('v, 'e, 'f) Subscription \<Rightarrow> bool" where
  "quiet s \<longleftrightarrow> keep_alive_positive s \<and> \<not> unsent_in_normal s \<and> (sub_state s = SS_Closed \<longrightarrow> timed_out s)"

lemma quiet_time [simp]:
  "quiet (s\<lparr>sub_last_time_elapsed := t\<rparr>) = quiet s" "ticks_left (s\<lparr>sub_last_time_elapsed := t\<rparr>) = ticks_left s"
  by (simp_all add: quiet_def keep_alive_positive_def unsent_in_normal_def timed_out_def ticks_left_def Let_def
      split: SubscriptionState.split)

text \<open>The effect of the transitions a silent tick can take.\<close>

definition silent_effect :: "int \<Rightarrow> ('v, 'e, 'f) Subscription \<Rightarrow> ('v, 'e, 'f) Subscription" where
  "silent_effect now s =
     (case handle_state_transition (silent_transition s) s of
        (action, s1) \<Rightarrow>
          if action = SubscriptionExpired then
            enforce_queued_notification_limit
              (sub_enqueue_notification (status_change (snd (Handle_next (sub_sequence_number s1))) now BadTimeout)
                (s1\<lparr>sub_monitored_items := [], sub_sequence_number := fst (Handle_next (sub_sequence_number s1))\<rparr>))
          else s1)"

lemma sub_tick_silent:
  assumes "quiet s" "sub_last_time_elapsed s + sub_publishing_interval s \<le> t"
  shows "\<exists>r. sub_tick iter add_time now t TickTimerFired False s =
    Inr (r, silent_effect now (if sub_state s = SS_Creating then s else s\<lparr>sub_last_time_elapsed := t\<rparr>))"
proof -
  define s1 where "s1 = (if sub_state s = SS_Creating then s else s\<lparr>sub_last_time_elapsed := t\<rparr>)"
  have s1: "silent_transition s1 = silent_transition s" by (simp add: s1_def)
  have elapsed: "test_and_set_publishing_interval_elapsed t s = (True, s\<lparr>sub_last_time_elapsed := t\<rparr>)"
    using assms(2) by (simp add: test_and_set_publishing_interval_elapsed_def)
  have tick: "sub_tick iter add_time now t TickTimerFired False s =
      (case handle_state_transition (silent_transition s1) s1 of (action, s1) \<Rightarrow> sub_action iter add_time now action s1)"
    by (simp add: sub_tick_def elapsed s1_def silent_transition_def)
  have "silent_transition s \<in> {None0, Create3, IntervalElapsed8, IntervalElapsed9, Late12, Closed27, KeepAlive16, KeepAlive17}"
    using silent_transition_cases [of s] assms(1) by (auto simp: quiet_def split: SubscriptionState.splits if_splits)
  then show ?thesis
    unfolding s1_def [symmetric] tick
    by (auto simp: s1 silent_effect_def handle_state_transition_def sub_action_def case_prod_beta)
qed

lemma silent_effect_step:
  assumes "quiet s"
  shows "quiet (silent_effect now s) \<and> (sub_state s \<noteq> SS_Closed \<longrightarrow> ticks_left (silent_effect now s) < ticks_left s)
    \<and> (sub_state s = SS_Closed \<longrightarrow> sub_state (silent_effect now s) = SS_Closed)
    \<and> sub_publishing_interval (silent_effect now s) = sub_publishing_interval s
    \<and> sub_last_time_elapsed (silent_effect now s) = sub_last_time_elapsed s"
proof -
  have k: "keep_alive_positive s" "\<not> unsent_in_normal s" using assms by (simp_all add: quiet_def)
  note cases = silent_transition_cases [OF k]
  have ka: "0 < w \<Longrightarrow> w \<noteq> 1 \<Longrightarrow> unat (w - 1) = unat w - 1 \<and> 1 < unat w \<and> 0 < w - 1" for w :: u32
    by (auto simp: unat_minus_one word_less_nat_alt word_unat_eq_iff)
  show ?thesis
  proof (cases "sub_state s")
    case SS_KeepAlive
    then have "0 < sub_keep_alive_counter s" "0 < sub_max_keep_alive_counter s" using k by (simp_all add: keep_alive_positive_def)
    then show ?thesis
      using SS_KeepAlive cases ka [of "sub_keep_alive_counter s"] start_publishing_timer_unat [of s]
      by (auto simp: silent_effect_def handle_state_transition_def quiet_def keep_alive_positive_def unsent_in_normal_def
          ticks_left_def Let_def unat_gt_0 max_def split: if_splits)
  next
    case SS_Late
    then show ?thesis
      using cases k start_publishing_timer_unat [of s]
      by (auto simp: limit_keeps_last silent_effect_def handle_state_transition_def quiet_def keep_alive_positive_def unsent_in_normal_def
          ticks_left_def Let_def timed_out_def sub_enqueue_notification_def status_change_def split: if_splits)
  next
    case SS_Normal
    then show ?thesis
      using cases k start_publishing_timer_unat [of s]
      by (auto simp: silent_effect_def handle_state_transition_def quiet_def keep_alive_positive_def unsent_in_normal_def
          reset_keep_alive_counter_def ticks_left_def Let_def)
  next
    case SS_Creating
    then show ?thesis
      using cases k
      by (auto simp: silent_effect_def handle_state_transition_def quiet_def keep_alive_positive_def unsent_in_normal_def
          ticks_left_def Let_def)
  next
    case SS_Closed
    then show ?thesis using cases assms by (auto simp: silent_effect_def handle_state_transition_def)
  qed
qed

lemma between_ticks_simps [simp]:
  "sub_state (between_ticks a b c s) = sub_state s"
  "sub_publishing_interval (between_ticks a b c s) = sub_publishing_interval s"
  "sub_last_time_elapsed (between_ticks a b c s) = sub_last_time_elapsed s"
  "quiet (between_ticks a b c s) = quiet s"
  "ticks_left (between_ticks a b c s) = ticks_left s"
  by (simp_all add: between_ticks_def quiet_def keep_alive_positive_def unsent_in_normal_def timed_out_def ticks_left_def Let_def
      split: SubscriptionState.split)

lemma silent_run_quiet:
  assumes "quiet s" "spaced (sub_publishing_interval s) (sub_last_time_elapsed s) es"
  shows "\<exists>s'. silent_run iter add_time es s = Inr s' \<and> quiet s' \<and> ticks_left s' \<le> ticks_left s - length es"
  using assms
proof (induction es arbitrary: s)
  case Nil
  then show ?case by simp
next
  case (Cons e es)
  obtain now t notified resend items where e: "e = (now, t, notified, resend, items)" by (cases e) auto
  let ?s = "between_ticks notified resend items s"
  let ?s1 = "silent_effect now (if sub_state ?s = SS_Creating then ?s else ?s\<lparr>sub_last_time_elapsed := t\<rparr>)"
  have t: "sub_last_time_elapsed s + sub_publishing_interval s \<le> t" "spaced (sub_publishing_interval s) t es"
    using Cons(3) e by simp_all
  obtain r where tick: "sub_tick iter add_time now t TickTimerFired False ?s = Inr (r, ?s1)"
    using sub_tick_silent [of ?s t iter add_time now] t(1) Cons(2) by auto
  have s1: "quiet ?s1" "sub_publishing_interval ?s1 = sub_publishing_interval s" "sub_last_time_elapsed ?s1 \<le> t"
    "ticks_left ?s1 \<le> ticks_left s - 1"
    using silent_effect_step [of ?s now] silent_effect_step [of "?s\<lparr>sub_last_time_elapsed := t\<rparr>" now] Cons(2) t(1)
    by (auto simp: ticks_left_def [of "silent_effect _ _"])
  have "spaced (sub_publishing_interval ?s1) (sub_last_time_elapsed ?s1) es"
    using spaced_mono [OF t(2) s1(3)] s1(2) by simp
  then obtain s' where "silent_run iter add_time es ?s1 = Inr s'" "quiet s'" "ticks_left s' \<le> ticks_left ?s1 - length es"
    using Cons(1) [OF s1(1)] by blast
  then show ?case using e tick s1(4) by auto
qed

text \<open>C18: A subscription whose client sends no publish request expires. When its keep-alive count is positive and no message
  is left over from an earlier publish in the normal state, then after at most
  \<open>ticks_left\<close> elapsed publishing intervals (the lifetime count, the keep-alive count and two more for a new
  subscription) it is closed, whatever values and events arrive in between, and its last message is the status change
  \<open>BadTimeout\<close>.\<close>

theorem silent_subscription_expires:
  assumes "keep_alive_positive s" "\<not> unsent_in_normal s" "sub_state s \<noteq> SS_Closed"
    and "spaced (sub_publishing_interval s) (sub_last_time_elapsed s) es" "ticks_left s \<le> length es"
  shows "\<exists>s'. silent_run iter add_time es s = Inr s' \<and> timed_out s'"
proof -
  have "quiet s" using assms(1-3) by (simp add: quiet_def)
  then obtain s' where s': "silent_run iter add_time es s = Inr s'" "quiet s'" "ticks_left s' = 0"
    using silent_run_quiet [OF _ assms(4), of iter add_time] assms(5) by auto
  then have "sub_state s' = SS_Closed"
    by (auto simp: ticks_left_def Let_def max_def split: SubscriptionState.splits if_splits)
  then show ?thesis using s' by (auto simp: quiet_def)
qed

definition example_subscription :: "(nat, nat, nat) Subscription" where
  "example_subscription = Subscription_new 7 True 10 6 2 1 10 1 100"

theorem silent_subscription_expires_witness:
  "\<exists>s'. silent_run (\<lambda>x. x) example_add_time
      (map (\<lambda>k. (int k, 110 + 10 * k, [1], False, [])) [0..<10]) example_subscription = Inr s' \<and> timed_out s'"
  by (rule silent_subscription_expires)
     (simp_all add: example_subscription_def Subscription_new_def keep_alive_positive_def unsent_in_normal_def ticks_left_def upt_rec)

section \<open>Leftover messages keep a subscription alive\<close>

lemma silent_transition_unsent:
  assumes "unsent_in_normal s" "1 < sub_lifetime_counter s"
  shows "silent_transition (between_ticks [] False items s) = None0"
  using assms
  by (simp add: silent_transition_def get_state_transition_def unsent_in_normal_def notifications_available_def between_ticks_def
      Let_def not_le)

lemma sub_tick_unsent:
  assumes "unsent_in_normal s" "1 < sub_lifetime_counter s"
  shows "\<exists>s'. sub_tick iter add_time now t TickTimerFired False (between_ticks [] False items s) = Inr (TR_None, s')
     \<and> unsent_in_normal s' \<and> sub_lifetime_counter s' = sub_lifetime_counter s"
proof -
  let ?s = "between_ticks [] False items s"
  have st: "sub_state s = SS_Normal" using assms(1) by (simp add: unsent_in_normal_def)
  have same: "unsent_in_normal (?s\<lparr>sub_last_time_elapsed := u\<rparr>) \<and> unsent_in_normal ?s" for u
    using assms(1) by (simp add: unsent_in_normal_def between_ticks_def)
  have none: "silent_transition (?s\<lparr>sub_last_time_elapsed := t\<rparr>) = None0" using silent_transition_unsent [OF assms] by simp
  show ?thesis
  proof (cases "sub_publishing_interval s \<le> t - sub_last_time_elapsed s")
    case True
    then show ?thesis
      using none same st
      by (simp add: sub_tick_def test_and_set_publishing_interval_elapsed_def Let_def silent_transition_def
          handle_state_transition_def sub_action_def) (simp add: between_ticks_def)
  next
    case False
    then show ?thesis
      using same st by (simp add: sub_tick_def test_and_set_publishing_interval_elapsed_def) (simp add: between_ticks_def)
  qed
qed

text \<open>The premise of the expiry cannot be dropped. A subscription in the normal state that holds a message for
  which there was no publish request, and whose items report nothing new, does not count down: however many publishing
  intervals pass without a request, it stays in the normal state with its lifetime counter unchanged, and so never
  expires.\<close>

theorem unsent_messages_block_expiry:
  assumes "unsent_in_normal s" "1 < sub_lifetime_counter s"
    and "\<forall>(now, t, notified, resend, items) \<in> set es. notified = [] \<and> \<not> resend"
  shows "\<exists>s'. silent_run iter add_time es s = Inr s' \<and> sub_state s' = SS_Normal
    \<and> sub_lifetime_counter s' = sub_lifetime_counter s"
proof -
  have "\<exists>s'. silent_run iter add_time es s = Inr s' \<and> unsent_in_normal s' \<and> sub_lifetime_counter s' = sub_lifetime_counter s"
    using assms
  proof (induction es arbitrary: s)
    case Nil
    then show ?case by simp
  next
    case (Cons e es)
    obtain now t items where e: "e = (now, t, [], False, items)" using Cons(4) by (cases e) auto
    obtain s1 where s1: "sub_tick iter add_time now t TickTimerFired False (between_ticks [] False items s) = Inr (TR_None, s1)"
      "unsent_in_normal s1" "sub_lifetime_counter s1 = sub_lifetime_counter s"
      using sub_tick_unsent [OF Cons(2,3)] by blast
    then show ?case using Cons(1) [of s1] Cons(3,4) e by auto
  qed
  then show ?thesis by (auto simp: unsent_in_normal_def)
qed

text \<open>The state is reached in three steps: two notifications, one per message, meet a single publish request.\<close>

definition ok_or :: "'a \<Rightarrow> Stop + 'b \<times> 'a \<Rightarrow> 'a" where
  "ok_or d r = (case r of Inl _ \<Rightarrow> d | Inr (_, x) \<Rightarrow> x)"

definition example_created :: "(nat, nat, nat) Subscription" where
  "example_created = ok_or example_subscription
     (sub_tick (\<lambda>x. x) example_add_time 0 100 TickTimerFired False example_subscription)"

definition example_published :: "(nat, nat, nat) Subscription" where
  "example_published = ok_or example_subscription
     (sub_tick (\<lambda>x. x) example_add_time 10 110 TickTimerFired True (sub_insert 1 example_item example_created))"

lemma example_unsent:
  "length (sub_notifications example_published) = 2"
  "unsent_in_normal (snd (take_notification example_published))"
  "sub_lifetime_counter (snd (take_notification example_published)) = 5"
  by code_simp+

theorem unsent_messages_block_expiry_witness:
  "\<exists>s'. silent_run (\<lambda>x. x) example_add_time (map (\<lambda>k. (int k, 120 + 10 * k, [], False, [])) [0..<1000])
       (snd (take_notification example_published)) = Inr s'
    \<and> sub_state s' = SS_Normal \<and> sub_lifetime_counter s' = sub_lifetime_counter (snd (take_notification example_published))"
  by (rule unsent_messages_block_expiry [OF example_unsent(2)]) (auto simp: example_unsent(3))

text \<open>An item that is only sampled is announced like one that reports. A tick that finds it returns no message and still
  counts as one: no keep-alive message is sent, the flag of the first message is set and the lifetime starts anew.\<close>

definition example_sampled :: "(nat, nat, nat) Subscription" where
  "example_sampled = sub_insert 1 (set_monitoring_mode Mode_Sampling example_item) example_created"

lemma sampled_item_suppresses_keep_alive:
  "sub_notifications (ok_or example_sampled (sub_tick (\<lambda>x. x) example_add_time 10 110 TickTimerFired True example_sampled)) = []"
  "sub_first_message_sent (ok_or example_sampled (sub_tick (\<lambda>x. x) example_add_time 10 110 TickTimerFired True example_sampled))"
  "length (sub_notifications (ok_or example_created (sub_tick (\<lambda>x. x) example_add_time 10 110 TickTimerFired True example_created))) = 1"
  by code_simp+

end
