(* ===== verification/Session_Subscriptions.thy ===== *)
theory Session_Subscriptions
  imports Subscription "HOL-Library.Multiset"
begin

text \<open>
  The subscriptions of a session: \<open>async-opcua-server/src/subscriptions/session_subscriptions.rs\<close>, and the
  loop of the session's actor that serves a publish request (\<open>actor.rs\<close>).

  A session holds its subscriptions by id, the queue of publish requests the client has sent, the messages sent but
  not acknowledged, the subscriptions being transferred to another session and a cached order by priority. A tick
  advances the subscriptions and answers publish requests with their messages. The response channel of a request is a
  number, and \<open>ss_sent\<close> lists the answers given, in order. Floating-point publishing intervals reach the model as a number of
  microseconds; diagnostics, response headers, user tokens and type trees are left out. A lookup
  that the code unwraps gives \<open>Stop_panic\<close> when it fails.
\<close>

section \<open>State\<close>

record PendingPublish =
  pp_channel :: nat
  pp_request_handle :: u32
  pp_acknowledgements :: "(u32 \<times> u32) list option"
  pp_ack_results :: "StatusCode list option"
  pp_deadline :: nat

record ('v, 'f) PublishResponse =
  pr_subscription_id :: u32
  pr_available_sequence_numbers :: "u32 list option"
  pr_more_notifications :: bool
  pr_message :: "('v, 'f) message"
  pr_results :: "StatusCode list option"

datatype ('v, 'f) PublishReply = Reply_Fault StatusCode | Reply_Publish "('v, 'f) PublishResponse"

record SubscriptionLimits =
  lim_max_subscriptions_per_session :: nat
  lim_max_pending_publish_requests :: nat
  lim_max_publish_requests_per_subscription :: nat
  lim_max_keep_alive_count :: u32
  lim_default_keep_alive_count :: u32
  lim_max_monitored_items_per_sub :: nat
  lim_max_lifetime_count :: u32
  lim_max_notifications_per_publish :: nat
  lim_max_queued_notifications :: nat

record ('v, 'e, 'f) SessionSubscriptions =
  ss_subscriptions :: "(u32 \<times> ('v, 'e, 'f) Subscription) list"
  ss_publish_request_queue :: "PendingPublish list"
  ss_pending_status_changes :: "(u32 \<times> ('v, 'f) message) list"
  ss_transferring :: "u32 list"
  ss_retransmission_queue :: "('v, 'f) NotificationData RetransmissionQueue"
  ss_limits :: SubscriptionLimits
  ss_cached_priority_order :: "u32 list"
  ss_priority_cache_dirty :: bool
  ss_sent :: "(nat \<times> ('v, 'f) PublishReply) list"

type_synonym ('v, 'e, 'f) session = "('v, 'e, 'f) SessionSubscriptions"

text \<open>A subscription that expired, with the ids of its items.\<close>

type_synonym RemovedSubscription = "u32 \<times> u32 list"

definition BadSubscriptionIdInvalid :: StatusCode where "BadSubscriptionIdInvalid = 0x80280000"
definition BadTooManySubscriptions :: StatusCode where "BadTooManySubscriptions = 0x80770000"
definition BadTooManyPublishRequests :: StatusCode where "BadTooManyPublishRequests = 0x80780000"
definition BadNoSubscription :: StatusCode where "BadNoSubscription = 0x80790000"
definition BadSequenceNumberUnknown :: StatusCode where "BadSequenceNumberUnknown = 0x807A0000"
definition BadMessageNotAvailable :: StatusCode where "BadMessageNotAvailable = 0x807B0000"
definition BadRequestCancelledByClient :: StatusCode where "BadRequestCancelledByClient = 0x802C0000"
definition BadNothingToDo :: StatusCode where "BadNothingToDo = 0x800F0000"
definition BadTooManyMonitoredItems :: StatusCode where "BadTooManyMonitoredItems = 0x80DB0000"

definition SessionSubscriptions_new :: "SubscriptionLimits \<Rightarrow> ('v, 'e, 'f) session" where
  "SessionSubscriptions_new limits =
     \<lparr>ss_subscriptions = [], ss_publish_request_queue = [], ss_pending_status_changes = [], ss_transferring = [],
      ss_retransmission_queue = RetransmissionQueue_new, ss_limits = limits, ss_cached_priority_order = [],
      ss_priority_cache_dirty = True, ss_sent = []\<rparr>"

definition max_publish_requests :: "('v, 'e, 'f) session \<Rightarrow> nat" where
  "max_publish_requests ss =
     max (min (lim_max_pending_publish_requests (ss_limits ss))
              (length (ss_subscriptions ss) * lim_max_publish_requests_per_subscription (ss_limits ss))) 1"

definition is_ready_to_delete :: "('v, 'e, 'f) session \<Rightarrow> bool" where
  "is_ready_to_delete ss \<longleftrightarrow>
     ss_subscriptions ss = [] \<and> ss_publish_request_queue ss = [] \<and> ss_pending_status_changes ss = []"

definition ss_get :: "u32 \<Rightarrow> ('v, 'e, 'f) session \<Rightarrow> ('v, 'e, 'f) Subscription option" where
  "ss_get i ss = map_of (ss_subscriptions ss) i"

definition ss_put :: "u32 \<Rightarrow> ('v, 'e, 'f) Subscription \<Rightarrow> ('v, 'e, 'f) session \<Rightarrow> ('v, 'e, 'f) session" where
  "ss_put i s ss = ss\<lparr>ss_subscriptions := om_insert i s (ss_subscriptions ss)\<rparr>"

definition ss_reply :: "PendingPublish \<Rightarrow> ('v, 'f) PublishReply \<Rightarrow> ('v, 'e, 'f) session \<Rightarrow> ('v, 'e, 'f) session" where
  "ss_reply p r ss = ss\<lparr>ss_sent := ss_sent ss @ [(pp_channel p, r)]\<rparr>"

section \<open>Transfer\<close>

definition ss_insert ::
    "('v, 'e, 'f) Subscription \<Rightarrow> ('v, 'f) NotificationData NonAckedPublish list \<Rightarrow> ('v, 'e, 'f) session
     \<Rightarrow> (StatusCode + unit) \<times> ('v, 'e, 'f) session" where
  "ss_insert s notifs ss =
     (if lim_max_subscriptions_per_session (ss_limits ss) \<le> length (ss_subscriptions ss)
      then (Inl BadTooManySubscriptions, ss)
      else (Inr (),
            (ss_put (sub_id s) s ss)\<lparr>ss_transferring := os_remove (sub_id s) (ss_transferring ss),
               ss_priority_cache_dirty := True,
               ss_retransmission_queue := fold push_existing notifs (ss_retransmission_queue ss)\<rparr>))"

definition update_owner :: "('v, 'e, 'f) session \<Rightarrow> ('v, 'e, 'f) session" where
  "update_owner ss = ss\<lparr>ss_subscriptions := map (\<lambda>(i, s). (i, set_resend_data s)) (ss_subscriptions ss)\<rparr>"

definition apply_revalidated_values ::
    "(int \<Rightarrow> int \<Rightarrow> int option) \<Rightarrow> int \<Rightarrow> (MonitoredItemHandle \<times> 'v DataValue) list \<Rightarrow> ('v, 'e, 'f) session \<Rightarrow> ('v, 'e, 'f) session" where
  "apply_revalidated_values add_time now vs ss =
     fold (\<lambda>(h, v) ss. case ss_get (mih_subscription_id h) ss of
             None \<Rightarrow> ss
           | Some s \<Rightarrow> ss_put (mih_subscription_id h) (update_monitored_item_value add_time h v now s) ss) vs ss"

definition ss_remove ::
    "u32 \<Rightarrow> ('v, 'e, 'f) session
     \<Rightarrow> (('v, 'e, 'f) Subscription option \<times> ('v, 'f) NotificationData NonAckedPublish list) \<times> ('v, 'e, 'f) session" where
  "ss_remove i ss =
     (case rq_remove_subscription i (ss_retransmission_queue ss) of
        (notifs, q) \<Rightarrow>
          ((ss_get i ss, notifs),
           ss\<lparr>ss_transferring := os_remove i (ss_transferring ss), ss_priority_cache_dirty := True,
              ss_retransmission_queue := q, ss_subscriptions := om_remove i (ss_subscriptions ss)\<rparr>))"

definition clone_for_transfer ::
    "u32 \<Rightarrow> ('v, 'e, 'f) session
     \<Rightarrow> (('v, 'e, 'f) Subscription \<times> ('v, 'f) NotificationData NonAckedPublish list) option" where
  "clone_for_transfer i ss =
     (case ss_get i ss of None \<Rightarrow> None | Some s \<Rightarrow> Some (s, clone_subscription i (ss_retransmission_queue ss)))"

definition mark_transferring :: "u32 \<Rightarrow> ('v, 'e, 'f) session \<Rightarrow> (StatusCode + unit) \<times> ('v, 'e, 'f) session" where
  "mark_transferring i ss =
     (case ss_get i ss of
        None \<Rightarrow> (Inl BadSubscriptionIdInvalid, ss)
      | Some _ \<Rightarrow> (Inr (), ss\<lparr>ss_transferring := os_insert i (ss_transferring ss)\<rparr>))"

section \<open>Services\<close>

text \<open>The counts of a create or modify request; the product is one of \<open>u32\<close>.\<close>

definition revise_subscription_values :: "SubscriptionLimits \<Rightarrow> u32 \<Rightarrow> u32 \<Rightarrow> u32 \<times> u32" where
  "revise_subscription_values limits requested_keep_alive requested_lifetime =
     (let ka = (if lim_max_keep_alive_count limits < requested_keep_alive then lim_max_keep_alive_count limits
                else if requested_keep_alive = 0 then lim_default_keep_alive_count limits
                else requested_keep_alive);
          min_lifetime = ka * 3;
          lifetime = (if requested_lifetime < min_lifetime then min_lifetime
                      else if lim_max_lifetime_count limits < requested_lifetime then lim_max_lifetime_count limits
                      else requested_lifetime)
      in (ka, lifetime))"

definition revise_max_notifications_per_publish :: "u32 \<Rightarrow> ('v, 'e, 'f) session \<Rightarrow> nat" where
  "revise_max_notifications_per_publish inp ss =
     (let m = lim_max_notifications_per_publish (ss_limits ss)
      in if m = 0 then unat inp else if inp = 0 \<or> m < unat inp then m else unat inp)"

record SubscriptionRequest =
  sr_interval_us :: nat
  sr_lifetime_count :: u32
  sr_max_keep_alive_count :: u32
  sr_max_notifications_per_publish :: u32
  sr_publishing_enabled :: bool
  sr_priority :: u8

definition create_subscription ::
    "u32 \<Rightarrow> nat \<Rightarrow> SubscriptionRequest \<Rightarrow> ('v, 'e, 'f) session \<Rightarrow> (StatusCode + u32 \<times> u32 \<times> u32) \<times> ('v, 'e, 'f) session" where
  "create_subscription new_id now_instant r ss =
     (if lim_max_subscriptions_per_session (ss_limits ss) \<le> length (ss_subscriptions ss)
      then (Inl BadTooManySubscriptions, ss)
      else
        let (ka, lifetime) = revise_subscription_values (ss_limits ss) (sr_max_keep_alive_count r) (sr_lifetime_count r);
            s = Subscription_new new_id (sr_publishing_enabled r) (sr_interval_us r * 1000) lifetime ka (sr_priority r)
                  (lim_max_queued_notifications (ss_limits ss))
                  (revise_max_notifications_per_publish (sr_max_notifications_per_publish r) ss) now_instant
        in (Inr (new_id, lifetime, ka), (ss_put new_id s ss)\<lparr>ss_priority_cache_dirty := True\<rparr>))"

definition modify_subscription ::
    "u32 \<Rightarrow> SubscriptionRequest \<Rightarrow> ('v, 'e, 'f) session \<Rightarrow> (StatusCode + u32 \<times> u32) \<times> ('v, 'e, 'f) session" where
  "modify_subscription i r ss =
     (case ss_get i ss of
        None \<Rightarrow> (Inl BadSubscriptionIdInvalid, ss)
      | Some s \<Rightarrow>
          let (ka, lifetime) = revise_subscription_values (ss_limits ss) (sr_max_keep_alive_count r) (sr_lifetime_count r);
              s1 = set_publishing_interval (sr_interval_us r * 1000) s;
              s2 = set_max_lifetime_counter lifetime (set_max_keep_alive_counter ka s1);
              s3 = reset_keep_alive_counter (reset_lifetime_counter (set_priority (sr_priority r) s2));
              s4 = set_max_notifications_per_publish (revise_max_notifications_per_publish (sr_max_notifications_per_publish r) ss) s3
          in (Inr (lifetime, ka), (ss_put i s4 ss)\<lparr>ss_priority_cache_dirty := True\<rparr>))"

fun set_publishing_modes :: "bool \<Rightarrow> u32 list \<Rightarrow> ('v, 'e, 'f) session \<Rightarrow> StatusCode list \<times> ('v, 'e, 'f) session" where
  "set_publishing_modes enabled [] ss = ([], ss)"
| "set_publishing_modes enabled (i # ids) ss =
     (case ss_get i ss of
        None \<Rightarrow> (case set_publishing_modes enabled ids ss of (rs, ss') \<Rightarrow> (BadSubscriptionIdInvalid # rs, ss'))
      | Some s \<Rightarrow>
          (case set_publishing_modes enabled ids (ss_put i (reset_lifetime_counter (set_publishing_enabled enabled s)) ss) of
             (rs, ss') \<Rightarrow> (Good # rs, ss')))"

definition set_publishing_mode ::
    "bool \<Rightarrow> u32 list option \<Rightarrow> ('v, 'e, 'f) session \<Rightarrow> (StatusCode + StatusCode list) \<times> ('v, 'e, 'f) session" where
  "set_publishing_mode enabled ids ss =
     (case ids of
        None \<Rightarrow> (Inl BadNothingToDo, ss)
      | Some [] \<Rightarrow> (Inl BadNothingToDo, ss)
      | Some is \<Rightarrow> (case set_publishing_modes enabled is ss of (rs, ss') \<Rightarrow> (Inr rs, ss')))"

definition find_notification_message :: "u32 \<Rightarrow> u32 \<Rightarrow> ('v, 'e, 'f) session \<Rightarrow> StatusCode + ('v, 'f) message" where
  "find_notification_message i sequence_number ss =
     (case ss_get i ss of
        None \<Rightarrow> Inl BadSubscriptionIdInvalid
      | Some _ \<Rightarrow>
          (case rq_get_message i sequence_number (ss_retransmission_queue ss) of
             None \<Rightarrow> Inl BadMessageNotAvailable
           | Some m \<Rightarrow> Inr m))"

definition republish :: "u32 \<Rightarrow> u32 \<Rightarrow> ('v, 'e, 'f) session \<Rightarrow> (StatusCode + ('v, 'f) message) \<times> ('v, 'e, 'f) session" where
  "republish i sequence_number ss =
     (case ss_get i ss of
        None \<Rightarrow> (Inl BadSubscriptionIdInvalid, ss)
      | Some s \<Rightarrow>
          let ss1 = ss_put i (reset_lifetime_counter s) ss in (find_notification_message i sequence_number ss1, ss1))"

subsection \<open>Monitored items\<close>

text \<open>A create request with the status its validation gave it.\<close>

fun create_items ::
    "(int \<Rightarrow> int \<Rightarrow> int option) \<Rightarrow> int \<Rightarrow> nat \<Rightarrow> (StatusCode \<times> ('v, 'e, 'f) CreateMonitoredItem) list \<Rightarrow> ('v, 'e, 'f) Subscription
     \<Rightarrow> (StatusCode \<times> u32 \<times> nat) list \<times> ('v, 'e, 'f) Subscription" where
  "create_items add_time now cap [] s = ([], s)"
| "create_items add_time now cap ((status, c) # cs) s =
     (if status_is_good status then
        if 0 < cap \<and> cap \<le> length (sub_monitored_items s) then
          (case create_items add_time now cap cs s of
             (rs, s') \<Rightarrow> ((BadTooManyMonitoredItems, 0, cmi_queue_size c) # rs, s'))
        else
          let m = MonitoredItem_new add_time now c
          in case create_items add_time now cap cs (sub_insert (mi_id m) m s) of
               (rs, s') \<Rightarrow> ((Good, mi_id m, mi_queue_size m) # rs, s')
      else
        (case create_items add_time now cap cs s of (rs, s') \<Rightarrow> ((status, 0, cmi_queue_size c) # rs, s')))"

definition create_monitored_items ::
    "(int \<Rightarrow> int \<Rightarrow> int option) \<Rightarrow> int \<Rightarrow> u32 \<Rightarrow> (StatusCode \<times> ('v, 'e, 'f) CreateMonitoredItem) list \<Rightarrow> ('v, 'e, 'f) session
     \<Rightarrow> (StatusCode + (StatusCode \<times> u32 \<times> nat) list) \<times> ('v, 'e, 'f) session" where
  "create_monitored_items add_time now i cs ss =
     (case ss_get i ss of
        None \<Rightarrow> (Inl BadSubscriptionIdInvalid, ss)
      | Some s \<Rightarrow>
          (case create_items add_time now (lim_max_monitored_items_per_sub (ss_limits ss)) cs s of
             (rs, s') \<Rightarrow> (Inr rs, ss_put i s' ss)))"

fun modify_items ::
    "(int \<Rightarrow> int \<Rightarrow> int option) \<Rightarrow> nat \<Rightarrow> int \<Rightarrow> (u32 \<times> ('v, 'e, 'f) ModifyMonitoredItem) list \<Rightarrow> ('v, 'e, 'f) Subscription
     \<Rightarrow> (u32 \<times> StatusCode \<times> nat) list \<times> ('v, 'e, 'f) Subscription" where
  "modify_items add_time max_queue now [] s = ([], s)"
| "modify_items add_time max_queue now ((i, r) # rs) s =
     (case sub_get i s of
        None \<Rightarrow> (case modify_items add_time max_queue now rs s of (out, s') \<Rightarrow> ((i, BadMonitoredItemIdInvalid, 0) # out, s'))
      | Some m \<Rightarrow>
          (case mi_modify add_time max_queue now r m of
             (status, m') \<Rightarrow>
               (case modify_items add_time max_queue now rs (sub_set_item i m' s) of
                  (out, s') \<Rightarrow> ((mi_id m', status, mi_queue_size m') # out, s'))))"

definition modify_monitored_items ::
    "(int \<Rightarrow> int \<Rightarrow> int option) \<Rightarrow> nat \<Rightarrow> int \<Rightarrow> u32 \<Rightarrow> (u32 \<times> ('v, 'e, 'f) ModifyMonitoredItem) list \<Rightarrow> ('v, 'e, 'f) session
     \<Rightarrow> (StatusCode + (u32 \<times> StatusCode \<times> nat) list) \<times> ('v, 'e, 'f) session" where
  "modify_monitored_items add_time max_queue now i rs ss =
     (case ss_get i ss of
        None \<Rightarrow> (Inl BadSubscriptionIdInvalid, ss)
      | Some s \<Rightarrow> (case modify_items add_time max_queue now rs s of (out, s') \<Rightarrow> (Inr out, ss_put i s' ss)))"

fun set_item_modes :: "MonitoringMode \<Rightarrow> u32 list \<Rightarrow> ('v, 'e, 'f) Subscription \<Rightarrow> (StatusCode \<times> u32) list \<times> ('v, 'e, 'f) Subscription" where
  "set_item_modes mode [] s = ([], s)"
| "set_item_modes mode (i # ids) s =
     (case sub_get i s of
        None \<Rightarrow> (case set_item_modes mode ids s of (rs, s') \<Rightarrow> ((BadMonitoredItemIdInvalid, i) # rs, s'))
      | Some m \<Rightarrow>
          (case set_item_modes mode ids (sub_set_item i (set_monitoring_mode mode m) s) of (rs, s') \<Rightarrow> ((Good, i) # rs, s')))"

definition ss_set_monitoring_mode ::
    "u32 \<Rightarrow> MonitoringMode \<Rightarrow> u32 list \<Rightarrow> ('v, 'e, 'f) session \<Rightarrow> (StatusCode + (StatusCode \<times> u32) list) \<times> ('v, 'e, 'f) session" where
  "ss_set_monitoring_mode i mode ids ss =
     (case ss_get i ss of
        None \<Rightarrow> (Inl BadSubscriptionIdInvalid, ss)
      | Some s \<Rightarrow> (case set_item_modes mode ids s of (rs, s') \<Rightarrow> (Inr rs, ss_put i s' ss)))"

definition filter_links :: "u32 list \<Rightarrow> ('v, 'e, 'f) Subscription \<Rightarrow> u32 list \<times> StatusCode list" where
  "filter_links links s =
     (filter (\<lambda>l. sub_get l s \<noteq> None) links,
      map (\<lambda>l. if sub_get l s \<noteq> None then Good else BadMonitoredItemIdInvalid) links)"

definition ss_set_triggering ::
    "u32 \<Rightarrow> u32 \<Rightarrow> u32 list \<Rightarrow> u32 list \<Rightarrow> ('v, 'e, 'f) session
     \<Rightarrow> (StatusCode + StatusCode list \<times> StatusCode list) \<times> ('v, 'e, 'f) session" where
  "ss_set_triggering i triggering to_add to_remove ss =
     (case ss_get i ss of
        None \<Rightarrow> (Inl BadSubscriptionIdInvalid, ss)
      | Some s \<Rightarrow>
          (case sub_get triggering s of
             None \<Rightarrow> (Inl BadMonitoredItemIdInvalid, ss)
           | Some m \<Rightarrow>
               (case (filter_links to_add s, filter_links to_remove s) of
                  ((add, add_results), (rem, rem_results)) \<Rightarrow>
                    (Inr (add_results, rem_results), ss_put i (sub_set_item triggering (set_triggering add rem m) s) ss))))"

fun delete_items :: "u32 list \<Rightarrow> ('v, 'e, 'f) Subscription \<Rightarrow> (StatusCode \<times> u32) list \<times> ('v, 'e, 'f) Subscription" where
  "delete_items [] s = ([], s)"
| "delete_items (i # ids) s =
     (case sub_remove i s of
        (m, s1) \<Rightarrow>
          (case delete_items ids s1 of
             (rs, s') \<Rightarrow> ((if m \<noteq> None then Good else BadMonitoredItemIdInvalid, i) # rs, s')))"

definition delete_monitored_items ::
    "u32 \<Rightarrow> u32 list \<Rightarrow> ('v, 'e, 'f) session \<Rightarrow> (StatusCode + (StatusCode \<times> u32) list) \<times> ('v, 'e, 'f) session" where
  "delete_monitored_items i ids ss =
     (case ss_get i ss of
        None \<Rightarrow> (Inl BadSubscriptionIdInvalid, ss)
      | Some s \<Rightarrow> (case delete_items ids s of (rs, s') \<Rightarrow> (Inr rs, ss_put i s' ss)))"

fun remove_subscriptions :: "u32 list \<Rightarrow> ('v, 'e, 'f) session \<Rightarrow> (StatusCode \<times> u32 list) list \<times> ('v, 'e, 'f) session" where
  "remove_subscriptions [] ss = ([], ss)"
| "remove_subscriptions (i # ids) ss =
     (let ss0 = ss\<lparr>ss_priority_cache_dirty := True, ss_subscriptions := om_remove i (ss_subscriptions ss)\<rparr>;
          r = (case ss_get i ss of
                 None \<Rightarrow> (BadSubscriptionIdInvalid, [])
               | Some s \<Rightarrow> (Good, map (\<lambda>x. mi_id (snd x)) (sub_monitored_items s)))
      in case remove_subscriptions ids ss0 of (rs, ss') \<Rightarrow> (r # rs, ss'))"

text \<open>The set of subscriptions in transfer is left as it is.\<close>

definition delete_subscriptions :: "u32 list \<Rightarrow> ('v, 'e, 'f) session \<Rightarrow> (StatusCode \<times> u32 list) list \<times> ('v, 'e, 'f) session" where
  "delete_subscriptions ids ss =
     (case remove_subscriptions ids ss of
        (rs, ss') \<Rightarrow>
          (rs, ss'\<lparr>ss_retransmission_queue :=
                     fold (\<lambda>i q. snd (rq_remove_subscription i q)) ids (ss_retransmission_queue ss')\<rparr>))"

section \<open>Publishing\<close>

fun process_acks :: "(u32 \<times> u32) list \<Rightarrow> ('v, 'e, 'f) session \<Rightarrow> StatusCode list \<times> ('v, 'e, 'f) session" where
  "process_acks [] ss = ([], ss)"
| "process_acks ((i, n) # acks) ss =
     (case ss_get i ss of
        None \<Rightarrow> (case process_acks acks ss of (rs, ss') \<Rightarrow> (BadSubscriptionIdInvalid # rs, ss'))
      | Some _ \<Rightarrow>
          (case rq_ack i n (ss_retransmission_queue ss) of
             (r, q) \<Rightarrow>
               (case process_acks acks (ss\<lparr>ss_retransmission_queue := q\<rparr>) of
                  (rs, ss') \<Rightarrow> ((if r \<noteq> None then Good else BadSequenceNumberUnknown) # rs, ss'))))"

definition process_subscription_acks :: "PendingPublish \<Rightarrow> ('v, 'e, 'f) session \<Rightarrow> StatusCode list option \<times> ('v, 'e, 'f) session" where
  "process_subscription_acks p ss =
     (case pp_acknowledgements p of
        None \<Rightarrow> (None, ss)
      | Some [] \<Rightarrow> (None, ss)
      | Some acks \<Rightarrow> (case process_acks acks ss of (rs, ss') \<Rightarrow> (Some rs, ss')))"

definition queue_status_change :: "u32 \<Rightarrow> u32 \<Rightarrow> int \<Rightarrow> StatusCode \<Rightarrow> ('v, 'e, 'f) session \<Rightarrow> ('v, 'e, 'f) session" where
  "queue_status_change i seq publish_time status ss =
     ss\<lparr>ss_pending_status_changes := ss_pending_status_changes ss @ [(i, status_change seq publish_time status)]\<rparr>"

fun deliver_changes ::
    "(u32 \<times> ('v, 'f) message) list \<Rightarrow> PendingPublish list \<Rightarrow> ('v, 'e, 'f) session \<Rightarrow> ('v, 'e, 'f) session" where
  "deliver_changes ((i, m) # cs) (p # ps) ss =
     deliver_changes cs ps
       (ss_reply p (Reply_Publish \<lparr>pr_subscription_id = i, pr_available_sequence_numbers = None, pr_more_notifications = False,
                                   pr_message = m, pr_results = pp_ack_results p\<rparr>)
         (ss\<lparr>ss_pending_status_changes := cs, ss_publish_request_queue := ps\<rparr>))"
| "deliver_changes cs ps ss = ss"

definition deliver_pending_status_changes :: "('v, 'e, 'f) session \<Rightarrow> ('v, 'e, 'f) session" where
  "deliver_pending_status_changes ss = deliver_changes (ss_pending_status_changes ss) (ss_publish_request_queue ss) ss"

text \<open>Answers every request of the queue that satisfies \<open>drop\<close> with a fault, and keeps the others.\<close>

definition fault_requests :: "(PendingPublish \<Rightarrow> bool) \<Rightarrow> StatusCode \<Rightarrow> ('v, 'e, 'f) session \<Rightarrow> ('v, 'e, 'f) session" where
  "fault_requests reject status ss =
     ss\<lparr>ss_publish_request_queue := filter (\<lambda>p. \<not> reject p) (ss_publish_request_queue ss),
        ss_sent := ss_sent ss @ map (\<lambda>p. (pp_channel p, Reply_Fault status)) (filter reject (ss_publish_request_queue ss))\<rparr>"

definition reject_publish_requests_without_subscriptions :: "('v, 'e, 'f) session \<Rightarrow> ('v, 'e, 'f) session" where
  "reject_publish_requests_without_subscriptions ss = fault_requests (\<lambda>_. True) BadNoSubscription ss"

definition remove_expired_publish_requests :: "nat \<Rightarrow> ('v, 'e, 'f) session \<Rightarrow> ('v, 'e, 'f) session" where
  "remove_expired_publish_requests now_instant ss = fault_requests (\<lambda>p. pp_deadline p < now_instant) BadTimeout ss"

definition cancel_publish_requests :: "u32 \<Rightarrow> ('v, 'e, 'f) session \<Rightarrow> nat \<times> ('v, 'e, 'f) session" where
  "cancel_publish_requests handle ss =
     (length (filter (\<lambda>p. pp_request_handle p = handle) (ss_publish_request_queue ss)),
      fault_requests (\<lambda>p. pp_request_handle p = handle) BadRequestCancelledByClient ss)"

subsection \<open>The order of the subscriptions\<close>

text \<open>By descending priority, then by ascending id: a stable sort by priority of the list sorted by id.\<close>

definition priority_order :: "(u32 \<times> ('v, 'e, 'f) Subscription) list \<Rightarrow> u32 list" where
  "priority_order subs =
     map fst (sort_key (\<lambda>x. 255 - unat (snd x)) (sort_key (\<lambda>x. unat (fst x)) (map (\<lambda>(_, s). (sub_id s, sub_priority s)) subs)))"

definition subscription_ids_by_priority :: "('v, 'e, 'f) session \<Rightarrow> u32 list \<times> ('v, 'e, 'f) session" where
  "subscription_ids_by_priority ss =
     (let ss1 = (if ss_priority_cache_dirty ss
                 then ss\<lparr>ss_cached_priority_order := priority_order (ss_subscriptions ss), ss_priority_cache_dirty := False\<rparr>
                 else ss)
      in (ss_cached_priority_order ss1, ss1))"

definition drop_subscription :: "u32 \<Rightarrow> ('v, 'e, 'f) session \<Rightarrow> ('v, 'e, 'f) session" where
  "drop_subscription i ss =
     ss\<lparr>ss_subscriptions := om_remove i (ss_subscriptions ss),
        ss_retransmission_queue := snd (rq_remove_subscription i (ss_retransmission_queue ss))\<rparr>"

definition remove_ready_subscriptions :: "u32 list \<Rightarrow> ('v, 'e, 'f) session \<Rightarrow> ('v, 'e, 'f) session" where
  "remove_ready_subscriptions to_remove ss =
     fold (\<lambda>i ss. drop_subscription i (ss\<lparr>ss_transferring := os_remove i (ss_transferring ss)\<rparr>)) to_remove
       (ss\<lparr>ss_priority_cache_dirty := True\<rparr>)"

subsection \<open>A tick without publish requests\<close>

fun tick_idle ::
    "(u32 list \<Rightarrow> u32 list) \<Rightarrow> (int \<Rightarrow> int \<Rightarrow> int option) \<Rightarrow> int \<Rightarrow> nat \<Rightarrow> TickReason \<Rightarrow> u32 list \<Rightarrow> ('v, 'e, 'f) session
     \<Rightarrow> Stop + RemovedSubscription list \<times> u32 list \<times> ('v, 'e, 'f) session" where
  "tick_idle iter add_time now t reason [] ss = Inr ([], [], ss)"
| "tick_idle iter add_time now t reason (i # ids) ss =
     (case ss_get i ss of
        None \<Rightarrow> tick_idle iter add_time now t reason ids ss
      | Some s \<Rightarrow>
          if i \<in> set (ss_transferring ss) then tick_idle iter add_time now t reason ids ss
          else
            bind_result (sub_tick iter add_time now t reason False s) (\<lambda>(res, s1).
            bind_result (tick_idle iter add_time now t reason ids (ss_put i s1 ss)) (\<lambda>(removed, ready, ss').
            Inr ((if res = TR_Expired then [(i, map fst (sub_monitored_items s))] else []) @ removed,
                 (if ready_to_remove s1 then [i] else []) @ ready, ss'))))"

definition tick_subscriptions_without_publish_requests ::
    "(u32 list \<Rightarrow> u32 list) \<Rightarrow> (int \<Rightarrow> int \<Rightarrow> int option) \<Rightarrow> int \<Rightarrow> nat \<Rightarrow> TickReason \<Rightarrow> ('v, 'e, 'f) session
     \<Rightarrow> Stop + RemovedSubscription list \<times> ('v, 'e, 'f) session" where
  "tick_subscriptions_without_publish_requests iter add_time now t reason ss =
     bind_result (tick_idle iter add_time now t reason (iter (map fst (ss_subscriptions ss))) ss) (\<lambda>(removed, ready, ss').
       Inr (removed, remove_ready_subscriptions ready ss'))"

subsection \<open>A tick with publish requests\<close>

text \<open>\<open>while !queue.is_empty()\<close>: pairs the requests with the messages of the subscription.\<close>

fun pair_messages ::
    "PendingPublish list \<Rightarrow> ('v, 'f) message list \<Rightarrow> (PendingPublish \<times> ('v, 'f) message) list \<times> PendingPublish list \<times> ('v, 'f) message list" where
  "pair_messages (p # ps) (m # ms) = (case pair_messages ps ms of (pairs, ps', ms') \<Rightarrow> ((p, m) # pairs, ps', ms'))"
| "pair_messages ps ms = ([], ps, ms)"

type_synonym ('v, 'f) pending_response = "PendingPublish \<times> ('v, 'f) message \<times> u32"

definition tick_subscription_with_publish_requests ::
    "(u32 list \<Rightarrow> u32 list) \<Rightarrow> (int \<Rightarrow> int \<Rightarrow> int option) \<Rightarrow> u32 \<Rightarrow> int \<Rightarrow> nat \<Rightarrow> TickReason \<Rightarrow> ('v, 'e, 'f) session
     \<Rightarrow> Stop + (RemovedSubscription option \<times> ('v, 'f) pending_response list \<times> bool) \<times> ('v, 'e, 'f) session" where
  "tick_subscription_with_publish_requests iter add_time i now t reason ss =
     (case ss_get i ss of
        None \<Rightarrow> Inl Stop_panic
      | Some s \<Rightarrow>
          bind_result (sub_tick iter add_time now t reason (ss_publish_request_queue ss \<noteq> []) s) (\<lambda>(res, s1).
            case pair_messages (ss_publish_request_queue ss) (sub_notifications s1) of
              (pairs, ps, ms) \<Rightarrow>
                let s2 = s1\<lparr>sub_notifications := ms\<rparr>;
                    ss1 = (ss_put i s2 ss)\<lparr>ss_publish_request_queue := ps\<rparr>
                in Inr ((if res = TR_Expired then Some (i, map fst (sub_monitored_items s)) else None,
                         map (\<lambda>(p, m). (p, m, i)) pairs,
                         more_notifications s2),
                        if ready_to_remove s2 then drop_subscription i ss1 else ss1)))"

fun tick_by_priority ::
    "(u32 list \<Rightarrow> u32 list) \<Rightarrow> (int \<Rightarrow> int \<Rightarrow> int option) \<Rightarrow> int \<Rightarrow> nat \<Rightarrow> TickReason \<Rightarrow> u32 list \<Rightarrow> ('v, 'e, 'f) session
     \<Rightarrow> Stop + (RemovedSubscription list \<times> ('v, 'f) pending_response list \<times> bool) \<times> ('v, 'e, 'f) session" where
  "tick_by_priority iter add_time now t reason [] ss = Inr (([], [], False), ss)"
| "tick_by_priority iter add_time now t reason (i # ids) ss =
     (if i \<in> set (ss_transferring ss) then tick_by_priority iter add_time now t reason ids ss
      else
        bind_result (tick_subscription_with_publish_requests iter add_time i now t reason ss) (\<lambda>((r, resp, more), ss1).
        bind_result (tick_by_priority iter add_time now t reason ids ss1) (\<lambda>((rs, resps, mores), ss2).
        Inr (((case r of None \<Rightarrow> [] | Some x \<Rightarrow> [x]) @ rs, resp @ resps, more \<or> mores), ss2))))"

definition tick_subscriptions_with_publish_requests ::
    "(u32 list \<Rightarrow> u32 list) \<Rightarrow> (int \<Rightarrow> int \<Rightarrow> int option) \<Rightarrow> int \<Rightarrow> nat \<Rightarrow> TickReason \<Rightarrow> ('v, 'e, 'f) session
     \<Rightarrow> Stop + (RemovedSubscription list \<times> ('v, 'f) pending_response list \<times> bool) \<times> ('v, 'e, 'f) session" where
  "tick_subscriptions_with_publish_requests iter add_time now t reason ss =
     (case subscription_ids_by_priority ss of (ids, ss1) \<Rightarrow> tick_by_priority iter add_time now t reason ids ss1)"

text \<open>Only the last response carries the flag for more notifications.\<close>

fun send_publish_responses :: "('v, 'f) pending_response list \<Rightarrow> bool \<Rightarrow> ('v, 'e, 'f) session \<Rightarrow> ('v, 'e, 'f) session" where
  "send_publish_responses [] more_flag ss = ss"
| "send_publish_responses ((p, m, i) # rs) more_flag ss =
     (let ss1 = ss\<lparr>ss_retransmission_queue := rq_enqueue (max_publish_requests ss * 2) i m (ss_retransmission_queue ss)\<rparr>
      in send_publish_responses rs more_flag
           (ss_reply p (Reply_Publish \<lparr>pr_subscription_id = i,
                                       pr_available_sequence_numbers = available_sequence_numbers i (ss_retransmission_queue ss1),
                                       pr_more_notifications = (rs = [] \<and> more_flag), pr_message = m, pr_results = pp_ack_results p\<rparr>)
             ss1))"

definition ss_tick ::
    "(u32 list \<Rightarrow> u32 list) \<Rightarrow> (int \<Rightarrow> int \<Rightarrow> int option) \<Rightarrow> int \<Rightarrow> nat \<Rightarrow> TickReason \<Rightarrow> ('v, 'e, 'f) session
     \<Rightarrow> Stop + RemovedSubscription list \<times> ('v, 'e, 'f) session" where
  "ss_tick iter add_time now t reason ss0 =
     (let ss1 = deliver_pending_status_changes ss0
      in if ss_subscriptions ss1 = [] \<or> length (ss_subscriptions ss1) = length (ss_transferring ss1)
         then Inr ([], reject_publish_requests_without_subscriptions ss1)
         else
           let ss2 = remove_expired_publish_requests t ss1
           in if ss_publish_request_queue ss2 = [] then tick_subscriptions_without_publish_requests iter add_time now t reason ss2
              else
                bind_result (tick_subscriptions_with_publish_requests iter add_time now t reason ss2) (\<lambda>((removed, responses, more), ss3).
                  Inr (removed, send_publish_responses responses more ss3)))"

definition process_notification_wake ::
    "(u32 list \<Rightarrow> u32 list) \<Rightarrow> (int \<Rightarrow> int \<Rightarrow> int option) \<Rightarrow> int \<Rightarrow> nat \<Rightarrow> ('v, 'e, 'f) session \<Rightarrow> Stop + ('v, 'e, 'f) session" where
  "process_notification_wake iter add_time now t ss =
     (if ss_publish_request_queue ss = [] then Inr ss
      else bind_result (tick_subscriptions_with_publish_requests iter add_time now t NotificationAvailable ss)
             (\<lambda>((_, responses, more), ss1). Inr (send_publish_responses responses more ss1)))"

text \<open>Room for one more request: a tick, and the oldest request refused when that was not enough.\<close>

definition make_room ::
    "(u32 list \<Rightarrow> u32 list) \<Rightarrow> (int \<Rightarrow> int \<Rightarrow> int option) \<Rightarrow> int \<Rightarrow> nat \<Rightarrow> ('v, 'e, 'f) session \<Rightarrow> Stop + ('v, 'e, 'f) session" where
  "make_room iter add_time now t ss =
     bind_result (if max_publish_requests ss \<le> length (ss_publish_request_queue ss)
                  then bind_result (ss_tick iter add_time now t ReceivePublishRequest ss) (\<lambda>(_, ss1). Inr ss1)
                  else Inr ss) (\<lambda>ss1.
     if max_publish_requests ss1 \<le> length (ss_publish_request_queue ss1)
     then (case ss_publish_request_queue ss1 of
             [] \<Rightarrow> Inl Stop_panic
           | p # ps \<Rightarrow> Inr (ss_reply p (Reply_Fault BadTooManyPublishRequests) (ss1\<lparr>ss_publish_request_queue := ps\<rparr>)))
     else Inr ss1)"

definition enqueue_publish_request ::
    "(u32 list \<Rightarrow> u32 list) \<Rightarrow> (int \<Rightarrow> int \<Rightarrow> int option) \<Rightarrow> int \<Rightarrow> nat \<Rightarrow> PendingPublish \<Rightarrow> ('v, 'e, 'f) session
     \<Rightarrow> Stop + ('v, 'e, 'f) session" where
  "enqueue_publish_request iter add_time now t request ss =
     bind_result (make_room iter add_time now t ss) (\<lambda>ss2.
     case process_subscription_acks request ss2 of
       (results, ss3) \<Rightarrow>
         bind_result (ss_tick iter add_time now t ReceivePublishRequest
                        (ss3\<lparr>ss_publish_request_queue := ss_publish_request_queue ss3 @ [request\<lparr>pp_ack_results := results\<rparr>]\<rparr>))
           (\<lambda>(_, ss4). Inr ss4))"

definition has_more_notifications :: "('v, 'e, 'f) session \<Rightarrow> bool" where
  "has_more_notifications ss \<longleftrightarrow> list_ex (\<lambda>(_, s). more_notifications s) (ss_subscriptions ss)"

definition has_queued_publish_request :: "('v, 'e, 'f) session \<Rightarrow> bool" where
  "has_queued_publish_request ss \<longleftrightarrow> ss_publish_request_queue ss \<noteq> []"

definition next_tick_deadline :: "('v, 'e, 'f) session \<Rightarrow> nat option" where
  "next_tick_deadline ss =
     (case ss_subscriptions ss of
        [] \<Rightarrow> None
      | x # xs \<Rightarrow> Some (fold (\<lambda>y m. min (next_publish_deadline (snd y)) m) xs (next_publish_deadline (snd x))))"

text \<open>The loop of the actor after it has queued a publish request; \<open>None\<close> when it never ends.\<close>

partial_function (option) publish_loop ::
    "(u32 list \<Rightarrow> u32 list) \<Rightarrow> (int \<Rightarrow> int \<Rightarrow> int option) \<Rightarrow> int \<Rightarrow> nat \<Rightarrow> ('v, 'e, 'f) session \<Rightarrow> (Stop + ('v, 'e, 'f) session) option" where
  "publish_loop iter add_time now t ss =
     (if \<not> (has_more_notifications ss \<and> has_queued_publish_request ss) then Some (Inr ss)
      else case ss_tick iter add_time now t ReceivePublishRequest ss of
             Inl e \<Rightarrow> Some (Inl e)
           | Inr (_, ss') \<Rightarrow> publish_loop iter add_time now t ss')"

section \<open>Every publish request is answered once\<close>

text \<open>The channels of the requests that wait and of those that have been answered.\<close>

definition request_account :: "('v, 'e, 'f) session \<Rightarrow> nat multiset" where
  "request_account ss = mset (map pp_channel (ss_publish_request_queue ss)) + mset (map fst (ss_sent ss))"

definition grows_to :: "('v, 'e, 'f) session \<Rightarrow> ('v, 'e, 'f) session \<Rightarrow> bool" where
  "grows_to ss ss' \<longleftrightarrow> request_account ss' = request_account ss \<and> (\<exists>new. ss_sent ss' = ss_sent ss @ new)"

lemma grows_to_refl [simp]: "grows_to ss ss"
  by (simp add: grows_to_def)

lemma grows_to_trans: "grows_to a b \<Longrightarrow> grows_to b c \<Longrightarrow> grows_to a c"
  by (auto simp: grows_to_def)

lemma grows_to_same:
  "ss_publish_request_queue ss' = ss_publish_request_queue ss \<Longrightarrow> ss_sent ss' = ss_sent ss \<Longrightarrow> grows_to ss ss'"
  by (simp add: grows_to_def request_account_def)

lemma deliver_changes_grows:
  "cs = ss_pending_status_changes ss \<Longrightarrow> ps = ss_publish_request_queue ss \<Longrightarrow> grows_to ss (deliver_changes cs ps ss)"
proof (induction cs ps ss rule: deliver_changes.induct)
  case (1 i m cs p ps ss)
  let ?ss1 = "ss_reply p (Reply_Publish \<lparr>pr_subscription_id = i, pr_available_sequence_numbers = None, pr_more_notifications = False,
       pr_message = m, pr_results = pp_ack_results p\<rparr>) (ss\<lparr>ss_pending_status_changes := cs, ss_publish_request_queue := ps\<rparr>)"
  have "grows_to ss ?ss1"
    using 1(3) [symmetric] by (simp add: grows_to_def request_account_def ss_reply_def)
  moreover have "grows_to ?ss1 (deliver_changes cs ps ?ss1)" by (rule 1) (simp_all add: ss_reply_def)
  ultimately show ?case by (auto intro: grows_to_trans)
qed simp_all

lemma fault_requests_grows: "grows_to ss (fault_requests f status ss)"
proof -
  have "mset (map pp_channel xs) = mset (map pp_channel (filter (\<lambda>p. \<not> f p) xs)) + mset (map pp_channel (filter f xs))" for xs
    by (induction xs) auto
  from this [of "ss_publish_request_queue ss"] show ?thesis
    by (simp add: grows_to_def request_account_def fault_requests_def comp_def)
qed

lemma pair_messages_spec:
  "pair_messages ps ms = (pairs, ps', ms') \<Longrightarrow> ps = map fst pairs @ ps' \<and> ms = map snd pairs @ ms' \<and> (ps' = [] \<or> ms' = [])"
  by (induction ps ms arbitrary: pairs ps' ms' rule: pair_messages.induct) (auto split: prod.splits)

lemma ss_put_simps [simp]:
  "ss_publish_request_queue (ss_put i s ss) = ss_publish_request_queue ss"
  "ss_sent (ss_put i s ss) = ss_sent ss"
  "ss_transferring (ss_put i s ss) = ss_transferring ss"
  "ss_pending_status_changes (ss_put i s ss) = ss_pending_status_changes ss"
  "ss_limits (ss_put i s ss) = ss_limits ss"
  "ss_cached_priority_order (ss_put i s ss) = ss_cached_priority_order ss"
  "ss_priority_cache_dirty (ss_put i s ss) = ss_priority_cache_dirty ss"
  "ss_subscriptions (ss_put i s ss) = om_insert i s (ss_subscriptions ss)"
  by (simp_all add: ss_put_def)

lemma drop_subscription_simps [simp]:
  "ss_publish_request_queue (drop_subscription i ss) = ss_publish_request_queue ss"
  "ss_sent (drop_subscription i ss) = ss_sent ss"
  "ss_transferring (drop_subscription i ss) = ss_transferring ss"
  "ss_cached_priority_order (drop_subscription i ss) = ss_cached_priority_order ss"
  "ss_priority_cache_dirty (drop_subscription i ss) = ss_priority_cache_dirty ss"
  "ss_subscriptions (drop_subscription i ss) = om_remove i (ss_subscriptions ss)"
  by (simp_all add: drop_subscription_def)

lemma remove_ready_simps [simp]:
  "ss_publish_request_queue (remove_ready_subscriptions ids ss) = ss_publish_request_queue ss"
  "ss_sent (remove_ready_subscriptions ids ss) = ss_sent ss"
proof -
  have "ss_publish_request_queue (fold (\<lambda>i ss. drop_subscription i (ss\<lparr>ss_transferring := os_remove i (ss_transferring ss)\<rparr>)) ids a)
        = ss_publish_request_queue a
      \<and> ss_sent (fold (\<lambda>i ss. drop_subscription i (ss\<lparr>ss_transferring := os_remove i (ss_transferring ss)\<rparr>)) ids a) = ss_sent a"
    for a :: "('a, 'b, 'c) session"
    by (induction ids arbitrary: a) simp_all
  then show "ss_publish_request_queue (remove_ready_subscriptions ids ss) = ss_publish_request_queue ss"
    "ss_sent (remove_ready_subscriptions ids ss) = ss_sent ss"
    by (simp_all add: remove_ready_subscriptions_def)
qed

lemma tick_idle_same:
  "tick_idle iter add_time now t reason ids ss = Inr (removed, ready, ss') \<Longrightarrow>
   ss_publish_request_queue ss' = ss_publish_request_queue ss \<and> ss_sent ss' = ss_sent ss \<and> ss_transferring ss' = ss_transferring ss"
proof (induction ids arbitrary: ss removed ready)
  case (Cons i ids)
  from Cons(2) show ?case
    by (auto simp: bind_result_eq_Inr split: option.splits if_splits dest!: Cons(1))
qed simp

text \<open>What a tick of one subscription consists of.\<close>

definition subscription_ticked ::
    "u32 \<Rightarrow> ('v, 'e, 'f) Subscription \<Rightarrow> ('v, 'f) message list \<Rightarrow> PendingPublish list \<Rightarrow> ('v, 'e, 'f) session \<Rightarrow> ('v, 'e, 'f) session" where
  "subscription_ticked i s1 ms ps ss =
     (let ss1 = (ss_put i (s1\<lparr>sub_notifications := ms\<rparr>) ss)\<lparr>ss_publish_request_queue := ps\<rparr>
      in if ready_to_remove (s1\<lparr>sub_notifications := ms\<rparr>) then drop_subscription i ss1 else ss1)"

lemma tick_subscription_cases:
  assumes "tick_subscription_with_publish_requests iter add_time i now t reason ss = Inr ((r, resp, more_flag), ss')"
  obtains s res s1 pairs ps ms where "ss_get i ss = Some s"
    "sub_tick iter add_time now t reason (ss_publish_request_queue ss \<noteq> []) s = Inr (res, s1)"
    "pair_messages (ss_publish_request_queue ss) (sub_notifications s1) = (pairs, ps, ms)"
    "resp = map (\<lambda>(p, m). (p, m, i)) pairs" "more_flag \<longleftrightarrow> ms \<noteq> []" "ss' = subscription_ticked i s1 ms ps ss"
proof -
  from assms obtain s res s1 where s: "ss_get i ss = Some s"
    "sub_tick iter add_time now t reason (ss_publish_request_queue ss \<noteq> []) s = Inr (res, s1)"
    by (auto simp: tick_subscription_with_publish_requests_def bind_result_eq_Inr split: option.splits)
  obtain pairs ps ms where "pair_messages (ss_publish_request_queue ss) (sub_notifications s1) = (pairs, ps, ms)"
    by (metis prod_cases3)
  then show thesis
    using assms s that
    by (simp add: tick_subscription_with_publish_requests_def Let_def more_notifications_def subscription_ticked_def)
qed

lemma subscription_ticked_simps [simp]:
  "ss_publish_request_queue (subscription_ticked i s1 ms ps ss) = ps"
  "ss_sent (subscription_ticked i s1 ms ps ss) = ss_sent ss"
  "ss_transferring (subscription_ticked i s1 ms ps ss) = ss_transferring ss"
  "ss_cached_priority_order (subscription_ticked i s1 ms ps ss) = ss_cached_priority_order ss"
  "ss_priority_cache_dirty (subscription_ticked i s1 ms ps ss) = ss_priority_cache_dirty ss"
  by (simp_all add: subscription_ticked_def Let_def)

lemma tick_subscription_queue:
  assumes "tick_subscription_with_publish_requests iter add_time i now t reason ss = Inr ((r, resp, more_flag), ss')"
  shows "ss_publish_request_queue ss = map fst resp @ ss_publish_request_queue ss' \<and> ss_sent ss' = ss_sent ss
   \<and> ss_transferring ss' = ss_transferring ss"
  using assms by (rule tick_subscription_cases) (auto simp: comp_def case_prod_beta dest!: pair_messages_spec)

lemma tick_by_priority_Cons:
  assumes "i \<notin> set (ss_transferring ss)" "tick_by_priority iter add_time now t reason (i # ids) ss = Inr ((rs, resps, more_flag), ss')"
  obtains r resp m ss1 rs1 resps1 m1 where
    "tick_subscription_with_publish_requests iter add_time i now t reason ss = Inr ((r, resp, m), ss1)"
    "tick_by_priority iter add_time now t reason ids ss1 = Inr ((rs1, resps1, m1), ss')" "resps = resp @ resps1"
proof -
  obtain r resp m ss1 where one: "tick_subscription_with_publish_requests iter add_time i now t reason ss = Inr ((r, resp, m), ss1)"
    using assms by (cases "tick_subscription_with_publish_requests iter add_time i now t reason ss") auto
  moreover obtain rs1 resps1 m1 ss2 where rest: "tick_by_priority iter add_time now t reason ids ss1 = Inr ((rs1, resps1, m1), ss2)"
    using assms one by (cases "tick_by_priority iter add_time now t reason ids ss1") auto
  moreover have "ss2 = ss'" "resps = resp @ resps1" using assms one rest by simp_all
  ultimately show thesis using that by blast
qed

lemma tick_by_priority_queue:
  "tick_by_priority iter add_time now t reason ids ss = Inr ((rs, resps, more_flag), ss') \<Longrightarrow>
   ss_publish_request_queue ss = map fst resps @ ss_publish_request_queue ss' \<and> ss_sent ss' = ss_sent ss
   \<and> ss_transferring ss' = ss_transferring ss"
proof (induction ids arbitrary: ss rs resps more_flag)
  case (Cons i ids)
  show ?case
  proof (cases "i \<in> set (ss_transferring ss)")
    case True
    then show ?thesis using Cons by simp
  next
    case False
    then obtain r resp m ss1 rs1 resps1 m1 where
      one: "tick_subscription_with_publish_requests iter add_time i now t reason ss = Inr ((r, resp, m), ss1)" and
      rest: "tick_by_priority iter add_time now t reason ids ss1 = Inr ((rs1, resps1, m1), ss')" and
      resps: "resps = resp @ resps1"
      using Cons(2) by (rule tick_by_priority_Cons)
    show ?thesis using Cons(1) [OF rest] tick_subscription_queue [OF one] resps by simp
  qed
qed simp

lemma send_publish_responses_sent:
  "ss_publish_request_queue (send_publish_responses resps m ss) = ss_publish_request_queue ss
   \<and> (\<exists>replies. ss_sent (send_publish_responses resps m ss) = ss_sent ss @ zip (map (\<lambda>x. pp_channel (fst x)) resps) replies
        \<and> length replies = length resps)"
proof (induction resps m ss rule: send_publish_responses.induct)
  case (2 p m i rs more_flag ss)
  let ?ss1 = "ss\<lparr>ss_retransmission_queue := rq_enqueue (max_publish_requests ss * 2) i m (ss_retransmission_queue ss)\<rparr>"
  let ?r = "Reply_Publish \<lparr>pr_subscription_id = i,
     pr_available_sequence_numbers = available_sequence_numbers i (ss_retransmission_queue ?ss1),
     pr_more_notifications = (rs = [] \<and> more_flag), pr_message = m, pr_results = pp_ack_results p\<rparr>"
  obtain replies where "ss_sent (send_publish_responses rs more_flag (ss_reply p ?r ?ss1))
      = ss_sent (ss_reply p ?r ?ss1) @ zip (map (\<lambda>x. pp_channel (fst x)) rs) replies" "length replies = length rs"
    using 2 by blast
  then show ?case using 2 by (intro conjI exI [of _ "?r # replies"]) (simp_all add: ss_reply_def Let_def)
qed simp

lemma send_responses_grows:
  assumes "ss_publish_request_queue ss = map fst resps @ ss_publish_request_queue ss1" "ss_sent ss1 = ss_sent ss"
  shows "grows_to ss (send_publish_responses resps m ss1)"
proof -
  obtain replies where "ss_publish_request_queue (send_publish_responses resps m ss1) = ss_publish_request_queue ss1"
    "ss_sent (send_publish_responses resps m ss1) = ss_sent ss1 @ zip (map (\<lambda>x. pp_channel (fst x)) resps) replies"
    "length replies = length resps"
    using send_publish_responses_sent [of resps m ss1] by blast
  then show ?thesis using assms by (simp add: grows_to_def request_account_def comp_def case_prod_beta ac_simps)
qed

lemma ids_by_priority_simps [simp]:
  "ss_publish_request_queue (snd (subscription_ids_by_priority ss)) = ss_publish_request_queue ss"
  "ss_sent (snd (subscription_ids_by_priority ss)) = ss_sent ss"
  "ss_transferring (snd (subscription_ids_by_priority ss)) = ss_transferring ss"
  "ss_subscriptions (snd (subscription_ids_by_priority ss)) = ss_subscriptions ss"
  by (simp_all add: subscription_ids_by_priority_def Let_def)

lemma tick_with_requests_queue:
  "tick_subscriptions_with_publish_requests iter add_time now t reason ss = Inr ((rs, resps, more_flag), ss') \<Longrightarrow>
   ss_publish_request_queue ss = map fst resps @ ss_publish_request_queue ss' \<and> ss_sent ss' = ss_sent ss
   \<and> ss_transferring ss' = ss_transferring ss"
  using tick_by_priority_queue [of iter add_time now t reason _ "snd (subscription_ids_by_priority ss)"]
  by (auto simp: tick_subscriptions_with_publish_requests_def case_prod_beta)

lemma ss_tick_grows:
  assumes "ss_tick iter add_time now t reason ss = Inr (removed, ss')"
  shows "grows_to ss ss'"
proof -
  let ?ss1 = "deliver_pending_status_changes ss"
  let ?ss2 = "remove_expired_publish_requests t ?ss1"
  have 1: "grows_to ss ?ss1" by (simp add: deliver_pending_status_changes_def deliver_changes_grows)
  have 2: "grows_to ?ss1 ?ss2" by (simp add: remove_expired_publish_requests_def fault_requests_grows)
  have 3: "grows_to ?ss2 x" if "tick_subscriptions_without_publish_requests iter add_time now t reason ?ss2 = Inr (r, x)" for r x
    using that by (auto simp: tick_subscriptions_without_publish_requests_def bind_result_eq_Inr
        intro!: grows_to_same dest!: tick_idle_same)
  have 4: "grows_to ?ss2 (send_publish_responses resps m x)"
    if "tick_subscriptions_with_publish_requests iter add_time now t reason ?ss2 = Inr ((r, resps, m), x)" for r resps m x
    using tick_with_requests_queue [OF that] by (blast intro: send_responses_grows)
  show ?thesis
    using assms grows_to_trans [OF 1 fault_requests_grows, of "\<lambda>_. True" BadNoSubscription] grows_to_trans [OF grows_to_trans [OF 1 2]] 3 4
    by (auto simp: ss_tick_def Let_def bind_result_eq_Inr reject_publish_requests_without_subscriptions_def split: if_splits)
qed

lemma process_acks_same:
  "process_acks acks ss = (rs, ss') \<Longrightarrow> ss_publish_request_queue ss' = ss_publish_request_queue ss \<and> ss_sent ss' = ss_sent ss
     \<and> ss_subscriptions ss' = ss_subscriptions ss"
  by (induction acks ss arbitrary: rs ss' rule: process_acks.induct) (auto split: option.splits prod.splits)

lemma process_subscription_acks_same:
  "process_subscription_acks p ss = (rs, ss') \<Longrightarrow>
     ss_publish_request_queue ss' = ss_publish_request_queue ss \<and> ss_sent ss' = ss_sent ss
     \<and> ss_subscriptions ss' = ss_subscriptions ss"
  by (auto simp: process_subscription_acks_def split: option.splits list.splits prod.splits dest!: process_acks_same)

lemma make_room_grows:
  assumes "make_room iter add_time now t ss = Inr ss'"
  shows "grows_to ss ss'"
proof -
  from assms obtain ss1 where 0: "(if max_publish_requests ss \<le> length (ss_publish_request_queue ss)
      then bind_result (ss_tick iter add_time now t ReceivePublishRequest ss) (\<lambda>(_, ss1). Inr ss1) else Inr ss) = Inr ss1" and
    2: "(if max_publish_requests ss1 \<le> length (ss_publish_request_queue ss1)
     then (case ss_publish_request_queue ss1 of
             [] \<Rightarrow> Inl Stop_panic
           | p # ps \<Rightarrow> Inr (ss_reply p (Reply_Fault BadTooManyPublishRequests) (ss1\<lparr>ss_publish_request_queue := ps\<rparr>)))
     else Inr ss1) = Inr ss'"
    unfolding make_room_def bind_result_eq_Inr by blast
  have 1: "grows_to ss ss1"
    using 0 ss_tick_grows [of iter add_time now t ReceivePublishRequest ss] by (auto simp: bind_result_eq_Inr split: if_splits)
  have "grows_to ss1 ss'"
    using 2 by (auto simp: grows_to_def request_account_def ss_reply_def split: if_splits list.splits)
  with 1 show ?thesis by (rule grows_to_trans)
qed

lemma enqueue_publish_request_account:
  assumes "enqueue_publish_request iter add_time now t p ss = Inr ss'"
  shows "request_account ss' = add_mset (pp_channel p) (request_account ss) \<and> (\<exists>new. ss_sent ss' = ss_sent ss @ new)"
proof -
  obtain ss2 where 2: "make_room iter add_time now t ss = Inr ss2"
    using assms by (auto simp: enqueue_publish_request_def bind_result_eq_Inr)
  obtain results ss3 where 3: "process_subscription_acks p ss2 = (results, ss3)" by fastforce
  let ?ss4 = "ss3\<lparr>ss_publish_request_queue := ss_publish_request_queue ss3 @ [p\<lparr>pp_ack_results := results\<rparr>]\<rparr>"
  obtain r where "ss_tick iter add_time now t ReceivePublishRequest ?ss4 = Inr (r, ss')"
    using assms 2 3 by (auto simp: enqueue_publish_request_def bind_result_eq_Inr)
  then have "grows_to ?ss4 ss'" by (rule ss_tick_grows)
  moreover have "request_account ?ss4 = add_mset (pp_channel p) (request_account ss2)" "ss_sent ?ss4 = ss_sent ss2"
    using process_subscription_acks_same [OF 3] by (simp_all add: request_account_def)
  ultimately show ?thesis using make_room_grows [OF 2] by (auto simp: grows_to_def)
qed

lemma wake_grows: "process_notification_wake iter add_time now t ss = Inr ss' \<Longrightarrow> grows_to ss ss'"
  by (auto simp: process_notification_wake_def bind_result_eq_Inr split: if_splits
      intro!: send_responses_grows dest!: tick_with_requests_queue)

text \<open>What the actor of a session does to its requests.\<close>

datatype session_command =
    Cmd_publish int nat PendingPublish
  | Cmd_tick int nat TickReason
  | Cmd_wake int nat
  | Cmd_cancel u32

definition session_command ::
    "(u32 list \<Rightarrow> u32 list) \<Rightarrow> (int \<Rightarrow> int \<Rightarrow> int option) \<Rightarrow> session_command \<Rightarrow> ('v, 'e, 'f) session \<Rightarrow> Stop + ('v, 'e, 'f) session" where
  "session_command iter add_time c ss =
     (case c of
        Cmd_publish now t p \<Rightarrow> enqueue_publish_request iter add_time now t p ss
      | Cmd_tick now t reason \<Rightarrow> bind_result (ss_tick iter add_time now t reason ss) (\<lambda>(_, ss'). Inr ss')
      | Cmd_wake now t \<Rightarrow> process_notification_wake iter add_time now t ss
      | Cmd_cancel h \<Rightarrow> Inr (snd (cancel_publish_requests h ss)))"

fun session_commands ::
    "(u32 list \<Rightarrow> u32 list) \<Rightarrow> (int \<Rightarrow> int \<Rightarrow> int option) \<Rightarrow> session_command list \<Rightarrow> ('v, 'e, 'f) session \<Rightarrow> Stop + ('v, 'e, 'f) session" where
  "session_commands iter add_time [] ss = Inr ss"
| "session_commands iter add_time (c # cs) ss =
     bind_result (session_command iter add_time c ss) (session_commands iter add_time cs)"

definition published :: "session_command list \<Rightarrow> nat list" where
  "published cs = concat (map (\<lambda>c. case c of Cmd_publish _ _ p \<Rightarrow> [pp_channel p] | _ \<Rightarrow> []) cs)"

lemma session_command_account:
  assumes "session_command iter add_time c ss = Inr ss'"
  shows "request_account ss' = request_account ss + mset (published [c]) \<and> (\<exists>new. ss_sent ss' = ss_sent ss @ new)"
proof (cases c)
  case (Cmd_publish now t p)
  then show ?thesis
    using assms enqueue_publish_request_account [of iter add_time now t p ss ss'] by (simp add: session_command_def published_def)
next
  case (Cmd_tick now t r)
  then obtain removed where "ss_tick iter add_time now t r ss = Inr (removed, ss')"
    using assms by (auto simp: session_command_def bind_result_eq_Inr)
  then show ?thesis using Cmd_tick ss_tick_grows by (simp add: grows_to_def published_def)
next
  case (Cmd_wake now t)
  then show ?thesis using assms wake_grows by (simp add: session_command_def grows_to_def published_def)
next
  case (Cmd_cancel h)
  then show ?thesis
    using assms fault_requests_grows [of ss "\<lambda>p. pp_request_handle p = h" BadRequestCancelledByClient]
    by (simp add: session_command_def cancel_publish_requests_def grows_to_def published_def)
qed

lemma published_Cons: "published (c # cs) = published [c] @ published cs"
  by (simp add: published_def)

text \<open>C6: Publish requests are conserved. After any sequence of publish requests, timer ticks, wake-ups and cancellations
  the requests that still wait together with those that were answered are exactly the ones that waited or
  were answered before and the ones that came in: no request is dropped without an answer, none is answered twice, and no
  answer is ever withdrawn.\<close>

theorem publish_requests_conserved:
  assumes "session_commands iter add_time cs ss = Inr ss'"
  shows "mset (map pp_channel (ss_publish_request_queue ss')) + mset (map fst (ss_sent ss'))
      = mset (map pp_channel (ss_publish_request_queue ss)) + mset (map fst (ss_sent ss)) + mset (published cs)
    \<and> (\<exists>new. ss_sent ss' = ss_sent ss @ new)"
proof -
  have "request_account ss' = request_account ss + mset (published cs) \<and> (\<exists>new. ss_sent ss' = ss_sent ss @ new)"
    using assms
  proof (induction cs arbitrary: ss)
    case Nil
    then show ?case by (simp add: published_def)
  next
    case (Cons c cs)
    then obtain ss1 where ss1: "session_command iter add_time c ss = Inr ss1" "session_commands iter add_time cs ss1 = Inr ss'"
      by (auto simp: bind_result_eq_Inr)
    then show ?case
      using Cons(1) [OF ss1(2)] session_command_account [OF ss1(1)] by (auto simp: published_Cons [of c cs])
  qed
  then show ?thesis by (simp add: request_account_def)
qed

definition example_limits :: SubscriptionLimits where
  "example_limits = \<lparr>lim_max_subscriptions_per_session = 10, lim_max_pending_publish_requests = 4,
     lim_max_publish_requests_per_subscription = 4, lim_max_keep_alive_count = 100, lim_default_keep_alive_count = 2,
     lim_max_monitored_items_per_sub = 0, lim_max_lifetime_count = 1000, lim_max_notifications_per_publish = 0,
     lim_max_queued_notifications = 10\<rparr>"

definition example_sr :: "u32 \<Rightarrow> u8 \<Rightarrow> SubscriptionRequest" where
  "example_sr lifetime priority = \<lparr>sr_interval_us = 0, sr_lifetime_count = lifetime, sr_max_keep_alive_count = 1,
     sr_max_notifications_per_publish = 0, sr_publishing_enabled = True, sr_priority = priority\<rparr>"

definition example_session :: "(nat, nat, nat) session" where
  "example_session = snd (create_subscription 2 0 (example_sr 50 1)
     (snd (create_subscription 1 0 (example_sr 3 2) (SessionSubscriptions_new example_limits))))"

definition example_publish :: "nat \<Rightarrow> PendingPublish" where
  "example_publish c = \<lparr>pp_channel = c, pp_request_handle = word_of_nat c, pp_acknowledgements = None, pp_ack_results = None,
     pp_deadline = 9\<rparr>"

definition example_commands :: "session_command list" where
  "example_commands = [Cmd_tick 0 0 TickTimerFired, Cmd_publish 0 0 (example_publish 1), Cmd_publish 0 0 (example_publish 2),
     Cmd_tick 1 1 TickTimerFired, Cmd_cancel 9]"

theorem publish_requests_conserved_witness:
  "\<exists>ss'. session_commands (\<lambda>x. x) example_add_time example_commands example_session = Inr ss'
     \<and> mset (map pp_channel (ss_publish_request_queue ss')) + mset (map fst (ss_sent ss')) = {#1, 2#}"
proof -
  have "is_ok (session_commands (\<lambda>x. x) example_add_time example_commands example_session)" by code_simp
  then obtain ss' where ss': "session_commands (\<lambda>x. x) example_add_time example_commands example_session = Inr ss'"
    by (auto simp: is_ok_def split: sum.splits)
  have "published example_commands = [1, 2]" by code_simp
  moreover have "ss_publish_request_queue example_session = []" "ss_sent example_session = []" by code_simp+
  ultimately show ?thesis using ss' publish_requests_conserved [OF ss'] by (auto intro!: exI [of _ ss'])
qed

section \<open>A tick does not panic while the cached order is valid\<close>

definition session_ok :: "('v, 'e, 'f) session \<Rightarrow> bool" where
  "session_ok ss \<longleftrightarrow> sorted_wrt (<) (map fst (ss_subscriptions ss)) \<and> (\<forall>(i, s) \<in> set (ss_subscriptions ss). sub_id s = i)"

definition order_sound :: "('v, 'e, 'f) session \<Rightarrow> bool" where
  "order_sound ss \<longleftrightarrow> ss_priority_cache_dirty ss
     \<or> (distinct (ss_cached_priority_order ss) \<and> set (ss_cached_priority_order ss) \<subseteq> fst ` set (ss_subscriptions ss))"

lemma set_sort_key_fst [simp]: "fst ` set (sort_key f xs) = fst ` set xs"
  by simp

lemma priority_order_keys:
  assumes "session_ok ss"
  shows "set (priority_order (ss_subscriptions ss)) = fst ` set (ss_subscriptions ss)" "distinct (priority_order (ss_subscriptions ss))"
proof -
  let ?l = "map (\<lambda>(_, s). (sub_id s, sub_priority s)) (ss_subscriptions ss)"
  have fst: "map fst ?l = map fst (ss_subscriptions ss)"
    using assms by (auto simp: session_ok_def)
  have perm: "mset (priority_order (ss_subscriptions ss)) = mset (map fst (ss_subscriptions ss))"
    unfolding priority_order_def mset_map mset_sort fst [symmetric] by simp
  show "set (priority_order (ss_subscriptions ss)) = fst ` set (ss_subscriptions ss)"
    using mset_eq_setD [OF perm] by simp
  show "distinct (priority_order (ss_subscriptions ss))"
    using mset_eq_imp_distinct_iff [OF perm] assms strict_sorted_imp_sorted [of "map fst (ss_subscriptions ss)"]
    by (simp add: session_ok_def strict_sorted_iff)
qed

lemma ss_get_keys: "ss_get i ss \<noteq> None \<longleftrightarrow> i \<in> fst ` set (ss_subscriptions ss)"
  by (simp add: ss_get_def map_of_eq_None_iff)

lemma subscription_ticked_keys:
  "fst ` set (ss_subscriptions (subscription_ticked i s1 ms ps ss)) \<subseteq> insert i (fst ` set (ss_subscriptions ss))"
  "fst ` set (ss_subscriptions ss) - {i} \<subseteq> fst ` set (ss_subscriptions (subscription_ticked i s1 ms ps ss))"
  by (auto simp: subscription_ticked_def Let_def simp del: set_map)

lemma tick_subscription_keys:
  assumes "tick_subscription_with_publish_requests iter add_time i now t reason ss = Inr ((r, resp, m), ss')"
  shows "fst ` set (ss_subscriptions ss) - {i} \<subseteq> fst ` set (ss_subscriptions ss')"
  using assms by (rule tick_subscription_cases) (simp only: subscription_ticked_keys(2))

lemma tick_by_priority_no_panic:
  assumes "distinct ids" "set ids \<subseteq> fst ` set (ss_subscriptions ss)"
  shows "tick_by_priority iter add_time now t reason ids ss \<noteq> Inl Stop_panic"
  using assms
proof (induction ids arbitrary: ss)
  case (Cons i ids)
  show ?case
  proof (cases "i \<in> set (ss_transferring ss)")
    case True
    then show ?thesis using Cons by simp
  next
    case False
    obtain s where s: "ss_get i ss = Some s" using Cons(3) ss_get_keys [of i ss] by auto
    show ?thesis
    proof (cases "tick_subscription_with_publish_requests iter add_time i now t reason ss")
      case (Inl e)
      then have "e = Stop_diverges"
        using s sub_tick_stops
        by (cases "sub_tick iter add_time now t reason (ss_publish_request_queue ss \<noteq> []) s")
           (auto simp: tick_subscription_with_publish_requests_def Let_def split: prod.splits)
      then show ?thesis using False Inl by simp
    next
      case (Inr x)
      then obtain r resp m ss1 where x: "x = ((r, resp, m), ss1)" by (metis prod.exhaust)
      have "set ids \<subseteq> fst ` set (ss_subscriptions ss1)"
        using tick_subscription_keys [OF Inr [unfolded x]] Cons(2,3) by auto
      then have "tick_by_priority iter add_time now t reason ids ss1 \<noteq> Inl Stop_panic" using Cons(1) [of ss1] Cons(2) by simp
      then show ?thesis
        using False Inr x by (cases "tick_by_priority iter add_time now t reason ids ss1") auto
    qed
  qed
qed simp

lemma tick_idle_no_panic: "tick_idle iter add_time now t reason ids ss \<noteq> Inl Stop_panic"
proof (induction ids arbitrary: ss)
  case (Cons i ids)
  show ?case
  proof (cases "ss_get i ss")
    case (Some s)
    show ?thesis
    proof (cases "sub_tick iter add_time now t reason False s")
      case (Inl e)
      then show ?thesis using Cons Some sub_tick_stops [OF Inl] by simp
    next
      case (Inr x)
      obtain r s1 where "x = (r, s1)" by fastforce
      then show ?thesis
        using Inr Cons Some Cons [of "ss_put i s1 ss"]
        by (cases "tick_idle iter add_time now t reason ids (ss_put i s1 ss)") auto
    qed
  qed (use Cons in simp)
qed simp

lemma deliver_changes_simps [simp]:
  "ss_subscriptions (deliver_changes cs ps ss) = ss_subscriptions ss"
  "ss_transferring (deliver_changes cs ps ss) = ss_transferring ss"
  "ss_cached_priority_order (deliver_changes cs ps ss) = ss_cached_priority_order ss"
  "ss_priority_cache_dirty (deliver_changes cs ps ss) = ss_priority_cache_dirty ss"
  by (induction cs ps ss rule: deliver_changes.induct) (simp_all add: ss_reply_def)

lemma fault_requests_simps [simp]:
  "ss_subscriptions (fault_requests f status ss) = ss_subscriptions ss"
  "ss_transferring (fault_requests f status ss) = ss_transferring ss"
  "ss_cached_priority_order (fault_requests f status ss) = ss_cached_priority_order ss"
  "ss_priority_cache_dirty (fault_requests f status ss) = ss_priority_cache_dirty ss"
  by (simp_all add: fault_requests_def)

lemma tick_with_requests_no_panic:
  assumes "session_ok ss" "order_sound ss"
  shows "tick_subscriptions_with_publish_requests iter add_time now t reason ss \<noteq> Inl Stop_panic"
  using tick_by_priority_no_panic [of "fst (subscription_ids_by_priority ss)" "snd (subscription_ids_by_priority ss)"]
    priority_order_keys [OF assms(1)] assms(2)
  by (auto simp: tick_subscriptions_with_publish_requests_def case_prod_beta subscription_ids_by_priority_def Let_def order_sound_def
      split: if_splits)

text \<open>A tick of a session whose cached priority order is due for renewal or names existing subscriptions only does not
  panic, whatever the tick is for: the lookup of each subscription in the order succeeds, although subscriptions are removed on the
  way, and no message is built from nothing.\<close>

theorem session_tick_no_panic:
  assumes "session_ok ss" "order_sound ss"
  shows "ss_tick iter add_time now t reason ss \<noteq> Inl Stop_panic"
proof -
  let ?ss2 = "remove_expired_publish_requests t (deliver_pending_status_changes ss)"
  have "session_ok ?ss2" "order_sound ?ss2"
    using assms by (simp_all add: session_ok_def order_sound_def remove_expired_publish_requests_def deliver_pending_status_changes_def)
  then have "tick_subscriptions_with_publish_requests iter add_time now t reason ?ss2 \<noteq> Inl Stop_panic"
    by (rule tick_with_requests_no_panic)
  then show ?thesis
    using tick_idle_no_panic [of iter add_time now t reason "iter (map fst (ss_subscriptions ?ss2))" ?ss2]
    by (cases "tick_subscriptions_with_publish_requests iter add_time now t reason ?ss2";
        cases "tick_idle iter add_time now t reason (iter (map fst (ss_subscriptions ?ss2))) ?ss2")
       (auto simp: ss_tick_def Let_def tick_subscriptions_without_publish_requests_def)
qed

theorem session_tick_no_panic_witness:
  "ss_tick (\<lambda>x. x) example_add_time 1 1 TickTimerFired example_session \<noteq> Inl Stop_panic"
proof (rule session_tick_no_panic)
  show "session_ok example_session" by code_simp
  show "order_sound example_session" by code_simp
qed

section \<open>The cached order goes stale\<close>

text \<open>The tick itself breaks the premise: it removes a closed subscription whose last message has gone out without marking
  the order for renewal. In the example the client is silent until the first subscription has expired, while the second
  one lives on; then it sends two publish requests.\<close>

definition example_silence :: "session_command list" where
  "example_silence = map (\<lambda>k. Cmd_tick (int k) k TickTimerFired) [0..<5]"

definition stops_with_panic :: "Stop + 'a \<Rightarrow> bool" where
  "stops_with_panic r = (case r of Inl Stop_panic \<Rightarrow> True | _ \<Rightarrow> False)"

text \<open>After a subscription has expired while another one of the session is alive, the first publish request is
  answered with the status change of the expired subscription, and the second one makes the session panic: the cached order
  still names the subscription that was removed after its last message.\<close>

theorem expired_subscription_panics:
  "is_ok (session_commands (\<lambda>x. x) example_add_time (example_silence @ [Cmd_publish 5 5 (example_publish 1)]) example_session)
   \<and> stops_with_panic (session_commands (\<lambda>x. x) example_add_time
        (example_silence @ [Cmd_publish 5 5 (example_publish 1), Cmd_publish 6 6 (example_publish 2)]) example_session)"
  by code_simp

section \<open>The loop of the actor\<close>

subsection \<open>What a tick keeps of the session\<close>

definition order_complete :: "('v, 'e, 'f) session \<Rightarrow> bool" where
  "order_complete ss \<longleftrightarrow> ss_priority_cache_dirty ss \<or> fst ` set (ss_subscriptions ss) \<subseteq> set (ss_cached_priority_order ss)"

definition loop_inv :: "('v, 'e, 'f) session \<Rightarrow> bool" where
  "loop_inv ss \<longleftrightarrow> session_ok ss \<and> order_complete ss \<and> ss_transferring ss = []"

lemma loop_inv_same:
  "ss_subscriptions ss' = ss_subscriptions ss \<Longrightarrow> ss_cached_priority_order ss' = ss_cached_priority_order ss
   \<Longrightarrow> ss_priority_cache_dirty ss' = ss_priority_cache_dirty ss \<Longrightarrow> ss_transferring ss' = ss_transferring ss
   \<Longrightarrow> loop_inv ss' = loop_inv ss"
  by (simp add: loop_inv_def session_ok_def order_complete_def)

lemma session_ok_put: "session_ok ss \<Longrightarrow> sub_id s = i \<Longrightarrow> session_ok (ss_put i s ss)"
  using set_om_insert [of i s "ss_subscriptions ss"] by (auto simp: session_ok_def sorted_om_insert)

lemma session_ok_remove: "session_ok ss \<Longrightarrow> session_ok (ss\<lparr>ss_subscriptions := om_remove i (ss_subscriptions ss)\<rparr>)"
  by (auto simp: session_ok_def sorted_om_remove) (auto simp: om_remove_def)

lemma session_ok_get: "session_ok ss \<Longrightarrow> ss_get i ss = Some s \<Longrightarrow> sub_id s = i"
  by (auto simp: session_ok_def ss_get_def dest!: map_of_SomeD)

lemma session_ok_cong: "ss_subscriptions ss' = ss_subscriptions ss \<Longrightarrow> session_ok ss' = session_ok ss"
  by (simp add: session_ok_def)

lemma session_ok_drop: "session_ok ss \<Longrightarrow> session_ok (drop_subscription i ss)"
  using session_ok_remove [of ss i] session_ok_cong [of "drop_subscription i ss" "ss\<lparr>ss_subscriptions := om_remove i (ss_subscriptions ss)\<rparr>"]
  by simp

lemma tick_idle_inv:
  "tick_idle iter add_time now t reason ids ss = Inr (removed, ready, ss') \<Longrightarrow> loop_inv ss \<Longrightarrow> loop_inv ss'"
proof (induction ids arbitrary: ss removed ready)
  case (Cons i ids)
  show ?case
  proof (cases "ss_get i ss")
    case None
    then show ?thesis using Cons by simp
  next
    case (Some s)
    then obtain r s1 rem1 rdy1 where s1: "sub_tick iter add_time now t reason False s = Inr (r, s1)"
      "tick_idle iter add_time now t reason ids (ss_put i s1 ss) = Inr (rem1, rdy1, ss')"
      using Cons(2,3) by (auto simp: bind_result_eq_Inr loop_inv_def)
    have "sub_id s1 = i" using sub_tick_keeps [OF s1(1)] session_ok_get [of ss i s] Cons(3) Some by (simp add: loop_inv_def)
    moreover have "i \<in> fst ` set (ss_subscriptions ss)" using Some ss_get_keys [of i ss] by simp
    ultimately have "loop_inv (ss_put i s1 ss)"
      using Cons(3) session_ok_put [of ss s1 i] by (auto simp: loop_inv_def order_complete_def)
    then show ?thesis using Cons(1) [OF s1(2)] by simp
  qed
qed simp

lemma remove_ready_inv: "loop_inv ss \<Longrightarrow> loop_inv (remove_ready_subscriptions ids ss)"
proof -
  assume ss: "loop_inv ss"
  let ?f = "\<lambda>i ss. drop_subscription i (ss\<lparr>ss_transferring := os_remove i (ss_transferring ss)\<rparr>)"
  have "loop_inv (fold ?f ids a) \<and> ss_priority_cache_dirty (fold ?f ids a)"
    if "loop_inv a" "ss_priority_cache_dirty a" for a :: "('a, 'b, 'c) session"
    using that
  proof (induction ids arbitrary: a)
    case (Cons i ids)
    have "session_ok (a\<lparr>ss_transferring := os_remove i (ss_transferring a)\<rparr>)"
      using Cons(2) session_ok_cong [of "a\<lparr>ss_transferring := os_remove i (ss_transferring a)\<rparr>" a] by (simp add: loop_inv_def)
    then have "session_ok (?f i a)" by (rule session_ok_drop)
    then have "loop_inv (?f i a)" "ss_priority_cache_dirty (?f i a)"
      using Cons(2,3) by (simp_all add: loop_inv_def order_complete_def os_remove_def)
    then show ?case using Cons(1) by simp
  qed simp
  moreover have "loop_inv (ss\<lparr>ss_priority_cache_dirty := True\<rparr>)" using ss by (simp add: loop_inv_def session_ok_def order_complete_def)
  ultimately show ?thesis by (simp add: remove_ready_subscriptions_def)
qed

lemma subscription_ticked_inv:
  assumes "loop_inv ss" "ss_get i ss = Some s" "sub_id s1 = i"
  shows "loop_inv (subscription_ticked i s1 ms ps ss)"
proof -
  let ?ss1 = "(ss_put i (s1\<lparr>sub_notifications := ms\<rparr>) ss)\<lparr>ss_publish_request_queue := ps\<rparr>"
  have "session_ok (ss_put i (s1\<lparr>sub_notifications := ms\<rparr>) ss)"
    using assms session_ok_put [of ss "s1\<lparr>sub_notifications := ms\<rparr>" i] by (simp add: loop_inv_def)
  then have "session_ok ?ss1" using session_ok_cong [of ?ss1 "ss_put i (s1\<lparr>sub_notifications := ms\<rparr>) ss"] by simp
  then have "session_ok (subscription_ticked i s1 ms ps ss)"
    by (auto simp: subscription_ticked_def Let_def intro: session_ok_drop)
  moreover have "i \<in> fst ` set (ss_subscriptions ss)" using assms(2) ss_get_keys [of i ss] by simp
  ultimately show ?thesis
    using assms(1) subscription_ticked_keys(1) [of i s1 ms ps ss] by (auto simp: loop_inv_def order_complete_def)
qed

lemma tick_subscription_inv:
  assumes "tick_subscription_with_publish_requests iter add_time i now t reason ss = Inr ((r, resp, m), ss')" "loop_inv ss"
  shows "loop_inv ss'"
  using assms(1)
proof (rule tick_subscription_cases)
  fix s res s1 pairs ps ms
  assume *: "ss_get i ss = Some s" "sub_tick iter add_time now t reason (ss_publish_request_queue ss \<noteq> []) s = Inr (res, s1)"
    "ss' = subscription_ticked i s1 ms ps ss"
  then have "sub_id s1 = i" using sub_tick_keeps session_ok_get assms(2) by (metis loop_inv_def)
  then show ?thesis using * assms(2) subscription_ticked_inv by simp
qed

lemma tick_by_priority_inv:
  "tick_by_priority iter add_time now t reason ids ss = Inr ((rs, resps, more_flag), ss') \<Longrightarrow> loop_inv ss \<Longrightarrow> loop_inv ss'"
proof (induction ids arbitrary: ss rs resps more_flag)
  case (Cons i ids)
  then have "i \<notin> set (ss_transferring ss)" by (simp add: loop_inv_def)
  then show ?case using Cons(2) by (rule tick_by_priority_Cons) (use Cons tick_subscription_inv in blast)
qed simp

lemma send_publish_responses_simps [simp]:
  "ss_subscriptions (send_publish_responses rs m ss) = ss_subscriptions ss"
  "ss_transferring (send_publish_responses rs m ss) = ss_transferring ss"
  "ss_cached_priority_order (send_publish_responses rs m ss) = ss_cached_priority_order ss"
  "ss_priority_cache_dirty (send_publish_responses rs m ss) = ss_priority_cache_dirty ss"
  "ss_pending_status_changes (send_publish_responses rs m ss) = ss_pending_status_changes ss"
  "ss_publish_request_queue (send_publish_responses rs m ss) = ss_publish_request_queue ss"
  by (induction rs m ss rule: send_publish_responses.induct) (simp_all add: ss_reply_def Let_def)

lemma ids_by_priority_inv:
  assumes "loop_inv ss"
  shows "loop_inv (snd (subscription_ids_by_priority ss))"
    "fst ` set (ss_subscriptions ss) \<subseteq> set (fst (subscription_ids_by_priority ss))"
  using assms priority_order_keys(1) [of ss]
  by (auto simp: loop_inv_def subscription_ids_by_priority_def Let_def order_complete_def session_ok_def split: if_splits)

subsection \<open>A tick makes progress\<close>

definition waiting :: "u32 \<Rightarrow> ('v, 'e, 'f) session \<Rightarrow> bool" where
  "waiting i ss \<longleftrightarrow> (\<exists>s. ss_get i ss = Some s \<and> sub_notifications s \<noteq> [])"

lemma tick_subscription_progress:
  assumes "tick_subscription_with_publish_requests iter add_time i now t reason ss = Inr ((r, resp, m), ss')"
    "ss_publish_request_queue ss \<noteq> []"
  shows "(waiting i ss \<longrightarrow> resp \<noteq> []) \<and> (\<forall>j. j \<noteq> i \<longrightarrow> waiting j ss \<longrightarrow> waiting j ss')"
  using assms(1)
proof (rule tick_subscription_cases)
  fix s res s1 pairs ps ms
  assume *: "ss_get i ss = Some s" "sub_tick iter add_time now t reason (ss_publish_request_queue ss \<noteq> []) s = Inr (res, s1)"
    "pair_messages (ss_publish_request_queue ss) (sub_notifications s1) = (pairs, ps, ms)"
    "resp = map (\<lambda>(p, m). (p, m, i)) pairs" "ss' = subscription_ticked i s1 ms ps ss"
  have "pairs \<noteq> []" if "sub_notifications s1 \<noteq> []"
    using that *(3) assms(2) pair_messages_spec [OF *(3)] by (auto simp: neq_Nil_conv)
  moreover have "ss_get j ss' = ss_get j ss" if "j \<noteq> i" for j
    using that *(5) by (simp add: ss_get_def subscription_ticked_def Let_def)
  ultimately show ?thesis using * sub_tick_keeps [OF *(2)] by (auto simp: waiting_def)
qed

lemma tick_by_priority_progress:
  assumes "tick_by_priority iter add_time now t reason ids ss = Inr ((rs, resps, m), ss')"
    "ss_transferring ss = []" "ss_publish_request_queue ss \<noteq> []" "j \<in> set ids" "waiting j ss"
  shows "resps \<noteq> []"
  using assms
proof (induction ids arbitrary: ss rs resps m)
  case (Cons i ids)
  have "i \<notin> set (ss_transferring ss)" using Cons(3) by simp
  then show ?case
    using Cons(2)
  proof (rule tick_by_priority_Cons)
    fix r resp m ss1 rs1 resps1 m1
    assume one: "tick_subscription_with_publish_requests iter add_time i now t reason ss = Inr ((r, resp, m), ss1)"
      and rest: "tick_by_priority iter add_time now t reason ids ss1 = Inr ((rs1, resps1, m1), ss')" and resps: "resps = resp @ resps1"
    show ?thesis
    proof (cases "resp = []")
      case True
      then have "j \<noteq> i" "waiting j ss1" using tick_subscription_progress [OF one Cons(4)] Cons(6) by auto
      moreover have "ss_publish_request_queue ss1 = ss_publish_request_queue ss" "ss_transferring ss1 = []"
        using tick_subscription_queue [OF one] True Cons(3) by auto
      ultimately show ?thesis using Cons(1) [OF rest] Cons(4,5) resps by simp
    qed (simp add: resps)
  qed
qed simp

lemma deliver_changes_queue:
  "ss_publish_request_queue ss = ps \<Longrightarrow>
   length (ss_publish_request_queue (deliver_changes cs ps ss)) = length ps - length cs"
  by (induction cs ps ss rule: deliver_changes.induct) (simp_all add: ss_reply_def)

lemma has_more_waiting:
  assumes "session_ok ss" "has_more_notifications ss"
  obtains j where "waiting j ss" "j \<in> fst ` set (ss_subscriptions ss)"
proof -
  obtain j s where js: "(j, s) \<in> set (ss_subscriptions ss)" "sub_notifications s \<noteq> []"
    using assms(2) by (auto simp: has_more_notifications_def more_notifications_def list_ex_iff)
  moreover have "distinct (map fst (ss_subscriptions ss))"
    using assms(1) by (simp add: session_ok_def strict_sorted_iff)
  ultimately have "waiting j ss" by (auto simp: waiting_def ss_get_def)
  then show thesis using that js by force
qed

lemma ss_tick_progress:
  assumes "loop_inv ss" "has_more_notifications ss" "has_queued_publish_request ss"
    and tick: "ss_tick iter add_time now t reason ss = Inr (removed, ss')"
  shows "loop_inv ss' \<and> length (ss_publish_request_queue ss') < length (ss_publish_request_queue ss)"
proof -
  let ?ss1 = "deliver_pending_status_changes ss"
  let ?ss2 = "remove_expired_publish_requests t ?ss1"
  obtain j where j: "waiting j ss" "j \<in> fst ` set (ss_subscriptions ss)"
    using has_more_waiting assms(1,2) by (auto simp: loop_inv_def)
  have subs: "ss_subscriptions ?ss2 = ss_subscriptions ss" "ss_transferring ?ss1 = []" "ss_subscriptions ?ss1 = ss_subscriptions ss"
    using assms(1) by (simp_all add: remove_expired_publish_requests_def deliver_pending_status_changes_def loop_inv_def)
  have ne: "ss_subscriptions ss \<noteq> []" using j(2) by auto
  have inv2: "loop_inv ?ss2"
    using assms(1) loop_inv_same [of ?ss2 ss] by (simp add: remove_expired_publish_requests_def deliver_pending_status_changes_def)
  have q0: "0 < length (ss_publish_request_queue ss)" using assms(3) by (simp add: has_queued_publish_request_def)
  have q2: "length (ss_publish_request_queue ?ss2) \<le> length (ss_publish_request_queue ss)"
    using deliver_changes_queue [of ss "ss_publish_request_queue ss" "ss_pending_status_changes ss"]
      length_filter_le [of "\<lambda>p. \<not> pp_deadline p < t" "ss_publish_request_queue ?ss1"]
    by (simp add: remove_expired_publish_requests_def fault_requests_def deliver_pending_status_changes_def)
  show ?thesis
  proof (cases "ss_publish_request_queue ?ss2 = []")
    case True
    then have idle: "tick_subscriptions_without_publish_requests iter add_time now t reason ?ss2 = Inr (removed, ss')"
      using tick ne subs by (simp add: ss_tick_def Let_def)
    then obtain ready ss3 where 3: "tick_idle iter add_time now t reason (iter (map fst (ss_subscriptions ?ss2))) ?ss2 = Inr (removed, ready, ss3)"
      "ss' = remove_ready_subscriptions ready ss3"
      by (auto simp: tick_subscriptions_without_publish_requests_def bind_result_eq_Inr)
    then show ?thesis
      using tick_idle_inv [OF 3(1) inv2] remove_ready_inv tick_idle_same [OF 3(1)] True q0 by simp
  next
    case False
    then obtain rs resps m ss3 where 3: "tick_subscriptions_with_publish_requests iter add_time now t reason ?ss2 = Inr ((rs, resps, m), ss3)"
      "ss' = send_publish_responses resps m ss3"
      using tick ne subs by (auto simp: ss_tick_def Let_def bind_result_eq_Inr)
    let ?ids = "fst (subscription_ids_by_priority ?ss2)" and ?ss = "snd (subscription_ids_by_priority ?ss2)"
    have tp: "tick_by_priority iter add_time now t reason ?ids ?ss = Inr ((rs, resps, m), ss3)"
      using 3(1) by (simp add: tick_subscriptions_with_publish_requests_def case_prod_beta)
    have "waiting j ?ss" using j(1) subs(1) by (simp add: waiting_def ss_get_def)
    moreover have "j \<in> set ?ids" using ids_by_priority_inv(2) [OF inv2] j(2) subs(1) by auto
    moreover have "ss_transferring ?ss = []" using inv2 by (simp add: loop_inv_def)
    ultimately have "resps \<noteq> []" using tick_by_priority_progress [OF tp] False by simp
    then have "length (ss_publish_request_queue ss3) < length (ss_publish_request_queue ?ss2)"
      using tick_with_requests_queue [OF 3(1)] by (cases resps) auto
    moreover have "loop_inv ss3" using tick_by_priority_inv [OF tp ids_by_priority_inv(1) [OF inv2]] .
    ultimately show ?thesis using 3(2) q2 loop_inv_same [of ss' ss3] by simp
  qed
qed

text \<open>C19: The loop that the actor of a session runs after it has queued a publish request comes to an end in a session
  whose subscriptions are kept under their own ids, in order, whose cached priority order, unless it is to be computed
  afresh, contains all of them, and none of which is being transferred. A round without a panic leaves fewer publish
  requests in the queue and a session with the same properties.\<close>

theorem publish_loop_returns:
  assumes "session_ok ss" "order_complete ss" "ss_transferring ss = []"
  shows "publish_loop iter add_time now t ss \<noteq> None
    \<and> (\<forall>removed ss'. has_more_notifications ss \<and> has_queued_publish_request ss
         \<and> ss_tick iter add_time now t ReceivePublishRequest ss = Inr (removed, ss') \<longrightarrow>
         length (ss_publish_request_queue ss') < length (ss_publish_request_queue ss)
         \<and> session_ok ss' \<and> order_complete ss' \<and> ss_transferring ss' = [])"
proof -
  have "loop_inv ss \<Longrightarrow> publish_loop iter add_time now t ss \<noteq> None"
  proof (induction "length (ss_publish_request_queue ss)" arbitrary: ss rule: less_induct)
    case less
    show ?case
    proof (cases "has_more_notifications ss \<and> has_queued_publish_request ss")
      case True
      show ?thesis
      proof (cases "ss_tick iter add_time now t ReceivePublishRequest ss")
        case (Inr x)
        obtain removed ss' where x: "x = (removed, ss')" by fastforce
        have "loop_inv ss'" "length (ss_publish_request_queue ss') < length (ss_publish_request_queue ss)"
          using ss_tick_progress [OF less(2)] True Inr x by blast+
        then have "publish_loop iter add_time now t ss' \<noteq> None" using less(1) by blast
        then show ?thesis using True Inr x by (subst publish_loop.simps) simp
      qed (use True in \<open>subst publish_loop.simps, simp\<close>)
    qed (subst publish_loop.simps, simp)
  qed
  moreover have "loop_inv ss" using assms by (simp add: loop_inv_def)
  ultimately show ?thesis using ss_tick_progress [of ss] by (auto simp: loop_inv_def)
qed

theorem publish_loop_returns_witness:
  "publish_loop (\<lambda>x. x) example_add_time 0 1 (example_session\<lparr>ss_publish_request_queue := [example_publish 1]\<rparr>) \<noteq> None"
proof (rule publish_loop_returns [THEN conjunct1])
  let ?ss = "example_session\<lparr>ss_publish_request_queue := [example_publish 1]\<rparr>"
  show "session_ok ?ss" by code_simp
  show "order_complete ?ss" by code_simp
  show "ss_transferring ?ss = []" by code_simp
qed

subsection \<open>A transfer that stops the loop from ending\<close>

definition idle :: "('v, 'e, 'f) Subscription \<Rightarrow> bool" where
  "idle s \<longleftrightarrow> sub_state s \<in> {SS_Normal, SS_KeepAlive} \<and> sub_notifications s = []"

lemma idle_transition:
  assumes "idle s"
  shows "get_state_transition ReceivePublishRequest
      \<lparr>sp_notifications_available = a, sp_more_notifications = sub_notifications s \<noteq> [], sp_publishing_req_queued = q\<rparr> s
    = (if sub_state s = SS_Normal then Normal4 else KeepAlive13)"
proof -
  have none: "sub_notifications s \<noteq> [] \<longleftrightarrow> False" using assms by (simp add: idle_def)
  consider "sub_state s = SS_Normal" | "sub_state s = SS_KeepAlive" using assms by (auto simp: idle_def)
  then show ?thesis by cases (simp_all only: none get_state_transition_def Let_def SubscriptionState.case TickReason.case
      SubscriptionStateParams.select_convs SubscriptionState.distinct if_True if_False simp_thms refl)
qed

lemma idle_tick: "idle s \<Longrightarrow> sub_tick iter add_time now t ReceivePublishRequest queued s = Inr (TR_None, s)"
  by (auto simp: sub_tick_def idle_transition idle_def [symmetric] handle_state_transition_def sub_action_def)

lemma idle_subscription_tick:
  assumes "session_ok ss" "ss_get i ss = Some s" "idle s"
  shows "tick_subscription_with_publish_requests iter add_time i now t ReceivePublishRequest ss = Inr ((None, [], False), ss)"
proof -
  have "ss_put i s ss = ss" using assms(1,2) by (simp add: ss_put_def session_ok_def ss_get_def om_insert_same)
  moreover have "pair_messages (ss_publish_request_queue ss) [] = ([], ss_publish_request_queue ss, [])"
    by (cases "ss_publish_request_queue ss") simp_all
  moreover have "ss_put i (s\<lparr>sub_notifications := []\<rparr>) ss = ss_put i s ss" using assms(3) by (cases s) (simp add: idle_def)
  moreover have "sub_notifications s = []" "sub_state s \<noteq> SS_Closed" using assms(3) by (auto simp: idle_def)
  ultimately show ?thesis
    using assms(2) idle_tick [OF assms(3)]
    by (simp add: tick_subscription_with_publish_requests_def more_notifications_def ready_to_remove_def)
qed

lemma idle_tick_by_priority:
  assumes "session_ok ss" "\<forall>i\<in>set ids. i \<notin> set (ss_transferring ss) \<longrightarrow> (\<exists>s. ss_get i ss = Some s \<and> idle s)"
  shows "tick_by_priority iter add_time now t ReceivePublishRequest ids ss = Inr (([], [], False), ss)"
  using assms(2)
proof (induction ids)
  case (Cons i ids)
  then show ?case
    using idle_subscription_tick [OF assms(1), of i] by (cases "i \<in> set (ss_transferring ss)") auto
qed simp

lemma idle_session_tick:
  assumes "session_ok ss" "\<not> ss_priority_cache_dirty ss" "ss_pending_status_changes ss = []"
    "\<forall>i\<in>set (ss_cached_priority_order ss). i \<notin> set (ss_transferring ss) \<longrightarrow> (\<exists>s. ss_get i ss = Some s \<and> idle s)"
    "length (ss_transferring ss) < length (ss_subscriptions ss)"
    "ss_publish_request_queue ss \<noteq> []" "\<forall>p\<in>set (ss_publish_request_queue ss). t \<le> pp_deadline p"
  shows "ss_tick iter add_time now t ReceivePublishRequest ss = Inr ([], ss)"
proof -
  have "deliver_pending_status_changes ss = ss" by (simp add: deliver_pending_status_changes_def assms(3))
  moreover have "filter (\<lambda>p. \<not> pp_deadline p < t) (ss_publish_request_queue ss) = ss_publish_request_queue ss"
    "filter (\<lambda>p. pp_deadline p < t) (ss_publish_request_queue ss) = []"
    using assms(7) by (auto simp: filter_id_conv filter_empty_conv not_less)
  then have "remove_expired_publish_requests t ss = ss" by (simp add: remove_expired_publish_requests_def fault_requests_def)
  moreover have "tick_subscriptions_with_publish_requests iter add_time now t ReceivePublishRequest ss = Inr (([], [], False), ss)"
    using idle_tick_by_priority [OF assms(1,4)] assms(2)
    by (simp add: tick_subscriptions_with_publish_requests_def subscription_ids_by_priority_def)
  ultimately show ?thesis using assms(5,6) by (auto simp: ss_tick_def Let_def)
qed

text \<open>The premise on transfers cannot be dropped. When a subscription that is being transferred still holds a message and
  the others have nothing to say, a publish request that comes in makes the actor's loop run forever: the message counts as
  more to send, but the tick skips its subscription, so nothing ever changes.\<close>

theorem transfer_blocks_publish_loop:
  assumes "session_ok ss" "\<not> ss_priority_cache_dirty ss" "ss_pending_status_changes ss = []"
    "\<forall>i\<in>set (ss_cached_priority_order ss). i \<notin> set (ss_transferring ss) \<longrightarrow> (\<exists>s. ss_get i ss = Some s \<and> idle s)"
    "length (ss_transferring ss) < length (ss_subscriptions ss)" "has_more_notifications ss"
    "ss_publish_request_queue ss \<noteq> []" "\<forall>p\<in>set (ss_publish_request_queue ss). t \<le> pp_deadline p"
  shows "publish_loop iter add_time now t ss = None"
proof -
  have tick: "ss_tick iter add_time now t ReceivePublishRequest ss = Inr ([], ss)"
    using idle_session_tick [OF assms(1-5,7,8)] .
  have more: "has_more_notifications ss \<and> has_queued_publish_request ss"
    using assms(6,7) by (simp add: has_queued_publish_request_def)
  have "\<not> (has_more_notifications ss \<and> has_queued_publish_request ss
      \<and> ss_tick iter add_time now t ReceivePublishRequest ss = Inr ([], ss))"
    if "publish_loop iter add_time now t ss = Some r" for r
    using that
    by (rule publish_loop.raw_induct [where P = "\<lambda>iter add_time now t ss r.
          \<not> (has_more_notifications ss \<and> has_queued_publish_request ss
             \<and> ss_tick iter add_time now t ReceivePublishRequest ss = Inr ([], ss))", rotated]) (auto split: if_splits)
  then show ?thesis using tick more by (cases "publish_loop iter add_time now t ss") auto
qed

definition example_transfer :: "(nat, nat, nat) session" where
  "example_transfer =
     \<lparr>ss_subscriptions = [(1, (Subscription_new 1 True 10 6 2 1 10 1 100)\<lparr>sub_state := SS_Normal,
                                 sub_notifications := [status_change 1 0 Good]\<rparr>),
                           (2, (Subscription_new 2 True 10 6 2 1 10 1 100)\<lparr>sub_state := SS_Normal\<rparr>)],
      ss_publish_request_queue = [example_publish 1], ss_pending_status_changes = [], ss_transferring = [1],
      ss_retransmission_queue = RetransmissionQueue_new, ss_limits = example_limits, ss_cached_priority_order = [1, 2],
      ss_priority_cache_dirty = False, ss_sent = []\<rparr>"

theorem transfer_blocks_publish_loop_witness:
  "publish_loop (\<lambda>x. x) example_add_time 0 5 example_transfer = None"
  by (rule transfer_blocks_publish_loop)
     (auto simp: example_transfer_def session_ok_def Subscription_new_def idle_def ss_get_def has_more_notifications_def
        more_notifications_def example_publish_def)

end
