(* ===== verification/Safety.thy ===== *)
theory Safety
  imports Prelude
begin

text \<open>
  The safety layer, after \<open>async-opcua-safety/src\<close>: the CRC of \<open>crc.rs\<close>, the safety protocol
  data unit of \<open>spdu.rs\<close>, its builder (\<open>builder.rs\<close>) and the validator (\<open>validator.rs\<close>).

  The lemmas on the CRC show that its bit step is linear over exclusive or and injective, so
  that the checksum tells apart any two payloads of equal length that differ within four
  consecutive bytes. The lemmas on the validator describe whole runs of it: what is accepted
  is exactly the expected sequence, whatever is lost, repeated, reordered or corrupted.
\<close>

unbundle bit_operations_syntax

section \<open>The checksum (\<open>crc.rs\<close>)\<close>

text \<open>One round of the inner loop, the loop over the bits of a byte, and the loop over the data.\<close>

definition crc_bit :: "u32 \<Rightarrow> u32" where
  "crc_bit crc =
     (if crc AND 1 \<noteq> 0 then drop_bit 1 crc XOR 0x82F63B78 else drop_bit 1 crc)"

definition crc_byte :: "u32 \<Rightarrow> u8 \<Rightarrow> u32" where
  "crc_byte crc byte = (crc_bit ^^ 8) (crc XOR ucast byte)"

definition crc_loop :: "bytes \<Rightarrow> u32 \<Rightarrow> u32" where
  "crc_loop data crc = fold (\<lambda>byte crc. crc_byte crc byte) data crc"

definition calculate_crc :: "bytes \<Rightarrow> u32" where
  "calculate_crc data = crc_loop data 0xFFFFFFFF XOR 0xFFFFFFFF"

subsection \<open>The bit step is linear and injective\<close>

lemma and_one_iff_odd: "(w :: u32) AND 1 \<noteq> 0 \<longleftrightarrow> odd w"
  by (simp add: and_one_eq mod_2_eq_odd)

lemma crc_bit_odd: "crc_bit w = (if odd w then drop_bit 1 w XOR 0x82F63B78 else drop_bit 1 w)"
  by (simp only: crc_bit_def and_one_iff_odd)

lemma odd_xor: "odd ((a :: u32) XOR b) \<longleftrightarrow> odd a \<noteq> odd b"
  by (simp add: even_xor_iff)

lemma crc_bit_xor: "crc_bit (a XOR b) = crc_bit a XOR crc_bit b"
  by (simp add: crc_bit_odd odd_xor drop_bit_xor ac_simps)

lemma crc_bit_zero [simp]: "crc_bit 0 = 0"
  by (simp add: crc_bit_def)

text \<open>The polynomial has its top bit set, and shifting clears it: the top bit of the result
  is the bit that was shifted out.\<close>

lemma crc_bit_top: "bit (crc_bit w) 31 \<longleftrightarrow> odd w"
  by (simp add: crc_bit_odd bit_xor_iff bit_drop_bit_eq bit_imp_le_length bit_word_iff_drop_bit_and)


lemma crc_bit_eq_0_iff: "crc_bit w = 0 \<longleftrightarrow> w = 0"
proof
  assume z: "crc_bit w = 0"
  then have even: "even w"
    using crc_bit_top [of w] by simp
  with z have "drop_bit 1 w = 0"
    by (simp add: crc_bit_odd)
  then have "w div 2 = 0"
    by (simp add: drop_bit_Suc)
  moreover from even have "w mod 2 = 0"
    by (simp add: even_iff_mod_2_eq_zero)
  ultimately show "w = 0"
    using div_mult_mod_eq [of w 2] by simp
qed simp

lemma crc_bits_xor: "(crc_bit ^^ n) (a XOR b) = (crc_bit ^^ n) a XOR (crc_bit ^^ n) b"
  by (induction n arbitrary: a b) (simp_all add: funpow_swap1 crc_bit_xor)

lemma crc_bits_eq_0_iff: "(crc_bit ^^ n) w = 0 \<longleftrightarrow> w = 0"
  by (induction n) (simp_all add: crc_bit_eq_0_iff)

lemma xor_eq_0_iff: "(a :: u32) XOR b = 0 \<longleftrightarrow> a = b"
  by (metis xor.assoc xor.right_neutral xor_self_eq)

lemma crc_bits_inj: "(crc_bit ^^ n) a = (crc_bit ^^ n) b \<longleftrightarrow> a = b"
  by (metis crc_bits_eq_0_iff crc_bits_xor xor_eq_0_iff)

text \<open>Bits that are zero are only shifted out.\<close>

lemma crc_bits_shift: "take_bit n w = 0 \<Longrightarrow> (crc_bit ^^ n) w = drop_bit n w"
proof (induction n arbitrary: w)
  case (Suc n)
  have "take_bit 1 w = take_bit 1 (take_bit (Suc n) w)"
    and "take_bit n (drop_bit 1 w) = drop_bit 1 (take_bit (Suc n) w)"
    by (simp_all only: take_bit_take_bit drop_bit_take_bit) simp_all
  with Suc.prems have "even w" and "take_bit n (w div 2) = 0"
    by (simp_all add: drop_bit_Suc even_iff_mod_2_eq_zero)
  then have "crc_bit w = w div 2" and "(crc_bit ^^ n) (w div 2) = drop_bit n (w div 2)"
    by (simp_all add: crc_bit_odd drop_bit_Suc Suc.IH)
  then show ?case
    by (simp only: funpow_Suc_right comp_apply drop_bit_Suc)
qed simp

subsection \<open>Bursts\<close>

text \<open>Up to four bytes as the bits of one word; the loop over them is the loop over its bits.\<close>

lemma bit_byte: "bit (b :: u8) k \<Longrightarrow> k < 8"
  using bit_imp_le_length [of b k] by simp

lemma xor_cancel [simp]: "(a :: u32) XOR c = b XOR c \<longleftrightarrow> a = b"
proof
  assume "a XOR c = b XOR c"
  then have "(a XOR c) XOR c = (b XOR c) XOR c" by simp
  then show "a = b" by (simp only: xor.assoc xor_self_eq xor.right_neutral)
qed simp

fun pack :: "bytes \<Rightarrow> u32" where
  "pack [] = 0"
| "pack (b # bs) = ucast b XOR push_bit 8 (pack bs)"

lemma bit_pack: "bit (pack bs) k \<Longrightarrow> k < 8 * length bs"
proof (induction bs arbitrary: k)
  case (Cons b bs)
  then consider "bit (ucast b :: u32) k" | "8 \<le> k" "bit (pack bs) (k - 8)"
    by (auto simp: bit_xor_iff bit_push_bit_iff)
  then show ?case
  proof cases
    case 1
    then have "k < 8"
      by (auto simp: bit_ucast_iff dest: bit_byte)
    then show ?thesis by simp
  next
    case 2
    with Cons.IH [of "k - 8"] show ?thesis by simp
  qed
qed simp

lemma drop_push_pack:
  assumes "length bs \<le> 3"
  shows "drop_bit 8 (push_bit 8 (pack bs)) = pack bs"
proof (rule bit_word_eqI)
  fix n
  have "bit (pack bs) n \<Longrightarrow> n < 24"
    using assms bit_pack [of bs n] by simp
  then show "bit (drop_bit 8 (push_bit 8 (pack bs))) n = bit (pack bs) n"
    by (auto simp: bit_drop_bit_eq bit_push_bit_iff)
qed

lemma take_8_ucast [simp]: "take_bit 8 (ucast (b :: u8) :: u32) = ucast b"
  by (auto intro!: bit_word_eqI simp: bit_take_bit_iff bit_ucast_iff dest: bit_byte)

lemma drop_8_ucast [simp]: "drop_bit 8 (ucast (b :: u8) :: u32) = 0"
  by (auto intro!: bit_word_eqI simp: bit_drop_bit_eq bit_ucast_iff dest: bit_byte)

lemma take_8_push [simp]: "take_bit 8 (push_bit 8 w :: u32) = 0"
  by (auto intro!: bit_word_eqI simp: bit_take_bit_iff bit_push_bit_iff)

lemma ucast_byte_inj: "(ucast (a :: u8) :: u32) = ucast b \<longleftrightarrow> a = b"
proof
  assume "(ucast a :: u32) = ucast b"
  then have eq: "bit (ucast a :: u32) n = bit (ucast b :: u32) n" for n by simp
  show "a = b"
  proof (rule bit_word_eqI)
    fix n
    assume "n < LENGTH(8)"
    with eq [of n] show "bit a n = bit b n" by (simp add: bit_ucast_iff)
  qed
qed simp

lemma pack_inj:
  assumes "length as = length bs" and "length as \<le> 4" and "pack as = pack bs"
  shows "as = bs"
  using assms
proof (induction as bs rule: list_induct2)
  case (Cons a as b bs)
  have byte: "take_bit 8 (pack (c # cs)) = ucast c" for c cs
    by (simp add: take_bit_xor)
  have rest: "drop_bit 8 (pack (c # cs)) = pack cs" if "length cs \<le> 3" for c cs
    using that by (simp add: drop_bit_xor drop_push_pack)
  have "length as \<le> 3" and "length bs \<le> 3"
    using Cons.prems Cons.hyps by simp_all
  then have "(ucast a :: u32) = ucast b" and "pack as = pack bs"
    using Cons.prems byte [of a as] byte [of b bs] rest [of as a] rest [of bs b] by simp_all
  with Cons show ?case
    by (simp add: ucast_byte_inj)
qed simp

lemma crc_loop_Nil [simp]: "crc_loop [] crc = crc"
  and crc_loop_Cons: "crc_loop (b # bs) crc = crc_loop bs (crc_byte crc b)"
  and crc_loop_append: "crc_loop (xs @ ys) crc = crc_loop ys (crc_loop xs crc)"
  by (simp_all add: crc_loop_def)

lemma crc_loop_pack:
  "length bs \<le> 4 \<Longrightarrow> crc_loop bs crc = (crc_bit ^^ (8 * length bs)) (crc XOR pack bs)"
proof (induction bs arbitrary: crc)
  case (Cons b bs)
  then have "crc_loop (b # bs) crc
      = (crc_bit ^^ (8 * length bs)) ((crc_bit ^^ 8) (crc XOR ucast b) XOR pack bs)"
    by (simp add: crc_loop_Cons crc_byte_def)
  also have "pack bs = (crc_bit ^^ 8) (push_bit 8 (pack bs))"
    using Cons.prems by (simp only: crc_bits_shift [OF take_8_push]) (simp add: drop_push_pack)
  also have "(crc_bit ^^ 8) (crc XOR ucast b) XOR (crc_bit ^^ 8) (push_bit 8 (pack bs))
      = (crc_bit ^^ 8) (crc XOR pack (b # bs))"
    by (simp only: crc_bits_xor [symmetric] pack.simps xor.assoc)
  finally show ?case
    using funpow_add [of "8 * length bs" 8 crc_bit] by (simp add: add.commute)
qed simp

lemma crc_loop_inj: "crc_loop bs a = crc_loop bs b \<longleftrightarrow> a = b"
proof (induction bs arbitrary: a b)
  case (Cons x bs)
  have "crc_byte a x = crc_byte b x \<longleftrightarrow> a = b"
    by (simp only: crc_byte_def crc_bits_inj xor_cancel)
  with Cons show ?case
    by (simp add: crc_loop_Cons)
qed simp

lemma burst_changes_crc:
  assumes "length es = length fs" and "length es \<le> 4" and "es \<noteq> fs"
  shows "calculate_crc (xs @ es @ ys) \<noteq> calculate_crc (xs @ fs @ ys)"
proof
  assume "calculate_crc (xs @ es @ ys) = calculate_crc (xs @ fs @ ys)"
  then have "crc_loop (xs @ es @ ys) 0xFFFFFFFF = crc_loop (xs @ fs @ ys) 0xFFFFFFFF"
    by (simp only: calculate_crc_def xor_cancel)
  then have "crc_loop es (crc_loop xs 0xFFFFFFFF) = crc_loop fs (crc_loop xs 0xFFFFFFFF)"
    by (simp only: crc_loop_append crc_loop_inj)
  then have "pack es = pack fs"
    using assms by (simp only: crc_loop_pack crc_bits_inj xor.commute [of "crc_loop xs _"] xor_cancel)
  with assms show False
    using pack_inj by blast
qed

section \<open>The safety protocol data unit (\<open>spdu.rs\<close>, \<open>builder.rs\<close>)\<close>

record Spdu =
  safety_data :: bytes
  sequence_number :: u32
  timestamp :: u64
  crc :: u32

definition Spdu_new :: "bytes \<Rightarrow> u32 \<Rightarrow> u64 \<Rightarrow> u32 \<Rightarrow> Spdu" where
  "Spdu_new data seq ts c =
     \<lparr>safety_data = data, sequence_number = seq, timestamp = ts, crc = c\<rparr>"

text \<open>\<open>to_be_bytes\<close> of a number of \<open>n\<close> bytes.\<close>

definition be_bytes :: "nat \<Rightarrow> nat \<Rightarrow> bytes" where
  "be_bytes n v = rev (le_bytes n v)"

definition to_bytes_for_crc :: "Spdu \<Rightarrow> bytes" where
  "to_bytes_for_crc spdu =
     safety_data spdu @ be_bytes 4 (unat (sequence_number spdu)) @ be_bytes 8 (unat (timestamp spdu))"

record SpduBuilder =
  builder_safety_data :: bytes
  builder_sequence_number :: u32
  builder_timestamp :: u64

definition SpduBuilder_new :: "bytes \<Rightarrow> SpduBuilder" where
  "SpduBuilder_new data =
     \<lparr>builder_safety_data = data, builder_sequence_number = 0, builder_timestamp = 0\<rparr>"

definition with_sequence_number :: "u32 \<Rightarrow> SpduBuilder \<Rightarrow> SpduBuilder" where
  "with_sequence_number seq b = b\<lparr>builder_sequence_number := seq\<rparr>"

definition with_timestamp :: "u64 \<Rightarrow> SpduBuilder \<Rightarrow> SpduBuilder" where
  "with_timestamp ts b = b\<lparr>builder_timestamp := ts\<rparr>"

definition build :: "SpduBuilder \<Rightarrow> Spdu" where
  "build b =
     (let spdu = Spdu_new (builder_safety_data b) (builder_sequence_number b) (builder_timestamp b) 0
      in spdu\<lparr>crc := calculate_crc (to_bytes_for_crc spdu)\<rparr>)"

section \<open>The validator (\<open>validator.rs\<close>)\<close>

datatype SafetyError = InvalidCrc | SequenceMismatch | SafetyTimeout

record SafetyValidator =
  expected_sequence_number :: u32
  max_delay :: u64

definition SafetyValidator_new :: "u32 \<Rightarrow> u64 \<Rightarrow> SafetyValidator" where
  "SafetyValidator_new start_seq delay =
     \<lparr>expected_sequence_number = start_seq, max_delay = delay\<rparr>"

definition set_expected_sequence_number :: "u32 \<Rightarrow> SafetyValidator \<Rightarrow> SafetyValidator" where
  "set_expected_sequence_number seq v = v\<lparr>expected_sequence_number := seq\<rparr>"

definition validate :: "SafetyValidator \<Rightarrow> Spdu \<Rightarrow> u64 \<Rightarrow> SafetyValidator \<times> (SafetyError + unit)" where
  "validate v spdu current_time =
     (if calculate_crc (to_bytes_for_crc spdu) \<noteq> crc spdu then (v, Inl InvalidCrc)
      else if sequence_number spdu \<noteq> expected_sequence_number v then (v, Inl SequenceMismatch)
      else if current_time < timestamp spdu \<and> max_delay v < timestamp spdu - current_time
        then (v, Inl SafetyTimeout)
      else
        let delay = (if current_time < timestamp spdu then 0 else current_time - timestamp spdu)
        in if max_delay v < delay then (v, Inl SafetyTimeout)
           else (v\<lparr>expected_sequence_number := expected_sequence_number v + 1\<rparr>, Inr ()))"

text \<open>What a packet must satisfy besides its checksum and number: the clocks agree up to the
  delay, in either direction.\<close>

definition timely :: "u64 \<Rightarrow> Spdu \<Rightarrow> u64 \<Rightarrow> bool" where
  "timely delay spdu now \<longleftrightarrow>
     \<bar>int (unat now) - int (unat (timestamp spdu))\<bar> \<le> int (unat delay)"

definition intact :: "Spdu \<Rightarrow> bool" where
  "intact spdu \<longleftrightarrow> crc spdu = calculate_crc (to_bytes_for_crc spdu)"

text \<open>A run of the validator over packets with their arrival times; the accepted packets.\<close>

fun validate_all :: "SafetyValidator \<Rightarrow> (Spdu \<times> u64) list \<Rightarrow> SafetyValidator \<times> Spdu list" where
  "validate_all v [] = (v, [])"
| "validate_all v ((spdu, now) # rest) =
     (let (v', r) = validate v spdu now; (v'', accepted) = validate_all v' rest
      in (v'', if is_ok r then spdu # accepted else accepted))"

text \<open>The reference: from the expected number on, take the packets that are due.\<close>

fun due_packets :: "u64 \<Rightarrow> u32 \<Rightarrow> (Spdu \<times> u64) list \<Rightarrow> Spdu list" where
  "due_packets delay n [] = []"
| "due_packets delay n ((spdu, now) # rest) =
     (if intact spdu \<and> sequence_number spdu = n \<and> timely delay spdu now
      then spdu # due_packets delay (n + 1) rest else due_packets delay n rest)"

section \<open>Runs of the validator\<close>

lemma abs_diff_le_iff: "\<bar>int a - int b\<bar> \<le> int d \<longleftrightarrow> (if a < b then b - a \<le> d else a - b \<le> d)"
  by auto

lemma timely_iff:
  "timely delay spdu now \<longleftrightarrow>
     (if now < timestamp spdu then timestamp spdu - now \<le> delay else now - timestamp spdu \<le> delay)"
  by (simp only: timely_def abs_diff_le_iff word_less_nat_alt word_le_nat_alt unat_sub_if_size)
     auto

lemma validate_cases:
  "validate v spdu now =
     (if \<not> intact spdu then (v, Inl InvalidCrc)
      else if sequence_number spdu \<noteq> expected_sequence_number v then (v, Inl SequenceMismatch)
      else if \<not> timely (max_delay v) spdu now then (v, Inl SafetyTimeout)
      else (v\<lparr>expected_sequence_number := expected_sequence_number v + 1\<rparr>, Inr ()))"
  by (simp add: validate_def intact_def timely_iff Let_def not_le eq_commute [of "crc spdu"])
     auto

lemma validate_all_due:
  "validate_all v ps =
     (v\<lparr>expected_sequence_number := expected_sequence_number v
          + word_of_nat (length (due_packets (max_delay v) (expected_sequence_number v) ps))\<rparr>,
      due_packets (max_delay v) (expected_sequence_number v) ps)"
  by (induction v ps rule: validate_all.induct)
     (simp_all add: validate_cases ac_simps)

lemma consecutive_Suc:
  "map (\<lambda>i. (n :: u32) + word_of_nat i) [0..<Suc k] = n # map (\<lambda>i. n + 1 + word_of_nat i) [0..<k]"
  by (simp add: upt_conv_Cons comp_def ac_simps del: upt_Suc flip: map_Suc_upt)

lemma due_packets_numbers:
  "map sequence_number (due_packets delay n ps)
     = map (\<lambda>i. n + word_of_nat i) [0..<length (due_packets delay n ps)]"
proof (induction delay n ps rule: due_packets.induct)
  case (2 delay n spdu now rest)
  show ?case
  proof (cases "intact spdu \<and> sequence_number spdu = n \<and> timely delay spdu now")
    case True
    with 2(1) show ?thesis
      by (simp only: due_packets.simps if_True list.map length_Cons consecutive_Suc simp_thms)
  next
    case False
    with 2(2) show ?thesis
      by (simp only: due_packets.simps if_False not_False_eq_True)
  qed
qed simp

lemma due_packets_genuine:
  "spdu \<in> set (due_packets delay n ps) \<Longrightarrow>
     intact spdu \<and> (\<exists>now. (spdu, now) \<in> set ps \<and> timely delay spdu now)"
proof (induction ps arbitrary: n)
  case (Cons p rest)
  obtain s now where p: "p = (s, now)" by (cases p)
  show ?case
  proof (cases "intact s \<and> sequence_number s = n \<and> timely delay s now")
    case True
    with Cons.prems have "spdu = s \<or> spdu \<in> set (due_packets delay (n + 1) rest)"
      by (simp add: p)
    with True Cons.IH [of "n + 1"] show ?thesis
      by (auto simp: p)
  next
    case False
    with Cons.prems have "spdu \<in> set (due_packets delay n rest)"
      by (simp only: p due_packets.simps if_False)
    with Cons.IH [of n] show ?thesis
      by auto
  qed
qed simp

lemma length_due_packets: "length (due_packets delay n ps) \<le> length ps"
proof (induction ps arbitrary: n)
  case (Cons p ps)
  then show ?case
    by (cases p) (simp add: le_SucI)
qed simp

lemma distinct_numbers:
  assumes "k \<le> 2 ^ 32"
  shows "distinct (map (\<lambda>i. (n :: u32) + word_of_nat i) [0..<k])"
proof -
  have "inj_on (\<lambda>i. n + word_of_nat i) {0..<k}"
  proof (rule inj_onI)
    fix i j
    assume "i \<in> {0..<k}" "j \<in> {0..<k}" and "n + word_of_nat i = n + word_of_nat j"
    then have "unat (word_of_nat i :: u32) = unat (word_of_nat j :: u32)" and "i < 2 ^ 32" "j < 2 ^ 32"
      using assms by simp_all
    then show "i = j"
      by (simp add: unat_of_nat)
  qed
  then show ?thesis
    by (simp add: distinct_map)
qed

section \<open>Properties\<close>

lemma build_intact: "intact (build b)"
  by (simp add: intact_def build_def Spdu_new_def to_bytes_for_crc_def Let_def)

text \<open>C15: Of any run of packets, whatever is lost, repeated, reordered or corrupted on the way, the
  validator accepts exactly the packets that are due: intact, timely, and carrying the next
  number. The accepted numbers are consecutive from the expected one, no number is accepted
  twice in a run of at most \<open>2 ^ 32\<close> packets, and a gap stops all acceptance until the missing
  number arrives.\<close>

theorem validator_accepts_due_packets:
  assumes "length ps \<le> 2 ^ 32"
    and "validate_all v ps = (v', accepted)"
  shows "accepted = due_packets (max_delay v) (expected_sequence_number v) ps
    \<and> map sequence_number accepted
        = map (\<lambda>i. expected_sequence_number v + word_of_nat i) [0..<length accepted]
    \<and> distinct (map sequence_number accepted)
    \<and> v' = v\<lparr>expected_sequence_number := expected_sequence_number v + word_of_nat (length accepted)\<rparr>
    \<and> (\<forall>spdu \<in> set accepted.
          intact spdu \<and> (\<exists>now. (spdu, now) \<in> set ps \<and> timely (max_delay v) spdu now))"
proof (intro conjI ballI)
  show accepted: "accepted = due_packets (max_delay v) (expected_sequence_number v) ps"
    and "v' = v\<lparr>expected_sequence_number := expected_sequence_number v + word_of_nat (length accepted)\<rparr>"
    using assms(2) by (auto simp: validate_all_due)
  show numbers: "map sequence_number accepted
      = map (\<lambda>i. expected_sequence_number v + word_of_nat i) [0..<length accepted]"
    by (simp only: accepted due_packets_numbers [symmetric])
  have "length accepted \<le> 2 ^ 32"
    using length_due_packets [of "max_delay v" "expected_sequence_number v" ps] assms(1)
    by (simp add: accepted)
  then show "distinct (map sequence_number accepted)"
    by (simp only: numbers distinct_numbers)
  fix spdu
  assume "spdu \<in> set accepted"
  then have "intact spdu \<and> (\<exists>now. (spdu, now) \<in> set ps \<and> timely (max_delay v) spdu now)"
    using due_packets_genuine by (simp only: accepted)
  then show "intact spdu" and "\<exists>now. (spdu, now) \<in> set ps \<and> timely (max_delay v) spdu now"
    by simp_all
qed

text \<open>A packet, its replay and a packet after a gap: only the first is accepted.\<close>

theorem validator_accepts_due_packets_witness:
  "validate_all (SafetyValidator_new 7 10)
     [(build (with_timestamp 5 (with_sequence_number 7 (SpduBuilder_new [1, 2]))), 9),
      (build (with_timestamp 5 (with_sequence_number 7 (SpduBuilder_new [1, 2]))), 9),
      (build (with_timestamp 6 (with_sequence_number 9 (SpduBuilder_new [1, 2]))), 9)]
   = (SafetyValidator_new 8 10,
      [build (with_timestamp 5 (with_sequence_number 7 (SpduBuilder_new [1, 2])))])"
  (is "validate_all ?v ?ps = (?w, ?as)")
proof -
  obtain v' accepted where run: "validate_all ?v ?ps = (v', accepted)"
    by (cases "validate_all ?v ?ps")
  have fields: "sequence_number (build (with_timestamp t (with_sequence_number n (SpduBuilder_new d)))) = n"
    "timestamp (build (with_timestamp t (with_sequence_number n (SpduBuilder_new d)))) = t" for t n d
    by (simp_all add: build_def Spdu_new_def with_timestamp_def with_sequence_number_def
        SpduBuilder_new_def Let_def)
  note property = validator_accepts_due_packets [OF _ run]
  have accepted: "accepted = ?as"
    using property by (simp add: build_intact fields timely_def SafetyValidator_new_def)
  moreover have "v' = ?w"
    using property by (simp add: accepted SafetyValidator_new_def)
  ultimately show ?thesis
    by (simp only: run)
qed

text \<open>C24: A packet from the builder whose data, number or timestamp is damaged within four
  consecutive bytes on the way is refused with \<open>InvalidCrc\<close> by every validator at every time,
  and the expected number stays.\<close>

theorem damaged_packet_refused:
  assumes "to_bytes_for_crc (build b) = before @ sent @ after"
    and "to_bytes_for_crc spdu = before @ received @ after" and "crc spdu = crc (build b)"
    and "length received = length sent" and "length sent \<le> 4" and "received \<noteq> sent"
  shows "validate v spdu now = (v, Inl InvalidCrc)"
proof -
  have "calculate_crc (to_bytes_for_crc spdu) \<noteq> calculate_crc (to_bytes_for_crc (build b))"
    using assms burst_changes_crc [of received sent before after] by simp
  then have "\<not> intact spdu"
    using build_intact [of b] assms(3) by (simp add: intact_def)
  then show ?thesis
    by (simp add: validate_cases)
qed

text \<open>Two bytes of the payload changed.\<close>

theorem damaged_packet_refused_witness:
  "validate (SafetyValidator_new 0 10) (build (SpduBuilder_new [1, 2, 3])\<lparr>safety_data := [1, 9, 4]\<rparr>) 5
     = (SafetyValidator_new 0 10, Inl InvalidCrc)"
  by (rule damaged_packet_refused [of "SpduBuilder_new [1, 2, 3]" "[1]" "[2, 3]"
        "be_bytes 4 0 @ be_bytes 8 0" _ "[9, 4]"])
     (simp_all add: build_def Spdu_new_def SpduBuilder_new_def to_bytes_for_crc_def Let_def)

end
