(* ===== verification/Floating_Point.thy ===== *)
theory Floating_Point
  imports Prelude
begin

text \<open>
  The part of the double precision arithmetic of the standard library that the alarms use:
  values, comparison, addition, subtraction, division and the conversion of integers, with
  rounding to nearest, ties to even. A finite value is a sign and a magnitude in units of
  \<open>2 ^ -1074\<close>, the smallest subnormal number, so that every finite double is exact and both
  zeros are kept apart. The lemmas give the order on the values that are not NaN and show that
  small integers and their quotients by a divisor are computed without rounding.
\<close>

datatype f64 =
    F_NaN
  | F_Inf bool
  | F_Fin bool nat

section \<open>Comparison\<close>

definition signed_int :: "bool \<Rightarrow> nat \<Rightarrow> int" where
  "signed_int neg m = (if neg then - int m else int m)"

fun f64_lt :: "f64 \<Rightarrow> f64 \<Rightarrow> bool" where
  "f64_lt F_NaN y = False"
| "f64_lt x F_NaN = False"
| "f64_lt (F_Inf s) y = (s \<and> y \<noteq> F_Inf True)"
| "f64_lt (F_Fin s m) (F_Inf t) = (\<not> t)"
| "f64_lt (F_Fin s m) (F_Fin t n) = (signed_int s m < signed_int t n)"

definition is_nan :: "f64 \<Rightarrow> bool" where
  "is_nan x \<longleftrightarrow> x = F_NaN"

definition f64_le :: "f64 \<Rightarrow> f64 \<Rightarrow> bool" where
  "f64_le x y \<longleftrightarrow> \<not> is_nan x \<and> \<not> is_nan y \<and> \<not> f64_lt y x"

fun is_finite :: "f64 \<Rightarrow> bool" where
  "is_finite (F_Fin s m) = True"
| "is_finite x = False"

fun is_sign_negative :: "f64 \<Rightarrow> bool" where
  "is_sign_negative F_NaN = False"
| "is_sign_negative (F_Inf s) = s"
| "is_sign_negative (F_Fin s m) = s"

definition f64_zero :: f64 where "f64_zero = F_Fin False 0"

section \<open>Rounding and arithmetic\<close>

fun bit_length :: "nat \<Rightarrow> nat" where
  "bit_length n = (if n = 0 then 0 else Suc (bit_length (n div 2)))"

declare bit_length.simps [simp del]

text \<open>The representable magnitude next to \<open>n / d\<close>: 53 significant bits, ties to even.\<close>

definition round_mag :: "nat \<Rightarrow> nat \<Rightarrow> nat" where
  "round_mag n d =
     (let e = bit_length (n div d) - 53; D = d * 2 ^ e; m = n div D; r = n mod D
      in (if D < 2 * r \<or> D = 2 * r \<and> odd m then m + 1 else m) * 2 ^ e)"

text \<open>One, in units.\<close>

definition f64_unit :: nat where "f64_unit = 2 ^ 1074"

definition f64_of_ratio :: "bool \<Rightarrow> nat \<Rightarrow> nat \<Rightarrow> f64" where
  "f64_of_ratio neg n d =
     (let m = round_mag n d in if 2 ^ 2098 \<le> m then F_Inf neg else F_Fin neg m)"

fun f64_neg :: "f64 \<Rightarrow> f64" where
  "f64_neg F_NaN = F_NaN"
| "f64_neg (F_Inf s) = F_Inf (\<not> s)"
| "f64_neg (F_Fin s m) = F_Fin (\<not> s) m"

fun f64_add :: "f64 \<Rightarrow> f64 \<Rightarrow> f64" where
  "f64_add F_NaN y = F_NaN"
| "f64_add x F_NaN = F_NaN"
| "f64_add (F_Inf s) (F_Inf t) = (if s = t then F_Inf s else F_NaN)"
| "f64_add (F_Inf s) y = F_Inf s"
| "f64_add x (F_Inf t) = F_Inf t"
| "f64_add (F_Fin s m) (F_Fin t n) =
     (let v = signed_int s m + signed_int t n
      in if v = 0 then F_Fin (s \<and> t) 0 else f64_of_ratio (v < 0) (nat \<bar>v\<bar>) 1)"

definition f64_sub :: "f64 \<Rightarrow> f64 \<Rightarrow> f64" where
  "f64_sub x y = f64_add x (f64_neg y)"

fun f64_div :: "f64 \<Rightarrow> f64 \<Rightarrow> f64" where
  "f64_div F_NaN y = F_NaN"
| "f64_div x F_NaN = F_NaN"
| "f64_div (F_Inf s) (F_Inf t) = F_NaN"
| "f64_div (F_Inf s) (F_Fin t n) = F_Inf (s \<noteq> t)"
| "f64_div (F_Fin s m) (F_Inf t) = F_Fin (s \<noteq> t) 0"
| "f64_div (F_Fin s m) (F_Fin t n) =
     (if n = 0 then if m = 0 then F_NaN else F_Inf (s \<noteq> t)
      else f64_of_ratio (s \<noteq> t) (m * f64_unit) n)"

definition f64_min :: "f64 \<Rightarrow> f64 \<Rightarrow> f64" where
  "f64_min x y = (if is_nan x then y else if is_nan y then x else if f64_lt y x then y else x)"

definition f64_of_int :: "int \<Rightarrow> f64" where
  "f64_of_int i = f64_of_ratio (i < 0) (nat \<bar>i\<bar> * f64_unit) 1"

section \<open>The order\<close>

lemma f64_lt_irrefl [simp]: "\<not> f64_lt x x"
  by (cases x) auto

lemma f64_lt_trans: "f64_lt x y \<Longrightarrow> f64_lt y z \<Longrightarrow> f64_lt x z"
  by (cases x; cases y; cases z) auto

lemma f64_lt_not_nan: "f64_lt x y \<Longrightarrow> \<not> is_nan x \<and> \<not> is_nan y"
  by (cases x; cases y) (auto simp: is_nan_def)

lemma f64_le_lt_trans: "f64_le x y \<Longrightarrow> f64_lt y z \<Longrightarrow> f64_lt x z"
  by (cases x; cases y; cases z) (auto simp: f64_le_def is_nan_def)

lemma f64_lt_le_trans: "f64_lt x y \<Longrightarrow> f64_le y z \<Longrightarrow> f64_lt x z"
  by (cases x; cases y; cases z) (auto simp: f64_le_def is_nan_def)

lemma f64_not_lt: "\<not> is_nan x \<Longrightarrow> \<not> is_nan y \<Longrightarrow> \<not> f64_lt x y \<longleftrightarrow> f64_le y x"
  by (simp add: f64_le_def)

lemma is_finite_not_nan: "is_finite x \<Longrightarrow> \<not> is_nan x"
  by (cases x) (simp_all add: is_nan_def)

section \<open>Exact results\<close>

lemma bit_length_0 [simp]: "bit_length 0 = 0"
  by (simp add: bit_length.simps)

lemma bit_length_double: "0 < k \<Longrightarrow> bit_length (k * 2 ^ j) = bit_length k + j"
proof (induction j)
  case (Suc j)
  then show ?case
    by (subst bit_length.simps) simp
qed simp

lemma bit_length_le: "k < 2 ^ n \<Longrightarrow> bit_length k \<le> n"
proof (induction n arbitrary: k)
  case (Suc n)
  then have "k div 2 < 2 ^ n" by (simp add: less_mult_imp_div_less)
  with Suc.IH show ?case by (subst bit_length.simps) simp
qed simp

lemma round_mag_exact:
  assumes "0 < d" and "k < 2 ^ 53"
  shows "round_mag (d * (k * 2 ^ j)) d = k * 2 ^ j"
proof (cases "k = 0")
  case False
  define e where "e = bit_length (k * 2 ^ j) - 53"
  have "e \<le> j"
    using False bit_length_le [OF assms(2)] by (simp add: e_def bit_length_double)
  then obtain i where j: "j = i + e"
    by (metis le_add_diff_inverse2)
  have split: "d * (k * 2 ^ j) = (k * 2 ^ i) * (d * 2 ^ e)"
    by (simp add: j power_add)
  have "d * (k * 2 ^ j) div d = k * 2 ^ j"
    using assms(1) by simp
  then show ?thesis
    using assms(1) unfolding round_mag_def Let_def e_def [symmetric] split
    by (simp add: e_def [symmetric] split [symmetric]) (simp add: split j power_add)
qed (simp add: round_mag_def)

lemma f64_unit_pos: "0 < f64_unit"
  by (simp add: f64_unit_def del: power_numeral)

lemma unit_in_range: "k < 2 ^ 53 \<Longrightarrow> k * f64_unit < 2 ^ 2098"
proof -
  assume "k < 2 ^ 53"
  then have "k * f64_unit < 2 ^ 53 * 2 ^ 1074"
    unfolding f64_unit_def by (rule mult_strict_right_mono) (rule zero_less_power, simp)
  also have "\<dots> \<le> 2 ^ 2098"
    by (simp only: power_add [symmetric]) (rule power_increasing, simp_all)
  finally show ?thesis .
qed

lemma ratio_exact:
  assumes "0 < d" and "k < 2 ^ 53"
  shows "f64_of_ratio neg (d * (k * f64_unit)) d = F_Fin neg (k * f64_unit)"
  using round_mag_exact [OF assms, of 1074] unit_in_range [OF assms(2)]
  by (simp add: f64_of_ratio_def f64_unit_def [symmetric] not_le del: power_numeral)

lemma f64_of_int_exact: "\<bar>i\<bar> < 2 ^ 53 \<Longrightarrow> f64_of_int i = F_Fin (i < 0) (nat \<bar>i\<bar> * f64_unit)"
  using ratio_exact [of 1 "nat \<bar>i\<bar>" "i < 0"] by (simp add: f64_of_int_def nat_less_iff)

lemma f64_of_int_less:
  assumes "\<bar>i\<bar> < 2 ^ 53" and "\<bar>j\<bar> < 2 ^ 53"
  shows "f64_lt (f64_of_int i) (f64_of_int j) \<longleftrightarrow> i < j"
proof -
  have "signed_int (k < 0) (nat \<bar>k\<bar> * f64_unit) = k * int f64_unit" for k
    by (simp add: signed_int_def)
  then show ?thesis
    using assms f64_unit_pos by (simp add: f64_of_int_exact)
qed

lemma f64_div_exact:
  assumes "0 \<le> k" and "0 < d" and "d < 2 ^ 53" and "k * d < 2 ^ 53"
  shows "f64_div (f64_of_int (k * d)) (f64_of_int d) = f64_of_int k"
proof -
  have "k \<le> k * d"
    using assms mult_left_mono [of 1 d k] by simp
  then have k: "nat k < 2 ^ 53" "\<bar>k\<bar> < 2 ^ 53" "\<bar>k * d\<bar> < 2 ^ 53"
    using assms by (simp_all add: nat_less_iff)
  have "\<not> d * k < 0"
    using assms mult_nonneg_nonneg [of d k] by linarith
  with assms k f64_unit_pos show ?thesis
    using ratio_exact [of "nat d * f64_unit" "nat k" False]
    by (simp add: f64_of_int_exact nat_mult_distrib ac_simps)
qed

end
