(* ===== verification/Conditions.thy ===== *)
theory Conditions
  imports Node_Ids Floating_Point "HOL-Library.AList"
begin

text \<open>
  Alarm conditions, after \<open>async-opcua-server/src/alarms\<close>: the condition state machine
  (\<open>state_machine.rs\<close>), the transitions (\<open>transitions.rs\<close>) and the client methods
  (\<open>methods.rs\<close>).

  The record \<open>ConditionStateMachine\<close> holds the values of the condition's variables in the
  address space together with the bookkeeping of the state machine (event id, branches, delay
  gate, re-alarm timer). The variables are taken to exist, as \<open>create_in_address_space\<close> leaves
  them; values a client writes past the methods are not considered. Times are ticks of 100 ns;
  every call reads the clock once, and fresh event and branch ids (random UUIDs in the code)
  are arguments. Audit events and logging are left out.
\<close>

section \<open>Texts, times and status codes\<close>

type_synonym DateTime = int

text \<open>\<open>DateTime::checked_ticks\<close>, with the ticks of 9999-12-31 23:59:59.\<close>

definition endtimes_ticks :: int where "endtimes_ticks = 2650467743990000000"

definition checked_ticks :: "DateTime \<Rightarrow> int" where
  "checked_ticks t = (if t < 0 then 0 else if endtimes_ticks < t then 2 ^ 63 - 1 else t)"

text \<open>\<open>(now.checked_ticks() - started.checked_ticks()) as f64 / 10_000.0\<close>\<close>

definition elapsed_ms :: "DateTime \<Rightarrow> DateTime \<Rightarrow> f64" where
  "elapsed_ms started now = f64_div (f64_of_int (checked_ticks now - checked_ticks started)) (f64_of_int 10000)"

lemma elapsed_ms_exact:
  assumes "0 \<le> started" and "started + k * 10000 \<le> endtimes_ticks" and "0 \<le> k" and "k * 10000 < 2 ^ 53"
  shows "elapsed_ms started (started + k * 10000) = f64_of_int k"
  using assms f64_div_exact [of k 10000] by (simp add: elapsed_ms_def checked_ticks_def)

definition LocalizedText_new :: "string \<Rightarrow> bytes \<Rightarrow> LocalizedText" where
  "LocalizedText_new loc t = \<lparr>lt_locale = Some (ascii loc), lt_text = Some t\<rparr>"

definition LocalizedText_null :: LocalizedText where
  "LocalizedText_null = \<lparr>lt_locale = None, lt_text = None\<rparr>"

definition display_UAString :: "UAString \<Rightarrow> bytes" where
  "display_UAString s = (case s of Some v \<Rightarrow> v | None \<Rightarrow> ascii ''[null]'')"

definition BadNodeIdUnknown :: StatusCode where "BadNodeIdUnknown = 0x80340000"
definition BadOutOfRange :: StatusCode where "BadOutOfRange = 0x803C0000"
definition BadTypeMismatch :: StatusCode where "BadTypeMismatch = 0x80740000"
definition BadArgumentsMissing :: StatusCode where "BadArgumentsMissing = 0x80760000"
definition BadConditionDisabled :: StatusCode where "BadConditionDisabled = 0x80990000"
definition BadEventIdUnknown :: StatusCode where "BadEventIdUnknown = 0x809A0000"
definition BadInvalidState :: StatusCode where "BadInvalidState = 0x80AF0000"
definition BadDialogNotActive :: StatusCode where "BadDialogNotActive = 0x80CD0000"
definition BadDialogResponseInvalid :: StatusCode where "BadDialogResponseInvalid = 0x80CE0000"
definition BadConditionBranchAlreadyAcked :: StatusCode where
  "BadConditionBranchAlreadyAcked = 0x80CF0000"
definition BadConditionBranchAlreadyConfirmed :: StatusCode where
  "BadConditionBranchAlreadyConfirmed = 0x80D00000"
definition BadConditionAlreadyShelved :: StatusCode where "BadConditionAlreadyShelved = 0x80D10000"
definition BadConditionNotShelved :: StatusCode where "BadConditionNotShelved = 0x80D20000"
definition BadShelvingTimeOutOfRange :: StatusCode where "BadShelvingTimeOutOfRange = 0x80D30000"

section \<open>The condition state machine (\<open>state_machine.rs\<close>)\<close>

record Branch =
  branch_id :: NodeId
  branch_event_id :: bytes
  branch_active :: bool
  branch_acked :: bool
  branch_confirmed :: bool
  branch_retain :: bool
  branch_severity :: u16
  branch_message :: LocalizedText

datatype ShelvingState = Unshelved | OneShotShelved | TimedShelved

fun as_str :: "ShelvingState \<Rightarrow> bytes" where
  "as_str Unshelved = ascii ''Unshelved''"
| "as_str OneShotShelved = ascii ''OneShotShelved''"
| "as_str TimedShelved = ascii ''TimedShelved''"

record DelayGateState =
  committed :: bool
  pending :: "(bool \<times> DateTime) option"

text \<open>The transition times of the state variables.\<close>

record TransitionTimes =
  enabled_time :: DateTime
  active_time :: DateTime
  effective_time :: DateTime
  acked_time :: DateTime
  confirmed_time :: DateTime
  suppressed_time :: DateTime
  out_of_service_time :: DateTime
  silence_time :: DateTime
  shelving_time :: DateTime

record ConditionStateMachine =
  condition_id :: NodeId
  source_node_id :: NodeId
  condition_name :: bytes
  shelving_state_id :: NodeId
  enabled_state :: bool
  active_state :: bool
  effective_display_name :: LocalizedText
  acked_state :: bool
  confirmed_state :: bool
  condition_severity :: u16
  condition_message :: LocalizedText
  condition_retain :: bool
  suppressed_state :: bool
  out_of_service_state :: bool
  silence_state :: bool
  suppressed_or_shelved :: bool
  shelving_current_state :: LocalizedText
  unshelve_time :: f64
  re_alarm_repeat_count :: "16 word"
  audible_enabled :: bool
  transition_times :: TransitionTimes
  current_event_id :: bytes
  branches :: "Branch list"
  delay_gate :: DelayGateState
  last_alarm_time :: "DateTime option"

text \<open>The state \<open>create_in_address_space\<close> leaves behind.\<close>

definition create_condition :: "NodeId \<Rightarrow> NodeId \<Rightarrow> bytes \<Rightarrow> NodeId \<Rightarrow> DateTime \<Rightarrow> ConditionStateMachine" where
  "create_condition cid source name shelving now =
     \<lparr>condition_id = cid, source_node_id = source, condition_name = name,
      shelving_state_id = shelving,
      enabled_state = True, active_state = False,
      effective_display_name = LocalizedText_new ''en'' (ascii ''Inactive''),
      acked_state = False, confirmed_state = False, condition_severity = 100,
      condition_message = LocalizedText_new ''en'' (ascii ''Normal operating state''),
      condition_retain = False, suppressed_state = False, out_of_service_state = False,
      silence_state = False, suppressed_or_shelved = False,
      shelving_current_state = LocalizedText_new ''en'' (as_str Unshelved),
      unshelve_time = f64_zero, re_alarm_repeat_count = 0, audible_enabled = False,
      transition_times = \<lparr>enabled_time = now, active_time = now, effective_time = now,
        acked_time = now, confirmed_time = now, suppressed_time = now, out_of_service_time = now,
        silence_time = now, shelving_time = now\<rparr>,
      current_event_id = [], branches = [],
      delay_gate = \<lparr>committed = False, pending = None\<rparr>, last_alarm_time = None\<rparr>"

subsection \<open>Event ids and branches\<close>

definition set_current_event_id :: "bytes \<Rightarrow> ConditionStateMachine \<Rightarrow> ConditionStateMachine" where
  "set_current_event_id event_id c = c\<lparr>current_event_id := event_id\<rparr>"

definition current_event_id_matches :: "ConditionStateMachine \<Rightarrow> bytes \<Rightarrow> bool" where
  "current_event_id_matches c event_id \<longleftrightarrow> current_event_id c \<noteq> [] \<and> current_event_id c = event_id"

definition create_branch :: "NodeId \<Rightarrow> bytes \<Rightarrow> ConditionStateMachine \<Rightarrow> ConditionStateMachine" where
  "create_branch fresh_id event_id c =
     c\<lparr>branches := branches c @
         [\<lparr>branch_id = fresh_id, branch_event_id = event_id, branch_active = active_state c,
           branch_acked = acked_state c, branch_confirmed = confirmed_state c,
           branch_retain = True, branch_severity = condition_severity c,
           branch_message = condition_message c\<rparr>]\<rparr>"

definition branch_by_event_id :: "ConditionStateMachine \<Rightarrow> bytes \<Rightarrow> Branch option" where
  "branch_by_event_id c event_id = List.find (\<lambda>b. branch_event_id b = event_id) (branches c)"

text \<open>Of the branches, the first with the event id is updated, and dropped once it needs
  neither acknowledgement nor confirmation.\<close>

fun update_first_branch :: "bytes \<Rightarrow> bool \<Rightarrow> bool \<Rightarrow> Branch list \<Rightarrow> bool \<times> Branch list" where
  "update_first_branch event_id ack conf [] = (False, [])"
| "update_first_branch event_id ack conf (b # bs) =
     (if branch_event_id b = event_id then
        let b = (if ack then b\<lparr>branch_acked := True\<rparr> else b);
            b = (if conf then b\<lparr>branch_confirmed := True\<rparr> else b);
            b = b\<lparr>branch_retain := \<not> branch_acked b \<or> \<not> branch_confirmed b\<rparr>
        in (True, if branch_retain b then b # bs else bs)
      else let (found, bs') = update_first_branch event_id ack conf bs in (found, b # bs'))"

definition update_branch_ack_state ::
    "bytes \<Rightarrow> bool \<Rightarrow> bool \<Rightarrow> ConditionStateMachine \<Rightarrow> bool \<times> ConditionStateMachine" where
  "update_branch_ack_state event_id ack conf c =
     (let (found, bs) = update_first_branch event_id ack conf (branches c)
      in (found, c\<lparr>branches := bs\<rparr>))"

definition ack_branch :: "bytes \<Rightarrow> ConditionStateMachine \<Rightarrow> bool \<times> ConditionStateMachine" where
  "ack_branch event_id c = update_branch_ack_state event_id True False c"

definition confirm_branch :: "bytes \<Rightarrow> ConditionStateMachine \<Rightarrow> bool \<times> ConditionStateMachine" where
  "confirm_branch event_id c = update_branch_ack_state event_id False True c"

definition retained_branches :: "ConditionStateMachine \<Rightarrow> Branch list" where
  "retained_branches c = filter branch_retain (branches c)"

subsection \<open>Derived state\<close>

definition write_time :: "(TransitionTimes \<Rightarrow> TransitionTimes) \<Rightarrow> ConditionStateMachine \<Rightarrow> ConditionStateMachine" where
  "write_time f c = c\<lparr>transition_times := f (transition_times c)\<rparr>"

definition get_shelving_state :: "ConditionStateMachine \<Rightarrow> ShelvingState" where
  "get_shelving_state c =
     (if lt_text (shelving_current_state c) = Some (ascii ''OneShotShelved'') then OneShotShelved
      else if lt_text (shelving_current_state c) = Some (ascii ''TimedShelved'') then TimedShelved
      else Unshelved)"

definition recompute_audible_enabled :: "ConditionStateMachine \<Rightarrow> ConditionStateMachine" where
  "recompute_audible_enabled c =
     c\<lparr>audible_enabled := active_state c \<and> \<not> acked_state c \<and> \<not> silence_state c\<rparr>"

text \<open>The \<open>match\<close> on \<open>(active, shelved, suppressed, acked)\<close>.\<close>

fun effective_text :: "bool \<Rightarrow> bool \<Rightarrow> bool \<Rightarrow> bool \<Rightarrow> bytes" where
  "effective_text False _ _ _ = ascii ''Inactive''"
| "effective_text True True _ _ = ascii ''Shelved''"
| "effective_text True False True _ = ascii ''Suppressed''"
| "effective_text True False False False = ascii ''Active | Unacknowledged''"
| "effective_text True False False True = ascii ''Active | Acknowledged''"

definition recompute_effective_state :: "DateTime \<Rightarrow> ConditionStateMachine \<Rightarrow> ConditionStateMachine" where
  "recompute_effective_state now c =
     (let shelved = (get_shelving_state c \<noteq> Unshelved);
          suppressed = (suppressed_state c \<or> out_of_service_state c);
          t = effective_text (active_state c) shelved suppressed (acked_state c)
      in (write_time (effective_time_update (\<lambda>_. now)) c)
           \<lparr>effective_display_name := LocalizedText_new ''en'' t\<rparr>)"

definition recompute_suppressed_or_shelved :: "DateTime \<Rightarrow> ConditionStateMachine \<Rightarrow> ConditionStateMachine" where
  "recompute_suppressed_or_shelved now c =
     recompute_effective_state now
       (c\<lparr>suppressed_or_shelved :=
            suppressed_state c \<or> out_of_service_state c \<or> get_shelving_state c \<noteq> Unshelved\<rparr>)"

subsection \<open>Setters\<close>

definition set_enabled :: "DateTime \<Rightarrow> bool \<Rightarrow> ConditionStateMachine \<Rightarrow> ConditionStateMachine" where
  "set_enabled now enabled c =
     write_time (enabled_time_update (\<lambda>_. now)) (c\<lparr>enabled_state := enabled\<rparr>)"

definition set_active :: "DateTime \<Rightarrow> bool \<Rightarrow> ConditionStateMachine \<Rightarrow> ConditionStateMachine" where
  "set_active now active c =
     recompute_audible_enabled (recompute_effective_state now
       (write_time (active_time_update (\<lambda>_. now)) (c\<lparr>active_state := active\<rparr>)))"

definition set_acked :: "DateTime \<Rightarrow> bool \<Rightarrow> ConditionStateMachine \<Rightarrow> ConditionStateMachine" where
  "set_acked now acked c =
     recompute_audible_enabled (recompute_effective_state now
       (write_time (acked_time_update (\<lambda>_. now)) (c\<lparr>acked_state := acked\<rparr>)))"

definition set_confirmed :: "DateTime \<Rightarrow> bool \<Rightarrow> ConditionStateMachine \<Rightarrow> ConditionStateMachine" where
  "set_confirmed now conf c =
     write_time (confirmed_time_update (\<lambda>_. now)) (c\<lparr>confirmed_state := conf\<rparr>)"

definition set_severity :: "u16 \<Rightarrow> ConditionStateMachine \<Rightarrow> ConditionStateMachine" where
  "set_severity sev c = c\<lparr>condition_severity := sev\<rparr>"

definition set_message :: "LocalizedText \<Rightarrow> ConditionStateMachine \<Rightarrow> ConditionStateMachine" where
  "set_message msg c = c\<lparr>condition_message := msg\<rparr>"

definition set_retain :: "bool \<Rightarrow> ConditionStateMachine \<Rightarrow> ConditionStateMachine" where
  "set_retain r c = c\<lparr>condition_retain := r\<rparr>"

definition set_suppressed :: "DateTime \<Rightarrow> bool \<Rightarrow> ConditionStateMachine \<Rightarrow> ConditionStateMachine" where
  "set_suppressed now s c =
     recompute_suppressed_or_shelved now
       (write_time (suppressed_time_update (\<lambda>_. now)) (c\<lparr>suppressed_state := s\<rparr>))"

definition set_out_of_service :: "DateTime \<Rightarrow> bool \<Rightarrow> ConditionStateMachine \<Rightarrow> ConditionStateMachine" where
  "set_out_of_service now s c =
     recompute_suppressed_or_shelved now
       (write_time (out_of_service_time_update (\<lambda>_. now)) (c\<lparr>out_of_service_state := s\<rparr>))"

definition set_silenced :: "DateTime \<Rightarrow> bool \<Rightarrow> ConditionStateMachine \<Rightarrow> ConditionStateMachine" where
  "set_silenced now s c =
     recompute_audible_enabled
       (write_time (silence_time_update (\<lambda>_. now)) (c\<lparr>silence_state := s\<rparr>))"

definition set_shelving_state :: "DateTime \<Rightarrow> ShelvingState \<Rightarrow> ConditionStateMachine \<Rightarrow> ConditionStateMachine" where
  "set_shelving_state now s c =
     recompute_suppressed_or_shelved now
       (write_time (shelving_time_update (\<lambda>_. now))
         (c\<lparr>shelving_current_state := LocalizedText_new ''en'' (as_str s)\<rparr>))"

definition set_unshelve_time :: "f64 \<Rightarrow> ConditionStateMachine \<Rightarrow> ConditionStateMachine" where
  "set_unshelve_time ms c = c\<lparr>unshelve_time := ms\<rparr>"

subsection \<open>Shelving\<close>

definition one_shot_shelve :: "DateTime \<Rightarrow> ConditionStateMachine \<Rightarrow> StatusCode \<times> ConditionStateMachine" where
  "one_shot_shelve now c =
     (if get_shelving_state c = OneShotShelved then (BadConditionAlreadyShelved, c)
      else (Good, recompute_suppressed_or_shelved now
                    (set_unshelve_time f64_zero (set_shelving_state now OneShotShelved c))))"

definition timed_shelve :: "DateTime \<Rightarrow> f64 \<Rightarrow> ConditionStateMachine \<Rightarrow> StatusCode \<times> ConditionStateMachine" where
  "timed_shelve now ms c =
     (if f64_le ms f64_zero then (BadShelvingTimeOutOfRange, c)
      else if get_shelving_state c = TimedShelved then (BadConditionAlreadyShelved, c)
      else (Good, recompute_suppressed_or_shelved now
                    (set_unshelve_time ms (set_shelving_state now TimedShelved c))))"

definition unshelve :: "DateTime \<Rightarrow> ConditionStateMachine \<Rightarrow> StatusCode \<times> ConditionStateMachine" where
  "unshelve now c =
     (if get_shelving_state c = Unshelved then (BadConditionNotShelved, c)
      else (Good, recompute_suppressed_or_shelved now
                    (set_unshelve_time f64_zero (set_shelving_state now Unshelved c))))"

subsection \<open>Delays and re-alarming\<close>

text \<open>\<open>now\<close> is the time of the sample that is handed in, \<open>clock\<close> the time the setters read.\<close>

definition gate_active ::
    "DateTime \<Rightarrow> bool \<Rightarrow> DateTime \<Rightarrow> f64 \<Rightarrow> f64 \<Rightarrow> ConditionStateMachine \<Rightarrow> bool option \<times> ConditionStateMachine" where
  "gate_active clock desired now on_delay_ms off_delay_ms c =
     (let g = delay_gate c
      in if desired = committed g then (None, c\<lparr>delay_gate := g\<lparr>pending := None\<rparr>\<rparr>)
         else
           let (started, g) =
                 (case pending g of
                    Some (pending_desired, started) \<Rightarrow>
                      if pending_desired = desired then (started, g)
                      else (now, g\<lparr>pending := Some (desired, now)\<rparr>)
                  | None \<Rightarrow> (now, g\<lparr>pending := Some (desired, now)\<rparr>));
               delay_ms = (if desired then on_delay_ms else off_delay_ms)
           in if f64_lt (elapsed_ms started now) delay_ms then (None, c\<lparr>delay_gate := g\<rparr>)
              else (Some desired,
                    set_active clock desired
                      (c\<lparr>delay_gate := g\<lparr>committed := desired, pending := None\<rparr>\<rparr>)))"

definition reset_re_alarm :: "bool \<Rightarrow> DateTime \<Rightarrow> ConditionStateMachine \<Rightarrow> ConditionStateMachine" where
  "reset_re_alarm active now c =
     c\<lparr>last_alarm_time := (if active then Some now else None), re_alarm_repeat_count := 0\<rparr>"

text \<open>\<open>i16::saturating_add(1)\<close>\<close>

definition saturating_inc :: "16 word \<Rightarrow> 16 word" where
  "saturating_inc n = (if sint n = 2 ^ 15 - 1 then n else n + 1)"

definition maybe_re_alarm ::
    "DateTime \<Rightarrow> DateTime \<Rightarrow> f64 \<Rightarrow> ConditionStateMachine \<Rightarrow> bool \<times> ConditionStateMachine" where
  "maybe_re_alarm clock now re_alarm_ms c =
     (if f64_le re_alarm_ms f64_zero then (False, c)
      else case last_alarm_time c of
        None \<Rightarrow> (False, c)
      | Some started \<Rightarrow>
          if f64_lt (elapsed_ms started now) re_alarm_ms then (False, c)
          else
            (True,
             write_time (active_time_update (\<lambda>_. clock))
               (set_silenced clock False (set_confirmed clock False (set_acked clock False
                 (c\<lparr>last_alarm_time := Some now,
                    re_alarm_repeat_count := saturating_inc (re_alarm_repeat_count c)\<rparr>))))))"

section \<open>Transitions (\<open>transitions.rs\<close>)\<close>

record AlarmEvent =
  event_id :: bytes
  event_type :: NodeId
  event_source_node :: NodeId
  event_source_name :: bytes
  event_time :: DateTime
  event_message :: LocalizedText
  event_severity :: u16
  event_condition_id :: NodeId
  event_branch_id :: NodeId
  event_condition_name :: bytes
  event_active :: bool
  event_acked :: bool
  event_confirmed :: bool
  event_retain :: bool

text \<open>The fields every event of a condition has in common, and those it varies.\<close>

definition condition_event ::
    "NodeId \<Rightarrow> DateTime \<Rightarrow> bytes \<Rightarrow> LocalizedText \<Rightarrow> u16 \<Rightarrow> bool \<Rightarrow> bool \<Rightarrow> bool \<Rightarrow> bool
      \<Rightarrow> ConditionStateMachine \<Rightarrow> AlarmEvent" where
  "condition_event type_id now eid msg sev active acked conf retain c =
     \<lparr>event_id = eid, event_type = type_id, event_source_node = source_node_id c,
      event_source_name = condition_name c, event_time = now, event_message = msg,
      event_severity = sev, event_condition_id = condition_id c, event_branch_id = NodeId_null,
      event_condition_name = condition_name c, event_active = active, event_acked = acked,
      event_confirmed = conf, event_retain = retain\<rparr>"

definition AlarmConditionType :: NodeId where
  "AlarmConditionType = NodeId_new 0 (Id_Numeric 2915)"

definition trigger_alarm_transition ::
    "DateTime \<Rightarrow> bytes \<Rightarrow> bool \<Rightarrow> u16 \<Rightarrow> LocalizedText \<Rightarrow> ConditionStateMachine
      \<Rightarrow> AlarmEvent option \<times> ConditionStateMachine" where
  "trigger_alarm_transition now fresh active sev msg c =
     (if \<not> enabled_state c then (None, c)
      else if active_state c = active then (None, c)
      else
        let c = set_active now active c;
            c = set_severity sev c;
            c = set_message msg c;
            c = (if active then set_confirmed now False (set_acked now False c) else c);
            acked = acked_state c;
            conf = confirmed_state c;
            retain = (active \<or> \<not> acked \<or> \<not> conf);
            c = set_retain retain c;
            c = set_current_event_id fresh c
        in (Some (condition_event AlarmConditionType now fresh msg sev active acked conf retain c), c))"

definition acknowledge_alarm ::
    "DateTime \<Rightarrow> bytes \<Rightarrow> LocalizedText \<Rightarrow> ConditionStateMachine
      \<Rightarrow> (StatusCode + AlarmEvent option) \<times> ConditionStateMachine" where
  "acknowledge_alarm now fresh comment c =
     (if \<not> enabled_state c then (Inl BadConditionDisabled, c)
      else if acked_state c then (Inl BadConditionBranchAlreadyAcked, c)
      else
        let c = set_acked now True c;
            c = set_silenced now True c;
            active = active_state c;
            conf = confirmed_state c;
            retain = (active \<or> \<not> conf);
            c = set_retain retain c;
            sev = condition_severity c;
            msg = LocalizedText_new ''en'' (ascii ''Acknowledged: '' @ display_UAString (lt_text comment));
            c = set_message msg c
        in (Inr (Some (condition_event AlarmConditionType now fresh msg sev active True conf retain c)), c))"

definition confirm_alarm ::
    "DateTime \<Rightarrow> bytes \<Rightarrow> LocalizedText \<Rightarrow> ConditionStateMachine
      \<Rightarrow> (StatusCode + AlarmEvent option) \<times> ConditionStateMachine" where
  "confirm_alarm now fresh comment c =
     (if \<not> enabled_state c then (Inl BadConditionDisabled, c)
      else if \<not> acked_state c then (Inl BadInvalidState, c)
      else if confirmed_state c then (Inl BadConditionBranchAlreadyConfirmed, c)
      else
        let c = set_confirmed now True c;
            active = active_state c;
            retain = active;
            c = set_retain retain c;
            sev = condition_severity c;
            msg = LocalizedText_new ''en'' (ascii ''Confirmed: '' @ display_UAString (lt_text comment));
            c = set_message msg c
        in (Inr (Some (condition_event AlarmConditionType now fresh msg sev active True True retain c)), c))"

section \<open>Client methods (\<open>methods.rs\<close>)\<close>

text \<open>Method arguments, as far as the handlers tell them apart.\<close>

datatype MethodArgument =
    Arg_ByteString ByteString
  | Arg_LocalizedText LocalizedText
  | Arg_Int32 i32
  | Arg_Other

definition ByteString_as_ref :: "ByteString \<Rightarrow> bytes" where
  "ByteString_as_ref b = (case b of Some v \<Rightarrow> v | None \<Rightarrow> [])"

text \<open>The beginning of each handler: the two arguments, or the error.\<close>

definition event_id_argument :: "MethodArgument list \<Rightarrow> StatusCode + bytes" where
  "event_id_argument args =
     (if length args < 2 then Inl BadArgumentsMissing
      else case args ! 0 of Arg_ByteString b \<Rightarrow> Inr (ByteString_as_ref b) | _ \<Rightarrow> Inl BadTypeMismatch)"

definition comment_argument :: "MethodArgument list \<Rightarrow> StatusCode + LocalizedText" where
  "comment_argument args =
     (case args ! 1 of Arg_LocalizedText t \<Rightarrow> Inr t | _ \<Rightarrow> Inl BadTypeMismatch)"

definition handle_acknowledgment ::
    "DateTime \<Rightarrow> bytes \<Rightarrow> NodeId \<Rightarrow> LocalizedText \<Rightarrow> ConditionStateMachine
      \<Rightarrow> (StatusCode + StatusCode) \<times> ConditionStateMachine" where
  "handle_acknowledgment now fresh cid comment c =
     (if cid \<noteq> condition_id c then (Inl BadConditionDisabled, c)
      else case acknowledge_alarm now fresh comment c of
        (Inr _, c) \<Rightarrow> (Inr Good, c)
      | (Inl e, c) \<Rightarrow> (Inl e, c))"

text \<open>The handlers return the error if any, the event they notify if any, and the condition.\<close>

type_synonym method_result = "(StatusCode + AlarmEvent option) \<times> ConditionStateMachine"

definition handle_ack_method ::
    "DateTime \<Rightarrow> bytes \<Rightarrow> MethodArgument list \<Rightarrow> ConditionStateMachine \<Rightarrow> method_result" where
  "handle_ack_method now fresh args c =
     (case event_id_argument args of Inl e \<Rightarrow> (Inl e, c)
      | Inr eid \<Rightarrow>
        if branch_by_event_id c eid \<noteq> None then (Inr None, snd (ack_branch eid c))
        else if \<not> current_event_id_matches c eid then (Inl BadEventIdUnknown, c)
        else case comment_argument args of Inl e \<Rightarrow> (Inl e, c)
      | Inr comment \<Rightarrow>
        (case handle_acknowledgment now fresh (condition_id c) comment c of
           (Inl e, c) \<Rightarrow> (Inl e, c)
         | (Inr _, c) \<Rightarrow>
             (Inr (Some (condition_event AlarmConditionType now eid comment (condition_severity c)
                (active_state c) True (confirmed_state c)
                (active_state c \<or> \<not> confirmed_state c) c)), c)))"

definition handle_add_comment_method ::
    "DateTime \<Rightarrow> MethodArgument list \<Rightarrow> ConditionStateMachine \<Rightarrow> method_result" where
  "handle_add_comment_method now args c =
     (case event_id_argument args of Inl e \<Rightarrow> (Inl e, c)
      | Inr eid \<Rightarrow>
        if branch_by_event_id c eid = None \<and> \<not> current_event_id_matches c eid
        then (Inl BadEventIdUnknown, c)
        else case comment_argument args of Inl e \<Rightarrow> (Inl e, c)
      | Inr comment \<Rightarrow>
          (Inr (Some (condition_event AlarmConditionType now eid comment (condition_severity c)
             (active_state c) (acked_state c) (confirmed_state c)
             (active_state c \<or> \<not> confirmed_state c) c)), c))"

definition handle_confirm_method ::
    "DateTime \<Rightarrow> bytes \<Rightarrow> MethodArgument list \<Rightarrow> ConditionStateMachine \<Rightarrow> method_result" where
  "handle_confirm_method now fresh args c =
     (case event_id_argument args of Inl e \<Rightarrow> (Inl e, c)
      | Inr eid \<Rightarrow>
        if branch_by_event_id c eid \<noteq> None then (Inr None, snd (confirm_branch eid c))
        else if \<not> current_event_id_matches c eid then (Inl BadEventIdUnknown, c)
        else case comment_argument args of Inl e \<Rightarrow> (Inl e, c)
      | Inr comment \<Rightarrow> confirm_alarm now fresh comment c)"

text \<open>\<open>apply_optional_comment\<close> of the methods Suppress2, Unsuppress2, RemoveFromService2 and
  PlaceInService2.\<close>

definition apply_optional_comment ::
    "MethodArgument list \<Rightarrow> ConditionStateMachine \<Rightarrow> (StatusCode + unit) \<times> ConditionStateMachine" where
  "apply_optional_comment args c =
     (case args of [] \<Rightarrow> (Inr (), c)
      | Arg_LocalizedText t # _ \<Rightarrow>
          (Inr (), if lt_text t \<noteq> None then set_message t c else c)
      | _ \<Rightarrow> (Inl BadTypeMismatch, c))"

definition with_optional_comment ::
    "MethodArgument list \<Rightarrow> (ConditionStateMachine \<Rightarrow> ConditionStateMachine) \<Rightarrow> ConditionStateMachine \<Rightarrow> method_result" where
  "with_optional_comment args f c =
     (case apply_optional_comment args c of
        (Inl e, c) \<Rightarrow> (Inl e, c)
      | (Inr _, c) \<Rightarrow> (Inr None, f c))"

definition shelving_result :: "StatusCode \<times> ConditionStateMachine \<Rightarrow> method_result" where
  "shelving_result r = (case r of (s, c) \<Rightarrow> (if s = Good then Inr None else Inl s, c))"

text \<open>The methods of \<open>ConditionRefreshHandler\<close> on one condition, behind the lookup of the
  condition in the registry.\<close>

datatype ConditionMethod =
    Acknowledge "MethodArgument list"
  | Confirm "MethodArgument list"
  | AddComment "MethodArgument list"
  | Enable
  | Disable
  | Suppress "MethodArgument list"
  | Unsuppress "MethodArgument list"
  | RemoveFromService "MethodArgument list"
  | PlaceInService "MethodArgument list"
  | Silence
  | OneShotShelve
  | TimedShelve f64
  | Unshelve

fun handle_condition_method ::
    "DateTime \<Rightarrow> bytes \<Rightarrow> ConditionMethod \<Rightarrow> ConditionStateMachine \<Rightarrow> method_result" where
  "handle_condition_method now fresh (Acknowledge args) c = handle_ack_method now fresh args c"
| "handle_condition_method now fresh (Confirm args) c = handle_confirm_method now fresh args c"
| "handle_condition_method now fresh (AddComment args) c = handle_add_comment_method now args c"
| "handle_condition_method now fresh Enable c = (Inr None, set_enabled now True c)"
| "handle_condition_method now fresh Disable c = (Inr None, set_enabled now False c)"
| "handle_condition_method now fresh (Suppress args) c = with_optional_comment args (set_suppressed now True) c"
| "handle_condition_method now fresh (Unsuppress args) c = with_optional_comment args (set_suppressed now False) c"
| "handle_condition_method now fresh (RemoveFromService args) c =
     with_optional_comment args (set_out_of_service now True) c"
| "handle_condition_method now fresh (PlaceInService args) c =
     with_optional_comment args (set_out_of_service now False) c"
| "handle_condition_method now fresh Silence c = (Inr None, set_silenced now True c)"
| "handle_condition_method now fresh OneShotShelve c = shelving_result (one_shot_shelve now c)"
| "handle_condition_method now fresh (TimedShelve ms) c = shelving_result (timed_shelve now ms c)"
| "handle_condition_method now fresh Unshelve c = shelving_result (unshelve now c)"

text \<open>The registry (\<open>registry.rs\<close>) maps condition ids to conditions; shelving methods are called on
  the id of the ShelvingState object.\<close>

type_synonym ConditionRegistry = "(NodeId \<times> ConditionStateMachine) list"

definition registry_register :: "ConditionStateMachine \<Rightarrow> ConditionRegistry \<Rightarrow> ConditionRegistry" where
  "registry_register c reg = AList.update (condition_id c) c reg"

definition registry_get :: "ConditionRegistry \<Rightarrow> NodeId \<Rightarrow> ConditionStateMachine option" where
  "registry_get reg cid = map_of reg cid"

definition get_by_shelving_state :: "ConditionRegistry \<Rightarrow> NodeId \<Rightarrow> ConditionStateMachine option" where
  "get_by_shelving_state reg sid = List.find (\<lambda>c. shelving_state_id c = sid) (map snd reg)"

fun is_shelving_method :: "ConditionMethod \<Rightarrow> bool" where
  "is_shelving_method OneShotShelve = True"
| "is_shelving_method (TimedShelve _) = True"
| "is_shelving_method Unshelve = True"
| "is_shelving_method _ = False"

definition call_condition_method ::
    "DateTime \<Rightarrow> bytes \<Rightarrow> NodeId \<Rightarrow> ConditionMethod \<Rightarrow> ConditionRegistry
      \<Rightarrow> (StatusCode + AlarmEvent option) \<times> ConditionRegistry" where
  "call_condition_method now fresh object_id m reg =
     (case (if is_shelving_method m then get_by_shelving_state reg object_id else registry_get reg object_id) of
        None \<Rightarrow> (Inl BadNodeIdUnknown, reg)
      | Some c \<Rightarrow> (let (r, c') = handle_condition_method now fresh m c in (r, registry_register c' reg)))"

text \<open>The events a refresh replays, in the order of the registry.\<close>

definition build_current_alarm_event :: "DateTime \<Rightarrow> bytes \<Rightarrow> ConditionStateMachine \<Rightarrow> AlarmEvent" where
  "build_current_alarm_event now fresh c =
     condition_event AlarmConditionType now (if current_event_id c = [] then fresh else current_event_id c)
       (condition_message c) (condition_severity c) (active_state c) (acked_state c)
       (confirmed_state c) (condition_retain c) c"

definition build_branch_alarm_event :: "DateTime \<Rightarrow> ConditionStateMachine \<Rightarrow> Branch \<Rightarrow> AlarmEvent" where
  "build_branch_alarm_event now c b =
     (condition_event AlarmConditionType now (branch_event_id b) (branch_message b)
        (branch_severity b) (branch_active b) (branch_acked b) (branch_confirmed b)
        (branch_retain b) c)\<lparr>event_branch_id := branch_id b\<rparr>"

fun refresh_events :: "DateTime \<Rightarrow> bytes \<Rightarrow> ConditionStateMachine list \<Rightarrow> AlarmEvent list" where
  "refresh_events now fresh [] = []"
| "refresh_events now fresh (c # cs) =
     (if condition_retain c
      then build_current_alarm_event now fresh c
             # map (build_branch_alarm_event now c) (retained_branches c)
      else []) @ refresh_events now fresh cs"

section \<open>What holds of every condition\<close>

text \<open>The values derived from others agree with them; a confirmed condition is acknowledged; a
  branch is kept while it needs the operator; and the condition is retained exactly while it is
  active or needs the operator, from its first event on.\<close>

definition derived_ok :: "ConditionStateMachine \<Rightarrow> bool" where
  "derived_ok c \<longleftrightarrow>
     suppressed_or_shelved c
       = (suppressed_state c \<or> out_of_service_state c \<or> get_shelving_state c \<noteq> Unshelved)
     \<and> audible_enabled c = (active_state c \<and> \<not> acked_state c \<and> \<not> silence_state c)
     \<and> effective_display_name c
       = LocalizedText_new ''en''
           (effective_text (active_state c) (get_shelving_state c \<noteq> Unshelved)
              (suppressed_state c \<or> out_of_service_state c) (acked_state c))"

definition needs_operator :: "ConditionStateMachine \<Rightarrow> bool" where
  "needs_operator c \<longleftrightarrow> \<not> acked_state c \<or> \<not> confirmed_state c"

definition untouched :: "ConditionStateMachine \<Rightarrow> bool" where
  "untouched c \<longleftrightarrow> \<not> active_state c \<and> \<not> acked_state c \<and> \<not> confirmed_state c
     \<and> \<not> condition_retain c \<and> current_event_id c = [] \<and> branches c = []"

definition retain_ok :: "ConditionStateMachine \<Rightarrow> bool" where
  "retain_ok c \<longleftrightarrow> condition_retain c = (active_state c \<or> needs_operator c) \<or> untouched c"

definition branch_ok :: "Branch \<Rightarrow> bool" where
  "branch_ok b \<longleftrightarrow> branch_retain b \<and> (\<not> branch_acked b \<or> \<not> branch_confirmed b)"

definition condition_ok :: "ConditionStateMachine \<Rightarrow> bool" where
  "condition_ok c \<longleftrightarrow> derived_ok c \<and> (confirmed_state c \<longrightarrow> acked_state c) \<and> retain_ok c
     \<and> list_all branch_ok (branches c)"

lemma as_str_distinct [simp]:
  "as_str s = as_str t \<longleftrightarrow> s = t"
  "get_shelving_state (c\<lparr>shelving_current_state := LocalizedText_new ''en'' (as_str s)\<rparr>) = s"
  by (cases s; cases t; simp add: ascii_def)
     (cases s; simp add: get_shelving_state_def LocalizedText_new_def ascii_def)

text \<open>Setters of other variables leave the shelving state alone.\<close>

lemma get_shelving_cong:
  "shelving_current_state c = shelving_current_state d \<Longrightarrow> get_shelving_state c = get_shelving_state d"
  by (simp add: get_shelving_state_def)

lemmas setter_defs = set_enabled_def set_active_def set_acked_def set_confirmed_def set_severity_def
  set_message_def set_retain_def set_suppressed_def set_out_of_service_def set_silenced_def
  set_shelving_state_def set_unshelve_time_def set_current_event_id_def write_time_def
  recompute_audible_enabled_def recompute_effective_state_def recompute_suppressed_or_shelved_def
  Let_def

lemmas ok_defs = condition_ok_def derived_ok_def retain_ok_def needs_operator_def untouched_def

lemma create_condition_ok: "condition_ok (create_condition cid source name shelving now)"
  by (simp add: create_condition_def ok_defs get_shelving_state_def LocalizedText_new_def ascii_def)

lemma get_shelving_state_update [simp]:
  "get_shelving_state (c\<lparr>enabled_state := a\<rparr>) = get_shelving_state c"
  "get_shelving_state (c\<lparr>active_state := a\<rparr>) = get_shelving_state c"
  "get_shelving_state (c\<lparr>acked_state := a\<rparr>) = get_shelving_state c"
  "get_shelving_state (c\<lparr>confirmed_state := a\<rparr>) = get_shelving_state c"
  "get_shelving_state (c\<lparr>suppressed_state := a\<rparr>) = get_shelving_state c"
  "get_shelving_state (c\<lparr>out_of_service_state := a\<rparr>) = get_shelving_state c"
  "get_shelving_state (c\<lparr>silence_state := a\<rparr>) = get_shelving_state c"
  "get_shelving_state (c\<lparr>suppressed_or_shelved := a\<rparr>) = get_shelving_state c"
  "get_shelving_state (c\<lparr>audible_enabled := a\<rparr>) = get_shelving_state c"
  "get_shelving_state (c\<lparr>effective_display_name := t\<rparr>) = get_shelving_state c"
  "get_shelving_state (c\<lparr>condition_severity := n\<rparr>) = get_shelving_state c"
  "get_shelving_state (c\<lparr>condition_message := t\<rparr>) = get_shelving_state c"
  "get_shelving_state (c\<lparr>condition_retain := a\<rparr>) = get_shelving_state c"
  "get_shelving_state (c\<lparr>transition_times := ts\<rparr>) = get_shelving_state c"
  "get_shelving_state (c\<lparr>current_event_id := bs\<rparr>) = get_shelving_state c"
  "get_shelving_state (c\<lparr>branches := brs\<rparr>) = get_shelving_state c"
  "get_shelving_state (c\<lparr>unshelve_time := f\<rparr>) = get_shelving_state c"
  "get_shelving_state (c\<lparr>delay_gate := g\<rparr>) = get_shelving_state c"
  "get_shelving_state (c\<lparr>last_alarm_time := l\<rparr>) = get_shelving_state c"
  "get_shelving_state (c\<lparr>re_alarm_repeat_count := k\<rparr>) = get_shelving_state c"
  by (simp_all add: get_shelving_state_def)

text \<open>Which setters keep the derived values right by themselves.\<close>

lemma setters_keep_derived:
  assumes "derived_ok c"
  shows "derived_ok (set_enabled now b c)" and "derived_ok (set_active now b c)"
    and "derived_ok (set_acked now b c)" and "derived_ok (set_confirmed now b c)"
    and "derived_ok (set_severity n c)" and "derived_ok (set_message t c)"
    and "derived_ok (set_retain b c)" and "derived_ok (set_suppressed now b c)"
    and "derived_ok (set_out_of_service now b c)" and "derived_ok (set_silenced now b c)"
    and "derived_ok (set_unshelve_time f c)" and "derived_ok (set_current_event_id eid c)"
    and "derived_ok (recompute_suppressed_or_shelved now c)"
    and "derived_ok (create_branch fresh_id eid c)"
  using assms by (simp_all add: setter_defs derived_ok_def create_branch_def)

lemma set_shelving_state_derived: "derived_ok c \<Longrightarrow> derived_ok (set_shelving_state now s c)"
  by (simp add: setter_defs derived_ok_def)

section \<open>Methods and transitions keep it\<close>

text \<open>What a client that follows the events believes about the condition.\<close>

definition visible :: "ConditionStateMachine \<Rightarrow> bool \<times> bool \<times> bool \<times> bool" where
  "visible c = (active_state c, acked_state c, confirmed_state c, condition_retain c)"

definition event_describes :: "AlarmEvent \<Rightarrow> ConditionStateMachine \<Rightarrow> bool" where
  "event_describes e c \<longleftrightarrow>
     (event_active e, event_acked e, event_confirmed e, event_retain e) = visible c
     \<and> event_condition_id e = condition_id c \<and> event_branch_id e = NodeId_null
     \<and> event_severity e = condition_severity c"

lemma update_first_branch_ok:
  "list_all branch_ok bs \<Longrightarrow> list_all branch_ok (snd (update_first_branch eid ack conf bs))"
  by (induction bs) (auto simp: branch_ok_def Let_def split: prod.splits)

lemma trigger_alarm_transition_ok:
  "condition_ok c \<Longrightarrow> condition_ok (snd (trigger_alarm_transition now fresh active sev msg c))"
  by (auto simp: trigger_alarm_transition_def setter_defs ok_defs)

lemma acknowledge_alarm_ok: "condition_ok c \<Longrightarrow> condition_ok (snd (acknowledge_alarm now fresh comment c))"
  by (auto simp: acknowledge_alarm_def setter_defs ok_defs)

lemma confirm_alarm_ok: "condition_ok c \<Longrightarrow> condition_ok (snd (confirm_alarm now fresh comment c))"
  by (auto simp: confirm_alarm_def setter_defs ok_defs)

text \<open>An acknowledgement is refused without a trace, or leaves these values.\<close>

lemma acknowledge_alarm_result:
  assumes "acknowledge_alarm now fresh comment c = (r, c')"
  shows "(\<exists>e. r = Inl e) \<and> c' = c
     \<or> (\<exists>ev. r = Inr (Some ev)) \<and> enabled_state c \<and> \<not> acked_state c
       \<and> visible c' = (active_state c, True, confirmed_state c, active_state c \<or> \<not> confirmed_state c)
       \<and> condition_id c' = condition_id c \<and> current_event_id c' = current_event_id c
       \<and> condition_severity c' = condition_severity c \<and> branches c' = branches c"
  using assms
  by (auto simp: acknowledge_alarm_def setter_defs visible_def split: if_splits)

lemma confirm_alarm_result:
  assumes "confirm_alarm now fresh comment c = (r, c')"
  shows "(\<exists>e. r = Inl e) \<and> c' = c \<and> \<not> (enabled_state c \<and> acked_state c \<and> \<not> confirmed_state c)
     \<or> (\<exists>ev. r = Inr (Some ev) \<and> event_describes ev c' \<and> event_id ev = fresh)
       \<and> enabled_state c \<and> acked_state c \<and> \<not> confirmed_state c
       \<and> visible c' = (active_state c, True, True, active_state c)
       \<and> current_event_id c' = current_event_id c \<and> branches c' = branches c"
proof (cases "enabled_state c \<and> acked_state c \<and> \<not> confirmed_state c")
  case True
  define msg where "msg = LocalizedText_new ''en'' (ascii ''Confirmed: '' @ display_UAString (lt_text comment))"
  define c2 where "c2 = set_message msg (set_retain (active_state c) (set_confirmed now True c))"
  define ev where "ev = condition_event AlarmConditionType now fresh msg (condition_severity c)
    (active_state c) True True (active_state c) c2"
  have "confirm_alarm now fresh comment c = (Inr (Some ev), c2)"
    using True by (simp add: confirm_alarm_def setter_defs msg_def c2_def ev_def condition_event_def)
  moreover have "event_describes ev c2" "event_id ev = fresh"
    using True
    by (simp_all add: event_describes_def ev_def c2_def condition_event_def setter_defs visible_def)
  moreover have "visible c2 = (active_state c, True, True, active_state c)"
    and "current_event_id c2 = current_event_id c" and "branches c2 = branches c"
    using True by (simp_all add: c2_def setter_defs visible_def)
  ultimately show ?thesis
    using True assms by simp
next
  case False
  with assms show ?thesis
    by (auto simp: confirm_alarm_def split: if_splits)
qed

lemma condition_ok_branches:
  "condition_ok c \<Longrightarrow> list_all branch_ok bs \<Longrightarrow> (branches c = [] \<Longrightarrow> bs = []) \<Longrightarrow>
     condition_ok (c\<lparr>branches := bs\<rparr>)"
  by (auto simp: condition_ok_def derived_ok_def retain_ok_def needs_operator_def untouched_def
      simp del: effective_text.simps)

lemma update_branch_split:
  "snd (update_branch_ack_state eid ack conf c)
     = c\<lparr>branches := snd (update_first_branch eid ack conf (branches c))\<rparr>"
  by (simp add: update_branch_ack_state_def split: prod.splits)

lemma update_branch_ok:
  "condition_ok c \<Longrightarrow> condition_ok (snd (update_branch_ack_state eid ack conf c))"
  unfolding update_branch_split
  by (rule condition_ok_branches) (simp_all add: update_first_branch_ok condition_ok_def)

lemma handle_acknowledgment_ok:
  assumes "handle_acknowledgment now fresh cid comment c = (r, c')" and "condition_ok c"
  shows "condition_ok c'"
  using assms acknowledge_alarm_ok [of c now fresh comment]
  by (auto simp: handle_acknowledgment_def split: if_splits prod.splits sum.splits)

lemma ack_method_ok: "condition_ok c \<Longrightarrow> condition_ok (snd (handle_ack_method now fresh args c))"
  by (auto simp: handle_ack_method_def ack_branch_def intro: update_branch_ok handle_acknowledgment_ok
      split: sum.splits prod.splits)

lemma confirm_method_ok:
  "condition_ok c \<Longrightarrow> condition_ok (snd (handle_confirm_method now fresh args c))"
  by (auto simp: handle_confirm_method_def confirm_branch_def
      intro: update_branch_ok confirm_alarm_ok split: sum.splits)

lemma set_message_ok: "condition_ok c \<Longrightarrow> condition_ok (set_message t c)"
  by (simp add: setter_defs ok_defs)

lemma with_optional_comment_ok:
  assumes "condition_ok c" and "\<And>d. condition_ok d \<Longrightarrow> condition_ok (f d)"
  shows "condition_ok (snd (with_optional_comment args f c))"
proof -
  have "condition_ok (snd (apply_optional_comment args c))"
    using assms(1)
    by (simp add: apply_optional_comment_def set_message_ok split: list.split MethodArgument.split)
  then show ?thesis
    using assms(2) by (cases "apply_optional_comment args c"; cases "fst (apply_optional_comment args c)")
      (simp_all add: with_optional_comment_def split_beta)
qed

lemma setters_ok:
  assumes "condition_ok c"
  shows "condition_ok (set_enabled now b c)" and "condition_ok (set_suppressed now b c)"
    and "condition_ok (set_out_of_service now b c)" and "condition_ok (set_silenced now b c)"
    and "condition_ok (snd (one_shot_shelve now c))" and "condition_ok (snd (timed_shelve now ms c))"
    and "condition_ok (snd (unshelve now c))"
  using assms
  by (auto simp: setter_defs ok_defs one_shot_shelve_def timed_shelve_def unshelve_def)

lemma snd_shelving_result [simp]: "snd (shelving_result r) = snd r"
  by (simp add: shelving_result_def split: prod.split)

lemma snd_add_comment [simp]: "snd (handle_add_comment_method now args c) = c"
  by (simp add: handle_add_comment_method_def split: sum.split)

lemma handle_condition_method_ok:
  "condition_ok c \<Longrightarrow> condition_ok (snd (handle_condition_method now fresh m c))"
  by (cases m)
     (simp_all add: ack_method_ok confirm_method_ok with_optional_comment_ok setters_ok)

section \<open>Methods and events\<close>

lemma handle_ack_method_result:
  assumes "handle_ack_method now fresh args c = (r, c')"
  shows "(\<exists>e. r = Inl e) \<and> c' = c \<or> r = Inr None \<and> visible c' = visible c
     \<or> (\<exists>ev. r = Inr (Some ev) \<and> event_describes ev c' \<and> event_id ev = current_event_id c')"
proof -
  have "\<exists>ev. r = Inr (Some ev) \<and> event_describes ev c' \<and> event_id ev = current_event_id c'"
    if ack: "handle_acknowledgment now fresh (condition_id c) comment c = (Inr s, d)"
      and eid: "current_event_id_matches c eid" and c': "c' = d"
      and r: "r = Inr (Some (condition_event AlarmConditionType now eid comment (condition_severity d)
                (active_state d) True (confirmed_state d) (active_state d \<or> \<not> confirmed_state d) d))"
    for comment eid s d
  proof -
    from ack obtain ev' where "acknowledge_alarm now fresh comment c = (Inr ev', d)"
      by (auto simp: handle_acknowledgment_def split: prod.splits sum.splits)
    with acknowledge_alarm_result
    have "visible d = (active_state c, True, confirmed_state c, active_state c \<or> \<not> confirmed_state c)"
      and "current_event_id d = current_event_id c" by blast+
    with eid show ?thesis
      by (auto simp: r c' event_describes_def condition_event_def visible_def current_event_id_matches_def)
  qed
  moreover have "d = c" if "handle_acknowledgment now fresh (condition_id c) comment c = (Inl e, d)" for comment e d
    using that acknowledge_alarm_result [of now fresh comment c]
    by (fastforce simp: handle_acknowledgment_def split: prod.splits sum.splits)
  moreover have "visible (snd (ack_branch eid c)) = visible c" for eid
    by (simp add: ack_branch_def update_branch_split visible_def)
  ultimately show ?thesis
    using assms by (auto simp: handle_ack_method_def split: sum.splits if_splits prod.splits)
qed

lemma handle_confirm_method_result:
  assumes "handle_confirm_method now fresh args c = (r, c')"
  shows "(\<exists>e. r = Inl e) \<and> c' = c \<or> r = Inr None \<and> visible c' = visible c
     \<or> (\<exists>ev. r = Inr (Some ev) \<and> event_describes ev c' \<and> event_id ev = fresh
          \<and> current_event_id c' = current_event_id c)"
proof -
  have "visible (snd (confirm_branch eid c)) = visible c" for eid
    by (simp add: confirm_branch_def update_branch_split visible_def)
  with assms show ?thesis
    using confirm_alarm_result [of now fresh _ c r c']
    by (auto simp: handle_confirm_method_def split: sum.splits if_splits)
qed

lemma handle_add_comment_result:
  assumes "handle_add_comment_method now args c = (r, c')" and "condition_ok c"
  shows "(\<exists>e. r = Inl e) \<and> c' = c \<or> (\<exists>ev. r = Inr (Some ev) \<and> event_describes ev c' \<and> c' = c)"
proof -
  have "condition_retain c = (active_state c \<or> \<not> confirmed_state c)" if "\<not> untouched c"
    using assms(2) that by (auto simp: condition_ok_def retain_ok_def needs_operator_def)
  moreover have "\<not> untouched c" if "branch_by_event_id c eid \<noteq> None \<or> current_event_id_matches c eid" for eid
    using that by (auto simp: untouched_def branch_by_event_id_def current_event_id_matches_def)
  ultimately have "condition_retain c = (active_state c \<or> \<not> confirmed_state c)"
    if "branch_by_event_id c eid \<noteq> None \<or> current_event_id_matches c eid" for eid
    using that by blast
  with assms(1) show ?thesis
    by (auto simp: handle_add_comment_method_def event_describes_def condition_event_def visible_def
        split: sum.splits if_splits)
qed

lemma with_optional_comment_result:
  assumes "with_optional_comment args f c = (r, c')" and "\<And>d. visible (f d) = visible d"
  shows "(\<exists>e. r = Inl e) \<and> c' = c \<or> r = Inr None \<and> visible c' = visible c"
proof -
  have "visible (set_message t c) = visible c" for t
    by (simp add: set_message_def visible_def)
  with assms show ?thesis
    by (auto simp: with_optional_comment_def apply_optional_comment_def
        split: list.splits MethodArgument.splits if_splits)
qed

lemma setters_visible [simp]:
  "visible (set_enabled now b c) = visible c" "visible (set_suppressed now b c) = visible c"
  "visible (set_out_of_service now b c) = visible c" "visible (set_silenced now b c) = visible c"
  "visible (set_severity n c) = visible c" "visible (set_message t c) = visible c"
  "visible (set_current_event_id eid c) = visible c" "visible (create_branch bid eid c) = visible c"
  by (simp_all add: setter_defs visible_def create_branch_def)

lemma shelving_result_result:
  "shelving_result (one_shot_shelve now c) = (r, c') \<Longrightarrow>
     (\<exists>e. r = Inl e) \<and> c' = c \<or> r = Inr None \<and> visible c' = visible c"
  "shelving_result (timed_shelve now ms c) = (r, c') \<Longrightarrow>
     (\<exists>e. r = Inl e) \<and> c' = c \<or> r = Inr None \<and> visible c' = visible c"
  "shelving_result (unshelve now c) = (r, c') \<Longrightarrow>
     (\<exists>e. r = Inl e) \<and> c' = c \<or> r = Inr None \<and> visible c' = visible c"
  by (auto simp: shelving_result_def one_shot_shelve_def timed_shelve_def unshelve_def Good_def
      BadConditionAlreadyShelved_def BadShelvingTimeOutOfRange_def BadConditionNotShelved_def
      setter_defs visible_def split: if_splits)

text \<open>Every method either fails and changes nothing, or says nothing and changes nothing a
  client follows, or notifies an event that describes the condition.\<close>

lemma handle_condition_method_result:
  assumes "handle_condition_method now fresh m c = (r, c')" and "condition_ok c"
  shows "(\<exists>e. r = Inl e) \<and> c' = c \<or> r = Inr None \<and> visible c' = visible c
     \<or> (\<exists>ev. r = Inr (Some ev) \<and> event_describes ev c')"
proof (cases m)
  case (Acknowledge args)
  with assms handle_ack_method_result show ?thesis by fastforce
next
  case (Confirm args)
  with assms handle_confirm_method_result show ?thesis by fastforce
next
  case (AddComment args)
  with assms handle_add_comment_result show ?thesis by fastforce
next
  case (Suppress args)
  with assms with_optional_comment_result [of args "set_suppressed now True" c r c'] show ?thesis by auto
next
  case (Unsuppress args)
  with assms with_optional_comment_result [of args "set_suppressed now False" c r c'] show ?thesis by auto
next
  case (RemoveFromService args)
  with assms with_optional_comment_result [of args "set_out_of_service now True" c r c'] show ?thesis by auto
next
  case (PlaceInService args)
  with assms with_optional_comment_result [of args "set_out_of_service now False" c r c'] show ?thesis by auto
next
  case OneShotShelve
  with assms shelving_result_result(1) [of now c r c'] show ?thesis by auto
next
  case (TimedShelve ms)
  with assms shelving_result_result(2) [of now ms c r c'] show ?thesis by auto
next
  case Unshelve
  with assms shelving_result_result(3) [of now c r c'] show ?thesis by auto
qed (use assms in auto)

section \<open>Alarms that report their condition\<close>

text \<open>
  The contract between a kind of alarm and those who follow it: a step keeps the invariant of
  the condition; a step that reports an event reports the condition as it then is; a silent
  step changes nothing that events tell. From it follows, for whole runs, that the last event
  describes the condition.
\<close>

type_synonym ('i, 'a) alarm_step = "'i \<Rightarrow> 'a \<Rightarrow> AlarmEvent option \<times> 'a"

fun run_alarm :: "('i, 'a) alarm_step \<Rightarrow> 'i list \<Rightarrow> 'a \<Rightarrow> AlarmEvent list \<times> 'a" where
  "run_alarm step [] a = ([], a)"
| "run_alarm step (i # is) a =
     (let (ev, a') = step i a; (evs, a'') = run_alarm step is a'
      in (case ev of Some e \<Rightarrow> e # evs | None \<Rightarrow> evs, a''))"

text \<open>A run that a client can follow: the invariant of the condition holds at the end, and the
  last event (or, before any, the start) tells whether the condition is active, acknowledged,
  confirmed and retained.\<close>

definition run_followed :: "('a \<Rightarrow> ConditionStateMachine) \<Rightarrow> ('i, 'a) alarm_step \<Rightarrow> 'i list \<Rightarrow> 'a \<Rightarrow> bool" where
  "run_followed condition_of step is a \<longleftrightarrow>
     (let (evs, a') = run_alarm step is a;
          c = condition_of a'
      in condition_ok c
         \<and> (if evs = [] then visible c = visible (condition_of a)
            else (event_active (last evs), event_acked (last evs), event_confirmed (last evs),
                  event_retain (last evs)) = visible c))"

text \<open>What a step of any kind promises.\<close>

definition reports_step :: "ConditionStateMachine \<Rightarrow> AlarmEvent option \<Rightarrow> ConditionStateMachine \<Rightarrow> bool" where
  "reports_step c ev c' \<longleftrightarrow> condition_ok c'
     \<and> (case ev of Some e \<Rightarrow> event_describes e c' | None \<Rightarrow> visible c' = visible c)"

lemma reports_step_refl [simp]: "reports_step c None c \<longleftrightarrow> condition_ok c"
  by (simp add: reports_step_def)

lemma run_alarm_append:
  "run_alarm step (is @ js) a =
     (fst (run_alarm step is a) @ fst (run_alarm step js (snd (run_alarm step is a))),
      snd (run_alarm step js (snd (run_alarm step is a))))"
  by (induction "is" arbitrary: a) (simp_all add: split_beta Let_def split: option.split)

locale reporting_alarm =
  fixes condition_of :: "'a \<Rightarrow> ConditionStateMachine" and step :: "('i, 'a) alarm_step"
  assumes step_ok: "condition_ok (condition_of a) \<Longrightarrow> condition_ok (condition_of (snd (step i a)))"
    and step_event: "condition_ok (condition_of a) \<Longrightarrow> step i a = (Some e, a') \<Longrightarrow>
      event_describes e (condition_of a')"
    and step_silent: "condition_ok (condition_of a) \<Longrightarrow> step i a = (None, a') \<Longrightarrow>
      visible (condition_of a') = visible (condition_of a)"
begin

lemma run_ok: "condition_ok (condition_of a) \<Longrightarrow> condition_ok (condition_of (snd (run_alarm step is a)))"
proof (induction "is" arbitrary: a)
  case (Cons i "is")
  have "snd (run_alarm step (i # is) a) = snd (run_alarm step is (snd (step i a)))"
    by (simp add: split_beta Let_def)
  with Cons.IH [OF step_ok [OF Cons.prems]] show ?case by simp
qed simp

text \<open>The client's belief: the values of the last event, or of the start.\<close>

lemma run_followed:
  assumes "condition_ok (condition_of a)" and "run_alarm step is a = (evs, a')"
  shows "if evs = [] then visible (condition_of a') = visible (condition_of a)
     else (event_active (last evs), event_acked (last evs), event_confirmed (last evs),
           event_retain (last evs)) = visible (condition_of a')"
  using assms
proof (induction "is" arbitrary: a evs)
  case (Cons i "is")
  obtain ev b where st: "step i a = (ev, b)" by fastforce
  obtain es where run: "run_alarm step is b = (es, a')"
    and evs: "evs = (case ev of Some e \<Rightarrow> e # es | None \<Rightarrow> es)"
    using Cons.prems(2) by (auto simp: st split: prod.splits)
  have ok: "condition_ok (condition_of b)"
    using step_ok [OF Cons.prems(1), of i] by (simp add: st)
  show ?case
  proof (cases ev)
    case None
    with Cons.IH [OF ok run] step_silent [OF Cons.prems(1)] st show ?thesis
      by (auto simp: evs split: if_splits)
  next
    case (Some e)
    with step_event [OF Cons.prems(1)] st have "event_describes e (condition_of b)" by simp
    with Cons.IH [OF ok run] Some show ?thesis
      by (auto simp: evs event_describes_def split: if_splits)
  qed
qed simp

lemma followed: "condition_ok (condition_of a) \<Longrightarrow> run_followed condition_of step is a"
  using run_ok [of a "is"] run_followed [of a "is"]
  by (cases "run_alarm step is a") (simp add: run_followed_def)

end

text \<open>An alarm whose client may call the condition's methods between its own steps.\<close>

definition with_methods ::
    "('a \<Rightarrow> ConditionStateMachine) \<Rightarrow> (ConditionStateMachine \<Rightarrow> 'a \<Rightarrow> 'a) \<Rightarrow> ('i, 'a) alarm_step
      \<Rightarrow> ('i + DateTime \<times> bytes \<times> ConditionMethod, 'a) alarm_step" where
  "with_methods condition_of set_condition step i a =
     (case i of Inl j \<Rightarrow> step j a
      | Inr (now, fresh, m) \<Rightarrow>
          (case handle_condition_method now fresh m (condition_of a) of
             (Inr ev, c) \<Rightarrow> (ev, set_condition c a)
           | (Inl _, c) \<Rightarrow> (None, set_condition c a)))"

locale operated_alarm = reporting_alarm condition_of step
  for condition_of :: "'a \<Rightarrow> ConditionStateMachine" and step :: "('i, 'a) alarm_step" +
  fixes set_condition :: "ConditionStateMachine \<Rightarrow> 'a \<Rightarrow> 'a"
  assumes condition_set [simp]: "condition_of (set_condition c a) = c"

sublocale operated_alarm \<subseteq> operated: reporting_alarm condition_of "with_methods condition_of set_condition step"
proof
  fix a i
  assume ok: "condition_ok (condition_of a)"
  show "condition_ok (condition_of (snd (with_methods condition_of set_condition step i a)))"
    using step_ok [OF ok] handle_condition_method_ok [OF ok]
    by (auto simp: with_methods_def split: sum.split prod.splits)
       (metis snd_conv)+
next
  fix a i e a'
  assume ok: "condition_ok (condition_of a)"
    and st: "with_methods condition_of set_condition step i a = (Some e, a')"
  then show "event_describes e (condition_of a')"
    using step_event [OF ok] handle_condition_method_result [OF _ ok]
    by (fastforce simp: with_methods_def split: sum.splits prod.splits)
next
  fix a i a'
  assume ok: "condition_ok (condition_of a)"
    and st: "with_methods condition_of set_condition step i a = (None, a')"
  then show "visible (condition_of a') = visible (condition_of a)"
    using step_silent [OF ok] handle_condition_method_result [OF _ ok]
    by (fastforce simp: with_methods_def split: sum.splits prod.splits)
qed

lemma reporting_alarmI:
  assumes "\<And>i a ev a'. step i a = (ev, a') \<Longrightarrow> condition_ok (condition_of a) \<Longrightarrow>
    reports_step (condition_of a) ev (condition_of a')"
  shows "reporting_alarm condition_of step"
proof
  fix a i
  assume "condition_ok (condition_of a)"
  with assms [of i a "fst (step i a)" "snd (step i a)"]
  show "condition_ok (condition_of (snd (step i a)))" by (simp add: reports_step_def)
next
  fix a i e a'
  assume "condition_ok (condition_of a)" and "step i a = (Some e, a')"
  with assms show "event_describes e (condition_of a')" by (fastforce simp: reports_step_def)
next
  fix a i a'
  assume "condition_ok (condition_of a)" and "step i a = (None, a')"
  with assms show "visible (condition_of a') = visible (condition_of a)" by (fastforce simp: reports_step_def)
qed

lemma operated_alarmI:
  assumes "\<And>i a ev a'. step i a = (ev, a') \<Longrightarrow> condition_ok (condition_of a) \<Longrightarrow>
    reports_step (condition_of a) ev (condition_of a')"
    and "\<And>c a. condition_of (set_condition c a) = c"
  shows "operated_alarm condition_of step set_condition"
  using assms by (intro operated_alarm.intro reporting_alarmI operated_alarm_axioms.intro)

end
