(* ===== verification/Process_Alarms.thy ===== *)
theory Process_Alarms
  imports Conditions
begin

text \<open>
  The kinds of alarms, after \<open>async-opcua-server/src/alarms\<close>: limit alarms with their
  configuration and evaluator (\<open>limit.rs\<close>), deviation and rate-of-change alarms on top of them
  (\<open>deviation.rs\<close>, \<open>rate_of_change.rs\<close>), discrete alarms (\<open>discrete.rs\<close>), discrepancy alarms
  (\<open>discrepancy.rs\<close>), certificate expiration alarms (\<open>certificate_expiration.rs\<close>) and dialogs
  (\<open>dialog.rs\<close>). Each kind is an instance of the contract \<open>operated_alarm\<close>.
\<close>

text \<open>The random ids a step may need: of a branch, of the branch's event and of the event.\<close>

record FreshIds =
  fresh_branch :: NodeId
  fresh_branch_event :: bytes
  fresh_event :: bytes

section \<open>Limits: configuration and evaluation (\<open>limit.rs\<close>)\<close>

datatype LimitMode = ModeExclusive | ModeNonExclusive

datatype LimitLevel = HighHigh | High | Low | LowLow

record LimitDef =
  limit_value :: f64
  limit_deadband :: f64
  limit_severity :: u16

record LimitConfig =
  limit_mode :: LimitMode
  high_high :: "LimitDef option"
  high :: "LimitDef option"
  low :: "LimitDef option"
  low_low :: "LimitDef option"

definition configured_limits :: "LimitConfig \<Rightarrow> (LimitLevel \<times> LimitDef) list" where
  "configured_limits cfg =
     (case high_high cfg of Some l \<Rightarrow> [(HighHigh, l)] | None \<Rightarrow> [])
     @ (case high cfg of Some l \<Rightarrow> [(High, l)] | None \<Rightarrow> [])
     @ (case low cfg of Some l \<Rightarrow> [(Low, l)] | None \<Rightarrow> [])
     @ (case low_low cfg of Some l \<Rightarrow> [(LowLow, l)] | None \<Rightarrow> [])"

text \<open>The three loops of \<open>validate\<close>: finite values, descending order, deadbands below the gap to
  the neighbours.\<close>

definition limit_def_ok :: "LimitDef \<Rightarrow> bool" where
  "limit_def_ok l \<longleftrightarrow>
     is_finite (limit_value l) \<and> is_finite (limit_deadband l) \<and> \<not> is_sign_negative (limit_deadband l)"

fun descending :: "LimitDef list \<Rightarrow> bool" where
  "descending (u # l # ls) = (\<not> f64_lt (limit_value u) (limit_value l) \<and> descending (l # ls))"
| "descending ls = True"

definition nearest_gap :: "LimitDef option \<Rightarrow> LimitDef \<Rightarrow> LimitDef option \<Rightarrow> f64" where
  "nearest_gap upper l lower =
     (let gap = F_Inf False;
          gap = (case upper of Some u \<Rightarrow> f64_min gap (f64_sub (limit_value u) (limit_value l)) | None \<Rightarrow> gap)
      in case lower of Some d \<Rightarrow> f64_min gap (f64_sub (limit_value l) (limit_value d)) | None \<Rightarrow> gap)"

fun deadbands_fit :: "LimitDef option \<Rightarrow> LimitDef list \<Rightarrow> bool" where
  "deadbands_fit upper [] = True"
| "deadbands_fit upper (l # ls) =
     (let gap = nearest_gap upper l (case ls of [] \<Rightarrow> None | d # _ \<Rightarrow> Some d)
      in \<not> (is_finite gap \<and> f64_le gap (limit_deadband l)) \<and> deadbands_fit (Some l) ls)"

definition validate_config :: "LimitConfig \<Rightarrow> StatusCode + unit" where
  "validate_config cfg =
     (let limits = map snd (configured_limits cfg)
      in if \<not> list_all limit_def_ok limits then Inl BadOutOfRange
         else if \<not> descending limits then Inl BadOutOfRange
         else if \<not> deadbands_fit None limits then Inl BadOutOfRange
         else Inr ())"

definition validate_against_eurange :: "f64 \<Rightarrow> f64 \<Rightarrow> LimitConfig \<Rightarrow> StatusCode + unit" where
  "validate_against_eurange lo hi cfg =
     (if list_ex (\<lambda>(_, l). f64_lt (limit_value l) lo \<or> f64_lt hi (limit_value l)) (configured_limits cfg)
      then Inl BadOutOfRange else Inr ())"

definition limit_def :: "LimitConfig \<Rightarrow> LimitLevel \<Rightarrow> LimitDef option" where
  "limit_def cfg level =
     (case level of HighHigh \<Rightarrow> high_high cfg | High \<Rightarrow> high cfg | Low \<Rightarrow> low cfg | LowLow \<Rightarrow> low_low cfg)"

record NonExclusiveState =
  on_high_high :: bool
  on_high :: bool
  on_low :: bool
  on_low_low :: bool

definition NonExclusiveState_default :: NonExclusiveState where
  "NonExclusiveState_default =
     \<lparr>on_high_high = False, on_high = False, on_low = False, on_low_low = False\<rparr>"

datatype ActiveLimits = Exclusive "LimitLevel option" | NonExclusive NonExclusiveState

record LimitOutcome =
  outcome_limits :: ActiveLimits
  outcome_active :: bool
  outcome_severity :: u16
  outcome_message :: bytes

fun level_name :: "LimitLevel \<Rightarrow> bytes" where
  "level_name HighHigh = ascii ''HighHigh''"
| "level_name High = ascii ''High''"
| "level_name Low = ascii ''Low''"
| "level_name LowLow = ascii ''LowLow''"

definition limit_message :: "LimitLevel \<Rightarrow> bytes" where
  "limit_message level = level_name level @ ascii '' limit exceeded''"

fun join :: "bytes \<Rightarrow> bytes list \<Rightarrow> bytes" where
  "join sep [] = []"
| "join sep [x] = x"
| "join sep (x # y # xs) = x @ sep @ join sep (y # xs)"

definition active_set_message :: "LimitLevel list \<Rightarrow> bytes" where
  "active_set_message levels =
     (let names = join (ascii '', '') (map level_name levels)
      in if length levels = 1 then names @ ascii '' limit exceeded'' else names @ ascii '' limits exceeded'')"

text \<open>The levels that are on, in the order of the loop, and the greatest of their severities.\<close>

definition active_levels :: "NonExclusiveState \<Rightarrow> LimitLevel list" where
  "active_levels s =
     map snd (filter fst [(on_high_high s, HighHigh), (on_high s, High), (on_low s, Low), (on_low_low s, LowLow)])"

definition max_severity :: "LimitConfig \<Rightarrow> LimitLevel list \<Rightarrow> u16" where
  "max_severity cfg levels =
     fold (\<lambda>level sev. case limit_def cfg level of Some l \<Rightarrow> max sev (limit_severity l) | None \<Rightarrow> sev) levels 0"

fun outcome_for_existing_state :: "ActiveLimits \<Rightarrow> LimitConfig \<Rightarrow> LimitOutcome" where
  "outcome_for_existing_state (Exclusive level) cfg =
     \<lparr>outcome_limits = Exclusive level, outcome_active = (level \<noteq> None),
      outcome_severity = (case Option.bind level (limit_def cfg) of Some l \<Rightarrow> limit_severity l | None \<Rightarrow> 0),
      outcome_message = (case level of Some l \<Rightarrow> limit_message l | None \<Rightarrow> ascii ''Normal'')\<rparr>"
| "outcome_for_existing_state (NonExclusive s) cfg =
     \<lparr>outcome_limits = NonExclusive s, outcome_active = (active_levels s \<noteq> []),
      outcome_severity = max_severity cfg (active_levels s),
      outcome_message = (if active_levels s \<noteq> [] then active_set_message (active_levels s)
                         else ascii ''Normal'')\<rparr>"

definition high_exceeded :: "f64 \<Rightarrow> LimitDef \<Rightarrow> bool \<Rightarrow> bool" where
  "high_exceeded v limit was_exceeded \<longleftrightarrow>
     f64_lt (limit_value limit) v
     \<or> f64_lt f64_zero (limit_deadband limit) \<and> was_exceeded
       \<and> f64_le (f64_sub (limit_value limit) (limit_deadband limit)) v"

definition low_exceeded :: "f64 \<Rightarrow> LimitDef \<Rightarrow> bool \<Rightarrow> bool" where
  "low_exceeded v limit was_exceeded \<longleftrightarrow>
     f64_lt v (limit_value limit)
     \<or> f64_lt f64_zero (limit_deadband limit) \<and> was_exceeded
       \<and> f64_le v (f64_add (limit_value limit) (limit_deadband limit))"

definition exceeded_or_off :: "(LimitDef \<Rightarrow> bool) \<Rightarrow> LimitDef option \<Rightarrow> bool" where
  "exceeded_or_off p l = (case l of Some d \<Rightarrow> p d | None \<Rightarrow> False)"

definition evaluate_exclusive :: "f64 \<Rightarrow> LimitConfig \<Rightarrow> ActiveLimits \<Rightarrow> LimitOutcome" where
  "evaluate_exclusive v cfg prev =
     (let previous = (case prev of Exclusive level \<Rightarrow> level | NonExclusive _ \<Rightarrow> None);
          hh = exceeded_or_off (\<lambda>l. high_exceeded v l (previous = Some HighHigh)) (high_high cfg);
          h = exceeded_or_off (\<lambda>l. high_exceeded v l (previous = Some High)) (high cfg);
          l = exceeded_or_off (\<lambda>l. low_exceeded v l (previous = Some Low)) (low cfg);
          ll = exceeded_or_off (\<lambda>l. low_exceeded v l (previous = Some LowLow)) (low_low cfg);
          level = (if hh then Some HighHigh else if h then Some High else if ll then Some LowLow
                   else if l then Some Low else None)
      in outcome_for_existing_state (Exclusive level) cfg)"

definition evaluate_non_exclusive :: "f64 \<Rightarrow> LimitConfig \<Rightarrow> ActiveLimits \<Rightarrow> LimitOutcome" where
  "evaluate_non_exclusive v cfg prev =
     (let previous = (case prev of NonExclusive s \<Rightarrow> s | Exclusive _ \<Rightarrow> NonExclusiveState_default);
          s = \<lparr>on_high_high = exceeded_or_off (\<lambda>l. high_exceeded v l (on_high_high previous)) (high_high cfg),
               on_high = exceeded_or_off (\<lambda>l. high_exceeded v l (on_high previous)) (high cfg),
               on_low = exceeded_or_off (\<lambda>l. low_exceeded v l (on_low previous)) (low cfg),
               on_low_low = exceeded_or_off (\<lambda>l. low_exceeded v l (on_low_low previous)) (low_low cfg)\<rparr>
      in outcome_for_existing_state (NonExclusive s) cfg)"

fun inactive_limits_for_mode :: "LimitMode \<Rightarrow> ActiveLimits" where
  "inactive_limits_for_mode ModeExclusive = Exclusive None"
| "inactive_limits_for_mode ModeNonExclusive = NonExclusive NonExclusiveState_default"

fun previous_for_mode :: "LimitMode \<Rightarrow> ActiveLimits \<Rightarrow> ActiveLimits" where
  "previous_for_mode ModeExclusive (Exclusive level) = Exclusive level"
| "previous_for_mode ModeExclusive (NonExclusive _) = Exclusive None"
| "previous_for_mode ModeNonExclusive (NonExclusive s) = NonExclusive s"
| "previous_for_mode ModeNonExclusive (Exclusive _) = NonExclusive NonExclusiveState_default"

definition evaluate :: "f64 \<Rightarrow> LimitConfig \<Rightarrow> ActiveLimits \<Rightarrow> LimitOutcome" where
  "evaluate v cfg prev =
     (if \<not> is_finite v then outcome_for_existing_state (previous_for_mode (limit_mode cfg) prev) cfg
      else case limit_mode cfg of
        ModeExclusive \<Rightarrow> evaluate_exclusive v cfg prev
      | ModeNonExclusive \<Rightarrow> evaluate_non_exclusive v cfg prev)"

section \<open>Limit alarms (\<open>limit.rs\<close>)\<close>

text \<open>Besides the condition: the state variables of the limits in the address space (of the
  exclusive state machine, and the flag of each configured level with its transition time), the
  evaluator's memory and the delays. A constructor is used with its own mode.\<close>

record LimitAlarm =
  limit_condition :: ConditionStateMachine
  limit_config :: LimitConfig
  limit_type :: NodeId
  limit_current_state :: LocalizedText
  limit_current_state_id :: NodeId
  limit_current_state_time :: DateTime
  level_vars :: "LimitLevel \<Rightarrow> (bool \<times> DateTime) option"
  prev_limits :: ActiveLimits
  on_delay_ms :: f64
  off_delay_ms :: f64
  re_alarm_ms :: f64

definition create_limit_alarm ::
    "ConditionStateMachine \<Rightarrow> LimitConfig \<Rightarrow> NodeId \<Rightarrow> DateTime \<Rightarrow> LimitAlarm" where
  "create_limit_alarm c cfg type_id now =
     \<lparr>limit_condition = c, limit_config = cfg, limit_type = type_id,
      limit_current_state = LocalizedText_null, limit_current_state_id = NodeId_null,
      limit_current_state_time = now,
      level_vars = (\<lambda>level. if limit_mode cfg = ModeNonExclusive \<and> limit_def cfg level \<noteq> None
                            then Some (False, now) else None),
      prev_limits = inactive_limits_for_mode (limit_mode cfg),
      on_delay_ms = f64_zero, off_delay_ms = f64_zero, re_alarm_ms = f64_zero\<rparr>"

definition with_delays :: "f64 \<Rightarrow> f64 \<Rightarrow> LimitAlarm \<Rightarrow> LimitAlarm" where
  "with_delays on off a = a\<lparr>on_delay_ms := on, off_delay_ms := off\<rparr>"

definition with_re_alarm :: "f64 \<Rightarrow> LimitAlarm \<Rightarrow> LimitAlarm" where
  "with_re_alarm ms a = a\<lparr>re_alarm_ms := ms\<rparr>"

fun exclusive_state_id :: "LimitLevel \<Rightarrow> NodeId" where
  "exclusive_state_id HighHigh = NodeId_new 0 (Id_Numeric 9329)"
| "exclusive_state_id High = NodeId_new 0 (Id_Numeric 9331)"
| "exclusive_state_id Low = NodeId_new 0 (Id_Numeric 9333)"
| "exclusive_state_id LowLow = NodeId_new 0 (Id_Numeric 9335)"

definition write_exclusive_limit_state ::
    "DateTime \<Rightarrow> ActiveLimits \<Rightarrow> ActiveLimits \<Rightarrow> LimitAlarm \<Rightarrow> LimitAlarm" where
  "write_exclusive_limit_state clock previous limits a =
     (let level = (case limits of Exclusive l \<Rightarrow> l | NonExclusive _ \<Rightarrow> None);
          prev_level = (case previous of Exclusive l \<Rightarrow> l | NonExclusive _ \<Rightarrow> None);
          (t, i) = (case level of
              None \<Rightarrow> (LocalizedText_null, NodeId_null)
            | Some l \<Rightarrow> (LocalizedText_new ''en'' (level_name l), exclusive_state_id l));
          a = a\<lparr>limit_current_state := t, limit_current_state_id := i\<rparr>
      in if level \<noteq> prev_level then a\<lparr>limit_current_state_time := clock\<rparr> else a)"

definition write_non_exclusive_level ::
    "DateTime \<Rightarrow> LimitLevel \<Rightarrow> bool \<Rightarrow> bool \<Rightarrow> LimitAlarm \<Rightarrow> LimitAlarm" where
  "write_non_exclusive_level clock level active previous_active a =
     (case level_vars a level of
        None \<Rightarrow> a
      | Some (_, t) \<Rightarrow>
          a\<lparr>level_vars := (level_vars a)(level \<mapsto> (active, if active \<noteq> previous_active then clock else t))\<rparr>)"

definition write_non_exclusive_limit_state ::
    "DateTime \<Rightarrow> ActiveLimits \<Rightarrow> ActiveLimits \<Rightarrow> LimitAlarm \<Rightarrow> LimitAlarm" where
  "write_non_exclusive_limit_state clock previous limits a =
     (let s = (case limits of NonExclusive s \<Rightarrow> s | Exclusive _ \<Rightarrow> NonExclusiveState_default);
          p = (case previous of NonExclusive s \<Rightarrow> s | Exclusive _ \<Rightarrow> NonExclusiveState_default);
          a = write_non_exclusive_level clock HighHigh (on_high_high s) (on_high_high p) a;
          a = write_non_exclusive_level clock High (on_high s) (on_high p) a;
          a = write_non_exclusive_level clock Low (on_low s) (on_low p) a
      in write_non_exclusive_level clock LowLow (on_low_low s) (on_low_low p) a)"

definition write_limit_state :: "DateTime \<Rightarrow> ActiveLimits \<Rightarrow> ActiveLimits \<Rightarrow> LimitAlarm \<Rightarrow> LimitAlarm" where
  "write_limit_state clock previous limits a =
     (case limit_mode (limit_config a) of
        ModeExclusive \<Rightarrow> write_exclusive_limit_state clock previous limits a
      | ModeNonExclusive \<Rightarrow> write_non_exclusive_limit_state clock previous limits a)"

text \<open>The end of \<open>update_value_at\<close>, once the active state to report is known.\<close>

definition report_limit_change ::
    "DateTime \<Rightarrow> FreshIds \<Rightarrow> LimitOutcome \<Rightarrow> bool \<Rightarrow> bool \<Rightarrow> bool \<Rightarrow> bool \<Rightarrow> LimitAlarm
      \<Rightarrow> AlarmEvent option \<times> LimitAlarm" where
  "report_limit_change clock fresh outcome was_active was_acked reported_active re_alarmed a =
     (let msg = LocalizedText_new ''en'' (outcome_message outcome);
          c = limit_condition a;
          c = (if was_active \<and> \<not> was_acked \<and> \<not> reported_active
               then create_branch (fresh_branch fresh) (fresh_branch_event fresh) c else c);
          c = set_severity (outcome_severity outcome) c;
          c = set_message msg c;
          c = (if reported_active \<and> \<not> re_alarmed
               then set_confirmed clock False (set_acked clock False c) else c);
          acked = acked_state c;
          conf = confirmed_state c;
          retain = (reported_active \<or> \<not> acked \<or> \<not> conf);
          c = set_retain retain c;
          c = set_current_event_id (fresh_event fresh) c
      in (Some (condition_event (limit_type a) clock (fresh_event fresh) msg (outcome_severity outcome)
                  reported_active acked conf retain c),
          a\<lparr>limit_condition := c\<rparr>))"

text \<open>The middle: the delays gate a change of the active state, and without any change the alarm
  may be due again.\<close>

definition commit_limit_change ::
    "DateTime \<Rightarrow> FreshIds \<Rightarrow> DateTime \<Rightarrow> LimitOutcome \<Rightarrow> bool \<Rightarrow> LimitAlarm \<Rightarrow> AlarmEvent option \<times> LimitAlarm" where
  "commit_limit_change clock fresh now outcome nothing_changed a =
     (let was_active = active_state (limit_condition a);
          was_acked = acked_state (limit_condition a)
      in if outcome_active outcome \<noteq> was_active then
           (case gate_active clock (outcome_active outcome) now (on_delay_ms a) (off_delay_ms a)
                   (limit_condition a) of
              (None, c) \<Rightarrow> (None, a\<lparr>limit_condition := c\<rparr>)
            | (Some active, c) \<Rightarrow>
                report_limit_change clock fresh outcome was_active was_acked active False
                  (a\<lparr>limit_condition := reset_re_alarm active now c\<rparr>))
         else if nothing_changed then
           (case maybe_re_alarm clock now (re_alarm_ms a) (limit_condition a) of
              (False, c) \<Rightarrow> (None, a\<lparr>limit_condition := c\<rparr>)
            | (True, c) \<Rightarrow>
                report_limit_change clock fresh outcome was_active was_acked was_active True
                  (a\<lparr>limit_condition := c\<rparr>))
         else report_limit_change clock fresh outcome was_active was_acked was_active False a)"

definition update_value_at ::
    "DateTime \<Rightarrow> FreshIds \<Rightarrow> f64 \<Rightarrow> DateTime \<Rightarrow> LimitAlarm \<Rightarrow> AlarmEvent option \<times> LimitAlarm" where
  "update_value_at clock fresh v now a =
     (if \<not> enabled_state (limit_condition a) then (None, a)
      else
        let previous = prev_limits a;
            outcome = evaluate v (limit_config a) previous;
            a = a\<lparr>prev_limits := outcome_limits outcome\<rparr>;
            was_active = active_state (limit_condition a);
            nothing_changed = (previous = outcome_limits outcome \<and> outcome_active outcome = was_active);
            re_alarm_possible = (f64_lt f64_zero (re_alarm_ms a) \<and> was_active)
        in if nothing_changed \<and> \<not> re_alarm_possible then (None, a)
           else commit_limit_change clock fresh now outcome nothing_changed
                  (if previous \<noteq> outcome_limits outcome
                   then write_limit_state clock previous (outcome_limits outcome) a else a))"

text \<open>\<open>update_value\<close> takes the clock for the time of the sample.\<close>

definition update_value :: "DateTime \<Rightarrow> FreshIds \<Rightarrow> f64 \<Rightarrow> LimitAlarm \<Rightarrow> AlarmEvent option \<times> LimitAlarm" where
  "update_value clock fresh v a = update_value_at clock fresh v clock a"

section \<open>Deviation and rate of change (\<open>deviation.rs\<close>, \<open>rate_of_change.rs\<close>)\<close>

record DeviationAlarm =
  deviation_limit :: LimitAlarm
  deviation_process :: f64
  deviation_setpoint :: f64

definition deviation_from_limit :: "LimitAlarm \<Rightarrow> DeviationAlarm" where
  "deviation_from_limit l =
     \<lparr>deviation_limit = l, deviation_process = f64_zero, deviation_setpoint = f64_zero\<rparr>"

definition deviation_recompute ::
    "DateTime \<Rightarrow> FreshIds \<Rightarrow> DeviationAlarm \<Rightarrow> AlarmEvent option \<times> DeviationAlarm" where
  "deviation_recompute clock fresh a =
     (let deviation = f64_sub (deviation_process a) (deviation_setpoint a);
          (ev, l) = update_value clock fresh deviation (deviation_limit a)
      in (ev, a\<lparr>deviation_limit := l\<rparr>))"

definition deviation_update_process ::
    "DateTime \<Rightarrow> FreshIds \<Rightarrow> f64 \<Rightarrow> DeviationAlarm \<Rightarrow> AlarmEvent option \<times> DeviationAlarm" where
  "deviation_update_process clock fresh v a = deviation_recompute clock fresh (a\<lparr>deviation_process := v\<rparr>)"

definition deviation_update_setpoint ::
    "DateTime \<Rightarrow> FreshIds \<Rightarrow> f64 \<Rightarrow> DeviationAlarm \<Rightarrow> AlarmEvent option \<times> DeviationAlarm" where
  "deviation_update_setpoint clock fresh v a = deviation_recompute clock fresh (a\<lparr>deviation_setpoint := v\<rparr>)"

record RateOfChangeAlarm =
  rate_limit :: LimitAlarm
  prev_sample :: "(f64 \<times> DateTime) option"

definition rate_from_limit :: "LimitAlarm \<Rightarrow> RateOfChangeAlarm" where
  "rate_from_limit l = \<lparr>rate_limit = l, prev_sample = None\<rparr>"

definition sample_rate :: "(f64 \<times> DateTime) option \<Rightarrow> f64 \<Rightarrow> DateTime \<Rightarrow> f64" where
  "sample_rate prev v now =
     (case prev of None \<Rightarrow> f64_zero
      | Some (prev_value, prev_time) \<Rightarrow>
          let dt_seconds = f64_div (f64_of_int (now - prev_time)) (f64_of_int 10000000)
          in if f64_lt f64_zero dt_seconds then f64_div (f64_sub v prev_value) dt_seconds else f64_zero)"

definition rate_update_value ::
    "DateTime \<Rightarrow> FreshIds \<Rightarrow> f64 \<Rightarrow> DateTime \<Rightarrow> RateOfChangeAlarm \<Rightarrow> AlarmEvent option \<times> RateOfChangeAlarm" where
  "rate_update_value clock fresh v now a =
     (let rate = sample_rate (prev_sample a) v now;
          (ev, l) = update_value clock fresh rate (rate_limit a)
      in (ev, a\<lparr>prev_sample := Some (v, now), rate_limit := l\<rparr>))"

section \<open>Discrete, discrepancy and certificate alarms\<close>

text \<open>
  The three kinds end alike, with the same statements in each file: a branch for a
  deactivation nobody acknowledged, the new values of the condition, and the event.
\<close>

definition report_active_change ::
    "NodeId \<Rightarrow> DateTime \<Rightarrow> FreshIds \<Rightarrow> bool \<Rightarrow> u16 \<Rightarrow> bytes \<Rightarrow> ConditionStateMachine
      \<Rightarrow> AlarmEvent \<times> ConditionStateMachine" where
  "report_active_change type_id clock fresh active sev t c =
     (let msg = LocalizedText_new ''en'' t;
          was_active = active_state c;
          was_acked = acked_state c;
          c = (if was_active \<and> \<not> was_acked \<and> \<not> active
               then create_branch (fresh_branch fresh) (fresh_branch_event fresh) c else c);
          c = set_active clock active c;
          c = set_severity sev c;
          c = set_message msg c;
          c = (if active then set_confirmed clock False (set_acked clock False c) else c);
          acked = acked_state c;
          conf = confirmed_state c;
          retain = (active \<or> \<not> acked \<or> \<not> conf);
          c = set_retain retain c;
          c = set_current_event_id (fresh_event fresh) c
      in (condition_event type_id clock (fresh_event fresh) msg sev active acked conf retain c, c))"

definition ACTIVE_SEVERITY :: u16 where "ACTIVE_SEVERITY = 500"
definition INACTIVE_SEVERITY :: u16 where "INACTIVE_SEVERITY = 0"

text \<open>The values of a discrete alarm are variants; their comparison is an argument.\<close>

record 'v DiscreteAlarm =
  discrete_condition :: ConditionStateMachine
  discrete_normal :: 'v
  discrete_type :: NodeId
  discrete_prev_active :: bool

definition create_discrete_alarm :: "ConditionStateMachine \<Rightarrow> NodeId \<Rightarrow> 'v \<Rightarrow> 'v DiscreteAlarm" where
  "create_discrete_alarm c type_id normal =
     \<lparr>discrete_condition = c, discrete_normal = normal, discrete_type = type_id,
      discrete_prev_active = False\<rparr>"

definition discrete_update_value ::
    "('v \<Rightarrow> 'v \<Rightarrow> bool) \<Rightarrow> DateTime \<Rightarrow> FreshIds \<Rightarrow> 'v \<Rightarrow> 'v DiscreteAlarm
      \<Rightarrow> AlarmEvent option \<times> 'v DiscreteAlarm" where
  "discrete_update_value eq clock fresh v a =
     (if \<not> enabled_state (discrete_condition a) then (None, a)
      else
        let active = (\<not> eq v (discrete_normal a))
        in if active = discrete_prev_active a then (None, a)
           else
             let a = a\<lparr>discrete_prev_active := active\<rparr>;
                 (ev, c) = report_active_change (discrete_type a) clock fresh active
                   (if active then ACTIVE_SEVERITY else INACTIVE_SEVERITY)
                   (if active then ascii ''Off-normal state'' else ascii ''Normal'')
                   (discrete_condition a)
             in (Some ev, a\<lparr>discrete_condition := c\<rparr>))"

fun f64_abs :: "f64 \<Rightarrow> f64" where
  "f64_abs F_NaN = F_NaN"
| "f64_abs (F_Inf _) = F_Inf False"
| "f64_abs (F_Fin _ m) = F_Fin False m"

record DiscrepancyAlarm =
  discrepancy_condition :: ConditionStateMachine
  expected_time_ms :: f64
  tolerance :: f64
  process_value :: f64
  target_value :: f64
  discrepancy_since :: "DateTime option"
  discrepancy_prev_active :: bool

definition create_discrepancy_alarm :: "ConditionStateMachine \<Rightarrow> f64 \<Rightarrow> f64 \<Rightarrow> DiscrepancyAlarm" where
  "create_discrepancy_alarm c expected tol =
     \<lparr>discrepancy_condition = c, expected_time_ms = expected, tolerance = tol,
      process_value = f64_zero, target_value = f64_zero, discrepancy_since = None,
      discrepancy_prev_active = False\<rparr>"

definition DiscrepancyAlarmType :: NodeId where
  "DiscrepancyAlarmType = NodeId_new 0 (Id_Numeric 17080)"

definition discrepancy_recompute ::
    "DateTime \<Rightarrow> FreshIds \<Rightarrow> DateTime \<Rightarrow> DiscrepancyAlarm \<Rightarrow> AlarmEvent option \<times> DiscrepancyAlarm" where
  "discrepancy_recompute clock fresh now a =
     (if \<not> enabled_state (discrepancy_condition a) then (None, a)
      else
        let within_tolerance = f64_le (f64_abs (f64_sub (process_value a) (target_value a))) (tolerance a);
            (should_be_active, a) =
              (if within_tolerance then (False, a\<lparr>discrepancy_since := None\<rparr>)
               else
                 let started = (case discrepancy_since a of Some t \<Rightarrow> t | None \<Rightarrow> now)
                 in (f64_le (expected_time_ms a) (elapsed_ms started now),
                     a\<lparr>discrepancy_since := Some started\<rparr>))
        in if should_be_active = discrepancy_prev_active a then (None, a)
           else
             let a = a\<lparr>discrepancy_prev_active := should_be_active\<rparr>;
                 (ev, c) = report_active_change DiscrepancyAlarmType clock fresh should_be_active
                   (if should_be_active then ACTIVE_SEVERITY else INACTIVE_SEVERITY)
                   (if should_be_active then ascii ''Value has not reached target within the expected time''
                    else ascii ''Value at target'')
                   (discrepancy_condition a)
             in (Some ev, a\<lparr>discrepancy_condition := c\<rparr>))"

definition discrepancy_update_process ::
    "DateTime \<Rightarrow> FreshIds \<Rightarrow> f64 \<Rightarrow> DateTime \<Rightarrow> DiscrepancyAlarm \<Rightarrow> AlarmEvent option \<times> DiscrepancyAlarm" where
  "discrepancy_update_process clock fresh v now a =
     discrepancy_recompute clock fresh now (a\<lparr>process_value := v\<rparr>)"

definition discrepancy_update_target ::
    "DateTime \<Rightarrow> FreshIds \<Rightarrow> f64 \<Rightarrow> DateTime \<Rightarrow> DiscrepancyAlarm \<Rightarrow> AlarmEvent option \<times> DiscrepancyAlarm" where
  "discrepancy_update_target clock fresh v now a =
     discrepancy_recompute clock fresh now (a\<lparr>target_value := v\<rparr>)"

record CertificateExpirationAlarm =
  certificate_condition :: ConditionStateMachine
  expiration_date :: DateTime
  expiration_limit :: f64
  certificate_prev_active :: bool

definition create_certificate_alarm ::
    "ConditionStateMachine \<Rightarrow> DateTime \<Rightarrow> f64 \<Rightarrow> CertificateExpirationAlarm" where
  "create_certificate_alarm c date lim =
     \<lparr>certificate_condition = c, expiration_date = date, expiration_limit = lim,
      certificate_prev_active = False\<rparr>"

definition set_expiration_date :: "DateTime \<Rightarrow> CertificateExpirationAlarm \<Rightarrow> CertificateExpirationAlarm" where
  "set_expiration_date date a = a\<lparr>expiration_date := date\<rparr>"

definition CertificateExpirationAlarmType :: NodeId where
  "CertificateExpirationAlarmType = NodeId_new 0 (Id_Numeric 13225)"

definition certificate_evaluate ::
    "DateTime \<Rightarrow> FreshIds \<Rightarrow> DateTime \<Rightarrow> CertificateExpirationAlarm
      \<Rightarrow> AlarmEvent option \<times> CertificateExpirationAlarm" where
  "certificate_evaluate clock fresh now a =
     (if \<not> enabled_state (certificate_condition a) then (None, a)
      else
        let remaining_ms = elapsed_ms now (expiration_date a);
            active = f64_le remaining_ms (expiration_limit a)
        in if active = certificate_prev_active a then (None, a)
           else
             let a = a\<lparr>certificate_prev_active := active\<rparr>;
                 (ev, c) = report_active_change CertificateExpirationAlarmType clock fresh active
                   (if active then 600 else INACTIVE_SEVERITY)
                   (if active then ascii ''Certificate is within its expiration limit''
                    else ascii ''Certificate expiration normal'')
                   (certificate_condition a)
             in (Some ev, a\<lparr>certificate_condition := c\<rparr>))"

section \<open>Dialogs (\<open>dialog.rs\<close>)\<close>

record DialogCondition =
  dialog_condition :: ConditionStateMachine
  dialog_active :: bool
  dialog_state :: LocalizedText
  last_response :: i32
  prompt :: LocalizedText
  response_options :: "LocalizedText list"

definition DialogConditionType :: NodeId where
  "DialogConditionType = NodeId_new 0 (Id_Numeric 2830)"

definition dialog_state_text :: "bool \<Rightarrow> LocalizedText" where
  "dialog_state_text active = LocalizedText_new ''en'' (if active then ascii ''Active'' else ascii ''Inactive'')"

definition set_dialog_state_active :: "bool \<Rightarrow> DialogCondition \<Rightarrow> DialogCondition" where
  "set_dialog_state_active active d = d\<lparr>dialog_state := dialog_state_text active, dialog_active := active\<rparr>"

definition create_dialog ::
    "DateTime \<Rightarrow> LocalizedText \<Rightarrow> LocalizedText list \<Rightarrow> i32 \<Rightarrow> ConditionStateMachine \<Rightarrow> DialogCondition" where
  "create_dialog clock p opts default_response c =
     (let c = set_active clock False c;
          c = set_acked clock True c;
          c = set_confirmed clock True c;
          c = set_retain False c;
          c = set_severity 0 c;
          c = set_message p c
      in \<lparr>dialog_condition = c, dialog_active = False, dialog_state = dialog_state_text False,
          last_response = default_response, prompt = p, response_options = opts\<rparr>)"

text \<open>\<open>build_event\<close>, and the values \<open>activate\<close> and \<open>complete_response\<close> give the condition.\<close>

definition dialog_condition_values ::
    "DateTime \<Rightarrow> bool \<Rightarrow> u16 \<Rightarrow> LocalizedText \<Rightarrow> bytes \<Rightarrow> ConditionStateMachine \<Rightarrow> ConditionStateMachine" where
  "dialog_condition_values clock active sev msg fresh c =
     set_current_event_id fresh (set_message msg (set_severity sev (set_retain active
       (set_confirmed clock True (set_acked clock True (set_active clock active c))))))"

definition dialog_event :: "DateTime \<Rightarrow> bytes \<Rightarrow> LocalizedText \<Rightarrow> bool \<Rightarrow> bool \<Rightarrow> DialogCondition \<Rightarrow> AlarmEvent" where
  "dialog_event clock eid msg active retain d =
     condition_event DialogConditionType clock eid msg (condition_severity (dialog_condition d))
       active True True retain (dialog_condition d)"

definition dialog_activate :: "DateTime \<Rightarrow> bytes \<Rightarrow> DialogCondition \<Rightarrow> AlarmEvent \<times> DialogCondition" where
  "dialog_activate clock fresh d =
     (let d = set_dialog_state_active True d;
          d = d\<lparr>dialog_condition := dialog_condition_values clock True 100 (prompt d) fresh (dialog_condition d)\<rparr>
      in (dialog_event clock fresh (prompt d) True True d, d))"

definition validate_response :: "DialogCondition \<Rightarrow> i32 \<Rightarrow> StatusCode + nat" where
  "validate_response d selected =
     (if \<not> dialog_active d then Inl BadDialogNotActive
      else if sint selected < 0 then Inl BadDialogResponseInvalid
      else if length (response_options d) \<le> nat (sint selected) then Inl BadDialogResponseInvalid
      else Inr (nat (sint selected)))"

definition complete_response ::
    "DateTime \<Rightarrow> bytes \<Rightarrow> i32 \<Rightarrow> LocalizedText \<Rightarrow> DialogCondition \<Rightarrow> AlarmEvent \<times> DialogCondition" where
  "complete_response clock fresh selected msg d =
     (let d = set_dialog_state_active False (d\<lparr>last_response := selected\<rparr>);
          d = d\<lparr>dialog_condition := dialog_condition_values clock False 0 msg fresh (dialog_condition d)\<rparr>
      in (dialog_event clock fresh msg False False d, d))"

definition respond ::
    "DateTime \<Rightarrow> bytes \<Rightarrow> i32 \<Rightarrow> DialogCondition \<Rightarrow> (StatusCode + AlarmEvent) \<times> DialogCondition" where
  "respond clock fresh selected d =
     (case validate_response d selected of Inl e \<Rightarrow> (Inl e, d)
      | Inr i \<Rightarrow> (let (ev, d) = complete_response clock fresh selected (response_options d ! i) d in (Inr ev, d)))"

definition respond2 ::
    "DateTime \<Rightarrow> bytes \<Rightarrow> i32 \<Rightarrow> LocalizedText \<Rightarrow> DialogCondition \<Rightarrow> (StatusCode + AlarmEvent) \<times> DialogCondition" where
  "respond2 clock fresh selected comment d =
     (case validate_response d selected of Inl e \<Rightarrow> (Inl e, d)
      | Inr _ \<Rightarrow> (let (ev, d) = complete_response clock fresh selected comment d in (Inr ev, d)))"

section \<open>Every kind reports its condition\<close>

text \<open>What a report needs of the condition it starts from.\<close>

definition condition_core :: "ConditionStateMachine \<Rightarrow> bool" where
  "condition_core c \<longleftrightarrow> derived_ok c \<and> (confirmed_state c \<longrightarrow> acked_state c) \<and> list_all branch_ok (branches c)"

lemma condition_ok_core: "condition_ok c \<Longrightarrow> condition_core c"
  by (simp add: condition_ok_def condition_core_def)

lemma condition_core_setters:
  assumes "condition_core c"
  shows "condition_core (set_active now b c)" and "condition_core (set_severity n c)"
    and "condition_core (set_message t c)" and "condition_core (set_retain b c)"
    and "condition_core (set_current_event_id eid c)"
    and "condition_core (set_confirmed now False (set_acked now False c))"
    and "condition_core (set_silenced now b c)"
    and "\<not> acked_state c \<Longrightarrow> condition_core (create_branch bid eid c)"
  using assms setters_keep_derived [of c]
  by (auto simp: condition_core_def setter_defs derived_ok_def create_branch_def branch_ok_def)

text \<open>The last statements of every report.\<close>

lemma report_final_ok:
  assumes "condition_core c"
  shows "condition_ok (set_current_event_id eid (set_retain (active_state c \<or> \<not> acked_state c \<or> \<not> confirmed_state c) c))"
  using condition_core_setters(5) [OF condition_core_setters(4) [OF assms]]
  by (simp add: condition_core_def condition_ok_def retain_ok_def needs_operator_def setter_defs)

lemma report_final_event:
  "event_describes (condition_event type_id now eid msg (condition_severity c) (active_state c) (acked_state c)
      (confirmed_state c) (active_state c \<or> \<not> acked_state c \<or> \<not> confirmed_state c)
      (set_current_event_id eid (set_retain (active_state c \<or> \<not> acked_state c \<or> \<not> confirmed_state c) c)))
    (set_current_event_id eid (set_retain (active_state c \<or> \<not> acked_state c \<or> \<not> confirmed_state c) c))"
  by (simp add: event_describes_def condition_event_def visible_def setter_defs)

lemma setters_values [simp]:
  "active_state (set_active now b c) = b" "acked_state (set_active now b c) = acked_state c"
  "confirmed_state (set_active now b c) = confirmed_state c"
  "condition_severity (set_active now b c) = condition_severity c"
  "active_state (set_severity n c) = active_state c" "acked_state (set_severity n c) = acked_state c"
  "confirmed_state (set_severity n c) = confirmed_state c" "condition_severity (set_severity n c) = n"
  "active_state (set_message t c) = active_state c" "acked_state (set_message t c) = acked_state c"
  "confirmed_state (set_message t c) = confirmed_state c"
  "condition_severity (set_message t c) = condition_severity c"
  "active_state (set_acked now b c) = active_state c" "acked_state (set_acked now b c) = b"
  "confirmed_state (set_acked now b c) = confirmed_state c"
  "condition_severity (set_acked now b c) = condition_severity c"
  "active_state (set_confirmed now b c) = active_state c" "acked_state (set_confirmed now b c) = acked_state c"
  "confirmed_state (set_confirmed now b c) = b"
  "condition_severity (set_confirmed now b c) = condition_severity c"
  "active_state (create_branch i e c) = active_state c" "acked_state (create_branch i e c) = acked_state c"
  "confirmed_state (create_branch i e c) = confirmed_state c"
  "condition_severity (create_branch i e c) = condition_severity c"
  by (simp_all add: setter_defs create_branch_def)

lemma report_active_change_reports:
  assumes "report_active_change type_id clock fresh active sev t c = (ev, c')" and "condition_core c"
  shows "condition_ok c'" and "event_describes ev c'"
proof -
  define b where "b = (if active_state c \<and> \<not> acked_state c \<and> \<not> active
    then create_branch (fresh_branch fresh) (fresh_branch_event fresh) c else c)"
  define d where "d = set_message (LocalizedText_new ''en'' t) (set_severity sev (set_active clock active b))"
  define e where "e = (if active then set_confirmed clock False (set_acked clock False d) else d)"
  have core: "condition_core e"
    using assms(2) by (simp add: e_def d_def b_def condition_core_setters)
  have vals: "active_state e = active" "condition_severity e = sev"
    by (simp_all add: e_def d_def)
  have "(ev, c') = (condition_event type_id clock (fresh_event fresh) (LocalizedText_new ''en'' t) (condition_severity e)
      (active_state e) (acked_state e) (confirmed_state e)
      (active_state e \<or> \<not> acked_state e \<or> \<not> confirmed_state e)
      (set_current_event_id (fresh_event fresh)
        (set_retain (active_state e \<or> \<not> acked_state e \<or> \<not> confirmed_state e) e)),
      set_current_event_id (fresh_event fresh)
        (set_retain (active_state e \<or> \<not> acked_state e \<or> \<not> confirmed_state e) e))"
    using assms(1) [symmetric]
    by (simp only: vals report_active_change_def Let_def b_def [symmetric] d_def [symmetric] e_def [symmetric])
  then show "condition_ok c'" and "event_describes ev c'"
    using report_final_ok [OF core] report_final_event by (simp_all only: prod.inject)
qed

lemma report_limit_change_reports:
  assumes "report_limit_change clock fresh outcome was_active was_acked active re_alarmed a = (ev, a')"
    and "condition_core (limit_condition a)" and "active_state (limit_condition a) = active"
    and "was_active \<Longrightarrow> \<not> was_acked \<Longrightarrow> \<not> active \<Longrightarrow> \<not> acked_state (limit_condition a)"
  shows "condition_ok (limit_condition a')" and "\<exists>e. ev = Some e \<and> event_describes e (limit_condition a')"
proof -
  define b where "b = (if was_active \<and> \<not> was_acked \<and> \<not> active
    then create_branch (fresh_branch fresh) (fresh_branch_event fresh) (limit_condition a) else limit_condition a)"
  define msg where "msg = LocalizedText_new ''en'' (outcome_message outcome)"
  define d where "d = set_message msg (set_severity (outcome_severity outcome) b)"
  define e where "e = (if active \<and> \<not> re_alarmed then set_confirmed clock False (set_acked clock False d) else d)"
  have core: "condition_core e"
    using assms(2,4) by (auto simp: e_def d_def b_def condition_core_setters)
  have vals: "active_state e = active" "condition_severity e = outcome_severity outcome"
    using assms(3) by (simp_all add: e_def d_def b_def)
  have "(ev, limit_condition a')
    = (Some (condition_event (limit_type a) clock (fresh_event fresh) msg (condition_severity e)
      (active_state e) (acked_state e) (confirmed_state e)
      (active_state e \<or> \<not> acked_state e \<or> \<not> confirmed_state e)
      (set_current_event_id (fresh_event fresh)
        (set_retain (active_state e \<or> \<not> acked_state e \<or> \<not> confirmed_state e) e))),
      set_current_event_id (fresh_event fresh)
        (set_retain (active_state e \<or> \<not> acked_state e \<or> \<not> confirmed_state e) e))"
    using assms(1) [symmetric]
    by (simp only: vals report_limit_change_def Let_def b_def [symmetric] msg_def [symmetric] d_def [symmetric]
        e_def [symmetric] prod.inject) simp
  then show "condition_ok (limit_condition a')" and "\<exists>e. ev = Some e \<and> event_describes e (limit_condition a')"
    using report_final_ok [OF core] report_final_event by (simp_all only: prod.inject) blast
qed

subsection \<open>Limit alarms\<close>

text \<open>Writing the limit states touches nothing else.\<close>

definition same_but_limit_states :: "LimitAlarm \<Rightarrow> LimitAlarm \<Rightarrow> bool" where
  "same_but_limit_states a b \<longleftrightarrow> limit_condition b = limit_condition a \<and> prev_limits b = prev_limits a
     \<and> limit_config b = limit_config a \<and> on_delay_ms b = on_delay_ms a
     \<and> off_delay_ms b = off_delay_ms a \<and> re_alarm_ms b = re_alarm_ms a"

lemma same_but_limit_states_trans:
  "same_but_limit_states a b \<Longrightarrow> same_but_limit_states b c \<Longrightarrow> same_but_limit_states a c"
  by (simp add: same_but_limit_states_def)

lemma write_level_same: "same_but_limit_states a (write_non_exclusive_level clock l b p a)"
  by (simp add: write_non_exclusive_level_def same_but_limit_states_def split: option.split)

lemma write_exclusive_same: "same_but_limit_states a (write_exclusive_limit_state clock p l a)"
  unfolding write_exclusive_limit_state_def Let_def split_beta
  by (simp add: same_but_limit_states_def)

lemma write_limit_state_same: "same_but_limit_states a (write_limit_state clock p l a)"
  unfolding write_limit_state_def write_non_exclusive_limit_state_def Let_def
  by (cases "limit_mode (limit_config a)")
     (simp_all add: write_exclusive_same, intro same_but_limit_states_trans [OF _ write_level_same] write_level_same)

lemmas write_limit_state_keeps [simp] =
  write_limit_state_same [unfolded same_but_limit_states_def, THEN conjunct1]
  write_limit_state_same [unfolded same_but_limit_states_def, THEN conjunct2, THEN conjunct1]
  write_limit_state_same [unfolded same_but_limit_states_def, THEN conjunct2, THEN conjunct2, THEN conjunct1]
  write_limit_state_same [unfolded same_but_limit_states_def, THEN conjunct2, THEN conjunct2, THEN conjunct2,
    THEN conjunct1]
  write_limit_state_same [unfolded same_but_limit_states_def, THEN conjunct2, THEN conjunct2, THEN conjunct2,
    THEN conjunct2, THEN conjunct1]
  write_limit_state_same [unfolded same_but_limit_states_def, THEN conjunct2, THEN conjunct2, THEN conjunct2,
    THEN conjunct2, THEN conjunct2]

lemma gate_active_result:
  assumes "gate_active clock desired now on off c = (r, c')" and "condition_ok c"
  shows "r = None \<Longrightarrow> condition_ok c' \<and> visible c' = visible c"
    and "r = Some b \<Longrightarrow> condition_core c' \<and> active_state c' = b \<and> acked_state c' = acked_state c"
proof -
  have keep: "condition_ok (c\<lparr>delay_gate := g\<rparr>)" for g
    using assms(2) by (simp add: condition_ok_def derived_ok_def retain_ok_def needs_operator_def untouched_def)
  show "condition_ok c' \<and> visible c' = visible c" if "r = None"
    using assms(1) that keep by (auto simp: gate_active_def Let_def visible_def split: if_splits prod.splits)
  show "condition_core c' \<and> active_state c' = b \<and> acked_state c' = acked_state c" if "r = Some b"
    using assms(1) that condition_core_setters(1) [OF condition_ok_core [OF keep]]
    by (auto simp: gate_active_def Let_def split: if_splits prod.splits)
qed

lemma reset_re_alarm_core:
  "condition_core (reset_re_alarm b now c) = condition_core c"
  "active_state (reset_re_alarm b now c) = active_state c" "acked_state (reset_re_alarm b now c) = acked_state c"
  by (simp_all add: reset_re_alarm_def condition_core_def derived_ok_def)

lemma maybe_re_alarm_result:
  assumes "maybe_re_alarm clock now ms c = (r, c')" and "condition_core c"
  shows "\<not> r \<Longrightarrow> c' = c" and "r \<Longrightarrow> condition_core c' \<and> active_state c' = active_state c"
proof -
  define d where "d = c\<lparr>last_alarm_time := Some now, re_alarm_repeat_count := saturating_inc (re_alarm_repeat_count c)\<rparr>"
  have "condition_core d"
    using assms(2) by (simp add: d_def condition_core_def derived_ok_def)
  then have "condition_core (set_silenced clock False (set_confirmed clock False (set_acked clock False d)))"
    by (intro condition_core_setters)
  then have "condition_core (write_time f (set_silenced clock False (set_confirmed clock False (set_acked clock False d))))" for f
    by (simp add: write_time_def condition_core_def derived_ok_def)
  then show "r \<Longrightarrow> condition_core c' \<and> active_state c' = active_state c"
    using assms(1)
    by (auto simp: maybe_re_alarm_def d_def setter_defs split: if_splits option.splits)
  show "\<not> r \<Longrightarrow> c' = c"
    using assms(1) by (auto simp: maybe_re_alarm_def split: if_splits option.splits)
qed

lemma condition_ok_active_retained:
  "condition_ok c \<Longrightarrow> active_state c \<Longrightarrow> condition_retain c"
  by (auto simp: condition_ok_def retain_ok_def untouched_def)

lemma commit_limit_change_reports:
  assumes "commit_limit_change clock fresh now outcome nothing_changed a = (ev, a')"
    and ok: "condition_ok (limit_condition a)"
  shows "reports_step (limit_condition a) ev (limit_condition a')"
proof -
  let ?c = "limit_condition a"
  have report: "reports_step ?c ev (limit_condition a')"
    if "report_limit_change clock fresh outcome (active_state ?c) (acked_state ?c) active re b = (ev, a')"
      and "condition_core (limit_condition b)" and "active_state (limit_condition b) = active"
      and "\<not> acked_state ?c \<Longrightarrow> \<not> active \<Longrightarrow> active_state ?c \<Longrightarrow> \<not> acked_state (limit_condition b)"
    for active re b
    using report_limit_change_reports [OF that(1)] that(2-4) by (auto simp: reports_step_def)
  consider "outcome_active outcome \<noteq> active_state ?c"
    | "outcome_active outcome = active_state ?c" "nothing_changed"
    | "outcome_active outcome = active_state ?c" "\<not> nothing_changed" by blast
  then show ?thesis
  proof cases
    case 1
    obtain r c where gate: "gate_active clock (outcome_active outcome) now (on_delay_ms a) (off_delay_ms a) ?c = (r, c)"
      by fastforce
    show ?thesis
    proof (cases r)
      case None
      with assms(1) 1 gate gate_active_result(1) [OF gate ok] show ?thesis
        by (auto simp: commit_limit_change_def reports_step_def)
    next
      case (Some b)
      have "report_limit_change clock fresh outcome (active_state ?c) (acked_state ?c) b False
          (a\<lparr>limit_condition := reset_re_alarm b now c\<rparr>) = (ev, a')"
        using assms(1) 1 gate Some by (simp add: commit_limit_change_def)
      then show ?thesis
        by (rule report) (use gate_active_result(2) [OF gate ok Some] in \<open>simp_all add: reset_re_alarm_core\<close>)
    qed
  next
    case 2
    obtain r c where re: "maybe_re_alarm clock now (re_alarm_ms a) ?c = (r, c)"
      by fastforce
    show ?thesis
    proof (cases r)
      case True
      have "report_limit_change clock fresh outcome (active_state ?c) (acked_state ?c) (active_state ?c) True
          (a\<lparr>limit_condition := c\<rparr>) = (ev, a')"
        using assms(1) 2 re True by (simp add: commit_limit_change_def Let_def)
      then show ?thesis
        by (rule report) (use maybe_re_alarm_result(2) [OF re condition_ok_core [OF ok] True] in simp_all)
    next
      case False
      with assms 2 re maybe_re_alarm_result(1) [OF re condition_ok_core [OF ok]] show ?thesis
        by (auto simp: commit_limit_change_def)
    qed
  next
    case 3
    then have "report_limit_change clock fresh outcome (active_state ?c) (acked_state ?c) (active_state ?c) False a
        = (ev, a')"
      using assms(1) by (simp add: commit_limit_change_def Let_def)
    then show ?thesis
      by (rule report) (use condition_ok_core [OF ok] in simp_all)
  qed
qed

lemma update_value_at_reports:
  assumes "update_value_at clock fresh v now a = (ev, a')" and "condition_ok (limit_condition a)"
  shows "reports_step (limit_condition a) ev (limit_condition a')"
proof -
  define outcome where "outcome = evaluate v (limit_config a) (prev_limits a)"
  define a2 where "a2 = a\<lparr>prev_limits := outcome_limits outcome\<rparr>"
  define b where "b = (if prev_limits a \<noteq> outcome_limits outcome
    then write_limit_state clock (prev_limits a) (outcome_limits outcome) a2 else a2)"
  have conditions: "limit_condition a2 = limit_condition a" "limit_condition b = limit_condition a"
    by (simp_all add: a2_def b_def)
  have cases: "(if P then (None, a) else if Q then (None, a2) else commit_limit_change clock fresh now outcome nc b)
      = (ev, a') \<Longrightarrow> ev = None \<and> a' = a \<or> ev = None \<and> a' = a2
        \<or> commit_limit_change clock fresh now outcome nc b = (ev, a')" for P Q nc
    by (simp split: if_split_asm)
  have "\<exists>nc. ev = None \<and> a' = a \<or> ev = None \<and> a' = a2
        \<or> commit_limit_change clock fresh now outcome nc b = (ev, a')"
    using assms(1) unfolding update_value_at_def Let_def
    unfolding outcome_def [symmetric] a2_def [symmetric] b_def [symmetric]
    by (intro exI) (rule cases)
  then consider "ev = None" "a' = a" | "ev = None" "a' = a2"
    | nc where "commit_limit_change clock fresh now outcome nc b = (ev, a')" by blast
  then show ?thesis
    using assms(2) commit_limit_change_reports [of clock fresh now outcome _ b ev a']
    by cases (simp_all add: conditions)
qed

subsection \<open>The contract\<close>

lemma deviation_recompute_reports:
  assumes "deviation_recompute clock fresh a = (ev, a')" and "condition_ok (limit_condition (deviation_limit a))"
  shows "reports_step (limit_condition (deviation_limit a)) ev (limit_condition (deviation_limit a'))"
proof -
  from assms(1) obtain l where "update_value clock fresh (f64_sub (deviation_process a) (deviation_setpoint a))
      (deviation_limit a) = (ev, l)" and "a' = a\<lparr>deviation_limit := l\<rparr>"
    by (auto simp: deviation_recompute_def Let_def split: prod.splits)
  with update_value_at_reports assms(2) show ?thesis
    by (simp add: update_value_def)
qed

lemma rate_update_reports:
  assumes "rate_update_value clock fresh v now a = (ev, a')" and "condition_ok (limit_condition (rate_limit a))"
  shows "reports_step (limit_condition (rate_limit a)) ev (limit_condition (rate_limit a'))"
proof -
  from assms(1) obtain l where "update_value clock fresh (sample_rate (prev_sample a) v now) (rate_limit a) = (ev, l)"
    and "a' = a\<lparr>prev_sample := Some (v, now), rate_limit := l\<rparr>"
    by (auto simp: rate_update_value_def Let_def split: prod.splits)
  with update_value_at_reports assms(2) show ?thesis
    by (simp add: update_value_def)
qed

lemma report_active_change_step:
  assumes "report_active_change type_id clock fresh active sev t c = (e, c')" and "condition_ok c"
  shows "reports_step c (Some e) c'"
  using report_active_change_reports [OF assms(1) condition_ok_core [OF assms(2)]]
  by (simp add: reports_step_def)

lemma discrete_update_reports:
  assumes "discrete_update_value eq clock fresh v a = (ev, a')" and "condition_ok (discrete_condition a)"
  shows "reports_step (discrete_condition a) ev (discrete_condition a')"
  using assms
  by (auto simp: discrete_update_value_def Let_def intro: report_active_change_step
      split: if_splits prod.splits)

lemma discrepancy_recompute_reports:
  assumes "discrepancy_recompute clock fresh now a = (ev, a')" and "condition_ok (discrepancy_condition a)"
  shows "reports_step (discrepancy_condition a) ev (discrepancy_condition a')"
  using assms
  by (auto simp: discrepancy_recompute_def Let_def intro: report_active_change_step
      split: if_split_asm prod.splits)

lemma certificate_evaluate_reports:
  assumes "certificate_evaluate clock fresh now a = (ev, a')" and "condition_ok (certificate_condition a)"
  shows "reports_step (certificate_condition a) ev (certificate_condition a')"
  using assms
  by (auto simp: certificate_evaluate_def Let_def intro: report_active_change_step
      split: if_split_asm prod.splits)

text \<open>The steps of each kind: the clock, the ids at hand, and the input.\<close>

fun limit_step :: "DateTime \<times> FreshIds \<times> f64 \<times> DateTime \<Rightarrow> LimitAlarm \<Rightarrow> AlarmEvent option \<times> LimitAlarm" where
  "limit_step (clock, fresh, v, now) a = update_value_at clock fresh v now a"

fun deviation_step :: "DateTime \<times> FreshIds \<times> (f64 + f64) \<Rightarrow> DeviationAlarm \<Rightarrow> AlarmEvent option \<times> DeviationAlarm" where
  "deviation_step (clock, fresh, Inl v) a = deviation_update_process clock fresh v a"
| "deviation_step (clock, fresh, Inr v) a = deviation_update_setpoint clock fresh v a"

fun rate_step :: "DateTime \<times> FreshIds \<times> f64 \<times> DateTime \<Rightarrow> RateOfChangeAlarm \<Rightarrow> AlarmEvent option \<times> RateOfChangeAlarm" where
  "rate_step (clock, fresh, v, now) a = rate_update_value clock fresh v now a"

fun discrete_step ::
    "('v \<Rightarrow> 'v \<Rightarrow> bool) \<Rightarrow> DateTime \<times> FreshIds \<times> 'v \<Rightarrow> 'v DiscreteAlarm \<Rightarrow> AlarmEvent option \<times> 'v DiscreteAlarm" where
  "discrete_step eq (clock, fresh, v) a = discrete_update_value eq clock fresh v a"

fun discrepancy_step ::
    "DateTime \<times> FreshIds \<times> (f64 + f64) \<times> DateTime \<Rightarrow> DiscrepancyAlarm \<Rightarrow> AlarmEvent option \<times> DiscrepancyAlarm" where
  "discrepancy_step (clock, fresh, Inl v, now) a = discrepancy_update_process clock fresh v now a"
| "discrepancy_step (clock, fresh, Inr v, now) a = discrepancy_update_target clock fresh v now a"

fun certificate_step ::
    "DateTime \<times> FreshIds \<times> (DateTime + DateTime) \<Rightarrow> CertificateExpirationAlarm
      \<Rightarrow> AlarmEvent option \<times> CertificateExpirationAlarm" where
  "certificate_step (clock, fresh, Inl now) a = certificate_evaluate clock fresh now a"
| "certificate_step (clock, fresh, Inr date) a = (None, set_expiration_date date a)"

datatype DialogInput = Activate | Respond i32 | Respond2 i32 LocalizedText

fun dialog_step :: "DateTime \<times> bytes \<times> DialogInput \<Rightarrow> DialogCondition \<Rightarrow> AlarmEvent option \<times> DialogCondition" where
  "dialog_step (clock, fresh, Activate) d = (let (ev, d) = dialog_activate clock fresh d in (Some ev, d))"
| "dialog_step (clock, fresh, Respond i) d =
     (case respond clock fresh i d of (Inl _, d) \<Rightarrow> (None, d) | (Inr ev, d) \<Rightarrow> (Some ev, d))"
| "dialog_step (clock, fresh, Respond2 i t) d =
     (case respond2 clock fresh i t d of (Inl _, d) \<Rightarrow> (None, d) | (Inr ev, d) \<Rightarrow> (Some ev, d))"

lemma dialog_values_ok:
  assumes "condition_ok c"
  shows "condition_ok (dialog_condition_values clock active sev msg fresh c)"
proof -
  have "derived_ok (dialog_condition_values clock active sev msg fresh c)"
    using assms unfolding dialog_condition_values_def
    by (intro setters_keep_derived) (simp add: condition_ok_def)
  moreover have "acked_state (dialog_condition_values clock active sev msg fresh c)"
    "confirmed_state (dialog_condition_values clock active sev msg fresh c)"
    "condition_retain (dialog_condition_values clock active sev msg fresh c) = active"
    "active_state (dialog_condition_values clock active sev msg fresh c) = active"
    "branches (dialog_condition_values clock active sev msg fresh c) = branches c"
    by (simp_all add: dialog_condition_values_def setter_defs)
  ultimately show ?thesis
    using assms by (simp add: condition_ok_def retain_ok_def needs_operator_def)
qed

lemma dialog_step_reports:
  assumes "dialog_step i d = (ev, d')" and "condition_ok (dialog_condition d)"
  shows "reports_step (dialog_condition d) ev (dialog_condition d')"
proof -
  have vals: "visible (dialog_condition_values clock active sev msg fresh c) = (active, True, True, active)" for clock active sev msg fresh c
    by (simp add: dialog_condition_values_def setter_defs visible_def)
  have activated: "reports_step (dialog_condition d) (Some e) (dialog_condition b)"
    if "dialog_activate clock fresh d = (e, b)" for clock fresh e b
    using that assms(2)
    by (auto simp: dialog_activate_def dialog_event_def Let_def reports_step_def dialog_values_ok vals
        event_describes_def condition_event_def set_dialog_state_active_def)
  have completed: "reports_step (dialog_condition d) (Some e) (dialog_condition b)"
    if "complete_response clock fresh i msg d = (e, b)" for clock fresh i msg e b
    using that assms(2)
    by (auto simp: complete_response_def dialog_event_def Let_def reports_step_def dialog_values_ok vals
        event_describes_def condition_event_def set_dialog_state_active_def)
  obtain clock fresh inp where "i = (clock, fresh, inp)" by (cases i)
  with assms show ?thesis
    by (cases inp)
       (auto simp: respond_def respond2_def intro: activated completed split: prod.splits sum.splits)
qed

interpretation limit: operated_alarm limit_condition limit_step "\<lambda>c a. a\<lparr>limit_condition := c\<rparr>"
  by (rule operated_alarmI) (auto intro: update_value_at_reports)

interpretation deviation: operated_alarm "\<lambda>a. limit_condition (deviation_limit a)" deviation_step
  "\<lambda>c a. a\<lparr>deviation_limit := (deviation_limit a)\<lparr>limit_condition := c\<rparr>\<rparr>"
proof (rule operated_alarmI)
  fix i a ev a'
  assume "deviation_step i a = (ev, a')" and "condition_ok (limit_condition (deviation_limit a))"
  then show "reports_step (limit_condition (deviation_limit a)) ev (limit_condition (deviation_limit a'))"
    by (cases "(i, a)" rule: deviation_step.cases)
       (auto simp: deviation_update_process_def deviation_update_setpoint_def dest!: deviation_recompute_reports)
qed simp

interpretation rate: operated_alarm "\<lambda>a. limit_condition (rate_limit a)" rate_step
  "\<lambda>c a. a\<lparr>rate_limit := (rate_limit a)\<lparr>limit_condition := c\<rparr>\<rparr>"
  by (rule operated_alarmI) (auto intro: rate_update_reports)

interpretation discrete: operated_alarm discrete_condition "discrete_step eq" "\<lambda>c a. a\<lparr>discrete_condition := c\<rparr>" for eq
  by (rule operated_alarmI) (auto intro: discrete_update_reports)

interpretation discrepancy: operated_alarm discrepancy_condition discrepancy_step
  "\<lambda>c a. a\<lparr>discrepancy_condition := c\<rparr>"
proof (rule operated_alarmI)
  fix i a ev a'
  assume "discrepancy_step i a = (ev, a')" and "condition_ok (discrepancy_condition a)"
  then show "reports_step (discrepancy_condition a) ev (discrepancy_condition a')"
    by (cases "(i, a)" rule: discrepancy_step.cases)
       (auto simp: discrepancy_update_process_def discrepancy_update_target_def dest!: discrepancy_recompute_reports)
qed simp

interpretation certificate: operated_alarm certificate_condition certificate_step
  "\<lambda>c a. a\<lparr>certificate_condition := c\<rparr>"
proof (rule operated_alarmI)
  fix i a ev a'
  assume "certificate_step i a = (ev, a')" and "condition_ok (certificate_condition a)"
  then show "reports_step (certificate_condition a) ev (certificate_condition a')"
    by (cases "(i, a)" rule: certificate_step.cases)
       (auto simp: set_expiration_date_def intro: certificate_evaluate_reports)
qed simp

interpretation dialog: operated_alarm dialog_condition dialog_step "\<lambda>c d. d\<lparr>dialog_condition := c\<rparr>"
  by (rule operated_alarmI) (simp_all add: dialog_step_reports)

section \<open>Properties\<close>

lemma create_dialog_ok: "condition_ok c \<Longrightarrow> condition_ok (dialog_condition (create_dialog clock p opts d c))"
  by (auto simp: create_dialog_def Let_def setter_defs ok_defs)

text \<open>C7: Whatever samples, setpoints, evaluations and client methods follow each other on a new
  alarm of any kind, its condition keeps the invariant: AudibleEnabled, SuppressedOrShelved and
  the effective display name fit the states they derive from, a confirmed condition is
  acknowledged, retained branches still need the operator, and Retain is set exactly while the
  condition is active, unacknowledged or unconfirmed. And a client that only reads the events is
  right about the condition: the last event states its present active, acknowledged, confirmed
  and retain values.\<close>

theorem alarms_are_followed:
  "run_followed limit_condition
      (with_methods limit_condition (\<lambda>c a. a\<lparr>limit_condition := c\<rparr>) limit_step) limit_inputs
      (with_re_alarm re (with_delays on off (create_limit_alarm (create_condition cid source name shelving now) cfg type_id now)))
   \<and> run_followed (\<lambda>a. limit_condition (deviation_limit a))
      (with_methods (\<lambda>a. limit_condition (deviation_limit a))
        (\<lambda>c a. a\<lparr>deviation_limit := (deviation_limit a)\<lparr>limit_condition := c\<rparr>\<rparr>) deviation_step) deviation_inputs
      (deviation_from_limit (create_limit_alarm (create_condition cid source name shelving now) cfg type_id now))
   \<and> run_followed (\<lambda>a. limit_condition (rate_limit a))
      (with_methods (\<lambda>a. limit_condition (rate_limit a))
        (\<lambda>c a. a\<lparr>rate_limit := (rate_limit a)\<lparr>limit_condition := c\<rparr>\<rparr>) rate_step) rate_inputs
      (rate_from_limit (create_limit_alarm (create_condition cid source name shelving now) cfg type_id now))
   \<and> run_followed discrete_condition
      (with_methods discrete_condition (\<lambda>c a. a\<lparr>discrete_condition := c\<rparr>) (discrete_step eq)) discrete_inputs
      (create_discrete_alarm (create_condition cid source name shelving now) type_id normal)
   \<and> run_followed discrepancy_condition
      (with_methods discrepancy_condition (\<lambda>c a. a\<lparr>discrepancy_condition := c\<rparr>) discrepancy_step) discrepancy_inputs
      (create_discrepancy_alarm (create_condition cid source name shelving now) expected tol)
   \<and> run_followed certificate_condition
      (with_methods certificate_condition (\<lambda>c a. a\<lparr>certificate_condition := c\<rparr>) certificate_step) certificate_inputs
      (create_certificate_alarm (create_condition cid source name shelving now) date lim)
   \<and> run_followed dialog_condition
      (with_methods dialog_condition (\<lambda>c d. d\<lparr>dialog_condition := c\<rparr>) dialog_step) dialog_inputs
      (create_dialog now p opts d (create_condition cid source name shelving now))"
  by (intro conjI;
    rule limit.operated.followed deviation.operated.followed rate.operated.followed
      discrete.operated.followed discrepancy.operated.followed certificate.operated.followed
      dialog.operated.followed;
    simp add: create_condition_ok create_dialog_ok create_limit_alarm_def with_re_alarm_def with_delays_def
      deviation_from_limit_def rate_from_limit_def create_discrete_alarm_def create_discrepancy_alarm_def
      create_certificate_alarm_def)

subsection \<open>Hysteresis of the limits\<close>

definition evaluate_run :: "LimitConfig \<Rightarrow> f64 list \<Rightarrow> ActiveLimits" where
  "evaluate_run cfg vs =
     fold (\<lambda>v prev. outcome_limits (evaluate v cfg prev)) vs (inactive_limits_for_mode (limit_mode cfg))"

text \<open>The reference: some value tripped the limit, and all values since then held it.\<close>

definition tripped_and_held :: "(f64 \<Rightarrow> bool) \<Rightarrow> (f64 \<Rightarrow> bool) \<Rightarrow> f64 list \<Rightarrow> bool" where
  "tripped_and_held trip hold vs \<longleftrightarrow> (\<exists>ys v zs. vs = ys @ v # zs \<and> trip v \<and> list_all hold zs)"

definition high_held :: "LimitDef option \<Rightarrow> f64 list \<Rightarrow> bool" where
  "high_held l vs = exceeded_or_off (\<lambda>d. tripped_and_held (f64_lt (limit_value d))
     (\<lambda>v. f64_lt f64_zero (limit_deadband d) \<and> f64_le (f64_sub (limit_value d) (limit_deadband d)) v) vs) l"

definition low_held :: "LimitDef option \<Rightarrow> f64 list \<Rightarrow> bool" where
  "low_held l vs = exceeded_or_off (\<lambda>d. tripped_and_held (\<lambda>v. f64_lt v (limit_value d))
     (\<lambda>v. f64_lt f64_zero (limit_deadband d) \<and> f64_le v (f64_add (limit_value d) (limit_deadband d))) vs) l"

lemma tripped_and_held_Nil [simp]: "\<not> tripped_and_held trip hold []"
  by (simp add: tripped_and_held_def)

lemma tripped_and_held_snoc:
  "tripped_and_held trip hold (vs @ [v]) \<longleftrightarrow> trip v \<or> hold v \<and> tripped_and_held trip hold vs"
proof
  assume "tripped_and_held trip hold (vs @ [v])"
  then obtain ys w zs where split: "vs @ [v] = ys @ w # zs" "trip w" "list_all hold zs"
    unfolding tripped_and_held_def by blast
  show "trip v \<or> hold v \<and> tripped_and_held trip hold vs"
  proof (cases zs rule: rev_cases)
    case (snoc us u)
    with split have "vs = ys @ w # us" "hold v" "list_all hold us" by auto
    with split(2) show ?thesis unfolding tripped_and_held_def by blast
  qed (use split in auto)
next
  assume "trip v \<or> hold v \<and> tripped_and_held trip hold vs"
  then show "tripped_and_held trip hold (vs @ [v])"
    unfolding tripped_and_held_def
  proof
    assume "hold v \<and> (\<exists>ys w zs. vs = ys @ w # zs \<and> trip w \<and> list_all hold zs)"
    then obtain ys w zs where "vs @ [v] = ys @ w # (zs @ [v])" "trip w" "list_all hold (zs @ [v])" by auto
    then show "\<exists>ys w zs. vs @ [v] = ys @ w # zs \<and> trip w \<and> list_all hold zs" by blast
  qed (auto intro: exI [of _ vs])
qed

lemma held_snoc:
  "exceeded_or_off (\<lambda>d. high_exceeded v d (high_held l vs)) l = high_held l (vs @ [v])"
  "exceeded_or_off (\<lambda>d. low_exceeded v d (low_held l vs)) l = low_held l (vs @ [v])"
  by (cases l; auto simp: exceeded_or_off_def high_held_def low_held_def high_exceeded_def low_exceeded_def
      tripped_and_held_snoc)+

definition held_state :: "LimitConfig \<Rightarrow> f64 list \<Rightarrow> NonExclusiveState" where
  "held_state cfg vs =
     \<lparr>on_high_high = high_held (high_high cfg) vs, on_high = high_held (high cfg) vs,
      on_low = low_held (low cfg) vs, on_low_low = low_held (low_low cfg) vs\<rparr>"

text \<open>In a limit alarm that tracks its limits independently, a limit is on after a run of
  values exactly when some finite value exceeded it and every finite value since then stayed
  within the deadband on its side; without a deadband, exactly when the last finite value
  exceeds it. Values that are not finite are ignored.\<close>

theorem limits_trip_and_hold:
  assumes "limit_mode cfg = ModeNonExclusive"
  shows "evaluate_run cfg vs = NonExclusive (held_state cfg (filter is_finite vs))"
proof (induction vs rule: rev_induct)
  case Nil
  show ?case
    using assms
    by (simp add: evaluate_run_def held_state_def NonExclusiveState_default_def high_held_def low_held_def
        exceeded_or_off_def split: option.split)
next
  case (snoc v vs)
  let ?h = "held_state cfg (filter is_finite vs)"
  have "evaluate_run cfg (vs @ [v]) = outcome_limits (evaluate v cfg (NonExclusive ?h))"
    using snoc.IH by (simp add: evaluate_run_def)
  also have "\<dots> = NonExclusive (held_state cfg (filter is_finite (vs @ [v])))"
    using assms by (simp add: evaluate_def evaluate_non_exclusive_def Let_def held_state_def held_snoc)
  finally show ?case .
qed

text \<open>A high limit of 100 with a deadband of 5: it trips at 101 and holds at 97.\<close>

definition hysteresis_config :: LimitConfig where
  "hysteresis_config = \<lparr>limit_mode = ModeNonExclusive, high_high = None,
     high = Some \<lparr>limit_value = F_Fin False 100, limit_deadband = F_Fin False 5, limit_severity = 300\<rparr>,
     low = None, low_low = None\<rparr>"

theorem limits_trip_and_hold_witness:
  "evaluate_run hysteresis_config [F_Fin False 101, F_NaN, F_Fin False 97]
     = NonExclusive \<lparr>on_high_high = False, on_high = True, on_low = False, on_low_low = False\<rparr>"
proof -
  have "tripped_and_held (f64_lt (F_Fin False 100)) hold [F_Fin False 101, F_Fin False 97] \<longleftrightarrow> hold (F_Fin False 97)"
    for hold
    using tripped_and_held_snoc [of "f64_lt (F_Fin False 100)" hold "[F_Fin False 101]" "F_Fin False 97"]
      tripped_and_held_snoc [of "f64_lt (F_Fin False 100)" hold "[]" "F_Fin False 101"]
    by (simp add: signed_int_def)
  moreover have "f64_sub (F_Fin False 100) (F_Fin False 5) = F_Fin False 95"
    using round_mag_exact [of 1 95 0]
    by (simp add: f64_sub_def f64_of_ratio_def signed_int_def Let_def)
  ultimately have "held_state hysteresis_config [F_Fin False 101, F_Fin False 97]
      = \<lparr>on_high_high = False, on_high = True, on_low = False, on_low_low = False\<rparr>"
    by (simp add: held_state_def hysteresis_config_def high_held_def low_held_def exceeded_or_off_def
        f64_zero_def f64_le_def is_nan_def signed_int_def)
  then show ?thesis
    using limits_trip_and_hold [of hysteresis_config "[F_Fin False 101, F_NaN, F_Fin False 97]"]
    by (simp add: hysteresis_config_def)
qed

subsection \<open>The timer of the discrepancy alarm\<close>

type_synonym discrepancy_input = "DateTime \<times> FreshIds \<times> (f64 + f64) \<times> DateTime"

text \<open>The reference works on the history: whether the value was away from its target, and when.\<close>

fun discrepancy_history :: "f64 \<Rightarrow> f64 \<Rightarrow> f64 \<Rightarrow> discrepancy_input list \<Rightarrow> (bool \<times> DateTime) list" where
  "discrepancy_history tol p t [] = []"
| "discrepancy_history tol p t ((clock, fresh, inp, now) # is) =
     (let p = (case inp of Inl v \<Rightarrow> v | Inr _ \<Rightarrow> p);
          t = (case inp of Inr v \<Rightarrow> v | Inl _ \<Rightarrow> t)
      in (\<not> f64_le (f64_abs (f64_sub p t)) tol, now) # discrepancy_history tol p t is)"

text \<open>The first moment of the last uninterrupted stretch away from the target.\<close>

definition away_since :: "(bool \<times> DateTime) list \<Rightarrow> DateTime option" where
  "away_since h = (case takeWhile fst (rev h) of [] \<Rightarrow> None | xs \<Rightarrow> Some (snd (last xs)))"

definition away_long_enough :: "f64 \<Rightarrow> (bool \<times> DateTime) list \<Rightarrow> bool" where
  "away_long_enough expected h =
     (case away_since h of None \<Rightarrow> False | Some t \<Rightarrow> f64_le expected (elapsed_ms t (snd (last h))))"

lemma away_since_snoc:
  "away_since (h @ [(away, now)]) =
     (if away then Some (case away_since h of None \<Rightarrow> now | Some t \<Rightarrow> t) else None)"
  by (auto simp: away_since_def split: list.split)

text \<open>The values cached after a run, and the history of one more input.\<close>

fun cached_values :: "f64 \<Rightarrow> f64 \<Rightarrow> discrepancy_input list \<Rightarrow> f64 \<times> f64" where
  "cached_values p t [] = (p, t)"
| "cached_values p t ((_, _, Inl v, _) # is) = cached_values v t is"
| "cached_values p t ((_, _, Inr v, _) # is) = cached_values p v is"

lemma discrepancy_history_append:
  "discrepancy_history tol p t (is @ js) =
     discrepancy_history tol p t is
       @ discrepancy_history tol (fst (cached_values p t is)) (snd (cached_values p t is)) js"
  by (induction p t "is" rule: cached_values.induct) (simp_all add: Let_def)

lemma cached_values_append:
  "cached_values p t (is @ js) = cached_values (fst (cached_values p t is)) (snd (cached_values p t is)) js"
  by (induction p t "is" rule: cached_values.induct) simp_all

lemma report_active_change_values:
  assumes "report_active_change type_id clock fresh active sev msg c = (e, c')"
  shows "active_state c' = active" and "enabled_state c' = enabled_state c"
  using assms by (auto simp: report_active_change_def Let_def setter_defs create_branch_def split: if_splits)

definition discrepancy_matches :: "f64 \<Rightarrow> f64 \<Rightarrow> f64 \<times> f64 \<Rightarrow> (bool \<times> DateTime) list \<Rightarrow> DiscrepancyAlarm \<Rightarrow> bool" where
  "discrepancy_matches expected tol cached h a \<longleftrightarrow>
     process_value a = fst cached \<and> target_value a = snd cached
     \<and> expected_time_ms a = expected \<and> tolerance a = tol
     \<and> enabled_state (discrepancy_condition a) \<and> discrepancy_since a = away_since h
     \<and> discrepancy_prev_active a = away_long_enough expected h
     \<and> active_state (discrepancy_condition a) = away_long_enough expected h"

lemma discrepancy_recompute_matches:
  assumes "discrepancy_recompute clock fresh now a = (ev, a')"
    and "enabled_state (discrepancy_condition a)"
    and "discrepancy_since a = away_since h"
    and "discrepancy_prev_active a = active_state (discrepancy_condition a)"
    and away: "away = (\<not> f64_le (f64_abs (f64_sub (process_value a) (target_value a))) (tolerance a))"
  shows "discrepancy_matches (expected_time_ms a) (tolerance a) (process_value a, target_value a)
    (h @ [(away, now)]) a'"
  using assms
  by (auto simp: discrepancy_recompute_def discrepancy_matches_def Let_def away_since_snoc away_long_enough_def
      report_active_change_values split: if_splits prod.splits)

lemma discrepancy_step_matches:
  assumes "discrepancy_matches expected tol cached h a"
  shows "discrepancy_matches expected tol (cached_values (fst cached) (snd cached) [i])
    (h @ discrepancy_history tol (fst cached) (snd cached) [i]) (snd (discrepancy_step i a))"
proof -
  obtain clock fresh inp now where i: "i = (clock, fresh, inp, now)" by (cases i)
  define b where "b = (case inp of Inl v \<Rightarrow> a\<lparr>process_value := v\<rparr> | Inr v \<Rightarrow> a\<lparr>target_value := v\<rparr>)"
  have step: "discrepancy_step i a = discrepancy_recompute clock fresh now b"
    by (cases inp) (simp_all add: i b_def discrepancy_update_process_def discrepancy_update_target_def)
  have "discrepancy_matches (expected_time_ms b) (tolerance b) (process_value b, target_value b)
      (h @ [(\<not> f64_le (f64_abs (f64_sub (process_value b) (target_value b))) (tolerance b), now)])
      (snd (discrepancy_step i a))"
    unfolding step
    by (rule discrepancy_recompute_matches [OF surjective_pairing])
       (use assms in \<open>cases inp; simp add: b_def discrepancy_matches_def\<close>)+
  then show ?thesis
    using assms by (cases inp) (simp_all add: i b_def discrepancy_matches_def)
qed

text \<open>C29: The discrepancy alarm is a debounce timer: a new alarm, enabled and not active, is after any
  sequence of process and target values, with no client methods in between, active exactly when the
  value has been away from the target, without interruption, for at least the expected time.\<close>

theorem discrepancy_is_debounced:
  assumes "enabled_state c" and "\<not> active_state c"
    and "run_alarm discrepancy_step is (create_discrepancy_alarm c expected tol) = (evs, a)"
  shows "active_state (discrepancy_condition a)
     = away_long_enough expected (discrepancy_history tol f64_zero f64_zero is)"
proof -
  have "discrepancy_matches expected tol (cached_values f64_zero f64_zero is)
      (discrepancy_history tol f64_zero f64_zero is)
      (snd (run_alarm discrepancy_step is (create_discrepancy_alarm c expected tol)))"
  proof (induction "is" rule: rev_induct)
    case Nil
    show ?case
      using assms(1,2)
      by (simp add: discrepancy_matches_def create_discrepancy_alarm_def away_since_def away_long_enough_def)
  next
    case (snoc i "is")
    from discrepancy_step_matches [OF snoc, of i] show ?case
      by (simp add: run_alarm_append discrepancy_history_append cached_values_append split_beta Let_def)
  qed
  with assms(3) show ?thesis
    by (simp add: discrepancy_matches_def)
qed

abbreviation example_ids :: FreshIds where
  "example_ids \<equiv> \<lparr>fresh_branch = NodeId_null, fresh_branch_event = [1], fresh_event = [2]\<rparr>"

abbreviation example_condition :: ConditionStateMachine where
  "example_condition \<equiv> create_condition NodeId_null NodeId_null [] NodeId_null 0"

text \<open>Away from the target for one second, with an expected time of one second.\<close>

theorem discrepancy_is_debounced_witness:
  "active_state (discrepancy_condition (snd (run_alarm discrepancy_step
     [(0, example_ids, Inl (F_Fin False 50), 0), (0, example_ids, Inl (F_Fin False 60), 10000000)]
     (create_discrepancy_alarm example_condition (f64_of_int 1000) (F_Fin False 5)))))"
proof -
  have sub: "f64_sub (F_Fin False n) f64_zero = F_Fin False n" if "0 < n" "n < 2 ^ 53" for n
    using round_mag_exact [of 1 n 0] that
    by (simp add: f64_sub_def f64_zero_def f64_of_ratio_def signed_int_def Let_def)
  have elapsed: "elapsed_ms 0 10000000 = f64_of_int 1000"
    using elapsed_ms_exact [of 0 1000] by (simp add: endtimes_ticks_def)
  have "away_long_enough (f64_of_int 1000) (discrepancy_history (F_Fin False 5) f64_zero f64_zero
      [(0, example_ids, Inl (F_Fin False 50), 0), (0, example_ids, Inl (F_Fin False 60), 10000000)])"
    by (simp add: sub Let_def f64_le_def is_nan_def signed_int_def away_long_enough_def away_since_def elapsed
        f64_of_int_exact)
  moreover have "enabled_state example_condition" and "\<not> active_state example_condition"
    by (simp_all add: create_condition_def)
  ultimately show ?thesis
    using discrepancy_is_debounced by (metis surjective_pairing)
qed

subsection \<open>The delay of limit alarms\<close>

text \<open>An enabled limit alarm that is not active, with what decides about the next sample.\<close>

definition waiting ::
    "LimitAlarm \<Rightarrow> LimitConfig \<Rightarrow> f64 \<Rightarrow> ActiveLimits \<Rightarrow> (bool \<times> DateTime) option \<Rightarrow> bool" where
  "waiting a cfg on p w \<longleftrightarrow> enabled_state (limit_condition a) \<and> \<not> active_state (limit_condition a)
     \<and> limit_config a = cfg \<and> on_delay_ms a = on \<and> prev_limits a = p
     \<and> delay_gate (limit_condition a) = \<lparr>committed = False, pending = w\<rparr>"

lemma setters_gate [simp]:
  "enabled_state (set_severity n c) = enabled_state c" "delay_gate (set_severity n c) = delay_gate c"
  "enabled_state (set_message t c) = enabled_state c" "delay_gate (set_message t c) = delay_gate c"
  "enabled_state (set_retain b c) = enabled_state c" "delay_gate (set_retain b c) = delay_gate c"
  "enabled_state (set_current_event_id i c) = enabled_state c" "delay_gate (set_current_event_id i c) = delay_gate c"
  "enabled_state (create_branch bi i c) = enabled_state c" "delay_gate (create_branch bi i c) = delay_gate c"
  "enabled_state (set_confirmed k b c) = enabled_state c" "delay_gate (set_confirmed k b c) = delay_gate c"
  "enabled_state (set_acked k b c) = enabled_state c" "delay_gate (set_acked k b c) = delay_gate c"
  "active_state (set_retain b c) = active_state c" "active_state (set_current_event_id i c) = active_state c"
  by (simp_all add: setter_defs create_branch_def)

lemma report_limit_change_values:
  assumes "report_limit_change clock fresh outcome was_active was_acked active re a = (ev, a')"
  shows "\<exists>e. ev = Some e \<and> event_active e = active"
    and "enabled_state (limit_condition a') = enabled_state (limit_condition a)"
    and "active_state (limit_condition a') = active_state (limit_condition a)"
    and "delay_gate (limit_condition a') = delay_gate (limit_condition a)"
    and "limit_config a' = limit_config a" and "on_delay_ms a' = on_delay_ms a"
    and "prev_limits a' = prev_limits a"
proof -
  define c where "c = (if was_active \<and> \<not> was_acked \<and> \<not> active
    then create_branch (fresh_branch fresh) (fresh_branch_event fresh) (limit_condition a) else limit_condition a)"
  define d where "d = set_message (LocalizedText_new ''en'' (outcome_message outcome)) (set_severity (outcome_severity outcome) c)"
  define e where "e = (if active \<and> \<not> re then set_confirmed clock False (set_acked clock False d) else d)"
  let ?c = "set_current_event_id (fresh_event fresh)
      (set_retain (active \<or> \<not> acked_state e \<or> \<not> confirmed_state e) e)"
  have result: "ev = Some (condition_event (limit_type a) clock (fresh_event fresh)
        (LocalizedText_new ''en'' (outcome_message outcome)) (outcome_severity outcome) active (acked_state e)
        (confirmed_state e) (active \<or> \<not> acked_state e \<or> \<not> confirmed_state e) ?c)
      \<and> a' = a\<lparr>limit_condition := ?c\<rparr>"
    using assms [symmetric]
    by (simp only: report_limit_change_def Let_def c_def [symmetric] d_def [symmetric] e_def [symmetric] prod.inject)
  then show "\<exists>e. ev = Some e \<and> event_active e = active"
    by (simp add: condition_event_def)
  have a': "a' = a\<lparr>limit_condition := ?c\<rparr>"
    using result by (rule conjunct2)
  have "enabled_state e = enabled_state (limit_condition a) \<and> active_state e = active_state (limit_condition a)
      \<and> delay_gate e = delay_gate (limit_condition a)"
    by (simp add: e_def d_def c_def)
  then show "enabled_state (limit_condition a') = enabled_state (limit_condition a)"
    and "active_state (limit_condition a') = active_state (limit_condition a)"
    and "delay_gate (limit_condition a') = delay_gate (limit_condition a)"
    by (simp_all add: a')
  show "limit_config a' = limit_config a" "on_delay_ms a' = on_delay_ms a" "prev_limits a' = prev_limits a"
    by (simp_all add: a')
qed

lemma waiting_exceeded:
  assumes "waiting a cfg on p None" and "outcome_active (evaluate v cfg p)"
    and "f64_lt (elapsed_ms t t) on"
  shows "\<exists>a'. update_value_at k f v t a = (None, a')
     \<and> waiting a' cfg on (outcome_limits (evaluate v cfg p)) (Some (True, t))"
  using assms
  by (auto simp: waiting_def update_value_at_def commit_limit_change_def gate_active_def Let_def)

lemma waiting_normal:
  assumes "waiting a cfg on p w" and "\<not> outcome_active (evaluate v cfg p)"
    and "outcome_limits (evaluate v cfg p) \<noteq> p"
  shows "\<exists>e a'. update_value_at k f v t a = (Some e, a') \<and> \<not> event_active e
     \<and> waiting a' cfg on (outcome_limits (evaluate v cfg p)) w"
proof -
  let ?o = "evaluate v cfg p"
  let ?b = "write_limit_state k p (outcome_limits ?o) (a\<lparr>prev_limits := outcome_limits ?o\<rparr>)"
  obtain ev a' where report: "report_limit_change k f ?o False (acked_state (limit_condition a)) False False ?b = (ev, a')"
    by fastforce
  have "update_value_at k f v t a = (ev, a')"
    using assms report by (simp add: waiting_def update_value_at_def commit_limit_change_def Let_def)
  with report_limit_change_values [OF report] assms show ?thesis
    by (auto simp: waiting_def)
qed

lemma waiting_elapsed:
  assumes "waiting a cfg on p (Some (True, t0))" and "outcome_active (evaluate v cfg p)"
    and "\<not> f64_lt (elapsed_ms t0 t) on"
  shows "\<exists>e a'. update_value_at k f v t a = (Some e, a') \<and> event_active e \<and> active_state (limit_condition a')"
proof -
  let ?o = "evaluate v cfg p"
  define b where "b = (if p \<noteq> outcome_limits ?o
    then write_limit_state k p (outcome_limits ?o) (a\<lparr>prev_limits := outcome_limits ?o\<rparr>)
    else a\<lparr>prev_limits := outcome_limits ?o\<rparr>)"
  have b: "limit_condition b = limit_condition a" "on_delay_ms b = on_delay_ms a" "off_delay_ms b = off_delay_ms a"
    by (simp_all add: b_def)
  define c where "c = set_active k True ((limit_condition a)\<lparr>delay_gate := \<lparr>committed = True, pending = None\<rparr>\<rparr>)"
  have gate: "gate_active k True t (on_delay_ms b) (off_delay_ms b) (limit_condition b) = (Some True, c)"
    using assms by (simp add: b c_def waiting_def gate_active_def Let_def)
  obtain ev a' where report: "report_limit_change k f ?o False (acked_state (limit_condition a)) True False
      (b\<lparr>limit_condition := reset_re_alarm True t c\<rparr>) = (ev, a')"
    by fastforce
  have "update_value_at k f v t a = commit_limit_change k f t ?o False b"
    using assms by (simp add: waiting_def update_value_at_def b_def Let_def)
  also have "\<dots> = (ev, a')"
    using assms gate report by (simp add: commit_limit_change_def b waiting_def)
  finally show ?thesis
    using report_limit_change_values [OF report] by (auto simp: reset_re_alarm_core c_def)
qed

text \<open>The on-delay of a limit alarm does not ask for the exceeded state to persist. A value that
  exceeds a limit, a value back in range and, once the delay has passed since the first, another
  value that exceeds the limit: the alarm becomes active on this last sample at once, however
  briefly the limit was exceeded each time, because the sample in range never reaches the delay
  gate. And that sample in range, of an alarm that was never active, is reported as an event.\<close>

theorem on_delay_survives_gap:
  assumes "enabled_state (limit_condition a)" and "\<not> active_state (limit_condition a)"
    and "delay_gate (limit_condition a) = \<lparr>committed = False, pending = None\<rparr>"
    and "evaluate hi (limit_config a) (prev_limits a) = exceeded" and "outcome_active exceeded"
    and "evaluate lo (limit_config a) (outcome_limits exceeded) = normal" and "\<not> outcome_active normal"
    and "outcome_limits normal \<noteq> outcome_limits exceeded"
    and "outcome_active (evaluate hi (limit_config a) (outcome_limits normal))"
    and "f64_lt (elapsed_ms t0 t0) (on_delay_ms a)" and "\<not> f64_lt (elapsed_ms t0 t2) (on_delay_ms a)"
    and "run_alarm limit_step [(k0, f0, hi, t0), (k1, f1, lo, t1), (k2, f2, hi, t2)] a = (evs, a')"
  shows "map event_active evs = [False, True] \<and> active_state (limit_condition a')"
proof -
  let ?cfg = "limit_config a" and ?on = "on_delay_ms a"
  have "waiting a ?cfg ?on (prev_limits a) None"
    using assms(1-3) by (simp add: waiting_def)
  from waiting_exceeded [OF this] assms(4,5,10) obtain a1
    where s1: "update_value_at k0 f0 hi t0 a = (None, a1)"
      and w1: "waiting a1 ?cfg ?on (outcome_limits exceeded) (Some (True, t0))" by blast
  from waiting_normal [OF w1] assms(6-8) obtain e2 a2
    where s2: "update_value_at k1 f1 lo t1 a1 = (Some e2, a2)" and e2: "\<not> event_active e2"
      and w2: "waiting a2 ?cfg ?on (outcome_limits normal) (Some (True, t0))" by blast
  from waiting_elapsed [OF w2] assms(9,11) obtain e3 a3
    where s3: "update_value_at k2 f2 hi t2 a2 = (Some e3, a3)" and e3: "event_active e3"
      and a3: "active_state (limit_condition a3)" by blast
  from assms(12) have "evs = [e2, e3]" and "a' = a3"
    by (simp_all add: s1 s2 s3)
  with e2 e3 a3 show ?thesis
    by simp
qed

text \<open>A delay of one second, a limit of 100: two short peaks one second apart.\<close>

definition delayed_alarm :: LimitAlarm where
  "delayed_alarm = with_delays (f64_of_int 1000) f64_zero
     (create_limit_alarm example_condition
       \<lparr>limit_mode = ModeExclusive, high_high = None,
        high = Some \<lparr>limit_value = F_Fin False 100, limit_deadband = f64_zero, limit_severity = 300\<rparr>,
        low = None, low_low = None\<rparr> NodeId_null 0)"

theorem on_delay_survives_gap_witness:
  "active_state (limit_condition (snd (run_alarm limit_step
     [(0, example_ids, F_Fin False 150, 0), (0, example_ids, F_Fin False 50, 9999999),
      (0, example_ids, F_Fin False 150, 10000000)] delayed_alarm)))"
proof -
  let ?cfg = "limit_config delayed_alarm"
  have cfg: "evaluate (F_Fin False n) ?cfg (Exclusive l)
      = outcome_for_existing_state (Exclusive (if 100 < n then Some High else None)) ?cfg" for n l
    by (simp add: delayed_alarm_def create_limit_alarm_def with_delays_def evaluate_def evaluate_exclusive_def
        exceeded_or_off_def high_exceeded_def signed_int_def Let_def)
  have start: "prev_limits delayed_alarm = Exclusive None" "on_delay_ms delayed_alarm = f64_of_int 1000"
    "enabled_state (limit_condition delayed_alarm)" "\<not> active_state (limit_condition delayed_alarm)"
    "delay_gate (limit_condition delayed_alarm) = \<lparr>committed = False, pending = None\<rparr>"
    by (simp_all add: delayed_alarm_def create_limit_alarm_def with_delays_def create_condition_def)
  have elapsed: "elapsed_ms 0 0 = f64_of_int 0" "elapsed_ms 0 10000000 = f64_of_int 1000"
    using elapsed_ms_exact [of 0 0] elapsed_ms_exact [of 0 1000] by (simp_all add: endtimes_ticks_def)
  obtain evs a' where run: "run_alarm limit_step
     [(0, example_ids, F_Fin False 150, 0), (0, example_ids, F_Fin False 50, 9999999),
      (0, example_ids, F_Fin False 150, 10000000)] delayed_alarm = (evs, a')"
    by fastforce
  have "active_state (limit_condition a')"
    by (rule on_delay_survives_gap [THEN conjunct2, OF start(3-5) refl _ refl _ _ _ _ _ run])
       (simp_all add: start(1,2) cfg elapsed f64_of_int_less)
  with run show ?thesis by simp
qed

subsection \<open>What the methods leave behind\<close>

text \<open>The event a successful Confirm notifies carries an event id that no later call accepts: the
  condition keeps the event id of its last transition, so a client that comments on the event it
  has just received is answered \<open>BadEventIdUnknown\<close>.\<close>

theorem confirm_event_id_unknown:
  assumes "condition_ok c" and "enabled_state c" and "acked_state c" and "\<not> confirmed_state c"
    and "current_event_id_matches c eid" and "branch_by_event_id c eid = None"
    and "fresh \<noteq> eid" and "branch_by_event_id c fresh = None"
    and "handle_confirm_method now fresh [Arg_ByteString (Some eid), Arg_LocalizedText comment] c = (r, c')"
  shows "\<exists>ev. r = Inr (Some ev) \<and> event_confirmed ev
     \<and> handle_add_comment_method later [Arg_ByteString (Some (event_id ev)), Arg_LocalizedText t] c'
         = (Inl BadEventIdUnknown, c')"
proof -
  from assms have "confirm_alarm now fresh comment c = (r, c')"
    by (simp add: handle_confirm_method_def event_id_argument_def comment_argument_def ByteString_as_ref_def)
  with confirm_alarm_result [of now fresh comment c r c'] assms(2-4)
  obtain ev where ev: "r = Inr (Some ev)" "event_describes ev c'" "event_id ev = fresh"
    and kept: "current_event_id c' = current_event_id c" "branches c' = branches c"
      "visible c' = (active_state c, True, True, active_state c)"
    by blast
  have "\<not> current_event_id_matches c' fresh" and "branch_by_event_id c' fresh = None"
    using assms(5,7,8) kept by (auto simp: current_event_id_matches_def branch_by_event_id_def)
  with ev kept show ?thesis
    by (simp add: handle_add_comment_method_def event_id_argument_def ByteString_as_ref_def
        event_describes_def)
qed

theorem confirm_event_id_unknown_witness:
  "\<exists>ev. fst (handle_confirm_method 0 [7] [Arg_ByteString (Some [2]), Arg_LocalizedText LocalizedText_null]
        (snd (acknowledge_alarm 0 [9] LocalizedText_null
          (snd (trigger_alarm_transition 0 [2] True 500 LocalizedText_null example_condition)))))
      = Inr (Some ev) \<and> event_confirmed ev"
proof -
  let ?c = "snd (acknowledge_alarm 0 [9] LocalizedText_null
    (snd (trigger_alarm_transition 0 [2] True 500 LocalizedText_null example_condition)))"
  have ok: "condition_ok ?c"
    by (intro acknowledge_alarm_ok trigger_alarm_transition_ok create_condition_ok)
  have "enabled_state ?c" "acked_state ?c" "\<not> confirmed_state ?c" "current_event_id ?c = [2]" "branches ?c = []"
    by (simp_all add: acknowledge_alarm_def trigger_alarm_transition_def create_condition_def setter_defs)
  with confirm_event_id_unknown [OF ok _ _ _ _ _ _ _ surjective_pairing, of "[2]" "[7]"] show ?thesis
    by (fastforce simp: current_event_id_matches_def branch_by_event_id_def)
qed

subsection \<open>Shelving\<close>

definition no_shelving_method :: "('i + DateTime \<times> bytes \<times> ConditionMethod) \<Rightarrow> bool" where
  "no_shelving_method i \<longleftrightarrow>
     (case i of Inl _ \<Rightarrow> True
      | Inr (_, _, m) \<Rightarrow> m \<noteq> OneShotShelve \<and> m \<noteq> Unshelve \<and> (\<forall>ms. m \<noteq> TimedShelve ms))"

lemma setters_shelving [simp]:
  "get_shelving_state (set_enabled now b c) = get_shelving_state c"
  "get_shelving_state (set_active now b c) = get_shelving_state c"
  "get_shelving_state (set_acked now b c) = get_shelving_state c"
  "get_shelving_state (set_confirmed now b c) = get_shelving_state c"
  "get_shelving_state (set_severity n c) = get_shelving_state c"
  "get_shelving_state (set_message t c) = get_shelving_state c"
  "get_shelving_state (set_retain b c) = get_shelving_state c"
  "get_shelving_state (set_suppressed now b c) = get_shelving_state c"
  "get_shelving_state (set_out_of_service now b c) = get_shelving_state c"
  "get_shelving_state (set_silenced now b c) = get_shelving_state c"
  "get_shelving_state (set_current_event_id i c) = get_shelving_state c"
  "get_shelving_state (create_branch bi i c) = get_shelving_state c"
  "get_shelving_state (write_time f c) = get_shelving_state c"
  "get_shelving_state (reset_re_alarm b now c) = get_shelving_state c"
  by (simp_all add: setter_defs create_branch_def reset_re_alarm_def)

lemma methods_shelving:
  assumes "m \<noteq> OneShotShelve" and "m \<noteq> Unshelve" and "\<And>ms. m \<noteq> TimedShelve ms"
  shows "get_shelving_state (snd (handle_condition_method now fresh m c)) = get_shelving_state c"
proof -
  have ack: "get_shelving_state d = get_shelving_state c"
    if "acknowledge_alarm now fresh comment c = (r, d)" for comment r d
    using that by (auto simp: acknowledge_alarm_def Let_def split: if_splits)
  have conf: "get_shelving_state (snd (confirm_alarm now fresh comment c)) = get_shelving_state c" for comment
    by (simp add: confirm_alarm_def Let_def)
  have comment: "get_shelving_state (snd (with_optional_comment args f c)) = get_shelving_state c"
    if "\<And>d. get_shelving_state (f d) = get_shelving_state d" for args f
    using that by (auto simp: with_optional_comment_def apply_optional_comment_def
        split: list.split MethodArgument.split)
  show ?thesis
    using assms ack conf
    by (cases m)
       (auto simp: comment handle_ack_method_def handle_confirm_method_def handle_acknowledgment_def
         ack_branch_def confirm_branch_def update_branch_split split: sum.splits prod.splits)
qed

lemma limit_step_shelving: "get_shelving_state (limit_condition (snd (limit_step i a))) = get_shelving_state (limit_condition a)"
proof -
  obtain clock fresh v now where i: "i = (clock, fresh, v, now)" by (cases i)
  have report: "get_shelving_state (limit_condition (snd (report_limit_change k f out wa wk act re b)))
      = get_shelving_state (limit_condition b)" for k f out wa wk act re b
    by (simp add: report_limit_change_def Let_def)
  have gate: "get_shelving_state d = get_shelving_state c" if "gate_active k b t on off c = (r, d)" for k b t on off c r d
    using that by (auto simp: gate_active_def Let_def split: if_splits prod.splits)
  have re: "get_shelving_state d = get_shelving_state c" if "maybe_re_alarm k t ms c = (r, d)" for k t ms c r d
    using that by (auto simp: maybe_re_alarm_def split: if_splits option.splits)
  have "get_shelving_state (limit_condition (snd (commit_limit_change k f t out nc b)))
      = get_shelving_state (limit_condition b)" for k f t out nc b
    by (auto simp: commit_limit_change_def Let_def report dest: gate re split: prod.split option.split bool.split)
  then show ?thesis
    by (simp add: i update_value_at_def Let_def)
qed

text \<open>The shelving state of a limit alarm changes only by the three shelving methods: neither the
  passing of time nor the alarm going inactive unshelves it, so a timed shelving never runs out
  and a one-shot shelving does not end with the next deactivation.\<close>

theorem shelving_never_ends_by_itself:
  assumes "list_all no_shelving_method is"
    and "run_alarm (with_methods limit_condition (\<lambda>c a. a\<lparr>limit_condition := c\<rparr>) limit_step) is a = (evs, a')"
  shows "get_shelving_state (limit_condition a') = get_shelving_state (limit_condition a)"
proof -
  let ?step = "with_methods limit_condition (\<lambda>c a. a\<lparr>limit_condition := c\<rparr>) limit_step"
  have step: "get_shelving_state (limit_condition (snd (?step i b))) = get_shelving_state (limit_condition b)"
    if "no_shelving_method i" for i b
  proof (cases i)
    case (Inr m)
    obtain now fresh meth where m: "m = (now, fresh, meth)" by (cases m)
    with that Inr methods_shelving [of meth now fresh "limit_condition b"] show ?thesis
      by (auto simp: with_methods_def no_shelving_method_def split: prod.splits sum.splits)
  qed (simp add: with_methods_def limit_step_shelving)
  have "get_shelving_state (limit_condition (snd (run_alarm ?step is a))) = get_shelving_state (limit_condition a)"
    using assms(1)
  proof (induction "is" arbitrary: a)
    case (Cons i "is")
    have "snd (run_alarm ?step (i # is) a) = snd (run_alarm ?step is (snd (?step i a)))"
      by (simp add: split_beta Let_def)
    with Cons step [of i a] show ?case by simp
  qed simp
  with assms(2) show ?thesis by simp
qed

theorem shelving_never_ends_by_itself_witness:
  "get_shelving_state (limit_condition (snd (run_alarm
     (with_methods limit_condition (\<lambda>c a. a\<lparr>limit_condition := c\<rparr>) limit_step)
     [Inl (0, example_ids, F_Fin False 150, 0), Inl (0, example_ids, F_Fin False 50, 20000000)]
     (delayed_alarm\<lparr>limit_condition := snd (one_shot_shelve 0 example_condition)\<rparr>)))) = OneShotShelved"
proof -
  have "get_shelving_state (snd (one_shot_shelve 0 example_condition)) = OneShotShelved"
    by (simp add: one_shot_shelve_def create_condition_def setter_defs get_shelving_state_def LocalizedText_new_def)
  moreover have "list_all no_shelving_method
      [Inl (0, example_ids, F_Fin False 150, 0), Inl (0, example_ids, F_Fin False 50, 20000000)]"
    by (simp add: no_shelving_method_def)
  moreover have selected: "limit_condition (delayed_alarm\<lparr>limit_condition := c\<rparr>) = c" for c
    by simp
  ultimately show ?thesis
    using shelving_never_ends_by_itself [OF _ surjective_pairing] by (metis (no_types))
qed

end
