(* ===== verification/Like_Match.thy ===== *)
theory Like_Match
  imports Prelude
begin

text \<open>
  The matcher of the \<open>LIKE\<close> wildcard syntax, after
  \<open>async-opcua-server/src/gds/like_match.rs\<close>: the parser of patterns, the loop with its single
  point of backtracking, and the relation between patterns and texts it decides. A \<open>char\<close> of
  Rust is a Unicode scalar value, here a natural number; slices that the parser walks with an
  index are the lists from that index on.
\<close>

section \<open>Patterns\<close>

type_synonym uchar = nat

abbreviation ch :: "char \<Rightarrow> uchar" where
  "ch c \<equiv> of_char c"

datatype Token =
    Literal uchar
  | AnySingle
  | AnyMulti
  | CharSet "(uchar \<times> uchar) list" bool

text \<open>The ranges of a bracket: \<open>a-b\<close> when three characters are left, otherwise a single one.\<close>

fun set_ranges :: "uchar list \<Rightarrow> (uchar \<times> uchar) list" where
  "set_ranges [] = []"
| "set_ranges [a] = [(a, a)]"
| "set_ranges [a, b] = [(a, a), (b, b)]"
| "set_ranges (a # d # b # cs) =
     (if d = ch CHR ''-'' then (a, b) # set_ranges cs else (a, a) # set_ranges (d # b # cs))"

definition set_token :: "uchar list \<Rightarrow> Token" where
  "set_token content =
     (case content of
        c # cs \<Rightarrow> if c = ch CHR ''^'' then CharSet (set_ranges cs) True else CharSet (set_ranges content) False
      | [] \<Rightarrow> CharSet [] False)"

function parse_pattern :: "uchar list \<Rightarrow> Token list" where
  "parse_pattern [] = []"
| "parse_pattern (c # cs) =
     (if c = ch CHR 0x5C then
        (case cs of d # ds \<Rightarrow> Literal d # parse_pattern ds | [] \<Rightarrow> [Literal (ch CHR 0x5C)])
      else if c = ch CHR ''%'' then AnyMulti # parse_pattern cs
      else if c = ch CHR ''_'' then AnySingle # parse_pattern cs
      else if c = ch CHR ''['' then
        (case dropWhile (\<lambda>x. x \<noteq> ch CHR '']'') cs of
           [] \<Rightarrow> Literal (ch CHR ''['') # parse_pattern cs
         | _ # rest \<Rightarrow> set_token (takeWhile (\<lambda>x. x \<noteq> ch CHR '']'') cs) # parse_pattern rest)
      else Literal c # parse_pattern cs)"
  by pat_completeness auto
termination
proof (relation "measure length", goal_cases)
  case (6 c cs b rest)
  have "length (dropWhile (\<lambda>x. x \<noteq> ch CHR '']'') cs) \<le> length cs"
    by (rule length_dropWhile_le)
  with 6 show ?case by simp
qed simp_all

section \<open>Matching\<close>

text \<open>\<open>token_matches\<close> panics on \<open>AnyMulti\<close>: \<open>None\<close>.\<close>

fun token_matches :: "Token \<Rightarrow> uchar \<Rightarrow> bool option" where
  "token_matches (Literal l) c = Some (l = c)"
| "token_matches AnySingle c = Some True"
| "token_matches AnyMulti c = None"
| "token_matches (CharSet ranges negated) c =
     Some (list_ex (\<lambda>(a, b). a \<le> c \<and> c \<le> b) ranges \<noteq> negated)"

text \<open>The state of the loop: the positions in the pattern and in the text, and the position
  of the last \<open>%\<close> with the place in the text its match is tried to end.\<close>

record like_state =
  pi :: nat
  vi :: nat
  star_pi :: "nat option"
  star_vi :: nat

datatype like_step = Next like_state | Return bool | Panic

definition like_body :: "Token list \<Rightarrow> uchar list \<Rightarrow> like_state \<Rightarrow> like_step" where
  "like_body tokens chars s =
     (let backtrack =
            (case star_pi s of
               Some sp \<Rightarrow> Next (s\<lparr>pi := sp + 1, star_vi := star_vi s + 1, vi := star_vi s + 1\<rparr>)
             | None \<Rightarrow> Return False)
      in if pi s < length tokens \<and> tokens ! pi s \<noteq> AnyMulti then
           (case token_matches (tokens ! pi s) (chars ! vi s) of
              None \<Rightarrow> Panic
            | Some True \<Rightarrow> Next (s\<lparr>pi := pi s + 1, vi := vi s + 1\<rparr>)
            | Some False \<Rightarrow> backtrack)
         else if pi s < length tokens then
           Next (s\<lparr>star_pi := Some (pi s), star_vi := vi s, pi := pi s + 1\<rparr>)
         else backtrack)"

text \<open>The second loop: the rest of the pattern is made of \<open>%\<close>.\<close>

definition only_multi :: "Token list \<Rightarrow> nat \<Rightarrow> bool" where
  "only_multi tokens i \<longleftrightarrow> list_all (\<lambda>t. t = AnyMulti) (drop i tokens)"

partial_function (option) like_loop :: "Token list \<Rightarrow> uchar list \<Rightarrow> like_state \<Rightarrow> like_step option" where
  "like_loop tokens chars s =
     (if vi s < length chars then
        (case like_body tokens chars s of
           Next s' \<Rightarrow> like_loop tokens chars s'
         | r \<Rightarrow> Some r)
      else Some (Return (only_multi tokens (pi s))))"

definition like_match :: "uchar list \<Rightarrow> uchar list \<Rightarrow> like_step option" where
  "like_match pattern chars =
     like_loop (parse_pattern pattern) chars \<lparr>pi = 0, vi = 0, star_pi = None, star_vi = 0\<rparr>"

section \<open>What a pattern means\<close>

inductive like :: "Token list \<Rightarrow> uchar list \<Rightarrow> bool" where
  like_Nil: "like [] []"
| like_Char: "token_matches t c = Some True \<Longrightarrow> like ts cs \<Longrightarrow> like (t # ts) (c # cs)"
| like_Multi: "like ts cs \<Longrightarrow> like (AnyMulti # ts) (xs @ cs)"

inductive_simps like_Nil_iff [simp]: "like [] cs"
inductive_cases like_MultiE: "like (AnyMulti # ts) cs"
inductive_cases like_ConsE: "like (t # ts) cs"

lemma token_matches_some: "t \<noteq> AnyMulti \<Longrightarrow> \<exists>b. token_matches t c = Some b"
  by (cases t) auto

lemma like_Cons_char:
  assumes "t \<noteq> AnyMulti"
  shows "like (t # ts) (c # cs) \<longleftrightarrow> token_matches t c = Some True \<and> like ts cs"
  using assms by (auto elim: like_ConsE intro: like_Char)

lemma like_Cons_Nil: "t \<noteq> AnyMulti \<Longrightarrow> \<not> like (t # ts) []"
  by (auto elim: like_ConsE)

lemma like_Multi_iff: "like (AnyMulti # ts) cs \<longleftrightarrow> (\<exists>k\<le>length cs. like ts (drop k cs))"
proof
  assume "like (AnyMulti # ts) cs"
  then obtain xs r where "cs = xs @ r" "like ts r"
    by (auto elim!: like_MultiE)
  then show "\<exists>k\<le>length cs. like ts (drop k cs)"
    by (intro exI [of _ "length xs"]) auto
next
  assume "\<exists>k\<le>length cs. like ts (drop k cs)"
  then obtain k where "like ts (drop k cs)" by blast
  then have "like (AnyMulti # ts) (take k cs @ drop k cs)" by (rule like_Multi)
  then show "like (AnyMulti # ts) cs" by simp
qed

lemma like_end: "like ts [] \<longleftrightarrow> list_all (\<lambda>t. t = AnyMulti) ts"
proof (induction ts)
  case (Cons t ts)
  then show ?case
    by (cases "t = AnyMulti") (auto simp: like_Multi_iff like_Cons_Nil)
qed simp

text \<open>Dropping characters before a \<open>%\<close> keeps a shorter text matching from an earlier place.\<close>

lemma like_Multi_earlier:
  assumes "like (AnyMulti # ts) (drop j cs)" "i \<le> j"
  shows "like (AnyMulti # ts) (drop i cs)"
proof (cases "j \<le> length cs")
  case True
  from assms(1) obtain k where "k \<le> length (drop j cs)" "like ts (drop (j + k) cs)"
    by (auto simp: like_Multi_iff add.commute)
  with assms(2) True show ?thesis
    by (auto simp: like_Multi_iff intro!: exI [of _ "j - i + k"])
next
  case False
  with assms(1) have "like ts []" by (auto simp: like_Multi_iff)
  then show ?thesis
    by (auto simp: like_Multi_iff intro!: exI [of _ "length cs - i"])
qed

text \<open>\<open>n\<close> tokens other than \<open>%\<close> take exactly \<open>n\<close> characters.\<close>

lemma like_drop_chars:
  assumes "a < length ts" "ts ! a \<noteq> AnyMulti" "b < length cs"
  shows "like (drop a ts) (drop b cs)
    \<longleftrightarrow> token_matches (ts ! a) (cs ! b) = Some True \<and> like (drop (Suc a) ts) (drop (Suc b) cs)"
  using assms by (simp add: Cons_nth_drop_Suc [symmetric] like_Cons_char)

lemma like_segment:
  assumes "\<forall>j<n. ts ! (a + j) \<noteq> AnyMulti \<and> token_matches (ts ! (a + j)) (cs ! (b + j)) = Some True"
    and "a + n \<le> length ts" "b + n \<le> length cs"
  shows "like (drop a ts) (drop b cs) \<longleftrightarrow> like (drop (a + n) ts) (drop (b + n) cs)"
  using assms
proof (induction n)
  case (Suc n)
  then have "like (drop a ts) (drop b cs) \<longleftrightarrow> like (drop (a + n) ts) (drop (b + n) cs)" by simp
  also have "\<dots> \<longleftrightarrow> like (drop (a + Suc n) ts) (drop (b + Suc n) cs)"
    using Suc.prems by (simp add: like_drop_chars)
  finally show ?case .
qed simp

lemma like_segment_takes:
  assumes "\<forall>j<n. ts ! (a + j) \<noteq> AnyMulti" and "a + n \<le> length ts" and "k \<le> length cs"
    and "like (drop a ts) (drop k cs)"
  shows "k + n \<le> length cs \<and> like (drop (a + n) ts) (drop (k + n) cs)"
  using assms
proof (induction n)
  case (Suc n)
  then have IH: "k + n \<le> length cs" "like (drop (a + n) ts) (drop (k + n) cs)" by auto
  have t: "ts ! (a + n) \<noteq> AnyMulti" "a + n < length ts" using Suc.prems by auto
  have "k + n \<noteq> length cs"
    using IH(2) t by (auto simp: Cons_nth_drop_Suc [symmetric] like_Cons_Nil)
  with IH t show ?case by (simp add: like_drop_chars)
qed simp

lemma like_Multi_step:
  "b < length cs \<Longrightarrow>
   like (AnyMulti # ts) (drop b cs) \<longleftrightarrow> like ts (drop b cs) \<or> like (AnyMulti # ts) (drop (Suc b) cs)"
proof
  assume b: "b < length cs" and "like (AnyMulti # ts) (drop b cs)"
  then obtain k where k: "k \<le> length cs - b" "like ts (drop (b + k) cs)"
    by (auto simp: like_Multi_iff add.commute)
  then show "like ts (drop b cs) \<or> like (AnyMulti # ts) (drop (Suc b) cs)"
    using b by (cases k) (auto simp: like_Multi_iff add.commute intro!: exI [of _ "k - 1"])
next
  assume "like ts (drop b cs) \<or> like (AnyMulti # ts) (drop (Suc b) cs)"
  then show "like (AnyMulti # ts) (drop b cs)"
  proof
    assume "like ts (drop b cs)"
    then show ?thesis by (auto simp: like_Multi_iff intro: exI [of _ 0])
  qed (erule like_Multi_earlier, simp)
qed

section \<open>The loop decides the relation\<close>

text \<open>The invariant of the loop: what lies between the last \<open>%\<close> and the position in the pattern
  has no \<open>%\<close> and matches the text from where the \<open>%\<close> is tried to end.\<close>

definition like_inv :: "Token list \<Rightarrow> uchar list \<Rightarrow> like_state \<Rightarrow> bool" where
  "like_inv ts cs s \<longleftrightarrow>
     pi s \<le> length ts \<and> vi s \<le> length cs
     \<and> (case star_pi s of
          None \<Rightarrow> True
        | Some sp \<Rightarrow>
            ts ! sp = AnyMulti
            \<and> (\<exists>n. pi s = sp + 1 + n \<and> vi s = star_vi s + n
               \<and> (\<forall>j<n. ts ! (sp + 1 + j) \<noteq> AnyMulti
                    \<and> token_matches (ts ! (sp + 1 + j)) (cs ! (star_vi s + j)) = Some True)))"

text \<open>What is still to decide, and how much there is left to try.\<close>

definition like_goal :: "Token list \<Rightarrow> uchar list \<Rightarrow> like_state \<Rightarrow> bool" where
  "like_goal ts cs s =
     (case star_pi s of
        None \<Rightarrow> like (drop (pi s) ts) (drop (vi s) cs)
      | Some sp \<Rightarrow> like (drop sp ts) (drop (star_vi s) cs))"

definition like_left :: "Token list \<Rightarrow> uchar list \<Rightarrow> (like_state \<times> like_state) set" where
  "like_left ts cs =
     measures
       [\<lambda>s. length ts - (case star_pi s of None \<Rightarrow> 0 | Some sp \<Rightarrow> Suc sp),
        \<lambda>s. length cs - star_vi s,
        \<lambda>s. length cs - vi s]"

lemma wf_like_left: "wf (like_left ts cs)"
  by (simp add: like_left_def)

lemma like_inv_starD:
  assumes "like_inv ts cs s" "star_pi s = Some sp"
  obtains n where "pi s = Suc (sp + n)" "vi s = star_vi s + n" "drop sp ts = AnyMulti # drop (Suc sp) ts"
    "like (drop (Suc sp) ts) (drop (star_vi s) cs) \<longleftrightarrow> like (drop (pi s) ts) (drop (vi s) cs)"
    "\<And>k. k \<le> length cs \<Longrightarrow> like (drop (Suc sp) ts) (drop k cs)
       \<Longrightarrow> k + n \<le> length cs \<and> like (drop (pi s) ts) (drop (k + n) cs)"
proof -
  from assms obtain n where n: "ts ! sp = AnyMulti" "pi s = sp + 1 + n" "vi s = star_vi s + n"
    "\<forall>j<n. ts ! (sp + 1 + j) \<noteq> AnyMulti
       \<and> token_matches (ts ! (sp + 1 + j)) (cs ! (star_vi s + j)) = Some True"
    "pi s \<le> length ts" "vi s \<le> length cs"
    by (auto simp: like_inv_def)
  show ?thesis
  proof (rule that [of n])
    show "drop sp ts = AnyMulti # drop (Suc sp) ts"
      using n by (simp add: Cons_nth_drop_Suc [symmetric])
    show "like (drop (Suc sp) ts) (drop (star_vi s) cs) \<longleftrightarrow> like (drop (pi s) ts) (drop (vi s) cs)"
      using like_segment [of n ts "sp + 1" cs "star_vi s"] n by simp
    show "k + n \<le> length cs \<and> like (drop (pi s) ts) (drop (k + n) cs)"
      if "k \<le> length cs" "like (drop (Suc sp) ts) (drop k cs)" for k
      using like_segment_takes [of n ts "sp + 1" k cs] n that by auto
  qed (use n in auto)
qed

lemma like_goal_multi:
  assumes "like_inv ts cs s" "pi s < length ts" "ts ! pi s = AnyMulti"
  shows "like_goal ts cs s \<longleftrightarrow> like (drop (pi s) ts) (drop (vi s) cs)"
proof (cases "star_pi s")
  case (Some sp)
  from like_inv_starD [OF assms(1) Some] obtain n where
    n: "vi s = star_vi s + n" "drop sp ts = AnyMulti # drop (Suc sp) ts"
      "like (drop (Suc sp) ts) (drop (star_vi s) cs) \<longleftrightarrow> like (drop (pi s) ts) (drop (vi s) cs)"
      "\<And>k. k \<le> length cs \<Longrightarrow> like (drop (Suc sp) ts) (drop k cs)
         \<Longrightarrow> k + n \<le> length cs \<and> like (drop (pi s) ts) (drop (k + n) cs)"
    by metis
  have m: "drop (pi s) ts = AnyMulti # drop (Suc (pi s)) ts"
    using assms(2,3) by (simp add: Cons_nth_drop_Suc [symmetric])
  have "like (drop (pi s) ts) (drop (vi s) cs)" if "like (drop sp ts) (drop (star_vi s) cs)"
  proof -
    from that n(2) obtain k where k: "k \<le> length cs - star_vi s"
      "like (drop (Suc sp) ts) (drop (star_vi s + k) cs)"
      by (auto simp: like_Multi_iff add.commute)
    have "star_vi s + k \<le> length cs"
      using k(1) assms(1) n(1) by (auto simp: like_inv_def)
    from n(4) [OF this k(2)] show ?thesis
      unfolding m by (rule conjE) (rule like_Multi_earlier, auto simp: n(1))
  qed
  moreover have "like (drop sp ts) (drop (star_vi s) cs)" if "like (drop (pi s) ts) (drop (vi s) cs)"
    using that n(2,3) by (auto simp: like_Multi_iff intro: exI [of _ 0])
  ultimately show ?thesis by (auto simp: like_goal_def Some)
qed (simp add: like_goal_def)

lemma like_goal_end:
  assumes "like_inv ts cs s" "vi s = length cs"
  shows "like_goal ts cs s \<longleftrightarrow> only_multi ts (pi s)"
proof (cases "star_pi s")
  case None
  then show ?thesis using assms by (simp add: like_goal_def only_multi_def like_end)
next
  case (Some sp)
  from like_inv_starD [OF assms(1) Some] obtain n where
    n: "vi s = star_vi s + n" "drop sp ts = AnyMulti # drop (Suc sp) ts"
      "like (drop (Suc sp) ts) (drop (star_vi s) cs) \<longleftrightarrow> like (drop (pi s) ts) (drop (vi s) cs)"
      "\<And>k. k \<le> length cs \<Longrightarrow> like (drop (Suc sp) ts) (drop k cs)
         \<Longrightarrow> k + n \<le> length cs \<and> like (drop (pi s) ts) (drop (k + n) cs)"
    by metis
  have "like (drop sp ts) (drop (star_vi s) cs) \<longleftrightarrow> like (drop (Suc sp) ts) (drop (star_vi s) cs)"
  proof
    assume "like (drop sp ts) (drop (star_vi s) cs)"
    then obtain k where k: "k \<le> length cs - star_vi s"
      "like (drop (Suc sp) ts) (drop (star_vi s + k) cs)"
      unfolding n(2) by (auto simp: like_Multi_iff add.commute)
    have "star_vi s + k \<le> length cs" using k(1) assms n(1) by simp
    from n(4) [OF this k(2)] have "k = 0" using assms(2) n(1) by simp
    with k show "like (drop (Suc sp) ts) (drop (star_vi s) cs)" by simp
  qed (auto simp: n(2) like_Multi_iff intro: exI [of _ 0])
  then show ?thesis
    using n(3) assms(2) by (simp add: like_goal_def Some only_multi_def like_end)
qed

text \<open>One iteration: it decides, or it keeps the invariant and the goal with less to try.\<close>

lemma like_body_sound:
  assumes inv: "like_inv ts cs s" and v: "vi s < length cs"
  shows "case like_body ts cs s of
           Next s' \<Rightarrow> like_inv ts cs s' \<and> (s', s) \<in> like_left ts cs \<and> like_goal ts cs s' = like_goal ts cs s
         | Return b \<Rightarrow> b = like_goal ts cs s
         | Panic \<Rightarrow> False"
proof -
  define failed where "failed \<longleftrightarrow>
    \<not> like (drop (pi s) ts) (drop (vi s) cs)"
  let ?retry = "case star_pi s of
      Some sp \<Rightarrow> Next (s\<lparr>pi := sp + 1, star_vi := star_vi s + 1, vi := star_vi s + 1\<rparr>)
    | None \<Rightarrow> Return False"
  let ?ok = "\<lambda>r. case r of
      Next s' \<Rightarrow> like_inv ts cs s' \<and> (s', s) \<in> like_left ts cs \<and> like_goal ts cs s' = like_goal ts cs s
    | Return b \<Rightarrow> b = like_goal ts cs s
    | Panic \<Rightarrow> False"
  have retry: "?ok ?retry" if failed
  proof (cases "star_pi s")
    case None
    with that show ?thesis by (simp add: like_goal_def failed_def)
  next
    case (Some sp)
    from like_inv_starD [OF inv Some] obtain n where
      n: "pi s = Suc (sp + n)" "vi s = star_vi s + n" "drop sp ts = AnyMulti # drop (Suc sp) ts"
        "like (drop (Suc sp) ts) (drop (star_vi s) cs) \<longleftrightarrow> like (drop (pi s) ts) (drop (vi s) cs)"
      by metis
    have "star_vi s < length cs" using n v by simp
    with that n show ?thesis
      using inv by (auto simp: Some like_goal_def like_left_def like_inv_def failed_def like_Multi_step)
  qed
  consider (multi) "pi s < length ts" "ts ! pi s = AnyMulti"
    | (single) b where "pi s < length ts" "ts ! pi s \<noteq> AnyMulti"
        "token_matches (ts ! pi s) (cs ! vi s) = Some b"
    | (pend) "pi s = length ts"
    using inv token_matches_some by (fastforce simp: like_inv_def)
  then show ?thesis
  proof cases
    case multi
    then show ?thesis
      using like_goal_multi [OF inv] inv
      by (auto simp: like_body_def like_goal_def like_left_def like_inv_def split: option.splits)
  next
    case single
    show ?thesis
    proof (cases b)
      case True
      have "like_inv ts cs (s\<lparr>pi := pi s + 1, vi := vi s + 1\<rparr>)"
        using inv single v True
        by (auto simp: like_inv_def less_Suc_eq split: option.splits)
      then show ?thesis
        using single True v like_drop_chars [OF single(1,2) v]
        by (auto simp: like_body_def like_goal_def like_left_def split: option.splits)
    next
      case False
      then have "failed"
        using single v by (simp add: failed_def like_drop_chars)
      from retry [OF this] single False show ?thesis by (simp add: like_body_def)
    qed
  next
    case pend
    then have "failed" using v by (simp add: failed_def)
    from retry [OF this] pend show ?thesis by (simp add: like_body_def)
  qed
qed

lemma like_loop_decides:
  "like_inv ts cs s \<Longrightarrow> like_loop ts cs s = Some (Return (like_goal ts cs s))"
proof (induction s rule: wf_induct_rule [OF wf_like_left [of ts cs]])
  case (1 s)
  show ?case
  proof (cases "vi s < length cs")
    case True
    from like_body_sound [OF 1(2) True] 1(1) True show ?thesis
      by (subst like_loop.simps) (auto split: like_step.splits)
  next
    case False
    then have "vi s = length cs" using 1(2) by (simp add: like_inv_def)
    from like_goal_end [OF 1(2) this] False show ?thesis
      by (subst like_loop.simps) simp
  qed
qed

section \<open>Properties\<close>

text \<open>C20: for every pattern and every text the matcher terminates, does not panic and returns
  whether the text is in the language of the pattern: although it keeps only the last \<open>%\<close> to
  come back to, no match is missed.\<close>

theorem like_match_decides:
  "like_match pattern chars = Some (Return (like (parse_pattern pattern) chars))"
  using like_loop_decides [of "parse_pattern pattern" chars "\<lparr>pi = 0, vi = 0, star_pi = None, star_vi = 0\<rparr>"]
  by (simp add: like_match_def like_inv_def like_goal_def)

end
