(* ===== verification/Programs.thy ===== *)
theory Programs
  imports Node_Ids
begin

text \<open>
  Programs, after \<open>async-opcua-server/src/programs\<close>: the state machine of \<open>state.rs\<close>, the engine of
  \<open>engine.rs\<close> with the background task a start spawns, and the method handlers of \<open>methods.rs\<close>.

  The engine is modelled with every task it ever spawned and every method call that was made. A
  task is its cancellation token, the place it is at and its loop counter; a call is its method and
  the place it is at, for \<open>state_machine.write()\<close> is released before the rest of a method runs. Both
  move in the pieces between two accesses to what they share, and any two may interleave. The
  update of the address space is one piece: the engine only writes there. Tokens are numbered in
  the order of their creation. The handlers only log before they call the engine.
\<close>

section \<open>The state machine\<close>

datatype ProgramState = Halted | Ready | Running | Suspended

fun program_state_str :: "ProgramState \<Rightarrow> string" where
  "program_state_str Halted = ''Halted''"
| "program_state_str Ready = ''Ready''"
| "program_state_str Running = ''Running''"
| "program_state_str Suspended = ''Suspended''"

record ProgramStateMachine =
  psm_node_id :: NodeId
  psm_state :: ProgramState

definition ProgramStateMachine_new :: "NodeId \<Rightarrow> ProgramStateMachine" where
  "ProgramStateMachine_new n = \<lparr>psm_node_id = n, psm_state = Halted\<rparr>"

definition with_state :: "NodeId \<Rightarrow> ProgramState \<Rightarrow> ProgramStateMachine" where
  "with_state n s = \<lparr>psm_node_id = n, psm_state = s\<rparr>"

definition BadStateNotActive :: StatusCode where "BadStateNotActive = 0x80BF0000"

definition can_start :: "ProgramStateMachine \<Rightarrow> bool" where
  "can_start m \<longleftrightarrow> psm_state m = Ready"

definition can_suspend :: "ProgramStateMachine \<Rightarrow> bool" where
  "can_suspend m \<longleftrightarrow> psm_state m = Running"

definition can_resume :: "ProgramStateMachine \<Rightarrow> bool" where
  "can_resume m \<longleftrightarrow> psm_state m = Suspended"

definition can_halt :: "ProgramStateMachine \<Rightarrow> bool" where
  "can_halt m \<longleftrightarrow> (case psm_state m of Ready \<Rightarrow> True | Running \<Rightarrow> True | Suspended \<Rightarrow> True | _ \<Rightarrow> False)"

definition can_reset :: "ProgramStateMachine \<Rightarrow> bool" where
  "can_reset m \<longleftrightarrow> psm_state m = Halted"

definition psm_start :: "ProgramStateMachine \<Rightarrow> StatusCode + ProgramStateMachine" where
  "psm_start m = (if can_start m then Inr (m\<lparr>psm_state := Running\<rparr>) else Inl BadStateNotActive)"

definition psm_suspend :: "ProgramStateMachine \<Rightarrow> StatusCode + ProgramStateMachine" where
  "psm_suspend m = (if can_suspend m then Inr (m\<lparr>psm_state := Suspended\<rparr>) else Inl BadStateNotActive)"

definition psm_resume :: "ProgramStateMachine \<Rightarrow> StatusCode + ProgramStateMachine" where
  "psm_resume m = (if can_resume m then Inr (m\<lparr>psm_state := Running\<rparr>) else Inl BadStateNotActive)"

definition psm_halt :: "ProgramStateMachine \<Rightarrow> StatusCode + ProgramStateMachine" where
  "psm_halt m = (if can_halt m then Inr (m\<lparr>psm_state := Halted\<rparr>) else Inl BadStateNotActive)"

definition psm_reset :: "ProgramStateMachine \<Rightarrow> StatusCode + ProgramStateMachine" where
  "psm_reset m = (if can_reset m then Inr (m\<lparr>psm_state := Ready\<rparr>) else Inl BadStateNotActive)"

lemma can_halt_iff: "can_halt m \<longleftrightarrow> psm_state m \<noteq> Halted"
  by (simp add: can_halt_def split: ProgramState.splits)

lemmas psm_defs = psm_start_def psm_suspend_def psm_resume_def psm_halt_def psm_reset_def
  can_start_def can_suspend_def can_resume_def can_halt_iff can_reset_def

section \<open>The engine\<close>

text \<open>The variables of the program in the address space, by the suffix of their node id; a
  suffix without a variable node is not in the map.\<close>

datatype ProgramValue = PString string | PBool bool | PInt32 i32

type_synonym variables = "string \<rightharpoonup> ProgramValue"

definition update_variable :: "string \<Rightarrow> ProgramValue \<Rightarrow> variables \<Rightarrow> variables" where
  "update_variable suffix v vs = (case vs suffix of None \<Rightarrow> vs | Some _ \<Rightarrow> vs(suffix \<mapsto> v))"

text \<open>Where a task is: at the first check of the token, at the check for suspension, waiting,
  at the second check, asleep, about to write the progress, about to publish it, after the
  loop, about to publish the end, at its end.\<close>

datatype task_pc =
    Check | Suspension | Waiting | Recheck | Asleep | Store | Publish | After_Loop | Publish_End | Ended

record program_task =
  task_token :: nat
  task_i :: nat
  task_pc :: task_pc

datatype ProgramMethod = Start | Suspend | Resume | Halt | Reset

text \<open>Where a call is: before the transition of the state machine, about to reset the progress, to
  put a new token, to cancel the current one, to update the address space, to spawn the task, to
  notify it; or at its end, with its result.\<close>

datatype call_pc = Transition | Zero_Progress | New_Token | Cancel_Token | Sync | Spawn | Notify | Returned

record program_call =
  call_method :: ProgramMethod
  call_token :: nat
  call_pc :: call_pc
  call_result :: "StatusCode + unit"

record ProgramEngine =
  pe_variables :: variables
  pe_parent_id :: NodeId
  pe_state_machine :: ProgramStateMachine
  pe_cancel_token :: nat
  pe_cancelled :: "nat \<Rightarrow> bool"
  pe_permits :: nat
  pe_progress :: u8
  pe_tasks :: "program_task list"
  pe_calls :: "program_call list"
  pe_next_token :: nat

definition ProgramEngine_new :: "variables \<Rightarrow> NodeId \<Rightarrow> ProgramEngine" where
  "ProgramEngine_new vs parent =
     \<lparr>pe_variables = vs, pe_parent_id = parent, pe_state_machine = ProgramStateMachine_new parent,
      pe_cancel_token = 0, pe_cancelled = (\<lambda>_. False), pe_permits = 0, pe_progress = 0,
      pe_tasks = [], pe_calls = [], pe_next_token = 1\<rparr>"

definition pe_state :: "ProgramEngine \<Rightarrow> ProgramState" where
  "pe_state e = psm_state (pe_state_machine e)"

definition sync_address_space :: "string \<Rightarrow> ProgramEngine \<Rightarrow> ProgramEngine" where
  "sync_address_space transition e =
     (let m = pe_state_machine e;
          vs = update_variable ''CurrentState'' (PString (program_state_str (psm_state m))) (pe_variables e);
          vs = (if transition \<noteq> [] then update_variable ''LastTransition'' (PString transition) vs else vs);
          vs = update_variable ''Haltable'' (PBool (can_halt m)) vs;
          vs = update_variable ''Suspendable'' (PBool (can_suspend m)) vs;
          vs = update_variable ''Resumable'' (PBool (can_resume m)) vs;
          vs = update_variable ''Resetable'' (PBool (can_reset m)) vs;
          vs = update_variable ''Progress'' (PInt32 (ucast (pe_progress e))) vs
      in e\<lparr>pe_variables := vs\<rparr>)"

definition waiting_tasks :: "ProgramEngine \<Rightarrow> nat" where
  "waiting_tasks e = length (filter (\<lambda>t. task_pc t = Waiting) (pe_tasks e))"

text \<open>\<open>Notify::notify_one\<close>: it wakes a waiting task, or leaves one permit behind.\<close>

definition notify_one :: "ProgramEngine \<Rightarrow> ProgramEngine" where
  "notify_one e = e\<lparr>pe_permits := min (pe_permits e + 1) (waiting_tasks e + 1)\<rparr>"

definition engine_start :: "ProgramEngine \<Rightarrow> (StatusCode + unit) \<times> ProgramEngine" where
  "engine_start e =
     (case psm_start (pe_state_machine e) of
        Inl s \<Rightarrow> (Inl s, e)
      | Inr m \<Rightarrow>
          let token = pe_next_token e;
              e = e\<lparr>pe_state_machine := m, pe_progress := 0, pe_cancel_token := token, pe_next_token := token + 1\<rparr>;
              e = sync_address_space ''Start'' e
          in (Inr (), e\<lparr>pe_tasks := pe_tasks e @ [\<lparr>task_token = token, task_i = 1, task_pc = Check\<rparr>]\<rparr>))"

definition engine_suspend :: "ProgramEngine \<Rightarrow> (StatusCode + unit) \<times> ProgramEngine" where
  "engine_suspend e =
     (case psm_suspend (pe_state_machine e) of
        Inl s \<Rightarrow> (Inl s, e)
      | Inr m \<Rightarrow> (Inr (), sync_address_space ''Suspend'' (e\<lparr>pe_state_machine := m\<rparr>)))"

definition engine_resume :: "ProgramEngine \<Rightarrow> (StatusCode + unit) \<times> ProgramEngine" where
  "engine_resume e =
     (case psm_resume (pe_state_machine e) of
        Inl s \<Rightarrow> (Inl s, e)
      | Inr m \<Rightarrow> (Inr (), notify_one (sync_address_space ''Resume'' (e\<lparr>pe_state_machine := m\<rparr>))))"

definition engine_halt :: "ProgramEngine \<Rightarrow> (StatusCode + unit) \<times> ProgramEngine" where
  "engine_halt e =
     (case psm_halt (pe_state_machine e) of
        Inl s \<Rightarrow> (Inl s, e)
      | Inr m \<Rightarrow>
          (Inr (), sync_address_space ''Halt''
             (e\<lparr>pe_state_machine := m, pe_cancelled := (pe_cancelled e)(pe_cancel_token e := True)\<rparr>)))"

definition engine_reset :: "ProgramEngine \<Rightarrow> (StatusCode + unit) \<times> ProgramEngine" where
  "engine_reset e =
     (case psm_reset (pe_state_machine e) of
        Inl s \<Rightarrow> (Inl s, e)
      | Inr m \<Rightarrow> (Inr (), sync_address_space ''Reset'' (e\<lparr>pe_state_machine := m, pe_progress := 0\<rparr>)))"

fun handle_program_method :: "ProgramMethod \<Rightarrow> ProgramEngine \<Rightarrow> (StatusCode + unit) \<times> ProgramEngine" where
  "handle_program_method Start e = engine_start e"
| "handle_program_method Suspend e = engine_suspend e"
| "handle_program_method Resume e = engine_resume e"
| "handle_program_method Halt e = engine_halt e"
| "handle_program_method Reset e = engine_reset e"

text \<open>The pieces of a call. These run a call from one access of shared data to the next; the functions
  above are what they do when nothing falls in between (\<open>uninterrupted_call\<close>).\<close>

fun method_transition :: "ProgramMethod \<Rightarrow> ProgramStateMachine \<Rightarrow> StatusCode + ProgramStateMachine" where
  "method_transition Start = psm_start"
| "method_transition Suspend = psm_suspend"
| "method_transition Resume = psm_resume"
| "method_transition Halt = psm_halt"
| "method_transition Reset = psm_reset"

fun method_name :: "ProgramMethod \<Rightarrow> string" where
  "method_name Start = ''Start''"
| "method_name Suspend = ''Suspend''"
| "method_name Resume = ''Resume''"
| "method_name Halt = ''Halt''"
| "method_name Reset = ''Reset''"

text \<open>What follows the transition, and what follows the update of the address space.\<close>

fun after_transition :: "ProgramMethod \<Rightarrow> call_pc" where
  "after_transition Start = Zero_Progress"
| "after_transition Halt = Cancel_Token"
| "after_transition Reset = Zero_Progress"
| "after_transition _ = Sync"

fun after_sync :: "ProgramMethod \<Rightarrow> call_pc" where
  "after_sync Start = Spawn"
| "after_sync Resume = Notify"
| "after_sync _ = Returned"

definition call_step :: "program_call \<Rightarrow> ProgramEngine \<Rightarrow> (ProgramEngine \<times> program_call) option" where
  "call_step c e =
     (case call_pc c of
        Transition \<Rightarrow>
          (case method_transition (call_method c) (pe_state_machine e) of
             Inl s \<Rightarrow> Some (e, c\<lparr>call_pc := Returned, call_result := Inl s\<rparr>)
           | Inr m \<Rightarrow> Some (e\<lparr>pe_state_machine := m\<rparr>, c\<lparr>call_pc := after_transition (call_method c)\<rparr>))
      | Zero_Progress \<Rightarrow>
          Some (e\<lparr>pe_progress := 0\<rparr>, c\<lparr>call_pc := (if call_method c = Start then New_Token else Sync)\<rparr>)
      | New_Token \<Rightarrow>
          Some (e\<lparr>pe_cancel_token := pe_next_token e, pe_next_token := pe_next_token e + 1\<rparr>,
                c\<lparr>call_token := pe_next_token e, call_pc := Sync\<rparr>)
      | Cancel_Token \<Rightarrow>
          Some (e\<lparr>pe_cancelled := (pe_cancelled e)(pe_cancel_token e := True)\<rparr>, c\<lparr>call_pc := Sync\<rparr>)
      | Sync \<Rightarrow> Some (sync_address_space (method_name (call_method c)) e, c\<lparr>call_pc := after_sync (call_method c)\<rparr>)
      | Spawn \<Rightarrow>
          Some (e\<lparr>pe_tasks := pe_tasks e @ [\<lparr>task_token = call_token c, task_i = 1, task_pc = Check\<rparr>]\<rparr>,
                c\<lparr>call_pc := Returned\<rparr>)
      | Notify \<Rightarrow> Some (notify_one e, c\<lparr>call_pc := Returned\<rparr>)
      | Returned \<Rightarrow> None)"

definition enter_call :: "ProgramMethod \<Rightarrow> ProgramEngine \<Rightarrow> ProgramEngine" where
  "enter_call m e =
     e\<lparr>pe_calls := pe_calls e @ [\<lparr>call_method = m, call_token = 0, call_pc = Transition, call_result = Inr ()\<rparr>]\<rparr>"

definition run_call :: "nat \<Rightarrow> ProgramEngine \<Rightarrow> ProgramEngine option" where
  "run_call j e =
     (if j < length (pe_calls e) then
        (case call_step (pe_calls e ! j) e of
           None \<Rightarrow> None
         | Some (e', c) \<Rightarrow> Some (e'\<lparr>pe_calls := (pe_calls e)[j := c]\<rparr>))
      else None)"

section \<open>The background task\<close>

definition publish_progress :: "nat \<Rightarrow> ProgramEngine \<Rightarrow> ProgramEngine" where
  "publish_progress i e =
     (if i mod 2 = 0
      then e\<lparr>pe_variables := update_variable ''Progress'' (PInt32 (of_nat i)) (pe_variables e)\<rparr> else e)"

definition complete_task :: "ProgramEngine \<Rightarrow> ProgramEngine" where
  "complete_task e =
     (if pe_state e = Running then
        (case psm_halt (pe_state_machine e) of Inl _ \<Rightarrow> e | Inr m \<Rightarrow> e\<lparr>pe_state_machine := m\<rparr>)
      else e)"

definition publish_end :: "ProgramEngine \<Rightarrow> ProgramEngine" where
  "publish_end e =
     (let vs = update_variable ''CurrentState'' (PString ''Halted'') (pe_variables e);
          vs = update_variable ''Haltable'' (PBool False) vs;
          vs = update_variable ''Suspendable'' (PBool False) vs;
          vs = update_variable ''Resumable'' (PBool False) vs;
          vs = update_variable ''Resetable'' (PBool True) vs
      in e\<lparr>pe_variables := vs\<rparr>)"

text \<open>The number of iterations, \<open>1..=100\<close>.\<close>

definition last_i :: nat where "last_i = 100"

text \<open>One piece of a task. A waiting task goes on when it is cancelled or when it is notified; when
  both hold, either may happen, and \<open>cancel_first\<close> says which. \<open>None\<close>: the task has to wait, or has ended.\<close>

definition task_step :: "bool \<Rightarrow> program_task \<Rightarrow> ProgramEngine \<Rightarrow> (ProgramEngine \<times> program_task) option" where
  "task_step cancel_first t e =
     (let cancelled = pe_cancelled e (task_token t)
      in case task_pc t of
           Check \<Rightarrow> Some (e, t\<lparr>task_pc := (if cancelled then After_Loop else Suspension)\<rparr>)
         | Suspension \<Rightarrow> Some (e, t\<lparr>task_pc := (if pe_state e = Suspended then Waiting else Recheck)\<rparr>)
         | Waiting \<Rightarrow>
             (if cancelled \<and> (cancel_first \<or> pe_permits e = 0) then Some (e, t\<lparr>task_pc := Recheck\<rparr>)
              else if 0 < pe_permits e
                then Some (e\<lparr>pe_permits := pe_permits e - 1\<rparr>, t\<lparr>task_pc := Suspension\<rparr>)
              else None)
         | Recheck \<Rightarrow> Some (e, t\<lparr>task_pc := (if cancelled then After_Loop else Asleep)\<rparr>)
         | Asleep \<Rightarrow> Some (e, t\<lparr>task_pc := Store\<rparr>)
         | Store \<Rightarrow> Some (e\<lparr>pe_progress := of_nat (task_i t)\<rparr>, t\<lparr>task_pc := Publish\<rparr>)
         | Publish \<Rightarrow>
             Some (publish_progress (task_i t) e,
                   if task_i t < last_i then t\<lparr>task_i := task_i t + 1, task_pc := Check\<rparr>
                   else t\<lparr>task_pc := After_Loop\<rparr>)
         | After_Loop \<Rightarrow> Some (complete_task e, t\<lparr>task_pc := Publish_End\<rparr>)
         | Publish_End \<Rightarrow> Some (publish_end e, t\<lparr>task_pc := Ended\<rparr>)
         | Ended \<Rightarrow> None)"

definition run_task :: "bool \<Rightarrow> nat \<Rightarrow> ProgramEngine \<Rightarrow> ProgramEngine option" where
  "run_task cancel_first k e =
     (if k < length (pe_tasks e) then
        (case task_step cancel_first (pe_tasks e ! k) e of
           None \<Rightarrow> None
         | Some (e', t) \<Rightarrow> Some (e'\<lparr>pe_tasks := (pe_tasks e)[k := t]\<rparr>))
      else None)"

text \<open>What can happen next: a client calls a method and the call runs to its end, a call begins, a call
  that has begun runs its next piece, or the runtime polls a task.\<close>

datatype program_action = Call ProgramMethod | Enter ProgramMethod | Advance nat | Poll bool nat

fun program_act :: "program_action \<Rightarrow> ProgramEngine \<Rightarrow> ProgramEngine option" where
  "program_act (Call m) e = Some (snd (handle_program_method m e))"
| "program_act (Enter m) e = Some (enter_call m e)"
| "program_act (Advance j) e = run_call j e"
| "program_act (Poll cancel_first k) e = run_task cancel_first k e"

inductive program_step :: "ProgramEngine \<Rightarrow> ProgramEngine \<Rightarrow> bool" where
  program_stepI: "program_act a e = Some e' \<Longrightarrow> program_step e e'"

fun program_trace :: "program_action list \<Rightarrow> ProgramEngine \<Rightarrow> ProgramEngine option" where
  "program_trace [] e = Some e"
| "program_trace (a # as) e = (case program_act a e of None \<Rightarrow> None | Some e' \<Rightarrow> program_trace as e')"

inductive program_reachable :: "ProgramEngine \<Rightarrow> bool" where
  reach_new: "program_reachable (ProgramEngine_new vs parent)"
| reach_step: "program_reachable e \<Longrightarrow> program_step e e' \<Longrightarrow> program_reachable e'"

section \<open>What a step does to the state\<close>

definition program_arcs :: "(ProgramState \<times> ProgramState) list" where
  "program_arcs =
     [(Halted, Ready), (Ready, Running), (Running, Suspended), (Suspended, Running),
      (Ready, Halted), (Running, Halted), (Suspended, Halted)]"

lemma sync_address_space_fields [simp]:
  "pe_state_machine (sync_address_space n e) = pe_state_machine e"
  "pe_cancel_token (sync_address_space n e) = pe_cancel_token e"
  "pe_cancelled (sync_address_space n e) = pe_cancelled e"
  "pe_permits (sync_address_space n e) = pe_permits e"
  "pe_progress (sync_address_space n e) = pe_progress e"
  "pe_tasks (sync_address_space n e) = pe_tasks e"
  "pe_calls (sync_address_space n e) = pe_calls e"
  "pe_next_token (sync_address_space n e) = pe_next_token e"
  by (simp_all add: sync_address_space_def Let_def)

lemma notify_one_fields [simp]:
  "pe_state_machine (notify_one e) = pe_state_machine e"
  "pe_cancel_token (notify_one e) = pe_cancel_token e"
  "pe_cancelled (notify_one e) = pe_cancelled e"
  "pe_progress (notify_one e) = pe_progress e"
  "pe_tasks (notify_one e) = pe_tasks e"
  "pe_calls (notify_one e) = pe_calls e"
  "pe_next_token (notify_one e) = pe_next_token e"
  by (simp_all add: notify_one_def)

lemma publish_fields [simp]:
  "pe_state_machine (publish_progress i e) = pe_state_machine e"
  "pe_cancel_token (publish_progress i e) = pe_cancel_token e"
  "pe_cancelled (publish_progress i e) = pe_cancelled e"
  "pe_progress (publish_progress i e) = pe_progress e"
  "pe_calls (publish_progress i e) = pe_calls e"
  "pe_next_token (publish_progress i e) = pe_next_token e"
  "pe_state_machine (publish_end e) = pe_state_machine e"
  "pe_cancel_token (publish_end e) = pe_cancel_token e"
  "pe_cancelled (publish_end e) = pe_cancelled e"
  "pe_progress (publish_end e) = pe_progress e"
  "pe_calls (publish_end e) = pe_calls e"
  "pe_next_token (publish_end e) = pe_next_token e"
  by (simp_all add: publish_progress_def publish_end_def Let_def)

lemma complete_task_fields [simp]:
  "pe_cancel_token (complete_task e) = pe_cancel_token e"
  "pe_calls (complete_task e) = pe_calls e"
  "pe_cancelled (complete_task e) = pe_cancelled e"
  "pe_progress (complete_task e) = pe_progress e"
  "pe_next_token (complete_task e) = pe_next_token e"
  by (simp_all add: complete_task_def split: sum.splits)

lemma complete_task_state:
  "pe_state (complete_task e) = (if pe_state e = Running then Halted else pe_state e)"
  by (auto simp: complete_task_def pe_state_def psm_defs)

text \<open>Each method in terms of the fields: whether it is allowed, and what it leaves.\<close>

lemma engine_methods_ok:
  "pe_state e = Ready \<Longrightarrow> fst (engine_start e) = Inr ()"
  "pe_state e = Running \<Longrightarrow> fst (engine_suspend e) = Inr ()"
  "pe_state e = Suspended \<Longrightarrow> fst (engine_resume e) = Inr ()"
  "pe_state e \<noteq> Halted \<Longrightarrow> fst (engine_halt e) = Inr ()"
  "pe_state e = Halted \<Longrightarrow> fst (engine_reset e) = Inr ()"
  by (auto simp: pe_state_def engine_start_def engine_suspend_def engine_resume_def engine_halt_def
      engine_reset_def psm_defs Let_def split: ProgramState.splits)

lemma refused_method_keeps_engine:
  "fst (handle_program_method m e) = Inl s \<Longrightarrow> snd (handle_program_method m e) = e \<and> s = BadStateNotActive"
  by (cases m) (auto simp: engine_start_def engine_suspend_def engine_resume_def engine_halt_def
      engine_reset_def psm_defs Let_def split: if_splits)

lemma engine_start_fields:
  "pe_state e = Ready \<Longrightarrow> snd (engine_start e) = e' \<Longrightarrow>
   pe_state e' = Running \<and> pe_cancel_token e' = pe_next_token e \<and> pe_cancelled e' = pe_cancelled e
   \<and> pe_permits e' = pe_permits e \<and> pe_progress e' = 0 \<and> pe_next_token e' = pe_next_token e + 1
   \<and> pe_tasks e' = pe_tasks e @ [\<lparr>task_token = pe_next_token e, task_i = 1, task_pc = Check\<rparr>]
   \<and> pe_calls e' = pe_calls e"
  by (auto simp: engine_start_def psm_defs pe_state_def Let_def)

lemma engine_suspend_fields:
  "pe_state e = Running \<Longrightarrow> snd (engine_suspend e) = e' \<Longrightarrow>
   pe_state e' = Suspended \<and> pe_cancel_token e' = pe_cancel_token e \<and> pe_cancelled e' = pe_cancelled e
   \<and> pe_progress e' = pe_progress e \<and> pe_next_token e' = pe_next_token e \<and> pe_tasks e' = pe_tasks e
   \<and> pe_calls e' = pe_calls e"
  by (auto simp: engine_suspend_def psm_defs pe_state_def Let_def)

lemma engine_resume_fields:
  "pe_state e = Suspended \<Longrightarrow> snd (engine_resume e) = e' \<Longrightarrow>
   pe_state e' = Running \<and> pe_cancel_token e' = pe_cancel_token e \<and> pe_cancelled e' = pe_cancelled e
   \<and> pe_progress e' = pe_progress e \<and> pe_next_token e' = pe_next_token e \<and> pe_tasks e' = pe_tasks e
   \<and> pe_calls e' = pe_calls e"
  by (auto simp: engine_resume_def psm_defs pe_state_def Let_def)

lemma engine_halt_fields:
  "pe_state e \<noteq> Halted \<Longrightarrow> snd (engine_halt e) = e' \<Longrightarrow>
   pe_state e' = Halted \<and> pe_cancel_token e' = pe_cancel_token e
   \<and> pe_cancelled e' = (pe_cancelled e)(pe_cancel_token e := True)
   \<and> pe_progress e' = pe_progress e \<and> pe_next_token e' = pe_next_token e \<and> pe_tasks e' = pe_tasks e
   \<and> pe_calls e' = pe_calls e"
  by (auto simp: engine_halt_def psm_defs pe_state_def Let_def split: ProgramState.splits)

lemma engine_reset_fields:
  "pe_state e = Halted \<Longrightarrow> snd (engine_reset e) = e' \<Longrightarrow>
   pe_state e' = Ready \<and> pe_cancel_token e' = pe_cancel_token e \<and> pe_cancelled e' = pe_cancelled e
   \<and> pe_progress e' = 0 \<and> pe_next_token e' = pe_next_token e \<and> pe_tasks e' = pe_tasks e
   \<and> pe_calls e' = pe_calls e"
  by (auto simp: engine_reset_def psm_defs pe_state_def Let_def)

text \<open>The method calls as a case split: nothing happens, or one of the five transitions.\<close>

lemma program_call_cases:
  obtains (refused) "snd (handle_program_method m e) = e"
  | (start) "m = Start" "pe_state e = Ready"
  | (suspend) "m = Suspend" "pe_state e = Running"
  | (resume) "m = Resume" "pe_state e = Suspended"
  | (halt) "m = Halt" "pe_state e \<noteq> Halted"
  | (reset) "m = Reset" "pe_state e = Halted"
proof (cases "snd (handle_program_method m e) = e")
  case False
  then show ?thesis
    using that(2-)
    by (cases m) (auto simp: engine_start_def engine_suspend_def engine_resume_def engine_halt_def
        engine_reset_def psm_defs pe_state_def Let_def split: if_splits)
qed (rule that(1))

lemma task_step_fields:
  "task_step b t e = Some (e', t') \<Longrightarrow>
   pe_cancel_token e' = pe_cancel_token e \<and> pe_cancelled e' = pe_cancelled e \<and> pe_calls e' = pe_calls e
   \<and> pe_next_token e' = pe_next_token e \<and> task_token t' = task_token t"
  by (auto simp: task_step_def Let_def split: task_pc.splits if_splits)

lemma task_step_state:
  "task_step b t e = Some (e', t') \<Longrightarrow>
   pe_state e' = (if task_pc t = After_Loop \<and> pe_state e = Running then Halted else pe_state e)"
  by (auto simp: task_step_def Let_def complete_task_state split: task_pc.splits if_splits)
    (auto simp: pe_state_def)

lemma run_task_some:
  "run_task b k e = Some e' \<longleftrightarrow>
   k < length (pe_tasks e)
   \<and> (\<exists>e1 t. task_step b (pe_tasks e ! k) e = Some (e1, t) \<and> e' = e1\<lparr>pe_tasks := (pe_tasks e)[k := t]\<rparr>)"
  by (auto simp: run_task_def split: option.splits)

lemma pe_state_update [simp]:
  "pe_state (e\<lparr>pe_tasks := ts\<rparr>) = pe_state e"
  "pe_state (e\<lparr>pe_calls := cs\<rparr>) = pe_state e"
  "pe_state (e\<lparr>pe_cancelled := f\<rparr>) = pe_state e"
  "pe_state (e\<lparr>pe_cancel_token := tk, pe_next_token := n\<rparr>) = pe_state e"
  "pe_state (sync_address_space tr e) = pe_state e"
  "pe_state (notify_one e) = pe_state e"
  "pe_state (e\<lparr>pe_progress := x\<rparr>) = pe_state e"
  "pe_state (e\<lparr>pe_permits := n\<rparr>) = pe_state e"
  "pe_state (publish_progress i e) = pe_state e"
  "pe_state (publish_end e) = pe_state e"
  by (simp_all add: pe_state_def)

lemma run_task_fields:
  "run_task b k e = Some e' \<Longrightarrow>
   pe_cancel_token e' = pe_cancel_token e \<and> pe_cancelled e' = pe_cancelled e \<and> pe_next_token e' = pe_next_token e
   \<and> pe_calls e' = pe_calls e
   \<and> pe_state e' =
      (if task_pc (pe_tasks e ! k) = After_Loop \<and> pe_state e = Running then Halted else pe_state e)"
  using task_step_fields task_step_state by (fastforce simp: run_task_some)

lemma run_call_some:
  "run_call j e = Some e' \<longleftrightarrow>
   j < length (pe_calls e)
   \<and> (\<exists>e1 c. call_step (pe_calls e ! j) e = Some (e1, c) \<and> e' = e1\<lparr>pe_calls := (pe_calls e)[j := c]\<rparr>)"
  by (auto simp: run_call_def split: option.splits)

lemma call_step_arcs:
  "call_step c e = Some (e', c') \<Longrightarrow> pe_state e' = pe_state e \<or> (pe_state e, pe_state e') \<in> set program_arcs"
proof (cases "call_pc c = Transition")
  case True
  assume "call_step c e = Some (e', c')"
  with True show ?thesis
    by (cases "call_method c"; cases "psm_state (pe_state_machine e)")
      (auto simp: call_step_def psm_defs pe_state_def program_arcs_def)
next
  case False
  assume "call_step c e = Some (e', c')"
  with False show ?thesis by (auto simp: call_step_def split: call_pc.splits)
qed

text \<open>A call without interruption does what the method does.\<close>

lemma uninterrupted_call:
  "\<exists>n tk. program_trace (Enter m # replicate n (Advance (length (pe_calls e)))) e
     = Some ((snd (handle_program_method m e))\<lparr>pe_calls := pe_calls e @
         [\<lparr>call_method = m, call_token = tk, call_pc = Returned, call_result = fst (handle_program_method m e)\<rparr>]\<rparr>)"
proof (cases "method_transition m (pe_state_machine e)")
  case (Inl st)
  then show ?thesis
    by (intro exI [of _ "Suc 0"] exI [of _ 0], cases m)
      (simp_all add: enter_call_def run_call_def call_step_def engine_start_def engine_suspend_def engine_resume_def
        engine_halt_def engine_reset_def)
next
  case (Inr sm)
  show ?thesis
    by (intro exI [of _ "case m of Start \<Rightarrow> 5 | Suspend \<Rightarrow> 2 | _ \<Rightarrow> 3"] exI [of _ "if m = Start then pe_next_token e else 0"], cases m)
      (use Inr in \<open>simp_all add: eval_nat_numeral enter_call_def run_call_def call_step_def engine_start_def engine_suspend_def
        engine_resume_def engine_halt_def engine_reset_def sync_address_space_def notify_one_def waiting_tasks_def Let_def\<close>)
qed

lemma program_step_follows_arcs:
  assumes "program_step e e'"
  shows "pe_state e' = pe_state e \<or> (pe_state e, pe_state e') \<in> set program_arcs"
  using assms
proof cases
  case (program_stepI a)
  show ?thesis
  proof (cases a)
    case (Call m)
    with program_stepI have e': "e' = snd (handle_program_method m e)" by simp
    show ?thesis
    proof (cases rule: program_call_cases [of m e])
      case start
      with engine_start_fields [of e e'] e' show ?thesis by (simp add: program_arcs_def)
    next
      case suspend
      with engine_suspend_fields [of e e'] e' show ?thesis by (simp add: program_arcs_def)
    next
      case resume
      with engine_resume_fields [of e e'] e' show ?thesis by (simp add: program_arcs_def)
    next
      case halt
      with engine_halt_fields [of e e'] e' show ?thesis
        by (cases "pe_state e") (simp_all add: program_arcs_def)
    next
      case reset
      with engine_reset_fields [of e e'] e' show ?thesis by (simp add: program_arcs_def)
    qed (simp add: e')
  next
    case (Advance j)
    with program_stepI obtain e1 c where c: "call_step (pe_calls e ! j) e = Some (e1, c)" "pe_state e' = pe_state e1"
      by (auto simp: run_call_some)
    from call_step_arcs [OF c(1)] c(2) show ?thesis by simp
  next
    case (Enter m)
    with program_stepI show ?thesis by (auto simp: enter_call_def)
  next
    case (Poll b k)
    with program_stepI run_task_fields [of b k e e'] show ?thesis
      by (auto simp: program_arcs_def split: if_splits)
  qed
qed

section \<open>Invariants of every execution\<close>

definition program_inv :: "ProgramEngine \<Rightarrow> bool" where
  "program_inv e \<longleftrightarrow>
     pe_cancel_token e < pe_next_token e \<and> (\<forall>n\<ge>pe_next_token e. \<not> pe_cancelled e n)
     \<and> (\<forall>t\<in>set (pe_tasks e). 1 \<le> task_i t \<and> task_i t \<le> last_i) \<and> unat (pe_progress e) \<le> last_i"

lemma task_step_bounds:
  assumes "task_step b t e = Some (e', t')" "1 \<le> task_i t" "task_i t \<le> last_i" "unat (pe_progress e) \<le> last_i"
  shows "1 \<le> task_i t' \<and> task_i t' \<le> last_i \<and> unat (pe_progress e') \<le> last_i"
  using assms
  by (auto simp: task_step_def Let_def last_i_def unat_of_nat take_bit_eq_mod split: task_pc.splits if_splits)

lemma program_inv_call:
  assumes "program_inv e"
  shows "program_inv (snd (handle_program_method m e))"
proof -
  obtain e' where e': "e' = snd (handle_program_method m e)" by simp
  show ?thesis
  proof (cases rule: program_call_cases [of m e])
    case start
    with engine_start_fields [of e e'] e' assms show ?thesis
      by (auto simp: program_inv_def last_i_def)
  next
    case suspend
    with engine_suspend_fields [of e e'] e' assms show ?thesis by (simp add: program_inv_def)
  next
    case resume
    with engine_resume_fields [of e e'] e' assms show ?thesis by (simp add: program_inv_def)
  next
    case halt
    with engine_halt_fields [of e e'] e' assms show ?thesis by (auto simp: program_inv_def)
  next
    case reset
    with engine_reset_fields [of e e'] e' assms show ?thesis by (simp add: program_inv_def last_i_def)
  qed (simp add: assms)
qed

lemma program_inv_poll:
  assumes inv: "program_inv e" and run: "run_task b k e = Some e'"
  shows "program_inv e'"
proof -
  from run obtain e1 t where k: "k < length (pe_tasks e)"
    and t: "task_step b (pe_tasks e ! k) e = Some (e1, t)" and e': "e' = e1\<lparr>pe_tasks := (pe_tasks e)[k := t]\<rparr>"
    by (auto simp: run_task_some)
  have "1 \<le> task_i (pe_tasks e ! k)" "task_i (pe_tasks e ! k) \<le> last_i" "unat (pe_progress e) \<le> last_i"
    using inv k by (simp_all add: program_inv_def)
  from task_step_bounds [OF t this] task_step_fields [OF t] inv show ?thesis
    by (auto simp: program_inv_def e' dest!: subsetD [OF set_update_subset_insert])
qed

lemma program_inv_call_step:
  "program_inv e \<Longrightarrow> call_step c e = Some (e', c') \<Longrightarrow> program_inv (e'\<lparr>pe_calls := cs\<rparr>)"
  by (auto simp: program_inv_def call_step_def last_i_def split: call_pc.splits sum.splits)

lemma program_act_inv: "program_inv e \<Longrightarrow> program_act a e = Some e' \<Longrightarrow> program_inv e'"
proof (cases a)
  case (Enter m)
  assume "program_inv e" "program_act a e = Some e'"
  with Enter show ?thesis by (auto simp: program_inv_def enter_call_def)
next
  case (Advance j)
  assume "program_inv e" "program_act a e = Some e'"
  with Advance program_inv_call_step show ?thesis by (auto simp: run_call_some)
qed (use program_inv_call program_inv_poll in auto)

lemma reachable_program_inv: "program_reachable e \<Longrightarrow> program_inv e"
proof (induction rule: program_reachable.induct)
  case (reach_new vs parent)
  then show ?case by (simp add: program_inv_def ProgramEngine_new_def last_i_def)
next
  case (reach_step e e')
  then show ?case by (auto elim!: program_step.cases intro: program_act_inv)
qed

section \<open>Executions in which a start waits for what went before\<close>

definition all_ended :: "ProgramEngine \<Rightarrow> bool" where
  "all_ended e \<longleftrightarrow> list_all (\<lambda>t. task_pc t = Ended) (pe_tasks e)"

text \<open>Between its transition and its end.\<close>

definition under_way :: "program_call \<Rightarrow> bool" where
  "under_way c \<longleftrightarrow> call_pc c \<noteq> Transition \<and> call_pc c \<noteq> Returned"

definition quiet :: "ProgramEngine \<Rightarrow> bool" where
  "quiet e \<longleftrightarrow> all_ended e \<and> (\<forall>j<length (pe_calls e). \<not> under_way (pe_calls e ! j))"

text \<open>The actions in which the transition of a start is made.\<close>

fun takes_start :: "program_action \<Rightarrow> ProgramEngine \<Rightarrow> bool" where
  "takes_start (Call m) e \<longleftrightarrow> m = Start"
| "takes_start (Advance j) e \<longleftrightarrow>
     j < length (pe_calls e) \<and> call_method (pe_calls e ! j) = Start \<and> call_pc (pe_calls e ! j) = Transition"
| "takes_start _ e \<longleftrightarrow> False"

inductive orderly :: "ProgramEngine \<Rightarrow> bool" where
  orderly_new: "orderly (ProgramEngine_new vs parent)"
| orderly_act: "orderly e \<Longrightarrow> (takes_start a e \<Longrightarrow> pe_state e = Ready \<Longrightarrow> quiet e) \<Longrightarrow> program_act a e = Some e' \<Longrightarrow> orderly e'"

lemma orderly_reachable: "orderly e \<Longrightarrow> program_reachable e"
  by (induction rule: orderly.induct) (auto intro: program_reachable.intros program_stepI)

definition in_run :: "ProgramEngine \<Rightarrow> bool" where
  "in_run e \<longleftrightarrow> pe_state e = Running \<or> pe_state e = Suspended"

definition starting :: "program_call \<Rightarrow> bool" where
  "starting c \<longleftrightarrow> call_method c = Start \<and> under_way c"

text \<open>What a call under way may rely on: no other start comes in between, a halt that has yet to cancel and
  a reset that has yet to clear the progress have ended the run, and a start has no task beside it.\<close>

definition call_inv :: "ProgramEngine \<Rightarrow> program_call \<Rightarrow> bool" where
  "call_inv e c \<longleftrightarrow>
     (call_pc c = Cancel_Token \<longrightarrow> call_method c = Halt \<and> \<not> in_run e)
     \<and> (call_pc c = Zero_Progress \<longrightarrow> call_method c = Start \<or> \<not> in_run e)
     \<and> (call_pc c \<in> {New_Token, Spawn} \<longrightarrow> call_method c = Start)
     \<and> (starting c \<longrightarrow> all_ended e \<and> (call_pc c \<in> {Sync, Spawn} \<longrightarrow> call_token c = pe_cancel_token e))"

definition fresh_token_due :: "program_call \<Rightarrow> bool" where
  "fresh_token_due c \<longleftrightarrow> starting c \<and> call_pc c \<in> {Zero_Progress, New_Token}"

text \<open>The task of the current run: it has the current token, and while the run lasts its progress is that of
  the program.\<close>

definition live_task :: "ProgramEngine \<Rightarrow> program_task \<Rightarrow> bool" where
  "live_task e t \<longleftrightarrow>
     task_token t = pe_cancel_token e
     \<and> (in_run e \<longrightarrow> (task_pc t = Publish \<longrightarrow> pe_progress e = of_nat (task_i t))
          \<and> (task_pc t = After_Loop \<longrightarrow> pe_progress e = of_nat last_i))"

definition orderly_inv :: "ProgramEngine \<Rightarrow> bool" where
  "orderly_inv e \<longleftrightarrow>
     (in_run e \<longrightarrow> (\<forall>j<length (pe_calls e). \<not> fresh_token_due (pe_calls e ! j)) \<longrightarrow> \<not> pe_cancelled e (pe_cancel_token e))
     \<and> (\<forall>j<length (pe_calls e). call_inv e (pe_calls e ! j))
     \<and> (\<forall>i<length (pe_calls e). \<forall>j<length (pe_calls e). starting (pe_calls e ! i) \<longrightarrow> starting (pe_calls e ! j) \<longrightarrow> i = j)
     \<and> (\<forall>j<length (pe_tasks e). task_pc (pe_tasks e ! j) = Ended
          \<or> Suc j = length (pe_tasks e) \<and> live_task e (pe_tasks e ! j))"

lemma all_endedD: "all_ended e \<Longrightarrow> j < length (pe_tasks e) \<Longrightarrow> task_pc (pe_tasks e ! j) = Ended"
  by (simp add: all_ended_def list_all_length)

lemma all_ended_cong: "pe_tasks e' = pe_tasks e \<Longrightarrow> all_ended e' = all_ended e"
  by (simp add: all_ended_def)

lemma in_run_cong: "pe_state e' = pe_state e \<Longrightarrow> in_run e' = in_run e"
  by (simp add: in_run_def)

text \<open>An uninterrupted call. A start begins a run of its own; the others do not begin one.\<close>

lemma orderly_inv_start:
  assumes "orderly_inv e" "program_inv e" "quiet e" "pe_state e = Ready"
  shows "orderly_inv (snd (engine_start e))"
proof -
  note f = engine_start_fields [OF assms(4) refl]
  have q: "\<not> under_way (pe_calls e ! j)" "call_inv e (pe_calls e ! j)" if "j < length (pe_calls e)" for j
    using assms(1,3) that by (simp_all add: quiet_def orderly_inv_def)
  have "call_inv (snd (engine_start e)) (pe_calls e ! j)" if "j < length (pe_calls e)" for j
    using q [OF that] by (auto simp: call_inv_def under_way_def starting_def)
  then show ?thesis
    using f q all_endedD [of e] assms(2,3)
    by (auto simp: orderly_inv_def starting_def program_inv_def live_task_def nth_append less_Suc_eq quiet_def)
qed

lemma orderly_inv_weaker_run:
  assumes "orderly_inv e" "pe_tasks e' = pe_tasks e" "pe_calls e' = pe_calls e" "pe_cancel_token e' = pe_cancel_token e"
    and "in_run e' \<Longrightarrow> in_run e \<and> pe_cancelled e' = pe_cancelled e \<and> pe_progress e' = pe_progress e"
  shows "orderly_inv e'"
proof -
  have "call_inv e' (pe_calls e ! j)" if "j < length (pe_calls e)" for j
    using assms that all_ended_cong [OF assms(2)] by (auto simp: orderly_inv_def call_inv_def)
  moreover have "live_task e' t" if "live_task e t" for t
    using assms(4,5) that by (auto simp: live_task_def)
  ultimately show ?thesis
    using assms by (auto simp: orderly_inv_def)
qed

lemma orderly_inv_call:
  assumes inv: "orderly_inv e" "program_inv e" and start: "m = Start \<Longrightarrow> pe_state e = Ready \<Longrightarrow> quiet e"
  shows "orderly_inv (snd (handle_program_method m e))"
proof -
  obtain e' where e': "e' = snd (handle_program_method m e)" by simp
  show ?thesis
  proof (cases rule: program_call_cases [of m e])
    case start
    with orderly_inv_start [OF inv] assms(3) show ?thesis by simp
  next
    case suspend
    with engine_suspend_fields [of e e'] e' inv(1) show ?thesis
      by (intro orderly_inv_weaker_run [OF inv(1)]) (auto simp: in_run_def)
  next
    case resume
    with engine_resume_fields [of e e'] e' inv(1) show ?thesis
      by (intro orderly_inv_weaker_run [OF inv(1)]) (auto simp: in_run_def)
  next
    case halt
    with engine_halt_fields [of e e'] e' inv(1) show ?thesis
      by (intro orderly_inv_weaker_run [OF inv(1)]) (auto simp: in_run_def)
  next
    case reset
    with engine_reset_fields [of e e'] e' inv(1) show ?thesis
      by (intro orderly_inv_weaker_run [OF inv(1)]) (auto simp: in_run_def)
  qed (simp add: inv)
qed

text \<open>A piece of a call that neither begins a run nor touches the tasks or the current token.\<close>

lemma orderly_inv_piece:
  assumes inv: "orderly_inv e" and j: "j < length (pe_calls e)"
    and same: "pe_tasks e' = pe_tasks e" "pe_cancel_token e' = pe_cancel_token e" "pe_calls e' = (pe_calls e)[j := c']"
    and run: "in_run e' \<Longrightarrow> in_run e \<and> pe_cancelled e' = pe_cancelled e \<and> (pe_progress e' = pe_progress e \<or> all_ended e)"
    and c': "call_inv e' c'" "starting c' \<Longrightarrow> starting (pe_calls e ! j)"
      "fresh_token_due (pe_calls e ! j) \<Longrightarrow> fresh_token_due c'"
  shows "orderly_inv e'"
proof -
  have "call_inv e' (pe_calls e ! i)" if "i < length (pe_calls e)" for i
    using inv that run same(2) all_ended_cong [OF same(1)] by (auto simp: orderly_inv_def call_inv_def)
  then have "\<forall>i<length (pe_calls e'). call_inv e' (pe_calls e' ! i)"
    using c'(1) j by (simp add: same(3) nth_list_update)
  moreover have "\<forall>i<length (pe_calls e'). \<forall>k<length (pe_calls e'). starting (pe_calls e' ! i) \<longrightarrow> starting (pe_calls e' ! k) \<longrightarrow> i = k"
    using inv j c'(2) by (simp add: same(3) nth_list_update orderly_inv_def) blast
  moreover have "\<not> pe_cancelled e' (pe_cancel_token e')"
    if "in_run e'" "\<forall>i<length (pe_calls e'). \<not> fresh_token_due (pe_calls e' ! i)"
  proof -
    have "\<not> fresh_token_due (pe_calls e ! i)" if "i < length (pe_calls e)" for i
      using \<open>\<forall>i<length (pe_calls e'). \<not> fresh_token_due (pe_calls e' ! i)\<close> c'(3) j that
      by (cases "i = j") (auto simp: same(3) nth_list_update dest!: spec [of _ i])
    with inv run [OF that(1)] same(2) show ?thesis by (simp add: orderly_inv_def)
  qed
  moreover have "task_pc (pe_tasks e ! i) = Ended \<or> Suc i = length (pe_tasks e) \<and> live_task e' (pe_tasks e ! i)"
    if i: "i < length (pe_tasks e)" for i
  proof (cases "all_ended e")
    case True
    with all_endedD i show ?thesis by simp
  next
    case False
    have "task_pc (pe_tasks e ! i) = Ended \<or> Suc i = length (pe_tasks e) \<and> live_task e (pe_tasks e ! i)"
      using inv i by (simp add: orderly_inv_def)
    with False run show ?thesis by (auto simp: live_task_def same(2))
  qed
  ultimately show ?thesis by (simp add: orderly_inv_def same(1))
qed

lemma orderly_inv_start_transition:
  assumes "orderly_inv e" "quiet e" "j < length (pe_calls e)"
    and "pe_tasks e' = pe_tasks e" "pe_calls e' = (pe_calls e)[j := c']" "fresh_token_due c'" "call_pc c' = Zero_Progress"
  shows "orderly_inv e'"
proof -
  have idle: "\<not> under_way (pe_calls e ! i)" if "i < length (pe_calls e)" for i
    using assms(2) that by (simp add: quiet_def)
  have c': "call_method c' = Start" "starting c'" using assms(6) by (simp_all add: fresh_token_due_def starting_def)
  have "call_inv e' (pe_calls e' ! i)" if "i < length (pe_calls e')" for i
    using idle [of i] that assms(2,7) c' all_ended_cong [OF assms(4)] assms(3)
    by (auto simp: assms(5) nth_list_update call_inv_def under_way_def starting_def quiet_def)
  moreover have "i = j" if "i < length (pe_calls e')" "starting (pe_calls e' ! i)" for i
    using idle [of i] that by (cases "i = j") (auto simp: assms(5) starting_def)
  moreover have "fresh_token_due (pe_calls e' ! j)" "j < length (pe_calls e')" using assms(3,5,6) by simp_all
  moreover have "task_pc (pe_tasks e' ! i) = Ended" if "i < length (pe_tasks e')" for i
    using assms(2,4) all_endedD [of e i] that by (simp add: quiet_def)
  ultimately show ?thesis unfolding orderly_inv_def by blast
qed

lemma orderly_inv_start_piece:
  assumes inv: "orderly_inv e" and j: "j < length (pe_calls e)" "starting (pe_calls e ! j)"
    and calls: "pe_calls e' = (pe_calls e)[j := c']"
    and run: "pe_state e' = pe_state e" "in_run e \<Longrightarrow> \<not> pe_cancelled e' (pe_cancel_token e')"
    and c': "call_inv e' c'"
    and tasks: "\<And>i. i < length (pe_tasks e') \<Longrightarrow>
      task_pc (pe_tasks e' ! i) = Ended \<or> Suc i = length (pe_tasks e') \<and> live_task e' (pe_tasks e' ! i)"
  shows "orderly_inv e'"
proof -
  have only: "i = j" if "i < length (pe_calls e)" "starting (pe_calls e ! i)" for i
    using inv j that by (auto simp: orderly_inv_def)
  have "call_inv e' (pe_calls e' ! i)" if "i < length (pe_calls e')" for i
  proof (cases "i = j")
    case False
    with inv only [of i] that in_run_cong [OF run(1)] show ?thesis
      by (auto simp: calls orderly_inv_def call_inv_def)
  qed (use c' that in \<open>simp add: calls\<close>)
  moreover have "i = j" if "i < length (pe_calls e')" "starting (pe_calls e' ! i)" for i
    using only [of i] that by (cases "i = j") (auto simp: calls)
  ultimately show ?thesis
    using tasks run(2) in_run_cong [OF run(1)] unfolding orderly_inv_def by blast
qed

lemma orderly_inv_advance:
  assumes inv: "orderly_inv e" "program_inv e" and run: "run_call j e = Some e'"
    and start: "takes_start (Advance j) e \<Longrightarrow> pe_state e = Ready \<Longrightarrow> quiet e"
  shows "orderly_inv e'"
proof -
  from run obtain e1 c' where j: "j < length (pe_calls e)"
    and c: "call_step (pe_calls e ! j) e = Some (e1, c')" and e': "e' = e1\<lparr>pe_calls := (pe_calls e)[j := c']\<rparr>"
    by (auto simp: run_call_some)
  let ?c = "pe_calls e ! j"
  have ci: "call_inv e ?c" using inv(1) j by (simp add: orderly_inv_def)
  note defs = call_step_def call_inv_def starting_def under_way_def fresh_token_due_def in_run_def
  show ?thesis
  proof (cases "call_pc ?c")
    case Transition
    show ?thesis
    proof (cases "method_transition (call_method ?c) (pe_state_machine e)")
      case (Inl st)
      with Transition c show ?thesis
        by (intro orderly_inv_piece [OF inv(1) j, of _ c']) (auto simp: defs e')
    next
      case (Inr sm)
      show ?thesis
      proof (cases "call_method ?c = Start")
        case True
        with Inr have "pe_state e = Ready" by (auto simp: psm_defs pe_state_def split: if_splits)
        with start True Transition j have "quiet e" by simp
        from orderly_inv_start_transition [OF inv(1) this j, of e' c'] c Transition Inr True show ?thesis
          by (auto simp: defs e')
      next
        case False
        with Inr c Transition show ?thesis
          by (intro orderly_inv_piece [OF inv(1) j, of _ c'])
            (cases "call_method ?c"; auto simp: defs e' pe_state_def psm_defs split: if_splits)+
      qed
    qed
  next
    case Zero_Progress
    with c ci show ?thesis
      by (intro orderly_inv_piece [OF inv(1) j, of _ c']) (auto simp: defs e' pe_state_def all_ended_def split: if_splits)
  next
    case New_Token
    with ci have st: "starting ?c" "all_ended e" by (auto simp: call_inv_def starting_def under_way_def)
    have tasks: "pe_tasks e' = pe_tasks e" using c New_Token by (auto simp: call_step_def e')
    show ?thesis
      using New_Token c ci st inv(2) all_endedD [OF st(2)] all_ended_cong [OF tasks]
      by (intro orderly_inv_start_piece [OF inv(1) j st(1), of e' c']) (auto simp: defs e' pe_state_def program_inv_def)
  next
    case Cancel_Token
    with c ci show ?thesis
      by (intro orderly_inv_piece [OF inv(1) j, of _ c']) (auto simp: defs e' pe_state_def all_ended_def)
  next
    case Sync
    with c ci show ?thesis
      by (intro orderly_inv_piece [OF inv(1) j, of _ c'])
        (cases "call_method ?c"; auto simp: defs e' pe_state_def all_ended_def)+
  next
    case Spawn
    with ci have st: "starting ?c" "all_ended e" "call_token ?c = pe_cancel_token e"
      by (auto simp: call_inv_def starting_def under_way_def)
    have "\<not> fresh_token_due (pe_calls e ! i)" if "i < length (pe_calls e)" for i
      using inv(1) j st(1) that Spawn by (cases "i = j") (auto simp: orderly_inv_def fresh_token_due_def)
    with inv(1) have "in_run e \<Longrightarrow> \<not> pe_cancelled e (pe_cancel_token e)" by (auto simp: orderly_inv_def)
    with Spawn c st all_endedD [OF st(2)] show ?thesis
      by (intro orderly_inv_start_piece [OF inv(1) j st(1), of e' c'])
        (auto simp: defs e' pe_state_def nth_append less_Suc_eq live_task_def)
  next
    case Notify
    with c ci show ?thesis
      by (intro orderly_inv_piece [OF inv(1) j, of _ c']) (auto simp: defs e' pe_state_def all_ended_def)
  qed (use c in \<open>simp add: call_step_def\<close>)
qed

lemma orderly_inv_enter:
  assumes "orderly_inv e"
  shows "orderly_inv (enter_call m e)"
proof -
  let ?e = "enter_call m e"
  have f: "pe_state ?e = pe_state e" "pe_tasks ?e = pe_tasks e" "pe_cancelled ?e = pe_cancelled e"
    "pe_cancel_token ?e = pe_cancel_token e" "pe_progress ?e = pe_progress e"
    by (simp_all add: enter_call_def)
  have calls: "pe_calls ?e = pe_calls e @ [\<lparr>call_method = m, call_token = 0, call_pc = Transition, call_result = Inr ()\<rparr>]"
    by (simp add: enter_call_def)
  have "call_inv ?e c = call_inv e c" for c
    using all_ended_cong [OF f(2)] in_run_cong [OF f(1)] f(4) by (simp add: call_inv_def)
  moreover have "live_task ?e t = live_task e t" for t
    using in_run_cong [OF f(1)] f(4,5) by (simp add: live_task_def)
  ultimately show ?thesis
    using assms f in_run_cong [OF f(1)]
    by (auto simp: orderly_inv_def calls nth_append less_Suc_eq starting_def under_way_def fresh_token_due_def
        call_inv_def)
qed

lemma live_task_step:
  assumes "live_task e t" "task_step b t e = Some (e', t')" "task_i t \<le> last_i"
    and "in_run e \<Longrightarrow> \<not> pe_cancelled e (pe_cancel_token e)"
  shows "live_task (e'\<lparr>pe_tasks := ts\<rparr>) t'"
proof -
  note f = task_step_fields [OF assms(2)] task_step_state [OF assms(2)]
  show ?thesis
  proof (cases "in_run e")
    case True
    with assms show ?thesis
      by (cases "task_pc t") (auto simp: live_task_def task_step_def in_run_def complete_task_state split: if_splits)
  next
    case False
    with f assms(1) show ?thesis by (auto simp: live_task_def in_run_def split: if_splits)
  qed
qed

text \<open>A task that has not ended is the last, is that of the current run, and has no start beside it.\<close>

lemma orderly_inv_alive:
  assumes inv: "orderly_inv e" and k: "k < length (pe_tasks e)" "task_pc (pe_tasks e ! k) \<noteq> Ended"
  shows "Suc k = length (pe_tasks e)" "live_task e (pe_tasks e ! k)"
    and "in_run e \<Longrightarrow> \<not> pe_cancelled e (pe_cancel_token e)"
    and "j < length (pe_calls e) \<Longrightarrow> \<not> starting (pe_calls e ! j)"
proof -
  show "Suc k = length (pe_tasks e)" "live_task e (pe_tasks e ! k)" using inv k by (auto simp: orderly_inv_def)
  have "\<not> all_ended e" using k all_endedD by blast
  with inv have "\<not> starting (pe_calls e ! i)" if "i < length (pe_calls e)" for i
    using that by (auto simp: orderly_inv_def call_inv_def)
  with inv show "in_run e \<Longrightarrow> \<not> pe_cancelled e (pe_cancel_token e)"
    and "j < length (pe_calls e) \<Longrightarrow> \<not> starting (pe_calls e ! j)"
    by (auto simp: orderly_inv_def fresh_token_due_def)
qed

lemma orderly_inv_poll:
  assumes inv: "orderly_inv e" "program_inv e" and run: "run_task b k e = Some e'"
  shows "orderly_inv e'"
proof -
  from run obtain e1 t where k: "k < length (pe_tasks e)"
    and t: "task_step b (pe_tasks e ! k) e = Some (e1, t)" and e': "e' = e1\<lparr>pe_tasks := (pe_tasks e)[k := t]\<rparr>"
    by (auto simp: run_task_some)
  note f = run_task_fields [OF run]
  have pc: "task_pc (pe_tasks e ! k) \<noteq> Ended" using t by (auto simp: task_step_def Let_def)
  note alive = orderly_inv_alive [OF inv(1) k pc]
  have run_on: "in_run e' \<Longrightarrow> in_run e" using f by (auto simp: in_run_def split: if_splits)
  have "task_i (pe_tasks e ! k) \<le> last_i" using inv(2) k by (simp add: program_inv_def)
  from live_task_step [OF alive(2) t this alive(3), of "(pe_tasks e)[k := t]"] have "live_task e' t" by (simp add: e')
  moreover have "call_inv e' (pe_calls e ! j)" if "j < length (pe_calls e)" for j
    using inv(1) that alive(4) [OF that] run_on by (auto simp: orderly_inv_def call_inv_def)
  moreover have "task_pc (pe_tasks e ! i) = Ended" if "i < length (pe_tasks e)" "i \<noteq> k" for i
    using inv(1) that alive(1) by (auto simp: orderly_inv_def)
  moreover have "pe_tasks e' = (pe_tasks e)[k := t]" by (simp add: e')
  ultimately show ?thesis
    using inv(1) f alive(1,3) k run_on
    by (auto simp: orderly_inv_def nth_list_update)
qed

lemma orderly_orderly_inv: "orderly e \<Longrightarrow> orderly_inv e"
proof (induction rule: orderly.induct)
  case (orderly_new vs parent)
  then show ?case by (simp add: orderly_inv_def ProgramEngine_new_def)
next
  case (orderly_act e a e')
  note inv = orderly_act.IH reachable_program_inv [OF orderly_reachable [OF orderly_act.hyps(1)]]
  show ?case
  proof (cases a)
    case (Call m)
    with orderly_inv_call [OF inv, of m] orderly_act.hyps(2,3) show ?thesis by simp
  next
    case (Enter m)
    with orderly_inv_enter [OF inv(1), of m] orderly_act.hyps(3) show ?thesis by simp
  next
    case (Advance j)
    with orderly_inv_advance [OF inv, of j e'] orderly_act.hyps(2,3) show ?thesis by simp
  next
    case (Poll b k)
    with orderly_inv_poll [OF inv, of b k e'] orderly_act.hyps(3) show ?thesis by simp
  qed
qed

section \<open>The undisturbed run\<close>

lemma program_trace_append:
  "program_trace (as @ bs) e = (case program_trace as e of None \<Rightarrow> None | Some e' \<Rightarrow> program_trace bs e')"
  by (induction as arbitrary: e) (auto split: option.splits)

lemma program_trace_reachable:
  "program_trace as e = Some e' \<Longrightarrow> program_reachable e \<Longrightarrow> program_reachable e'"
proof (induction as arbitrary: e)
  case (Cons a as)
  then show ?case
    by (auto split: option.splits dest: reach_step [OF _ program_stepI])
qed simp

lemma orderly_polls: "program_trace (replicate n (Poll b k)) e = Some e' \<Longrightarrow> orderly e \<Longrightarrow> orderly e'"
proof (induction n arbitrary: e)
  case (Suc n)
  then obtain e1 where "run_task b k e = Some e1" "program_trace (replicate n (Poll b k)) e1 = Some e'"
    by (auto split: option.splits)
  with Suc.IH Suc.prems(2) orderly_act [of e "Poll b k" e1] show ?case by simp
qed simp

text \<open>The task \<open>k\<close> is at the start of iteration \<open>i\<close> of a run that is neither suspended nor halted.\<close>

definition at_iteration :: "nat \<Rightarrow> nat \<Rightarrow> ProgramEngine \<Rightarrow> bool" where
  "at_iteration k i e \<longleftrightarrow>
     pe_state e = Running \<and> k < length (pe_tasks e) \<and> task_i (pe_tasks e ! k) = i
     \<and> task_pc (pe_tasks e ! k) = Check \<and> \<not> pe_cancelled e (task_token (pe_tasks e ! k))"

lemma publish_progress_tasks [simp]: "pe_tasks (publish_progress i e) = pe_tasks e"
  by (simp add: publish_progress_def)

lemma iteration_polls:
  assumes "at_iteration k i e"
  shows "program_trace (replicate 6 (Poll b k)) e =
    Some ((publish_progress i (e\<lparr>pe_progress := of_nat i\<rparr>))
      \<lparr>pe_tasks := (pe_tasks e)[k := if i < last_i then (pe_tasks e ! k)\<lparr>task_i := i + 1, task_pc := Check\<rparr>
                                   else (pe_tasks e ! k)\<lparr>task_pc := After_Loop\<rparr>]\<rparr>)"
  using assms
  by (simp add: at_iteration_def eval_nat_numeral run_task_def task_step_def publish_progress_def)

lemma iteration_next:
  assumes "at_iteration k i e" "i < last_i"
  shows "\<exists>e'. program_trace (replicate 6 (Poll b k)) e = Some e' \<and> at_iteration k (i + 1) e'
    \<and> length (pe_tasks e') = length (pe_tasks e)"
  using assms iteration_polls [OF assms(1), of b] by (simp add: at_iteration_def)

lemma iterations:
  assumes "at_iteration k i e" "i + n \<le> last_i"
  shows "\<exists>e'. program_trace (replicate (6 * n) (Poll b k)) e = Some e' \<and> at_iteration k (i + n) e'
    \<and> length (pe_tasks e') = length (pe_tasks e)"
  using assms(2)
proof (induction n)
  case 0
  then show ?case using assms(1) by simp
next
  case (Suc n)
  then obtain e1 where e1: "program_trace (replicate (6 * n) (Poll b k)) e = Some e1"
    "at_iteration k (i + n) e1" "length (pe_tasks e1) = length (pe_tasks e)"
    by auto
  from iteration_next [OF e1(2), of b] Suc.prems e1(3) obtain e2 where
    "program_trace (replicate 6 (Poll b k)) e1 = Some e2" "at_iteration k (i + n + 1) e2"
    "length (pe_tasks e2) = length (pe_tasks e)"
    by auto
  moreover have "replicate (6 * Suc n) (Poll b k) = replicate (6 * n) (Poll b k) @ replicate 6 (Poll b k)"
    by (simp add: replicate_add [symmetric] add.commute)
  ultimately show ?case
    using e1(1) by (simp add: program_trace_append)
qed

lemma update_variable_at: "update_variable s v vs s = None \<or> update_variable s v vs s = Some v"
  by (simp add: update_variable_def split: option.split)

lemma update_variable_other: "s \<noteq> r \<Longrightarrow> update_variable s v vs r = vs r"
  by (simp add: update_variable_def split: option.split)

lemma publish_end_current_state:
  "pe_variables (publish_end e) ''CurrentState'' \<in> {None, Some (PString ''Halted'')}"
  using update_variable_at [of "''CurrentState''" "PString ''Halted''" "pe_variables e"]
  by (simp add: publish_end_def Let_def update_variable_other)

lemma last_iteration:
  assumes "at_iteration k last_i e"
  shows "\<exists>e'. program_trace (replicate 8 (Poll b k)) e = Some e' \<and> pe_state e' = Halted
    \<and> pe_progress e' = of_nat last_i \<and> task_pc (pe_tasks e' ! k) = Ended
    \<and> pe_variables e' ''CurrentState'' \<in> {None, Some (PString ''Halted'')}"
proof -
  have "replicate 8 (Poll b k) = replicate 6 (Poll b k) @ [Poll b k, Poll b k]"
    by (simp add: eval_nat_numeral)
  then show ?thesis
    using iteration_polls [OF assms, of b] assms publish_end_current_state
    by (simp add: program_trace_append at_iteration_def run_task_def task_step_def complete_task_def
        pe_state_def psm_defs publish_end_def Let_def)
qed

lemma start_at_iteration:
  assumes "program_reachable e" "pe_state e = Ready"
  shows "at_iteration (length (pe_tasks e)) 1 (snd (engine_start e))"
  using engine_start_fields [of e, OF assms(2) refl] reachable_program_inv [OF assms(1)]
  by (simp add: at_iteration_def program_inv_def)

section \<open>Properties\<close>

text \<open>C38: A program that is started and left alone completes: after 602 pieces of its task,
  six for each iteration and two at the end, it is halted with its progress at 100, and the
  variable in the address space says so.\<close>

theorem program_run_completes:
  assumes "program_reachable e" "pe_state e = Ready"
  shows "\<exists>e'. program_trace (Call Start # replicate 602 (Poll b (length (pe_tasks e)))) e = Some e'
    \<and> pe_state e' = Halted \<and> pe_progress e' = 100
    \<and> task_pc (pe_tasks e' ! length (pe_tasks e)) = Ended
    \<and> pe_variables e' ''CurrentState'' \<in> {None, Some (PString ''Halted'')}"
proof -
  let ?k = "length (pe_tasks e)"
  from iterations [OF start_at_iteration [OF assms], of 99 b] obtain e1 where
    e1: "program_trace (replicate 594 (Poll b ?k)) (snd (engine_start e)) = Some e1" "at_iteration ?k last_i e1"
    by (auto simp: last_i_def)
  have "replicate 602 (Poll b ?k) = replicate 594 (Poll b ?k) @ replicate 8 (Poll b ?k)"
    by (simp add: replicate_add [symmetric])
  then show ?thesis
    using last_iteration [OF e1(2), of b] e1(1) by (auto simp: program_trace_append last_i_def)
qed

text \<open>The example program: registered, reset once.\<close>

definition example_program :: ProgramEngine where
  "example_program =
     snd (engine_reset (ProgramEngine_new [''CurrentState'' \<mapsto> PString ''Halted''] (NodeId_new 2 (Id_Numeric 1))))"

lemma example_program_ready: "orderly example_program" "pe_state example_program = Ready" "pe_tasks example_program = []"
  "pe_calls example_program = []"
proof -
  have "orderly (ProgramEngine_new [''CurrentState'' \<mapsto> PString ''Halted''] (NodeId_new 2 (Id_Numeric 1)))"
    by (rule orderly_new)
  from orderly_act [OF this, of "Call Reset" example_program] show "orderly example_program"
    by (simp add: example_program_def)
qed (simp_all add: example_program_def ProgramEngine_new_def ProgramStateMachine_new_def engine_reset_def
    psm_defs pe_state_def)

theorem program_run_completes_witness:
  "\<exists>e'. program_trace (Call Start # replicate 602 (Poll False 0)) example_program = Some e' \<and> pe_progress e' = 100"
  using program_run_completes [OF orderly_reachable [OF example_program_ready(1)] example_program_ready(2), of False]
  by (auto simp: example_program_ready(3))

text \<open>C23: When a start takes effect only with no task alive and no other call under way, a task
  changes the state of the program only by completing the run it belongs to, however the pieces of
  the calls and of the task interleave: it halts a running program, with its own token current and
  not cancelled and the progress at 100.\<close>

theorem orderly_task_completes_own_run:
  assumes "orderly e" "program_act (Poll b k) e = Some e'" "pe_state e' \<noteq> pe_state e"
  shows "pe_state e = Running \<and> pe_state e' = Halted \<and> pe_progress e = 100
    \<and> task_token (pe_tasks e ! k) = pe_cancel_token e \<and> \<not> pe_cancelled e (pe_cancel_token e)"
proof -
  from assms(2) have run: "run_task b k e = Some e'" by simp
  have k: "k < length (pe_tasks e)" using run by (simp add: run_task_some)
  from run_task_fields [OF run] assms(3)
  have s: "task_pc (pe_tasks e ! k) = After_Loop" "pe_state e = Running" "pe_state e' = Halted"
    by (auto split: if_splits)
  have "task_pc (pe_tasks e ! k) \<noteq> Ended" using s(1) by simp
  note alive = orderly_inv_alive [OF orderly_orderly_inv [OF assms(1)] k this]
  have "in_run e" using s(2) by (simp add: in_run_def)
  with alive(2,3) s show ?thesis by (simp add: live_task_def last_i_def)
qed

definition example_completion :: "ProgramEngine \<Rightarrow> bool" where
  "example_completion e \<longleftrightarrow> orderly e \<and> program_trace (Call Start # replicate 600 (Poll False 0)) example_program = Some e"

theorem orderly_task_completes_own_run_witness:
  "\<exists>e e'. example_completion e \<and> program_act (Poll False 0) e = Some e' \<and> pe_state e' = Halted \<and> pe_progress e = 100"
proof -
  let ?e0 = "snd (engine_start example_program)"
  have o0: "orderly ?e0"
    using orderly_act [OF example_program_ready(1), of "Call Start" ?e0] example_program_ready(3,4)
    by (simp add: quiet_def all_ended_def)
  have "at_iteration 0 1 ?e0"
    using start_at_iteration [OF orderly_reachable [OF example_program_ready(1)] example_program_ready(2)]
    by (simp add: example_program_ready(3))
  from iterations [OF this, of 99 False] obtain e1 where
    e1: "program_trace (replicate 594 (Poll False 0)) ?e0 = Some e1" "at_iteration 0 last_i e1"
    by (auto simp: last_i_def)
  from iteration_polls [OF e1(2), of False] obtain e where
    e: "program_trace (replicate 6 (Poll False 0)) e1 = Some e" "pe_state e = Running"
      "0 < length (pe_tasks e)" "task_pc (pe_tasks e ! 0) = After_Loop"
    using e1(2) by (auto simp: at_iteration_def)
  have "replicate 600 (Poll False 0) = replicate 594 (Poll False 0) @ replicate 6 (Poll False 0)"
    by (simp add: replicate_add [symmetric])
  then have tr: "program_trace (replicate 600 (Poll False 0)) ?e0 = Some e"
    using e1(1) e(1) by (simp add: program_trace_append)
  have oe: "orderly e" by (rule orderly_polls [OF tr o0])
  obtain e' where e': "program_act (Poll False 0) e = Some e'"
    using e(3,4) by (simp add: run_task_def task_step_def)
  moreover have "pe_state e' \<noteq> pe_state e"
    using run_task_fields [of False 0 e e'] e' e(2,4) by simp
  ultimately show ?thesis
    using orderly_task_completes_own_run [OF oe e'] tr oe by (auto simp: example_completion_def)
qed

text \<open>With a task still alive, the task of a halted run halts the next one: it is asleep when the
  program is halted, reset and started again; when it wakes up it finds the program running
  and halts it, although nobody cancelled the new run, whose task goes on.\<close>

theorem cancelled_task_halts_next_run:
  assumes "program_reachable e" "pe_state e = Running" "k < length (pe_tasks e)"
    and "task_pc (pe_tasks e ! k) = Asleep" "task_token (pe_tasks e ! k) = pe_cancel_token e"
  shows "\<exists>e'. program_trace ([Call Halt, Call Reset, Call Start] @ replicate 5 (Poll b k)) e = Some e'
    \<and> pe_state e' = Halted \<and> \<not> pe_cancelled e' (pe_cancel_token e')
    \<and> pe_tasks e' ! length (pe_tasks e) = \<lparr>task_token = pe_cancel_token e', task_i = 1, task_pc = Check\<rparr>"
proof -
  define e1 where "e1 = snd (engine_halt e)"
  define e2 where "e2 = snd (engine_reset e1)"
  define e3 where "e3 = snd (engine_start e2)"
  have "program_inv e" by (rule reachable_program_inv [OF assms(1)])
  then have e3: "pe_state e3 = Running" "pe_cancelled e3 (pe_cancel_token e)" "pe_cancel_token e3 = pe_next_token e"
    "\<not> pe_cancelled e3 (pe_next_token e)"
    "pe_tasks e3 = pe_tasks e @ [\<lparr>task_token = pe_next_token e, task_i = 1, task_pc = Check\<rparr>]"
    using engine_halt_fields [of e e1] engine_reset_fields [of e1 e2] engine_start_fields [of e2 e3] assms(2)
    by (auto simp: e1_def e2_def e3_def program_inv_def)
  have "\<exists>e'. program_trace (replicate 5 (Poll b k)) e3 = Some e' \<and> pe_state e' = Halted
      \<and> pe_cancelled e' = pe_cancelled e3 \<and> pe_cancel_token e' = pe_cancel_token e3
      \<and> pe_tasks e' ! length (pe_tasks e) = pe_tasks e3 ! length (pe_tasks e)"
    using e3 assms(3-5)
    by (cases "task_i (pe_tasks e ! k) < last_i")
      (simp_all add: eval_nat_numeral run_task_def task_step_def nth_append complete_task_state)
  then show ?thesis
    using e3 by (auto simp: e1_def e2_def e3_def program_trace_append)
qed

text \<open>The example program has been started and its task sleeps in iteration \<open>i\<close>.\<close>

lemma example_asleep:
  assumes "1 \<le> i" "i \<le> last_i"
  shows "\<exists>e. orderly e \<and> pe_state e = Running \<and> length (pe_tasks e) = 1 \<and> task_i (pe_tasks e ! 0) = i
    \<and> task_pc (pe_tasks e ! 0) = Asleep \<and> \<not> pe_cancelled e (task_token (pe_tasks e ! 0))
    \<and> task_token (pe_tasks e ! 0) = pe_cancel_token e"
proof -
  let ?e0 = "snd (engine_start example_program)"
  have o0: "orderly ?e0"
    using orderly_act [OF example_program_ready(1), of "Call Start" ?e0] example_program_ready(3,4)
    by (simp add: quiet_def all_ended_def)
  have l0: "length (pe_tasks ?e0) = 1"
    using engine_start_fields [OF example_program_ready(2) refl] by (simp add: example_program_ready(3))
  have "at_iteration 0 1 ?e0"
    using start_at_iteration [OF orderly_reachable [OF example_program_ready(1)] example_program_ready(2)]
    by (simp add: example_program_ready(3))
  from iterations [OF this, of "i - 1" False] assms obtain e1 where
    e1: "program_trace (replicate (6 * (i - 1)) (Poll False 0)) ?e0 = Some e1" "at_iteration 0 i e1"
      "length (pe_tasks e1) = 1"
    by (auto simp: l0)
  have o1: "orderly e1" by (rule orderly_polls [OF e1(1) o0])
  obtain e where e: "program_trace (replicate 3 (Poll False 0)) e1 = Some e" "pe_state e = Running"
      "length (pe_tasks e) = 1" "task_i (pe_tasks e ! 0) = i" "task_pc (pe_tasks e ! 0) = Asleep"
      "\<not> pe_cancelled e (task_token (pe_tasks e ! 0))"
    using e1(2,3) by (simp add: at_iteration_def eval_nat_numeral run_task_def task_step_def)
  have oe: "orderly e" by (rule orderly_polls [OF e(1) o1])
  have "live_task e (pe_tasks e ! 0)"
    using orderly_orderly_inv [OF oe] e(3,5) by (auto simp: orderly_inv_def)
  with oe e show ?thesis by (auto simp: live_task_def)
qed

theorem cancelled_task_halts_next_run_witness:
  "\<exists>e e'. program_reachable e \<and> pe_state e = Running
    \<and> program_trace ([Call Halt, Call Reset, Call Start] @ replicate 5 (Poll False 0)) e = Some e'
    \<and> pe_state e' = Halted \<and> \<not> pe_cancelled e' (pe_cancel_token e')"
proof -
  from example_asleep [of 7] obtain e where
    e: "orderly e" "pe_state e = Running" "length (pe_tasks e) = 1" "task_pc (pe_tasks e ! 0) = Asleep"
      "task_token (pe_tasks e ! 0) = pe_cancel_token e"
    by (auto simp: last_i_def)
  have "0 < length (pe_tasks e)" using e(3) by simp
  from cancelled_task_halts_next_run [OF orderly_reachable [OF e(1)] e(2) this e(4,5), of False] e(1,2)
  show ?thesis using orderly_reachable by blast
qed

text \<open>With another call under way, it is the call that does it: a halt has made its transition and is
  about to cancel when another client resets and starts the program; it then cancels the token of
  the new run, whose task halts the program before its first iteration. The new start is not orderly.\<close>

lemma late_cancel_halts_next_run:
  "\<exists>e'. program_trace [Enter Halt, Advance 0, Call Reset, Call Start, Advance 0, Poll False 0, Poll False 0]
      example_program = Some e'
    \<and> pe_state e' = Halted \<and> pe_progress e' = 0 \<and> task_i (pe_tasks e' ! 0) = 1"
  by (simp add: example_program_def ProgramEngine_new_def ProgramStateMachine_new_def engine_reset_def engine_start_def
      enter_call_def run_call_def call_step_def run_task_def task_step_def complete_task_def sync_address_space_def
      psm_defs pe_state_def Let_def)

text \<open>In a running program none of whose tasks is left, a method other than halt and suspend is
  refused and nothing can be polled.\<close>

fun keeps_idle :: "program_action \<Rightarrow> bool" where
  "keeps_idle (Call m) \<longleftrightarrow> m \<noteq> Halt \<and> m \<noteq> Suspend"
| "keeps_idle (Poll b k) \<longleftrightarrow> True"
| "keeps_idle _ \<longleftrightarrow> False"

lemma idle_running_stays:
  assumes "program_trace as e = Some e'" "pe_state e = Running" "all_ended e"
    and "list_all keeps_idle as"
  shows "e' = e"
  using assms
proof (induction as arbitrary: e)
  case (Cons a as)
  show ?case
  proof (cases a)
    case (Call m)
    with Cons.prems(2,4) have "snd (handle_program_method m e) = e"
      by (cases rule: program_call_cases [of m e]) auto
    with Call Cons show ?thesis by simp
  next
    case (Poll b k)
    then have "run_task b k e = None"
      using all_endedD [OF Cons.prems(3), of k] by (auto simp: run_task_def task_step_def)
    with Poll Cons.prems(1) show ?thesis by simp
  qed (use Cons.prems(4) in simp_all)
qed simp

text \<open>A program that is suspended in the sleep of its last iteration is lost: its task ends
  without completing the run, a resume then reports success, and from there on the program
  is running without a task, until it is halted or suspended again.\<close>

theorem suspended_at_end_never_completes:
  assumes "orderly e" "pe_state e = Running" "k < length (pe_tasks e)"
    and "task_pc (pe_tasks e ! k) = Asleep" "task_i (pe_tasks e ! k) = last_i"
    and "\<not> pe_cancelled e (task_token (pe_tasks e ! k))"
  shows "\<exists>e1. program_trace ([Call Suspend] @ replicate 5 (Poll b k) @ [Call Resume]) e = Some e1
    \<and> pe_state e1 = Running \<and> all_ended e1
    \<and> (\<forall>as e2. program_trace as e1 = Some e2 \<and> list_all keeps_idle as \<longrightarrow> e2 = e1)"
proof -
  define s where "s = snd (engine_suspend e)"
  have s: "pe_state s = Suspended" "pe_tasks s = pe_tasks e" "pe_cancelled s = pe_cancelled e"
    using engine_suspend_fields [OF assms(2), of s] by (simp_all add: s_def)
  obtain r where r: "program_trace (replicate 5 (Poll b k)) s = Some r" "pe_state r = Suspended"
      "pe_tasks r = (pe_tasks e)[k := (pe_tasks e ! k)\<lparr>task_pc := Ended\<rparr>]"
    using s assms(3-6)
    by (simp add: eval_nat_numeral run_task_def task_step_def complete_task_state)
  have "task_pc (pe_tasks e ! j) = Ended" if "j < length (pe_tasks e)" "j \<noteq> k" for j
    proof -
    have "task_pc (pe_tasks e ! k) \<noteq> Ended" using assms(4) by simp
    with orderly_orderly_inv [OF assms(1)] assms(3) have "Suc k = length (pe_tasks e)"
      by (auto simp: orderly_inv_def)
    with orderly_orderly_inv [OF assms(1)] that show ?thesis
      by (auto simp: orderly_inv_def)
  qed
  then have ended: "all_ended r"
    using assms(3) by (auto simp: all_ended_def list_all_length r(3) nth_list_update)
  define e1 where "e1 = snd (engine_resume r)"
  have e1: "pe_state e1 = Running" "all_ended e1"
    using engine_resume_fields [OF r(2), of e1] ended by (simp_all add: e1_def all_ended_def)
  then show ?thesis
    using r(1) idle_running_stays [OF _ e1]
    by (intro exI [of _ e1]) (auto simp: program_trace_append s_def [symmetric] e1_def)
qed

theorem suspended_at_end_never_completes_witness:
  "\<exists>e e1. orderly e \<and> program_trace ([Call Suspend] @ replicate 5 (Poll True 0) @ [Call Resume]) e = Some e1
    \<and> pe_state e1 = Running \<and> all_ended e1"
proof -
  from example_asleep [of last_i] obtain e where
    e: "orderly e" "pe_state e = Running" "length (pe_tasks e) = 1" "task_i (pe_tasks e ! 0) = last_i"
      "task_pc (pe_tasks e ! 0) = Asleep" "\<not> pe_cancelled e (task_token (pe_tasks e ! 0))"
    by (auto simp: last_i_def)
  have "0 < length (pe_tasks e)" using e(3) by simp
  from suspended_at_end_never_completes [OF e(1,2) this e(5,4,6), of True] e(1) show ?thesis by blast
qed

end
