(* ===== verification/Text_Forms.thy ===== *)
theory Text_Forms
  imports Node_Ids
begin

text \<open>
  Text forms: decimal numbers as the standard library prints and parses them, the text form of
  node ids (\<open>async-opcua-types/src/node_id/mod.rs\<close>, \<open>node_id/identifier.rs\<close>,
  \<open>expanded_node_id.rs\<close>) and of numeric ranges (\<open>numeric_range.rs\<close>). A \<open>str\<close> is its UTF-8 bytes;
  the regular expressions of the source are deterministic and are written out as prefix
  matching. The text of a GUID and base64 come from third-party crates and are parameters.
\<close>

section \<open>Printing and parsing\<close>

text \<open>What a pair of \<open>Display\<close> and \<open>FromStr\<close> promises on the values in \<open>valid\<close>.\<close>

locale text_form =
  fixes valid :: "'a \<Rightarrow> bool" and print :: "'a \<Rightarrow> bytes" and parse :: "bytes \<Rightarrow> 'a option"
  assumes parse_print: "valid x \<Longrightarrow> parse (print x) = Some x"
begin

lemma print_eq_iff: "valid x \<Longrightarrow> valid y \<Longrightarrow> print x = print y \<longleftrightarrow> x = y"
  using parse_print by (metis option.inject)

lemma printed_parses: "valid x \<Longrightarrow> parse (print x) \<noteq> None"
  by (simp add: parse_print)

end

section \<open>Decimal numbers\<close>

definition is_digit :: "u8 \<Rightarrow> bool" where
  "is_digit c \<longleftrightarrow> 48 \<le> c \<and> c \<le> 57"

definition digit :: "nat \<Rightarrow> u8" where
  "digit d = of_nat (48 + d)"

fun dec_string :: "nat \<Rightarrow> bytes" where
  "dec_string n = (if n < 10 then [digit n] else dec_string (n div 10) @ [digit (n mod 10)])"

declare dec_string.simps [simp del]

definition dec_value :: "bytes \<Rightarrow> nat" where
  "dec_value ds = foldl (\<lambda>a c. 10 * a + (unat c - 48)) 0 ds"

text \<open>\<open>str::parse\<close> of an unsigned type with values below \<open>b\<close>: an optional plus sign, then digits.\<close>

definition parse_unsigned :: "nat \<Rightarrow> bytes \<Rightarrow> nat option" where
  "parse_unsigned b s =
     (let ds = (case s of c # cs \<Rightarrow> if c = of_char CHR ''+'' then cs else s | [] \<Rightarrow> [])
      in if ds \<noteq> [] \<and> list_all is_digit ds \<and> dec_value ds < b then Some (dec_value ds) else None)"

text \<open>\<open>u32::ilog10\<close>, on positive numbers, and the length of a printed number.\<close>

fun ilog10 :: "nat \<Rightarrow> nat" where
  "ilog10 n = (if n < 10 then 0 else ilog10 (n div 10) + 1)"

declare ilog10.simps [simp del]

definition num_len :: "u32 \<Rightarrow> nat" where
  "num_len n = (if n = 0 then 1 else ilog10 (unat n) + 1)"

lemma unat_digit: "d < 10 \<Longrightarrow> unat (digit d) = 48 + d"
  unfolding digit_def by (subst unat_of_nat) simp

lemma is_digit_digit: "d < 10 \<Longrightarrow> is_digit (digit d)"
  by (simp add: is_digit_def word_le_nat_alt unat_digit)

lemma dec_string_digits: "list_all is_digit (dec_string n)"
  by (induction n rule: dec_string.induct) (subst dec_string.simps, simp add: is_digit_digit)

lemma dec_string_nonempty [simp]: "dec_string n \<noteq> []"
  by (subst dec_string.simps) simp

lemma dec_value_append: "dec_value (ds @ [c]) = 10 * dec_value ds + (unat c - 48)"
  by (simp add: dec_value_def)

lemma dec_value_dec_string [simp]: "dec_value (dec_string n) = n"
proof (induction n rule: dec_string.induct)
  case (1 n)
  show ?case
  proof (cases "n < 10")
    case True
    then show ?thesis by (subst dec_string.simps) (simp add: dec_value_def unat_digit)
  next
    case False
    with 1 show ?thesis by (subst dec_string.simps) (simp add: dec_value_append unat_digit)
  qed
qed

lemma length_dec_string: "length (dec_string n) = ilog10 n + 1"
  by (induction n rule: dec_string.induct) (subst dec_string.simps, subst ilog10.simps, simp)

lemma num_len_dec_string: "num_len n = length (dec_string (unat n))"
  by (cases "n = 0") (simp_all add: num_len_def length_dec_string, simp add: ilog10.simps)

lemma length_dec_string_le: "n < 10 ^ k \<Longrightarrow> 0 < k \<Longrightarrow> length (dec_string n) \<le> k"
proof (induction n arbitrary: k rule: dec_string.induct)
  case (1 n)
  show ?case
  proof (cases "n < 10")
    case True
    then show ?thesis using 1 by (subst dec_string.simps) simp
  next
    case False
    then obtain j where k: "k = Suc j" "0 < j"
      using 1(2,3) by (cases k; cases "k - 1") auto
    then have "n div 10 < 10 ^ j" using 1(2) by (simp add: less_mult_imp_div_less mult.commute)
    with 1(1) [OF False this k(2)] False k show ?thesis by (subst dec_string.simps) simp
  qed
qed

lemma digit_not_special: "is_digit c \<Longrightarrow> c \<noteq> 43 \<and> c \<noteq> 44 \<and> c \<noteq> 58 \<and> c \<noteq> 59 \<and> c \<noteq> 10"
  by (auto simp: is_digit_def)

lemma parse_unsigned_digits:
  "list_all is_digit ds \<Longrightarrow> ds \<noteq> [] \<Longrightarrow> parse_unsigned b ds = (if dec_value ds < b then Some (dec_value ds) else None)"
  by (cases ds) (auto simp: parse_unsigned_def of_char_def dest: digit_not_special)

lemma parse_unsigned_dec_string: "n < b \<Longrightarrow> parse_unsigned b (dec_string n) = Some n"
  by (simp add: parse_unsigned_digits dec_string_digits)

interpretation decimal: text_form "\<lambda>n. n < b" dec_string "parse_unsigned b" for b
  by unfold_locales (rule parse_unsigned_dec_string)

text \<open>Digits followed by something else are found as the longest run of digits.\<close>

lemma digits_then:
  assumes "list_all is_digit ds" "r = [] \<or> \<not> is_digit (hd r)"
  shows "takeWhile is_digit (ds @ r) = ds \<and> dropWhile is_digit (ds @ r) = r"
  using assms by (cases r) (auto simp: list_all_iff takeWhile_append dropWhile_append takeWhile_eq_all_conv)

section \<open>Numeric ranges\<close>

datatype NumericRange =
    NR_None
  | NR_Index u32
  | NR_Range u32 u32
  | NR_Multiple "NumericRange list"
  | NR_Invalid UAString

text \<open>The errors an index range leads to.\<close>

definition Status_BadIndexRangeInvalid :: StatusCode where "Status_BadIndexRangeInvalid = 0x80360000"
definition Status_BadIndexRangeNoData :: StatusCode where "Status_BadIndexRangeNoData = 0x80370000"
definition Status_BadIndexRangeDataMismatch :: StatusCode where "Status_BadIndexRangeDataMismatch = 0x80EA0000"

abbreviation comma :: u8 where "comma \<equiv> 44"
abbreviation colon :: u8 where "colon \<equiv> 58"

fun split_on :: "u8 \<Rightarrow> bytes \<Rightarrow> bytes list" where
  "split_on c [] = [[]]"
| "split_on c (x # xs) =
     (if x = c then [] # split_on c xs
      else (case split_on c xs of y # ys \<Rightarrow> (x # y) # ys | [] \<Rightarrow> [[x]]))"

definition parse_range :: "bytes \<Rightarrow> NumericRange option" where
  "parse_range s =
     (let mn = takeWhile is_digit s; rest = dropWhile is_digit s
      in if mn = [] \<or> 10 < length mn then None
         else case rest of
           [] \<Rightarrow> map_option (\<lambda>v. NR_Index (of_nat v)) (parse_unsigned (2 ^ 32) mn)
         | c # mx \<Rightarrow>
             if c \<noteq> colon \<or> mx = [] \<or> 10 < length mx \<or> \<not> list_all is_digit mx then None
             else (case (parse_unsigned (2 ^ 64) mn, parse_unsigned (2 ^ 64) mx) of
                     (Some a, Some b) \<Rightarrow>
                       if b \<le> a \<or> 2 ^ 32 - 1 < b then None else Some (NR_Range (of_nat a) (of_nat b))
                   | _ \<Rightarrow> None))"

fun parse_ranges :: "bytes list \<Rightarrow> NumericRange list option" where
  "parse_ranges [] = Some []"
| "parse_ranges (p # ps) =
     (case parse_range p of
        None \<Rightarrow> None
      | Some r \<Rightarrow> (case parse_ranges ps of None \<Rightarrow> None | Some rs \<Rightarrow> Some (r # rs)))"

definition numeric_range_of_text :: "bytes \<Rightarrow> NumericRange option" where
  "numeric_range_of_text s =
     (if s = [] then Some NR_None
      else case split_on comma s of
        [p] \<Rightarrow> parse_range p
      | parts \<Rightarrow> map_option NR_Multiple (parse_ranges parts))"

fun join_comma :: "bytes list \<Rightarrow> bytes" where
  "join_comma [] = []"
| "join_comma [x] = x"
| "join_comma (x # y # zs) = x @ comma # join_comma (y # zs)"

fun numeric_range_text :: "NumericRange \<Rightarrow> bytes" where
  "numeric_range_text NR_None = []"
| "numeric_range_text (NR_Index i) = dec_string (unat i)"
| "numeric_range_text (NR_Range a b) = dec_string (unat a) @ colon # dec_string (unat b)"
| "numeric_range_text (NR_Multiple rs) = join_comma (map numeric_range_text rs)"
| "numeric_range_text (NR_Invalid s) = UAString_as_ref s"

fun numeric_range_is_valid :: "NumericRange \<Rightarrow> bool" where
  "numeric_range_is_valid NR_None = True"
| "numeric_range_is_valid (NR_Index i) = True"
| "numeric_range_is_valid (NR_Range a b) = (a < b)"
| "numeric_range_is_valid (NR_Multiple rs) =
     list_all (\<lambda>r. (case r of NR_Multiple _ \<Rightarrow> False | _ \<Rightarrow> True) \<and> numeric_range_is_valid r) rs"
| "numeric_range_is_valid (NR_Invalid s) = False"

text \<open>\<open>byte_len\<close>; \<open>None\<close> is the overflow of \<open>0 - 1\<close> on a \<open>usize\<close>.\<close>

fun numeric_range_byte_len :: "NumericRange \<Rightarrow> nat option" where
  "numeric_range_byte_len NR_None = Some 4"
| "numeric_range_byte_len (NR_Index i) = Some (4 + num_len i)"
| "numeric_range_byte_len (NR_Range a b) = Some (4 + (num_len a + num_len b + 1))"
| "numeric_range_byte_len (NR_Multiple rs) =
     (case those (map numeric_range_byte_len rs) of
        None \<Rightarrow> None
      | Some ls \<Rightarrow> if sum_list ls + length rs = 0 then None else Some (4 + (sum_list ls + length rs - 1)))"
| "numeric_range_byte_len (NR_Invalid s) = Some (4 + length (UAString_as_ref s))"

definition from_ua_string :: "UAString \<Rightarrow> NumericRange" where
  "from_ua_string s =
     (case numeric_range_of_text (UAString_as_ref s) of Some r \<Rightarrow> r | None \<Rightarrow> NR_Invalid s)"

definition to_ua_string :: "NumericRange \<Rightarrow> UAString" where
  "to_ua_string r =
     (case r of NR_None \<Rightarrow> None | NR_Invalid s \<Rightarrow> s | _ \<Rightarrow> Some (numeric_range_text r))"

definition encode_NumericRange :: "NumericRange \<Rightarrow> bytes encoding_result" where
  "encode_NumericRange r = encode_UAString (to_ua_string r)"

definition decode_NumericRange :: "DecodingOptions \<Rightarrow> NumericRange decoder" where
  "decode_NumericRange opts = rd_map from_ua_string (decode_UAString opts)"

text \<open>The ranges a text can stand for: one dimension, or at least two.\<close>

definition dimension_ok :: "NumericRange \<Rightarrow> bool" where
  "dimension_ok r = (case r of NR_Index _ \<Rightarrow> True | NR_Range a b \<Rightarrow> a < b | _ \<Rightarrow> False)"

definition range_ok :: "NumericRange \<Rightarrow> bool" where
  "range_ok r =
     (case r of NR_None \<Rightarrow> True | NR_Multiple rs \<Rightarrow> 2 \<le> length rs \<and> list_all dimension_ok rs
      | _ \<Rightarrow> dimension_ok r)"

lemma range_ok_valid: "range_ok r \<Longrightarrow> numeric_range_is_valid r"
  by (cases r) (auto simp: range_ok_def dimension_ok_def list_all_iff split: NumericRange.splits)

lemma is_digit_sep [simp]: "\<not> is_digit comma" "\<not> is_digit colon"
  by (simp_all add: is_digit_def)

lemma split_on_nonempty [simp]: "split_on c s \<noteq> []"
  by (induction s) (auto split: list.splits)

lemma split_on_plain: "c \<notin> set s \<Longrightarrow> split_on c s = [s]"
  by (induction s) auto

lemma split_on_append: "c \<notin> set x \<Longrightarrow> split_on c (x @ c # s) = x # split_on c s"
  by (induction x) auto

lemma split_on_join:
  assumes "\<forall>x\<in>set xs. comma \<notin> set x" "xs \<noteq> []"
  shows "split_on comma (join_comma xs) = xs"
  using assms by (induction xs rule: join_comma.induct) (auto simp: split_on_plain split_on_append)

lemma dimension_text_no_comma: "dimension_ok r \<Longrightarrow> comma \<notin> set (numeric_range_text r) \<and> numeric_range_text r \<noteq> []"
  using dec_string_digits
  by (cases r) (auto simp: dimension_ok_def list_all_iff dest!: digit_not_special)

lemma unat_u32: "unat (i :: u32) < 4294967296"
  using unsigned_less [of i] by simp

lemma dec_string_u32: "length (dec_string (unat (i :: u32))) \<le> 10"
  using unat_u32 [of i] by (intro length_dec_string_le) simp_all

lemma parse_range_dimension:
  assumes "dimension_ok r"
  shows "parse_range (numeric_range_text r) = Some r"
proof (cases r)
  case (NR_Index i)
  have d: "takeWhile is_digit (dec_string (unat i)) = dec_string (unat i)"
    "dropWhile is_digit (dec_string (unat i)) = []"
    using digits_then [OF dec_string_digits, of "[]" "unat i"] by simp_all
  show ?thesis
    using dec_string_u32 [of i] unat_u32 [of i]
    by (simp only: NR_Index numeric_range_text.simps parse_range_def Let_def d)
      (simp add: parse_unsigned_dec_string)
next
  case (NR_Range a b)
  have d: "takeWhile is_digit (dec_string (unat a) @ colon # dec_string (unat b)) = dec_string (unat a)"
    "dropWhile is_digit (dec_string (unat a) @ colon # dec_string (unat b)) = colon # dec_string (unat b)"
    using digits_then [OF dec_string_digits, of "colon # dec_string (unat b)" "unat a"] by simp_all
  have lt: "unat a < 2 ^ 32" "unat b < 2 ^ 32" using unat_u32 [of a] unat_u32 [of b] by simp_all
  have "a < b" using assms by (simp add: NR_Range dimension_ok_def)
  then have "unat a < unat b" by (simp add: word_less_nat_alt)
  then show ?thesis
    using d lt dec_string_u32 [of a] dec_string_u32 [of b]
    by (simp only: NR_Range numeric_range_text.simps parse_range_def Let_def d)
      (simp add: parse_unsigned_dec_string dec_string_digits)
qed (use assms in \<open>auto simp: dimension_ok_def\<close>)

lemma parse_ranges_dimensions:
  "list_all dimension_ok rs \<Longrightarrow> parse_ranges (map numeric_range_text rs) = Some rs"
  by (induction rs) (auto simp: parse_range_dimension)

lemma range_text_round_trip: "range_ok r \<Longrightarrow> numeric_range_of_text (numeric_range_text r) = Some r"
proof (cases r)
  case (NR_Multiple rs)
  assume ok: "range_ok r"
  then have rs: "2 \<le> length rs" "list_all dimension_ok rs" by (simp_all add: NR_Multiple range_ok_def)
  then obtain a b cs where abc: "rs = a # b # cs" by (cases rs; cases "tl rs") auto
  have "split_on comma (join_comma (map numeric_range_text rs)) = map numeric_range_text rs"
    using rs dimension_text_no_comma by (intro split_on_join) (auto simp: list_all_iff)
  moreover have "join_comma (map numeric_range_text rs) \<noteq> []"
    using rs(2) dimension_text_no_comma by (simp add: abc)
  moreover have "parse_ranges (map numeric_range_text rs) = Some rs"
    by (rule parse_ranges_dimensions [OF rs(2)])
  ultimately show ?thesis
    by (simp add: NR_Multiple numeric_range_of_text_def abc)
next
  case NR_None
  then show ?thesis by (simp add: numeric_range_of_text_def)
qed (use dimension_text_no_comma parse_range_dimension in
    \<open>auto simp: range_ok_def numeric_range_of_text_def split_on_plain simp del: numeric_range_text.simps\<close>)

interpretation range_text: text_form range_ok numeric_range_text numeric_range_of_text
  by unfold_locales (rule range_text_round_trip)

text \<open>What the parser accepts is well formed.\<close>

lemma parse_range_ok: "parse_range s = Some r \<Longrightarrow> dimension_ok r"
  by (auto simp: parse_range_def Let_def dimension_ok_def word_less_nat_alt unat_of_nat
      split: if_splits list.splits option.splits)

lemma parse_ranges_ok: "parse_ranges ps = Some rs \<Longrightarrow> length rs = length ps \<and> list_all dimension_ok rs"
  by (induction ps arbitrary: rs) (auto split: option.splits dest: parse_range_ok)

lemma dimension_range_ok: "dimension_ok r \<Longrightarrow> range_ok r"
  by (auto simp: range_ok_def dimension_ok_def split: NumericRange.splits)

lemma numeric_range_of_text_ok:
  assumes "numeric_range_of_text s = Some r"
  shows "range_ok r"
proof -
  consider (empty) "s = []" | (single) p where "s \<noteq> []" "split_on comma s = [p]"
    | (several) p q ps where "s \<noteq> []" "split_on comma s = p # q # ps"
    using split_on_nonempty [of comma s] by (cases "split_on comma s"; cases "tl (split_on comma s)") auto
  then show ?thesis
  proof cases
    case empty
    with assms show ?thesis by (auto simp: numeric_range_of_text_def range_ok_def)
  next
    case single
    with assms show ?thesis
      by (auto simp: numeric_range_of_text_def dest: parse_range_ok dimension_range_ok)
  next
    case several
    with assms obtain rs where "parse_ranges (p # q # ps) = Some rs" "r = NR_Multiple rs"
      by (auto simp: numeric_range_of_text_def simp del: parse_ranges.simps)
    with parse_ranges_ok [of "p # q # ps" rs] show ?thesis by (simp add: range_ok_def)
  qed
qed

lemma range_byte_len_dimension:
  "dimension_ok r \<Longrightarrow> numeric_range_byte_len r = Some (4 + length (numeric_range_text r))"
  by (cases r) (auto simp: dimension_ok_def num_len_dec_string)

lemma length_join_comma: "xs \<noteq> [] \<Longrightarrow> length (join_comma xs) = sum_list (map length xs) + length xs - 1"
  by (induction xs rule: join_comma.induct) auto

lemma those_map_Some: "(\<And>x. x \<in> set xs \<Longrightarrow> f x = Some (g x)) \<Longrightarrow> those (map f xs) = Some (map g xs)"
  by (induction xs) auto

lemma range_byte_len_multiple:
  assumes "list_all dimension_ok rs" "rs \<noteq> []"
  shows "numeric_range_byte_len (NR_Multiple rs) = Some (4 + length (numeric_range_text (NR_Multiple rs)) + 4 * length rs)"
proof -
  have "those (map numeric_range_byte_len rs) = Some (map (\<lambda>r. 4 + length (numeric_range_text r)) rs)"
    using assms(1) by (intro those_map_Some) (auto simp: list_all_iff range_byte_len_dimension)
  moreover have "sum_list (map (\<lambda>r. 4 + length (numeric_range_text r)) rs)
      = sum_list (map (\<lambda>r. length (numeric_range_text r)) rs) + 4 * length rs"
    by (induction rs) auto
  ultimately show ?thesis
    using assms(2) by (cases rs) (auto simp: length_join_comma comp_def)
qed

section \<open>Node ids\<close>

text \<open>The third-party text forms: a GUID (\<open>uuid\<close>, hyphenated) and base64 (\<open>base64\<close>, standard alphabet).\<close>

record opaque_text =
  guid_text :: "Guid \<Rightarrow> bytes"
  guid_of_text :: "bytes \<Rightarrow> Guid option"
  base64_text :: "bytes \<Rightarrow> bytes"
  base64_of_text :: "bytes \<Rightarrow> bytes option"

abbreviation newline :: u8 where "newline \<equiv> 10"
abbreviation semicolon :: u8 where "semicolon \<equiv> 59"

text \<open>What the documentation of the two crates promises: what they print is ASCII without a line
  break, is not empty for a value that is not, and is parsed to the value.\<close>

definition plain_char :: "u8 \<Rightarrow> bool" where
  "plain_char c \<longleftrightarrow> c < 128 \<and> c \<noteq> newline"

definition opaque_text_ok :: "opaque_text \<Rightarrow> bool" where
  "opaque_text_ok t \<longleftrightarrow>
     (\<forall>g. length g = 16 \<longrightarrow> guid_of_text t (guid_text t g) = Some g \<and> guid_text t g \<noteq> []
        \<and> list_all plain_char (guid_text t g))
     \<and> (\<forall>b. base64_of_text t (base64_text t b) = Some b \<and> (b \<noteq> [] \<longrightarrow> base64_text t b \<noteq> [])
        \<and> list_all plain_char (base64_text t b))"

definition ua_string_text :: "UAString \<Rightarrow> bytes" where
  "ua_string_text s = (case s of Some v \<Rightarrow> v | None \<Rightarrow> ascii ''[null]'')"

definition as_base64 :: "opaque_text \<Rightarrow> ByteString \<Rightarrow> bytes" where
  "as_base64 t b = (case b of Some v \<Rightarrow> base64_text t v | None \<Rightarrow> base64_text t [])"

fun identifier_text :: "opaque_text \<Rightarrow> Identifier \<Rightarrow> bytes" where
  "identifier_text t (Id_Numeric v) = ascii ''i='' @ dec_string (unat v)"
| "identifier_text t (Id_String v) = ascii ''s='' @ ua_string_text v"
| "identifier_text t (Id_Guid v) = ascii ''g='' @ guid_text t v"
| "identifier_text t (Id_ByteString v) = ascii ''b='' @ as_base64 t v"

definition node_id_text :: "opaque_text \<Rightarrow> NodeId \<Rightarrow> bytes" where
  "node_id_text t n =
     (if nid_namespace n \<noteq> 0
      then ascii ''ns='' @ dec_string (unat (nid_namespace n)) @ semicolon # identifier_text t (nid_identifier n)
      else identifier_text t (nid_identifier n))"

text \<open>\<open>Identifier::from_str\<close>: slicing at byte 2 panics inside a character, whose later bytes are
  \<open>10xxxxxx\<close>: the outer \<open>None\<close>.\<close>

definition identifier_of_text :: "opaque_text \<Rightarrow> bytes \<Rightarrow> Identifier option option" where
  "identifier_of_text t s =
     (if length s < 2 then Some None
      else if 2 < length s \<and> 128 \<le> s ! 2 \<and> s ! 2 < 192 then None
      else
        let k = take 2 s; v = drop 2 s
        in Some (if k = ascii ''i='' then map_option (\<lambda>n. Id_Numeric (of_nat n)) (parse_unsigned (2 ^ 32) v)
                 else if k = ascii ''s='' then Some (Id_String (Some v))
                 else if k = ascii ''g='' then map_option Id_Guid (guid_of_text t v)
                 else if k = ascii ''b='' then map_option (\<lambda>b. Id_ByteString (Some b)) (base64_of_text t v)
                 else None))"

definition BadNodeIdInvalid :: StatusCode where "BadNodeIdInvalid = 0x80330000"

text \<open>The expression \<open>^(ns=(?P<ns>[0-9]+);)?(?P<t>[isgb]=.+)$\<close>: the optional prefix and the rest.\<close>

definition ns_prefix :: "bytes \<Rightarrow> bytes option \<times> bytes" where
  "ns_prefix s =
     (let d = takeWhile is_digit (drop 3 s); r = dropWhile is_digit (drop 3 s)
      in if take 3 s = ascii ''ns='' \<and> d \<noteq> [] \<and> r \<noteq> [] \<and> hd r = semicolon then (Some d, tl r)
         else (None, s))"

definition is_type_text :: "bytes \<Rightarrow> bool" where
  "is_type_text s \<longleftrightarrow>
     2 < length s \<and> s ! 0 \<in> set (ascii ''isgb'') \<and> s ! 1 = of_char CHR ''='' \<and> newline \<notin> set (drop 2 s)"

definition node_id_of_text :: "opaque_text \<Rightarrow> bytes \<Rightarrow> (StatusCode + NodeId) option" where
  "node_id_of_text t s =
     (case ns_prefix s of (ns, r) \<Rightarrow>
        if \<not> is_type_text r then Some (Inl BadNodeIdInvalid)
        else (case (case ns of Some d \<Rightarrow> parse_unsigned (2 ^ 16) d | None \<Rightarrow> Some 0) of
                None \<Rightarrow> Some (Inl BadNodeIdInvalid)
              | Some n \<Rightarrow>
                  (case identifier_of_text t r of
                     None \<Rightarrow> None
                   | Some None \<Rightarrow> Some (Inl BadNodeIdInvalid)
                   | Some (Some i) \<Rightarrow> Some (Inr (NodeId_new (of_nat n) i)))))"

section \<open>Expanded node ids\<close>

text \<open>\<open>str::replace\<close>: the occurrences from left to right, without overlap.\<close>

function str_replace :: "bytes \<Rightarrow> bytes \<Rightarrow> bytes \<Rightarrow> bytes" where
  "str_replace p r s =
     (if s = [] then []
      else if p \<noteq> [] \<and> take (length p) s = p then r @ str_replace p r (drop (length p) s)
      else hd s # str_replace p r (tl s))"
  by pat_completeness auto
termination
  by (relation "measure (\<lambda>(p, r, s). length s)") auto

declare str_replace.simps [simp del]

definition escape_uri :: "bytes \<Rightarrow> bytes" where
  "escape_uri u =
     str_replace (ascii '';'') (ascii ''%3b'') (str_replace (ascii ''%'') (ascii ''%25'') u)"

definition unescape_uri :: "bytes \<Rightarrow> bytes" where
  "unescape_uri u =
     str_replace (ascii ''%25'') (ascii ''%'') (str_replace (ascii ''%3b'') (ascii '';'') u)"

definition expanded_node_id_text :: "opaque_text \<Rightarrow> ExpandedNodeId \<Rightarrow> bytes" where
  "expanded_node_id_text t e =
     (if UAString_is_empty (namespace_uri e)
      then ascii ''svr='' @ dec_string (unat (server_index e)) @ semicolon # node_id_text t (node_id e)
      else ascii ''svr='' @ dec_string (unat (server_index e)) @ semicolon # ascii ''nsu=''
             @ escape_uri (UAString_as_ref (namespace_uri e)) @ semicolon # identifier_text t (nid_identifier (node_id e)))"

definition strip_prefix :: "bytes \<Rightarrow> bytes \<Rightarrow> bytes option" where
  "strip_prefix p s = (if take (length p) s = p then Some (drop (length p) s) else None)"

definition split_once :: "u8 \<Rightarrow> bytes \<Rightarrow> (bytes \<times> bytes) option" where
  "split_once c s =
     (case dropWhile (\<lambda>x. x \<noteq> c) s of [] \<Rightarrow> None | _ # r \<Rightarrow> Some (takeWhile (\<lambda>x. x \<noteq> c) s, r))"

definition expanded_node_id_of_text :: "opaque_text \<Rightarrow> bytes \<Rightarrow> (StatusCode + ExpandedNodeId) option" where
  "expanded_node_id_of_text t s =
     try_bind
       (case strip_prefix (ascii ''svr='') s of
          None \<Rightarrow> Some (Inr (0, s))
        | Some after \<Rightarrow>
            (case split_once semicolon after of
               None \<Rightarrow> Some (Inl BadNodeIdInvalid)
             | Some (digits, r) \<Rightarrow>
                 (case parse_unsigned (2 ^ 32) digits of
                    None \<Rightarrow> Some (Inl BadNodeIdInvalid)
                  | Some v \<Rightarrow> Some (Inr (v, r))))) (\<lambda>(svr, s1).
     try_bind
       (case strip_prefix (ascii ''nsu='') s1 of
          None \<Rightarrow> Some (Inr (None, s1))
        | Some after \<Rightarrow>
            (case split_once semicolon after of
               None \<Rightarrow> Some (Inl BadNodeIdInvalid)
             | Some (u, r) \<Rightarrow>
                 if u = [] then Some (Inl BadNodeIdInvalid)
                 else if strip_prefix (ascii ''ns='') r \<noteq> None then Some (Inl BadNodeIdInvalid)
                 else Some (Inr (Some (unescape_uri u), r)))) (\<lambda>(uri, s2).
     try_bind (node_id_of_text t s2) (\<lambda>n.
     Some (Inr \<lparr>node_id = n, namespace_uri = uri, server_index = of_nat svr\<rparr>))))"

section \<open>Round trips\<close>

definition identifier_text_ok :: "Identifier \<Rightarrow> bool" where
  "identifier_text_ok i =
     (case i of
        Id_Numeric _ \<Rightarrow> True
      | Id_String s \<Rightarrow> (case s of None \<Rightarrow> False | Some v \<Rightarrow> v \<noteq> [] \<and> newline \<notin> set v \<and> utf8_valid v)
      | Id_Guid g \<Rightarrow> length g = 16
      | Id_ByteString b \<Rightarrow> (case b of None \<Rightarrow> False | Some v \<Rightarrow> v \<noteq> []))"

lemma utf8_valid_first: "utf8_valid (c # cs) \<Longrightarrow> \<not> (128 \<le> c \<and> c < 192)"
  by (auto split: if_splits simp: word_le_nat_alt word_less_nat_alt)

lemma ascii_literals:
  "(of_char CHR ''i'' :: u8) = 105" "(of_char CHR ''s'' :: u8) = 115" "(of_char CHR ''g'' :: u8) = 103"
  "(of_char CHR ''b'' :: u8) = 98" "(of_char CHR ''n'' :: u8) = 110" "(of_char CHR ''u'' :: u8) = 117"
  "(of_char CHR ''='' :: u8) = 61" "(of_char CHR ''v'' :: u8) = 118" "(of_char CHR ''r'' :: u8) = 114"
  "(of_char CHR '';'' :: u8) = 59" "(of_char CHR ''%'' :: u8) = 37" "(of_char CHR ''2'' :: u8) = 50"
  "(of_char CHR ''5'' :: u8) = 53" "(of_char CHR ''3'' :: u8) = 51"
  by (simp_all add: of_char_def)

lemma type_text:
  assumes "c \<in> {105, 115, 103, 98}" "v \<noteq> []" "newline \<notin> set v"
  shows "is_type_text (c # 61 # v) \<and> ns_prefix (c # 61 # v) = (None, c # 61 # v)"
  using assms by (cases v) (auto simp: is_type_text_def ns_prefix_def ascii_literals Let_def)

lemma identifier_of_type_text:
  assumes "v \<noteq> []" "\<not> (128 \<le> hd v \<and> hd v < 192)"
  shows "identifier_of_text t (105 # 61 # v) = Some (map_option (\<lambda>n. Id_Numeric (of_nat n)) (parse_unsigned (2 ^ 32) v))"
    and "identifier_of_text t (115 # 61 # v) = Some (Some (Id_String (Some v)))"
    and "identifier_of_text t (103 # 61 # v) = Some (map_option Id_Guid (guid_of_text t v))"
    and "identifier_of_text t (98 # 61 # v) = Some (map_option (\<lambda>b. Id_ByteString (Some b)) (base64_of_text t v))"
  using assms by (cases v; simp add: identifier_of_text_def ascii_literals Let_def)+

lemma plain_chars: "list_all plain_char v \<Longrightarrow> newline \<notin> set v \<and> (v \<noteq> [] \<longrightarrow> \<not> 128 \<le> hd v)"
  by (cases v) (auto simp: plain_char_def list_all_iff word_le_nat_alt word_less_nat_alt)

lemma dec_string_plain: "list_all plain_char (dec_string n)"
  using dec_string_digits [of n]
  by (auto simp: list_all_iff plain_char_def is_digit_def word_le_nat_alt word_less_nat_alt)

lemma identifier_text_round_trip:
  assumes t: "opaque_text_ok t" and i: "identifier_text_ok i"
  shows "identifier_of_text t (identifier_text t i) = Some (Some i)
    \<and> is_type_text (identifier_text t i) \<and> ns_prefix (identifier_text t i) = (None, identifier_text t i)"
proof (cases i)
  case (Id_Numeric v)
  show ?thesis
    using type_text [of 105 "dec_string (unat v)"] identifier_of_type_text(1) [of "dec_string (unat v)" t]
      plain_chars [OF dec_string_plain [of "unat v"]] unat_u32 [of v]
    by (simp add: Id_Numeric ascii_literals parse_unsigned_dec_string)
next
  case (Id_String s)
  with i obtain v where v: "s = Some v" "v \<noteq> []" "newline \<notin> set v" "utf8_valid v"
    by (auto simp: identifier_text_ok_def split: option.splits)
  then have "\<not> (128 \<le> hd v \<and> hd v < 192)" using utf8_valid_first by (cases v) auto
  with v type_text [of 115 v] identifier_of_type_text(2) [of v t] show ?thesis
    by (simp add: Id_String ascii_literals ua_string_text_def)
next
  case (Id_Guid g)
  with i t have g: "guid_of_text t (guid_text t g) = Some g" "guid_text t g \<noteq> []" "list_all plain_char (guid_text t g)"
    by (simp_all add: identifier_text_ok_def opaque_text_ok_def)
  with plain_chars [OF g(3)] type_text [of 103 "guid_text t g"] identifier_of_type_text(3) [of "guid_text t g" t]
  show ?thesis by (simp add: Id_Guid ascii_literals)
next
  case (Id_ByteString b)
  with i obtain v where v: "b = Some v" "v \<noteq> []"
    by (auto simp: identifier_text_ok_def split: option.splits)
  with t have g: "base64_of_text t (base64_text t v) = Some v" "base64_text t v \<noteq> []"
    "list_all plain_char (base64_text t v)"
    by (simp_all add: opaque_text_ok_def)
  with v plain_chars [OF g(3)] type_text [of 98 "base64_text t v"] identifier_of_type_text(4) [of "base64_text t v" t]
  show ?thesis by (simp add: Id_ByteString ascii_literals as_base64_def)
qed

lemma ns_prefix_printed:
  "ns_prefix (ascii ''ns='' @ dec_string n @ semicolon # s) = (Some (dec_string n), s)"
proof -
  have "\<not> is_digit semicolon" by (simp add: is_digit_def)
  then have d: "takeWhile is_digit (dec_string n @ semicolon # s) = dec_string n"
    "dropWhile is_digit (dec_string n @ semicolon # s) = semicolon # s"
    using digits_then [OF dec_string_digits, of "semicolon # s" n] by simp_all
  have "drop 3 (ascii ''ns='' @ dec_string n @ semicolon # s) = dec_string n @ semicolon # s"
    "take 3 (ascii ''ns='' @ dec_string n @ semicolon # s) = ascii ''ns=''"
    by simp_all
  then show ?thesis
    by (simp only: ns_prefix_def Let_def d) simp
qed

lemma node_id_text_round_trip:
  assumes "opaque_text_ok t" "identifier_text_ok (nid_identifier n)"
  shows "node_id_of_text t (node_id_text t n) = Some (Inr n)"
proof (cases "nid_namespace n = 0")
  case True
  then show ?thesis
    using identifier_text_round_trip [OF assms]
    by (simp add: node_id_text_def node_id_of_text_def NodeId_new_def)
next
  case False
  have "unat (nid_namespace n) < 2 ^ 16" using unsigned_less [of "nid_namespace n"] by simp
  with False show ?thesis
    using identifier_text_round_trip [OF assms] ns_prefix_printed [of "unat (nid_namespace n)"]
    by (simp add: node_id_text_def node_id_of_text_def parse_unsigned_dec_string NodeId_new_def
        del: ascii_simps)
qed

lemma str_replace_Nil [simp]: "str_replace p r [] = []"
  by (subst str_replace.simps) simp

lemma str_replace_hit: "p \<noteq> [] \<Longrightarrow> str_replace p r (p @ s) = r @ str_replace p r s"
  by (subst str_replace.simps) simp

lemma str_replace_miss: "take (length p) (c # s) \<noteq> p \<Longrightarrow> str_replace p r (c # s) = c # str_replace p r s"
  by (subst str_replace.simps) simp

lemma str_replace_char: "str_replace [a] r s = concat (map (\<lambda>c. if c = a then r else [c]) s)"
proof (induction s)
  case (Cons c s)
  then show ?case
    using str_replace_hit [of "[a]" r s] by (cases "c = a") (simp_all add: str_replace_miss)
qed simp

text \<open>The text of a URI, character by character: escaped, half unescaped.\<close>

definition escaped :: "u8 \<Rightarrow> bytes" where
  "escaped c = (if c = 37 then [37, 50, 53] else if c = 59 then [37, 51, 98] else [c])"

definition half_escaped :: "u8 \<Rightarrow> bytes" where
  "half_escaped c = (if c = 37 then [37, 50, 53] else [c])"

lemma escaped_simps:
  "escaped 37 = [37, 50, 53]" "escaped 59 = [37, 51, 98]" "c \<noteq> 37 \<Longrightarrow> c \<noteq> 59 \<Longrightarrow> escaped c = [c]"
  "half_escaped 37 = [37, 50, 53]" "c \<noteq> 37 \<Longrightarrow> half_escaped c = [c]"
  by (simp_all add: escaped_def half_escaped_def)

lemma escape_uri_chars: "escape_uri u = concat (map escaped u)"
proof -
  have "concat (map (\<lambda>c. if c = 59 then [37, 51, 98] else [c]) (if x = 37 then [37, 50, 53] else [x])) = escaped x"
    for x :: u8
    by (simp add: escaped_def)
  then show ?thesis
    by (induction u) (simp_all add: escape_uri_def ascii_literals str_replace_char)
qed

lemma unescape_half: "str_replace [37, 51, 98] [59] (concat (map escaped u)) = concat (map half_escaped u)"
proof (induction u)
  case (Cons c u)
  let ?s = "concat (map escaped u)"
  consider "c = 37" | "c = 59" | "c \<noteq> 37" "c \<noteq> 59" by blast
  then show ?case
    using Cons str_replace_hit [of "[37, 51, 98]" "[59]" ?s]
    by cases (simp_all add: escaped_simps str_replace_miss)
qed simp

lemma unescape_rest: "str_replace [37, 50, 53] [37] (concat (map half_escaped u)) = u"
proof (induction u)
  case (Cons c u)
  then show ?case
    using str_replace_hit [of "[37, 50, 53]" "[37]" "concat (map half_escaped u)"]
    by (cases "c = 37") (simp_all add: escaped_simps str_replace_miss)
qed simp

lemma unescape_escape: "unescape_uri (escape_uri u) = u"
  by (simp add: unescape_uri_def escape_uri_chars ascii_literals unescape_half unescape_rest)

lemma escape_uri_no_semicolon: "semicolon \<notin> set (escape_uri u)"
  by (auto simp: escape_uri_chars escaped_def split: if_splits)

lemma escape_uri_nonempty: "u \<noteq> [] \<Longrightarrow> escape_uri u \<noteq> []"
  by (cases u) (auto simp: escape_uri_chars escaped_def)

lemma split_once_append: "c \<notin> set x \<Longrightarrow> split_once c (x @ c # s) = Some (x, s)"
  by (induction x) (auto simp: split_once_def split: list.splits)

lemma strip_prefix_append [simp]: "strip_prefix p (p @ s) = Some s"
  by (simp add: strip_prefix_def)

lemma dec_string_no_semicolon: "semicolon \<notin> set (dec_string n)"
  using dec_string_digits [of n] by (auto simp: list_all_iff dest: digit_not_special)

definition expanded_text_ok :: "ExpandedNodeId \<Rightarrow> bool" where
  "expanded_text_ok e \<longleftrightarrow>
     identifier_text_ok (nid_identifier (node_id e))
     \<and> (case namespace_uri e of None \<Rightarrow> True | Some u \<Rightarrow> u \<noteq> [] \<and> nid_namespace (node_id e) = 0)"

section \<open>Properties\<close>

text \<open>C28: an expanded node id is parsed back from the text it is printed as, whatever characters
  its namespace URI has: the escapes of percent signs and semicolons do not interfere, and a
  semicolon in a string identifier does not end it. \<open>expanded_text_ok\<close> excludes what the code does not
  read back: a string identifier that is null, empty, has a line break or is not UTF-8, a byte string that is null or
  empty, an empty URI, and a namespace index other than 0 next to a URI.\<close>

theorem expanded_node_id_text_round_trip:
  assumes "opaque_text_ok t" and "expanded_text_ok e"
  shows "expanded_node_id_of_text t (expanded_node_id_text t e) = Some (Inr e)"
proof -
  let ?svr = "dec_string (unat (server_index e))"
  have i: "identifier_text_ok (nid_identifier (node_id e))"
    using assms(2) by (simp add: expanded_text_ok_def)
  note n = node_id_text_round_trip [OF assms(1) i]
  note ty = identifier_text_round_trip [OF assms(1) i]
  have svr: "parse_unsigned (2 ^ 32) ?svr = Some (unat (server_index e))"
    using unat_u32 by (simp add: parse_unsigned_dec_string)
  show ?thesis
  proof (cases "namespace_uri e")
    case None
    have "strip_prefix (ascii ''nsu='') (node_id_text t (node_id e)) = None"
      by (cases "nid_identifier (node_id e)") (auto simp: strip_prefix_def node_id_text_def ascii_literals)
    with None svr n show ?thesis
      by (simp add: expanded_node_id_text_def expanded_node_id_of_text_def UAString_is_empty_def
          split_once_append dec_string_no_semicolon del: ascii_simps)
  next
    case (Some u)
    then have u: "u \<noteq> []" "nid_namespace (node_id e) = 0"
      using assms(2) by (simp_all add: expanded_text_ok_def)
    have ne: "strip_prefix (ascii ''ns='') (identifier_text t (nid_identifier (node_id e))) = None"
      by (cases "nid_identifier (node_id e)") (auto simp: strip_prefix_def ascii_literals)
    have "node_id_text t (node_id e) = identifier_text t (nid_identifier (node_id e))"
      using u(2) by (simp add: node_id_text_def)
    with Some u svr n ne show ?thesis
      by (simp add: expanded_node_id_text_def expanded_node_id_of_text_def UAString_is_empty_def UAString_as_ref_def
          split_once_append dec_string_no_semicolon escape_uri_no_semicolon escape_uri_nonempty unescape_escape
          del: ascii_simps)
  qed
qed

text \<open>An example of the third-party texts: two letters for each byte.\<close>

definition example_hex :: "bytes \<Rightarrow> bytes" where
  "example_hex b = concat (map (\<lambda>x. [97 + of_nat (unat x div 16), 97 + of_nat (unat x mod 16)]) b)"

fun example_unhex :: "bytes \<Rightarrow> bytes option" where
  "example_unhex [] = Some []"
| "example_unhex (a # b # r) = map_option (\<lambda>s. of_nat (16 * (unat a - 97) + (unat b - 97)) # s) (example_unhex r)"
| "example_unhex _ = None"

definition example_text :: opaque_text where
  "example_text = \<lparr>guid_text = example_hex, guid_of_text = example_unhex,
     base64_text = example_hex, base64_of_text = example_unhex\<rparr>"

lemma example_letter: "n < 16 \<Longrightarrow> unat (97 + of_nat n :: u8) = 97 + n"
  by (subst of_nat_numeral [symmetric], subst of_nat_add [symmetric], subst unat_of_nat) simp

lemma unat_div_16: "unat (x :: u8) div 16 < 16"
proof -
  have "unat x < 2 ^ LENGTH(8)" by (rule unsigned_less)
  moreover have "(2::nat) ^ LENGTH(8) = 16 * 16" by simp
  ultimately show ?thesis by (metis less_mult_imp_div_less)
qed

lemma unat_numeral_128: "unat (128 :: u8) = 128"
  by simp

lemma plain_letter:
  assumes "n < 16"
  shows "plain_char (97 + of_nat n)"
proof -
  have "unat (97 + of_nat n :: u8) \<noteq> unat newline" "unat (97 + of_nat n :: u8) < 128"
    using example_letter [OF assms] assms by simp_all
  then show ?thesis unfolding plain_char_def by (metis word_less_nat_alt unat_numeral_128)
qed

lemma example_unhex_hex: "example_unhex (example_hex b) = Some b"
proof (induction b)
  case (Cons x b)
  have "unat x div 16 < 16" by (rule unat_div_16)
  with Cons show ?case by (simp add: example_hex_def example_letter)
qed (simp add: example_hex_def)

lemma example_hex_plain: "list_all plain_char (example_hex b)"
proof (induction b)
  case (Cons x b)
  have "unat x div 16 < 16" "unat x mod 16 < 16" by (simp_all add: unat_div_16)
  then have "plain_char (97 + of_nat (unat x div 16))" "plain_char (97 + of_nat (unat x mod 16))"
    by (simp_all only: plain_letter)
  with Cons show ?case by (simp add: example_hex_def)
qed (simp add: example_hex_def)

lemma example_text_ok: "opaque_text_ok example_text"
  using example_unhex_hex example_hex_plain
  by (auto simp: opaque_text_ok_def example_text_def example_hex_def)

theorem expanded_node_id_text_round_trip_witness:
  "expanded_node_id_of_text example_text (ascii ''svr=7;nsu=a%25%3bb;s=x;y'') =
     Some (Inr \<lparr>node_id = NodeId_new 0 (Id_String (Some (ascii ''x;y''))),
       namespace_uri = Some (ascii ''a%;b''), server_index = 7\<rparr>)"
proof -
  let ?e = "\<lparr>node_id = NodeId_new 0 (Id_String (Some (ascii ''x;y''))),
       namespace_uri = Some (ascii ''a%;b''), server_index = 7\<rparr>"
  have ok: "expanded_text_ok ?e"
    by (simp add: expanded_text_ok_def identifier_text_ok_def NodeId_new_def of_char_def)
  have "expanded_node_id_text example_text ?e = ascii ''svr=7;nsu=a%25%3bb;s=x;y''"
    by (simp add: expanded_node_id_text_def escape_uri_chars escaped_def NodeId_new_def ua_string_text_def
        UAString_is_empty_def UAString_as_ref_def dec_string.simps digit_def of_char_def)
  with expanded_node_id_text_round_trip [OF example_text_ok ok] show ?thesis by simp
qed

text \<open>C31: a numeric range that the parser accepts is well formed: one index, one range whose
  first index is below its second, or at least two of these; what it prints as is parsed to
  the same range, and \<open>is_valid\<close> holds of it.\<close>

theorem parsed_numeric_range_ok:
  "numeric_range_of_text s = Some r \<Longrightarrow>
   range_ok r \<and> numeric_range_is_valid r \<and> numeric_range_of_text (numeric_range_text r) = Some r"
  using numeric_range_of_text_ok range_ok_valid range_text.parse_print by blast

theorem parsed_numeric_range_ok_witness:
  "numeric_range_is_valid (NR_Multiple [NR_Range 1 2, NR_Index 7])
   \<and> numeric_range_of_text (ascii ''01:2,7'') = Some (NR_Multiple [NR_Range 1 2, NR_Index 7])"
proof -
  have "numeric_range_of_text (ascii ''01:2,7'') = Some (NR_Multiple [NR_Range 1 2, NR_Index 7])"
    by (simp add: numeric_range_of_text_def parse_range_def parse_unsigned_def dec_value_def is_digit_def of_char_def)
  with parsed_numeric_range_ok [OF this] show ?thesis by simp
qed

text \<open>The length announced for a numeric range with several dimensions is four bytes more
  per dimension than what is written; with one dimension it is exact. The code counts the
  length field of the string once for every dimension.\<close>

theorem numeric_range_length_overstated:
  assumes "list_all dimension_ok rs" "rs \<noteq> []" "encode_NumericRange (NR_Multiple rs) = Inr bs"
  shows "numeric_range_byte_len (NR_Multiple rs) = Some (length bs + 4 * length rs)"
proof -
  have "length bs = 4 + length (numeric_range_text (NR_Multiple rs))"
    using assms(3)
    by (auto simp: encode_NumericRange_def to_ua_string_def encode_UAString_def process_encode_io_result_def)
  then show ?thesis using range_byte_len_multiple [OF assms(1,2)] by simp
qed

theorem numeric_range_length_overstated_witness:
  "numeric_range_byte_len (NR_Multiple [NR_Index 1, NR_Index 2]) = Some 15
   \<and> (\<exists>bs. encode_NumericRange (NR_Multiple [NR_Index 1, NR_Index 2]) = Inr bs \<and> length bs = 7)"
proof -
  obtain bs where bs: "encode_NumericRange (NR_Multiple [NR_Index 1, NR_Index 2]) = Inr bs" "length bs = 7"
    by (simp add: encode_NumericRange_def to_ua_string_def encode_UAString_def dec_string.simps
        process_encode_io_result_def)
  from numeric_range_length_overstated [OF _ _ this(1)] bs(2) show ?thesis
    by (simp add: dimension_ok_def bs(1))
qed

end
