(* ===== verification/Role_Management.thy ===== *)
theory Role_Management
  imports Text_Forms
begin

text \<open>
  Roles of the server, after \<open>async-opcua-server/src/rbac\<close>: the rules that map an identity to
  roles (\<open>rules.rs\<close>), the resolver that applies them (\<open>resolver.rs\<close>), and the methods by which a
  client changes them (\<open>role_management.rs\<close>), with the part of the address space these use: which
  nodes exist, their browse names, which of them are components of the RoleSet, and the namespaces.
\<close>

section \<open>Roles and rules\<close>

datatype WellKnownRole =
    Role_Anonymous | Role_AuthenticatedUser | Role_Observer | Role_Operator | Role_Engineer
  | Role_Supervisor | Role_ConfigureAdmin | Role_SecurityAdmin

definition all_well_known_roles :: "WellKnownRole list" where
  "all_well_known_roles =
     [Role_Anonymous, Role_AuthenticatedUser, Role_Observer, Role_Operator, Role_Engineer,
      Role_Supervisor, Role_ConfigureAdmin, Role_SecurityAdmin]"

fun role_object_id :: "WellKnownRole \<Rightarrow> u32" where
  "role_object_id Role_Anonymous = 15644"
| "role_object_id Role_AuthenticatedUser = 15656"
| "role_object_id Role_Observer = 15668"
| "role_object_id Role_Operator = 15680"
| "role_object_id Role_Engineer = 16036"
| "role_object_id Role_Supervisor = 15692"
| "role_object_id Role_ConfigureAdmin = 15716"
| "role_object_id Role_SecurityAdmin = 15704"

definition role_node_id :: "WellKnownRole \<Rightarrow> NodeId" where
  "role_node_id r = NodeId_new 0 (Id_Numeric (role_object_id r))"

datatype IdentityMappingRule =
    Rule_AnonymousIdentity
  | Rule_AuthenticatedUser
  | Rule_UserName bytes
  | Rule_Thumbprint bytes
  | Rule_Role NodeId
  | Rule_GroupId bytes
  | Rule_Application bytes

datatype IdentityCriteriaType =
    Criteria_UserName | Criteria_Thumbprint | Criteria_Role | Criteria_GroupId | Criteria_Anonymous
  | Criteria_AuthenticatedUser | Criteria_Application | Criteria_X509Subject | Criteria_TrustedApplication

fun criteria_type :: "IdentityMappingRule \<Rightarrow> IdentityCriteriaType" where
  "criteria_type Rule_AnonymousIdentity = Criteria_Anonymous"
| "criteria_type Rule_AuthenticatedUser = Criteria_AuthenticatedUser"
| "criteria_type (Rule_UserName _) = Criteria_UserName"
| "criteria_type (Rule_Thumbprint _) = Criteria_Thumbprint"
| "criteria_type (Rule_Role _) = Criteria_Role"
| "criteria_type (Rule_GroupId _) = Criteria_GroupId"
| "criteria_type (Rule_Application _) = Criteria_Application"

fun criteria :: "opaque_text \<Rightarrow> IdentityMappingRule \<Rightarrow> UAString" where
  "criteria t Rule_AnonymousIdentity = None"
| "criteria t Rule_AuthenticatedUser = None"
| "criteria t (Rule_UserName v) = Some v"
| "criteria t (Rule_Thumbprint v) = Some v"
| "criteria t (Rule_GroupId v) = Some v"
| "criteria t (Rule_Application v) = Some v"
| "criteria t (Rule_Role n) = Some (node_id_text t n)"

text \<open>\<open>TryFrom<&IdentityMappingRuleType>\<close>; both of its errors become the same status at the only
  caller, and the outer \<open>None\<close> is the panic of the node id parser.\<close>

definition rule_of_criteria :: "opaque_text \<Rightarrow> IdentityCriteriaType \<Rightarrow> UAString \<Rightarrow> IdentityMappingRule option option" where
  "rule_of_criteria t ct c =
     (let v = UAString_as_ref c
      in case ct of
           Criteria_Anonymous \<Rightarrow> Some (Some Rule_AnonymousIdentity)
         | Criteria_AuthenticatedUser \<Rightarrow> Some (Some Rule_AuthenticatedUser)
         | Criteria_UserName \<Rightarrow> Some (Some (Rule_UserName v))
         | Criteria_Thumbprint \<Rightarrow> Some (Some (Rule_Thumbprint v))
         | Criteria_Role \<Rightarrow>
             (case node_id_of_text t v of
                None \<Rightarrow> None
              | Some (Inl _) \<Rightarrow> Some None
              | Some (Inr n) \<Rightarrow> Some (Some (Rule_Role n)))
         | Criteria_GroupId \<Rightarrow> Some (Some (Rule_GroupId v))
         | Criteria_Application \<Rightarrow> Some (Some (Rule_Application v))
         | Criteria_X509Subject \<Rightarrow> Some None
         | Criteria_TrustedApplication \<Rightarrow> Some None)"

section \<open>Identities\<close>

datatype ResolvedIdentityKind =
    Kind_Anonymous
  | Kind_UserName bytes
  | Kind_X509Thumbprint bytes
  | Kind_IssuedToken "bytes list" "NodeId list"

record ResolvedIdentity =
  identity_kind :: ResolvedIdentityKind
  application_uri :: "bytes option"
  endpoint_url :: "bytes option"

text \<open>The identity a session is activated with: \<open>resolved_identity_from_activation\<close> of
  \<open>session/manager/lifecycle.rs\<close>. The thumbprint of a certificate token is that of the parsed certificate.\<close>

datatype IdentityToken =
    Token_None
  | Token_Anonymous
  | Token_UserName UAString
  | Token_X509 ByteString
  | Token_Issued
  | Token_Invalid

definition BadIdentityTokenInvalid :: StatusCode where "BadIdentityTokenInvalid = 0x80200000"

definition resolved_identity_from_activation ::
    "(ByteString \<Rightarrow> StatusCode + bytes) \<Rightarrow> IdentityToken \<Rightarrow> bytes list option \<Rightarrow> bytes option \<Rightarrow> bytes option
     \<Rightarrow> StatusCode + ResolvedIdentity" where
  "resolved_identity_from_activation thumbprint_of token claim_roles app url =
     (case token of
        Token_Anonymous \<Rightarrow> Inr \<lparr>identity_kind = Kind_Anonymous, application_uri = app, endpoint_url = url\<rparr>
      | Token_UserName u \<Rightarrow>
          Inr \<lparr>identity_kind = Kind_UserName (UAString_as_ref u), application_uri = app, endpoint_url = url\<rparr>
      | Token_X509 cert \<Rightarrow>
          bind_result (thumbprint_of cert) (\<lambda>tp.
            Inr \<lparr>identity_kind = Kind_X509Thumbprint tp, application_uri = app, endpoint_url = url\<rparr>)
      | Token_Issued \<Rightarrow>
          Inr \<lparr>identity_kind = Kind_IssuedToken (case claim_roles of Some g \<Rightarrow> g | None \<Rightarrow> []) [],
               application_uri = app, endpoint_url = url\<rparr>
      | Token_None \<Rightarrow> Inl BadIdentityTokenInvalid
      | Token_Invalid \<Rightarrow> Inl BadIdentityTokenInvalid)"

section \<open>The resolver\<close>

text \<open>\<open>RoleApplicationFilter\<close> and \<open>RoleEndpointFilter\<close> are the same structure over strings.\<close>

record RoleFilter =
  filter_entries :: "bytes list"
  filter_exclude :: bool

definition RoleFilter_default :: RoleFilter where
  "RoleFilter_default = \<lparr>filter_entries = [], filter_exclude = True\<rparr>"

definition filter_allows :: "RoleFilter \<Rightarrow> bytes option \<Rightarrow> bool" where
  "filter_allows f actual =
     (if filter_entries f = [] then True
      else
        let hit = (case actual of Some a \<Rightarrow> a \<in> set (filter_entries f) | None \<Rightarrow> False)
        in if filter_exclude f then \<not> hit else hit)"

definition filter_add :: "bytes \<Rightarrow> RoleFilter \<Rightarrow> bool \<times> RoleFilter" where
  "filter_add a f =
     (if a \<in> set (filter_entries f) then (False, f)
      else (True, f\<lparr>filter_entries := filter_entries f @ [a]\<rparr>))"

definition filter_remove :: "bytes \<Rightarrow> RoleFilter \<Rightarrow> bool \<times> RoleFilter" where
  "filter_remove a f =
     (if a \<in> set (filter_entries f) then (True, f\<lparr>filter_entries := remove1 a (filter_entries f)\<rparr>)
      else (False, f))"

record RoleRules =
  role_id :: NodeId
  identity_rules :: "IdentityMappingRule list"
  role_applications :: RoleFilter
  role_endpoints :: RoleFilter

definition RoleRules_new :: "NodeId \<Rightarrow> IdentityMappingRule list \<Rightarrow> RoleRules" where
  "RoleRules_new n rules =
     \<lparr>role_id = n, identity_rules = rules, role_applications = RoleFilter_default, role_endpoints = RoleFilter_default\<rparr>"

record RoleResolver =
  roles :: "RoleRules list"
  runtime_roles :: "NodeId list"

fun default_identity_rules :: "WellKnownRole \<Rightarrow> IdentityMappingRule list" where
  "default_identity_rules Role_Anonymous = [Rule_AnonymousIdentity]"
| "default_identity_rules Role_AuthenticatedUser = [Rule_AuthenticatedUser]"
| "default_identity_rules _ = []"

definition RoleResolver_default :: RoleResolver where
  "RoleResolver_default =
     \<lparr>roles = map (\<lambda>r. RoleRules_new (role_node_id r) (default_identity_rules r)) all_well_known_roles,
      runtime_roles = []\<rparr>"

definition push_unique :: "'a list \<Rightarrow> 'a \<Rightarrow> 'a list" where
  "push_unique xs x = (if x \<in> set xs then xs else xs @ [x])"

text \<open>\<open>iter_mut().find(..)\<close> followed by a change of the role that was found.\<close>

fun update_role :: "NodeId \<Rightarrow> (RoleRules \<Rightarrow> bool \<times> RoleRules) \<Rightarrow> RoleRules list \<Rightarrow> bool option \<times> RoleRules list" where
  "update_role n f [] = (None, [])"
| "update_role n f (r # rs) =
     (if role_id r = n then (case f r of (b, r') \<Rightarrow> (Some b, r' # rs))
      else (case update_role n f rs of (b, rs') \<Rightarrow> (b, r # rs')))"

definition update_resolver :: "NodeId \<Rightarrow> (RoleRules \<Rightarrow> bool \<times> RoleRules) \<Rightarrow> RoleResolver \<Rightarrow> bool \<times> RoleResolver" where
  "update_resolver n f rr =
     (case update_role n f (roles rr) of
        (None, _) \<Rightarrow> (False, rr)
      | (Some b, rs) \<Rightarrow> (b, rr\<lparr>roles := rs\<rparr>))"

definition contains_role :: "RoleResolver \<Rightarrow> NodeId \<Rightarrow> bool" where
  "contains_role rr n \<longleftrightarrow> list_ex (\<lambda>r. role_id r = n) (roles rr)"

definition is_runtime_role :: "RoleResolver \<Rightarrow> NodeId \<Rightarrow> bool" where
  "is_runtime_role rr n \<longleftrightarrow> n \<in> set (runtime_roles rr)"

definition register_role :: "NodeId \<Rightarrow> RoleResolver \<Rightarrow> RoleResolver" where
  "register_role n rr =
     (if contains_role rr n then rr\<lparr>runtime_roles := push_unique (runtime_roles rr) n\<rparr>
      else rr\<lparr>roles := roles rr @ [RoleRules_new n []], runtime_roles := push_unique (runtime_roles rr) n\<rparr>)"

text \<open>\<open>Vec::remove\<close> at the position of the first role with the id.\<close>

fun remove_first_role :: "NodeId \<Rightarrow> RoleRules list \<Rightarrow> RoleRules list" where
  "remove_first_role n [] = []"
| "remove_first_role n (r # rs) = (if role_id r = n then rs else r # remove_first_role n rs)"

definition resolver_remove_role :: "NodeId \<Rightarrow> RoleResolver \<Rightarrow> bool \<times> RoleResolver" where
  "resolver_remove_role n rr =
     (if \<not> is_runtime_role rr n then (False, rr)
      else if \<not> contains_role rr n then (False, rr)
      else (True, \<lparr>roles = remove_first_role n (roles rr), runtime_roles = filter (\<lambda>r. r \<noteq> n) (runtime_roles rr)\<rparr>))"

definition add_mapping :: "NodeId \<Rightarrow> IdentityMappingRule \<Rightarrow> RoleResolver \<Rightarrow> RoleResolver" where
  "add_mapping n rule rr =
     (case update_role n (\<lambda>r. (True, r\<lparr>identity_rules := identity_rules r @ [rule]\<rparr>)) (roles rr) of
        (None, _) \<Rightarrow> rr\<lparr>roles := roles rr @ [RoleRules_new n [rule]]\<rparr>
      | (Some _, rs) \<Rightarrow> rr\<lparr>roles := rs\<rparr>)"

definition remove_mapping :: "NodeId \<Rightarrow> IdentityMappingRule \<Rightarrow> RoleResolver \<Rightarrow> bool \<times> RoleResolver" where
  "remove_mapping n rule rr =
     update_resolver n
       (\<lambda>r. if rule \<in> set (identity_rules r) then (True, r\<lparr>identity_rules := remove1 rule (identity_rules r)\<rparr>)
            else (False, r)) rr"

definition resolver_add_application :: "NodeId \<Rightarrow> bytes \<Rightarrow> RoleResolver \<Rightarrow> bool \<times> RoleResolver" where
  "resolver_add_application n a rr =
     update_resolver n (\<lambda>r. case filter_add a (role_applications r) of (b, f) \<Rightarrow> (b, r\<lparr>role_applications := f\<rparr>)) rr"

definition resolver_remove_application :: "NodeId \<Rightarrow> bytes \<Rightarrow> RoleResolver \<Rightarrow> bool \<times> RoleResolver" where
  "resolver_remove_application n a rr =
     update_resolver n (\<lambda>r. case filter_remove a (role_applications r) of (b, f) \<Rightarrow> (b, r\<lparr>role_applications := f\<rparr>)) rr"

definition resolver_add_endpoint :: "NodeId \<Rightarrow> bytes \<Rightarrow> RoleResolver \<Rightarrow> bool \<times> RoleResolver" where
  "resolver_add_endpoint n a rr =
     update_resolver n (\<lambda>r. case filter_add a (role_endpoints r) of (b, f) \<Rightarrow> (b, r\<lparr>role_endpoints := f\<rparr>)) rr"

definition resolver_remove_endpoint :: "NodeId \<Rightarrow> bytes \<Rightarrow> RoleResolver \<Rightarrow> bool \<times> RoleResolver" where
  "resolver_remove_endpoint n a rr =
     update_resolver n (\<lambda>r. case filter_remove a (role_endpoints r) of (b, f) \<Rightarrow> (b, r\<lparr>role_endpoints := f\<rparr>)) rr"

definition ascii_lower :: "u8 \<Rightarrow> u8" where
  "ascii_lower c = (if 65 \<le> c \<and> c \<le> 90 then c + 32 else c)"

definition eq_ignore_ascii_case :: "bytes \<Rightarrow> bytes \<Rightarrow> bool" where
  "eq_ignore_ascii_case a b \<longleftrightarrow> map ascii_lower a = map ascii_lower b"

definition matches_rule :: "ResolvedIdentity \<Rightarrow> IdentityMappingRule \<Rightarrow> bool" where
  "matches_rule i rule =
     (case rule of
        Rule_AnonymousIdentity \<Rightarrow> identity_kind i = Kind_Anonymous
      | Rule_AuthenticatedUser \<Rightarrow> identity_kind i \<noteq> Kind_Anonymous
      | Rule_UserName expected \<Rightarrow> identity_kind i = Kind_UserName expected
      | Rule_Thumbprint expected \<Rightarrow>
          (case identity_kind i of Kind_X509Thumbprint actual \<Rightarrow> eq_ignore_ascii_case expected actual | _ \<Rightarrow> False)
      | Rule_Role expected \<Rightarrow>
          (case identity_kind i of Kind_IssuedToken _ ids \<Rightarrow> expected \<in> set ids | _ \<Rightarrow> False)
      | Rule_GroupId expected \<Rightarrow>
          (case identity_kind i of Kind_IssuedToken groups _ \<Rightarrow> expected \<in> set groups | _ \<Rightarrow> False)
      | Rule_Application expected \<Rightarrow> application_uri i = Some expected)"

definition role_granted :: "ResolvedIdentity \<Rightarrow> RoleRules \<Rightarrow> bool" where
  "role_granted i r \<longleftrightarrow>
     list_ex (matches_rule i) (identity_rules r) \<and> filter_allows (role_applications r) (application_uri i)
     \<and> filter_allows (role_endpoints r) (endpoint_url i)"

text \<open>The loop of \<open>resolve\<close>: the granted roles so far, and whether AuthenticatedUser is granted.\<close>

fun resolve_loop :: "ResolvedIdentity \<Rightarrow> RoleRules list \<Rightarrow> NodeId list \<times> bool \<Rightarrow> NodeId list \<times> bool" where
  "resolve_loop i [] acc = acc"
| "resolve_loop i (r # rs) (granted, authenticated) =
     (if role_granted i r then
        if role_id r = role_node_id Role_AuthenticatedUser then resolve_loop i rs (granted, True)
        else resolve_loop i rs (push_unique granted (role_id r), authenticated)
      else resolve_loop i rs (granted, authenticated))"

definition resolve :: "RoleResolver \<Rightarrow> ResolvedIdentity \<Rightarrow> NodeId list" where
  "resolve rr i =
     (case resolve_loop i (roles rr) ([], False) of
        (granted, authenticated) \<Rightarrow>
          if authenticated then push_unique granted (role_node_id Role_AuthenticatedUser) else granted)"

text \<open>The roles configured for the users of the server, in the order of the user names.\<close>

record ServerUserToken =
  token_user :: bytes
  token_x509 :: "bytes option"
  token_thumbprint :: "bytes option"
  token_roles :: "NodeId list"

definition rule_of_token :: "ServerUserToken \<Rightarrow> IdentityMappingRule option" where
  "rule_of_token u =
     (if token_x509 u = None then Some (Rule_UserName (token_user u))
      else map_option Rule_Thumbprint (token_thumbprint u))"

definition from_user_tokens :: "ServerUserToken list \<Rightarrow> RoleResolver" where
  "from_user_tokens tokens =
     fold (\<lambda>u rr. case rule_of_token u of
             None \<Rightarrow> rr
           | Some rule \<Rightarrow> fold (\<lambda>role rr. add_mapping role rule rr) (token_roles u) rr)
       (filter (\<lambda>u. token_roles u \<noteq> []) tokens) RoleResolver_default"

section \<open>The address space of the roles\<close>

text \<open>The nodes with their browse names, the targets of the RoleSet's HasComponent references, and
  the namespaces. An insertion into an index replaces what was there.\<close>

record RoleSpace =
  space_nodes :: "(NodeId \<times> QualifiedName) list"
  space_components :: "NodeId list"
  space_namespaces :: "(u16 \<times> bytes) list"

definition space_node_exists :: "RoleSpace \<Rightarrow> NodeId \<Rightarrow> bool" where
  "space_node_exists sp n \<longleftrightarrow> n \<in> fst ` set (space_nodes sp)"

definition space_find_component :: "RoleSpace \<Rightarrow> QualifiedName \<Rightarrow> bool" where
  "space_find_component sp name \<longleftrightarrow> list_ex (\<lambda>n. map_of (space_nodes sp) n = Some name) (space_components sp)"

definition space_namespace_index :: "RoleSpace \<Rightarrow> bytes \<Rightarrow> u16 option" where
  "space_namespace_index sp uri = map_option fst (find (\<lambda>(_, ns). ns = uri) (space_namespaces sp))"

definition space_add_namespace :: "bytes \<Rightarrow> u16 \<Rightarrow> RoleSpace \<Rightarrow> RoleSpace" where
  "space_add_namespace uri index sp =
     sp\<lparr>space_namespaces := (index, uri) # filter (\<lambda>(i, _). i \<noteq> index) (space_namespaces sp)\<rparr>"

text \<open>\<open>AddressSpace::insert\<close> of a role object; \<open>None\<close> is the panic of \<open>assert_namespace\<close>.\<close>

definition space_insert_role :: "NodeId \<Rightarrow> QualifiedName \<Rightarrow> RoleSpace \<Rightarrow> (bool \<times> RoleSpace) option" where
  "space_insert_role n name sp =
     (if nid_namespace n \<notin> fst ` set (space_namespaces sp) then None
      else if space_node_exists sp n then Some (False, sp)
      else Some (True, sp\<lparr>space_nodes := (n, name) # space_nodes sp, space_components := space_components sp @ [n]\<rparr>))"

definition space_delete :: "NodeId \<Rightarrow> RoleSpace \<Rightarrow> RoleSpace" where
  "space_delete n sp =
     sp\<lparr>space_nodes := filter (\<lambda>(m, _). m \<noteq> n) (space_nodes sp),
        space_components := filter (\<lambda>m. m \<noteq> n) (space_components sp)\<rparr>"

definition namespace_index_for_role :: "bytes \<Rightarrow> RoleSpace \<Rightarrow> u16 \<times> RoleSpace" where
  "namespace_index_for_role uri sp =
     (if uri = [] then (0, sp)
      else case space_namespace_index sp uri of
        Some i \<Rightarrow> (i, sp)
      | None \<Rightarrow>
          let top = fold (\<lambda>(i, _) m. max m (unat i)) (space_namespaces sp) 0;
              index = of_nat (min (top + 1) 65535)
          in (index, space_add_namespace uri index sp))"

definition role_text_id :: "bytes \<Rightarrow> NodeId" where
  "role_text_id text = NodeId_new 0 (Id_String (Some text))"

definition suffixed :: "bytes \<Rightarrow> nat \<Rightarrow> NodeId" where
  "suffixed base k = role_text_id (base @ colon # dec_string k)"

lemma suffixed_inj: "inj (suffixed base)"
  by (auto simp: inj_def suffixed_def role_text_id_def NodeId_new_def dest: arg_cong [of _ _ dec_value])

text \<open>The loop of \<open>unique_role_node_id\<close>: it ends, because the nodes are finitely many.\<close>

function unique_suffix :: "(NodeId \<times> QualifiedName) list \<Rightarrow> bytes \<Rightarrow> nat \<Rightarrow> NodeId" where
  "unique_suffix nodes base k =
     (if suffixed base k \<in> fst ` set nodes then unique_suffix nodes base (k + 1) else suffixed base k)"
  by pat_completeness auto
termination
proof (relation "measure (\<lambda>(nodes, base, k). card {j. k \<le> j \<and> suffixed base j \<in> fst ` set nodes})")
  fix nodes :: "(NodeId \<times> QualifiedName) list" and base k
  assume k: "suffixed base k \<in> fst ` set nodes"
  have "finite (suffixed base -` (fst ` set nodes))"
    by (rule finite_vimageI) (simp_all add: suffixed_inj)
  then have "finite {j. k \<le> j \<and> suffixed base j \<in> fst ` set nodes}"
    by (rule rev_finite_subset) auto
  moreover have "{j. k + 1 \<le> j \<and> suffixed base j \<in> fst ` set nodes} \<subset> {j. k \<le> j \<and> suffixed base j \<in> fst ` set nodes}"
    by (rule psubsetI, force, rule notI, drule equalityD2, drule subsetD [where c = k]) (use k in auto)
  ultimately have "card {j. k + 1 \<le> j \<and> suffixed base j \<in> fst ` set nodes} < card {j. k \<le> j \<and> suffixed base j \<in> fst ` set nodes}"
    by (rule psubset_card_mono)
  then show "((nodes, base, k + 1), (nodes, base, k))
      \<in> measure (\<lambda>(nodes, base, k). card {j. k \<le> j \<and> suffixed base j \<in> fst ` set nodes})"
    by simp
qed simp

declare unique_suffix.simps [simp del]

definition unique_role_node_id :: "RoleSpace \<Rightarrow> bytes \<Rightarrow> bytes \<Rightarrow> NodeId" where
  "unique_role_node_id sp uri name =
     (let base = ascii ''Role:'' @ uri @ colon # name
      in if space_node_exists sp (role_text_id base) then unique_suffix (space_nodes sp) base 1 else role_text_id base)"

section \<open>The methods\<close>

datatype role_argument =
    Arg_String UAString
  | Arg_NodeId NodeId
  | Arg_Endpoint UAString
  | Arg_Identity IdentityCriteriaType UAString
  | Arg_Other

definition Status_BadUserAccessDenied :: StatusCode where "Status_BadUserAccessDenied = 0x801F0000"
definition Status_BadNodeIdUnknown :: StatusCode where "Status_BadNodeIdUnknown = 0x80340000"
definition Status_BadAlreadyExists :: StatusCode where "Status_BadAlreadyExists = 0x81150000"
definition Status_BadNotFound :: StatusCode where "Status_BadNotFound = 0x803E0000"
definition Status_BadBrowseNameInvalid :: StatusCode where "Status_BadBrowseNameInvalid = 0x80600000"
definition Status_BadBrowseNameDuplicated :: StatusCode where "Status_BadBrowseNameDuplicated = 0x80610000"
definition Status_BadNodeIdExists :: StatusCode where "Status_BadNodeIdExists = 0x805E0000"
definition Status_BadRequestNotAllowed :: StatusCode where "Status_BadRequestNotAllowed = 0x80E40000"
definition Status_BadArgumentsMissing :: StatusCode where "Status_BadArgumentsMissing = 0x80760000"
definition Status_BadInvalidArgument :: StatusCode where "Status_BadInvalidArgument = 0x80AB0000"

definition decode_string_argument :: "role_argument list \<Rightarrow> nat \<Rightarrow> StatusCode + bytes" where
  "decode_string_argument args i =
     (if length args \<le> i then Inl Status_BadArgumentsMissing
      else case args ! i of
        Arg_String (Some v) \<Rightarrow> Inr v
      | _ \<Rightarrow> Inl Status_BadInvalidArgument)"

definition decode_application_uri_argument :: "role_argument list \<Rightarrow> StatusCode + bytes" where
  "decode_application_uri_argument args =
     bind_result (decode_string_argument args 0) (\<lambda>v. if v = [] then Inl Status_BadInvalidArgument else Inr v)"

definition decode_endpoint_url_argument :: "role_argument list \<Rightarrow> StatusCode + bytes" where
  "decode_endpoint_url_argument args =
     (case args of
        [] \<Rightarrow> Inl Status_BadArgumentsMissing
      | Arg_Endpoint (Some v) # _ \<Rightarrow> if v = [] then Inl Status_BadInvalidArgument else Inr v
      | _ \<Rightarrow> Inl Status_BadInvalidArgument)"

definition decode_node_id_argument :: "role_argument list \<Rightarrow> StatusCode + NodeId" where
  "decode_node_id_argument args =
     (case args of
        [] \<Rightarrow> Inl Status_BadArgumentsMissing
      | Arg_NodeId n # _ \<Rightarrow> Inr n
      | _ \<Rightarrow> Inl Status_BadInvalidArgument)"

definition decode_identity_mapping_rule_argument ::
    "opaque_text \<Rightarrow> role_argument list \<Rightarrow> (StatusCode + IdentityMappingRule) option" where
  "decode_identity_mapping_rule_argument t args =
     (case args of
        [] \<Rightarrow> Some (Inl Status_BadArgumentsMissing)
      | Arg_Identity ct c # _ \<Rightarrow>
          (case rule_of_criteria t ct c of
             None \<Rightarrow> None
           | Some None \<Rightarrow> Some (Inl Status_BadInvalidArgument)
           | Some (Some rule) \<Rightarrow> Some (Inr rule))
      | _ \<Rightarrow> Some (Inl Status_BadInvalidArgument))"

record RoleServer =
  server_resolver :: RoleResolver
  server_space :: RoleSpace

datatype role_result = Role_Ok "NodeId option" | Role_Err StatusCode | Role_Panic

definition is_security_admin :: "NodeId list \<Rightarrow> bool" where
  "is_security_admin user_roles \<longleftrightarrow> role_node_id Role_SecurityAdmin \<in> set user_roles"

definition role_set_node_id :: NodeId where
  "role_set_node_id = NodeId_new 0 (Id_Numeric 15606)"

text \<open>The part the six methods on a role share after their argument is decoded: the role must
  exist, and a change that does not apply is reported with \<open>e\<close>.\<close>

definition change_role :: "NodeId \<Rightarrow> StatusCode \<Rightarrow> (RoleResolver \<Rightarrow> bool \<times> RoleResolver) \<Rightarrow> RoleServer \<Rightarrow> role_result \<times> RoleServer" where
  "change_role object_id e f s =
     (if \<not> contains_role (server_resolver s) object_id then (Role_Err Status_BadNodeIdUnknown, s)
      else case f (server_resolver s) of
        (b, rr) \<Rightarrow> (if b then Role_Ok None else Role_Err e, s\<lparr>server_resolver := rr\<rparr>))"

definition handle_add_application :: "NodeId list \<Rightarrow> NodeId \<Rightarrow> role_argument list \<Rightarrow> RoleServer \<Rightarrow> role_result \<times> RoleServer" where
  "handle_add_application caller object_id args s =
     (if \<not> is_security_admin caller then (Role_Err Status_BadUserAccessDenied, s)
      else case decode_application_uri_argument args of
        Inl e \<Rightarrow> (Role_Err e, s)
      | Inr a \<Rightarrow> change_role object_id Status_BadAlreadyExists (resolver_add_application object_id a) s)"

definition handle_remove_application :: "NodeId list \<Rightarrow> NodeId \<Rightarrow> role_argument list \<Rightarrow> RoleServer \<Rightarrow> role_result \<times> RoleServer" where
  "handle_remove_application caller object_id args s =
     (if \<not> is_security_admin caller then (Role_Err Status_BadUserAccessDenied, s)
      else case decode_application_uri_argument args of
        Inl e \<Rightarrow> (Role_Err e, s)
      | Inr a \<Rightarrow> change_role object_id Status_BadNotFound (resolver_remove_application object_id a) s)"

definition handle_add_endpoint :: "NodeId list \<Rightarrow> NodeId \<Rightarrow> role_argument list \<Rightarrow> RoleServer \<Rightarrow> role_result \<times> RoleServer" where
  "handle_add_endpoint caller object_id args s =
     (if \<not> is_security_admin caller then (Role_Err Status_BadUserAccessDenied, s)
      else case decode_endpoint_url_argument args of
        Inl e \<Rightarrow> (Role_Err e, s)
      | Inr a \<Rightarrow> change_role object_id Status_BadAlreadyExists (resolver_add_endpoint object_id a) s)"

definition handle_remove_endpoint :: "NodeId list \<Rightarrow> NodeId \<Rightarrow> role_argument list \<Rightarrow> RoleServer \<Rightarrow> role_result \<times> RoleServer" where
  "handle_remove_endpoint caller object_id args s =
     (if \<not> is_security_admin caller then (Role_Err Status_BadUserAccessDenied, s)
      else case decode_endpoint_url_argument args of
        Inl e \<Rightarrow> (Role_Err e, s)
      | Inr a \<Rightarrow> change_role object_id Status_BadNotFound (resolver_remove_endpoint object_id a) s)"

definition handle_add_identity ::
    "opaque_text \<Rightarrow> NodeId list \<Rightarrow> NodeId \<Rightarrow> role_argument list \<Rightarrow> RoleServer \<Rightarrow> role_result \<times> RoleServer" where
  "handle_add_identity t caller object_id args s =
     (if \<not> is_security_admin caller then (Role_Err Status_BadUserAccessDenied, s)
      else case decode_identity_mapping_rule_argument t args of
        None \<Rightarrow> (Role_Panic, s)
      | Some (Inl e) \<Rightarrow> (Role_Err e, s)
      | Some (Inr rule) \<Rightarrow>
          if \<not> contains_role (server_resolver s) object_id then (Role_Err Status_BadNodeIdUnknown, s)
          else (Role_Ok None, s\<lparr>server_resolver := add_mapping object_id rule (server_resolver s)\<rparr>))"

definition handle_remove_identity ::
    "opaque_text \<Rightarrow> NodeId list \<Rightarrow> NodeId \<Rightarrow> role_argument list \<Rightarrow> RoleServer \<Rightarrow> role_result \<times> RoleServer" where
  "handle_remove_identity t caller object_id args s =
     (if \<not> is_security_admin caller then (Role_Err Status_BadUserAccessDenied, s)
      else case decode_identity_mapping_rule_argument t args of
        None \<Rightarrow> (Role_Panic, s)
      | Some (Inl e) \<Rightarrow> (Role_Err e, s)
      | Some (Inr rule) \<Rightarrow> change_role object_id Status_BadNotFound (remove_mapping object_id rule) s)"

definition handle_add_role :: "NodeId list \<Rightarrow> NodeId \<Rightarrow> role_argument list \<Rightarrow> RoleServer \<Rightarrow> role_result \<times> RoleServer" where
  "handle_add_role caller object_id args s =
     (if \<not> is_security_admin caller then (Role_Err Status_BadUserAccessDenied, s)
      else if object_id \<noteq> role_set_node_id then (Role_Err BadNodeIdInvalid, s)
      else case decode_string_argument args 0 of
        Inl e \<Rightarrow> (Role_Err e, s)
      | Inr name \<Rightarrow>
          if name = [] then (Role_Err Status_BadBrowseNameInvalid, s)
          else case decode_string_argument args 1 of
            Inl e \<Rightarrow> (Role_Err e, s)
          | Inr uri \<Rightarrow>
              (case namespace_index_for_role uri (server_space s) of (index, sp) \<Rightarrow>
                 let browse_name = \<lparr>namespace_index = index, qn_name = Some name\<rparr>;
                     s = s\<lparr>server_space := sp\<rparr>
                 in if space_find_component sp browse_name then (Role_Err Status_BadBrowseNameDuplicated, s)
                    else
                      let n = unique_role_node_id sp uri name
                      in case space_insert_role n browse_name sp of
                           None \<Rightarrow> (Role_Panic, s)
                         | Some (inserted, sp) \<Rightarrow>
                             if \<not> inserted then (Role_Err Status_BadNodeIdExists, s\<lparr>server_space := sp\<rparr>)
                             else (Role_Ok (Some n),
                                   s\<lparr>server_space := sp, server_resolver := register_role n (server_resolver s)\<rparr>)))"

definition handle_remove_role :: "NodeId list \<Rightarrow> NodeId \<Rightarrow> role_argument list \<Rightarrow> RoleServer \<Rightarrow> role_result \<times> RoleServer" where
  "handle_remove_role caller object_id args s =
     (if \<not> is_security_admin caller then (Role_Err Status_BadUserAccessDenied, s)
      else if object_id \<noteq> role_set_node_id then (Role_Err BadNodeIdInvalid, s)
      else case decode_node_id_argument args of
        Inl e \<Rightarrow> (Role_Err e, s)
      | Inr n \<Rightarrow>
          if \<not> is_runtime_role (server_resolver s) n then
            (Role_Err (if contains_role (server_resolver s) n then Status_BadRequestNotAllowed
                       else Status_BadNodeIdUnknown), s)
          else if \<not> space_node_exists (server_space s) n \<or> n \<notin> set (space_components (server_space s)) then
            (Role_Err Status_BadNodeIdUnknown, s)
          else case resolver_remove_role n (server_resolver s) of
            (b, rr) \<Rightarrow>
              (if b then Role_Ok None else Role_Err Status_BadNodeIdUnknown,
               s\<lparr>server_space := space_delete n (server_space s), server_resolver := rr\<rparr>))"

datatype RoleMethod =
    AddIdentity | RemoveIdentity | AddApplication | RemoveApplication | AddEndpoint | RemoveEndpoint
  | AddRole | RemoveRole

fun role_method :: "opaque_text \<Rightarrow> RoleMethod \<Rightarrow> NodeId list \<Rightarrow> NodeId \<Rightarrow> role_argument list \<Rightarrow> RoleServer
    \<Rightarrow> role_result \<times> RoleServer" where
  "role_method t AddIdentity c = handle_add_identity t c"
| "role_method t RemoveIdentity c = handle_remove_identity t c"
| "role_method t AddApplication c = handle_add_application c"
| "role_method t RemoveApplication c = handle_remove_application c"
| "role_method t AddEndpoint c = handle_add_endpoint c"
| "role_method t RemoveEndpoint c = handle_remove_endpoint c"
| "role_method t AddRole c = handle_add_role c"
| "role_method t RemoveRole c = handle_remove_role c"

text \<open>A sequence of calls, each by the roles of its caller.\<close>

type_synonym role_call = "RoleMethod \<times> NodeId list \<times> NodeId \<times> role_argument list"

fun role_calls :: "opaque_text \<Rightarrow> role_call list \<Rightarrow> RoleServer \<Rightarrow> role_result list \<times> RoleServer" where
  "role_calls t [] s = ([], s)"
| "role_calls t ((m, caller, object_id, args) # cs) s =
     (case role_method t m caller object_id args s of (r, s') \<Rightarrow>
        (case role_calls t cs s' of (rs, s'') \<Rightarrow> (r # rs, s'')))"

section \<open>What the resolver grants\<close>

lemma push_unique_set [simp]: "set (push_unique xs x) = insert x (set xs)"
  by (auto simp: push_unique_def)

lemma push_unique_distinct: "distinct xs \<Longrightarrow> distinct (push_unique xs x)"
  by (simp add: push_unique_def)

lemma resolve_loop_set:
  "set (fst (resolve_loop i rs (g, a))) =
     set g \<union> {role_id r | r. r \<in> set rs \<and> role_granted i r \<and> role_id r \<noteq> role_node_id Role_AuthenticatedUser}
   \<and> (snd (resolve_loop i rs (g, a)) \<longleftrightarrow>
        a \<or> (\<exists>r\<in>set rs. role_granted i r \<and> role_id r = role_node_id Role_AuthenticatedUser))"
  by (induction i rs "(g, a)" arbitrary: g a rule: resolve_loop.induct) (simp_all, blast+)

lemma resolve_loop_distinct: "distinct g \<Longrightarrow> distinct (fst (resolve_loop i rs (g, a)))"
  by (induction i rs "(g, a)" arbitrary: g a rule: resolve_loop.induct) (simp_all add: push_unique_distinct)

lemma resolve_iff: "n \<in> set (resolve rr i) \<longleftrightarrow> (\<exists>r\<in>set (roles rr). role_id r = n \<and> role_granted i r)"
proof -
  obtain g a where ga: "resolve_loop i (roles rr) ([], False) = (g, a)" by fastforce
  have "n \<in> set g \<longleftrightarrow> (\<exists>r\<in>set (roles rr). role_id r = n \<and> role_granted i r) \<and> n \<noteq> role_node_id Role_AuthenticatedUser"
    "a \<longleftrightarrow> (\<exists>r\<in>set (roles rr). role_granted i r \<and> role_id r = role_node_id Role_AuthenticatedUser)"
    using resolve_loop_set [of i "roles rr" "[]" False] by (auto simp: ga)
  then show ?thesis by (cases a) (auto simp: resolve_def ga)
qed

lemma resolve_distinct: "distinct (resolve rr i)"
  using resolve_loop_distinct [of "[]" i "roles rr" False]
  by (auto simp: resolve_def push_unique_distinct split: prod.splits)

section \<open>What every call keeps\<close>

lemma update_role_ids:
  assumes "\<And>r. role_id (snd (f r)) = role_id r"
  shows "map role_id (snd (update_role n f rs)) = map role_id rs"
proof (induction rs)
  case (Cons r rs)
  then show ?case
    using assms [of r] by (cases "f r"; cases "update_role n f rs") auto
qed simp

lemma update_role_found: "fst (update_role n f rs) = None \<longleftrightarrow> n \<notin> role_id ` set rs"
  by (induction rs) (auto split: prod.splits)

lemma update_role_all:
  assumes "\<And>r. P r \<Longrightarrow> P (snd (f r))" "\<forall>r\<in>set rs. P r"
  shows "\<forall>r\<in>set (snd (update_role n f rs)). P r"
  using assms(2)
proof (induction rs)
  case (Cons r rs)
  then show ?case
    using assms(1) [of r] by (cases "f r"; cases "update_role n f rs") auto
qed simp

definition filters_exclude :: "RoleRules \<Rightarrow> bool" where
  "filters_exclude r \<longleftrightarrow> filter_exclude (role_applications r) \<and> filter_exclude (role_endpoints r)"

definition resolver_inv :: "RoleResolver \<Rightarrow> bool" where
  "resolver_inv rr \<longleftrightarrow>
     distinct (map role_id (roles rr)) \<and> distinct (runtime_roles rr)
     \<and> set (runtime_roles rr) \<subseteq> role_id ` set (roles rr)
     \<and> (\<forall>w. role_node_id w \<in> role_id ` set (roles rr) \<and> role_node_id w \<notin> set (runtime_roles rr))
     \<and> (\<forall>r\<in>set (roles rr). filters_exclude r)"

lemma contains_role_iff: "contains_role rr n \<longleftrightarrow> n \<in> role_id ` set (roles rr)"
  by (auto simp: contains_role_def list_ex_iff)

text \<open>A change of the rules of one role keeps the invariant and the set of runtime roles.\<close>

lemma update_resolver_inv:
  assumes "resolver_inv rr" "\<And>r. role_id (snd (f r)) = role_id r"
    and "\<And>r. filters_exclude r \<Longrightarrow> filters_exclude (snd (f r))"
  shows "resolver_inv (snd (update_resolver n f rr)) \<and> runtime_roles (snd (update_resolver n f rr)) = runtime_roles rr"
proof (cases "update_role n f (roles rr)")
  case (Pair b rs)
  have ids: "map role_id rs = map role_id (roles rr)"
    using update_role_ids [of f n "roles rr"] assms(2) Pair by simp
  then have "role_id ` set rs = role_id ` set (roles rr)" by (metis image_set)
  moreover have "\<forall>r\<in>set rs. filters_exclude r"
    using update_role_all [of filters_exclude f "roles rr" n] assms(1,3) Pair by (simp add: resolver_inv_def)
  ultimately show ?thesis
    using assms(1) ids Pair by (cases b) (simp_all add: update_resolver_def resolver_inv_def)
qed

lemma filter_ops_exclude:
  "filter_exclude (snd (filter_add a f)) = filter_exclude f"
  "filter_exclude (snd (filter_remove a f)) = filter_exclude f"
  by (simp_all add: filter_add_def filter_remove_def)

lemma resolver_changes_inv:
  assumes "resolver_inv rr"
  shows "resolver_inv (snd (remove_mapping n rule rr)) \<and> runtime_roles (snd (remove_mapping n rule rr)) = runtime_roles rr"
    "resolver_inv (snd (resolver_add_application n a rr)) \<and> runtime_roles (snd (resolver_add_application n a rr)) = runtime_roles rr"
    "resolver_inv (snd (resolver_remove_application n a rr)) \<and> runtime_roles (snd (resolver_remove_application n a rr)) = runtime_roles rr"
    "resolver_inv (snd (resolver_add_endpoint n a rr)) \<and> runtime_roles (snd (resolver_add_endpoint n a rr)) = runtime_roles rr"
    "resolver_inv (snd (resolver_remove_endpoint n a rr)) \<and> runtime_roles (snd (resolver_remove_endpoint n a rr)) = runtime_roles rr"
  unfolding remove_mapping_def resolver_add_application_def resolver_remove_application_def
    resolver_add_endpoint_def resolver_remove_endpoint_def
  by (rule update_resolver_inv [OF assms];
      use filter_ops_exclude in \<open>auto simp: filters_exclude_def split: prod.splits dest!: arg_cong [of _ _ snd]\<close>)+

lemma add_mapping_inv:
  assumes "resolver_inv rr"
  shows "resolver_inv (add_mapping n rule rr) \<and> runtime_roles (add_mapping n rule rr) = runtime_roles rr"
proof -
  let ?f = "\<lambda>r. (True, r\<lparr>identity_rules := identity_rules r @ [rule]\<rparr>)"
  have upd: "resolver_inv (snd (update_resolver n ?f rr)) \<and> runtime_roles (snd (update_resolver n ?f rr)) = runtime_roles rr"
    by (rule update_resolver_inv [OF assms]) (auto simp: filters_exclude_def)
  show ?thesis
  proof (cases "update_role n ?f (roles rr)")
    case (Pair b rs)
    show ?thesis
    proof (cases b)
      case None
      then have "n \<notin> role_id ` set (roles rr)" using update_role_found [of n ?f "roles rr"] Pair by simp
      with assms None Pair show ?thesis
        by (auto simp: add_mapping_def resolver_inv_def RoleRules_new_def filters_exclude_def RoleFilter_default_def)
    next
      case (Some _)
      with Pair upd show ?thesis by (simp add: add_mapping_def update_resolver_def)
    qed
  qed
qed

lemma role_node_id_inj: "role_node_id v = role_node_id w \<longleftrightarrow> v = w"
  by (cases v; cases w) (simp_all add: role_node_id_def NodeId_new_def)

lemma resolver_default_inv: "resolver_inv RoleResolver_default"
proof -
  have "role_node_id w \<in> role_id ` set (roles RoleResolver_default)" for w
    by (cases w) (simp_all add: RoleResolver_default_def all_well_known_roles_def RoleRules_new_def)
  then show ?thesis
    by (auto simp: resolver_inv_def RoleResolver_default_def all_well_known_roles_def RoleRules_new_def
        role_node_id_inj filters_exclude_def RoleFilter_default_def)
qed

lemma from_user_tokens_inv: "resolver_inv (from_user_tokens us) \<and> runtime_roles (from_user_tokens us) = []"
proof -
  define ok where "ok = (\<lambda>rr. resolver_inv rr \<and> runtime_roles rr = [])"
  have m: "ok rr \<Longrightarrow> ok (fold (\<lambda>role rr. add_mapping role rule rr) rs rr)" for rule rs rr
    using add_mapping_inv by (induction rs arbitrary: rr) (auto simp: ok_def)
  have "ok rr \<Longrightarrow> ok (fold (\<lambda>u rr. case rule_of_token u of None \<Rightarrow> rr
           | Some rule \<Rightarrow> fold (\<lambda>role rr. add_mapping role rule rr) (token_roles u) rr) us rr)" for us rr
    using m by (induction us arbitrary: rr) (auto split: option.splits)
  moreover have "ok RoleResolver_default"
    using resolver_default_inv by (simp add: ok_def RoleResolver_default_def)
  ultimately show ?thesis by (simp add: from_user_tokens_def ok_def)
qed

lemma register_role_inv:
  assumes "resolver_inv rr" "\<forall>w. role_node_id w \<noteq> n"
  shows "resolver_inv (register_role n rr)"
  using assms push_unique_distinct
  by (auto simp: register_role_def resolver_inv_def contains_role_iff RoleRules_new_def filters_exclude_def
      RoleFilter_default_def)

lemma remove_first_role_ids: "map role_id (remove_first_role n rs) = remove1 n (map role_id rs)"
  by (induction rs) auto

lemma remove_first_role_subset: "set (remove_first_role n rs) \<subseteq> set rs"
  by (induction rs) auto

lemma resolver_remove_role_inv:
  assumes "resolver_inv rr"
  shows "resolver_inv (snd (resolver_remove_role n rr))
    \<and> set (runtime_roles (snd (resolver_remove_role n rr))) = set (runtime_roles rr) - {n}"
proof (cases "is_runtime_role rr n")
  case True
  let ?rs = "remove_first_role n (roles rr)"
  have n: "\<forall>w. n \<noteq> role_node_id w" "contains_role rr n"
    using True assms by (auto simp: resolver_inv_def is_runtime_role_def contains_role_iff)
  have "role_id ` set ?rs = set (remove1 n (map role_id (roles rr)))"
    by (metis image_set remove_first_role_ids)
  then have ids: "role_id ` set ?rs = role_id ` set (roles rr) - {n}"
    using assms by (simp add: resolver_inv_def)
  have "distinct (map role_id ?rs)"
    unfolding remove_first_role_ids using assms by (simp add: resolver_inv_def distinct_remove1)
  with ids n assms True remove_first_role_subset [of n "roles rr"] show ?thesis
    by (auto simp: resolver_remove_role_def resolver_inv_def)
qed (use assms in \<open>auto simp: resolver_remove_role_def is_runtime_role_def\<close>)

text \<open>The invariant of the server: besides that of the resolver, every role created at run time has
  a node that is a component of the RoleSet, and the namespace of the created nodes exists.\<close>

definition role_server_inv :: "RoleServer \<Rightarrow> bool" where
  "role_server_inv s \<longleftrightarrow>
     resolver_inv (server_resolver s) \<and> 0 \<in> fst ` set (space_namespaces (server_space s))
     \<and> (\<forall>n\<in>set (runtime_roles (server_resolver s)).
          n \<in> set (space_components (server_space s)) \<and> space_node_exists (server_space s) n)"

lemma change_role_inv:
  assumes "role_server_inv s"
    and "resolver_inv (snd (f (server_resolver s))) \<and> runtime_roles (snd (f (server_resolver s))) = runtime_roles (server_resolver s)"
  shows "role_server_inv (snd (change_role n e f s))"
  using assms by (auto simp: change_role_def role_server_inv_def split: prod.splits)

lemma unique_suffix_fresh: "unique_suffix nodes base k \<notin> fst ` set nodes \<and> (\<exists>j. unique_suffix nodes base k = suffixed base j)"
  by (induction nodes base k rule: unique_suffix.induct) (subst (1 2) unique_suffix.simps, auto)

lemma unique_role_node_id_fresh:
  "\<not> space_node_exists sp (unique_role_node_id sp uri name)"
  "\<exists>text. unique_role_node_id sp uri name = role_text_id text"
  using unique_suffix_fresh [of "space_nodes sp" "ascii ''Role:'' @ uri @ colon # name" 1]
  by (auto simp: unique_role_node_id_def space_node_exists_def suffixed_def Let_def)

lemma role_text_id_not_well_known: "role_node_id w \<noteq> role_text_id text"
  by (simp add: role_node_id_def role_text_id_def NodeId_new_def)

lemma namespace_index_for_role_space:
  "namespace_index_for_role uri sp = (i, sp') \<Longrightarrow>
   space_nodes sp' = space_nodes sp \<and> space_components sp' = space_components sp
   \<and> (0 \<in> fst ` set (space_namespaces sp) \<longrightarrow> 0 \<in> fst ` set (space_namespaces sp'))"
proof -
  have "(of_nat (min (m + 1) 65535) :: u16) \<noteq> 0" for m
  proof -
    have "unat (of_nat (min (m + 1) 65535) :: u16) = min (m + 1) 65535"
      by (subst unat_of_nat) (simp add: min_def)
    then show ?thesis by (metis One_nat_def add_is_0 min_def unat_0 zero_neq_numeral zero_neq_one)
  qed
  then show "namespace_index_for_role uri sp = (i, sp') \<Longrightarrow> ?thesis"
    by (force simp: namespace_index_for_role_def space_add_namespace_def Let_def split: if_splits option.splits)
qed

lemma handle_add_role_inv:
  assumes "role_server_inv s"
  shows "role_server_inv (snd (handle_add_role caller object_id args s))"
proof -
  have "role_server_inv (snd
      (case namespace_index_for_role uri (server_space s) of (index, sp) \<Rightarrow>
         let browse_name = \<lparr>namespace_index = index, qn_name = Some name\<rparr>;
             s = s\<lparr>server_space := sp\<rparr>
         in if space_find_component sp browse_name then (Role_Err Status_BadBrowseNameDuplicated, s)
            else
              let n = unique_role_node_id sp uri name
              in case space_insert_role n browse_name sp of
                   None \<Rightarrow> (Role_Panic, s)
                 | Some (inserted, sp) \<Rightarrow>
                     if \<not> inserted then (Role_Err Status_BadNodeIdExists, s\<lparr>server_space := sp\<rparr>)
                     else (Role_Ok (Some n),
                           s\<lparr>server_space := sp, server_resolver := register_role n (server_resolver s)\<rparr>)))" for uri name
  proof -
    obtain index sp where sp: "namespace_index_for_role uri (server_space s) = (index, sp)" by fastforce
    note space = namespace_index_for_role_space [OF sp]
    let ?n = "unique_role_node_id sp uri name"
    obtain tx where tx: "?n = role_text_id tx" using unique_role_node_id_fresh(2) by blast
    have "resolver_inv (register_role ?n (server_resolver s))"
      using assms role_text_id_not_well_known tx by (intro register_role_inv) (auto simp: role_server_inv_def)
    moreover have "set (runtime_roles (register_role ?n (server_resolver s))) = insert ?n (set (runtime_roles (server_resolver s)))"
      by (simp add: register_role_def)
    ultimately show ?thesis
      using assms space unique_role_node_id_fresh(1) [of sp uri name]
      by (auto simp: sp role_server_inv_def space_insert_role_def space_node_exists_def Let_def)
  qed
  then show ?thesis
    using assms by (simp add: handle_add_role_def split: sum.splits del: split_paired_All)
qed

lemma handle_remove_role_inv:
  assumes "role_server_inv s"
  shows "role_server_inv (snd (handle_remove_role caller object_id args s))"
proof -
  have "role_server_inv (s\<lparr>server_space := space_delete n (server_space s),
      server_resolver := snd (resolver_remove_role n (server_resolver s))\<rparr>)" for n
    using resolver_remove_role_inv [of "server_resolver s" n] assms
    by (auto simp: role_server_inv_def space_delete_def space_node_exists_def) force
  then show ?thesis
    using assms by (auto simp: handle_remove_role_def split: sum.splits prod.splits) (metis snd_conv)+
qed

lemma role_method_inv:
  assumes "role_server_inv s"
  shows "role_server_inv (snd (role_method t m caller object_id args s))"
proof -
  have r: "resolver_inv (server_resolver s)" using assms by (simp add: role_server_inv_def)
  note changes = resolver_changes_inv [OF r]
  show ?thesis
  proof (cases m)
    case AddIdentity
    with add_mapping_inv [OF r] assms show ?thesis
      by (auto simp: handle_add_identity_def role_server_inv_def split: option.splits sum.splits)
  next
    case AddRole
    with handle_add_role_inv [OF assms] show ?thesis by simp
  next
    case RemoveRole
    with handle_remove_role_inv [OF assms] show ?thesis by simp
  qed (use change_role_inv [OF assms] changes assms in
      \<open>auto simp: handle_remove_identity_def handle_add_application_def handle_remove_application_def
        handle_add_endpoint_def handle_remove_endpoint_def split: option.splits sum.splits\<close>)
qed

lemma role_calls_inv: "role_server_inv s \<Longrightarrow> role_server_inv (snd (role_calls t cs s))"
proof (induction t cs s rule: role_calls.induct)
  case (2 t m caller object_id args cs s)
  from 2(2) have "role_server_inv (snd (role_method t m caller object_id args s))" by (rule role_method_inv)
  with 2(1) show ?case by (auto split: prod.splits)
qed simp

lemma role_method_denied:
  "\<not> is_security_admin caller \<Longrightarrow> role_method t m caller object_id args s = (Role_Err Status_BadUserAccessDenied, s)"
  by (cases m) (simp_all add: handle_add_identity_def handle_remove_identity_def handle_add_application_def
      handle_remove_application_def handle_add_endpoint_def handle_remove_endpoint_def handle_add_role_def
      handle_remove_role_def)

section \<open>Properties\<close>

text \<open>C12: whatever methods are called by whomever, starting from the roles configured for the users:
  the well-known roles stay and are never removable, a role is listed once, a role created at
  run time is in the resolver and has its node under the RoleSet, and calls by callers without
  the SecurityAdmin role are refused and change nothing.\<close>

theorem role_management_keeps_roles:
  assumes "server_resolver s = from_user_tokens us" "0 \<in> fst ` set (space_namespaces (server_space s))"
    and "s' = snd (role_calls t cs s)"
  shows "(\<forall>w. contains_role (server_resolver s') (role_node_id w) \<and> \<not> is_runtime_role (server_resolver s') (role_node_id w))
    \<and> distinct (map role_id (roles (server_resolver s')))
    \<and> (\<forall>n. is_runtime_role (server_resolver s') n \<longrightarrow> contains_role (server_resolver s') n
         \<and> n \<in> set (space_components (server_space s')) \<and> space_node_exists (server_space s') n)
    \<and> (\<forall>m caller object_id args. \<not> is_security_admin caller \<longrightarrow>
         role_method t m caller object_id args s' = (Role_Err Status_BadUserAccessDenied, s'))"
proof -
  have "role_server_inv s"
    using assms(1,2) from_user_tokens_inv [of us] by (simp add: role_server_inv_def)
  then have "role_server_inv s'" unfolding assms(3) by (rule role_calls_inv)
  then show ?thesis
    using role_method_denied
    by (auto simp: role_server_inv_def resolver_inv_def contains_role_iff is_runtime_role_def)
qed

definition example_role_server :: RoleServer where
  "example_role_server =
     \<lparr>server_resolver = from_user_tokens [\<lparr>token_user = ascii ''op'', token_x509 = None, token_thumbprint = None,
        token_roles = [role_node_id Role_Operator]\<rparr>],
      server_space = \<lparr>space_nodes = [], space_components = [], space_namespaces = [(0, ascii ''ua'')]\<rparr>\<rparr>"

definition example_admin :: "NodeId list" where
  "example_admin = [role_node_id Role_SecurityAdmin]"

theorem role_management_keeps_roles_witness:
  "let s' = snd (role_calls example_text
       [(AddRole, example_admin, role_set_node_id, [Arg_String (Some (ascii ''R'')), Arg_String (Some [])]),
        (RemoveRole, example_admin, role_set_node_id, [Arg_NodeId (role_node_id Role_Operator)])] example_role_server)
   in contains_role (server_resolver s') (role_node_id Role_Operator) \<and> distinct (map role_id (roles (server_resolver s')))"
  using role_management_keeps_roles [of example_role_server, OF _ _ refl]
  by (simp add: example_role_server_def Let_def del: role_calls.simps)

text \<open>A session has exactly the roles one of whose rules matches its identity and whose filters
  let its application and its endpoint pass, each of them once.\<close>

theorem resolve_grants_exactly:
  "distinct (resolve rr i)
   \<and> (\<forall>n. n \<in> set (resolve rr i) \<longleftrightarrow>
        (\<exists>r\<in>set (roles rr). role_id r = n \<and> (\<exists>rule\<in>set (identity_rules r). matches_rule i rule)
           \<and> filter_allows (role_applications r) (application_uri i) \<and> filter_allows (role_endpoints r) (endpoint_url i)))"
  using resolve_distinct resolve_iff by (auto simp: role_granted_def list_ex_iff)

lemma update_role_unique:
  "distinct (map role_id rs) \<Longrightarrow> snd (update_role n f rs) = map (\<lambda>r. if role_id r = n then snd (f r) else r) rs"
proof (induction rs)
  case (Cons r rs)
  show ?case
  proof (cases "role_id r = n")
    case True
    then have "map (\<lambda>r. if role_id r = n then snd (f r) else r) rs = rs"
      using Cons.prems by (intro map_idI) (metis distinct.simps(2) image_eqI image_set list.simps(9))
    with True show ?thesis by (cases "f r") simp
  next
    case False
    with Cons show ?thesis by (cases "update_role n f rs") simp
  qed
qed simp

lemma add_application_granted:
  assumes "filter_exclude (role_applications r)" "snd (filter_add a (role_applications r)) = f"
  shows "role_granted i (r\<lparr>role_applications := f\<rparr>) \<longleftrightarrow> role_granted i r \<and> application_uri i \<noteq> Some a"
  using assms by (cases "application_uri i") (auto simp: role_granted_def filter_allows_def filter_add_def split: if_splits)

text \<open>C32: adding an application to a role takes the role away from the sessions of that
  application, and changes nothing for any other session or role: the list is an exclusion list
  for every role that the methods can produce.\<close>

theorem add_application_excludes:
  assumes "server_resolver s0 = from_user_tokens us" "0 \<in> fst ` set (space_namespaces (server_space s0))"
    and "s = snd (role_calls t cs s0)"
    and "role_method t AddApplication caller n args s = (Role_Ok None, s')" "decode_application_uri_argument args = Inr a"
  shows "m \<in> set (resolve (server_resolver s') i) \<longleftrightarrow>
    m \<in> set (resolve (server_resolver s) i) \<and> \<not> (m = n \<and> application_uri i = Some a)"
proof -
  let ?rr = "server_resolver s"
  define f :: "RoleRules \<Rightarrow> bool \<times> RoleRules"
    where "f = (\<lambda>r. case filter_add a (role_applications r) of (b, f) \<Rightarrow> (b, r\<lparr>role_applications := f\<rparr>))"
  have "role_server_inv s0"
    using assms(1,2) from_user_tokens_inv [of us] by (simp add: role_server_inv_def)
  then have inv: "resolver_inv ?rr"
    using role_calls_inv [of s0 t cs] assms(3) by (simp add: role_server_inv_def)
  have n: "n \<in> role_id ` set (roles ?rr)" and s': "server_resolver s' = snd (update_resolver n f ?rr)"
    using assms(4,5)
    by (auto simp: handle_add_application_def change_role_def contains_role_iff resolver_add_application_def f_def
        split: if_splits prod.splits)
  have ids: "role_id (snd (f r)) = role_id r" for r by (simp add: f_def split: prod.splits)
  have granted: "role_granted i (snd (f r)) \<longleftrightarrow> role_granted i r \<and> application_uri i \<noteq> Some a" if "r \<in> set (roles ?rr)" for r
    using add_application_granted [of r a _ i, OF _ refl] inv that
    by (auto simp: resolver_inv_def filters_exclude_def f_def split: prod.splits)
  obtain b rs where upd: "update_role n f (roles ?rr) = (Some b, rs)"
    using update_role_found [of n f "roles ?rr"] n by (cases "update_role n f (roles ?rr)") auto
  have "distinct (map role_id (roles ?rr))" using inv by (simp add: resolver_inv_def)
  from update_role_unique [OF this, of n f] upd
  have set_eq: "set (roles (server_resolver s')) = (\<lambda>r. if role_id r = n then snd (f r) else r) ` set (roles ?rr)"
    by (simp add: s' update_resolver_def)
  show ?thesis
  proof
    assume "m \<in> set (resolve (server_resolver s') i)"
    then obtain r where "r \<in> set (roles ?rr)" "role_id (if role_id r = n then snd (f r) else r) = m"
      "role_granted i (if role_id r = n then snd (f r) else r)"
      unfolding resolve_iff set_eq by blast
    with granted [of r] ids [of r] show "m \<in> set (resolve ?rr i) \<and> \<not> (m = n \<and> application_uri i = Some a)"
      unfolding resolve_iff by (auto split: if_splits)
  next
    assume "m \<in> set (resolve ?rr i) \<and> \<not> (m = n \<and> application_uri i = Some a)"
    then obtain r where "r \<in> set (roles ?rr)" "role_id r = m" "role_granted i r" "\<not> (m = n \<and> application_uri i = Some a)"
      unfolding resolve_iff by blast
    with granted [of r] ids [of r] have "role_id (if role_id r = n then snd (f r) else r) = m"
      "role_granted i (if role_id r = n then snd (f r) else r)" by auto
    with \<open>r \<in> set (roles ?rr)\<close> show "m \<in> set (resolve (server_resolver s') i)"
      unfolding resolve_iff set_eq by blast
  qed
qed

theorem add_application_excludes_witness:
  "\<exists>s'. role_method example_text AddApplication example_admin (role_node_id Role_Operator) [Arg_String (Some [97])]
      example_role_server = (Role_Ok None, s')
   \<and> role_node_id Role_Operator \<in> set (resolve (server_resolver example_role_server)
        \<lparr>identity_kind = Kind_UserName (ascii ''op''), application_uri = Some [97], endpoint_url = None\<rparr>)
   \<and> role_node_id Role_Operator \<notin> set (resolve (server_resolver s')
        \<lparr>identity_kind = Kind_UserName (ascii ''op''), application_uri = Some [97], endpoint_url = None\<rparr>)"
proof -
  let ?i = "\<lparr>identity_kind = Kind_UserName (ascii ''op''), application_uri = Some [97], endpoint_url = None\<rparr>"
  let ?args = "[Arg_String (Some [97])]"
  let ?s = "example_role_server"
  have r: "server_resolver ?s = from_user_tokens [\<lparr>token_user = ascii ''op'', token_x509 = None, token_thumbprint = None,
        token_roles = [role_node_id Role_Operator]\<rparr>]" "0 \<in> fst ` set (space_namespaces (server_space ?s))"
    by (simp_all add: example_role_server_def)
  have granted: "role_node_id Role_Operator \<in> set (resolve (server_resolver ?s) ?i)"
    by (simp add: r(1) resolve_iff role_granted_def from_user_tokens_def rule_of_token_def add_mapping_def
        RoleResolver_default_def all_well_known_roles_def RoleRules_new_def role_node_id_inj matches_rule_def
        filter_allows_def RoleFilter_default_def)
  obtain s' where s': "role_method example_text AddApplication example_admin (role_node_id Role_Operator) ?args ?s
      = (Role_Ok None, s')"
    by (simp add: handle_add_application_def is_security_admin_def example_admin_def decode_application_uri_argument_def
        decode_string_argument_def change_role_def contains_role_def r(1) from_user_tokens_def rule_of_token_def
        add_mapping_def RoleResolver_default_def all_well_known_roles_def RoleRules_new_def role_node_id_inj
        resolver_add_application_def update_resolver_def filter_add_def RoleFilter_default_def)
  have a: "decode_application_uri_argument ?args = Inr [97]"
    by (simp add: decode_application_uri_argument_def decode_string_argument_def)
  have "?s = snd (role_calls example_text [] ?s)" by simp
  from add_application_excludes [OF r this s' a, of "role_node_id Role_Operator" ?i] s' granted
  show ?thesis by auto
qed

text \<open>A rule that grants a role to holders of another role never applies: the identity of an
  activated session carries no role ids.\<close>

theorem role_rule_never_applies:
  assumes "resolved_identity_from_activation thumbprint_of tok claim_roles app url = Inr i"
  shows "\<not> matches_rule i (Rule_Role n)"
  using assms
  by (auto simp: resolved_identity_from_activation_def matches_rule_def bind_result_eq_Inr
      split: IdentityToken.splits ResolvedIdentityKind.splits)

theorem role_rule_never_applies_witness:
  "\<not> matches_rule \<lparr>identity_kind = Kind_IssuedToken [ascii ''g''] [], application_uri = None, endpoint_url = None\<rparr>
      (Rule_Role (role_node_id Role_Operator))"
  by (rule role_rule_never_applies [of "\<lambda>_. Inl 0" Token_Issued "Some [ascii ''g'']" None None])
    (simp add: resolved_identity_from_activation_def)

end
