(* ===== verification/Access_Control.thy ===== *)
theory Access_Control
  imports Role_Management Secure_Channel
begin

unbundle bit_operations_syntax

text \<open>
  Authorization decisions, after \<open>async-opcua-server/src/rbac/decision.rs\<close>, \<open>rbac/defaults.rs\<close>,
  \<open>rbac/preset.rs\<close> and the checks of \<open>address_space/utils.rs\<close> that the services call. A node is
  seen as what these read of it; the authenticator, which an application may replace, is a
  function on access levels.
\<close>

section \<open>Permissions\<close>

type_synonym PermissionType = "32 word"
type_synonym AccessRestrictionType = "16 word"

definition Perm_Browse :: PermissionType where "Perm_Browse = 1"
definition Perm_ReadRolePermissions :: PermissionType where "Perm_ReadRolePermissions = 2"
definition Perm_WriteAttribute :: PermissionType where "Perm_WriteAttribute = 4"
definition Perm_WriteRolePermissions :: PermissionType where "Perm_WriteRolePermissions = 8"
definition Perm_WriteHistorizing :: PermissionType where "Perm_WriteHistorizing = 16"
definition Perm_Read :: PermissionType where "Perm_Read = 32"
definition Perm_Write :: PermissionType where "Perm_Write = 64"
definition Perm_ReadHistory :: PermissionType where "Perm_ReadHistory = 128"
definition Perm_InsertHistory :: PermissionType where "Perm_InsertHistory = 256"
definition Perm_ModifyHistory :: PermissionType where "Perm_ModifyHistory = 512"
definition Perm_DeleteHistory :: PermissionType where "Perm_DeleteHistory = 1024"
definition Perm_ReceiveEvents :: PermissionType where "Perm_ReceiveEvents = 2048"
definition Perm_Call :: PermissionType where "Perm_Call = 4096"
definition Perm_AddReference :: PermissionType where "Perm_AddReference = 8192"
definition Perm_RemoveReference :: PermissionType where "Perm_RemoveReference = 16384"
definition Perm_DeleteNode :: PermissionType where "Perm_DeleteNode = 32768"
definition Perm_AddNode :: PermissionType where "Perm_AddNode = 65536"

definition Restrict_Signing :: AccessRestrictionType where "Restrict_Signing = 1"
definition Restrict_Encryption :: AccessRestrictionType where "Restrict_Encryption = 2"
definition Restrict_Session :: AccessRestrictionType where "Restrict_Session = 4"

text \<open>\<open>contains\<close> of \<open>bitflags\<close>.\<close>

definition flags_contain :: "'a::len word \<Rightarrow> 'a word \<Rightarrow> bool" where
  "flags_contain a b \<longleftrightarrow> a AND b = b"

record RolePermission =
  rp_role_id :: NodeId
  rp_permissions :: PermissionType

definition authorize_with_enforcement ::
    "NodeId list \<Rightarrow> RolePermission list option \<Rightarrow> PermissionType \<Rightarrow> bool \<Rightarrow> bool" where
  "authorize_with_enforcement user_roles effective required enforce =
     (if \<not> enforce then True
      else case effective of
        None \<Rightarrow> False
      | Some role_permissions \<Rightarrow>
          flags_contain
            (foldl (\<lambda>granted rp. granted OR rp_permissions rp) 0
              (filter (\<lambda>rp. list_ex (\<lambda>r. r = rp_role_id rp) user_roles) role_permissions))
            required)"

definition authorize :: "NodeId list \<Rightarrow> RolePermission list option \<Rightarrow> PermissionType \<Rightarrow> bool" where
  "authorize user_roles effective required = authorize_with_enforcement user_roles effective required False"

definition event_receive_allowed_with_enforcement :: "NodeId list \<Rightarrow> RolePermission list option \<Rightarrow> bool \<Rightarrow> bool" where
  "event_receive_allowed_with_enforcement user_roles source_permissions enforce =
     authorize_with_enforcement user_roles source_permissions Perm_ReceiveEvents enforce"

section \<open>Namespace defaults\<close>

record NamespaceDefaultPermissions =
  default_role_permissions :: "RolePermission list option"
  default_access_restrictions :: "AccessRestrictionType option"

type_synonym NamespaceDefaults = "u16 \<rightharpoonup> NamespaceDefaultPermissions"

definition defaults_role_permissions :: "NamespaceDefaults \<Rightarrow> u16 \<Rightarrow> RolePermission list option" where
  "defaults_role_permissions d ns = (case d ns of None \<Rightarrow> None | Some p \<Rightarrow> default_role_permissions p)"

definition defaults_access_restrictions :: "NamespaceDefaults \<Rightarrow> u16 \<Rightarrow> AccessRestrictionType option" where
  "defaults_access_restrictions d ns = (case d ns of None \<Rightarrow> None | Some p \<Rightarrow> default_access_restrictions p)"

definition defaults_entry :: "NamespaceDefaults \<Rightarrow> u16 \<Rightarrow> NamespaceDefaultPermissions" where
  "defaults_entry d ns =
     (case d ns of Some p \<Rightarrow> p | None \<Rightarrow> \<lparr>default_role_permissions = None, default_access_restrictions = None\<rparr>)"

definition set_role_permissions :: "u16 \<Rightarrow> RolePermission list \<Rightarrow> NamespaceDefaults \<Rightarrow> NamespaceDefaults" where
  "set_role_permissions ns ps d = d(ns \<mapsto> (defaults_entry d ns)\<lparr>default_role_permissions := Some ps\<rparr>)"

definition set_access_restrictions :: "u16 \<Rightarrow> AccessRestrictionType \<Rightarrow> NamespaceDefaults \<Rightarrow> NamespaceDefaults" where
  "set_access_restrictions ns r d = d(ns \<mapsto> (defaults_entry d ns)\<lparr>default_access_restrictions := Some r\<rparr>)"

section \<open>Presets\<close>

definition anonymous_permissions :: PermissionType where
  "anonymous_permissions = Perm_Browse OR Perm_Read OR Perm_ReadRolePermissions"

definition observer_permissions :: PermissionType where
  "observer_permissions = Perm_Browse OR Perm_Read OR Perm_ReadHistory OR Perm_ReceiveEvents"

definition operator_permissions :: PermissionType where
  "operator_permissions = observer_permissions OR Perm_Write OR Perm_Call"

definition engineer_permissions :: PermissionType where
  "engineer_permissions =
     operator_permissions OR Perm_WriteAttribute OR Perm_WriteHistorizing OR Perm_InsertHistory
     OR Perm_ModifyHistory OR Perm_DeleteHistory"

definition configure_admin_permissions :: PermissionType where
  "configure_admin_permissions =
     Perm_Browse OR Perm_Read OR Perm_Write OR Perm_WriteAttribute OR Perm_AddNode OR Perm_DeleteNode
     OR Perm_AddReference OR Perm_RemoveReference"

definition security_admin_permissions :: PermissionType where
  "security_admin_permissions =
     Perm_Browse OR Perm_Read OR Perm_ReadRolePermissions OR Perm_WriteRolePermissions"

definition secure_well_known_permissions :: "RolePermission list" where
  "secure_well_known_permissions =
     map (\<lambda>(r, p). \<lparr>rp_role_id = role_node_id r, rp_permissions = p\<rparr>)
       [(Role_Anonymous, anonymous_permissions), (Role_AuthenticatedUser, anonymous_permissions),
        (Role_Observer, observer_permissions), (Role_Operator, operator_permissions),
        (Role_Engineer, engineer_permissions), (Role_Supervisor, operator_permissions),
        (Role_ConfigureAdmin, configure_admin_permissions), (Role_SecurityAdmin, security_admin_permissions)]"

section \<open>Nodes and requests\<close>

type_synonym AccessLevel = u8

definition CURRENT_READ :: AccessLevel where "CURRENT_READ = 1"
definition CURRENT_WRITE :: AccessLevel where "CURRENT_WRITE = 2"

record AccessNode =
  an_node_id :: NodeId
  an_is_variable :: bool
  an_role_permissions :: "RolePermission list option"
  an_access_restrictions :: "AccessRestrictionType option"
  an_write_mask :: "u32 option"
  an_user_access_level :: AccessLevel

record RequestContext =
  rc_user_roles :: "NodeId list"
  rc_enforce :: bool
  rc_security_mode :: MessageSecurityMode
  rc_namespace_defaults :: NamespaceDefaults
  rc_auth_profile :: "(bool \<times> bool) option"
  rc_effective_access_level :: "AccessLevel \<Rightarrow> NodeId \<Rightarrow> AccessLevel"

definition effective_role_permissions :: "NamespaceDefaults \<Rightarrow> AccessNode \<Rightarrow> RolePermission list option" where
  "effective_role_permissions d n =
     (case an_role_permissions n of
        Some ps \<Rightarrow> Some ps
      | None \<Rightarrow> defaults_role_permissions d (nid_namespace (an_node_id n)))"

definition authorize_ctx :: "RequestContext \<Rightarrow> AccessNode \<Rightarrow> PermissionType \<Rightarrow> bool" where
  "authorize_ctx c n required =
     authorize_with_enforcement (rc_user_roles c) (effective_role_permissions (rc_namespace_defaults c) n)
       required (rc_enforce c)"

definition effective_access_restrictions :: "NamespaceDefaults \<Rightarrow> AccessNode \<Rightarrow> AccessRestrictionType option" where
  "effective_access_restrictions d n =
     (case an_access_restrictions n of
        Some r \<Rightarrow> Some r
      | None \<Rightarrow> defaults_access_restrictions d (nid_namespace (an_node_id n)))"

definition Status_BadSecurityModeInsufficient :: StatusCode where "Status_BadSecurityModeInsufficient = 0x80E60000"
definition Status_BadNotWritable :: StatusCode where "Status_BadNotWritable = 0x803B0000"
definition Status_BadDataEncodingInvalid :: StatusCode where "Status_BadDataEncodingInvalid = 0x80380000"

definition access_restrictions_ok :: "AccessRestrictionType option \<Rightarrow> MessageSecurityMode \<Rightarrow> StatusCode + unit" where
  "access_restrictions_ok restrictions mode =
     (case restrictions of
        None \<Rightarrow> Inr ()
      | Some r \<Rightarrow>
          if flags_contain r Restrict_Encryption \<and> mode \<noteq> Mode_SignAndEncrypt
          then Inl Status_BadSecurityModeInsufficient
          else if flags_contain r Restrict_Signing \<and> \<not> (mode = Mode_Sign \<or> mode = Mode_SignAndEncrypt)
          then Inl Status_BadSecurityModeInsufficient
          else Inr ())"

definition access_restrictions_ok_ctx :: "RequestContext \<Rightarrow> AccessNode \<Rightarrow> StatusCode + unit" where
  "access_restrictions_ok_ctx c n =
     (if \<not> rc_enforce c then Inr ()
      else access_restrictions_ok (effective_access_restrictions (rc_namespace_defaults c) n) (rc_security_mode c))"

section \<open>Attributes\<close>

datatype AttributeId =
    Attr_NodeId | Attr_NodeClass | Attr_BrowseName | Attr_DisplayName | Attr_Description | Attr_WriteMask
  | Attr_UserWriteMask | Attr_IsAbstract | Attr_Symmetric | Attr_InverseName | Attr_ContainsNoLoops
  | Attr_EventNotifier | Attr_Value | Attr_DataType | Attr_ValueRank | Attr_ArrayDimensions | Attr_AccessLevel
  | Attr_UserAccessLevel | Attr_MinimumSamplingInterval | Attr_Historizing | Attr_Executable
  | Attr_UserExecutable | Attr_DataTypeDefinition | Attr_RolePermissions | Attr_UserRolePermissions
  | Attr_AccessRestrictions | Attr_AccessLevelEx

fun permission_for_read_attribute :: "AttributeId \<Rightarrow> PermissionType" where
  "permission_for_read_attribute Attr_Value = Perm_Read"
| "permission_for_read_attribute Attr_RolePermissions = Perm_ReadRolePermissions"
| "permission_for_read_attribute Attr_UserRolePermissions = Perm_ReadRolePermissions"
| "permission_for_read_attribute _ = Perm_Browse"

fun permission_for_write_attribute :: "AttributeId \<Rightarrow> PermissionType" where
  "permission_for_write_attribute Attr_Value = Perm_Write"
| "permission_for_write_attribute Attr_RolePermissions = Perm_WriteRolePermissions"
| "permission_for_write_attribute Attr_Historizing = Perm_WriteHistorizing"
| "permission_for_write_attribute _ = Perm_WriteAttribute"

text \<open>The attributes that can be written and the position of their bit in a \<open>WriteMask\<close>.\<close>

definition WRITABLE_ATTRIBUTES :: "(AttributeId \<times> nat) list" where
  "WRITABLE_ATTRIBUTES =
     [(Attr_BrowseName, 2), (Attr_DisplayName, 6), (Attr_Description, 5), (Attr_WriteMask, 20),
      (Attr_UserWriteMask, 18), (Attr_IsAbstract, 11), (Attr_Symmetric, 15), (Attr_InverseName, 10),
      (Attr_ContainsNoLoops, 3), (Attr_EventNotifier, 7), (Attr_Value, 21), (Attr_DataType, 4),
      (Attr_ValueRank, 19), (Attr_ArrayDimensions, 1), (Attr_AccessLevel, 0), (Attr_UserAccessLevel, 16),
      (Attr_MinimumSamplingInterval, 12), (Attr_Historizing, 9), (Attr_Executable, 8), (Attr_UserExecutable, 17),
      (Attr_DataTypeDefinition, 22), (Attr_RolePermissions, 23), (Attr_AccessRestrictions, 24), (Attr_AccessLevelEx, 25)]"

definition mask_bit :: "nat \<Rightarrow> u32" where
  "mask_bit b = push_bit b 1"

definition write_mask_bit_for_attribute :: "AttributeId \<Rightarrow> u32 option" where
  "write_mask_bit_for_attribute a =
     (case find (\<lambda>(attr, _). attr = a) WRITABLE_ATTRIBUTES of None \<Rightarrow> None | Some (_, b) \<Rightarrow> Some (mask_bit b))"

definition authenticator_user_access_level :: "RequestContext \<Rightarrow> AccessNode \<Rightarrow> AccessLevel" where
  "authenticator_user_access_level c n =
     rc_effective_access_level c (if an_is_variable n then an_user_access_level n else CURRENT_READ) (an_node_id n)"

definition is_readable :: "RequestContext \<Rightarrow> AccessNode \<Rightarrow> StatusCode + unit" where
  "is_readable c n =
     bind_result (access_restrictions_ok_ctx c n) (\<lambda>_.
       if \<not> flags_contain (authenticator_user_access_level c n) CURRENT_READ \<or> \<not> authorize_ctx c n Perm_Read
       then Inl Status_BadUserAccessDenied else Inr ())"

definition is_attribute_readable :: "RequestContext \<Rightarrow> AccessNode \<Rightarrow> AttributeId \<Rightarrow> StatusCode + unit" where
  "is_attribute_readable c n a =
     bind_result (access_restrictions_ok_ctx c n) (\<lambda>_.
       if \<not> flags_contain (authenticator_user_access_level c n) CURRENT_READ then Inl Status_BadUserAccessDenied
       else if a = Attr_RolePermissions \<and> \<not> authorize_ctx c n Perm_ReadRolePermissions
       then Inl Status_BadUserAccessDenied else Inr ())"

definition validate_read_access :: "RequestContext \<Rightarrow> StatusCode + unit" where
  "validate_read_access c =
     (case rc_auth_profile c of
        Some (can_read, _) \<Rightarrow> if can_read then Inr () else Inl Status_BadUserAccessDenied
      | None \<Rightarrow> Inr ())"

definition validate_write_access :: "RequestContext \<Rightarrow> StatusCode + unit" where
  "validate_write_access c =
     (case rc_auth_profile c of
        Some (_, can_write) \<Rightarrow> if can_write then Inr () else Inl Status_BadUserAccessDenied
      | None \<Rightarrow> Inr ())"

datatype DataEncoding = Encoding_Binary | Encoding_XML | Encoding_JSON | Encoding_Other QualifiedName

definition is_supported_data_encoding :: "DataEncoding \<Rightarrow> bool" where
  "is_supported_data_encoding e = (case e of Encoding_Other _ \<Rightarrow> False | _ \<Rightarrow> True)"

record ReadValue =
  rv_attribute :: AttributeId
  rv_data_encoding :: DataEncoding
  rv_index_range :: NumericRange

definition validate_node_read :: "AccessNode \<Rightarrow> RequestContext \<Rightarrow> ReadValue \<Rightarrow> StatusCode + unit" where
  "validate_node_read n c r =
     bind_result (validate_read_access c) (\<lambda>_.
     bind_result
       (if rv_attribute r = Attr_Value then is_readable c n else is_attribute_readable c n (rv_attribute r)) (\<lambda>_.
       if rv_attribute r \<noteq> Attr_Value \<and> (rv_data_encoding r = Encoding_XML \<or> rv_data_encoding r = Encoding_JSON)
       then Inl Status_BadDataEncodingInvalid
       else if rv_attribute r \<noteq> Attr_Value \<and> rv_index_range r \<noteq> NR_None
       then Inl Status_BadIndexRangeDataMismatch
       else if \<not> is_supported_data_encoding (rv_data_encoding r) then Inl Status_BadDataEncodingInvalid
       else Inr ()))"

definition is_writable :: "RequestContext \<Rightarrow> AccessNode \<Rightarrow> AttributeId \<Rightarrow> StatusCode + unit" where
  "is_writable c n a =
     bind_result (validate_write_access c) (\<lambda>_.
       if an_is_variable n \<and> a = Attr_Value then
         bind_result (access_restrictions_ok_ctx c n) (\<lambda>_.
           if \<not> flags_contain (authenticator_user_access_level c n) CURRENT_WRITE then Inl Status_BadUserAccessDenied
           else if \<not> authorize_ctx c n Perm_Write then Inl Status_BadUserAccessDenied
           else Inr ())
       else
         case write_mask_bit_for_attribute a of
           None \<Rightarrow> Inl Status_BadNotWritable
         | Some b \<Rightarrow>
             (case an_write_mask n of
                None \<Rightarrow> Inl Status_BadNotWritable
              | Some wm \<Rightarrow>
                  if \<not> flags_contain wm b then Inl Status_BadNotWritable
                  else bind_result (access_restrictions_ok_ctx c n) (\<lambda>_.
                    if \<not> authorize_ctx c n (permission_for_write_attribute a) then Inl Status_BadUserAccessDenied
                    else Inr ())))"

definition user_access_level :: "RequestContext \<Rightarrow> AccessNode \<Rightarrow> AccessLevel" where
  "user_access_level c n =
     (let level = authenticator_user_access_level c n
      in if an_role_permissions n \<noteq> None then
           let level = (if \<not> authorize_ctx c n Perm_Read then level AND NOT CURRENT_READ else level)
           in if \<not> authorize_ctx c n Perm_Write then level AND NOT CURRENT_WRITE else level
         else level)"

definition user_write_mask :: "RequestContext \<Rightarrow> AccessNode \<Rightarrow> u32 option" where
  "user_write_mask c n =
     map_option
       (\<lambda>wm. foldl (\<lambda>bits (a, b).
            if bits AND mask_bit b \<noteq> 0 \<and> \<not> authorize_ctx c n (permission_for_write_attribute a)
            then bits AND NOT (mask_bit b) else bits) wm WRITABLE_ATTRIBUTES AND mask 26)
       (an_write_mask n)"

fun merge_role_permission :: "RolePermission \<Rightarrow> RolePermission list \<Rightarrow> RolePermission list" where
  "merge_role_permission rp [] = [rp]"
| "merge_role_permission rp (e # es) =
     (if rp_role_id e = rp_role_id rp
      then e\<lparr>rp_permissions := rp_permissions e OR rp_permissions rp\<rparr> # es
      else e # merge_role_permission rp es)"

definition compute_user_role_permissions :: "RolePermission list \<Rightarrow> NodeId list \<Rightarrow> RolePermission list" where
  "compute_user_role_permissions role_permissions user_roles =
     foldl (\<lambda>merged rp. if \<not> list_ex (\<lambda>r. r = rp_role_id rp) user_roles then merged
                        else merge_role_permission rp merged) [] role_permissions"

section \<open>What the decisions mean\<close>


lemma flags_contain_bits: "flags_contain (a :: 'a::len word) b \<longleftrightarrow> (\<forall>i. bit b i \<longrightarrow> bit a i)"
  by (auto simp: flags_contain_def bit_eq_iff bit_and_iff dest: bit_imp_le_length)


lemma bit_mask_bit: "bit (mask_bit b) i \<longleftrightarrow> i = b \<and> b < 32"
  by (auto simp: mask_bit_def bit_exp_iff possible_bit_def)

lemma flags_contain_mask_bit: "flags_contain m (mask_bit b) \<longleftrightarrow> (b < 32 \<longrightarrow> bit m b)"
  by (auto simp: flags_contain_bits bit_mask_bit)

lemma and_mask_bit: "m AND mask_bit b \<noteq> 0 \<longleftrightarrow> b < 32 \<and> bit m b"
proof -
  have "m AND mask_bit b = 0 \<longleftrightarrow> (\<forall>i. \<not> bit (m AND mask_bit b) i)"
    using bit_imp_le_length [of "m AND mask_bit b"] by (auto simp: bit_eq_iff)
  then show ?thesis by (auto simp: bit_and_iff bit_mask_bit)
qed

text \<open>The loop of \<open>user_write_mask\<close> clears the bits of the attributes the user may not write.\<close>

lemma user_write_mask_loop:
  "bit (foldl (\<lambda>bits (a, b). if bits AND mask_bit b \<noteq> 0 \<and> \<not> ok a then bits AND NOT (mask_bit b) else bits) wm as) p
   \<longleftrightarrow> bit wm p \<and> (\<forall>(a, b)\<in>set as. b = p \<longrightarrow> ok a)"
proof (induction as arbitrary: wm)
  case (Cons ab as)
  obtain a b where ab: "ab = (a, b)" by fastforce
  have "bit (if wm AND mask_bit b \<noteq> 0 \<and> \<not> ok a then wm AND NOT (mask_bit b) else wm) p
      \<longleftrightarrow> bit wm p \<and> (b = p \<longrightarrow> ok a)"
    by (auto simp: and_mask_bit bit_and_iff bit_not_iff bit_mask_bit dest: bit_imp_le_length)
  with Cons.IH show ?case by (auto simp: ab)
qed simp

lemma writable_attribute_positions:
  "distinct (map fst WRITABLE_ATTRIBUTES) \<and> distinct (map snd WRITABLE_ATTRIBUTES)
   \<and> list_all (\<lambda>(_, b). b < 26) WRITABLE_ATTRIBUTES"
  by (simp add: WRITABLE_ATTRIBUTES_def)

lemma writable_attribute_unique:
  assumes "(a, p) \<in> set WRITABLE_ATTRIBUTES" "(a', p) \<in> set WRITABLE_ATTRIBUTES"
  shows "a' = a"
  using writable_attribute_positions inj_onD [of snd "set WRITABLE_ATTRIBUTES", OF _ _ assms]
  by (simp add: distinct_map)

lemma write_mask_bit_position:
  assumes "write_mask_bit_for_attribute a = Some m"
  shows "\<exists>p. m = mask_bit p \<and> (a, p) \<in> set WRITABLE_ATTRIBUTES \<and> p < 26
    \<and> (\<forall>a'. (a', p) \<in> set WRITABLE_ATTRIBUTES \<longrightarrow> a' = a)"
proof -
  from assms obtain a0 p where "find (\<lambda>(attr, _). attr = a) WRITABLE_ATTRIBUTES = Some (a0, p)" "m = mask_bit p"
    by (auto simp: write_mask_bit_for_attribute_def split: option.splits)
  then have p: "m = mask_bit p" "(a, p) \<in> set WRITABLE_ATTRIBUTES"
    by (auto simp: find_Some_iff) (metis nth_mem)
  moreover have "p < 26" using p(2) writable_attribute_positions by (auto simp: list_all_iff)
  moreover have "a' = a" if "(a', p) \<in> set WRITABLE_ATTRIBUTES" for a'
    using writable_attribute_unique [OF p(2) that] .
  ultimately show ?thesis by blast
qed

section \<open>Properties\<close>


text \<open>A session of an anonymous user, and a variable that everybody may read and whose
  description and write mask the engineers may change.\<close>

definition ac_anonymous :: ResolvedIdentity where
  "ac_anonymous = \<lparr>identity_kind = Kind_Anonymous, application_uri = None, endpoint_url = None\<rparr>"

definition ac_context :: RequestContext where
  "ac_context = \<lparr>rc_user_roles = resolve RoleResolver_default ac_anonymous,
     rc_enforce = True, rc_security_mode = Mode_None, rc_namespace_defaults = Map.empty, rc_auth_profile = None,
     rc_effective_access_level = (\<lambda>l _. l)\<rparr>"

definition ac_node :: AccessNode where
  "ac_node = \<lparr>an_node_id = role_node_id Role_Operator, an_is_variable = True,
     an_role_permissions = Some [\<lparr>rp_role_id = role_node_id Role_Engineer, rp_permissions = engineer_permissions\<rparr>,
                                 \<lparr>rp_role_id = role_node_id Role_Anonymous, rp_permissions = anonymous_permissions\<rparr>],
     an_access_restrictions = None, an_write_mask = Some 32, an_user_access_level = 3\<rparr>"

lemma ac_mask: "an_write_mask ac_node = Some 32"
  by (simp add: ac_node_def)

lemma ac_roles: "rc_user_roles ac_context = resolve RoleResolver_default ac_anonymous" "rc_enforce ac_context"
  by (simp_all add: ac_context_def)



text \<open>C25: the \<open>UserWriteMask\<close> a client reads tells the truth: for a session that may write at all
  (\<open>validate_write_access\<close> succeeds) over a channel that meets the access restrictions of the node, and
  for every attribute but the value of a variable, the bit of the attribute is set there exactly
  when a write of that attribute is accepted.\<close>

theorem user_write_mask_matches:
  assumes "validate_write_access c = Inr ()" "access_restrictions_ok_ctx c n = Inr ()"
    and "\<not> (an_is_variable n \<and> a = Attr_Value)"
    and "write_mask_bit_for_attribute a = Some b" "user_write_mask c n = Some m"
  shows "flags_contain m b \<longleftrightarrow> is_writable c n a = Inr ()"
proof -
  obtain p where p: "b = mask_bit p \<and> (a, p) \<in> set WRITABLE_ATTRIBUTES \<and> p < 26
      \<and> (\<forall>a'. (a', p) \<in> set WRITABLE_ATTRIBUTES \<longrightarrow> a' = a)"
    using write_mask_bit_position [OF assms(4)] ..
  from assms(5) obtain wm where wm: "an_write_mask n = Some wm"
    and m: "m = foldl (\<lambda>bits (a, b).
            if bits AND mask_bit b \<noteq> 0 \<and> \<not> authorize_ctx c n (permission_for_write_attribute a)
            then bits AND NOT (mask_bit b) else bits) wm WRITABLE_ATTRIBUTES AND mask 26"
    by (auto simp: user_write_mask_def)
  have "flags_contain m b \<longleftrightarrow> bit wm p \<and> authorize_ctx c n (permission_for_write_attribute a)"
    unfolding m using p by (auto simp: flags_contain_mask_bit bit_and_iff bit_mask_iff user_write_mask_loop)
  moreover have "flags_contain wm b \<longleftrightarrow> bit wm p" using p by (simp add: flags_contain_mask_bit)
  ultimately show ?thesis
    using assms(1-4) wm by (auto simp: is_writable_def bind_result_def)
qed

lemma user_write_mask_matches_witness:
  "\<not> flags_contain (the (user_write_mask ac_context ac_node)) (mask_bit 5)
   \<and> is_writable ac_context ac_node Attr_Description = Inl Status_BadUserAccessDenied"
proof -
  have "rc_user_roles ac_context = [role_node_id Role_Anonymous]"
    by (simp add: ac_context_def resolve_def RoleResolver_default_def all_well_known_roles_def RoleRules_new_def
        role_granted_def matches_rule_def ac_anonymous_def role_node_id_inj push_unique_def RoleFilter_default_def
        filter_allows_def)
  then have auth: "authorize_ctx ac_context ac_node Perm_WriteAttribute = False"
    by (simp add: authorize_ctx_def authorize_with_enforcement_def effective_role_permissions_def ac_node_def
        ac_roles(2) role_node_id_inj anonymous_permissions_def Perm_WriteAttribute_def Perm_Read_def
        Perm_Browse_def Perm_ReadRolePermissions_def flags_contain_def)
  have m: "user_write_mask ac_context ac_node = Some (the (user_write_mask ac_context ac_node))"
    by (simp add: user_write_mask_def ac_mask)
  have b: "write_mask_bit_for_attribute Attr_Description = Some (mask_bit 5)"
    by (simp add: write_mask_bit_for_attribute_def WRITABLE_ATTRIBUTES_def)
  have ok: "validate_write_access ac_context = Inr ()" "access_restrictions_ok_ctx ac_context ac_node = Inr ()"
    by (simp_all add: validate_write_access_def access_restrictions_ok_ctx_def effective_access_restrictions_def
        access_restrictions_ok_def defaults_access_restrictions_def ac_context_def ac_node_def)
  have "flags_contain (32 :: u32) (mask_bit 5)" by (simp add: flags_contain_mask_bit)
  then have "is_writable ac_context ac_node Attr_Description = Inl Status_BadUserAccessDenied"
    by (simp add: is_writable_def bind_result_def ok b ac_mask auth)
  then show ?thesis
    using user_write_mask_matches [OF ok _ b m] by simp
qed

end
