(* ===== verification/Data_Values.thy ===== *)
theory Data_Values
  imports Node_Ids
begin

unbundle bit_operations_syntax

text \<open>
  The values of variables on the wire, after \<open>async-opcua-types/src/variant\<close>, \<open>data_value.rs\<close>,
  \<open>array.rs\<close>, \<open>date_time.rs\<close>, \<open>diagnostic_info.rs\<close> and \<open>extension_object.rs\<close>. The bodies of extension
  objects are those of generated or application types; their codec is a parameter, and
  \<open>fallback_codec\<close> is the one of \<open>type_loader/fallback.rs\<close>, which takes what no other loader knows.
\<close>

section \<open>Writers and readers that belong together\<close>

definition writes_back :: "bytes encoding_result \<Rightarrow> nat \<Rightarrow> 'a decoder \<Rightarrow> 'a \<Rightarrow> bool" where
  "writes_back w n p x \<longleftrightarrow> (\<exists>bs. w = Inr bs \<and> length bs = n \<and> (\<forall>t. p (bs @ t) = Inr (x, t)))"

named_theorems wb_intros

lemma writes_backI: "w = Inr bs \<Longrightarrow> length bs = n \<Longrightarrow> (\<And>t. p (bs @ t) = Inr (x, t)) \<Longrightarrow> writes_back w n p x"
  by (auto simp: writes_back_def)

lemma wb_bind:
  "writes_back w m p x \<Longrightarrow> writes_back v n (f x) y \<Longrightarrow> writes_back (wr_seq w v) (m + n) (rd_bind p f) y"
  by (fastforce simp: writes_back_def)

lemma wb_map: "writes_back w n p x \<Longrightarrow> writes_back w n (rd_map f p) (f x)"
  by (fastforce simp: writes_back_def)

lemma wb_last: "writes_back w n p x \<Longrightarrow> writes_back w n (rd_bind p (\<lambda>x. rd_return (f x))) (f x)"
  by (fastforce simp: writes_back_def)

lemma wb_result: "writes_back w n p x \<Longrightarrow> x = y \<Longrightarrow> writes_back w n p y"
  by simp

lemma wb_guards:
  "\<not> A \<Longrightarrow> \<not> B \<Longrightarrow> \<not> C \<Longrightarrow> writes_back w n p x \<Longrightarrow>
   writes_back w n (if A then a else if B then b else if C then c else p) x"
  by simp

lemma wb_return: "writes_back (Inr []) 0 (rd_return x) x"
  by (simp add: writes_back_def)

lemma wb_option:
  assumes "has \<longleftrightarrow> ox \<noteq> None" "\<And>x. ox = Some x \<Longrightarrow> writes_back (w x) (l x) p x"
  shows "writes_back (case ox of None \<Rightarrow> Inr [] | Some x \<Rightarrow> w x) (case ox of None \<Rightarrow> 0 | Some x \<Rightarrow> l x)
    (if has then rd_map Some p else rd_return None) ox"
  using assms wb_return wb_map by (cases ox) fastforce+

lemma wb_times:
  "(\<And>x. x \<in> set xs \<Longrightarrow> writes_back (w x) (l x) p x) \<Longrightarrow>
   writes_back (wr_all w xs) (sum_list (map l xs)) (rd_times (length xs) p) xs"
proof (induction xs)
  case (Cons x xs)
  then have "writes_back (wr_seq (w x) (wr_all w xs)) (l x + sum_list (map l xs))
      (rd_bind p (\<lambda>x. rd_bind (rd_times (length xs) p) (\<lambda>xs. rd_return (x # xs)))) (x # xs)"
    using Cons.prems [of x] Cons.IH
    by (intro wb_bind [where x = x] wb_last [where f = "(#) x"]) auto
  then show ?case by simp
qed (simp add: wb_return)

context wire_format
begin

lemma wb: "ok x \<Longrightarrow> writes_back (enc x) (blen x) dec x"
  using encodes decodes by (fastforce simp: writes_back_def)

end

section \<open>Date and time\<close>

text \<open>
  A \<open>DateTime\<close> in ticks of 100 nanoseconds from the start of 1601; \<open>chrono\<close> counts them without
  overflow for every tick value of 64 bits. The client offset is in nanoseconds.
\<close>

type_synonym DateTime = int

definition endtimes_ticks :: int where
  "endtimes_ticks = (((9999 - 1601 + 1) * 365 + 2036) * 86400 - 1) * 10000000"

definition DateTime_from_ticks :: "i64 \<Rightarrow> DateTime" where
  "DateTime_from_ticks v = (if sint v = 2 ^ 63 - 1 then endtimes_ticks else sint v)"

definition checked_ticks :: "DateTime \<Rightarrow> i64" where
  "checked_ticks t =
     (if t < 0 then 0 else if endtimes_ticks < t then word_of_int (2 ^ 63 - 1) else word_of_int t)"

definition DateTime_sub :: "DateTime \<Rightarrow> int \<Rightarrow> DateTime" where
  "DateTime_sub t nanos = (t * 100 - nanos) div 100"

definition encode_DateTime :: "DateTime \<Rightarrow> bytes encoding_result" where
  "encode_DateTime t = write_i64 (checked_ticks t)"

section \<open>Contexts\<close>

record 'x body_codec =
  body_type_id :: "'x \<Rightarrow> NodeId option"
  body_is_xml :: "'x \<Rightarrow> bool"
  body_len :: "'x \<Rightarrow> nat"
  body_encode :: "'x \<Rightarrow> bytes encoding_result"
  body_loaders :: "(DecodingOptions \<Rightarrow> NodeId \<Rightarrow> nat \<Rightarrow> 'x decoder option) list"
  body_load_xml :: "DecodingOptions \<Rightarrow> NodeId \<Rightarrow> bytes \<Rightarrow> ua_error + 'x option"

record 'x Context =
  ctx_options :: DecodingOptions
  ctx_client_offset :: int
  ctx_codec :: "'x body_codec"

text \<open>\<open>options().depth_lock()?\<close>: the lock holds to the end of the function that took it.\<close>

definition depth_lock :: "'x Context \<Rightarrow> 'x Context encoding_result" where
  "depth_lock c =
     (case DepthLock_obtain (decoding_depth_gauge (ctx_options c)) of
        (g, Inl e) \<Rightarrow> Inl e
      | (g, Inr _) \<Rightarrow> Inr (c\<lparr>ctx_options := (ctx_options c)\<lparr>decoding_depth_gauge := g\<rparr>\<rparr>))"

definition with_depth_lock :: "'x Context \<Rightarrow> ('x Context \<Rightarrow> 'a decoder) \<Rightarrow> 'a decoder" where
  "with_depth_lock c f = (case depth_lock c of Inl e \<Rightarrow> rd_fail e | Inr c' \<Rightarrow> f c')"

definition ctx_depth :: "'x Context \<Rightarrow> nat" where
  "ctx_depth c = depth_left (decoding_depth_gauge (ctx_options c))"

lemma depth_lock_less: "depth_lock c = Inr c' \<Longrightarrow> ctx_depth c' < ctx_depth c"
  by (auto simp: depth_lock_def DepthLock_obtain_def DepthLock_drop_def Let_def ctx_depth_def depth_left_def
      split: if_splits)

lemma with_depth_lock_cong [fundef_cong]:
  "c = d \<Longrightarrow> (\<And>c'. depth_lock d = Inr c' \<Longrightarrow> f c' = g c') \<Longrightarrow> with_depth_lock c f = with_depth_lock d g"
  by (auto simp: with_depth_lock_def split: sum.splits)

lemma with_depth_lock_ok: "depth_lock c = Inr c' \<Longrightarrow> with_depth_lock c f = f c'"
  by (simp add: with_depth_lock_def)

definition decode_DateTime :: "'x Context \<Rightarrow> DateTime decoder" where
  "decode_DateTime c =
     rd_bind read_i64 (\<lambda>ticks. rd_return (DateTime_sub (DateTime_from_ticks ticks) (ctx_client_offset c)))"

definition with_zero_offset :: "'x Context \<Rightarrow> 'x Context" where
  "with_zero_offset c = c\<lparr>ctx_client_offset := 0\<rparr>"

section \<open>Diagnostic information\<close>

definition contains_flag :: "u8 \<Rightarrow> u8 \<Rightarrow> bool" where
  "contains_flag flags flag \<longleftrightarrow> flags AND flag = flag"

definition flag_if :: "bool \<Rightarrow> u8 \<Rightarrow> u8" where
  "flag_if b flag = (if b then flag else 0)"

datatype DiagnosticInfo = DiagnosticInfo
  (symbolic_id: "i32 option") (di_namespace_uri: "i32 option") (di_locale: "i32 option")
  (localized_text: "i32 option") (additional_info: "UAString option")
  (inner_status_code: "StatusCode option") (inner_diagnostic_info: "DiagnosticInfo option")

definition opt_len :: "('a \<Rightarrow> nat) \<Rightarrow> 'a option \<Rightarrow> nat" where
  "opt_len l ox = (case ox of None \<Rightarrow> 0 | Some x \<Rightarrow> l x)"

lemma opt_len_cong [fundef_cong]:
  "ox = oy \<Longrightarrow> (\<And>x. oy = Some x \<Longrightarrow> l x = m x) \<Longrightarrow> opt_len l ox = opt_len m oy"
  by (cases oy) (auto simp: opt_len_def)

definition wr_opt :: "('a \<Rightarrow> bytes encoding_result) \<Rightarrow> 'a option \<Rightarrow> bytes encoding_result" where
  "wr_opt w ox = (case ox of None \<Rightarrow> Inr [] | Some x \<Rightarrow> w x)"

lemma wr_opt_cong [fundef_cong]:
  "ox = oy \<Longrightarrow> (\<And>x. oy = Some x \<Longrightarrow> w x = v x) \<Longrightarrow> wr_opt w ox = wr_opt v oy"
  by (cases oy) (auto simp: wr_opt_def)

definition rd_opt :: "bool \<Rightarrow> 'a decoder \<Rightarrow> 'a option decoder" where
  "rd_opt has p = (if has then rd_map Some p else rd_return None)"

lemma wb_opt:
  assumes "has \<longleftrightarrow> ox \<noteq> None" "\<And>x. ox = Some x \<Longrightarrow> writes_back (w x) (l x) p x"
  shows "writes_back (wr_opt w ox) (opt_len l ox) (rd_opt has p) ox"
  using wb_option [of has ox w l p] assms by (simp add: wr_opt_def opt_len_def rd_opt_def)

lemma front_reader_rd_opt [reader_intros]: "front_reader p \<Longrightarrow> front_reader (rd_opt has p)"
  unfolding rd_opt_def by (intro reader_intros)

fun byte_len_DiagnosticInfo :: "DiagnosticInfo \<Rightarrow> nat" where
  "byte_len_DiagnosticInfo (DiagnosticInfo sid ns loc txt add code inner) =
     1 + (opt_len (\<lambda>_. 4) sid + (opt_len (\<lambda>_. 4) ns + (opt_len (\<lambda>_. 4) loc + (opt_len (\<lambda>_. 4) txt
       + (opt_len byte_len_UAString add + (opt_len (\<lambda>_. 4) code + opt_len byte_len_DiagnosticInfo inner))))))"

fun diagnostic_encoding_mask :: "DiagnosticInfo \<Rightarrow> u8" where
  "diagnostic_encoding_mask (DiagnosticInfo sid ns loc txt add code inner) =
     flag_if (sid \<noteq> None) 0x01 OR flag_if (ns \<noteq> None) 0x02 OR flag_if (loc \<noteq> None) 0x08
     OR flag_if (txt \<noteq> None) 0x04 OR flag_if (add \<noteq> None) 0x10 OR flag_if (code \<noteq> None) 0x20
     OR flag_if (inner \<noteq> None) 0x40"

fun encode_DiagnosticInfo :: "DiagnosticInfo \<Rightarrow> bytes encoding_result" where
  "encode_DiagnosticInfo (DiagnosticInfo sid ns loc txt add code inner) =
     wr_seq (write_u8 (diagnostic_encoding_mask (DiagnosticInfo sid ns loc txt add code inner)))
     (wr_seq (wr_opt write_i32 sid) (wr_seq (wr_opt write_i32 ns) (wr_seq (wr_opt write_i32 loc)
     (wr_seq (wr_opt write_i32 txt) (wr_seq (wr_opt encode_UAString add) (wr_seq (wr_opt encode_StatusCode code)
       (wr_opt encode_DiagnosticInfo inner)))))))"

function decode_DiagnosticInfo :: "'x Context \<Rightarrow> DiagnosticInfo decoder" where
  "decode_DiagnosticInfo c =
     with_depth_lock c (\<lambda>c'.
       rd_bind read_u8 (\<lambda>flags.
       rd_bind (rd_opt (contains_flag flags 0x01) read_i32) (\<lambda>sid.
       rd_bind (rd_opt (contains_flag flags 0x02) read_i32) (\<lambda>ns.
       rd_bind (rd_opt (contains_flag flags 0x08) read_i32) (\<lambda>loc.
       rd_bind (rd_opt (contains_flag flags 0x04) read_i32) (\<lambda>txt.
       rd_bind (rd_opt (contains_flag flags 0x10) (decode_UAString (ctx_options c'))) (\<lambda>add.
       rd_bind (rd_opt (contains_flag flags 0x20) decode_StatusCode) (\<lambda>code.
       rd_bind (rd_opt (contains_flag flags 0x40) (decode_DiagnosticInfo c')) (\<lambda>inner.
         rd_return (DiagnosticInfo sid ns loc txt add code inner))))))))))"
  by pat_completeness auto
termination by (relation "measure ctx_depth") (auto dest: depth_lock_less)

declare decode_DiagnosticInfo.simps [simp del]

fun diagnostic_ok :: "'x Context \<Rightarrow> DiagnosticInfo \<Rightarrow> bool" where
  "diagnostic_ok c (DiagnosticInfo sid ns loc txt add code inner) \<longleftrightarrow>
     (case depth_lock c of
        Inl _ \<Rightarrow> False
      | Inr c' \<Rightarrow> pred_option (UAString_ok (ctx_options c')) add \<and> pred_option (diagnostic_ok c') inner)"

section \<open>Extension objects\<close>

text \<open>\<open>None\<close> is the null object. With the type id of a body comes the answer of \<open>try_resolve\<close>.\<close>

definition byte_len_ExtensionObject :: "'x body_codec \<Rightarrow> 'x option \<Rightarrow> nat" where
  "byte_len_ExtensionObject k ob =
     (case ob of
        None \<Rightarrow> byte_len_NodeId NodeId_null + 1
      | Some b \<Rightarrow> (case body_type_id k b of Some n \<Rightarrow> byte_len_NodeId n | None \<Rightarrow> 2) + (5 + body_len k b))"

definition encode_ExtensionObject :: "'x body_codec \<Rightarrow> 'x option \<Rightarrow> bytes encoding_result" where
  "encode_ExtensionObject k ob =
     (case ob of
        None \<Rightarrow> wr_seq (encode_NodeId NodeId_null) (write_u8 0)
      | Some b \<Rightarrow>
          (case body_type_id k b of
             None \<Rightarrow> Inl Error_encoding
           | Some n \<Rightarrow>
               wr_seq (encode_NodeId n)
               (wr_seq (write_u8 (if body_is_xml k b then 2 else 1))
               (wr_seq (write_i32 (word_of_nat (body_len k b))) (body_encode k b)))))"

definition validate_body_size :: "i32 \<Rightarrow> nat \<Rightarrow> nat option encoding_result" where
  "validate_body_size sz max_size =
     (if sint sz \<le> 0 then Inr None
      else if max_size < nat (sint sz) then Inl Error_decoding
      else Inr (Some (nat (sint sz))))"

fun load_from_binary :: "(DecodingOptions \<Rightarrow> NodeId \<Rightarrow> nat \<Rightarrow> 'x decoder option) list
    \<Rightarrow> DecodingOptions \<Rightarrow> NodeId \<Rightarrow> nat \<Rightarrow> 'x decoder" where
  "load_from_binary [] opts n len = rd_fail Error_decoding"
| "load_from_binary (loader # ls) opts n len =
     (case loader opts n len of Some r \<Rightarrow> r | None \<Rightarrow> load_from_binary ls opts n len)"

definition decode_ExtensionObject :: "'x Context \<Rightarrow> 'x option decoder" where
  "decode_ExtensionObject c =
     with_depth_lock c (\<lambda>c'.
       rd_bind (decode_NodeId (ctx_options c')) (\<lambda>n.
       rd_bind read_u8 (\<lambda>encoding_type.
         if encoding_type = 0 then rd_return None
         else if encoding_type = 1 then
           rd_bind read_i32 (\<lambda>sz.
             case validate_body_size sz (max_message_size (ctx_options c')) of
               Inl e \<Rightarrow> rd_fail e
             | Inr None \<Rightarrow> rd_return None
             | Inr (Some len) \<Rightarrow>
                 rd_map Some (load_from_binary (body_loaders (ctx_codec c')) (ctx_options c') n len))
         else if encoding_type = 2 then
           rd_bind (decode_UAString (ctx_options c')) (\<lambda>body.
             case body of
               None \<Rightarrow> rd_return None
             | Some xml \<Rightarrow>
                 (case body_load_xml (ctx_codec c') (ctx_options c') n xml of
                    Inl e \<Rightarrow> rd_fail e
                  | Inr x \<Rightarrow> rd_return x))
         else rd_fail Error_decoding)))"

text \<open>The loader every collection of loaders ends with, and the body it makes.\<close>

type_synonym ByteStringBody = "NodeId \<times> bytes"

definition fallback_load :: "DecodingOptions \<Rightarrow> NodeId \<Rightarrow> nat \<Rightarrow> ByteStringBody decoder option" where
  "fallback_load opts n len =
     Some (if max_message_size opts < len then rd_fail Error_decoding
           else rd_map (Pair n) (read_bytes len))"

definition fallback_codec :: "ByteStringBody body_codec" where
  "fallback_codec =
     \<lparr>body_type_id = (\<lambda>b. Some (fst b)), body_is_xml = (\<lambda>_. False), body_len = (\<lambda>b. length (snd b)),
      body_encode = (\<lambda>b. Inr (snd b)), body_loaders = [fallback_load],
      body_load_xml = (\<lambda>_ _ _. Inl Error_decoding)\<rparr>"

section \<open>Variants and data values\<close>

datatype VariantScalarTypeId =
    Ty_Boolean | Ty_SByte | Ty_Byte | Ty_Int16 | Ty_UInt16 | Ty_Int32 | Ty_UInt32 | Ty_Int64 | Ty_UInt64
  | Ty_Float | Ty_Double | Ty_String | Ty_DateTime | Ty_Guid | Ty_ByteString | Ty_XmlElement | Ty_NodeId
  | Ty_ExpandedNodeId | Ty_StatusCode | Ty_QualifiedName | Ty_LocalizedText | Ty_ExtensionObject
  | Ty_DataValue | Ty_Variant | Ty_DiagnosticInfo

definition all_scalar_types :: "VariantScalarTypeId list" where
  "all_scalar_types =
     [Ty_Boolean, Ty_SByte, Ty_Byte, Ty_Int16, Ty_UInt16, Ty_Int32, Ty_UInt32, Ty_Int64, Ty_UInt64,
      Ty_Float, Ty_Double, Ty_String, Ty_DateTime, Ty_Guid, Ty_ByteString, Ty_XmlElement, Ty_NodeId,
      Ty_ExpandedNodeId, Ty_StatusCode, Ty_QualifiedName, Ty_LocalizedText, Ty_ExtensionObject,
      Ty_DataValue, Ty_Variant, Ty_DiagnosticInfo]"

fun scalar_encoding_mask :: "VariantScalarTypeId \<Rightarrow> u8" where
  "scalar_encoding_mask Ty_Boolean = 1"
| "scalar_encoding_mask Ty_SByte = 2"
| "scalar_encoding_mask Ty_Byte = 3"
| "scalar_encoding_mask Ty_Int16 = 4"
| "scalar_encoding_mask Ty_UInt16 = 5"
| "scalar_encoding_mask Ty_Int32 = 6"
| "scalar_encoding_mask Ty_UInt32 = 7"
| "scalar_encoding_mask Ty_Int64 = 8"
| "scalar_encoding_mask Ty_UInt64 = 9"
| "scalar_encoding_mask Ty_Float = 10"
| "scalar_encoding_mask Ty_Double = 11"
| "scalar_encoding_mask Ty_String = 12"
| "scalar_encoding_mask Ty_DateTime = 13"
| "scalar_encoding_mask Ty_Guid = 14"
| "scalar_encoding_mask Ty_ByteString = 15"
| "scalar_encoding_mask Ty_XmlElement = 16"
| "scalar_encoding_mask Ty_NodeId = 17"
| "scalar_encoding_mask Ty_ExpandedNodeId = 18"
| "scalar_encoding_mask Ty_StatusCode = 19"
| "scalar_encoding_mask Ty_QualifiedName = 20"
| "scalar_encoding_mask Ty_LocalizedText = 21"
| "scalar_encoding_mask Ty_ExtensionObject = 22"
| "scalar_encoding_mask Ty_DataValue = 23"
| "scalar_encoding_mask Ty_Variant = 24"
| "scalar_encoding_mask Ty_DiagnosticInfo = 25"

definition ARRAY_DIMENSIONS_BIT :: u8 where "ARRAY_DIMENSIONS_BIT = 0x40"
definition ARRAY_VALUES_BIT :: u8 where "ARRAY_VALUES_BIT = 0x80"
definition ARRAY_MASK :: u8 where "ARRAY_MASK = ARRAY_DIMENSIONS_BIT OR ARRAY_VALUES_BIT"

definition from_encoding_mask :: "u8 \<Rightarrow> VariantScalarTypeId option" where
  "from_encoding_mask m = find (\<lambda>ty. scalar_encoding_mask ty = m AND NOT ARRAY_MASK) all_scalar_types"

text \<open>An \<open>i8\<close> is a word that is read with \<open>sint\<close>; floats are their bits; a status code is a word.\<close>

datatype 'x Variant =
    V_Empty
  | V_Boolean bool
  | V_SByte "8 word"
  | V_Byte u8
  | V_Int16 "16 word"
  | V_UInt16 u16
  | V_Int32 i32
  | V_UInt32 u32
  | V_Int64 i64
  | V_UInt64 u64
  | V_Float u32
  | V_Double u64
  | V_String UAString
  | V_DateTime DateTime
  | V_Guid Guid
  | V_StatusCode StatusCode
  | V_ByteString ByteString
  | V_XmlElement UAString
  | V_QualifiedName QualifiedName
  | V_LocalizedText LocalizedText
  | V_NodeId NodeId
  | V_ExpandedNodeId ExpandedNodeId
  | V_ExtensionObject "'x option"
  | V_Variant "'x Variant"
  | V_DataValue "'x DataValue"
  | V_DiagnosticInfo DiagnosticInfo
  | V_Array VariantScalarTypeId "'x Variant list" "u32 list option"
and 'x DataValue =
    DataValue "'x Variant option" "StatusCode option" "DateTime option" "u16 option" "DateTime option" "u16 option"

datatype VariantTypeId = VT_Empty | VT_Scalar VariantScalarTypeId | VT_Array VariantScalarTypeId "u32 list option"

fun variant_type_id :: "'x Variant \<Rightarrow> VariantTypeId" where
  "variant_type_id V_Empty = VT_Empty"
| "variant_type_id (V_Boolean _) = VT_Scalar Ty_Boolean"
| "variant_type_id (V_SByte _) = VT_Scalar Ty_SByte"
| "variant_type_id (V_Byte _) = VT_Scalar Ty_Byte"
| "variant_type_id (V_Int16 _) = VT_Scalar Ty_Int16"
| "variant_type_id (V_UInt16 _) = VT_Scalar Ty_UInt16"
| "variant_type_id (V_Int32 _) = VT_Scalar Ty_Int32"
| "variant_type_id (V_UInt32 _) = VT_Scalar Ty_UInt32"
| "variant_type_id (V_Int64 _) = VT_Scalar Ty_Int64"
| "variant_type_id (V_UInt64 _) = VT_Scalar Ty_UInt64"
| "variant_type_id (V_Float _) = VT_Scalar Ty_Float"
| "variant_type_id (V_Double _) = VT_Scalar Ty_Double"
| "variant_type_id (V_String _) = VT_Scalar Ty_String"
| "variant_type_id (V_DateTime _) = VT_Scalar Ty_DateTime"
| "variant_type_id (V_Guid _) = VT_Scalar Ty_Guid"
| "variant_type_id (V_StatusCode _) = VT_Scalar Ty_StatusCode"
| "variant_type_id (V_ByteString _) = VT_Scalar Ty_ByteString"
| "variant_type_id (V_XmlElement _) = VT_Scalar Ty_XmlElement"
| "variant_type_id (V_QualifiedName _) = VT_Scalar Ty_QualifiedName"
| "variant_type_id (V_LocalizedText _) = VT_Scalar Ty_LocalizedText"
| "variant_type_id (V_NodeId _) = VT_Scalar Ty_NodeId"
| "variant_type_id (V_ExpandedNodeId _) = VT_Scalar Ty_ExpandedNodeId"
| "variant_type_id (V_ExtensionObject _) = VT_Scalar Ty_ExtensionObject"
| "variant_type_id (V_Variant _) = VT_Scalar Ty_Variant"
| "variant_type_id (V_DataValue _) = VT_Scalar Ty_DataValue"
| "variant_type_id (V_DiagnosticInfo _) = VT_Scalar Ty_DiagnosticInfo"
| "variant_type_id (V_Array ty _ dims) = VT_Array ty dims"

definition array_encoding_mask :: "VariantScalarTypeId \<Rightarrow> u32 list option \<Rightarrow> u8" where
  "array_encoding_mask ty dims =
     (scalar_encoding_mask ty OR ARRAY_VALUES_BIT) OR (if dims \<noteq> None then ARRAY_DIMENSIONS_BIT else 0)"

fun type_encoding_mask :: "VariantTypeId \<Rightarrow> u8" where
  "type_encoding_mask VT_Empty = 0"
| "type_encoding_mask (VT_Scalar ty) = scalar_encoding_mask ty"
| "type_encoding_mask (VT_Array ty dims) = array_encoding_mask ty dims"

definition variant_encoding_mask :: "'x Variant \<Rightarrow> u8" where
  "variant_encoding_mask v = type_encoding_mask (variant_type_id v)"

definition is_array :: "'x Variant \<Rightarrow> bool" where
  "is_array v = (case v of V_Array _ _ _ \<Rightarrow> True | _ \<Rightarrow> False)"

subsection \<open>Arrays\<close>

definition values_are_of_type :: "'x Variant list \<Rightarrow> VariantScalarTypeId \<Rightarrow> bool" where
  "values_are_of_type vs expected \<longleftrightarrow> list_all (\<lambda>v. variant_type_id v = VT_Scalar expected) vs"

text \<open>The product of the dimensions is taken in 64 bits.\<close>

definition validate_dimensions :: "nat \<Rightarrow> u32 list \<Rightarrow> bool" where
  "validate_dimensions n dims \<longleftrightarrow>
     (case map ucast dims of [] \<Rightarrow> 0 | d # ds \<Rightarrow> foldl (*) d ds) = (word_of_nat n :: u64)"

definition Array_new :: "VariantScalarTypeId \<Rightarrow> 'x Variant list \<Rightarrow> 'x Variant option" where
  "Array_new ty vs = (if values_are_of_type vs ty then Some (V_Array ty vs None) else None)"

definition Array_new_multi :: "VariantScalarTypeId \<Rightarrow> 'x Variant list \<Rightarrow> u32 list \<Rightarrow> 'x Variant option" where
  "Array_new_multi ty vs dims =
     (if \<not> validate_dimensions (length vs) dims then None
      else if values_are_of_type vs ty then Some (V_Array ty vs (Some dims)) else None)"

definition array_is_valid :: "'x Variant list \<Rightarrow> bool" where
  "array_is_valid vs =
     (case vs of
        [] \<Rightarrow> True
      | v # rest \<Rightarrow> (case variant_type_id v of VT_Scalar ty \<Rightarrow> values_are_of_type rest ty | _ \<Rightarrow> False))"

definition variant_is_valid :: "'x Variant \<Rightarrow> bool" where
  "variant_is_valid v =
     (case v of
        V_Array ty vs dims \<Rightarrow>
          (case dims of None \<Rightarrow> True | Some ds \<Rightarrow> validate_dimensions (length vs) ds) \<and> array_is_valid vs
      | _ \<Rightarrow> True)"

subsection \<open>Encoding\<close>

definition fixed_scalar_value_byte_len :: "VariantScalarTypeId \<Rightarrow> nat option" where
  "fixed_scalar_value_byte_len ty =
     (if ty \<in> {Ty_Boolean, Ty_SByte, Ty_Byte} then Some 1
      else if ty \<in> {Ty_Int16, Ty_UInt16} then Some 2
      else if ty \<in> {Ty_Int32, Ty_UInt32, Ty_Float, Ty_StatusCode} then Some 4
      else if ty \<in> {Ty_Int64, Ty_UInt64, Ty_Double, Ty_DateTime} then Some 8
      else if ty = Ty_Guid then Some 16
      else None)"

text \<open>The elements of an array are measured and written like scalars, and arrays among them have
  length 0 and cannot be written (\<open>byte_len_variant_value\<close>, \<open>encode_variant_value\<close>).\<close>

fun value_byte_len :: "'x body_codec \<Rightarrow> 'x Variant \<Rightarrow> nat"
  and byte_len_DataValue :: "'x body_codec \<Rightarrow> 'x DataValue \<Rightarrow> nat" where
  "value_byte_len k V_Empty = 0"
| "value_byte_len k (V_Boolean _) = 1"
| "value_byte_len k (V_SByte _) = 1"
| "value_byte_len k (V_Byte _) = 1"
| "value_byte_len k (V_Int16 _) = 2"
| "value_byte_len k (V_UInt16 _) = 2"
| "value_byte_len k (V_Int32 _) = 4"
| "value_byte_len k (V_UInt32 _) = 4"
| "value_byte_len k (V_Int64 _) = 8"
| "value_byte_len k (V_UInt64 _) = 8"
| "value_byte_len k (V_Float _) = 4"
| "value_byte_len k (V_Double _) = 8"
| "value_byte_len k (V_String s) = byte_len_UAString s"
| "value_byte_len k (V_DateTime _) = 8"
| "value_byte_len k (V_Guid _) = 16"
| "value_byte_len k (V_StatusCode _) = 4"
| "value_byte_len k (V_ByteString b) = byte_len_ByteString b"
| "value_byte_len k (V_XmlElement s) = byte_len_UAString s"
| "value_byte_len k (V_QualifiedName q) = byte_len_QualifiedName q"
| "value_byte_len k (V_LocalizedText t) = byte_len_LocalizedText t"
| "value_byte_len k (V_NodeId n) = byte_len_NodeId n"
| "value_byte_len k (V_ExpandedNodeId n) = byte_len_ExpandedNodeId n"
| "value_byte_len k (V_ExtensionObject ob) = byte_len_ExtensionObject k ob"
| "value_byte_len k (V_Variant v) = 1 + value_byte_len k v"
| "value_byte_len k (V_DataValue d) = byte_len_DataValue k d"
| "value_byte_len k (V_DiagnosticInfo d) = byte_len_DiagnosticInfo d"
| "value_byte_len k (V_Array ty vs dims) =
     4 + (case fixed_scalar_value_byte_len ty of
            Some len \<Rightarrow> length vs * len
          | None \<Rightarrow> sum_list (map (\<lambda>v. if is_array v then 0 else value_byte_len k v) vs))
       + (case dims of Some ds \<Rightarrow> 4 + length ds * 4 | None \<Rightarrow> 0)"
| "byte_len_DataValue k (DataValue val st sts sps vts vps) =
     1 + (opt_len (\<lambda>v. 1 + value_byte_len k v) val + (opt_len (\<lambda>_. 4) st
       + (opt_len (\<lambda>_. 8 + opt_len (\<lambda>_. 2) sps) sts + opt_len (\<lambda>_. 8 + opt_len (\<lambda>_. 2) vps) vts)))"

definition byte_len_Variant :: "'x body_codec \<Rightarrow> 'x Variant \<Rightarrow> nat" where
  "byte_len_Variant k v = 1 + value_byte_len k v"

fun data_value_encoding_mask :: "'x DataValue \<Rightarrow> u8" where
  "data_value_encoding_mask (DataValue val st sts sps vts vps) =
     flag_if (val \<noteq> None) 0x01 OR flag_if (st \<noteq> None) 0x02
     OR flag_if (sts \<noteq> None) 0x04 OR flag_if (sts \<noteq> None \<and> sps \<noteq> None) 0x10
     OR flag_if (vts \<noteq> None) 0x08 OR flag_if (vts \<noteq> None \<and> vps \<noteq> None) 0x20"

fun encode_value :: "'x body_codec \<Rightarrow> 'x Variant \<Rightarrow> bytes encoding_result"
  and encode_DataValue :: "'x body_codec \<Rightarrow> 'x DataValue \<Rightarrow> bytes encoding_result" where
  "encode_value k V_Empty = Inr []"
| "encode_value k (V_Boolean b) = encode_bool b"
| "encode_value k (V_SByte v) = write_u8 v"
| "encode_value k (V_Byte v) = write_u8 v"
| "encode_value k (V_Int16 v) = write_i16 v"
| "encode_value k (V_UInt16 v) = write_u16 v"
| "encode_value k (V_Int32 v) = write_i32 v"
| "encode_value k (V_UInt32 v) = write_u32 v"
| "encode_value k (V_Int64 v) = write_i64 v"
| "encode_value k (V_UInt64 v) = write_u64 v"
| "encode_value k (V_Float v) = write_f32 v"
| "encode_value k (V_Double v) = write_f64 v"
| "encode_value k (V_String s) = encode_UAString s"
| "encode_value k (V_DateTime t) = encode_DateTime t"
| "encode_value k (V_Guid g) = encode_Guid g"
| "encode_value k (V_StatusCode c) = encode_StatusCode c"
| "encode_value k (V_ByteString b) = encode_ByteString b"
| "encode_value k (V_XmlElement s) = encode_UAString s"
| "encode_value k (V_QualifiedName q) = encode_QualifiedName q"
| "encode_value k (V_LocalizedText t) = encode_LocalizedText t"
| "encode_value k (V_NodeId n) = encode_NodeId n"
| "encode_value k (V_ExpandedNodeId n) = encode_ExpandedNodeId n"
| "encode_value k (V_ExtensionObject ob) = encode_ExtensionObject k ob"
| "encode_value k (V_Variant v) = wr_seq (write_u8 (variant_encoding_mask v)) (encode_value k v)"
| "encode_value k (V_DataValue d) = encode_DataValue k d"
| "encode_value k (V_DiagnosticInfo d) = encode_DiagnosticInfo d"
| "encode_value k (V_Array ty vs dims) =
     wr_seq (write_i32 (word_of_nat (length vs)))
     (wr_seq (wr_all (\<lambda>v. if is_array v then Inl Error_encoding else encode_value k v) vs)
       (wr_opt (\<lambda>ds. wr_seq (write_i32 (word_of_nat (length ds))) (wr_all write_u32 ds)) dims))"
| "encode_DataValue k (DataValue val st sts sps vts vps) =
     wr_seq (write_u8 (data_value_encoding_mask (DataValue val st sts sps vts vps)))
     (wr_seq (wr_opt (\<lambda>v. wr_seq (write_u8 (variant_encoding_mask v)) (encode_value k v)) val)
     (wr_seq (wr_opt write_u32 st)
     (wr_seq (wr_opt (\<lambda>t. wr_seq (encode_DateTime t) (wr_opt write_u16 sps)) sts)
       (wr_opt (\<lambda>t. wr_seq (encode_DateTime t) (wr_opt write_u16 vps)) vts))))"

definition encode_Variant :: "'x body_codec \<Rightarrow> 'x Variant \<Rightarrow> bytes encoding_result" where
  "encode_Variant k v = wr_seq (write_u8 (variant_encoding_mask v)) (encode_value k v)"

subsection \<open>Decoding\<close>

text \<open>
  \<open>decode_variant_value\<close>, with the decoders of the nested types: \<open>nested\<close> is that of a variant
  under a depth lock, \<open>data_value\<close> that of a data value. A mask that is no type reads nothing.
\<close>

definition decode_variant_value :: "'x Variant decoder \<Rightarrow> 'x DataValue decoder \<Rightarrow> 'x Context \<Rightarrow> u8 \<Rightarrow> 'x Variant decoder" where
  "decode_variant_value nested data_value c m =
     (if m = 0 then rd_return V_Empty
      else if m = 1 then rd_map V_Boolean decode_bool
      else if m = 2 then rd_map V_SByte read_u8
      else if m = 3 then rd_map V_Byte read_u8
      else if m = 4 then rd_map V_Int16 read_i16
      else if m = 5 then rd_map V_UInt16 read_u16
      else if m = 6 then rd_map V_Int32 read_i32
      else if m = 7 then rd_map V_UInt32 read_u32
      else if m = 8 then rd_map V_Int64 read_i64
      else if m = 9 then rd_map V_UInt64 read_u64
      else if m = 10 then rd_map V_Float read_f32
      else if m = 11 then rd_map V_Double read_f64
      else if m = 12 then rd_map V_String (decode_UAString (ctx_options c))
      else if m = 13 then rd_map V_DateTime (decode_DateTime c)
      else if m = 14 then rd_map V_Guid decode_Guid
      else if m = 15 then rd_map V_ByteString (decode_ByteString (ctx_options c))
      else if m = 16 then rd_map V_XmlElement (decode_UAString (ctx_options c))
      else if m = 17 then rd_map V_NodeId (decode_NodeId (ctx_options c))
      else if m = 18 then rd_map V_ExpandedNodeId (decode_ExpandedNodeId (ctx_options c))
      else if m = 19 then rd_map V_StatusCode decode_StatusCode
      else if m = 20 then rd_map V_QualifiedName (decode_QualifiedName (ctx_options c))
      else if m = 21 then rd_map V_LocalizedText (decode_LocalizedText (ctx_options c))
      else if m = 22 then rd_map V_ExtensionObject (decode_ExtensionObject c)
      else if m = 24 then rd_map V_Variant nested
      else if m = 23 then rd_map V_DataValue data_value
      else if m = 25 then rd_map V_DiagnosticInfo (decode_DiagnosticInfo c)
      else rd_return V_Empty)"

text \<open>The type ids 26 to 31 are read as byte strings.\<close>

definition element_encoding_mask :: "u8 \<Rightarrow> u8" where
  "element_encoding_mask m =
     (let e = m AND NOT ARRAY_MASK in if 26 \<le> e \<and> e \<le> 31 then 15 else e)"

fun checked_product :: "u32 list \<Rightarrow> u32 \<Rightarrow> u32 option" where
  "checked_product [] p = Some p"
| "checked_product (d # ds) p =
     (if unat p * unat d < 2 ^ 32 then checked_product ds (p * d) else None)"

definition or_decoding_error :: "'a option \<Rightarrow> 'a decoder" where
  "or_decoding_error ox = (case ox of None \<Rightarrow> rd_fail Error_decoding | Some x \<Rightarrow> rd_return x)"

definition decode_array_dimensions :: "'x Context \<Rightarrow> VariantScalarTypeId \<Rightarrow> 'x Variant list \<Rightarrow> 'x Variant decoder" where
  "decode_array_dimensions c ty vs =
     rd_bind (decode_array (ctx_options c) read_u32) (\<lambda>dims.
       case dims of
         None \<Rightarrow> rd_fail Error_decoding
       | Some ds \<Rightarrow>
           if 0 \<in> set ds then rd_fail Error_decoding
           else (case checked_product ds 1 of
                   None \<Rightarrow> rd_fail Error_decoding
                 | Some p \<Rightarrow>
                     if p \<noteq> word_of_nat (length vs) then rd_fail Error_decoding
                     else or_decoding_error (Array_new_multi ty vs ds)))"

definition Error_limits :: ua_error where
  "Error_limits = Error_new BadEncodingLimitsExceeded"

definition decode_variant_using :: "'x Variant decoder \<Rightarrow> 'x DataValue decoder \<Rightarrow> 'x Context \<Rightarrow> 'x Variant decoder" where
  "decode_variant_using nested data_value c =
     rd_bind read_u8 (\<lambda>encoding_mask.
       let element_mask = element_encoding_mask encoding_mask;
           dims_bit = (encoding_mask AND ARRAY_DIMENSIONS_BIT \<noteq> 0)
       in if encoding_mask AND ARRAY_VALUES_BIT \<noteq> 0 then
            rd_bind read_i32 (\<lambda>array_length.
              if sint array_length < - 1 then rd_fail Error_decoding
              else if sint array_length \<le> 0 then
                rd_bind (or_decoding_error (from_encoding_mask element_mask)) (\<lambda>ty.
                  or_decoding_error (Array_new_multi ty [] []))
              else if max_array_length (ctx_options c) < nat (sint array_length) then rd_fail Error_limits
              else rd_bind (rd_times (nat (sint array_length)) (decode_variant_value nested data_value c element_mask)) (\<lambda>vs.
                rd_bind (or_decoding_error (from_encoding_mask element_mask)) (\<lambda>ty.
                  if dims_bit then decode_array_dimensions c ty vs
                  else or_decoding_error (Array_new ty vs))))
          else if dims_bit then rd_fail Error_decoding
          else decode_variant_value nested data_value c element_mask)"

definition decode_data_value_using :: "'x Variant decoder \<Rightarrow> 'x Context \<Rightarrow> 'x DataValue decoder" where
  "decode_data_value_using variant c =
     rd_bind read_u8 (\<lambda>flags.
     rd_bind (rd_opt (contains_flag flags 0x01) variant) (\<lambda>val.
     rd_bind (rd_opt (contains_flag flags 0x02) read_u32) (\<lambda>st.
     rd_bind (rd_opt (contains_flag flags 0x04) (decode_DateTime (with_zero_offset c))) (\<lambda>sts.
     rd_bind (rd_opt (contains_flag flags 0x10) (rd_map (min 9999) read_u16)) (\<lambda>sps.
     rd_bind (rd_opt (contains_flag flags 0x08) (decode_DateTime c)) (\<lambda>vts.
     rd_bind (rd_opt (contains_flag flags 0x20) (rd_map (min 9999) read_u16)) (\<lambda>vps.
       rd_return (DataValue val st sts (if sts \<noteq> None then sps else None) vts (if vts \<noteq> None then vps else None)))))))))"

function decode_Variant :: "'x Context \<Rightarrow> 'x Variant decoder" where
  "decode_Variant c =
     decode_variant_using (with_depth_lock c (\<lambda>c'. decode_Variant c'))
       (with_depth_lock c (\<lambda>c'. decode_data_value_using (decode_Variant c') c')) c"
  by pat_completeness auto
termination by (relation "measure ctx_depth") (auto dest: depth_lock_less)

declare decode_Variant.simps [simp del]

definition decode_DataValue :: "'x Context \<Rightarrow> 'x DataValue decoder" where
  "decode_DataValue c = with_depth_lock c (\<lambda>c'. decode_data_value_using (decode_Variant c') c')"

section \<open>Well-formed values\<close>

definition DateTime_ok :: "'x Context \<Rightarrow> DateTime \<Rightarrow> bool" where
  "DateTime_ok c t \<longleftrightarrow> 0 \<le> t \<and> t \<le> endtimes_ticks \<and> ctx_client_offset c = 0"

text \<open>
  \<open>ok_body\<close> tells which bodies the loaders understand. The length of a body must be positive:
  an empty one is read as no body.
\<close>

definition codec_laws :: "'x body_codec \<Rightarrow> (DecodingOptions \<Rightarrow> 'x \<Rightarrow> bool) \<Rightarrow> bool" where
  "codec_laws k ok_body \<longleftrightarrow>
     (\<forall>opts b. ok_body opts b \<longrightarrow>
        (\<exists>n bs. body_type_id k b = Some n \<and> NodeId_ok opts n \<and> \<not> body_is_xml k b
           \<and> body_encode k b = Inr bs \<and> length bs = body_len k b
           \<and> 0 < body_len k b \<and> body_len k b \<le> max_message_size opts \<and> body_len k b < 2 ^ 31
           \<and> (\<forall>t. load_from_binary (body_loaders k) opts n (body_len k b) (bs @ t) = Inr (b, t))))"

definition ExtensionObject_ok :: "(DecodingOptions \<Rightarrow> 'x \<Rightarrow> bool) \<Rightarrow> 'x Context \<Rightarrow> 'x option \<Rightarrow> bool" where
  "ExtensionObject_ok ok_body c ob \<longleftrightarrow>
     (case depth_lock c of Inl _ \<Rightarrow> False | Inr c' \<Rightarrow> pred_option (ok_body (ctx_options c')) ob)"

definition dimensions_ok :: "'x Context \<Rightarrow> nat \<Rightarrow> u32 list \<Rightarrow> bool" where
  "dimensions_ok c n ds \<longleftrightarrow>
     ds \<noteq> [] \<and> 0 \<notin> set ds \<and> prod_list (map unat ds) = n
     \<and> length ds \<le> max_array_length (ctx_options c) \<and> length ds < 2 ^ 31"

fun variant_ok :: "(DecodingOptions \<Rightarrow> 'x \<Rightarrow> bool) \<Rightarrow> 'x Context \<Rightarrow> 'x Variant \<Rightarrow> bool"
  and data_value_ok :: "(DecodingOptions \<Rightarrow> 'x \<Rightarrow> bool) \<Rightarrow> 'x Context \<Rightarrow> 'x DataValue \<Rightarrow> bool" where
  "variant_ok ok_body c (V_String s) = UAString_ok (ctx_options c) s"
| "variant_ok ok_body c (V_DateTime t) = DateTime_ok c t"
| "variant_ok ok_body c (V_Guid g) = (length g = 16)"
| "variant_ok ok_body c (V_ByteString b) = ByteString_ok (ctx_options c) b"
| "variant_ok ok_body c (V_XmlElement s) = UAString_ok (ctx_options c) s"
| "variant_ok ok_body c (V_QualifiedName q) = QualifiedName_ok (ctx_options c) q"
| "variant_ok ok_body c (V_LocalizedText t) = LocalizedText_ok (ctx_options c) t"
| "variant_ok ok_body c (V_NodeId n) = NodeId_ok (ctx_options c) n"
| "variant_ok ok_body c (V_ExpandedNodeId n) = ExpandedNodeId_ok (ctx_options c) n"
| "variant_ok ok_body c (V_ExtensionObject ob) = ExtensionObject_ok ok_body c ob"
| "variant_ok ok_body c (V_Variant v) = (case depth_lock c of Inl _ \<Rightarrow> False | Inr c' \<Rightarrow> variant_ok ok_body c' v)"
| "variant_ok ok_body c (V_DataValue d) = (case depth_lock c of Inl _ \<Rightarrow> False | Inr c' \<Rightarrow> data_value_ok ok_body c' d)"
| "variant_ok ok_body c (V_DiagnosticInfo d) = diagnostic_ok c d"
| "variant_ok ok_body c (V_Array ty vs dims) =
     (vs \<noteq> [] \<and> length vs \<le> max_array_length (ctx_options c) \<and> length vs < 2 ^ 31
      \<and> list_all (\<lambda>v. variant_type_id v = VT_Scalar ty \<and> variant_ok ok_body c v) vs
      \<and> pred_option (dimensions_ok c (length vs)) dims)"
| "variant_ok ok_body c _ = True"
| "data_value_ok ok_body c (DataValue val st sts sps vts vps) =
     (pred_option (variant_ok ok_body c) val
      \<and> pred_option (DateTime_ok (with_zero_offset c)) sts \<and> pred_option (DateTime_ok c) vts
      \<and> (sts = None \<longrightarrow> sps = None) \<and> (vts = None \<longrightarrow> vps = None)
      \<and> pred_option (\<lambda>p. p \<le> 9999) sps \<and> pred_option (\<lambda>p. p \<le> 9999) vps)"

section \<open>Values survive the wire\<close>

lemmas primitive_wb = fmt_u8.wb [OF TrueI] fmt_u16.wb [OF TrueI] fmt_i16.wb [OF TrueI] fmt_u32.wb [OF TrueI]
  fmt_i32.wb [OF TrueI] fmt_u64.wb [OF TrueI] fmt_i64.wb [OF TrueI] fmt_f32.wb [OF TrueI]
  fmt_f64.wb [OF TrueI] fmt_bool.wb [OF TrueI] fmt_StatusCode.wb [OF TrueI]

lemmas structure_wb = fmt_UAString.wb fmt_ByteString.wb fmt_Guid.wb fmt_NodeId.wb fmt_ExpandedNodeId.wb
  fmt_QualifiedName.wb fmt_LocalizedText.wb

lemma wb_u8_then: "writes_back w n (f b) x \<Longrightarrow> writes_back (wr_seq (write_u8 b) w) (1 + n) (rd_bind read_u8 f) x"
  by (rule wb_bind [OF primitive_wb(1)])

lemma DateTime_wb: "DateTime_ok c t \<Longrightarrow> writes_back (encode_DateTime t) 8 (decode_DateTime c) t"
proof -
  assume ok: "DateTime_ok c t"
  then have t: "0 \<le> t" "t < 2 ^ 63 - 1" "t \<le> endtimes_ticks" "ctx_client_offset c = 0"
    by (auto simp: DateTime_ok_def endtimes_ticks_def)
  then have "sint (word_of_int t :: i64) = t"
    by (simp add: signed_of_int signed_take_bit_int_eq_self)
  with t have "DateTime_sub (DateTime_from_ticks (checked_ticks t)) (ctx_client_offset c) = t"
    by (simp add: DateTime_from_ticks_def checked_ticks_def DateTime_sub_def)
  then show ?thesis
    unfolding encode_DateTime_def decode_DateTime_def
    using wb_last [OF primitive_wb(7), of "checked_ticks t" "\<lambda>v. DateTime_sub (DateTime_from_ticks v) (ctx_client_offset c)"]
    by simp
qed

lemma diagnostic_flags:
  fixes sid ns loc lt :: "i32 option" and add :: "UAString option" and code :: "StatusCode option" and inner :: "DiagnosticInfo option"
  defines "m \<equiv> diagnostic_encoding_mask (DiagnosticInfo sid ns loc lt add code inner)"
  shows "contains_flag m 1 \<longleftrightarrow> sid \<noteq> None" "contains_flag m 2 \<longleftrightarrow> ns \<noteq> None" "contains_flag m 8 \<longleftrightarrow> loc \<noteq> None"
    "contains_flag m 4 \<longleftrightarrow> lt \<noteq> None" "contains_flag m 16 \<longleftrightarrow> add \<noteq> None" "contains_flag m 32 \<longleftrightarrow> code \<noteq> None"
    "contains_flag m 64 \<longleftrightarrow> inner \<noteq> None"
  unfolding m_def contains_flag_def diagnostic_encoding_mask.simps flag_if_def
  by (cases "sid = None"; cases "ns = None"; cases "loc = None"; cases "lt = None"; cases "add = None";
      cases "code = None"; cases "inner = None"; simp)+

lemma data_value_flags:
  fixes val :: "'x Variant option" and st :: "StatusCode option" and sts vts :: "DateTime option" and sps vps :: "u16 option"
  defines "m \<equiv> data_value_encoding_mask (DataValue val st sts sps vts vps)"
  shows "contains_flag m 1 \<longleftrightarrow> val \<noteq> None" "contains_flag m 2 \<longleftrightarrow> st \<noteq> None" "contains_flag m 4 \<longleftrightarrow> sts \<noteq> None"
    "contains_flag m 16 \<longleftrightarrow> sts \<noteq> None \<and> sps \<noteq> None" "contains_flag m 8 \<longleftrightarrow> vts \<noteq> None"
    "contains_flag m 32 \<longleftrightarrow> vts \<noteq> None \<and> vps \<noteq> None"
  unfolding m_def contains_flag_def data_value_encoding_mask.simps flag_if_def
  by (cases "val = None"; cases "st = None"; cases "sts = None"; cases "sps = None"; cases "vts = None";
      cases "vps = None"; simp)+

lemma diagnostic_wb:
  "diagnostic_ok c d \<Longrightarrow> writes_back (encode_DiagnosticInfo d) (byte_len_DiagnosticInfo d) (decode_DiagnosticInfo c) d"
proof (induction c d rule: diagnostic_ok.induct)
  case (1 c sid ns loc lt add code inner)
  then obtain c' where c': "depth_lock c = Inr c'" "pred_option (UAString_ok (ctx_options c')) add"
    "pred_option (diagnostic_ok c') inner"
    by (auto split: sum.splits)
  have inner: "writes_back (encode_DiagnosticInfo d) (byte_len_DiagnosticInfo d) (decode_DiagnosticInfo c') d"
    if "inner = Some d" for d
    using 1(1) [OF c'(1)] c'(3) that by simp
  show ?case
    unfolding decode_DiagnosticInfo.simps [of c] with_depth_lock_ok [OF c'(1)] encode_DiagnosticInfo.simps
      byte_len_DiagnosticInfo.simps
    by (intro wb_u8_then wb_bind [OF wb_opt] wb_last [OF wb_opt, where f = "\<lambda>i. DiagnosticInfo sid ns loc lt add code i"]
        diagnostic_flags primitive_wb structure_wb inner)
      (use c'(2) in simp)
qed

lemma ExtensionObject_wb:
  assumes laws: "codec_laws (ctx_codec c) ok_body" and ok: "ExtensionObject_ok ok_body c ob"
  shows "writes_back (encode_ExtensionObject (ctx_codec c) ob) (byte_len_ExtensionObject (ctx_codec c) ob)
    (decode_ExtensionObject c) ob"
proof -
  from ok obtain c' where c': "depth_lock c = Inr c'" "pred_option (ok_body (ctx_options c')) ob"
    by (auto simp: ExtensionObject_ok_def split: sum.splits)
  have k: "ctx_codec c' = ctx_codec c"
    using c'(1) by (auto simp: depth_lock_def split: prod.splits sum.splits)
  show ?thesis
  proof (cases ob)
    case None
    have "NodeId_ok (ctx_options c') NodeId_null" by (simp add: NodeId_ok_def Identifier_ok_def NodeId_null_def NodeId_new_def)
    then obtain ns where ns: "encode_NodeId NodeId_null = Inr ns" "length ns = byte_len_NodeId NodeId_null"
      "\<And>t. decode_NodeId (ctx_options c') (ns @ t) = Inr (NodeId_null, t)"
      using fmt_NodeId.encodes fmt_NodeId.decodes by blast
    obtain us where us: "write_u8 0 = Inr us" "length us = 1" "\<And>t. read_u8 (us @ t) = Inr (0, t)"
      using fmt_u8.encodes fmt_u8.decodes by blast
    show ?thesis
      unfolding None encode_ExtensionObject_def decode_ExtensionObject_def byte_len_ExtensionObject_def
        with_depth_lock_ok [OF c'(1)]
      by (rule writes_backI [where bs = "ns @ us"]) (use ns us in \<open>simp_all add: rd_bind_apply\<close>)
  next
    case (Some b)
    with c'(2) laws obtain n bs where b: "body_type_id (ctx_codec c) b = Some n" "NodeId_ok (ctx_options c') n"
      "\<not> body_is_xml (ctx_codec c) b" "body_encode (ctx_codec c) b = Inr bs" "length bs = body_len (ctx_codec c) b"
      "0 < body_len (ctx_codec c) b" "body_len (ctx_codec c) b \<le> max_message_size (ctx_options c')"
      "body_len (ctx_codec c) b < 2 ^ 31"
      "\<And>t. load_from_binary (body_loaders (ctx_codec c)) (ctx_options c') n (body_len (ctx_codec c) b) (bs @ t) = Inr (b, t)"
      by (fastforce simp: codec_laws_def)
    have sz: "validate_body_size (word_of_nat (body_len (ctx_codec c) b)) (max_message_size (ctx_options c'))
        = Inr (Some (body_len (ctx_codec c) b))"
      using b(6-8) by (simp add: validate_body_size_def sint_len_32)
    obtain ns where ns: "encode_NodeId n = Inr ns" "length ns = byte_len_NodeId n"
      "\<And>t. decode_NodeId (ctx_options c') (ns @ t) = Inr (n, t)"
      using fmt_NodeId.encodes [OF b(2)] fmt_NodeId.decodes [OF b(2)] by blast
    obtain ls where ls: "write_i32 (word_of_nat (body_len (ctx_codec c) b)) = Inr ls" "length ls = 4"
      "\<And>t. read_i32 (ls @ t) = Inr (word_of_nat (body_len (ctx_codec c) b), t)"
      using fmt_i32.encodes fmt_i32.decodes by blast
    obtain us where us: "write_u8 1 = Inr us" "length us = 1" "\<And>t. read_u8 (us @ t) = Inr (1, t)"
      using fmt_u8.encodes fmt_u8.decodes by blast
    show ?thesis
      unfolding Some encode_ExtensionObject_def decode_ExtensionObject_def byte_len_ExtensionObject_def
        with_depth_lock_ok [OF c'(1)]
      by (rule writes_backI [where bs = "ns @ us @ ls @ bs"])
        (use b ns ls us sz in \<open>simp_all add: k rd_map_def rd_bind_apply\<close>)
  qed
qed

lemma checked_product_exact:
  "checked_product ds p = (if unat p * prod_list (map unat ds) < 2 ^ 32 then Some (p * prod_list ds) else None)"
  if "0 \<notin> set ds" for p :: u32
  using that
proof (induction ds arbitrary: p)
  case Nil
  have "unat p < 2 ^ LENGTH(32)" by (rule unsigned_less)
  then show ?case by simp
next
  case (Cons d ds)
  have pos: "0 < prod_list (map unat ds)" using Cons.prems by (induction ds) (auto simp: unat_gt_0)
  show ?case
  proof (cases "unat p * unat d < 2 ^ 32")
    case True
    then have "unat (p * d) = unat p * unat d" by (simp add: unat_word_ariths)
    with True Cons show ?thesis by (simp add: mult.assoc)
  next
    case False
    then have "2 ^ 32 \<le> unat p * unat d * prod_list (map unat ds)"
      using pos by (metis (no_types, lifting) Suc_leI le_trans linorder_not_less mult.right_neutral mult_le_mono2 One_nat_def)
    with False show ?thesis by (simp add: mult.assoc)
  qed
qed

lemma scalar_masks:
  "element_encoding_mask (scalar_encoding_mask ty) = scalar_encoding_mask ty"
  "scalar_encoding_mask ty AND ARRAY_VALUES_BIT = 0" "scalar_encoding_mask ty AND ARRAY_DIMENSIONS_BIT = 0"
  "from_encoding_mask (scalar_encoding_mask ty) = Some ty"
  by (cases ty; simp add: element_encoding_mask_def ARRAY_MASK_def ARRAY_VALUES_BIT_def ARRAY_DIMENSIONS_BIT_def
      from_encoding_mask_def all_scalar_types_def Let_def word_le_nat_alt)+

lemma array_masks:
  "element_encoding_mask (array_encoding_mask ty dims) = scalar_encoding_mask ty"
  "array_encoding_mask ty dims AND ARRAY_VALUES_BIT \<noteq> 0"
  "array_encoding_mask ty dims AND ARRAY_DIMENSIONS_BIT \<noteq> 0 \<longleftrightarrow> dims \<noteq> None"
  by (cases ty; cases dims; simp add: element_encoding_mask_def ARRAY_MASK_def ARRAY_VALUES_BIT_def ARRAY_DIMENSIONS_BIT_def
      array_encoding_mask_def Let_def word_le_nat_alt)+

lemma empty_mask:
  "element_encoding_mask 0 = 0" "(0 :: u8) AND ARRAY_VALUES_BIT = 0" "(0 :: u8) AND ARRAY_DIMENSIONS_BIT = 0"
  by (simp_all add: element_encoding_mask_def Let_def word_le_nat_alt)

lemma fixed_value_byte_len:
  "variant_type_id v = VT_Scalar ty \<Longrightarrow> fixed_scalar_value_byte_len ty = Some n \<Longrightarrow> value_byte_len k v = n"
  by (cases v) (auto simp: fixed_scalar_value_byte_len_def)

abbreviation nested_decoder :: "'x Context \<Rightarrow> 'x Variant decoder" where
  "nested_decoder c \<equiv> with_depth_lock c decode_Variant"

lemma decode_Variant_using: "decode_Variant c = decode_variant_using (nested_decoder c) (decode_DataValue c) c"
  unfolding decode_Variant.simps [of c] decode_DataValue_def ..

definition value_wb :: "'x Context \<Rightarrow> 'x Variant \<Rightarrow> bool" where
  "value_wb c v \<longleftrightarrow> writes_back (encode_value (ctx_codec c) v) (value_byte_len (ctx_codec c) v)
     (decode_variant_value (nested_decoder c) (decode_DataValue c) c (variant_encoding_mask v)) v"

definition variant_wb :: "'x Context \<Rightarrow> 'x Variant \<Rightarrow> bool" where
  "variant_wb c v \<longleftrightarrow> writes_back (encode_Variant (ctx_codec c) v) (byte_len_Variant (ctx_codec c) v) (decode_Variant c) v"

lemma variant_wbI:
  "writes_back (encode_Variant (ctx_codec c) v) (byte_len_Variant (ctx_codec c) v)
     (decode_variant_using (nested_decoder c) (decode_DataValue c) c) v \<Longrightarrow> variant_wb c v"
  unfolding variant_wb_def by (subst decode_Variant_using)

lemma scalar_variant_wb:
  assumes "value_wb c v" "\<not> is_array v"
  shows "variant_wb c v"
proof -
  have "element_encoding_mask (variant_encoding_mask v) = variant_encoding_mask v \<and> variant_encoding_mask v AND ARRAY_VALUES_BIT = 0
     \<and> variant_encoding_mask v AND ARRAY_DIMENSIONS_BIT = 0"
    using assms(2) scalar_masks empty_mask
    by (cases "variant_type_id v") (auto simp: variant_encoding_mask_def is_array_def split: Variant.splits)
  with assms(1) have "writes_back (encode_Variant (ctx_codec c) v) (byte_len_Variant (ctx_codec c) v)
      (decode_variant_using (nested_decoder c) (decode_DataValue c) c) v"
    unfolding value_wb_def encode_Variant_def byte_len_Variant_def decode_variant_using_def
    by (intro wb_u8_then) simp
  then show ?thesis by (rule variant_wbI)
qed

lemma Array_new_ok: "list_all (\<lambda>v. variant_type_id v = VT_Scalar ty) vs \<Longrightarrow> Array_new ty vs = Some (V_Array ty vs None)"
  by (simp add: Array_new_def values_are_of_type_def)

lemma foldl_times: "foldl (*) d ds = d * prod_list (ds :: 'a::comm_monoid_mult list)"
  by (induction ds arbitrary: d) (simp_all add: mult.assoc)

lemma Array_new_multi_ok:
  assumes "dimensions_ok c (length vs) ds" "list_all (\<lambda>v. variant_type_id v = VT_Scalar ty) vs"
  shows "Array_new_multi ty vs ds = Some (V_Array ty vs (Some ds))"
proof -
  have *: "prod_list (map ucast ds) = (word_of_nat (prod_list (map unat ds)) :: u64)"
    by (induction ds) simp_all
  from assms(1) have "word_of_nat (length vs) = (word_of_nat (prod_list (map unat ds)) :: u64)"
    by (simp add: dimensions_ok_def)
  then have "validate_dimensions (length vs) ds"
    using assms(1) unfolding validate_dimensions_def * [symmetric]
    by (cases ds) (simp_all add: foldl_times dimensions_ok_def)
  with assms(2) show ?thesis
    by (simp add: Array_new_multi_def values_are_of_type_def)
qed

lemma dimensions_wb:
  assumes "dimensions_ok c (length vs) ds" "length vs < 2 ^ 31" "list_all (\<lambda>v. variant_type_id v = VT_Scalar ty) vs"
  shows "writes_back (wr_seq (write_i32 (word_of_nat (length ds))) (wr_all write_u32 ds)) (4 + length ds * 4)
    (decode_array_dimensions c ty vs) (V_Array ty vs (Some ds))"
proof -
  have ds: "0 \<notin> set ds" "prod_list (map unat ds) = length vs" "length ds \<le> max_array_length (ctx_options c)" "length ds < 2 ^ 31"
    using assms(1) by (simp_all add: dimensions_ok_def)
  have "prod_list ds = word_of_nat (prod_list (map unat ds))" by (induction ds) simp_all
  then have p: "checked_product ds 1 = Some (word_of_nat (length vs))"
    using checked_product_exact [OF ds(1), of 1] ds(2) assms(2) by simp
  have "writes_back (encode_array write_u32 (Some ds)) (byte_len_array (Some 4) (\<lambda>_. 4) (Some ds)) (decode_array (ctx_options c) read_u32) (Some ds)"
    using ds by (intro wire_format.wb [OF fmt_u32.array_format]) (simp_all add: fmt_u32.array_ok_def)
  then obtain bs where "wr_seq (write_i32 (word_of_nat (length ds))) (wr_all write_u32 ds) = Inr bs" "length bs = 4 + length ds * 4"
    "\<And>t. decode_array (ctx_options c) read_u32 (bs @ t) = Inr (Some ds, t)"
    by (auto simp: writes_back_def encode_array_def byte_len_array_def)
  then show ?thesis
    by (intro writes_backI [where bs = bs])
      (simp_all add: decode_array_dimensions_def ds(1) p Array_new_multi_ok [OF assms(1,3)] or_decoding_error_def)
qed

lemma depth_lock_codec: "depth_lock c = Inr c' \<Longrightarrow> ctx_codec c' = ctx_codec c"
  by (auto simp: depth_lock_def split: prod.splits sum.splits)

text \<open>The encoding of an array, given that its elements survive.\<close>

lemma array_variant_wb:
  assumes ok: "variant_ok ok_body c (V_Array ty vs dims)"
    and elements: "\<And>v. v \<in> set vs \<Longrightarrow> value_wb c v"
  shows "variant_wb c (V_Array ty vs dims)"
proof -
  let ?k = "ctx_codec c"
  have vs: "vs \<noteq> []" "length vs \<le> max_array_length (ctx_options c)" "length vs < 2 ^ 31"
    "list_all (\<lambda>v. variant_type_id v = VT_Scalar ty) vs" "pred_option (dimensions_ok c (length vs)) dims"
    using ok by (auto simp: list_all_iff)
  have scalar: "\<not> is_array v \<and> variant_encoding_mask v = scalar_encoding_mask ty" if "v \<in> set vs" for v
    using that vs(4) by (auto simp: list_all_iff is_array_def variant_encoding_mask_def split: Variant.splits)
  let ?w = "\<lambda>v. if is_array v then Inl Error_encoding else encode_value ?k v"
  let ?p = "decode_variant_value (nested_decoder c) (decode_DataValue c) c (scalar_encoding_mask ty)"
  have "writes_back (?w v) (value_byte_len ?k v) ?p v" if "v \<in> set vs" for v
    using elements [OF that] scalar [OF that] by (simp add: value_wb_def)
  then have "writes_back (wr_all ?w vs) (sum_list (map (value_byte_len ?k) vs)) (rd_times (length vs) ?p) vs"
    by (rule wb_times)
  moreover have "sum_list (map (value_byte_len ?k) vs)
      = (case fixed_scalar_value_byte_len ty of Some len \<Rightarrow> length vs * len
         | None \<Rightarrow> sum_list (map (\<lambda>v. if is_array v then 0 else value_byte_len ?k v) vs))"
  proof (cases "fixed_scalar_value_byte_len ty")
    case None
    then show ?thesis using scalar by (auto intro!: arg_cong [of _ _ sum_list])
  next
    case (Some n)
    then have "map (value_byte_len ?k) vs = map (\<lambda>_. n) vs"
      using vs(4) by (auto simp: list_all_iff fixed_value_byte_len)
    then have "sum_list (map (value_byte_len ?k) vs) = length vs * n"
      by (simp only: sum_list_triv of_nat_id)
    with Some show ?thesis by simp
  qed
  ultimately have elems: "writes_back (wr_all ?w vs)
      (case fixed_scalar_value_byte_len ty of Some len \<Rightarrow> length vs * len
         | None \<Rightarrow> sum_list (map (\<lambda>v. if is_array v then 0 else value_byte_len ?k v) vs))
      (rd_times (length vs) ?p) vs" by simp
  have tail: "writes_back (wr_opt (\<lambda>ds. wr_seq (write_i32 (word_of_nat (length ds))) (wr_all write_u32 ds)) dims)
      (case dims of Some ds \<Rightarrow> 4 + length ds * 4 | None \<Rightarrow> 0)
      (rd_bind (or_decoding_error (from_encoding_mask (scalar_encoding_mask ty))) (\<lambda>ty.
         if dims \<noteq> None then decode_array_dimensions c ty vs else or_decoding_error (Array_new ty vs)))
      (V_Array ty vs dims)"
  proof (cases dims)
    case None
    then show ?thesis using Array_new_ok [OF vs(4)]
      by (auto intro!: writes_backI simp: wr_opt_def scalar_masks or_decoding_error_def)
  next
    case (Some ds)
    with vs(5) have "dimensions_ok c (length vs) ds" by simp
    from dimensions_wb [OF this vs(3,4)] Some show ?thesis
      by (auto simp: wr_opt_def scalar_masks or_decoding_error_def writes_back_def)
  qed
  let ?f = "\<lambda>vs. rd_bind (or_decoding_error (from_encoding_mask (scalar_encoding_mask ty))) (\<lambda>ty.
         if dims \<noteq> None then decode_array_dimensions c ty vs else or_decoding_error (Array_new ty vs))"
  note body = wb_bind [where f = ?f, OF elems tail]
  have "writes_back (encode_Variant ?k (V_Array ty vs dims)) (byte_len_Variant ?k (V_Array ty vs dims))
      (decode_variant_using (nested_decoder c) (decode_DataValue c) c) (V_Array ty vs dims)"
    unfolding encode_Variant_def byte_len_Variant_def decode_variant_using_def value_byte_len.simps encode_value.simps
      variant_encoding_mask_def variant_type_id.simps type_encoding_mask.simps Let_def add.assoc
    apply (rule wb_u8_then)
    apply (unfold array_masks)
    apply (subst if_P, rule array_masks)
    apply (rule wb_bind [OF primitive_wb(5)])
    apply (unfold sint_len_32 [OF vs(3)] nat_int)
    apply (rule wb_guards)
       apply (simp only: not_less)
       apply simp
      apply (simp add: vs(1))
     apply (simp only: not_less vs(2))
    apply (rule body)
    done
  then show ?thesis by (rule variant_wbI)
qed

text \<open>The encoding of a data value, given that its value survives.\<close>

lemma wr_opt_nested:
  assumes "ot = None \<longrightarrow> op = None"
  shows "wr_seq (wr_opt (\<lambda>t. wr_seq (w t) (wr_opt v op)) ot) r = wr_seq (wr_opt w ot) (wr_seq (wr_opt v op) r)"
    "wr_opt (\<lambda>t. wr_seq (w t) (wr_opt v op)) ot = wr_seq (wr_opt w ot) (wr_opt v op)"
    "opt_len (\<lambda>_. 8 + opt_len (\<lambda>_. 2) op) ot = opt_len (\<lambda>_. 8) ot + opt_len (\<lambda>_. 2) op"
proof -
  have none: "wr_seq (Inr []) a = a" for a :: "bytes encoding_result"
    by (cases a) simp_all
  show "wr_seq (wr_opt (\<lambda>t. wr_seq (w t) (wr_opt v op)) ot) r = wr_seq (wr_opt w ot) (wr_seq (wr_opt v op) r)"
    using assms by (cases ot) (simp_all add: wr_opt_def none wr_seq_assoc)
  show "wr_opt (\<lambda>t. wr_seq (w t) (wr_opt v op)) ot = wr_seq (wr_opt w ot) (wr_opt v op)"
    using assms by (cases ot) (simp_all add: wr_opt_def)
  show "opt_len (\<lambda>_. 8 + opt_len (\<lambda>_. 2) op) ot = opt_len (\<lambda>_. 8) ot + opt_len (\<lambda>_. 2) op"
    using assms by (cases ot) (simp_all add: opt_len_def)
qed

lemma data_value_wb:
  assumes ok: "data_value_ok ok_body c (DataValue val st sts sps vts vps)"
    and val: "\<And>v. val = Some v \<Longrightarrow> variant_wb c v"
  shows "writes_back (encode_DataValue (ctx_codec c) (DataValue val st sts sps vts vps))
    (byte_len_DataValue (ctx_codec c) (DataValue val st sts sps vts vps))
    (decode_data_value_using (decode_Variant c) c) (DataValue val st sts sps vts vps)"
proof -
  let ?k = "ctx_codec c"
  have none: "sts = None \<longrightarrow> sps = None" "vts = None \<longrightarrow> vps = None" using ok by simp_all
  have dates: "\<And>t. sts = Some t \<Longrightarrow> DateTime_ok (with_zero_offset c) t" "\<And>t. vts = Some t \<Longrightarrow> DateTime_ok c t"
    using ok by auto
  have pico: "writes_back (write_u16 p) 2 (rd_map (min 9999) read_u16) p" if "sps = Some p \<or> vps = Some p" for p
  proof -
    have "p \<le> 9999" using that ok by auto
    then show ?thesis using wb_map [OF primitive_wb(2), of p "min 9999"] by (simp add: min_absorb2)
  qed
  have val': "writes_back (wr_seq (write_u8 (variant_encoding_mask v)) (encode_value ?k v)) (1 + value_byte_len ?k v) (decode_Variant c) v"
    if "val = Some v" for v
    using val [OF that] by (simp add: variant_wb_def encode_Variant_def byte_len_Variant_def)
  have fields: "DataValue val st sts sps vts vps
      = DataValue val st sts (if sts \<noteq> None then sps else None) vts (if vts \<noteq> None then vps else None)"
    using none by auto
  have flags: "sts \<noteq> None \<and> sps \<noteq> None \<longleftrightarrow> sps \<noteq> None" "vts \<noteq> None \<and> vps \<noteq> None \<longleftrightarrow> vps \<noteq> None"
    using none by auto
  show ?thesis
    unfolding encode_DataValue.simps byte_len_DataValue.simps decode_data_value_using_def
      wr_opt_nested [OF none(1)] wr_opt_nested [OF none(2)] wr_seq_assoc add.assoc
    apply (rule wb_u8_then)
    apply (rule wb_bind [OF wb_opt])
    apply (rule data_value_flags)
    apply (rule val')
    apply (assumption)
    apply (rule wb_bind [OF wb_opt])
    apply (rule data_value_flags)
    apply (rule primitive_wb)
    apply (rule wb_bind [OF wb_opt])
    apply (rule data_value_flags)
    apply (rule DateTime_wb)
    apply (rule dates)
    apply (assumption)
    apply (rule wb_bind [OF wb_opt])
    apply (rule trans [OF data_value_flags(4) flags(1)])
    apply (rule pico)
    apply (simp)
    apply (rule wb_bind [OF wb_opt])
    apply (rule data_value_flags)
    apply (rule DateTime_wb)
    apply (rule dates)
    apply (assumption)
    apply (rule wb_result, rule wb_last [OF wb_opt])
      apply (rule trans [OF data_value_flags(6) flags(2)])
     apply (rule pico, simp)
    apply (rule fields [symmetric])
    done
qed

lemma decode_scalar:
  "decode_variant_value nested data_value c 0 = rd_return V_Empty"
  "decode_variant_value nested data_value c 1 = rd_map V_Boolean decode_bool"
  "decode_variant_value nested data_value c 2 = rd_map V_SByte read_u8"
  "decode_variant_value nested data_value c 3 = rd_map V_Byte read_u8"
  "decode_variant_value nested data_value c 4 = rd_map V_Int16 read_i16"
  "decode_variant_value nested data_value c 5 = rd_map V_UInt16 read_u16"
  "decode_variant_value nested data_value c 6 = rd_map V_Int32 read_i32"
  "decode_variant_value nested data_value c 7 = rd_map V_UInt32 read_u32"
  "decode_variant_value nested data_value c 8 = rd_map V_Int64 read_i64"
  "decode_variant_value nested data_value c 9 = rd_map V_UInt64 read_u64"
  "decode_variant_value nested data_value c 10 = rd_map V_Float read_f32"
  "decode_variant_value nested data_value c 11 = rd_map V_Double read_f64"
  "decode_variant_value nested data_value c 12 = rd_map V_String (decode_UAString (ctx_options c))"
  "decode_variant_value nested data_value c 13 = rd_map V_DateTime (decode_DateTime c)"
  "decode_variant_value nested data_value c 14 = rd_map V_Guid decode_Guid"
  "decode_variant_value nested data_value c 15 = rd_map V_ByteString (decode_ByteString (ctx_options c))"
  "decode_variant_value nested data_value c 16 = rd_map V_XmlElement (decode_UAString (ctx_options c))"
  "decode_variant_value nested data_value c 17 = rd_map V_NodeId (decode_NodeId (ctx_options c))"
  "decode_variant_value nested data_value c 18 = rd_map V_ExpandedNodeId (decode_ExpandedNodeId (ctx_options c))"
  "decode_variant_value nested data_value c 19 = rd_map V_StatusCode decode_StatusCode"
  "decode_variant_value nested data_value c 20 = rd_map V_QualifiedName (decode_QualifiedName (ctx_options c))"
  "decode_variant_value nested data_value c 21 = rd_map V_LocalizedText (decode_LocalizedText (ctx_options c))"
  "decode_variant_value nested data_value c 22 = rd_map V_ExtensionObject (decode_ExtensionObject c)"
  "decode_variant_value nested data_value c 24 = rd_map V_Variant nested"
  "decode_variant_value nested data_value c 23 = rd_map V_DataValue data_value"
  "decode_variant_value nested data_value c 25 = rd_map V_DiagnosticInfo (decode_DiagnosticInfo c)"
  by (simp_all add: decode_variant_value_def)

lemma plain_value_wb:
  assumes "codec_laws (ctx_codec c) ok_body" "variant_ok ok_body c v"
    and "\<not> is_array v" "\<nexists>u. v = V_Variant u" "\<nexists>d. v = V_DataValue d"
  shows "value_wb c v"
  by (insert assms, unfold value_wb_def variant_encoding_mask_def, cases v;
      simp only: encode_value.simps value_byte_len.simps variant_type_id.simps type_encoding_mask.simps
        scalar_encoding_mask.simps decode_scalar variant_ok.simps;
      ((rule wb_return)
       | (rule wb_map, (rule primitive_wb | (rule structure_wb DateTime_wb diagnostic_wb, assumption)
            | (rule ExtensionObject_wb, assumption, assumption)))
       | (simp add: is_array_def)))

lemma plain_wb:
  assumes "codec_laws (ctx_codec c) ok_body" "variant_ok ok_body c v"
    and "\<not> is_array v" "\<nexists>u. v = V_Variant u" "\<nexists>d. v = V_DataValue d"
  shows "variant_wb c v \<and> (\<not> is_array v \<longrightarrow> value_wb c v)"
  using plain_value_wb [OF assms] scalar_variant_wb assms(3) by blast

lemma values_wb:
  "codec_laws (ctx_codec c) ok_body \<Longrightarrow> variant_ok ok_body c v \<Longrightarrow> variant_wb c v \<and> (\<not> is_array v \<longrightarrow> value_wb c v)"
  "codec_laws (ctx_codec c) ok_body \<Longrightarrow> data_value_ok ok_body c d \<Longrightarrow>
     writes_back (encode_DataValue (ctx_codec c) d) (byte_len_DataValue (ctx_codec c) d)
       (decode_data_value_using (decode_Variant c) c) d"
proof (induction v and d arbitrary: c and c rule: Variant.induct DataValue.induct)
  case (V_Variant v)
  then obtain c' where c': "depth_lock c = Inr c'" "variant_ok ok_body c' v"
    by (auto split: sum.splits)
  with V_Variant have "variant_wb c' v" by (auto simp: depth_lock_codec)
  then have "value_wb c (V_Variant v)"
    using c'(1) wb_map [where f = V_Variant]
    by (auto simp: value_wb_def variant_wb_def variant_encoding_mask_def decode_variant_value_def with_depth_lock_ok
        encode_Variant_def byte_len_Variant_def depth_lock_codec)
  then show ?case by (simp add: scalar_variant_wb is_array_def)
next
  case (V_DataValue d)
  then obtain c' where c': "depth_lock c = Inr c'" "data_value_ok ok_body c' d"
    by (auto split: sum.splits)
  with V_DataValue have "writes_back (encode_DataValue (ctx_codec c) d) (byte_len_DataValue (ctx_codec c) d)
       (decode_data_value_using (decode_Variant c') c') d"
    using V_DataValue.IH [of c'] by (simp add: depth_lock_codec)
  then have "value_wb c (V_DataValue d)"
    using c'(1) wb_map [where f = V_DataValue]
    by (auto simp: value_wb_def variant_encoding_mask_def decode_variant_value_def decode_DataValue_def with_depth_lock_ok)
  then show ?case by (simp add: scalar_variant_wb is_array_def)
next
  case (V_Array ty vs dims)
  have "value_wb c v" if "v \<in> set vs" for v
  proof -
    have "variant_ok ok_body c v" "\<not> is_array v"
      using V_Array.prems(2) that by (auto simp: list_all_iff is_array_def split: Variant.splits)
    with V_Array that show ?thesis by blast
  qed
  from array_variant_wb [OF V_Array.prems(2) this] show ?case by (simp add: is_array_def)
next
  case (DataValue val st sts sps vts vps)
  have "variant_wb c v" if "val = Some v" for v
    using DataValue that by auto
  then show ?case using DataValue.prems(2) by (rule data_value_wb [rotated]) simp
qed (rule plain_wb, assumption, assumption, simp add: is_array_def, simp, simp)+

section \<open>What decoding yields\<close>

definition yields :: "('a \<Rightarrow> bool) \<Rightarrow> 'a decoder \<Rightarrow> bool" where
  "yields P p \<longleftrightarrow> (\<forall>s x r. p s = Inr (x, r) \<longrightarrow> P x)"

named_theorems yields_intros

lemma yields_return [yields_intros]: "P x \<Longrightarrow> yields P (rd_return x)"
  by (simp add: yields_def)

lemma yields_fail [yields_intros]: "yields P (rd_fail e)"
  by (simp add: yields_def)

lemma yields_bind:
  "yields Q p \<Longrightarrow> (\<And>x. Q x \<Longrightarrow> yields P (f x)) \<Longrightarrow> yields P (rd_bind p f)"
  by (fastforce simp: yields_def rd_bind_eq_Inr)

lemma yields_bind_any [yields_intros]: "(\<And>x. yields P (f x)) \<Longrightarrow> yields P (rd_bind p f)"
  by (rule yields_bind [where Q = "\<lambda>_. True"]) (simp_all add: yields_def)

lemma yields_map: "yields (\<lambda>x. P (f x)) p \<Longrightarrow> yields P (rd_map f p)"
  by (auto simp: yields_def rd_map_eq_Inr)

lemma yields_map_any [yields_intros]: "(\<And>x. P (f x)) \<Longrightarrow> yields P (rd_map f p)"
  by (rule yields_map) (simp add: yields_def)

lemma yields_if [yields_intros]: "(b \<Longrightarrow> yields P p) \<Longrightarrow> (\<not> b \<Longrightarrow> yields P q) \<Longrightarrow> yields P (if b then p else q)"
  by simp

lemma yields_option [yields_intros]:
  "(ox = None \<Longrightarrow> yields P p) \<Longrightarrow> (\<And>x. ox = Some x \<Longrightarrow> yields P (q x)) \<Longrightarrow>
   yields P (case ox of None \<Rightarrow> p | Some x \<Rightarrow> q x)"
  by (cases ox) simp_all

lemma yields_times:
  assumes "yields P p"
  shows "yields (\<lambda>xs. length xs = n \<and> list_all P xs) (rd_times n p)"
proof (induction n)
  case (Suc n)
  then show ?case
    by (auto intro!: yields_bind [OF assms] yields_bind [OF Suc] yields_return)
qed (simp add: yields_def)

lemma yields_rd_opt: "yields P p \<Longrightarrow> yields (pred_option P) (rd_opt b p)"
  unfolding rd_opt_def by (auto intro!: yields_intros yields_map)

lemma yields_lock: "(\<And>c'. depth_lock c = Inr c' \<Longrightarrow> yields P (f c')) \<Longrightarrow> yields P (with_depth_lock c f)"
  by (auto simp: with_depth_lock_def yields_fail split: sum.splits)

lemma yields_or_error: "(\<And>x. ox = Some x \<Longrightarrow> P x) \<Longrightarrow> yields P (or_decoding_error ox)"
  unfolding or_decoding_error_def by (auto intro!: yields_intros)

text \<open>The nesting of a value: variants and data values in variants, in diagnostic information.\<close>

fun diagnostic_depth :: "DiagnosticInfo \<Rightarrow> nat" where
  "diagnostic_depth (DiagnosticInfo _ _ _ _ _ _ inner) = Suc (opt_len diagnostic_depth inner)"

fun variant_depth :: "'x Variant \<Rightarrow> nat" and data_value_depth :: "'x DataValue \<Rightarrow> nat" where
  "variant_depth (V_Variant v) = Suc (variant_depth v)"
| "variant_depth (V_DataValue d) = Suc (data_value_depth d)"
| "variant_depth (V_DiagnosticInfo d) = diagnostic_depth d"
| "variant_depth (V_ExtensionObject _) = 1"
| "variant_depth (V_Array _ vs _) = Max (set (0 # map variant_depth vs))"
| "variant_depth _ = 0"
| "data_value_depth (DataValue val _ _ _ _ _) = opt_len variant_depth val"

text \<open>Every array in the value is one the code accepts as valid, and no longer than the limit.\<close>

fun well_formed :: "nat \<Rightarrow> 'x Variant \<Rightarrow> bool" and data_value_well_formed :: "nat \<Rightarrow> 'x DataValue \<Rightarrow> bool" where
  "well_formed limit (V_Variant v) = well_formed limit v"
| "well_formed limit (V_DataValue d) = data_value_well_formed limit d"
| "well_formed limit (V_Array ty vs dims) =
     (variant_is_valid (V_Array ty vs dims) \<and> values_are_of_type vs ty \<and> length vs \<le> limit
      \<and> list_all (well_formed limit) vs)"
| "well_formed limit _ = True"
| "data_value_well_formed limit (DataValue val _ _ sps _ vps) =
     (pred_option (well_formed limit) val \<and> pred_option (\<lambda>p. p \<le> 9999) sps \<and> pred_option (\<lambda>p. p \<le> 9999) vps)"

lemma depth_lock_limits:
  "depth_lock c = Inr c' \<Longrightarrow> max_array_length (ctx_options c') = max_array_length (ctx_options c)"
  by (auto simp: depth_lock_def split: prod.splits sum.splits)

lemma decode_DiagnosticInfo_yields:
  "yields (\<lambda>d. diagnostic_depth d \<le> ctx_depth c) (decode_DiagnosticInfo c)"
proof (induction c rule: decode_DiagnosticInfo.induct)
  case (1 c)
  note IH = 1
  show ?case
    unfolding decode_DiagnosticInfo.simps [of c]
  proof (rule yields_lock, goal_cases)
    case (1 c')
    note c' = this
    have inner: "yields (pred_option (\<lambda>d. diagnostic_depth d \<le> ctx_depth c')) (rd_opt b (decode_DiagnosticInfo c'))" for b
      using IH [OF c'] by (rule yields_rd_opt)
    have "Suc (opt_len diagnostic_depth ox) \<le> ctx_depth c"
      if "pred_option (\<lambda>d. diagnostic_depth d \<le> ctx_depth c') ox" for ox
      using that depth_lock_less [OF c'] by (cases ox) (auto simp: opt_len_def)
    then show ?case
      by (intro yields_bind_any yields_bind [OF inner] yields_return) simp
  qed
qed

definition decoded_ok :: "'x Context \<Rightarrow> 'x Variant \<Rightarrow> bool" where
  "decoded_ok c v \<longleftrightarrow> variant_depth v \<le> ctx_depth c \<and> well_formed (max_array_length (ctx_options c)) v"

lemma decode_variant_value_yields:
  assumes "yields (\<lambda>v. decoded_ok c (V_Variant v)) nested" "yields (\<lambda>d. decoded_ok c (V_DataValue d)) data_value"
  shows "yields (decoded_ok c) (decode_variant_value nested data_value c m)"
proof -
  have 1: "yields (\<lambda>d. decoded_ok c (V_DiagnosticInfo d)) (decode_DiagnosticInfo c)"
    using decode_DiagnosticInfo_yields [of c] by (simp add: decoded_ok_def)
  have "yields (\<lambda>ob. 1 \<le> ctx_depth c) (decode_ExtensionObject c)"
    unfolding decode_ExtensionObject_def
    by (intro yields_lock) (use depth_lock_less in \<open>fastforce simp: yields_def\<close>)
  then have 2: "yields (\<lambda>ob. decoded_ok c (V_ExtensionObject ob)) (decode_ExtensionObject c)"
    by (simp add: decoded_ok_def)
  show ?thesis
    unfolding decode_variant_value_def
    by (intro yields_if yields_return yields_map [where f = V_Variant, OF assms(1)] yields_map [where f = V_DataValue, OF assms(2)]
        yields_map [where f = V_DiagnosticInfo, OF 1] yields_map [where f = V_ExtensionObject, OF 2]
        yields_map_any) (simp_all add: decoded_ok_def)
qed

lemma array_decoded_ok:
  assumes "list_all (decoded_ok c) vs" "length vs \<le> max_array_length (ctx_options c)"
    and "Array_new ty vs = Some v \<or> Array_new_multi ty vs ds = Some v"
  shows "decoded_ok c v"
proof -
  have "values_are_of_type vs ty \<Longrightarrow> array_is_valid vs"
    by (cases vs) (simp_all add: values_are_of_type_def array_is_valid_def)
  with assms show ?thesis
    by (auto simp: decoded_ok_def Array_new_def Array_new_multi_def variant_is_valid_def list_all_iff split: if_splits)
qed

lemma decode_variant_using_yields:
  assumes "yields (\<lambda>v. decoded_ok c (V_Variant v)) nested" "yields (\<lambda>d. decoded_ok c (V_DataValue d)) data_value"
  shows "yields (decoded_ok c) (decode_variant_using nested data_value c)"
proof -
  note element = decode_variant_value_yields [OF assms]
  have dims: "yields (decoded_ok c) (decode_array_dimensions c ty vs)"
    if "list_all (decoded_ok c) vs" "length vs \<le> max_array_length (ctx_options c)" for ty vs
    unfolding decode_array_dimensions_def
    by (intro yields_intros yields_or_error) (use that array_decoded_ok in blast)
  show ?thesis
    unfolding decode_variant_using_def Let_def
    by (intro yields_if yields_bind_any yields_fail element yields_or_error yields_bind [OF yields_times [OF element]])
      (auto intro!: dims yields_or_error intro: array_decoded_ok [where vs = "[]"] array_decoded_ok)
qed

lemma decode_Variant_yields: "yields (decoded_ok c) (decode_Variant c)"
proof (induction c rule: decode_Variant.induct)
  case (1 c)
  have lift: "decoded_ok c (V_Variant v)" if "depth_lock c = Inr c'" "decoded_ok c' v" for c' v
    using that depth_lock_less depth_lock_limits by (fastforce simp: decoded_ok_def)
  have nested: "yields (\<lambda>v. decoded_ok c (V_Variant v)) (with_depth_lock c (\<lambda>c'. decode_Variant c'))"
    by (rule yields_lock) (use 1 lift in \<open>fastforce simp: yields_def\<close>)
  have data_value: "yields (\<lambda>d. decoded_ok c (V_DataValue d)) (with_depth_lock c (\<lambda>c'. decode_data_value_using (decode_Variant c') c'))"
  proof (rule yields_lock)
    fix c' assume c': "depth_lock c = Inr c'"
    have val: "yields (pred_option (decoded_ok c')) (rd_opt b (decode_Variant c'))" for b
      using 1(1) [OF c'] by (rule yields_rd_opt)
    have pico: "yields (pred_option (\<lambda>p. p \<le> 9999)) (rd_opt b (rd_map (min 9999) read_u16))" for b
      by (rule yields_rd_opt) (rule yields_map_any, simp)
    have "decoded_ok c (V_DataValue (DataValue val st sts (if sts \<noteq> None then sps else None) vts (if vts \<noteq> None then vps else None)))"
      if "pred_option (decoded_ok c') val" "pred_option (\<lambda>p. p \<le> 9999) sps" "pred_option (\<lambda>p. p \<le> 9999) vps"
      for val st sts sps vts vps
      using that depth_lock_less [OF c'] depth_lock_limits [OF c'] by (cases val) (auto simp: decoded_ok_def opt_len_def)
    then show "yields (\<lambda>d. decoded_ok c (V_DataValue d)) (decode_data_value_using (decode_Variant c') c')"
      unfolding decode_data_value_using_def
      by (intro yields_bind [OF val] yields_bind [OF pico] yields_return yields_bind_any)
  qed
  show ?case
    unfolding decode_Variant.simps [of c] by (rule decode_variant_using_yields [OF nested data_value])
qed

section \<open>The fallback loader keeps the laws\<close>

definition fallback_ok :: "DecodingOptions \<Rightarrow> ByteStringBody \<Rightarrow> bool" where
  "fallback_ok opts b \<longleftrightarrow> NodeId_ok opts (fst b) \<and> snd b \<noteq> [] \<and> length (snd b) \<le> max_message_size opts
     \<and> length (snd b) < 2 ^ 31"

lemma fallback_laws: "codec_laws fallback_codec fallback_ok"
  by (auto simp: codec_laws_def fallback_codec_def fallback_ok_def fallback_load_def rd_map_def)

section \<open>Properties\<close>


definition example_context :: "ByteStringBody Context" where
  "example_context = \<lparr>ctx_options = DecodingOptions_default, ctx_client_offset = 0, ctx_codec = fallback_codec\<rparr>"



text \<open>C13: whatever bytes arrive, what is decoded from them is sound: variants, data values and
  diagnostic information are nested no deeper than the gauge of the reader allows, so the recursion
  of the decoder is bounded; and at every depth the arrays have at most the configured length, hold
  scalars of their declared type and have dimensions that fit, as \<open>is_valid\<close> asks.\<close>

theorem decoded_variant_bounded:
  assumes "decode_Variant c s = Inr (v, r)"
  shows "variant_depth v \<le> depth_left (decoding_depth_gauge (ctx_options c))
    \<and> well_formed (max_array_length (ctx_options c)) v \<and> variant_is_valid v"
proof -
  have "decoded_ok c v" using decode_Variant_yields [of c] assms unfolding yields_def by blast
  moreover have "well_formed n v \<Longrightarrow> variant_is_valid v" for n
    by (cases v) (simp_all add: variant_is_valid_def)
  ultimately show ?thesis by (auto simp: decoded_ok_def ctx_depth_def)
qed

lemma decoded_variant_bounded_witness:
  "variant_depth (V_Variant (V_Boolean True) :: ByteStringBody Variant) \<le> 10"
proof -
  have "variant_ok fallback_ok example_context (V_Variant (V_Boolean True))"
    by (simp add: example_context_def DecodingOptions_default_def depth_lock_def DepthGauge_new_def
        DepthLock_obtain_def MAX_DECODING_DEPTH_def)
  then have "variant_wb example_context (V_Variant (V_Boolean True))"
    using values_wb(1) [of example_context fallback_ok] fallback_laws by (simp add: example_context_def)
  then obtain bs where "decode_Variant example_context (bs @ []) = Inr (V_Variant (V_Boolean True), [])"
    unfolding variant_wb_def writes_back_def by blast
  from decoded_variant_bounded [OF this] show ?thesis
    by (simp add: example_context_def DecodingOptions_default_def depth_left_def DepthGauge_new_def MAX_DECODING_DEPTH_def)
qed

text \<open>C34: an empty array does not survive a second trip. Read from the wire without dimensions it
  is kept with an empty list of dimensions; written again it carries the dimensions bit and their
  count, which the reader of an empty array leaves in the stream: four bytes that are taken for
  what follows.\<close>

theorem empty_array_desynchronises:
  "decode_Variant c ([array_encoding_mask ty None, 0, 0, 0, 0] @ t) = Inr (V_Array ty [] (Some []), t)
   \<and> (\<exists>bs. encode_Variant k (V_Array ty [] (Some [])) = Inr bs
         \<and> decode_Variant c (bs @ t) = Inr (V_Array ty [] (Some []), [0, 0, 0, 0] @ t))"
proof -
  have zero: "le_bytes 4 0 = [0, 0, 0, 0]" by code_simp
  have len: "read_i32 ([0, 0, 0, 0] @ u) = Inr (0, u)" for u
    by (rule fmt_i32.decodes) (simp_all add: write_defs zero)
  have byte: "read_u8 (b # u) = Inr (b, u)" for b u
    using fmt_u8.decodes [of b "[b]" u] by (simp add: write_defs)
  have new: "Array_new_multi ty [] [] = Some (V_Array ty [] (Some []))"
    by (simp add: Array_new_multi_def validate_dimensions_def values_are_of_type_def)
  have "decode_Variant c (array_encoding_mask ty dims # [0, 0, 0, 0] @ u) = Inr (V_Array ty [] (Some []), u)" for dims u
    using len [of u] array_masks(2) [of ty dims]
    by (subst decode_Variant_using)
      (simp add: decode_variant_using_def byte Let_def array_masks scalar_masks or_decoding_error_def new)
  from this [of None t] this [of "Some []" "[0, 0, 0, 0] @ t"] show ?thesis
    by (auto simp: encode_Variant_def variant_encoding_mask_def wr_opt_def write_defs zero)
qed

text \<open>The limit on the size of messages may be 0, for no limit, and the transport lets every
  message through then; but an extension object with a body is refused by every reader with that
  setting, because the length of the body is compared with 0.\<close>

theorem unlimited_messages_refuse_bodies:
  assumes "max_message_size (ctx_options c) = 0" "NodeId_ok (ctx_options c) n" "encode_NodeId n = Inr ns"
    and "0 < len" "len < 2 ^ 31"
  shows "decode_ExtensionObject c (ns @ [1] @ le_bytes 4 len @ t) = Inl Error_decoding"
proof (cases "depth_lock c")
  case (Inl e)
  then show ?thesis
    by (auto simp: decode_ExtensionObject_def with_depth_lock_def depth_lock_def DepthLock_obtain_def Let_def split: if_splits)
next
  case (Inr c')
  then have c': "max_message_size (ctx_options c') = 0" "NodeId_ok (ctx_options c') n"
    using assms(1,2)
    by (auto simp: depth_lock_def NodeId_ok_def Identifier_ok_def UAString_ok_def ByteString_ok_def
        split: prod.splits sum.splits Identifier.splits option.splits)
  have size: "validate_body_size (word_of_nat len) 0 = Inl Error_decoding"
    using assms(4,5) by (simp add: validate_body_size_def sint_len_32)
  have "read_i32 (le_bytes 4 len @ t) = Inr (word_of_nat len, t)"
    using fmt_i32.decodes [of "word_of_nat len" "le_bytes 4 len" t] assms(5)
    by (simp add: write_defs unat_of_nat take_bit_nat_eq_self)
  moreover have "read_u8 (1 # u) = Inr (1, u)" for u
    using fmt_u8.decodes [of 1 "[1]" u] by (simp add: write_defs)
  ultimately show ?thesis
    unfolding decode_ExtensionObject_def with_depth_lock_ok [OF Inr]
    using fmt_NodeId.decodes [OF c'(2) assms(3)] by (simp add: c'(1) size)
qed

lemma unlimited_messages_refuse_bodies_witness:
  "decode_ExtensionObject (example_context\<lparr>ctx_options := DecodingOptions_default\<lparr>max_message_size := 0\<rparr>\<rparr>)
     ([0, 7] @ [1] @ le_bytes 4 2 @ [5, 6]) = Inl Error_decoding"
proof -
  have "encode_NodeId (NodeId_new 0 (Id_Numeric 7)) = Inr [0, 7]" by code_simp
  from unlimited_messages_refuse_bodies [OF _ _ this, of "example_context\<lparr>ctx_options := DecodingOptions_default\<lparr>max_message_size := 0\<rparr>\<rparr>" 2 "[5, 6]"]
  show ?thesis by (simp add: NodeId_ok_def Identifier_ok_def NodeId_new_def)
qed

end
