(* ===== verification/Variant_Ranges.thy ===== *)
theory Variant_Ranges
  imports Data_Values Text_Forms
begin

text \<open>
  Reading and writing parts of values by index ranges, after \<open>range_of\<close> and \<open>set_range_of\<close> of
  \<open>async-opcua-types/src/variant/mod.rs\<close> and the variables of \<open>async-opcua-nodes/src/variable.rs\<close>
  that use them. Sizes are \<open>usize\<close> numbers: natural numbers with checked arithmetic in 64 bits.
\<close>

section \<open>Checked arithmetic\<close>

definition checked_add :: "nat \<Rightarrow> nat \<Rightarrow> nat option" where
  "checked_add a b = (if a + b < 2 ^ 64 then Some (a + b) else None)"

definition checked_mul :: "nat \<Rightarrow> nat \<Rightarrow> nat option" where
  "checked_mul a b = (if a * b < 2 ^ 64 then Some (a * b) else None)"

section \<open>Row-major order\<close>

text \<open>The loop runs from the last dimension to the first and also forms the product of them all.\<close>

fun strides_from_last :: "nat list \<Rightarrow> nat \<Rightarrow> nat list option" where
  "strides_from_last [] stride = Some []"
| "strides_from_last (d # ds) stride =
     Option.bind (checked_mul stride d) (\<lambda>stride'. map_option ((#) stride) (strides_from_last ds stride'))"

definition row_major_strides :: "nat list \<Rightarrow> nat list option" where
  "row_major_strides dims = map_option rev (strides_from_last (rev dims) 1)"

fun try_product :: "nat list \<Rightarrow> nat \<Rightarrow> nat option" where
  "try_product [] p = Some p"
| "try_product (d # ds) p = Option.bind (checked_mul p d) (try_product ds)"

definition checked_dimension_product :: "nat list \<Rightarrow> nat option" where
  "checked_dimension_product dims = (if dims = [] then Some 0 else try_product dims 1)"

fun try_selection_count :: "(nat \<times> nat) list \<Rightarrow> nat \<Rightarrow> nat option" where
  "try_selection_count [] p = Some p"
| "try_selection_count ((lo, hi) # sel) p =
     (if hi < lo then None
      else Option.bind (checked_add (hi - lo) 1) (\<lambda>extent.
        Option.bind (checked_mul p extent) (try_selection_count sel)))"

definition checked_selection_count :: "(nat \<times> nat) list \<Rightarrow> nat option" where
  "checked_selection_count sel = (if sel = [] then Some 0 else try_selection_count sel 1)"

fun flat_index :: "nat list \<Rightarrow> nat list \<Rightarrow> nat \<Rightarrow> nat option" where
  "flat_index (c # cs) (s # ss) acc =
     Option.bind (checked_mul c s) (\<lambda>p. Option.bind (checked_add acc p) (flat_index cs ss))"
| "flat_index _ _ acc = Some acc"

text \<open>The last coordinate that has not reached its end goes on by one and those after it start again.\<close>

definition advance :: "(nat \<times> nat) list \<Rightarrow> nat list \<Rightarrow> nat list option" where
  "advance sel coords =
     (case find (\<lambda>d. coords ! d < snd (sel ! d)) (rev [0..<length coords]) of
        None \<Rightarrow> None
      | Some d \<Rightarrow> Some (take d coords @ (coords ! d + 1) # map fst (drop (d + 1) sel)))"

text \<open>The same, by recursion from the first coordinate.\<close>

fun next_coords :: "(nat \<times> nat) list \<Rightarrow> nat list \<Rightarrow> nat list option" where
  "next_coords (s # sel) (c # cs) =
     (case next_coords sel cs of
        Some cs' \<Rightarrow> Some (c # cs')
      | None \<Rightarrow> if c < snd s then Some (Suc c # map fst sel) else None)"
| "next_coords _ _ = None"

lemma find_append: "find P (xs @ ys) = (case find P xs of None \<Rightarrow> find P ys | Some x \<Rightarrow> Some x)"
  by (induction xs) simp_all

lemma find_map: "find P (map f xs) = map_option f (find (P \<circ> f) xs)"
  by (induction xs) simp_all

lemma advance_next: "length coords = length sel \<Longrightarrow> advance sel coords = next_coords sel coords"
proof (induction sel coords rule: next_coords.induct)
  case (1 s sel c cs)
  have "rev [0..<length (c # cs)] = map Suc (rev [0..<length cs]) @ [0]"
    by (simp only: length_Cons upt_conv_Cons [OF zero_less_Suc] map_Suc_upt [symmetric] rev.simps rev_map)
  then have "find (\<lambda>d. (c # cs) ! d < snd ((s # sel) ! d)) (rev [0..<length (c # cs)])
      = (case map_option Suc (find (\<lambda>d. cs ! d < snd (sel ! d)) (rev [0..<length cs])) of
           None \<Rightarrow> if c < snd s then Some 0 else None | Some d \<Rightarrow> Some d)"
    by (simp only: find_append find_map) (simp add: comp_def split: option.split)
  moreover have "next_coords sel cs = advance sel cs" using 1 by simp
  ultimately show ?case
    by (cases "find (\<lambda>d. cs ! d < snd (sel ! d)) (rev [0..<length cs])") (auto simp: advance_def split: if_splits)
qed (auto simp: advance_def)

lemma next_coords_length: "next_coords sel cs = Some cs' \<Longrightarrow> length cs = length sel \<Longrightarrow> length cs' = length sel"
  by (induction sel cs arbitrary: cs' rule: next_coords.induct) (auto split: option.splits if_splits)

definition coords_left :: "(nat \<times> nat) list \<Rightarrow> nat list \<Rightarrow> nat list" where
  "coords_left sel coords = map2 (\<lambda>s c. snd s - c) sel coords"

lemma advance_decreases:
  assumes "advance sel coords = Some coords'" "length coords = length sel"
  shows "(coords_left sel coords', coords_left sel coords) \<in> lex less_than"
proof -
  have "next_coords sel coords = Some coords'" using assms by (simp add: advance_next)
  then show ?thesis
    using assms(2)
  proof (induction sel coords arbitrary: coords' rule: next_coords.induct)
    case (1 s sel c cs)
    then show ?case by (fastforce simp: coords_left_def split: option.splits if_splits)
  qed simp_all
qed

text \<open>The loop of \<open>row_major_indices\<close>. There are as many coordinates as selections.\<close>

function visit_coords :: "nat list \<Rightarrow> (nat \<times> nat) list \<Rightarrow> nat list \<Rightarrow> nat list option" where
  "visit_coords strides sel coords =
     (if length coords \<noteq> length sel then None
      else Option.bind (flat_index coords strides 0) (\<lambda>flat.
        case advance sel coords of
          None \<Rightarrow> Some [flat]
        | Some coords' \<Rightarrow> map_option ((#) flat) (visit_coords strides sel coords')))"
  by pat_completeness auto
termination
  by (relation "inv_image (lex less_than) (\<lambda>(_, sel, coords). coords_left sel coords)")
    (auto simp: advance_decreases intro: wf_lex)

declare visit_coords.simps [simp del]

definition row_major_indices :: "nat list \<Rightarrow> (nat \<times> nat) list \<Rightarrow> nat list option" where
  "row_major_indices dims sel =
     (if length dims \<noteq> length sel then None
      else Option.bind (row_major_strides dims) (\<lambda>strides.
        Option.bind (checked_selection_count sel) (\<lambda>_.
          if sel = [] then Some [] else visit_coords strides sel (map fst sel))))"

section \<open>The order is that of the positions\<close>

text \<open>The positions of a selection, the last coordinate fastest, and the place of a position in an
  array: the digits of a number whose bases are the dimensions.\<close>

definition positions :: "(nat \<times> nat) list \<Rightarrow> nat list list" where
  "positions sel = product_lists (map (\<lambda>(lo, hi). [lo..<Suc hi]) sel)"

fun place :: "nat list \<Rightarrow> nat list \<Rightarrow> nat" where
  "place (d # ds) (c # cs) = c * prod_list ds + place ds cs"
| "place _ _ = 0"

lemma place_mixed_base:
  "length ds = length cs \<Longrightarrow> place (ds @ [d]) (cs @ [c]) = place ds cs * d + c"
  by (induction ds cs rule: list_induct2) (simp_all add: algebra_simps)

text \<open>The positions from the given one on.\<close>

fun positions_from :: "(nat \<times> nat) list \<Rightarrow> nat list \<Rightarrow> nat list list" where
  "positions_from ((lo, hi) # sel) (c # cs) =
     map ((#) c) (positions_from sel cs) @ concat (map (\<lambda>x. map ((#) x) (positions sel)) [Suc c..<Suc hi])"
| "positions_from _ _ = [[]]"

definition selection_ok :: "(nat \<times> nat) list \<Rightarrow> bool" where
  "selection_ok sel \<longleftrightarrow> list_all (\<lambda>(lo, hi). lo \<le> hi) sel"

lemma positions_from_start: "selection_ok sel \<Longrightarrow> positions_from sel (map fst sel) = positions sel"
proof (induction sel)
  case (Cons s sel)
  obtain lo hi where s: "s = (lo, hi)" by fastforce
  with Cons show ?case
    by (simp add: positions_def selection_ok_def upt_conv_Cons del: upt_Suc)
qed (simp add: positions_def)

lemma positions_from_step:
  assumes "selection_ok sel" "length cs = length sel"
  shows "positions_from sel cs =
    (case next_coords sel cs of None \<Rightarrow> [cs] | Some cs' \<Rightarrow> cs # positions_from sel cs')"
  using assms
proof (induction sel cs rule: next_coords.induct)
  case (1 s sel c cs)
  obtain lo hi where s: "s = (lo, hi)" by fastforce
  have ok: "selection_ok sel" "length cs = length sel" using 1(2,3) by (simp_all add: selection_ok_def)
  show ?case
  proof (cases "next_coords sel cs")
    case None
    with 1(1) [OF ok] have "positions_from sel cs = [cs]" by simp
    with None s ok(1) show ?thesis
      by (auto simp: positions_from_start upt_conv_Cons simp del: upt_Suc)
  next
    case (Some cs')
    with 1(1) [OF ok] s show ?thesis by simp
  qed
qed simp_all

lemma visit_coords_positions:
  assumes "selection_ok sel" "length cs = length sel"
    and "\<And>p. p \<in> set (positions_from sel cs) \<Longrightarrow> flat_index p strides 0 = Some (f p)"
  shows "visit_coords strides sel cs = Some (map f (positions_from sel cs))"
  using assms
proof (induction strides sel cs rule: visit_coords.induct)
  case (1 strides sel cs)
  note step = positions_from_step [OF 1(2,3)]
  have flat: "flat_index cs strides 0 = Some (f cs)"
    using 1(4) step by (auto split: option.splits)
  show ?case
  proof (cases "next_coords sel cs")
    case None
    with flat step 1(3) show ?thesis
      by (simp add: visit_coords.simps [of strides sel cs] advance_next)
  next
    case (Some cs')
    have adv: "advance sel cs = Some cs'" using Some 1(3) by (simp add: advance_next)
    have "visit_coords strides sel cs' = Some (map f (positions_from sel cs'))"
      using 1(1) [OF _ flat adv] 1(2,3,4) Some step next_coords_length [OF Some 1(3)] by simp
    with flat step Some 1(3) adv show ?thesis
      by (simp add: visit_coords.simps [of strides sel cs])
  qed
qed

lemma strides_from_last_ok:
  "stride * prod_list ds < 2 ^ 64 \<Longrightarrow> 0 \<notin> set ds \<Longrightarrow>
   strides_from_last ds stride = Some (map (\<lambda>i. stride * prod_list (take i ds)) [0..<length ds])"
proof (induction ds arbitrary: stride)
  case (Cons d ds)
  have "0 < prod_list ds" using Cons.prems(2) by (induction ds) auto
  then have "stride * d * 1 \<le> stride * d * prod_list ds" by (intro mult_le_mono2) simp
  with Cons.prems(1) have "stride * d < 2 ^ 64"
    by (metis le_less_trans mult.assoc mult_1_right prod_list.Cons)
  moreover have "[0..<length (d # ds)] = 0 # map Suc [0..<length ds]"
    by (simp add: upt_conv_Cons map_Suc_upt del: upt_Suc)
  ultimately show ?case
    using Cons by (simp add: checked_mul_def mult.assoc comp_def del: upt_Suc)
qed simp

lemma row_major_strides_ok:
  assumes "prod_list dims < 2 ^ 64" "0 \<notin> set dims"
  shows "row_major_strides dims = Some (map (\<lambda>i. prod_list (drop (Suc i) dims)) [0..<length dims])"
proof -
  have "prod_list (rev dims) = prod_list dims" for dims :: "nat list"
    by (induction dims) simp_all
  then have "row_major_strides dims = Some (rev (map (\<lambda>i. prod_list (take i (rev dims))) [0..<length dims]))"
    using strides_from_last_ok [of 1 "rev dims"] assms by (simp add: row_major_strides_def)
  moreover have "rev (map (\<lambda>i. prod_list (take i (rev dims))) [0..<length dims])
      = map (\<lambda>i. prod_list (drop (Suc i) dims)) [0..<length dims]"
  proof (rule nth_equalityI)
    fix i assume i: "i < length (rev (map (\<lambda>i. prod_list (take i (rev dims))) [0..<length dims]))"
    have "prod_list (take (length dims - Suc i) (rev dims)) = prod_list (rev (drop (Suc i) dims))"
      using i by (simp add: take_rev)
    also have "\<dots> = prod_list (drop (Suc i) dims)" by (induction "drop (Suc i) dims") (simp_all add: \<open>\<And>dims :: nat list. prod_list (rev dims) = prod_list dims\<close>)
    finally show "rev (map (\<lambda>i. prod_list (take i (rev dims))) [0..<length dims]) ! i
        = map (\<lambda>i. prod_list (drop (Suc i) dims)) [0..<length dims] ! i"
      using i diff_Suc_less [of "length dims" i] by (simp add: rev_nth)
  qed simp
  ultimately show ?thesis by simp
qed

fun strides_of :: "nat list \<Rightarrow> nat list" where
  "strides_of [] = []"
| "strides_of (d # ds) = prod_list ds # strides_of ds"

lemma strides_of_map: "map (\<lambda>i. prod_list (drop (Suc i) ds)) [0..<length ds] = strides_of ds"
proof (induction ds)
  case (Cons d ds)
  have "[0..<length (d # ds)] = 0 # map Suc [0..<length ds]"
    by (simp add: upt_conv_Cons map_Suc_upt del: upt_Suc)
  with Cons show ?case by (simp add: comp_def del: upt_Suc)
qed simp

definition position_within :: "nat list \<Rightarrow> nat list \<Rightarrow> bool" where
  "position_within ds cs \<longleftrightarrow> list_all2 (\<lambda>c d. c < d) cs ds"

lemma place_bound: "position_within ds cs \<Longrightarrow> place ds cs < prod_list ds"
proof (induction ds cs rule: place.induct)
  case (1 d ds c cs)
  then have "place ds cs < prod_list ds" "Suc c \<le> d" by (simp_all add: position_within_def)
  moreover from \<open>Suc c \<le> d\<close> have "Suc c * prod_list ds \<le> d * prod_list ds" by (rule mult_le_mono1)
  ultimately show ?case by simp
qed (auto simp: position_within_def)

lemma place_inj:
  "position_within ds cs \<Longrightarrow> position_within ds cs' \<Longrightarrow> place ds cs = place ds cs' \<Longrightarrow> cs = cs'"
proof (induction ds cs arbitrary: cs' rule: place.induct)
  case (1 d ds c cs)
  then obtain c' ds' where cs': "cs' = c' # ds'" by (cases cs') (auto simp: position_within_def)
  have p: "position_within ds cs" "position_within ds ds'" using 1(2,3) cs' by (simp_all add: position_within_def)
  note b = place_bound [OF p(1)] place_bound [OF p(2)]
  have e: "c * prod_list ds + place ds cs = c' * prod_list ds + place ds ds'" using 1(4) cs' by simp
  have "c = c'" using b arg_cong [OF e, of "\<lambda>n. n div prod_list ds"] by simp
  with 1(1) [OF p] e cs' show ?case by simp
qed (auto simp: position_within_def)

lemma flat_index_place:
  "position_within ds cs \<Longrightarrow> acc + place ds cs < 2 ^ 64 \<Longrightarrow> flat_index cs (strides_of ds) acc = Some (acc + place ds cs)"
proof (induction ds cs arbitrary: acc rule: place.induct)
  case (1 d ds c cs)
  then show ?case by (simp add: position_within_def checked_mul_def checked_add_def add.assoc)
qed (auto simp: position_within_def)

definition selection_within :: "nat list \<Rightarrow> (nat \<times> nat) list \<Rightarrow> bool" where
  "selection_within dims sel \<longleftrightarrow> list_all2 (\<lambda>(lo, hi) d. lo \<le> hi \<and> hi < d) sel dims"

definition extents :: "(nat \<times> nat) list \<Rightarrow> nat list" where
  "extents sel = map (\<lambda>(lo, hi). Suc hi - lo) sel"

lemma selection_within_ok: "selection_within dims sel \<Longrightarrow> selection_ok sel \<and> length sel = length dims \<and> 0 \<notin> set dims"
  unfolding selection_within_def by (induction rule: list_all2_induct) (auto simp: selection_ok_def)

lemma positions_within:
  assumes "selection_within dims sel" "p \<in> set (positions sel)"
  shows "position_within dims p"
proof -
  have "list_all2 (\<lambda>x xs. x \<in> set xs) p (map (\<lambda>(lo, hi). [lo..<Suc hi]) sel)"
    using assms(2) by (simp add: positions_def product_lists_set)
  then show ?thesis
    using assms(1) unfolding position_within_def selection_within_def
    by (auto simp: list_all2_conv_all_nth split_beta) (metis less_trans)
qed

lemma length_positions: "length (positions sel) = prod_list (extents sel)"
  by (induction sel) (auto simp: positions_def extents_def length_concat comp_def sum_list_triv split_beta simp del: upt_Suc)

lemma extents_le: "selection_within dims sel \<Longrightarrow> prod_list (extents sel) \<le> prod_list dims"
  unfolding selection_within_def
  by (induction rule: list_all2_induct) (auto simp: extents_def intro!: mult_le_mono)

lemma selection_count_ok:
  assumes "selection_within dims sel" "p * prod_list (extents sel) < 2 ^ 64" "0 < p"
  shows "try_selection_count sel p = Some (p * prod_list (extents sel))"
  using assms unfolding selection_within_def
proof (induction arbitrary: p rule: list_all2_induct)
  case (Cons s sel d dims)
  obtain lo hi where s: "s = (lo, hi)" by fastforce
  have "0 < prod_list (extents sel)"
    using Cons(2) by (induction rule: list_all2_induct) (auto simp: extents_def)
  then have le: "x * 1 \<le> x * prod_list (extents sel)" for x :: nat by (intro mult_le_mono2) simp
  obtain e where e: "hi - lo + 1 = e" "Suc hi - lo = e" "lo \<le> hi" using Cons(1) s by (auto simp: Suc_diff_le)
  then have ex: "extents (s # sel) = e # extents sel" by (simp add: extents_def s)
  have lt: "p * e * prod_list (extents sel) < 2 ^ 64" using Cons(4) by (simp add: ex mult.assoc)
  then have "p * e < 2 ^ 64" using le [of "p * e"] by linarith
  moreover have "e \<le> p * e" using Cons(5) by simp
  then have "e < 2 ^ 64" using \<open>p * e < 2 ^ 64\<close> by (rule le_less_trans)
  ultimately show ?case
    using Cons(3) [OF lt] Cons(5) s e ex by (simp add: checked_add_def checked_mul_def mult.assoc)
qed (simp add: extents_def)

lemma row_major_indices_places:
  assumes "selection_within dims sel" "sel \<noteq> []" "prod_list dims < 2 ^ 64"
  shows "row_major_indices dims sel = Some (map (place dims) (positions sel))
    \<and> distinct (map (place dims) (positions sel)) \<and> list_all (\<lambda>i. i < prod_list dims) (map (place dims) (positions sel))"
proof -
  have ok: "selection_ok sel" "length sel = length dims" "0 \<notin> set dims"
    using selection_within_ok [OF assms(1)] by simp_all
  have within: "position_within dims p" if "p \<in> set (positions sel)" for p
    using positions_within [OF assms(1) that] .
  have flat: "flat_index p (strides_of dims) 0 = Some (place dims p)" if "p \<in> set (positions sel)" for p
    using flat_index_place [OF within [OF that], of 0] place_bound [OF within [OF that]] assms(3) by simp
  have visit: "visit_coords (strides_of dims) sel (map fst sel) = Some (map (place dims) (positions sel))"
    using visit_coords_positions [OF ok(1), of "map fst sel" "strides_of dims" "place dims"] flat positions_from_start [OF ok(1)]
    by simp
  have count: "checked_selection_count sel = Some (prod_list (extents sel))"
    using selection_count_ok [OF assms(1), of 1] extents_le [OF assms(1)] assms(2,3) by (simp add: checked_selection_count_def)
  have "distinct (positions sel)"
    unfolding positions_def by (rule distinct_product_lists) (auto simp: split_beta)
  moreover have "inj_on (place dims) (set (positions sel))"
    by (rule inj_onI) (rule place_inj [OF within within])
  ultimately show ?thesis
    using visit count row_major_strides_ok [OF assms(3) ok(3)] ok(2) assms(2) place_bound within
    by (auto simp: row_major_indices_def strides_of_map distinct_map list_all_iff)
qed

text \<open>C17: the flat indices of a multi-dimensional range. For every selection within the dimensions of
  an array the loop over the coordinates ends and gives the places of the selected positions, with
  the last dimension running fastest: each of them once, none of them outside of the array.\<close>

theorem row_major_indices_enumerates:
  assumes "selection_within dims sel" "sel \<noteq> []" "prod_list dims < 2 ^ 64"
  shows "row_major_indices dims sel = Some (map (place dims) (positions sel))
    \<and> distinct (map (place dims) (positions sel)) \<and> list_all (\<lambda>i. i < prod_list dims) (map (place dims) (positions sel))"
  by (rule row_major_indices_places [OF assms])

lemma row_major_indices_enumerates_witness:
  "row_major_indices [2, 3] [(0, 1), (1, 2)] = Some [1, 2, 4, 5]"
proof -
  have "selection_within [2, 3] [(0, 1), (1, 2)]" by (simp add: selection_within_def)
  moreover have "positions [(0, 1), (1, 2)] = [[0, 1], [0, 2], [1, 1], [1, 2]]" by code_simp
  ultimately show ?thesis using row_major_indices_enumerates [of "[2, 3]" "[(0, 1), (1, 2)]"] by simp
qed

section \<open>Substrings\<close>

text \<open>The characters of a string: the groups of its UTF-8 bytes, a byte that is not a continuation
  byte with the continuation bytes after it.\<close>

function chars :: "bytes \<Rightarrow> bytes list" where
  "chars [] = []"
| "chars (b # bs) = (b # takeWhile utf8_cont bs) # chars (dropWhile utf8_cont bs)"
  by pat_completeness auto
termination by (relation "measure length") (auto simp: le_imp_less_Suc length_dropWhile_le)

definition slice_inclusive :: "nat \<Rightarrow> nat \<Rightarrow> 'a list \<Rightarrow> 'a list option" where
  "slice_inclusive mn mx xs =
     (if mn \<le> mx + 1 \<and> mx + 1 \<le> length xs then Some (take (mx + 1 - mn) (drop mn xs)) else None)"

definition UAString_substring :: "UAString \<Rightarrow> nat \<Rightarrow> nat \<Rightarrow> UAString option" where
  "UAString_substring s mn mx =
     Option.bind s (\<lambda>v.
       let char_count = length (chars v) in
       if char_count \<le> mn then None
       else let mx = min mx (char_count - 1) in
         if mx < mn then None else Some (Some (concat (take (mx - mn + 1) (drop mn (chars v))))))"

definition ByteString_substring :: "ByteString \<Rightarrow> nat \<Rightarrow> nat \<Rightarrow> ByteString option" where
  "ByteString_substring b mn mx =
     Option.bind b (\<lambda>v.
       if length v \<le> mn then None
       else map_option Some (slice_inclusive mn (if length v \<le> mx then length v - 1 else mx) v))"

definition or_error :: "StatusCode \<Rightarrow> 'a option \<Rightarrow> StatusCode + 'a" where
  "or_error e r = (case r of None \<Rightarrow> Inl e | Some x \<Rightarrow> Inr x)"

definition substring :: "'x Variant \<Rightarrow> nat \<Rightarrow> nat \<Rightarrow> StatusCode + 'x Variant" where
  "substring v mn mx =
     (case v of
        V_ByteString b \<Rightarrow> or_error Status_BadIndexRangeNoData (map_option V_ByteString (ByteString_substring b mn mx))
      | V_String s \<Rightarrow> or_error Status_BadIndexRangeNoData (map_option V_String (UAString_substring s mn mx))
      | _ \<Rightarrow> Inl Status_BadIndexRangeDataMismatch)"

section \<open>Reading a range\<close>

definition range_bounds :: "NumericRange \<Rightarrow> (nat \<times> nat) option" where
  "range_bounds r =
     (case r of
        NR_Index i \<Rightarrow> Some (unat i, unat i)
      | NR_Range mn mx \<Rightarrow> Some (unat mn, unat mx)
      | _ \<Rightarrow> None)"

definition is_invalid_range :: "NumericRange \<Rightarrow> bool" where
  "is_invalid_range r = (case r of NR_Invalid _ \<Rightarrow> True | _ \<Rightarrow> False)"

definition array_stored_dimensions :: "'x Variant list \<Rightarrow> u32 list option \<Rightarrow> StatusCode + nat list" where
  "array_stored_dimensions vs dims =
     (case dims of
        None \<Rightarrow> Inr [length vs]
      | Some ds \<Rightarrow>
          (if checked_dimension_product (map unat ds) = Some (length vs) then Inr (map unat ds)
           else Inl Status_BadIndexRangeNoData))"

text \<open>The bounds that a read selects in each dimension, cut at the end of the dimension, and their extents.\<close>

fun read_selection :: "NumericRange list \<Rightarrow> nat list \<Rightarrow> StatusCode + (nat \<times> nat) list \<times> u32 list" where
  "read_selection (r # rs) (d # ds) =
     (if is_invalid_range r then Inl Status_BadIndexRangeInvalid
      else case range_bounds r of
        None \<Rightarrow> Inl Status_BadIndexRangeNoData
      | Some (lo, hi) \<Rightarrow>
          (if d \<le> lo then Inl Status_BadIndexRangeNoData
           else let hi = min hi (d - 1) in
             if hi < lo then Inl Status_BadIndexRangeNoData
             else if 2 ^ 32 \<le> hi - lo + 1 then Inl Status_BadIndexRangeNoData
             else bind_result (read_selection rs ds) (\<lambda>(sel, es).
               Inr ((lo, hi) # sel, word_of_nat (hi - lo + 1) # es))))"
| "read_selection _ _ = Inr ([], [])"

definition array_range_selection :: "'x Variant list \<Rightarrow> nat list \<Rightarrow> NumericRange list \<Rightarrow> StatusCode + nat list \<times> u32 list" where
  "array_range_selection vs stored ranges =
     (if length ranges \<noteq> length stored then Inl Status_BadIndexRangeNoData
      else bind_result (read_selection ranges stored) (\<lambda>(sel, es).
        bind_result (or_error Status_BadIndexRangeNoData (row_major_indices stored sel)) (\<lambda>indices.
          if length vs < length indices \<and> checked_dimension_product stored \<noteq> Some (length vs)
          then Inl Status_BadIndexRangeNoData
          else Inr (indices, es))))"

definition gather :: "'x Variant list \<Rightarrow> nat list \<Rightarrow> StatusCode + 'x Variant list" where
  "gather vs indices =
     or_error Status_BadIndexRangeNoData (those (map (\<lambda>i. if i < length vs then Some (vs ! i) else None) indices))"

definition null_text :: "VariantScalarTypeId \<Rightarrow> 'x Variant" where
  "null_text ty = (if ty = Ty_String then V_String None else V_ByteString None)"

text \<open>The result of the outer option is \<open>None\<close> when the code panics: the conversion from a pair of a
  type and values unwraps the check of their types.\<close>

definition range_of_multiple :: "NumericRange list \<Rightarrow> 'x Variant \<Rightarrow> StatusCode + 'x Variant" where
  "range_of_multiple ranges v =
     (case v of
        V_Array ty vs dims \<Rightarrow>
          bind_result (array_stored_dimensions vs dims) (\<lambda>stored.
            if (ty = Ty_String \<or> ty = Ty_ByteString) \<and> length ranges = length stored + 1 then
              let last_range = ranges ! length stored in
              if is_invalid_range last_range then Inl Status_BadIndexRangeInvalid
              else case range_bounds last_range of
                None \<Rightarrow> Inl Status_BadIndexRangeNoData
              | Some (s_lo, s_hi) \<Rightarrow>
                  bind_result (array_range_selection vs stored (take (length stored) ranges)) (\<lambda>(indices, es).
                  bind_result (gather vs indices) (\<lambda>elements.
                    let parts = map (\<lambda>e. substring e s_lo s_hi) elements in
                    if list_all isl parts then Inl Status_BadIndexRangeNoData
                    else or_error Status_BadIndexRangeNoData
                      (Array_new_multi ty (map (case_sum (\<lambda>_. null_text ty) id) parts) es)))
            else
              bind_result (array_range_selection vs stored ranges) (\<lambda>(indices, es).
              bind_result (gather vs indices) (\<lambda>elements.
                or_error Status_BadIndexRangeNoData (Array_new_multi ty elements es))))
      | _ \<Rightarrow> Inl Status_BadIndexRangeNoData)"

definition is_multi_dimensional :: "u32 list option \<Rightarrow> bool" where
  "is_multi_dimensional dims \<longleftrightarrow> (case dims of None \<Rightarrow> False | Some ds \<Rightarrow> 1 < length ds)"

definition range_of :: "NumericRange \<Rightarrow> 'x Variant \<Rightarrow> (StatusCode + 'x Variant) option" where
  "range_of r v =
     (case r of
        NR_None \<Rightarrow> Some (Inr v)
      | NR_Invalid _ \<Rightarrow> Some (Inl Status_BadIndexRangeInvalid)
      | NR_Index i \<Rightarrow>
          (case v of
             V_Array ty vs dims \<Rightarrow>
               (if is_multi_dimensional dims then Some (Inl Status_BadIndexRangeNoData)
                else if unat i < length vs then map_option Inr (Array_new ty [vs ! unat i])
                else Some (Inl Status_BadIndexRangeNoData))
           | V_String _ \<Rightarrow> Some (substring v (unat i) (unat i))
           | V_ByteString _ \<Rightarrow> Some (substring v (unat i) (unat i))
           | _ \<Rightarrow> Some (Inl Status_BadIndexRangeDataMismatch))
      | NR_Range mn mx \<Rightarrow>
          (case v of
             V_Array ty vs dims \<Rightarrow>
               (if is_multi_dimensional dims then Some (Inl Status_BadIndexRangeNoData)
                else if length vs \<le> unat mn then Some (Inl Status_BadIndexRangeNoData)
                else case slice_inclusive (unat mn) (if length vs \<le> unat mx then length vs - 1 else unat mx) vs of
                  None \<Rightarrow> Some (Inl Status_BadIndexRangeNoData)
                | Some part \<Rightarrow> map_option Inr (Array_new ty part))
           | V_String _ \<Rightarrow> Some (substring v (unat mn) (unat mx))
           | V_ByteString _ \<Rightarrow> Some (substring v (unat mn) (unat mx))
           | _ \<Rightarrow> Some (Inl Status_BadIndexRangeDataMismatch))
      | NR_Multiple ranges \<Rightarrow> Some (range_of_multiple ranges v))"

section \<open>Writing a range\<close>

definition builtin_data_type :: "VariantScalarTypeId \<Rightarrow> ExpandedNodeId" where
  "builtin_data_type ty =
     \<lparr>node_id = NodeId_new 0 (Id_Numeric (ucast (scalar_encoding_mask ty))), namespace_uri = None, server_index = 0\<rparr>"

text \<open>An array has the data type of its first element. \<open>body_type\<close> is the type of a body.\<close>

definition scalar_data_type :: "('x \<Rightarrow> ExpandedNodeId) \<Rightarrow> 'x Variant \<Rightarrow> ExpandedNodeId option" where
  "scalar_data_type body_type v =
     (case v of
        V_ExtensionObject ob \<Rightarrow> map_option body_type ob
      | _ \<Rightarrow> (case variant_type_id v of VT_Scalar ty \<Rightarrow> Some (builtin_data_type ty) | _ \<Rightarrow> None))"

fun data_type :: "('x \<Rightarrow> ExpandedNodeId) \<Rightarrow> 'x Variant \<Rightarrow> ExpandedNodeId option" where
  "data_type body_type (V_Array _ (v # _) _) = data_type body_type v"
| "data_type body_type v = scalar_data_type body_type v"

definition substring_write_bounds :: "NumericRange \<Rightarrow> nat \<Rightarrow> StatusCode + nat \<times> nat" where
  "substring_write_bounds r len =
     (if is_invalid_range r then Inl Status_BadIndexRangeInvalid
      else case range_bounds r of
        None \<Rightarrow> Inl Status_BadIndexRangeNoData
      | Some (mn, mx) \<Rightarrow>
          (if len = 0 \<or> len \<le> mn \<or> len \<le> mx \<or> mx < mn then Inl Status_BadIndexRangeNoData else Inr (mn, mx)))"

text \<open>The bounds of the target are replaced by the same number of characters or bytes.\<close>

definition set_string_substring :: "UAString \<Rightarrow> NumericRange \<Rightarrow> 'x Variant \<Rightarrow> StatusCode + UAString" where
  "set_string_substring target r other =
     (case other of
        V_String replacement \<Rightarrow>
          (case target of
             None \<Rightarrow> Inl Status_BadIndexRangeNoData
           | Some src \<Rightarrow>
               bind_result (substring_write_bounds r (length (chars src))) (\<lambda>(mn, mx).
                 let replaced = (case replacement of None \<Rightarrow> [] | Some t \<Rightarrow> t) in
                 if length (chars replaced) \<noteq> mx - mn + 1 then Inl Status_BadIndexRangeDataMismatch
                 else Inr (Some (concat (take mn (chars src)) @ replaced @ concat (drop (mx + 1) (chars src))))))
      | _ \<Rightarrow> Inl Status_BadIndexRangeDataMismatch)"

definition set_bytestring_substring :: "ByteString \<Rightarrow> NumericRange \<Rightarrow> 'x Variant \<Rightarrow> StatusCode + ByteString" where
  "set_bytestring_substring target r other =
     (case other of
        V_ByteString replacement \<Rightarrow>
          (case target of
             None \<Rightarrow> Inl Status_BadIndexRangeNoData
           | Some src \<Rightarrow>
               bind_result (substring_write_bounds r (length src)) (\<lambda>(mn, mx).
                 let replaced = (case replacement of None \<Rightarrow> [] | Some t \<Rightarrow> t) in
                 if length replaced \<noteq> mx - mn + 1 then Inl Status_BadIndexRangeDataMismatch
                 else Inr (Some (take mn src @ replaced @ drop (mx + 1) src))))
      | _ \<Rightarrow> Inl Status_BadIndexRangeDataMismatch)"

definition Status_BadWriteNotSupported :: StatusCode where "Status_BadWriteNotSupported = 0x80730000"

text \<open>The loop over a range: to the end of the target, of the range or of the source.\<close>

fun copy_range :: "'x Variant list \<Rightarrow> 'x Variant list \<Rightarrow> nat \<Rightarrow> nat \<Rightarrow> 'x Variant list" where
  "copy_range vs [] idx mx = vs"
| "copy_range vs (w # ws) idx mx =
     (if idx < length vs \<and> idx \<le> mx then copy_range (vs[idx := w]) ws (idx + 1) mx else vs)"

fun write_selection :: "NumericRange list \<Rightarrow> nat list \<Rightarrow> StatusCode + (nat \<times> nat) list" where
  "write_selection (r # rs) (d # ds) =
     (if is_invalid_range r then Inl Status_BadIndexRangeInvalid
      else case range_bounds r of
        None \<Rightarrow> Inl Status_BadIndexRangeNoData
      | Some (lo, hi) \<Rightarrow>
          (if hi < lo then Inl Status_BadIndexRangeNoData
           else if d \<le> lo \<or> d \<le> hi then Inl Status_BadIndexRangeNoData
           else bind_result (write_selection rs ds) (\<lambda>sel. Inr ((lo, hi) # sel))))"
| "write_selection _ _ = Inr []"

text \<open>The elements are written one by one; an error in between keeps those already written.\<close>

fun write_places :: "'x Variant list \<Rightarrow> nat list \<Rightarrow> 'x Variant list \<Rightarrow> 'x Variant list \<times> (StatusCode + unit)" where
  "write_places vs [] ws = (vs, Inr ())"
| "write_places vs (i # is) ws =
     (if length vs \<le> i then (vs, Inl Status_BadIndexRangeNoData)
      else case ws of
        [] \<Rightarrow> (vs, Inl Status_BadIndexRangeDataMismatch)
      | w # ws' \<Rightarrow> write_places (vs[i := w]) is ws')"

definition write_multiple :: "'x Variant list \<Rightarrow> u32 list option \<Rightarrow> NumericRange list \<Rightarrow> 'x Variant list
    \<Rightarrow> 'x Variant list \<times> (StatusCode + unit)" where
  "write_multiple vs dims ranges ws =
     (let dest = (case dims of None \<Rightarrow> [length vs] | Some ds \<Rightarrow> map unat ds) in
      if checked_dimension_product dest \<noteq> Some (length vs) then (vs, Inl Status_BadIndexRangeNoData)
      else if length ranges \<noteq> length dest then (vs, Inl Status_BadIndexRangeNoData)
      else case write_selection ranges dest of
        Inl e \<Rightarrow> (vs, Inl e)
      | Inr sel \<Rightarrow>
          (case checked_selection_count sel of
             None \<Rightarrow> (vs, Inl Status_BadIndexRangeNoData)
           | Some n \<Rightarrow>
               (if n \<noteq> length ws then (vs, Inl Status_BadIndexRangeDataMismatch)
                else case row_major_indices dest sel of
                  None \<Rightarrow> (vs, Inl Status_BadIndexRangeNoData)
                | Some places \<Rightarrow> write_places vs places ws)))"

definition set_array_range :: "'x Variant list \<Rightarrow> u32 list option \<Rightarrow> NumericRange \<Rightarrow> 'x Variant list
    \<Rightarrow> 'x Variant list \<times> (StatusCode + unit)" where
  "set_array_range vs dims r ws =
     (case r of
        NR_None \<Rightarrow> (vs, Inl Status_BadIndexRangeNoData)
      | NR_Invalid _ \<Rightarrow> (vs, Inl Status_BadIndexRangeInvalid)
      | NR_Index i \<Rightarrow>
          (if length vs \<le> unat i \<or> ws = [] then (vs, Inl Status_BadIndexRangeNoData)
           else (vs[unat i := hd ws], Inr ()))
      | NR_Range mn mx \<Rightarrow>
          (if length vs \<le> unat mn then (vs, Inl Status_BadIndexRangeNoData)
           else (copy_range vs ws (unat mn) (unat mx), Inr ()))
      | NR_Multiple ranges \<Rightarrow> write_multiple vs dims ranges ws)"

text \<open>The value after the write, and its result.\<close>

definition set_range_of :: "('x \<Rightarrow> ExpandedNodeId) \<Rightarrow> 'x Variant \<Rightarrow> NumericRange \<Rightarrow> 'x Variant
    \<Rightarrow> 'x Variant \<times> (StatusCode + unit)" where
  "set_range_of body_type v r other =
     (if data_type body_type v \<noteq> data_type body_type other then (v, Inl Status_BadIndexRangeDataMismatch)
      else case v of
        V_String target \<Rightarrow>
          (case set_string_substring target r other of Inl e \<Rightarrow> (v, Inl e) | Inr s \<Rightarrow> (V_String s, Inr ()))
      | V_ByteString target \<Rightarrow>
          (case set_bytestring_substring target r other of Inl e \<Rightarrow> (v, Inl e) | Inr b \<Rightarrow> (V_ByteString b, Inr ()))
      | V_Array ty vs dims \<Rightarrow>
          (case other of
             V_Array _ ws _ \<Rightarrow>
               (case set_array_range vs dims r ws of (vs', result) \<Rightarrow> (V_Array ty vs' dims, result))
           | _ \<Rightarrow> (v, Inl Status_BadIndexRangeNoData))
      | _ \<Rightarrow> (v, Inl Status_BadWriteNotSupported))"

section \<open>Several ranges\<close>

lemma try_product_exact: "try_product ds p = Some n \<Longrightarrow> p < 2 ^ 64 \<Longrightarrow> n = p * prod_list ds \<and> n < 2 ^ 64"
  by (induction ds p rule: try_product.induct) (auto simp: checked_mul_def bind_eq_Some_conv split: if_splits)

lemma dimension_product_exact:
  "checked_dimension_product ds = Some n \<Longrightarrow> ds \<noteq> [] \<Longrightarrow> n = prod_list ds \<and> n < 2 ^ 64"
  unfolding checked_dimension_product_def by (auto dest: try_product_exact split: if_splits)

lemma write_selection_within:
  "write_selection rs ds = Inr sel \<Longrightarrow> length rs = length ds \<Longrightarrow> selection_within ds sel"
proof (induction rs ds arbitrary: sel rule: write_selection.induct)
  case (1 r rs d ds)
  then show ?case
    by (auto simp: selection_within_def bind_result_def split: if_splits option.splits sum.splits)
qed (auto simp: selection_within_def)

lemma read_of_write_selection:
  "write_selection rs ds = Inr sel \<Longrightarrow> length rs = length ds \<Longrightarrow> list_all (\<lambda>d. d < 2 ^ 32) ds \<Longrightarrow>
   read_selection rs ds = Inr (sel, map word_of_nat (extents sel))"
proof (induction rs ds arbitrary: sel rule: write_selection.induct)
  case (1 r rs d ds)
  then show ?case
    by (auto simp: extents_def bind_result_def Suc_diff_le split: if_splits option.splits sum.splits)
qed (auto simp: extents_def)

lemma write_places_distinct:
  "length is = length ws \<Longrightarrow> distinct is \<Longrightarrow> list_all (\<lambda>i. i < length vs) is \<Longrightarrow>
   \<exists>vs'. write_places vs is ws = (vs', Inr ()) \<and> length vs' = length vs \<and> map ((!) vs') is = ws
     \<and> (\<forall>j. j \<notin> set is \<longrightarrow> vs' ! j = vs ! j)"
proof (induction vs "is" ws rule: write_places.induct)
  case (2 vs i "is" ws)
  then obtain w ws' where ws: "ws = w # ws'" by (cases ws) auto
  with 2 obtain vs' where "write_places (vs[i := w]) is ws' = (vs', Inr ())" "length vs' = length vs"
    "map ((!) vs') is = ws'" "\<forall>j. j \<notin> set is \<longrightarrow> vs' ! j = vs[i := w] ! j"
    by fastforce
  with 2(3,4) ws show ?case by auto
qed simp

lemma gather_within: "list_all (\<lambda>i. i < length vs) is \<Longrightarrow> gather vs is = Inr (map ((!) vs) is)"
proof -
  have "list_all (\<lambda>i. i < length vs) is \<Longrightarrow>
      those (map (\<lambda>i. if i < length vs then Some (vs ! i) else None) is) = Some (map ((!) vs) is)"
    by (induction "is") simp_all
  then show "list_all (\<lambda>i. i < length vs) is \<Longrightarrow> gather vs is = Inr (map ((!) vs) is)"
    by (simp add: gather_def or_error_def)
qed

definition target_dimensions :: "'x Variant list \<Rightarrow> u32 list option \<Rightarrow> nat list" where
  "target_dimensions vs dims = (case dims of None \<Rightarrow> [length vs] | Some ds \<Rightarrow> map unat ds)"

lemma row_major_indices_length:
  assumes "selection_within dims sel" "prod_list dims < 2 ^ 64 \<or> dims = []" "checked_selection_count sel = Some n"
  shows "\<exists>places. row_major_indices dims sel = Some places \<and> length places = n \<and> distinct places
    \<and> list_all (\<lambda>i. i < prod_list dims) places \<and> (sel = [] \<longrightarrow> places = []) \<and> (sel \<noteq> [] \<longrightarrow> n = prod_list (extents sel))"
proof (cases "sel = []")
  case True
  with assms show ?thesis
    by (simp add: selection_within_def row_major_indices_def row_major_strides_def checked_selection_count_def)
next
  case False
  have "dims \<noteq> []" using assms(1) False by (auto simp: selection_within_def)
  with assms(2) have p: "prod_list dims < 2 ^ 64" by simp
  have "checked_selection_count sel = Some (prod_list (extents sel))"
    using selection_count_ok [OF assms(1), of 1] extents_le [OF assms(1)] False p by (simp add: checked_selection_count_def)
  with assms(3) row_major_indices_places [OF assms(1) False p] False show ?thesis
    by (simp add: length_positions)
qed

text \<open>A write of several ranges either leaves the elements alone and fails, or puts the source at the
  places of the selection.\<close>

lemma write_multiple_cases:
  obtains (error) e where "write_multiple vs dims rs ws = (vs, Inl e)"
  | (ok) vs' sel places where "write_multiple vs dims rs ws = (vs', Inr ())" "length vs' = length vs"
      "length rs = length (target_dimensions vs dims)"
      "checked_dimension_product (target_dimensions vs dims) = Some (length vs)"
      "write_selection rs (target_dimensions vs dims) = Inr sel"
      "row_major_indices (target_dimensions vs dims) sel = Some places"
      "list_all (\<lambda>i. i < length vs) places" "map ((!) vs') places = ws"
      "\<forall>j. j \<notin> set places \<longrightarrow> vs' ! j = vs ! j"
      "sel \<noteq> [] \<longrightarrow> length ws = prod_list (extents sel)" "sel = [] \<longrightarrow> ws = []"
proof -
  let ?d = "target_dimensions vs dims"
  note unf = write_multiple_def target_dimensions_def [symmetric] Let_def
  have "(\<exists>e. write_multiple vs dims rs ws = (vs, Inl e))
      \<or> (\<exists>sel. checked_dimension_product ?d = Some (length vs) \<and> length rs = length ?d
          \<and> write_selection rs ?d = Inr sel \<and> checked_selection_count sel = Some (length ws))"
    unfolding unf by (simp split: sum.split option.split)
  then consider (bad) e where "write_multiple vs dims rs ws = (vs, Inl e)"
    | (good) sel where "checked_dimension_product ?d = Some (length vs)" "length rs = length ?d"
      "write_selection rs ?d = Inr sel" "checked_selection_count sel = Some (length ws)"
    by blast
  then show ?thesis
  proof cases
    case bad
    then show ?thesis by (rule error)
  next
    case good
    have within: "selection_within ?d sel" by (rule write_selection_within [OF good(3,2)])
    have p: "prod_list ?d < 2 ^ 64 \<or> ?d = []" using dimension_product_exact [OF good(1)] by auto
    obtain places where places: "row_major_indices ?d sel = Some places" "length places = length ws" "distinct places"
      "list_all (\<lambda>i. i < prod_list ?d) places" "sel = [] \<longrightarrow> places = []" "sel \<noteq> [] \<longrightarrow> length ws = prod_list (extents sel)"
      using row_major_indices_length [OF within p good(4)] by auto
    have lt: "list_all (\<lambda>i. i < length vs) places"
    proof (cases "sel = []")
      case False
      then have "?d \<noteq> []" using within by (auto simp: selection_within_def)
      then show ?thesis using dimension_product_exact [OF good(1)] places(4) by simp
    qed (use places(5) in simp)
    obtain vs' where vs': "write_places vs places ws = (vs', Inr ())" "length vs' = length vs"
      "map ((!) vs') places = ws" "\<forall>j. j \<notin> set places \<longrightarrow> vs' ! j = vs ! j"
      using write_places_distinct [OF places(2,3) lt] by blast
    have "write_multiple vs dims rs ws = (vs', Inr ())"
      using good places(1) vs'(1) unfolding unf by simp
    then show ?thesis
      using vs' good places lt by (intro ok [of vs' sel places]) auto
  qed
qed

lemma validate_extents:
  assumes "list_all (\<lambda>e. e < 2 ^ 32) es" "es \<noteq> [] \<longrightarrow> n = prod_list es" "es = [] \<longrightarrow> n = 0"
  shows "validate_dimensions n (map word_of_nat es)"
proof -
  have *: "prod_list (map (ucast \<circ> (word_of_nat :: nat \<Rightarrow> u32)) es) = (word_of_nat (prod_list es) :: u64)"
    using assms(1) by (induction es) (simp_all add: unsigned_of_nat take_bit_nat_eq_self)
  then show ?thesis
    using assms(2,3) by (cases es) (simp_all add: validate_dimensions_def foldl_times comp_def)
qed

lemma extents_small: "selection_within ds sel \<Longrightarrow> list_all (\<lambda>d. d < 2 ^ 32) ds \<Longrightarrow> list_all (\<lambda>e. e < 2 ^ 32) (extents sel)"
  unfolding selection_within_def by (induction rule: list_all2_induct) (auto simp: extents_def)

text \<open>The number of elements that each range selects.\<close>

definition range_extents :: "NumericRange list \<Rightarrow> u32 list" where
  "range_extents rs =
     map (\<lambda>r. case range_bounds r of None \<Rightarrow> 0 | Some (lo, hi) \<Rightarrow> word_of_nat (hi - lo + 1)) rs"

lemma range_extents_selection:
  "write_selection rs ds = Inr sel \<Longrightarrow> length rs = length ds \<Longrightarrow> range_extents rs = map word_of_nat (extents sel)"
proof (induction rs ds arbitrary: sel rule: write_selection.induct)
  case (1 r rs d ds)
  then show ?case
    by (auto simp: extents_def range_extents_def bind_result_def Suc_diff_le split: if_splits option.splits sum.splits)
qed (auto simp: extents_def range_extents_def)

text \<open>C10: a write of several ranges reads back. When the write of an array into a selection of an
  array succeeds, reading the same ranges gives the elements that were written, with the sizes of the
  ranges as dimensions.\<close>

theorem multi_range_write_reads_back:
  assumes written: "set_range_of body_type (V_Array ty vs dims) (NR_Multiple rs) (V_Array ty ws wdims) = (v', Inr ())"
    and types: "values_are_of_type ws ty" and size: "length vs < 2 ^ 32"
  shows "range_of (NR_Multiple rs) v' = Some (Inr (V_Array ty ws (Some (range_extents rs))))"
proof -
  let ?d = "target_dimensions vs dims"
  obtain us where us: "write_multiple vs dims rs ws = (us, Inr ())" "v' = V_Array ty us dims"
    using written by (auto simp: set_range_of_def set_array_range_def split: if_splits prod.splits)
  then obtain sel places where ok: "length us = length vs" "length rs = length ?d"
    "checked_dimension_product ?d = Some (length vs)" "write_selection rs ?d = Inr sel"
    "row_major_indices ?d sel = Some places" "list_all (\<lambda>i. i < length vs) places" "map ((!) us) places = ws"
    "sel \<noteq> [] \<longrightarrow> length ws = prod_list (extents sel)" "sel = [] \<longrightarrow> ws = []"
    by (cases rule: write_multiple_cases [of vs dims rs ws]) auto
  have small: "list_all (\<lambda>d. d < 2 ^ 32) ?d"
    using size unat_u32 by (auto simp: target_dimensions_def list_all_iff split: option.split)
  have "validate_dimensions (length ws) (range_extents rs)"
    unfolding range_extents_selection [OF ok(4,2)]
    using extents_small [OF write_selection_within [OF ok(4,2)] small] ok(8,9)
    by (intro validate_extents) (auto simp: extents_def)
  with types have result: "Array_new_multi ty ws (range_extents rs) = Some (V_Array ty ws (Some (range_extents rs)))"
    by (simp add: Array_new_multi_def)
  have "array_stored_dimensions us dims = Inr ?d"
    using ok(1,3) by (auto simp: array_stored_dimensions_def target_dimensions_def split: option.splits)
  moreover have "array_range_selection us ?d rs = Inr (places, range_extents rs)"
    using ok read_of_write_selection [OF ok(4,2) small] range_extents_selection [OF ok(4,2)]
    by (simp add: array_range_selection_def or_error_def)
  moreover have "gather us places = Inr ws" using gather_within [of us places] ok(1,6,7) by simp
  ultimately show ?thesis
    using ok(2) us(2) result by (simp add: range_of_def range_of_multiple_def or_error_def)
qed

definition example_matrix :: "ByteStringBody Variant" where
  "example_matrix = V_Array Ty_Byte (map V_Byte [1, 2, 3, 4, 5, 6]) (Some [2, 3])"

definition example_body_type :: "ByteStringBody \<Rightarrow> ExpandedNodeId" where
  "example_body_type b = \<lparr>node_id = fst b, namespace_uri = None, server_index = 0\<rparr>"

lemma multi_range_write_reads_back_witness:
  "range_of (NR_Multiple [NR_Range 0 1, NR_Index 2])
     (fst (set_range_of example_body_type example_matrix (NR_Multiple [NR_Range 0 1, NR_Index 2])
       (V_Array Ty_Byte [V_Byte 8, V_Byte 9] None)))
   = Some (Inr (V_Array Ty_Byte [V_Byte 8, V_Byte 9] (Some [2, 1])))"
proof -
  have "positions [(0, 1), (2, 2)] = [[0, 2], [1, 2]]" by code_simp
  then have "row_major_indices [2, 3] [(0, 1), (2, 2)] = Some [2, 5]"
    using row_major_indices_places [of "[2, 3]" "[(0, 1), (2, 2)]"] by (simp add: selection_within_def)
  then have written: "set_range_of example_body_type (V_Array Ty_Byte (map V_Byte [1, 2, 3, 4, 5, 6]) (Some [2, 3]))
      (NR_Multiple [NR_Range 0 1, NR_Index 2]) (V_Array Ty_Byte [V_Byte 8, V_Byte 9] None)
    = (V_Array Ty_Byte (map V_Byte [1, 2, 8, 4, 5, 9]) (Some [2, 3]), Inr ())"
    by (simp add: set_range_of_def scalar_data_type_def set_array_range_def write_multiple_def checked_dimension_product_def
        checked_mul_def checked_selection_count_def checked_add_def is_invalid_range_def range_bounds_def)
  from multi_range_write_reads_back [OF this] show ?thesis
    unfolding example_matrix_def written fst_conv
    by (simp add: values_are_of_type_def range_extents_def range_bounds_def)
qed

section \<open>Reads are typed\<close>

definition typed_array :: "'x Variant \<Rightarrow> bool" where
  "typed_array v = (case v of V_Array ty vs _ \<Rightarrow> values_are_of_type vs ty | _ \<Rightarrow> True)"

fun type_of_part :: "'x Variant \<Rightarrow> 'x Variant \<Rightarrow> bool" where
  "type_of_part (V_Array ty _ _) (V_Array ty' _ _) \<longleftrightarrow> ty = ty'"
| "type_of_part v v' \<longleftrightarrow> variant_type_id v = variant_type_id v'"

lemma values_of_type_subset: "values_are_of_type vs ty \<Longrightarrow> set ws \<subseteq> set vs \<Longrightarrow> values_are_of_type ws ty"
  by (auto simp: values_are_of_type_def list_all_iff)

lemma slice_subset: "slice_inclusive mn mx xs = Some ys \<Longrightarrow> set ys \<subseteq> set xs"
  by (auto simp: slice_inclusive_def split: if_splits dest: in_set_takeD in_set_dropD)

lemma new_multi_typed: "Array_new_multi ty vs es = Some v \<Longrightarrow> v = V_Array ty vs (Some es) \<and> typed_array v"
  by (auto simp: Array_new_multi_def typed_array_def split: if_splits)

lemma multiple_typed:
  "range_of_multiple rs v = Inr v' \<Longrightarrow> typed_array v' \<and> type_of_part v v'"
  by (cases v)
    (auto simp: range_of_multiple_def bind_result_def or_error_def Let_def dest!: new_multi_typed
      split: sum.splits option.splits if_splits prod.splits)

lemma substring_typed: "substring v mn mx = Inr v' \<Longrightarrow> typed_array v' \<and> type_of_part v v'"
  by (cases v) (auto simp: substring_def or_error_def typed_array_def split: option.splits)

text \<open>C26: a read of a range returns a value of the type of what is read. When the elements of an array
  have the type of the array the read does not panic in a conversion, for no range; and what it returns is an array of
  the same type whose elements have it, or the same type of string.\<close>

theorem range_read_is_typed:
  assumes "typed_array v"
  shows "case range_of r v of
      None \<Rightarrow> False
    | Some (Inl _) \<Rightarrow> True
    | Some (Inr v') \<Rightarrow> typed_array v' \<and> type_of_part v v'"
proof (cases "\<exists>ty vs dims. v = V_Array ty vs dims")
  case True
  then obtain ty vs dims where v: "v = V_Array ty vs dims" by blast
  have new: "Array_new ty ws = Some (V_Array ty ws None)" "values_are_of_type ws ty" if "set ws \<subseteq> set vs" for ws
    using values_of_type_subset [OF _ that] assms v by (simp_all add: Array_new_def typed_array_def)
  show ?thesis
  proof (cases r)
    case (NR_Index i)
    then show ?thesis
      using v new [of "[vs ! unat i]"] by (simp add: range_of_def typed_array_def)
  next
    case (NR_Range mn mx)
    show ?thesis
    proof (cases "slice_inclusive (unat mn) (if length vs \<le> unat mx then length vs - 1 else unat mx) vs")
      case None
      with v NR_Range show ?thesis by (simp add: range_of_def)
    next
      case (Some part)
      with v NR_Range new [OF slice_subset [OF Some]] show ?thesis by (simp add: range_of_def typed_array_def)
    qed
  next
    case (NR_Multiple rs)
    then show ?thesis
      using multiple_typed [of rs v] by (simp add: range_of_def split: sum.split)
  qed (use assms v in \<open>simp_all add: range_of_def typed_array_def\<close>)
next
  case False
  then have self: "type_of_part v v" by (cases v) simp_all
  show ?thesis
  proof (cases r)
    case (NR_Index i)
    then show ?thesis
      using False substring_typed [of v "unat i" "unat i"] by (cases v) (simp_all add: range_of_def split: sum.split)
  next
    case (NR_Range mn mx)
    then show ?thesis
      using False substring_typed [of v "unat mn" "unat mx"] by (cases v) (simp_all add: range_of_def split: sum.split)
  next
    case (NR_Multiple rs)
    then show ?thesis
      using multiple_typed [of rs v] by (simp add: range_of_def split: sum.split)
  qed (use assms self in \<open>simp_all add: range_of_def\<close>)
qed

lemma range_read_is_typed_witness:
  "case range_of (NR_Range 1 9) (V_Array Ty_Byte (map V_Byte [1, 2, 3]) None :: ByteStringBody Variant) of
      None \<Rightarrow> False
    | Some (Inl _) \<Rightarrow> True
    | Some (Inr v') \<Rightarrow> typed_array v' \<and> type_of_part (V_Array Ty_Byte (map V_Byte [1, 2, 3]) None) v'"
  by (rule range_read_is_typed) (simp add: typed_array_def values_are_of_type_def)

section \<open>A failed write changes nothing\<close>

definition text_ok :: "'x Variant \<Rightarrow> bool" where
  "text_ok v = (case v of V_String (Some s) \<Rightarrow> utf8_valid s | _ \<Rightarrow> True)"

definition variant_size :: "'x Variant \<Rightarrow> nat" where
  "variant_size v =
     (case v of
        V_String (Some s) \<Rightarrow> length (chars s)
      | V_ByteString (Some b) \<Rightarrow> length b
      | V_Array _ vs _ \<Rightarrow> length vs
      | _ \<Rightarrow> 0)"

definition is_char :: "bytes \<Rightarrow> bool" where
  "is_char c \<longleftrightarrow> c \<noteq> [] \<and> \<not> utf8_cont (hd c) \<and> list_all utf8_cont (tl c)"

lemma concat_chars: "concat (chars s) = s"
  by (induction s rule: chars.induct) simp_all

lemma chars_are_chars: "s = [] \<or> \<not> utf8_cont (hd s) \<Longrightarrow> list_all is_char (chars s)"
proof (induction s rule: chars.induct)
  case (2 b bs)
  have "dropWhile utf8_cont bs = [] \<or> \<not> utf8_cont (hd (dropWhile utf8_cont bs))"
    using hd_dropWhile [of utf8_cont bs] by blast
  from 2(1) [OF this] have "list_all is_char (chars (dropWhile utf8_cont bs))" .
  moreover have "list_all utf8_cont (takeWhile utf8_cont bs)" by (simp only: list_all_iff) (blast dest: set_takeWhileD)
  then have "is_char (b # takeWhile utf8_cont bs)" using 2(2) by (simp only: is_char_def list.sel list.distinct simp_thms)
  ultimately show ?case by simp
qed simp

lemma utf8_cont_range: "utf8_cont b \<Longrightarrow> 128 \<le> b \<and> b < 192"
  by (simp add: utf8_cont_def word_le_nat_alt word_less_nat_alt)

lemma chars_valid: "utf8_valid s \<Longrightarrow> list_all is_char (chars s)"
proof (rule chars_are_chars)
  assume valid: "utf8_valid s"
  show "s = [] \<or> \<not> utf8_cont (hd s)"
  proof (cases s)
    case (Cons c cs)
    have "\<not> utf8_cont c"
      using utf8_valid_first [of c cs] utf8_cont_range [of c] valid [unfolded Cons] by blast
    then show ?thesis by (simp only: Cons list.sel simp_thms)
  qed simp
qed

lemma chars_concat: "list_all is_char cs \<Longrightarrow> chars (concat cs) = cs"
proof (induction cs)
  case (Cons c cs)
  then obtain b bs where c: "c = b # bs" "\<not> utf8_cont b" "list_all utf8_cont bs"
    by (cases c) (auto simp: is_char_def)
  have "takeWhile utf8_cont (concat cs) = [] \<and> dropWhile utf8_cont (concat cs) = concat cs"
    using Cons.prems by (cases cs) (auto simp: is_char_def neq_Nil_conv)
  moreover have "takeWhile utf8_cont (bs @ concat cs) = bs @ takeWhile utf8_cont (concat cs)"
    "dropWhile utf8_cont (bs @ concat cs) = dropWhile utf8_cont (concat cs)"
    using c(3) by (simp_all add: list_all_iff takeWhile_append2 dropWhile_append2)
  ultimately show ?case using Cons c(1) by simp
qed simp

lemma substring_bounds:
  "substring_write_bounds r len = Inr (mn, mx) \<Longrightarrow> mn \<le> mx \<and> mx < len \<and> range_bounds r = Some (mn, mx)"
  by (auto simp: substring_write_bounds_def split: if_splits option.splits)

lemma set_string_cases:
  assumes "set_string_substring target r other = Inr s'" "text_ok (V_String target :: 'x Variant)" "text_ok (other :: 'x Variant)"
  obtains src new mn mx where "target = Some src" "other = V_String (Some new)" "range_bounds r = Some (mn, mx)"
    "mn \<le> mx" "mx < length (chars src)" "length (chars new) = mx - mn + 1"
    "s' = Some (concat (take mn (chars src)) @ new @ concat (drop (mx + 1) (chars src)))"
    "chars (the s') = take mn (chars src) @ chars new @ drop (mx + 1) (chars src)"
proof -
  obtain src repl mn mx where b: "target = Some src" "other = V_String repl"
    "substring_write_bounds r (length (chars src)) = Inr (mn, mx)"
    "length (chars (case repl of None \<Rightarrow> [] | Some t \<Rightarrow> t)) = mx - mn + 1"
    "s' = Some (concat (take mn (chars src)) @ (case repl of None \<Rightarrow> [] | Some t \<Rightarrow> t) @ concat (drop (mx + 1) (chars src)))"
    using assms(1)
    by (auto simp: set_string_substring_def bind_result_def Let_def split: Variant.splits option.splits sum.splits if_splits)
  then obtain new where new: "repl = Some new" by (cases repl) auto
  have valid: "list_all is_char (chars src)" "list_all is_char (chars new)"
    using assms(2,3) b(1,2) new by (simp_all add: text_ok_def chars_valid)
  let ?cs = "take mn (chars src) @ chars new @ drop (mx + 1) (chars src)"
  have "list_all is_char ?cs" using valid by (auto simp: list_all_iff dest: in_set_takeD in_set_dropD)
  then have "chars (concat ?cs) = ?cs" by (rule chars_concat)
  then show ?thesis
    using b substring_bounds [OF b(3)] new by (intro that [of src new mn mx]) (simp_all add: concat_chars)
qed

lemma set_bytestring_cases:
  assumes "set_bytestring_substring target r other = Inr b'"
  obtains src new mn mx where "target = Some src" "other = V_ByteString (Some new)" "range_bounds r = Some (mn, mx)"
    "mn \<le> mx" "mx < length src" "length new = mx - mn + 1" "b' = Some (take mn src @ new @ drop (mx + 1) src)"
proof -
  obtain src repl mn mx where b: "target = Some src" "other = V_ByteString repl"
    "substring_write_bounds r (length src) = Inr (mn, mx)"
    "length (case repl of None \<Rightarrow> [] | Some t \<Rightarrow> t) = mx - mn + 1"
    "b' = Some (take mn src @ (case repl of None \<Rightarrow> [] | Some t \<Rightarrow> t) @ drop (mx + 1) src)"
    using assms
    by (auto simp: set_bytestring_substring_def bind_result_def Let_def split: Variant.splits option.splits sum.splits if_splits)
  then obtain new where "repl = Some new" by (cases repl) auto
  with b substring_bounds [OF b(3)] show ?thesis by (intro that [of src new mn mx]) simp_all
qed

lemma copy_range_length [simp]: "length (copy_range vs ws idx mx) = length vs"
  by (induction vs ws idx mx rule: copy_range.induct) simp_all

lemma set_array_range_error: "set_array_range vs dims r ws = (vs', Inl e) \<Longrightarrow> vs' = vs"
proof (cases r)
  case (NR_Multiple rs)
  assume "set_array_range vs dims r ws = (vs', Inl e)"
  with NR_Multiple show ?thesis
    by (cases rule: write_multiple_cases [of vs dims rs ws]) (auto simp: set_array_range_def)
qed (auto simp: set_array_range_def split: if_splits)

lemma set_array_range_length: "set_array_range vs dims r ws = (vs', Inr u) \<Longrightarrow> length vs' = length vs"
proof (cases r)
  case (NR_Multiple rs)
  assume "set_array_range vs dims r ws = (vs', Inr u)"
  with NR_Multiple show ?thesis
    by (cases rule: write_multiple_cases [of vs dims rs ws]) (auto simp: set_array_range_def)
qed (auto simp: set_array_range_def split: if_splits)

lemma set_range_of_error: "set_range_of body_type v r w = (v', Inl e) \<Longrightarrow> v' = v"
  by (cases v) (auto simp: set_range_of_def split: if_splits sum.splits Variant.splits prod.splits dest: set_array_range_error)

lemma set_range_of_shape:
  assumes "set_range_of body_type v r w = (v', Inr u)" "text_ok v" "text_ok w"
  shows "variant_type_id v' = variant_type_id v \<and> variant_size v' = variant_size v"
proof (cases v)
  case (V_String target)
  with assms(1) obtain s' where s': "set_string_substring target r w = Inr s'" "v' = V_String s'"
    by (auto simp: set_range_of_def split: if_splits sum.splits)
  show ?thesis
    using assms(2) by (cases rule: set_string_cases [OF s'(1)]) (use V_String assms s' in \<open>auto simp: variant_size_def\<close>)
next
  case (V_ByteString target)
  with assms(1) obtain b' where b': "set_bytestring_substring target r w = Inr b'" "v' = V_ByteString b'"
    by (auto simp: set_range_of_def split: if_splits sum.splits)
  from b'(1) show ?thesis
    by (cases rule: set_bytestring_cases) (use V_ByteString b' in \<open>auto simp: variant_size_def\<close>)
next
  case (V_Array ty vs dims)
  with assms(1) obtain ws vs' where "set_array_range vs dims r ws = (vs', Inr u)" "v' = V_Array ty vs' dims"
    by (auto simp: set_range_of_def split: if_splits Variant.splits prod.splits)
  with V_Array set_array_range_length [of vs dims r ws vs' u] show ?thesis by (simp add: variant_size_def)
qed (use assms in \<open>auto simp: set_range_of_def split: if_splits\<close>)

text \<open>C21: a write to a range fails as a whole or keeps the shape. Whatever the target, the range and
  the source: when the write reports an error the target is as it was before, also when several ranges
  are written one element after the other; when it succeeds the target has the same type, the same
  dimensions and as many elements, characters or bytes as before.\<close>

theorem range_write_is_atomic:
  assumes "text_ok v" "text_ok w"
  shows "case set_range_of body_type v r w of
      (v', Inl e) \<Rightarrow> v' = v
    | (v', Inr _) \<Rightarrow> variant_type_id v' = variant_type_id v \<and> variant_size v' = variant_size v"
  using assms set_range_of_error set_range_of_shape by (simp split: prod.split sum.split) blast

lemma range_write_is_atomic_witness:
  "case set_range_of example_body_type (V_String (Some [0x61, 0x62])) (NR_Range 1 2) (V_String (Some [0x63])) of
     (v', Inl e) \<Rightarrow> v' = V_String (Some [0x61, 0x62])
   | (v', Inr _) \<Rightarrow> variant_type_id v' = variant_type_id (V_String (Some [0x61, 0x62]) :: ByteStringBody Variant)
       \<and> variant_size v' = variant_size (V_String (Some [0x61, 0x62]) :: ByteStringBody Variant)"
  by (rule range_write_is_atomic) (simp_all add: text_ok_def)

text \<open>A substring write reads back. When a part of a string or of a byte string is replaced,
  reading the same range gives the replacement.\<close>

theorem substring_write_reads_back:
  assumes "set_range_of body_type v r w = (v', Inr u)" "text_ok v" "text_ok w" "\<not> is_array v"
  shows "range_of r v' = Some (Inr w)"
proof (cases v)
  case (V_String target)
  then obtain s' where s': "set_string_substring target r w = Inr s'" "v' = V_String s'"
    using assms(1) by (auto simp: set_range_of_def split: if_splits sum.splits)
  obtain src new mn mx where c: "w = V_String (Some new)" "range_bounds r = Some (mn, mx)" "mn \<le> mx"
    "mx < length (chars src)" "length (chars new) = mx - mn + 1" "s' = Some (the s')"
    "chars (the s') = take mn (chars src) @ chars new @ drop (mx + 1) (chars src)"
    using set_string_cases [OF s'(1) assms(2) [unfolded V_String] assms(3)] by (metis option.sel)
  obtain t where t: "s' = Some t" using c(6) by blast
  have "drop mn (chars t) = chars new @ drop (mx + 1) (chars src)" "mx < length (chars t)"
    using c(3-5) c(7) [unfolded t option.sel] by simp_all
  then have "substring v' mn mx = Inr w"
    using c(1,3,5) s'(2) t by (simp add: substring_def UAString_substring_def or_error_def concat_chars)
  then show ?thesis
    using c(2) s'(2) by (cases r) (auto simp: range_of_def range_bounds_def)
next
  case (V_ByteString target)
  then obtain b' where b': "set_bytestring_substring target r w = Inr b'" "v' = V_ByteString b'"
    using assms(1) by (auto simp: set_range_of_def split: if_splits sum.splits)
  from b'(1) obtain src new mn mx where c: "w = V_ByteString (Some new)" "range_bounds r = Some (mn, mx)" "mn \<le> mx"
    "mx < length src" "length new = mx - mn + 1" "b' = Some (take mn src @ new @ drop (mx + 1) src)"
    by (cases rule: set_bytestring_cases)
  then have "substring v' mn mx = Inr w"
    using b'(2) by (simp add: substring_def ByteString_substring_def slice_inclusive_def or_error_def) arith
  then show ?thesis
    using c(2) b'(2) by (cases r) (auto simp: range_of_def range_bounds_def)
qed (use assms in \<open>auto simp: set_range_of_def is_array_def split: if_splits\<close>)

lemma substring_write_reads_back_witness:
  "range_of (NR_Range 1 2) (V_ByteString (Some [1, 8, 9, 4]) :: ByteStringBody Variant) = Some (Inr (V_ByteString (Some [8, 9])))"
proof -
  have "set_range_of example_body_type (V_ByteString (Some [1, 2, 3, 4])) (NR_Range 1 2) (V_ByteString (Some [8, 9]))
      = (V_ByteString (Some [1, 8, 9, 4]), Inr ())"
    by (simp add: set_range_of_def scalar_data_type_def set_bytestring_substring_def substring_write_bounds_def
        is_invalid_range_def range_bounds_def)
  from substring_write_reads_back [OF this] show ?thesis by (simp add: text_ok_def is_array_def)
qed

section \<open>A single range and a matrix\<close>

text \<open>A single range is written where it cannot be read. A write of one range goes into the
  elements of a matrix as they are stored, while reading the same range of the matrix is refused; and a
  source that is shorter than the range is written as far as it goes, with success.\<close>

theorem flat_write_into_matrix:
  "set_range_of example_body_type example_matrix (NR_Range 1 4) (V_Array Ty_Byte [V_Byte 8, V_Byte 9] None)
     = (V_Array Ty_Byte (map V_Byte [1, 8, 9, 4, 5, 6]) (Some [2, 3]), Inr ())
   \<and> range_of (NR_Range 1 4) example_matrix = Some (Inl Status_BadIndexRangeNoData)"
  by (simp add: set_range_of_def set_array_range_def scalar_data_type_def example_matrix_def range_of_def is_multi_dimensional_def)

end
