(* ===== verification/Variable_Values.thy ===== *)
theory Variable_Values
  imports Variant_Ranges Access_Control Monitored_Items
begin

text \<open>
  The value of a variable node: \<open>value\<close>, \<open>set_value_range\<close> and the encodings of
  \<open>async-opcua-nodes/src/variable.rs\<close>, and the write of a value of \<open>write_node_value\<close> in
  \<open>async-opcua-server/src/address_space/utils.rs\<close>. The encoders of a structure in XML and JSON are
  generated code and a parameter.
\<close>

record 'x Variable =
  var_data_type :: NodeId
  var_value_rank :: i32
  var_value :: "'x Data_Values.DataValue"

section \<open>Reading\<close>

definition Status_BadDataEncodingUnsupported :: StatusCode where "Status_BadDataEncodingUnsupported = 0x80390000"

text \<open>The first element that cannot be encoded ends the loop.\<close>

fun encode_elements :: "('x option \<Rightarrow> StatusCode + 'x option) \<Rightarrow> 'x Data_Values.Variant list \<Rightarrow> StatusCode + 'x Data_Values.Variant list" where
  "encode_elements encode_object [] = Inr []"
| "encode_elements encode_object (v # vs) =
     (case v of
        V_ExtensionObject ob \<Rightarrow>
          bind_result (encode_object ob) (\<lambda>ob'.
          bind_result (encode_elements encode_object vs) (\<lambda>vs'. Inr (V_ExtensionObject ob' # vs')))
      | _ \<Rightarrow> Inl Status_BadDataEncodingUnsupported)"

definition encode_extension_object_values :: "('x option \<Rightarrow> StatusCode + 'x option) \<Rightarrow> 'x Data_Values.Variant \<Rightarrow> StatusCode + 'x Data_Values.Variant" where
  "encode_extension_object_values encode_object v =
     (case v of
        V_ExtensionObject ob \<Rightarrow> bind_result (encode_object ob) (\<lambda>ob'. Inr (V_ExtensionObject ob'))
      | V_Array ty vs dims \<Rightarrow>
          (if ty = Ty_ExtensionObject
           then bind_result (encode_elements encode_object vs) (\<lambda>vs'. Inr (V_Array ty vs' dims))
           else Inl Status_BadDataEncodingUnsupported)
      | _ \<Rightarrow> Inl Status_BadDataEncodingUnsupported)"

definition encode_value_for_data_encoding ::
    "(DataEncoding \<Rightarrow> 'x option \<Rightarrow> StatusCode + 'x option) \<Rightarrow> 'x Data_Values.Variant \<Rightarrow> DataEncoding \<Rightarrow> StatusCode + 'x Data_Values.Variant" where
  "encode_value_for_data_encoding encode_object v enc =
     (case enc of
        Encoding_Binary \<Rightarrow> Inr v
      | Encoding_Other _ \<Rightarrow> Inl Status_BadDataEncodingUnsupported
      | _ \<Rightarrow> encode_extension_object_values (encode_object enc) v)"

fun select_timestamps :: "TimestampsToReturn \<Rightarrow> 'x Data_Values.DataValue \<Rightarrow> 'x Data_Values.DataValue" where
  "select_timestamps TTR_Source (DataValue val st sts sps vts vps) = DataValue val st sts sps None None"
| "select_timestamps TTR_Server (DataValue val st sts sps vts vps) = DataValue val st None None vts vps"
| "select_timestamps TTR_Neither (DataValue val st sts sps vts vps) = DataValue val st None None None None"
| "select_timestamps _ d = d"

text \<open>\<open>None\<close> as in \<open>range_of\<close>: the code panics.\<close>

definition variable_value :: "(DataEncoding \<Rightarrow> 'x option \<Rightarrow> StatusCode + 'x option) \<Rightarrow> TimestampsToReturn
    \<Rightarrow> NumericRange \<Rightarrow> DataEncoding \<Rightarrow> 'x Variable \<Rightarrow> 'x Data_Values.DataValue option" where
  "variable_value encode_object ttr r enc var =
     (case var_value var of
        DataValue val st sts sps vts vps \<Rightarrow>
          map_option (\<lambda>(val', st'). select_timestamps ttr (DataValue val' st' sts sps vts vps))
            (case val of
               None \<Rightarrow> Some (None, None)
             | Some v \<Rightarrow>
                 map_option (\<lambda>read.
                   case bind_result read (\<lambda>v'. encode_value_for_data_encoding encode_object v' enc) of
                     Inl e \<Rightarrow> (None, Some e)
                   | Inr v' \<Rightarrow> (Some v', st))
                 (range_of r v)))"

section \<open>Writing\<close>

text \<open>A byte string becomes an array of bytes.\<close>

definition to_byte_array :: "'x Data_Values.Variant \<Rightarrow> 'x Data_Values.Variant option" where
  "to_byte_array v =
     (case v of
        V_ByteString None \<Rightarrow> Array_new Ty_Byte []
      | V_ByteString (Some b) \<Rightarrow> Array_new Ty_Byte (map V_Byte b)
      | _ \<Rightarrow> None)"

fun stamp_value :: "'x Data_Values.Variant option \<Rightarrow> StatusCode \<Rightarrow> DateTime \<Rightarrow> DateTime \<Rightarrow> 'x Data_Values.DataValue \<Rightarrow> 'x Data_Values.DataValue" where
  "stamp_value val st server_ts source_ts (DataValue _ _ _ sps _ vps) =
     DataValue val (Some st) (Some source_ts) sps (Some server_ts) vps"

definition set_value_range :: "('x \<Rightarrow> ExpandedNodeId) \<Rightarrow> 'x Variable \<Rightarrow> 'x Data_Values.Variant \<Rightarrow> NumericRange \<Rightarrow> StatusCode
    \<Rightarrow> DateTime \<Rightarrow> DateTime \<Rightarrow> 'x Variable \<times> (StatusCode + unit)" where
  "set_value_range body_type var v r st server_ts source_ts =
     (if r = NR_None then (var\<lparr>var_value := stamp_value (Some v) st server_ts source_ts (var_value var)\<rparr>, Inr ())
      else case var_value var of
        DataValue None _ _ _ _ _ \<Rightarrow> (var, Inl Status_BadIndexRangeInvalid)
      | DataValue (Some full) st0 sts sps vts vps \<Rightarrow>
          (case set_range_of body_type full r v of
             (full', Inl e) \<Rightarrow> (var\<lparr>var_value := DataValue (Some full') st0 sts sps vts vps\<rparr>, Inl e)
           | (full', Inr _) \<Rightarrow>
               (var\<lparr>var_value := stamp_value (Some full') st server_ts source_ts (var_value var)\<rparr>, Inr ())))"

definition expects_byte_array :: "'x Variable \<Rightarrow> bool" where
  "expects_byte_array var \<longleftrightarrow> sint (var_value_rank var) \<in> {- 3, - 2, 1} \<and> var_data_type var = NodeId_new 0 (Id_Numeric 3)"

definition Status_BadUnexpectedError :: StatusCode where "Status_BadUnexpectedError = 0x80010000"

text \<open>The write of the value attribute of a variable. \<open>now\<close> is the time of the call.\<close>

fun write_value :: "('x \<Rightarrow> ExpandedNodeId) \<Rightarrow> DateTime \<Rightarrow> 'x Variable \<Rightarrow> 'x Data_Values.DataValue \<Rightarrow> NumericRange
    \<Rightarrow> 'x Variable \<times> (StatusCode + unit)" where
  "write_value body_type now var (DataValue val st sts _ vts _) r =
     (let v = (case val of None \<Rightarrow> V_Empty | Some v \<Rightarrow> v);
          accepted = (case v of V_ByteString _ \<Rightarrow> if expects_byte_array var then to_byte_array v else Some v | _ \<Rightarrow> Some v) in
      case accepted of
        None \<Rightarrow> (var, Inl Status_BadUnexpectedError)
      | Some v' \<Rightarrow>
          set_value_range body_type var v' r (case st of None \<Rightarrow> 0 | Some s \<Rightarrow> s)
            (case vts of None \<Rightarrow> now | Some t \<Rightarrow> t) (case sts of None \<Rightarrow> now | Some t \<Rightarrow> t))"

section \<open>What a reader sees of a write\<close>

lemma to_byte_array_total: "to_byte_array (V_ByteString b) = Some (V_Array Ty_Byte (case b of None \<Rightarrow> [] | Some bs \<Rightarrow> map V_Byte bs) None)"
  by (simp add: to_byte_array_def Array_new_def values_are_of_type_def list_all_iff split: option.split)

definition accepted_value :: "'x Variable \<Rightarrow> 'x Data_Values.Variant option \<Rightarrow> 'x Data_Values.Variant" where
  "accepted_value var val =
     (case val of
        None \<Rightarrow> V_Empty
      | Some (V_ByteString b) \<Rightarrow>
          (if expects_byte_array var then V_Array Ty_Byte (case b of None \<Rightarrow> [] | Some bs \<Rightarrow> map V_Byte bs) None
           else V_ByteString b)
      | Some v \<Rightarrow> v)"

lemma write_value_accepted:
  "write_value body_type now var (DataValue val st sts sps vts vps) r =
     set_value_range body_type var (accepted_value var val) r (case st of None \<Rightarrow> 0 | Some s \<Rightarrow> s)
       (case vts of None \<Rightarrow> now | Some t \<Rightarrow> t) (case sts of None \<Rightarrow> now | Some t \<Rightarrow> t)"
proof (cases val)
  case (Some v)
  then show ?thesis by (cases v) (simp_all add: accepted_value_def to_byte_array_total)
qed (simp add: accepted_value_def)

text \<open>C30: a write of a whole value is what the next read returns. The write always succeeds; a read
  returns the value (a byte string as an array of bytes where one is expected), the status or Good, and
  the timestamps of the write or the time of the call. The picoseconds are not those of the write: they
  stay as the value before had them.\<close>

theorem whole_value_write_reads_back:
  "\<exists>var'. write_value body_type now var (DataValue val st sts sps vts vps) NR_None = (var', Inr ())
     \<and> variable_value encode_object TTR_Both NR_None Encoding_Binary var' =
         (case var_value var of DataValue _ _ _ old_sps _ old_vps \<Rightarrow>
            Some (DataValue (Some (accepted_value var val)) (Some (case st of None \<Rightarrow> 0 | Some s \<Rightarrow> s))
              (Some (case sts of None \<Rightarrow> now | Some t \<Rightarrow> t)) old_sps (Some (case vts of None \<Rightarrow> now | Some t \<Rightarrow> t)) old_vps))"
  unfolding write_value_accepted
  by (cases "var_value var")
    (simp add: set_value_range_def variable_value_def range_of_def encode_value_for_data_encoding_def)

lemma set_value_range_error: "set_value_range body_type var v r st server_ts source_ts = (var', Inl e) \<Longrightarrow> var' = var"
  by (cases var)
    (auto simp: set_value_range_def dest: set_range_of_error split: if_splits Data_Values.DataValue.splits option.splits
      prod.splits sum.splits)

lemma set_value_range_type:
  "set_value_range body_type var v r st server_ts source_ts = (var', Inr u) \<Longrightarrow>
   var_data_type var' = var_data_type var \<and> var_value_rank var' = var_value_rank var"
  by (auto simp: set_value_range_def split: if_splits Data_Values.DataValue.splits option.splits prod.splits sum.splits)

text \<open>A write that fails leaves the variable as it was: its value, its status and its timestamps.
  One that succeeds keeps its data type and its value rank.\<close>

theorem failed_write_keeps_variable:
  "case write_value body_type now var d r of
     (var', Inl e) \<Rightarrow> var' = var
   | (var', Inr _) \<Rightarrow> var_data_type var' = var_data_type var \<and> var_value_rank var' = var_value_rank var"
proof (cases d)
  case (DataValue val st sts sps vts vps)
  obtain var' result where w: "write_value body_type now var d r = (var', result)" by fastforce
  note range = w [unfolded DataValue write_value_accepted]
  show ?thesis
  proof (cases result)
    case (Inl e)
    with set_value_range_error [OF range [unfolded Inl]] w show ?thesis by simp
  next
    case (Inr u)
    with set_value_range_type [OF range [unfolded Inr]] w show ?thesis by simp
  qed
qed

end
