(* ===== verification/Spec2Isabelle.thy ===== *)
theory Spec2Isabelle
  imports Tcp_Codec Open_Secure_Channel Chunker Session_Subscriptions Safety Process_Alarms
    Like_Match Programs Text_Forms Access_Control Data_Values Variant_Ranges Variable_Values
begin

text \<open>
  A verification development for async-opcua, an OPC UA client and server in Rust.

  \<^bold>\<open>The program.\<close> Bytes from a TCP stream are cut into frames by the codec
  (\<open>async-opcua-core/src/comms/tcp_codec.rs\<close>); a frame is a connection message (\<open>tcp_types.rs\<close>) or a
  message chunk (\<open>message_chunk.rs\<close>). The secure channel (\<open>secure_channel/\<close>) opens a chunk with the keys
  or certificates of its security policy (\<open>async-opcua-crypto\<close>), checks its sequence number
  (\<open>sequence_number.rs\<close>) and the chunker (\<open>chunker.rs\<close>) joins the chunks of a message. Sending runs the
  same steps backwards. Above the transport, the server keeps subscriptions for each session
  (\<open>async-opcua-server/src/subscriptions\<close>): monitored items queue notifications, a subscription packs them
  into messages when it is ticked, the session answers publish requests with them and keeps them for
  retransmission. Alarms (\<open>alarms\<close>), programs (\<open>programs\<close>), the directory's wildcard filters
  (\<open>gds/like_match.rs\<close>), the roles of users and what they may do (\<open>rbac\<close>) and the safety layer (\<open>async-opcua-safety\<close>) are components of their own.

  \<^bold>\<open>Theories, in the order of their dependencies.\<close>
  \<^item> \<open>Prelude\<close>: results as sums, panics as options, readers and writers of byte streams, little-endian
    numbers, the collections \<open>wire_simps\<close> and \<open>reader_intros\<close>.
  \<^item> \<open>Encoding\<close>: \<open>async-opcua-types/src/encoding.rs\<close> with strings, byte strings and GUIDs: the codecs of
    the primitive types, the decoding limits, the depth gauge.
  \<^item> \<open>Status_Codes\<close>: \<open>status_code.rs\<close>; the locale \<open>status_field\<close> states what a bit field promises, and every
    accessor pair interprets it.
  \<^item> \<open>Node_Ids\<close>: node ids, expanded node ids, qualified names, localized texts and their codecs.
  \<^item> \<open>Sequence_Numbers\<close>: both numbering modes of a channel, handles, and the lock-free \<open>AtomicHandle\<close> as a
    step relation of interleaved callers.
  \<^item> \<open>Security_Policy\<close>, \<open>Asymmetric_Crypto\<close>: the constants and the dispatch of the policies, the block loops
    of RSA. One RSA block, the signatures and the hashes are parameters with their laws as hypotheses.
  \<^item> \<open>Tcp_Types\<close>, \<open>Message_Chunk\<close>, \<open>Tcp_Codec\<close>: connection messages, chunk and security headers with the
    copying and the zero-copy decoder, the frame codec on a growing buffer.
  \<^item> \<open>Secure_Channel\<close>, \<open>Framing\<close>, \<open>Open_Secure_Channel\<close>: the state of a channel with its key table and
    renewal times; signing, padding and encrypting chunks and the reverse; the properties of the
    OpenSecureChannel path.
  \<^item> \<open>Chunker\<close>: the streaming encoder that cuts a message into chunks and the stream that reads it back; the
    message is a parameter, given by the bytes it writes.
  \<^item> \<open>Monitored_Items\<close>, \<open>Retransmission_Queue\<close>, \<open>Subscription\<close>, \<open>Session_Subscriptions\<close>: the server's
    subscriptions from one item to the publish loop of a session's actor.
  \<^item> \<open>Safety\<close>: the checksum, the safety data unit, its builder and its validator.
  \<^item> \<open>Floating_Point\<close>: the double precision arithmetic of the standard library the alarms use, exact on
    values and rounding to nearest even.
  \<^item> \<open>Conditions\<close>, \<open>Process_Alarms\<close>: the state machine of alarm conditions, the client methods on them, and
    each kind of alarm. The locales \<open>reporting_alarm\<close> and \<open>operated_alarm\<close> state what an alarm promises
    to those who follow its events; every kind interprets them.
  \<^item> \<open>Like_Match\<close>: the wildcard matcher and the language of a pattern.
  \<^item> \<open>Programs\<close>: the program state machine, its engine and the background task; method calls and
    tasks run in the pieces between two accesses to shared data and interleave.
  \<^item> \<open>Text_Forms\<close>: node ids, expanded node ids and numeric ranges as texts, with their parsers; the locale
    \<open>text_form\<close> states what a printed form promises.
  \<^item> \<open>Role_Management\<close>, \<open>Access_Control\<close>: \<open>async-opcua-server/src/rbac\<close> and the checks of
    \<open>address_space/utils.rs\<close>: which roles an identity has, the methods that change the rules, and what the
    roles may do with a node.
  \<^item> \<open>Data_Values\<close>: \<open>variant/mod.rs\<close>, \<open>data_value.rs\<close>, \<open>diagnostic_info.rs\<close>, \<open>extension_object.rs\<close>, \<open>array.rs\<close>:
    values of any type with their binary codecs; decoders recurse under the depth gauge. The bodies of extension
    objects are a parameter, \<open>fallback_codec\<close> the instance that \<open>type_loader/fallback.rs\<close> provides.
  \<^item> \<open>Variant_Ranges\<close>, \<open>Variable_Values\<close>: reading and writing index ranges of values, the row-major loop over
    several dimensions, and the value attribute of a variable (\<open>variable.rs\<close>, \<open>write_node_value\<close>).

  \<^bold>\<open>How code becomes definitions.\<close> A struct is a record, an enum a datatype, a machine integer a word of its
  width; \<open>Result\<close> is a sum with the error on the left, a panic is \<open>None\<close> or \<open>Stop_panic\<close>. A method with
  \<open>&mut self\<close> returns the new state. A \<open>HashMap\<close> whose order the code does not use is a map; where the
  order of an iteration matters, the order is a parameter. Locks and channels of \<open>tokio\<close> appear only as the points
  between which steps interleave. The clock is an argument. Third-party code (cryptography, X.509,
  \<open>tokio\<close>, \<open>chrono\<close>) and generated types are parameters.

  \<^bold>\<open>What the lemmas show.\<close> Each codec has a round trip, the announced length and the exact use of its bytes.
  Each stateful component has an invariant that every operation keeps, and, where it has one, a
  specification it refines: the receive stream refines a buffer, the notification queue a bounded
  buffer, the retransmission queue a list, the monitored-item pass a batching of the collected
  notifications, the safety validator the due packets of a history, the matcher the language of its pattern,
  the access decision the rules of the roles, the loop over index ranges the positions they select.
  What is written to a part of a value is what is read from it.
  Loops are shown to end: the publish loop, the aggregate flush, the matcher, the task of a program. Where the
  code does not do what it means to, a theorem exhibits the behaviour and the manifest lists it as a finding.

  \<^bold>\<open>Bounds and fuel.\<close> Loops that may not end carry fuel (\<open>ss_tick\<close> and the publish loop of
  \<open>Session_Subscriptions\<close>, the aggregate flush) and the properties say for which fuel they return; running
  out of it is a value of its own (\<open>Stop_fuel\<close> or \<open>None\<close>). \<open>like_loop\<close> is a partial function in the
  option monad and proved total. A program's task makes at most 100 iterations of six pieces.

  \<^bold>\<open>Not modelled.\<close> The cryptographic primitives and certificates (third-party code behind thin wrappers); the
  sockets and the client session (asynchronous I/O over generated types); JSON and XML encodings; address
  space nodes, their creation and the rendering of events; the generated types, node sets and the code
  generators; audit events, discovery, the history backends, samples and companion models. In the modelled parts, memory
  reuse (pools, vectored buffers beyond their contents), logging and metrics without influence on results are left out.
\<close>

end
